(* ===== verification/Prelude.thy ===== *)
theory Prelude
  imports Complex_Main "HOL-Library.Word" "HOL-Library.AList" "HOL-Library.Product_Lexorder"
begin

text \<open>
  Shared vocabulary of the ModelSwitch development: the machine integers of the Rust code, its
  saturating arithmetic, hash maps as association lists, bounded sliding windows, and the
  generic lemmas the component theories rest on.

  \<^item> Unsigned integers keep their width (\<open>u8\<close>, \<open>u32\<close>, \<open>u64\<close> are words). The release profile of
    the crate does not turn on overflow checks, so \<open>+\<close>, \<open>+=\<close> and \<open>*\<close> wrap.
  \<^item> A \<open>HashMap\<close> is an association list whose order stands for the (arbitrary) iteration order;
    \<open>hm_ok\<close> says that keys are distinct. Statements about a map hold for every such list, hence
    for every iteration order.
  \<^item> Clocks are explicit: \<open>Utc::now()\<close> is an \<open>int\<close> and \<open>Instant::now()\<close> a \<open>nat\<close>, both in
    nanoseconds, passed to the operation that reads them; an operation reads its clock once.
\<close>

section \<open>Machine integers\<close>

type_synonym u8 = "8 word"
type_synonym u32 = "32 word"
type_synonym u64 = "64 word"
type_synonym uuid = "128 word"
type_synonym instant = nat
type_synonym utc = int

named_theorems rust_arith \<open>unsigned readings of the saturating operations\<close>
named_theorems hm_simps \<open>lookups after hash map operations\<close>

abbreviation u64_max :: u64 where "u64_max \<equiv> - 1"
abbreviation u32_max :: u32 where "u32_max \<equiv> - 1"

definition sat_add :: "'a::len word \<Rightarrow> 'a word \<Rightarrow> 'a word" where
  "sat_add a b = (if unat a + unat b < 2 ^ LENGTH('a) then a + b else - 1)"

definition sat_sub :: "'a::len word \<Rightarrow> 'a word \<Rightarrow> 'a word" where
  "sat_sub a b = (if a < b then 0 else a - b)"

definition sat_mul :: "'a::len word \<Rightarrow> 'a word \<Rightarrow> 'a word" where
  "sat_mul a b = (if unat a * unat b < 2 ^ LENGTH('a) then a * b else - 1)"

definition sat_pow :: "'a::len word \<Rightarrow> nat \<Rightarrow> 'a word" where
  "sat_pow a n = (if unat a ^ n < 2 ^ LENGTH('a) then a ^ n else - 1)"

lemma unat_minus_one_max: "unat (- 1 :: 'a::len word) = 2 ^ LENGTH('a) - 1"
proof -
  have "unat (- 1 :: 'a word) = unat (of_nat (2 ^ LENGTH('a) - 1) :: 'a word)"
    by (simp flip: word_exp_length_eq_0)
  also have "\<dots> = 2 ^ LENGTH('a) - 1" by (subst unat_of_nat) simp
  finally show ?thesis .
qed

lemma unat_sat_add [rust_arith]:
  "unat (sat_add a b) = min (unat a + unat b) (2 ^ LENGTH('a) - 1)" for a b :: "'a::len word"
  by (auto simp: sat_add_def unat_minus_one_max unat_word_ariths)

lemma unat_sat_sub [rust_arith]: "unat (sat_sub a b) = unat a - unat b" for a b :: "'a::len word"
  by (auto simp: sat_sub_def word_less_nat_alt not_less unat_sub word_le_nat_alt)

lemma unat_sat_mul [rust_arith]:
  "unat (sat_mul a b) = min (unat a * unat b) (2 ^ LENGTH('a) - 1)" for a b :: "'a::len word"
  by (auto simp: sat_mul_def unat_minus_one_max unat_word_ariths)

lemma unat_power_no_overflow:
  "unat a ^ n < 2 ^ LENGTH('a) \<Longrightarrow> unat (a ^ n) = unat a ^ n" for a :: "'a::len word"
proof (induction n)
  case 0
  then show ?case by (simp add: unat_1)
next
  case (Suc n)
  show ?case
  proof (cases "unat a = 0")
    case True
    then have "a = 0" by (simp add: unat_0_iff)
    then show ?thesis by simp
  next
    case False
    then have "unat a ^ n \<le> unat a ^ Suc n" by simp
    with Suc.prems have "unat a ^ n < 2 ^ LENGTH('a)" by linarith
    with Suc show ?thesis by (simp add: unat_word_ariths)
  qed
qed

lemma unat_sat_pow [rust_arith]:
  "unat (sat_pow a n) = min (unat a ^ n) (2 ^ LENGTH('a) - 1)" for a :: "'a::len word"
  by (auto simp: sat_pow_def unat_minus_one_max unat_power_no_overflow)

text \<open>A \<open>u64\<close> below \<open>2 ^ 63\<close> keeps its value under \<open>as i64\<close>.\<close>

lemma sint_u64_small:
  assumes "unat w < 2 ^ 63"
  shows "sint (w :: u64) = int (unat w)"
proof -
  have "int (unat w) < int (2 ^ 63)" using assms by (simp only: of_nat_less_iff)
  then have u: "uint w < 2 ^ 63" by simp
  have "sint w = signed_take_bit 63 (uint w)" by (simp add: sint_uint)
  also have "\<dots> = uint w"
    using u by (intro signed_take_bit_int_eq_self) (auto intro: order_trans[OF _ uint_ge_0])
  finally show ?thesis by simp
qed

lemma sint_u64_neg_iff: "sint (w :: u64) < 0 \<longleftrightarrow> 2 ^ 63 \<le> unat w"
proof -
  have lt: "unat w < 2 ^ 64" using unsigned_less[of w] by simp
  have "bit (uint w) 63 \<longleftrightarrow> bit (unat w) 63" by (simp add: bit_unsigned_iff)
  also have "\<dots> \<longleftrightarrow> odd (unat w div 2 ^ 63)" by (simp add: bit_iff_odd)
  also have "\<dots> \<longleftrightarrow> 2 ^ 63 \<le> unat w"
  proof (cases "2 ^ 63 \<le> unat w")
    case True
    have "unat w div 2 ^ 63 = 1"
      by (rule div_nat_eqI) (use True lt in simp_all)
    with True show ?thesis by simp
  next
    case False
    then show ?thesis by simp
  qed
  finally show ?thesis by (simp add: sint_uint)
qed

lemma unat_plus_one:
  fixes w :: "'a::len word"
  assumes "w \<noteq> - 1"
  shows "unat (w + 1) = unat w + 1"
proof -
  have "unat w \<noteq> 2 ^ LENGTH('a) - 1"
    using assms by (metis unat_minus_one_max word_unat_eq_iff)
  moreover have "unat w < 2 ^ LENGTH('a)" by (rule unsigned_less)
  ultimately have "unat w + 1 < 2 ^ LENGTH('a)" by linarith
  then show ?thesis by (simp add: unat_word_ariths)
qed

lemma unat_ucast_small:
  "unat w < 2 ^ LENGTH('b) \<Longrightarrow> unat (ucast w :: 'b::len word) = unat w" for w :: "'a::len word"
  by (simp add: unsigned_ucast_eq take_bit_nat_eq_self)

lemma unat_min: "unat (min a b) = min (unat a) (unat b)" for a b :: "'a::len word"
  by (simp add: min_def word_le_nat_alt)

section \<open>Hash maps\<close>

type_synonym ('k, 'v) hashmap = "('k \<times> 'v) list"

abbreviation hm_get :: "('k, 'v) hashmap \<Rightarrow> 'k \<Rightarrow> 'v option" where
  "hm_get m k \<equiv> map_of m k"

abbreviation hm_insert :: "'k \<Rightarrow> 'v \<Rightarrow> ('k, 'v) hashmap \<Rightarrow> ('k, 'v) hashmap" where
  "hm_insert k v m \<equiv> AList.update k v m"

abbreviation hm_remove :: "'k \<Rightarrow> ('k, 'v) hashmap \<Rightarrow> ('k, 'v) hashmap" where
  "hm_remove k m \<equiv> AList.delete k m"

definition hm_retain :: "('k \<Rightarrow> 'v \<Rightarrow> bool) \<Rightarrow> ('k, 'v) hashmap \<Rightarrow> ('k, 'v) hashmap" where
  "hm_retain P m = filter (\<lambda>(k, v). P k v) m"

definition hm_contains :: "('k, 'v) hashmap \<Rightarrow> 'k \<Rightarrow> bool" where
  "hm_contains m k \<longleftrightarrow> hm_get m k \<noteq> None"

definition hm_values :: "('k, 'v) hashmap \<Rightarrow> 'v list" where
  "hm_values m = map snd m"

definition hm_ok :: "('k, 'v) hashmap \<Rightarrow> bool" where
  "hm_ok m \<longleftrightarrow> distinct (map fst m)"

lemma hm_get_insert [hm_simps, simp]:
  "hm_get (hm_insert k v m) k' = (if k' = k then Some v else hm_get m k')"
  by (simp add: update_conv')

lemma hm_get_remove [hm_simps, simp]:
  "hm_get (hm_remove k m) k' = (if k' = k then None else hm_get m k')"
  by (simp add: delete_conv')

lemma hm_ok_Nil [simp]: "hm_ok []"
  by (simp add: hm_ok_def)

lemma hm_ok_insert [simp, intro]: "hm_ok m \<Longrightarrow> hm_ok (hm_insert k v m)"
  by (simp add: hm_ok_def distinct_update)

lemma hm_ok_remove [simp, intro]: "hm_ok m \<Longrightarrow> hm_ok (hm_remove k m)"
  by (simp add: hm_ok_def distinct_delete)

lemma hm_ok_retain [simp, intro]: "hm_ok m \<Longrightarrow> hm_ok (hm_retain P m)"
  by (simp add: hm_ok_def hm_retain_def distinct_map_filter)

lemma hm_get_iff: "hm_ok m \<Longrightarrow> hm_get m k = Some v \<longleftrightarrow> (k, v) \<in> set m"
  by (simp add: hm_ok_def)

lemma fold_keeps: "P s \<Longrightarrow> (\<And>x s. P s \<Longrightarrow> P (f x s)) \<Longrightarrow> P (fold f xs s)"
  by (induction xs arbitrary: s) auto

lemma fold_remove_get: "hm_get (fold hm_remove ks m) k = (if k \<in> set ks then None else hm_get m k)"
  by (induction ks arbitrary: m) auto

lemma fold_remove_ok: "hm_ok m \<Longrightarrow> hm_ok (fold hm_remove ks m)"
  by (rule fold_keeps[where P = hm_ok]) auto

lemma hm_get_retain [hm_simps]:
  assumes "hm_ok m"
  shows "hm_get (hm_retain P m) k =
    (case hm_get m k of None \<Rightarrow> None | Some v \<Rightarrow> if P k v then Some v else None)"
proof (cases "hm_get m k")
  case None
  then have "k \<notin> fst ` set (hm_retain P m)"
    by (auto simp: hm_retain_def map_of_eq_None_iff rev_image_eqI)
  then have "hm_get (hm_retain P m) k = None" by (simp add: map_of_eq_None_iff)
  then show ?thesis using None by simp
next
  case (Some v)
  show ?thesis
  proof (cases "P k v")
    case True
    with Some assms have "(k, v) \<in> set (hm_retain P m)"
      by (auto simp: hm_retain_def hm_get_iff)
    with assms have "hm_get (hm_retain P m) k = Some v" by (simp add: hm_get_iff)
    with Some True show ?thesis by simp
  next
    case False
    have "k \<notin> fst ` set (hm_retain P m)"
      using Some False assms by (auto simp: hm_retain_def hm_get_iff hm_ok_def dest: eq_key_imp_eq_value)
    then have "hm_get (hm_retain P m) k = None" by (simp add: map_of_eq_None_iff)
    then show ?thesis using Some False by simp
  qed
qed

lemma hm_values_get: "hm_ok m \<Longrightarrow> v \<in> set (hm_values m) \<longleftrightarrow> (\<exists>k. hm_get m k = Some v)"
  by (force simp: hm_values_def hm_get_iff)

lemma length_hm_insert:
  "length (hm_insert k v m) = (if hm_contains m k then length m else Suc (length m))"
  by (induction m) (auto simp: hm_contains_def)

lemma set_hm_retain: "set (hm_retain P m) = {(k, v) \<in> set m. P k v}"
  by (auto simp: hm_retain_def)

section \<open>Bounded windows\<close>

text \<open>
  \<open>push_back\<close> followed by one \<open>pop_front\<close> when the length exceeds the window: the pattern of the
  latency and of the cooldown tracker.
\<close>

definition push_window :: "nat \<Rightarrow> 'a list \<Rightarrow> 'a \<Rightarrow> 'a list" where
  "push_window n q x = (let q' = q @ [x] in if length q' > n then tl q' else q')"

lemma push_window_length: "length q \<le> n \<Longrightarrow> length (push_window n q x) \<le> n"
  by (auto simp: push_window_def Let_def)

lemma push_window_suffix:
  assumes "0 < n"
  shows "push_window n (drop (length xs - n) xs) x = drop (length (xs @ [x]) - n) (xs @ [x])"
proof (cases "length xs < n")
  case True
  then show ?thesis by (simp add: push_window_def Let_def)
next
  case False
  then have "length (drop (length xs - n) xs @ [x]) = Suc n" by simp
  moreover have "tl (drop (length xs - n) xs @ [x]) = drop (Suc (length xs - n)) xs @ [x]"
    using False assms by (simp add: tl_append2 tl_drop drop_Suc)
  ultimately show ?thesis
    using False assms by (simp add: push_window_def Let_def Suc_diff_le)
qed

text \<open>Pushing a whole history leaves exactly its last \<open>n\<close> elements.\<close>

lemma foldl_push_window:
  assumes "0 < n"
  shows "foldl (push_window n) [] xs = drop (length xs - n) xs"
  using assms by (induction xs rule: rev_induct) (auto simp: push_window_suffix simp del: length_append)

section \<open>Lists\<close>

lemma sort_key_eq_Nil [simp]: "sort_key f xs = [] \<longleftrightarrow> xs = []"
  by (metis length_0_conv length_sort)

lemma set_take_sort_key: "x \<in> set (take n (sort_key f xs)) \<Longrightarrow> x \<in> set xs"
  by (metis in_set_takeD set_sort)

text \<open>An element among the first \<open>n\<close> of a sorted list has fewer than \<open>n\<close> strictly better rivals.\<close>

lemma take_sort_key_rank:
  assumes "i < n" "i < length xs"
  shows "length (filter (\<lambda>y. f y < f (sort_key f xs ! i)) xs) < n"
proof -
  let ?s = "sort_key f xs"
  have sorted: "sorted (map f ?s)" by simp
  have "filter (\<lambda>y. f y < f (?s ! i)) ?s = filter (\<lambda>y. f y < f (?s ! i)) (take i ?s @ drop i ?s)"
    by simp
  also have "\<dots> = filter (\<lambda>y. f y < f (?s ! i)) (take i ?s)"
  proof -
    have "\<not> f y < f (?s ! i)" if "y \<in> set (drop i ?s)" for y
    proof -
      from that obtain d where d: "d < length ?s - i" "y = ?s ! (i + d)"
        by (auto simp: in_set_conv_nth)
      define j where "j = i + d"
      with d have j: "i \<le> j" "j < length ?s" "y = ?s ! j" by simp_all
      then have "map f ?s ! i \<le> map f ?s ! j"
        using sorted sorted_nth_mono by (metis length_map)
      with j assms show ?thesis by (simp add: not_less)
    qed
    then show ?thesis by (simp add: filter_empty_conv del: append_take_drop_id)
  qed
  finally have "length (filter (\<lambda>y. f y < f (?s ! i)) ?s) \<le> i"
    by (metis length_filter_le length_take min.cobounded2 order_trans)
  moreover have "length (filter (\<lambda>y. f y < f (?s ! i)) ?s) = length (filter (\<lambda>y. f y < f (?s ! i)) xs)"
    by (metis filter_sort length_sort)
  ultimately show ?thesis using assms by simp
qed

section \<open>Text\<close>

text \<open>\<open>str::split\<close> and \<open>str::split_once\<close> on a character.\<close>

fun split_on :: "char \<Rightarrow> string \<Rightarrow> string list" where
  "split_on d [] = [[]]"
| "split_on d (c # cs) =
     (if c = d then [] # split_on d cs
      else case split_on d cs of [] \<Rightarrow> [[c]] | s # ss \<Rightarrow> (c # s) # ss)"

definition split_once :: "char \<Rightarrow> string \<Rightarrow> (string \<times> string) option" where
  "split_once d s =
     (if d \<in> set s then Some (takeWhile (\<lambda>c. c \<noteq> d) s, tl (dropWhile (\<lambda>c. c \<noteq> d) s)) else None)"

text \<open>\<open>str::parse\<close> to an unsigned integer with the given maximum: an optional plus sign, then at
  least one digit.\<close>

definition digit_value :: "char \<Rightarrow> nat option" where
  "digit_value c = (if 48 \<le> (of_char c :: nat) \<and> (of_char c :: nat) \<le> 57 then Some (of_char c - 48) else None)"

fun parse_digits :: "nat \<Rightarrow> nat \<Rightarrow> string \<Rightarrow> nat option" where
  "parse_digits maximum acc [] = Some acc"
| "parse_digits maximum acc (c # cs) =
     (case digit_value c of
        None \<Rightarrow> None
      | Some d \<Rightarrow> let acc' = acc * 10 + d
                  in if maximum < acc' then None else parse_digits maximum acc' cs)"

definition parse_uint :: "nat \<Rightarrow> string \<Rightarrow> nat option" where
  "parse_uint maximum s =
     (let digits = (case s of c # cs \<Rightarrow> if c = CHR ''+'' then cs else s | [] \<Rightarrow> [])
      in if digits = [] then None else parse_digits maximum 0 digits)"

definition starts_with :: "string \<Rightarrow> string \<Rightarrow> bool" where
  "starts_with s p \<longleftrightarrow> take (length p) s = p"

text \<open>\<open>str::contains\<close> with a text.\<close>

fun str_contains :: "string \<Rightarrow> string \<Rightarrow> bool" where
  "str_contains [] p = (p = [])"
| "str_contains (c # cs) p = (starts_with (c # cs) p \<or> str_contains cs p)"

text \<open>\<open>str::trim\<close> on ASCII text.\<close>

definition is_space :: "char \<Rightarrow> bool" where
  "is_space c \<longleftrightarrow> (of_char c :: nat) = 32 \<or> 9 \<le> (of_char c :: nat) \<and> (of_char c :: nat) \<le> 13"

definition trim :: "string \<Rightarrow> string" where
  "trim s = rev (dropWhile is_space (rev (dropWhile is_space s)))"

lemma starts_with_iff: "starts_with s p \<longleftrightarrow> (\<exists>rest. s = p @ rest)"
  unfolding starts_with_def by (metis append_eq_conv_conj append_take_drop_id)

lemma str_contains_iff: "str_contains s p \<longleftrightarrow> (\<exists>a b. s = a @ p @ b)"
proof (induction s)
  case Nil
  then show ?case by auto
next
  case (Cons c cs)
  have "(\<exists>a b. c # cs = a @ p @ b) \<longleftrightarrow> (\<exists>b. c # cs = p @ b) \<or> (\<exists>a b. cs = a @ p @ b)"
    by (metis append_Cons append_Nil list.exhaust list.sel(3))
  with Cons show ?case by (simp add: starts_with_iff)
qed

end
