(* ===== verification/Glob.thy ===== *)
theory Glob
  imports Prelude "HOL-Library.Sublist"
begin

text \<open>
  The glob matcher of \<open>channel/mod.rs\<close> (\<open>matches_glob\<close>), used for excluded models, virtual key
  model lists, model groups and payload rules, with its reference semantics: the set of strings a
  pattern denotes. Strings are byte lists, as the Rust code matches on \<open>as_bytes()\<close>.
\<close>

fun match_helper :: "string \<Rightarrow> string \<Rightarrow> bool" where
  "match_helper [] t = (t = [])"
| "match_helper (c # p) t =
     (if c = CHR ''*'' then
        (if match_helper p t then True
         else if t \<noteq> [] then match_helper (c # p) (tl t) else False)
      else if c = CHR ''?'' then (if t \<noteq> [] then match_helper p (tl t) else False)
      else (if t \<noteq> [] then hd t = c \<and> match_helper p (tl t) else False))"

definition matches_glob :: "string \<Rightarrow> string \<Rightarrow> bool" where
  "matches_glob pattern text = match_helper pattern text"

text \<open>Reference semantics.\<close>

fun glob_lang :: "string \<Rightarrow> string set" where
  "glob_lang [] = {[]}"
| "glob_lang (c # p) =
     (if c = CHR ''*'' then {u @ v | u v. v \<in> glob_lang p}
      else if c = CHR ''?'' then {x # v | x v. v \<in> glob_lang p}
      else {c # v | v. v \<in> glob_lang p})"

definition no_wildcard :: "string \<Rightarrow> bool" where
  "no_wildcard p \<longleftrightarrow> CHR ''*'' \<notin> set p \<and> CHR ''?'' \<notin> set p"

lemma star_lang_unfold:
  "t \<in> glob_lang (CHR ''*'' # p) \<longleftrightarrow>
     t \<in> glob_lang p \<or> (t \<noteq> [] \<and> tl t \<in> glob_lang (CHR ''*'' # p))"
proof
  assume "t \<in> glob_lang (CHR ''*'' # p)"
  then obtain u v where t: "t = u @ v" and v: "v \<in> glob_lang p" by auto
  show "t \<in> glob_lang p \<or> (t \<noteq> [] \<and> tl t \<in> glob_lang (CHR ''*'' # p))"
    using t v by (cases u) auto
next
  assume "t \<in> glob_lang p \<or> (t \<noteq> [] \<and> tl t \<in> glob_lang (CHR ''*'' # p))"
  then show "t \<in> glob_lang (CHR ''*'' # p)"
  proof
    assume "t \<in> glob_lang p"
    then have "t = [] @ t \<and> t \<in> glob_lang p" by simp
    then show ?thesis by (simp, blast)
  next
    assume *: "t \<noteq> [] \<and> tl t \<in> glob_lang (CHR ''*'' # p)"
    then obtain u v where "tl t = u @ v" and v: "v \<in> glob_lang p" by auto
    with * have "t = (hd t # u) @ v" by (cases t) auto
    with v show ?thesis by (simp, blast)
  qed
qed

lemma match_helper_lang: "match_helper p t \<longleftrightarrow> t \<in> glob_lang p"
proof (induction p t rule: match_helper.induct)
  case (1 t)
  then show ?case by simp
next
  case (2 c p t)
  show ?case
  proof (cases "c = CHR ''*''")
    case True
    then show ?thesis using 2 star_lang_unfold[of t p]
      by (simp del: glob_lang.simps split del: if_split) (auto split: if_splits)
  next
    case False
    then show ?thesis using 2 by (cases t) (auto split: if_splits)
  qed
qed

lemma glob_lang_literal: "no_wildcard p \<Longrightarrow> glob_lang p = {p}"
  by (induction p) (auto simp: no_wildcard_def)

lemma glob_lang_literal_append:
  "no_wildcard p \<Longrightarrow> glob_lang (p @ q) = {p @ v | v. v \<in> glob_lang q}"
  by (induction p) (auto simp: no_wildcard_def)

lemma matches_glob_literal: "no_wildcard p \<Longrightarrow> matches_glob p t \<longleftrightarrow> t = p"
  by (simp add: matches_glob_def match_helper_lang glob_lang_literal)

lemma matches_glob_prefix: "no_wildcard p \<Longrightarrow> matches_glob (p @ ''*'') t \<longleftrightarrow> prefix p t"
  by (auto simp: matches_glob_def match_helper_lang glob_lang_literal_append prefix_def)

lemma matches_glob_star [simp]: "matches_glob ''*'' t"
  by (auto simp: matches_glob_def match_helper_lang)

text \<open>C36: the backtracking matcher accepts exactly the strings the glob pattern denotes, where
  \<open>*\<close> stands for any byte sequence, \<open>?\<close> for any single byte (so for a whole character of ASCII text only)
  and every other byte for itself.\<close>

theorem matches_glob_correct: "matches_glob pattern text \<longleftrightarrow> text \<in> glob_lang pattern"
  by (simp add: matches_glob_def match_helper_lang)

text \<open>The comments of the code say that \<open>?\<close> matches one character: a letter that UTF-8 encodes in two bytes
  needs two question marks.\<close>

theorem question_mark_is_one_byte:
  "\<not> matches_glob ''?'' [CHR 0xC3, CHR 0xA9] \<and> matches_glob ''??'' [CHR 0xC3, CHR 0xA9]"
  by code_simp

end
