(* ===== verification/Float64.thy ===== *)
theory Float64
  imports Prelude "HOL-Library.Log_Nat"
begin

text \<open>
  The finite \<open>f64\<close> values of the Rust code are rationals; an arithmetic operation is the exact
  rational operation followed by \<open>f64_rnd\<close>, rounding to the nearest double with ties to even
  (53-bit significand, smallest exponent \<open>-1074\<close>). Overflow to infinity and NaN are not modelled:
  the model speaks about finite values only. Conversions are those of Rust's \<open>as\<close>.

  The lemmas give what the users of the arithmetic need: representable values are fixed points of
  the rounding and rounding is monotone.
\<close>

type_synonym f64 = rat

section \<open>The binary exponent of a positive rational\<close>

definition ilog2 :: "rat \<Rightarrow> int" where
  "ilog2 x = (let (n, d) = quotient_of x;
                  e = bitlen n - bitlen d
              in if 2 powi e \<le> x then e else e - 1)"

definition round_even :: "rat \<Rightarrow> int" where
  "round_even q = (let f = \<lfloor>q\<rfloor>; r = q - of_int f
     in if r < 1 / 2 then f else if r > 1 / 2 then f + 1 else if even f then f else f + 1)"

definition f64_exp :: "rat \<Rightarrow> int" where
  "f64_exp x = max (ilog2 \<bar>x\<bar> - 52) (- 1074)"

definition f64_rnd :: "rat \<Rightarrow> f64" where
  "f64_rnd x = (if x = 0 then 0 else let u = 2 powi f64_exp x in of_int (round_even (x / u)) * u)"

definition f64_add :: "f64 \<Rightarrow> f64 \<Rightarrow> f64" where "f64_add x y = f64_rnd (x + y)"
definition f64_sub :: "f64 \<Rightarrow> f64 \<Rightarrow> f64" where "f64_sub x y = f64_rnd (x - y)"
definition f64_mul :: "f64 \<Rightarrow> f64 \<Rightarrow> f64" where "f64_mul x y = f64_rnd (x * y)"
definition f64_div :: "f64 \<Rightarrow> f64 \<Rightarrow> f64" where "f64_div x y = f64_rnd (x / y)"

text \<open>A decimal literal of the source denotes the nearest double.\<close>

abbreviation f64_lit :: "rat \<Rightarrow> f64" where "f64_lit x \<equiv> f64_rnd x"

text \<open>Rust's \<open>as\<close>: integer to \<open>f64\<close> rounds, \<open>f64\<close> to \<open>u64\<close> truncates and saturates.\<close>

definition f64_of_nat :: "nat \<Rightarrow> f64" where "f64_of_nat n = f64_rnd (of_nat n)"

definition f64_of_u64 :: "u64 \<Rightarrow> f64" where "f64_of_u64 w = f64_of_nat (unat w)"

definition f64_as_u64 :: "f64 \<Rightarrow> u64" where
  "f64_as_u64 x = (if x \<le> 0 then 0 else if 2 ^ 64 \<le> x then - 1 else of_int \<lfloor>x\<rfloor>)"

section \<open>The exponent brackets its argument\<close>

lemma bitlen_powi_bounds:
  assumes "0 < n"
  shows "(2::rat) powi (bitlen n - 1) \<le> of_int n" and "of_int n < (2::rat) powi bitlen n"
proof -
  let ?l = "floorlog 2 (nat n)"
  have pos: "0 < ?l" using assms by (auto simp: floorlog_def)
  have "2 ^ (?l - 1) \<le> nat n" "nat n < 2 ^ ?l"
    using floorlog_bounds[of "nat n" 2] assms by auto
  then have "(2::int) ^ (?l - 1) \<le> n" "n < 2 ^ ?l"
    using assms by (simp_all add: le_nat_iff nat_less_iff)
  then have "(of_int (2 ^ (?l - 1)) :: rat) \<le> of_int n" "(of_int n :: rat) < of_int (2 ^ ?l)"
    by (simp_all only: of_int_le_iff of_int_less_iff)
  moreover have "(2::rat) powi (int ?l - 1) = 2 ^ (?l - 1)"
    using pos by (simp add: power_int_def nat_diff_distrib)
  ultimately show "(2::rat) powi (bitlen n - 1) \<le> of_int n" "of_int n < (2::rat) powi bitlen n"
    by (simp_all add: bitlen_def)
qed

lemma ilog2_bounds:
  assumes "0 < x"
  shows "2 powi ilog2 x \<le> x" and "x < 2 powi (ilog2 x + 1)"
proof -
  obtain n d where q: "quotient_of x = (n, d)" by fastforce
  then have d: "0 < d" and x: "x = of_int n / of_int d"
    by (simp_all add: quotient_of_denom_pos quotient_of_div)
  with assms have n: "0 < n"
    by (metis of_int_0_less_iff zero_less_divide_iff less_asym)
  let ?ln = "bitlen n" and ?ld = "bitlen d"
  note nb = bitlen_powi_bounds[OF n] and db = bitlen_powi_bounds[OF d]
  have lo: "2 powi (?ln - ?ld - 1) \<le> x"
  proof -
    have "2 powi (?ln - ?ld - 1) * of_int d \<le> 2 powi (?ln - ?ld - 1) * (2::rat) powi ?ld"
      using db(2) by (intro mult_left_mono) auto
    also have "\<dots> = 2 powi (?ln - 1)" by (subst power_int_add[symmetric]) simp_all
    also have "\<dots> \<le> of_int n" by (rule nb(1))
    finally show ?thesis using d by (simp add: x pos_le_divide_eq)
  qed
  have hi: "x < 2 powi (?ln - ?ld + 1)"
  proof -
    have "of_int n < (2::rat) powi ?ln" by (rule nb(2))
    also have "\<dots> = 2 powi (?ln - ?ld + 1) * 2 powi (?ld - 1)"
      by (subst power_int_add[symmetric]) simp_all
    also have "\<dots> \<le> 2 powi (?ln - ?ld + 1) * of_int d"
      using db(1) by (intro mult_left_mono) auto
    finally show ?thesis using d by (simp add: x pos_divide_less_eq)
  qed
  show "2 powi ilog2 x \<le> x" "x < 2 powi (ilog2 x + 1)"
    using lo hi by (auto simp: ilog2_def q Let_def)
qed

lemma powi2_less_iff [simp]: "(2::rat) powi a < 2 powi b \<longleftrightarrow> a < b"
proof
  assume *: "(2::rat) powi a < 2 powi b"
  show "a < b"
  proof (rule ccontr)
    assume "\<not> a < b"
    then have "(2::rat) powi b \<le> 2 powi a" by (intro power_int_increasing) auto
    with * show False by simp
  qed
qed (auto intro: power_int_strict_increasing)

lemma ilog2_unique:
  assumes "2 powi e \<le> x" "x < 2 powi (e + 1)"
  shows "ilog2 x = e"
proof -
  have pos: "0 < x" using assms(1) by (rule less_le_trans[rotated]) simp
  note b = ilog2_bounds[OF pos]
  have "(2::rat) powi ilog2 x < 2 powi (e + 1)" "(2::rat) powi e < 2 powi (ilog2 x + 1)"
    using b assms by linarith+
  then have "ilog2 x < e + 1" "e < ilog2 x + 1"
    by simp_all
  then show ?thesis by simp
qed

lemma ilog2_mono: "0 < x \<Longrightarrow> x \<le> y \<Longrightarrow> ilog2 x \<le> ilog2 y"
proof -
  assume pos: "0 < x" and le: "x \<le> y"
  have "(2::rat) powi ilog2 x < 2 powi (ilog2 y + 1)"
    using ilog2_bounds[OF pos] ilog2_bounds[of y] pos le by linarith
  then show ?thesis by simp
qed

section \<open>Rounding to an integer\<close>

lemma round_even_of_int [simp]: "round_even (of_int z) = z"
  by (simp add: round_even_def Let_def)

lemma round_even_bounds:
  "round_even q = \<lfloor>q\<rfloor> \<and> q - of_int \<lfloor>q\<rfloor> \<le> 1 / 2 \<or>
   round_even q = \<lfloor>q\<rfloor> + 1 \<and> q - of_int \<lfloor>q\<rfloor> \<ge> 1 / 2"
  by (auto simp: round_even_def Let_def)

lemma round_even_mono:
  assumes "p \<le> q" shows "round_even p \<le> round_even q"
proof (cases "\<lfloor>p\<rfloor> = \<lfloor>q\<rfloor>")
  case True
  with assms show ?thesis by (auto simp: round_even_def Let_def)
next
  case False
  with assms have "\<lfloor>p\<rfloor> + 1 \<le> \<lfloor>q\<rfloor>" using floor_mono[OF assms] by linarith
  with round_even_bounds[of p] round_even_bounds[of q] show ?thesis by linarith
qed

lemma round_even_le: "p \<le> of_int z \<Longrightarrow> round_even p \<le> z"
  using round_even_mono[of p "of_int z"] by simp

lemma round_even_ge: "of_int z \<le> p \<Longrightarrow> z \<le> round_even p"
  using round_even_mono[of "of_int z" p] by simp

section \<open>Rounding to a double\<close>

lemma f64_rnd_0 [simp]: "f64_rnd 0 = 0"
  by (simp add: f64_rnd_def)

lemma f64_rnd_nonneg: "0 \<le> x \<Longrightarrow> 0 \<le> f64_rnd x"
  using round_even_ge[of 0 "x / 2 powi f64_exp x"] by (simp add: f64_rnd_def Let_def)

text \<open>A bound that is a multiple of the unit in the last place of \<open>x\<close> survives the rounding.\<close>

lemma f64_rnd_le_grid:
  assumes "x \<noteq> 0" "x \<le> of_int z * 2 powi f64_exp x"
  shows "f64_rnd x \<le> of_int z * 2 powi f64_exp x"
proof -
  have "x / 2 powi f64_exp x \<le> of_int z" using assms(2) by (simp add: pos_divide_le_eq)
  then have "round_even (x / 2 powi f64_exp x) \<le> z" by (rule round_even_le)
  with assms(1) show ?thesis by (simp add: f64_rnd_def Let_def)
qed

lemma f64_rnd_ge_grid:
  assumes "x \<noteq> 0" "of_int z * 2 powi f64_exp x \<le> x"
  shows "of_int z * 2 powi f64_exp x \<le> f64_rnd x"
proof -
  have "of_int z \<le> x / 2 powi f64_exp x" using assms(2) by (simp add: pos_le_divide_eq)
  then have "z \<le> round_even (x / 2 powi f64_exp x)" by (rule round_even_ge)
  with assms(1) show ?thesis by (simp add: f64_rnd_def Let_def)
qed

lemma powi_grid: "k \<le> n \<Longrightarrow> (2::rat) powi n = of_int (2 ^ nat (n - k)) * 2 powi k"
proof -
  assume "k \<le> n"
  then have "(2::rat) powi n = 2 powi (n - k) * 2 powi k"
    by (subst power_int_add[symmetric]) simp_all
  with \<open>k \<le> n\<close> show ?thesis by (simp add: power_int_def)
qed

lemma f64_rnd_grid:
  assumes "x \<noteq> 0" "x = of_int m * 2 powi k" "f64_exp x \<le> k"
  shows "f64_rnd x = x"
proof -
  have "x = of_int (m * 2 ^ nat (k - f64_exp x)) * 2 powi f64_exp x"
    using assms(2) powi_grid[OF assms(3)] by simp
  then show ?thesis
    using f64_rnd_le_grid[OF assms(1), of "m * 2 ^ nat (k - f64_exp x)"]
      f64_rnd_ge_grid[OF assms(1), of "m * 2 ^ nat (k - f64_exp x)"] by linarith
qed

text \<open>Every number with a 53-bit significand is a double: rounding leaves it alone.\<close>

lemma f64_rnd_exact:
  assumes "\<bar>m\<bar> < 2 ^ 53" "- 1074 \<le> k"
  shows "f64_rnd (of_int m * 2 powi k) = of_int m * 2 powi k"
proof (cases "m = 0")
  case False
  let ?x = "of_int m * (2::rat) powi k"
  have pos: "0 < \<bar>?x\<bar>" using False by simp
  have "\<bar>?x\<bar> < 2 powi (53 + k)"
  proof -
    have "(of_int \<bar>m\<bar> :: rat) < of_int (2 ^ 53)" using assms(1) by (simp only: of_int_less_iff)
    then have "\<bar>?x\<bar> < 2 ^ 53 * 2 powi k" by (simp add: abs_mult)
    also have "\<dots> = 2 powi (53 + k)" by (subst power_int_add) simp_all
    finally show ?thesis .
  qed
  with ilog2_bounds(1)[OF pos] have "(2::rat) powi ilog2 \<bar>?x\<bar> < 2 powi (53 + k)" by linarith
  then have "ilog2 \<bar>?x\<bar> < 53 + k" by simp
  with assms(2) have "f64_exp ?x \<le> k" by (simp add: f64_exp_def)
  with False show ?thesis by (intro f64_rnd_grid) simp_all
qed simp

lemma f64_rnd_of_int: "\<bar>m\<bar> < 2 ^ 53 \<Longrightarrow> f64_rnd (of_int m) = of_int m"
  using f64_rnd_exact[of m 0] by simp

text \<open>Rounding is monotone on the non-negative numbers.\<close>

lemma f64_rnd_mono:
  assumes "0 \<le> x" "x \<le> y"
  shows "f64_rnd x \<le> f64_rnd y"
proof (cases "x = 0")
  case True
  with assms show ?thesis by (simp add: f64_rnd_nonneg)
next
  case False
  with assms have x: "0 < x" and y: "0 < y" by simp_all
  have el: "ilog2 x \<le> ilog2 y" using x assms(2) by (rule ilog2_mono)
  show ?thesis
  proof (cases "f64_exp x = f64_exp y")
    case True
    have "x / 2 powi f64_exp y \<le> y / 2 powi f64_exp y"
      using assms(2) by (simp add: divide_right_mono)
    then have "round_even (x / 2 powi f64_exp y) \<le> round_even (y / 2 powi f64_exp y)"
      by (rule round_even_mono)
    with True x y show ?thesis by (simp add: f64_rnd_def Let_def)
  next
    case False
    let ?b = "ilog2 y"
    from False el x y have b: "ilog2 x + 1 \<le> ?b" "f64_exp y = ?b - 52" "f64_exp x \<le> ?b"
      by (auto simp: f64_exp_def)
    have "(2::rat) powi (ilog2 x + 1) \<le> 2 powi ?b" using b(1) by (intro power_int_increasing) auto
    then have "x \<le> 2 powi ?b" using ilog2_bounds(2)[OF x] by linarith
    then have "f64_rnd x \<le> 2 powi ?b"
      using f64_rnd_le_grid[of x "2 ^ nat (?b - f64_exp x)"] powi_grid[OF b(3)] x by simp
    also have "2 powi ?b \<le> f64_rnd y"
      using f64_rnd_ge_grid[of y "2 ^ 52"] powi_grid[of "f64_exp y" ?b] b(2) y ilog2_bounds(1)[OF y]
      by simp
    finally show ?thesis .
  qed
qed

lemma f64_of_nat_mono: "m \<le> n \<Longrightarrow> f64_of_nat m \<le> f64_of_nat n"
  by (simp add: f64_of_nat_def f64_rnd_mono)

lemma f64_of_nat_exact: "n < 2 ^ 53 \<Longrightarrow> f64_of_nat n = of_nat n"
  using f64_rnd_of_int[of "int n"] by (simp add: f64_of_nat_def)

text \<open>The result of a rounding is a double.\<close>

definition is_f64 :: "rat \<Rightarrow> bool" where "is_f64 x \<longleftrightarrow> f64_rnd x = x"

lemma round_even_abs_le:
  assumes "\<bar>q\<bar> \<le> of_int z" shows "\<bar>round_even q\<bar> \<le> z"
  using round_even_le[of q z] round_even_ge[of "- z" q] assms by (simp add: abs_le_iff)

lemma is_f64_rnd [simp]: "is_f64 (f64_rnd x)"
proof (cases "x = 0")
  case False
  let ?e = "f64_exp x" and ?r = "round_even (x / 2 powi f64_exp x)"
  have e: "- 1074 \<le> ?e" "ilog2 \<bar>x\<bar> + 1 \<le> ?e + 53" by (simp_all add: f64_exp_def)
  have "\<bar>x\<bar> < 2 powi (ilog2 \<bar>x\<bar> + 1)" using False by (intro ilog2_bounds) simp
  also have "\<dots> \<le> 2 powi (?e + 53)" using e(2) by (intro power_int_increasing) auto
  also have "\<dots> = 2 ^ 53 * 2 powi ?e" by (subst power_int_add) simp_all
  finally have "\<bar>x\<bar> / 2 powi ?e \<le> 2 ^ 53" by (simp add: pos_divide_le_eq)
  then have "\<bar>x / 2 powi ?e\<bar> \<le> of_int (2 ^ 53)" by (simp add: abs_divide)
  then have r: "\<bar>?r\<bar> \<le> 2 ^ 53" by (rule round_even_abs_le)
  have x: "f64_rnd x = of_int ?r * 2 powi ?e" using False by (simp add: f64_rnd_def Let_def)
  show ?thesis
  proof (cases "\<bar>?r\<bar> < 2 ^ 53")
    case True
    then show ?thesis unfolding is_f64_def x using e(1) by (rule f64_rnd_exact)
  next
    case False
    with r have abs: "\<bar>?r\<bar> = 2 ^ 53" by linarith
    define h where "h = ?r div 2"
    have "?r = 2 ^ 53 \<or> ?r = - (2 ^ 53)" using abs by linarith
    then have h: "?r = 2 * h" "\<bar>h\<bar> < 2 ^ 53" unfolding h_def by (elim disjE; simp)+
    have "of_int ?r * (2::rat) powi ?e = of_int h * 2 powi (?e + 1)"
      by (simp add: h(1) power_int_add)
    then show ?thesis unfolding is_f64_def x using f64_rnd_exact[OF h(2), of "?e + 1"] e(1) by simp
  qed
qed (simp add: is_f64_def)

lemma is_f64_min: "is_f64 a \<Longrightarrow> is_f64 b \<Longrightarrow> is_f64 (min a b)"
  by (simp add: min_def)

end
