(* ===== verification/Channel.thy ===== *)
theory Channel
  imports Glob Float64
begin

text \<open>
  \<open>channel/mod.rs\<close> and the channel part of \<open>config/channel.rs\<close>: the provider names, the channel
  with its circuit breaker fields, and the operations on a single channel. Every operation that
  reads \<open>Utc::now()\<close> takes the time as its argument \<open>now\<close>.
\<close>

section \<open>Providers\<close>

datatype provider = OpenAI | Anthropic | DeepSeek | Gemini | OpenRouter | Ollama | Mistral | Groq
  | Together | Cohere | Xai | SiliconFlow | Yi | Moonshot | Zhipu | Custom string

text \<open>\<open>str::to_lowercase\<close> on ASCII text; bytes of multi-byte characters are left alone.\<close>

definition to_lowercase :: "string \<Rightarrow> string" where
  "to_lowercase s = map (\<lambda>c. if 65 \<le> (of_char c :: nat) \<and> (of_char c :: nat) \<le> 90
                            then char_of (of_char c + 32 :: nat) else c) s"

definition provider_names :: "(string \<times> provider) list" where
  "provider_names =
    [(''openai'', OpenAI), (''anthropic'', Anthropic), (''deepseek'', DeepSeek),
     (''gemini'', Gemini), (''openrouter'', OpenRouter), (''ollama'', Ollama),
     (''mistral'', Mistral), (''groq'', Groq), (''together'', Together), (''cohere'', Cohere),
     (''xai'', Xai), (''siliconflow'', SiliconFlow), (''yi'', Yi), (''moonshot'', Moonshot),
     (''zhipu'', Zhipu)]"

definition provider_from_str :: "string \<Rightarrow> provider" where
  "provider_from_str s = (let l = to_lowercase s in
     case map_of provider_names l of Some p \<Rightarrow> p | None \<Rightarrow> Custom l)"

fun provider_as_str :: "provider \<Rightarrow> string" where
  "provider_as_str OpenAI = ''openai''"
| "provider_as_str Anthropic = ''anthropic''"
| "provider_as_str DeepSeek = ''deepseek''"
| "provider_as_str Gemini = ''gemini''"
| "provider_as_str OpenRouter = ''openrouter''"
| "provider_as_str Ollama = ''ollama''"
| "provider_as_str Mistral = ''mistral''"
| "provider_as_str Groq = ''groq''"
| "provider_as_str Together = ''together''"
| "provider_as_str Cohere = ''cohere''"
| "provider_as_str Xai = ''xai''"
| "provider_as_str SiliconFlow = ''siliconflow''"
| "provider_as_str Yi = ''yi''"
| "provider_as_str Moonshot = ''moonshot''"
| "provider_as_str Zhipu = ''zhipu''"
| "provider_as_str (Custom s) = s"

section \<open>Channels\<close>

datatype credential_type = ApiKey | WebSession

record credential =
  cred_type :: credential_type
  key_ref :: string
  cred_api_key :: "string option"
  cred_expires_at :: "utc option"

datatype channel_status = Healthy | HalfOpen | CircuitOpen | Disabled

record quota_config =
  q_strategy :: "string option"
  q_balance_url :: "string option"
  q_balance_path :: "string option"
  q_limit_path :: "string option"
  q_usage_path :: "string option"
  q_auth_prefix :: "string option"
  q_refresh_secs :: "u64 option"

record channel =
  ch_id :: uuid
  ch_name :: string
  ch_provider :: provider
  ch_priority :: u8
  ch_weight :: u32
  ch_cost_per_token :: "f64 option"
  ch_input_cost_per_mtok :: "f64 option"
  ch_output_cost_per_mtok :: "f64 option"
  ch_credential :: credential
  ch_enabled :: bool
  ch_status :: channel_status
  ch_circuit_open_until :: "utc option"
  ch_base_url :: string
  ch_model_mapping :: "(string, string) hashmap"
  ch_created_at :: utc
  ch_updated_at :: utc
  ch_avg_latency_ms :: u64
  ch_consecutive_failures :: u32
  ch_cooldown_minutes :: "u64 option"
  ch_rpm_limit :: "u64 option"
  ch_tpm_limit :: "u64 option"
  ch_account_group :: "string option"
  ch_max_concurrent :: "u32 option"
  ch_api_keys :: "string list"
  ch_excluded_models :: "string list"
  ch_model_cooldowns :: "(string, utc) hashmap"
  ch_proxy_url :: "string option"
  ch_headers :: "(string, string) hashmap"
  ch_max_retries :: "u32 option"
  ch_models_endpoint :: "string option"
  ch_models_refresh_interval_secs :: u64
  ch_tags :: "string list"
  ch_quota :: "quota_config option"

text \<open>The persisted form; \<open>payload_rules\<close> is kept as an opaque value of type \<open>'r\<close>.\<close>

record 'r channel_config =
  cc_id :: string
  cc_name :: string
  cc_provider :: string
  cc_priority :: u8
  cc_weight :: u32
  cc_cost_per_token :: "f64 option"
  cc_input_cost_per_mtok :: "f64 option"
  cc_output_cost_per_mtok :: "f64 option"
  cc_credential_type :: string
  cc_credential_ref :: string
  cc_api_key :: "string option"
  cc_base_url :: string
  cc_enabled :: bool
  cc_model_mapping :: "(string, string) hashmap"
  cc_cooldown_minutes :: "u64 option"
  cc_rpm_limit :: "u64 option"
  cc_tpm_limit :: "u64 option"
  cc_payload_rules :: "'r option"
  cc_quota :: "quota_config option"
  cc_account_group :: "string option"
  cc_max_concurrent :: "u32 option"
  cc_api_keys :: "string list"
  cc_excluded_models :: "string list"
  cc_proxy_url :: "string option"
  cc_headers :: "(string, string) hashmap option"
  cc_max_retries :: "u32 option"
  cc_models_endpoint :: "string option"
  cc_models_refresh_interval_secs :: u64
  cc_tags :: "string list"

section \<open>Operations\<close>

text \<open>\<open>chrono::Duration::minutes(m as i64)\<close> in nanoseconds: the cast reinterprets the sign bit.\<close>

definition chrono_minutes :: "u64 \<Rightarrow> int" where
  "chrono_minutes m = sint m * 60000000000"

text \<open>The range of chrono's calendar, from the beginning of the year -262143 to the end of 262142.\<close>

definition chrono_min_utc :: utc where
  "chrono_min_utc = - 8334601228800000000000"

definition chrono_max_utc :: utc where
  "chrono_max_utc = 8210266876799999999999"

text \<open>
  \<open>Utc::now() + chrono::Duration::minutes(m as i64)\<close>, where \<open>None\<close> is the panic of a sum that leaves the
  calendar (durations that \<open>Duration::minutes\<close> refuses are longer than the calendar). The clock of the
  machine is taken to be more than half an hour away from the end of the calendar, so that the sums of
  at most thirty minutes, which the backoff and the model cooldowns make, never panic.
\<close>

definition chrono_sum :: "utc \<Rightarrow> u64 \<Rightarrow> utc option" where
  "chrono_sum now m =
     (let u = now + chrono_minutes m
      in if m \<le> 30 \<or> chrono_min_utc \<le> u \<and> u \<le> chrono_max_utc then Some u else None)"

definition is_available :: "channel \<Rightarrow> utc \<Rightarrow> bool" where
  "is_available c now =
     (if \<not> ch_enabled c \<or> ch_status c = Disabled then False
      else if ch_status c = CircuitOpen then
        (case ch_circuit_open_until c of Some u \<Rightarrow> u \<le> now | None \<Rightarrow> False)
      else True)"

definition map_model :: "channel \<Rightarrow> string \<Rightarrow> string" where
  "map_model c requested =
     (case hm_get (ch_model_mapping c) requested of Some m \<Rightarrow> m | None \<Rightarrow> requested)"

definition all_keys :: "channel \<Rightarrow> string list" where
  "all_keys c =
     (case cred_api_key (ch_credential c) of Some k \<Rightarrow> [k] | None \<Rightarrow> []) @ ch_api_keys c"

definition is_model_excluded :: "channel \<Rightarrow> string \<Rightarrow> bool" where
  "is_model_excluded c model =
     (if ch_excluded_models c = [] then False
      else list_ex (\<lambda>pattern. matches_glob pattern model) (ch_excluded_models c))"

definition div_ceil :: "u64 \<Rightarrow> u64 \<Rightarrow> u64" where
  "div_ceil a b = (if a mod b > 0 then a div b + 1 else a div b)"

definition rate_limit_minutes :: "u64 option \<Rightarrow> u64" where
  "rate_limit_minutes retry_after =
     (case retry_after of Some s \<Rightarrow> max 1 (min 30 (div_ceil s 60)) | None \<Rightarrow> 2)"

definition mark_model_rate_limited :: "channel \<Rightarrow> utc \<Rightarrow> string \<Rightarrow> u64 option \<Rightarrow> channel" where
  "mark_model_rate_limited c now model retry_after =
     c\<lparr>ch_model_cooldowns := hm_insert model (now + chrono_minutes (rate_limit_minutes retry_after))
         (ch_model_cooldowns c)\<rparr>"

definition is_model_in_cooldown :: "channel \<Rightarrow> utc \<Rightarrow> string \<Rightarrow> bool" where
  "is_model_in_cooldown c now model =
     (case hm_get (ch_model_cooldowns c) model of Some expiry \<Rightarrow> now < expiry | None \<Rightarrow> False)"

definition clean_expired_model_cooldowns :: "channel \<Rightarrow> utc \<Rightarrow> channel" where
  "clean_expired_model_cooldowns c now =
     c\<lparr>ch_model_cooldowns := hm_retain (\<lambda>_ expiry. now < expiry) (ch_model_cooldowns c)\<rparr>"

definition calculate_cost :: "channel \<Rightarrow> u64 option \<Rightarrow> u64 option \<Rightarrow> f64 option" where
  "calculate_cost c input output =
     (if input = None \<and> output = None then None
      else
        let in_tok = f64_of_u64 (case input of Some t \<Rightarrow> t | None \<Rightarrow> 0);
            out_tok = f64_of_u64 (case output of Some t \<Rightarrow> t | None \<Rightarrow> 0)
        in if ch_input_cost_per_mtok c \<noteq> None \<or> ch_output_cost_per_mtok c \<noteq> None then
             let in_rate = (case ch_input_cost_per_mtok c of Some r \<Rightarrow> r | None \<Rightarrow> 0);
                 out_rate = (case ch_output_cost_per_mtok c of Some r \<Rightarrow> r | None \<Rightarrow> 0)
             in Some (f64_add (f64_mul (f64_div in_tok 1000000) in_rate)
                              (f64_mul (f64_div out_tok 1000000) out_rate))
           else map_option (\<lambda>rate_per_1k. f64_mul (f64_div (f64_add in_tok out_tok) 1000) rate_per_1k)
                  (ch_cost_per_token c))"

text \<open>The status is written before the end of the circuit is computed: when the sum panics the channel is left
  with its circuit open and whatever end it had before.\<close>

definition channel_mark_circuit_open :: "channel \<Rightarrow> utc \<Rightarrow> u64 \<Rightarrow> channel" where
  "channel_mark_circuit_open c now duration_mins =
     (let c = c\<lparr>ch_status := CircuitOpen\<rparr>
      in case chrono_sum now duration_mins of
           Some until \<Rightarrow> c\<lparr>ch_circuit_open_until := Some until, ch_updated_at := now\<rparr>
         | None \<Rightarrow> c)"

definition recover_if_expired :: "channel \<Rightarrow> utc \<Rightarrow> channel" where
  "recover_if_expired c now =
     (if ch_status c = CircuitOpen then
        (case ch_circuit_open_until c of
           Some u \<Rightarrow>
             if u \<le> now
             then c\<lparr>ch_status := HalfOpen, ch_circuit_open_until := None, ch_updated_at := now\<rparr>
             else c
         | None \<Rightarrow> c)
      else c)"

definition recover_to_healthy :: "channel \<Rightarrow> utc \<Rightarrow> channel" where
  "recover_to_healthy c now =
     (if ch_status c = HalfOpen
      then c\<lparr>ch_status := Healthy, ch_consecutive_failures := 0, ch_updated_at := now\<rparr>
      else c)"

text \<open>
  \<open>Uuid::parse_str\<close> and the fresh \<open>Uuid::new_v4()\<close> are arguments: the first belongs to the uuid
  crate, the second is random.
\<close>

definition channel_from_config ::
  "(string \<Rightarrow> uuid option) \<Rightarrow> uuid \<Rightarrow> utc \<Rightarrow> 'r channel_config \<Rightarrow> channel" where
  "channel_from_config parse_uuid new_v4 now c =
     \<lparr>ch_id = (case parse_uuid (cc_id c) of Some u \<Rightarrow> u | None \<Rightarrow> new_v4),
      ch_name = cc_name c,
      ch_provider = provider_from_str (cc_provider c),
      ch_priority = cc_priority c,
      ch_weight = cc_weight c,
      ch_cost_per_token = cc_cost_per_token c,
      ch_input_cost_per_mtok = cc_input_cost_per_mtok c,
      ch_output_cost_per_mtok = cc_output_cost_per_mtok c,
      ch_credential = \<lparr>cred_type = (if cc_credential_type c = ''web_session'' then WebSession else ApiKey),
        key_ref = cc_credential_ref c, cred_api_key = cc_api_key c, cred_expires_at = None\<rparr>,
      ch_enabled = cc_enabled c,
      ch_status = Healthy,
      ch_circuit_open_until = None,
      ch_base_url = cc_base_url c,
      ch_model_mapping = cc_model_mapping c,
      ch_created_at = now,
      ch_updated_at = now,
      ch_avg_latency_ms = 0,
      ch_consecutive_failures = 0,
      ch_cooldown_minutes = cc_cooldown_minutes c,
      ch_rpm_limit = cc_rpm_limit c,
      ch_tpm_limit = cc_tpm_limit c,
      ch_account_group = cc_account_group c,
      ch_max_concurrent = cc_max_concurrent c,
      ch_api_keys = cc_api_keys c,
      ch_excluded_models = cc_excluded_models c,
      ch_model_cooldowns = [],
      ch_proxy_url = cc_proxy_url c,
      ch_headers = (case cc_headers c of Some h \<Rightarrow> h | None \<Rightarrow> []),
      ch_max_retries = cc_max_retries c,
      ch_models_endpoint = cc_models_endpoint c,
      ch_models_refresh_interval_secs = cc_models_refresh_interval_secs c,
      ch_tags = cc_tags c,
      ch_quota = cc_quota c\<rparr>"

text \<open>A concrete channel for evaluating the operations.\<close>

definition example_credential :: credential where
  "example_credential = \<lparr>cred_type = ApiKey, key_ref = ''ref'', cred_api_key = Some ''k0'',
     cred_expires_at = None\<rparr>"

definition example_channel :: "uuid \<Rightarrow> channel" where
  "example_channel i =
     \<lparr>ch_id = i, ch_name = ''c'', ch_provider = OpenAI, ch_priority = 1, ch_weight = 100,
      ch_cost_per_token = None, ch_input_cost_per_mtok = Some 1, ch_output_cost_per_mtok = Some 3,
      ch_credential = example_credential, ch_enabled = True, ch_status = Healthy,
      ch_circuit_open_until = None, ch_base_url = ''u'', ch_model_mapping = [], ch_created_at = 0,
      ch_updated_at = 0, ch_avg_latency_ms = 0, ch_consecutive_failures = 0,
      ch_cooldown_minutes = None, ch_rpm_limit = None, ch_tpm_limit = None,
      ch_account_group = None, ch_max_concurrent = None, ch_api_keys = [],
      ch_excluded_models = [], ch_model_cooldowns = [], ch_proxy_url = None, ch_headers = [],
      ch_max_retries = None, ch_models_endpoint = None, ch_models_refresh_interval_secs = 300,
      ch_tags = [], ch_quota = None\<rparr>"

section \<open>Provider names\<close>

lemma lower_char_idem:
  "(let f = \<lambda>c. if 65 \<le> (of_char c :: nat) \<and> (of_char c :: nat) \<le> 90
                 then char_of (of_char c + 32 :: nat) else c
    in f (f c) = f c)"
  by (auto simp: Let_def)

lemma to_lowercase_idem [simp]: "to_lowercase (to_lowercase s) = to_lowercase s"
  using lower_char_idem by (simp add: to_lowercase_def Let_def del: of_char_of)

lemma provider_names_as_str: "(n, p) \<in> set provider_names \<Longrightarrow> provider_as_str p = n"
  by (auto simp: provider_names_def)

lemma provider_as_from_str: "provider_as_str (provider_from_str s) = to_lowercase s"
  by (auto simp: provider_from_str_def Let_def provider_names_as_str split: option.splits
      dest!: map_of_SomeD)

section \<open>Circuit breaker\<close>

text \<open>An open circuit always carries the time at which it ends.\<close>

definition circuit_ok :: "channel \<Rightarrow> bool" where
  "circuit_ok c \<longleftrightarrow> (ch_status c = CircuitOpen \<longrightarrow> ch_circuit_open_until c \<noteq> None)"

named_theorems channel_defs \<open>definitions of the single-channel operations\<close>

declare is_available_def [channel_defs] recover_if_expired_def [channel_defs]
  recover_to_healthy_def [channel_defs] channel_mark_circuit_open_def [channel_defs]
  mark_model_rate_limited_def [channel_defs] is_model_in_cooldown_def [channel_defs]
  clean_expired_model_cooldowns_def [channel_defs]

lemma chrono_sum_short [simp]: "m \<le> 30 \<Longrightarrow> chrono_sum now m = Some (now + chrono_minutes m)"
  by (simp add: chrono_sum_def)

lemma mark_open_fields [simp]:
  "ch_id (channel_mark_circuit_open c now d) = ch_id c"
  "ch_status (channel_mark_circuit_open c now d) = CircuitOpen"
  "ch_enabled (channel_mark_circuit_open c now d) = ch_enabled c"
  by (simp_all add: channel_mark_circuit_open_def Let_def split: option.splits)

lemma mark_open_until:
  "ch_circuit_open_until (channel_mark_circuit_open c now d) =
     (case chrono_sum now d of Some u \<Rightarrow> Some u | None \<Rightarrow> ch_circuit_open_until c)"
  by (simp add: channel_mark_circuit_open_def Let_def split: option.splits)

lemma circuit_ok_mark_open:
  "chrono_sum now d \<noteq> None \<Longrightarrow> circuit_ok (channel_mark_circuit_open c now d)"
  by (auto simp: circuit_ok_def mark_open_until)

lemma circuit_ok_recover [simp]: "circuit_ok c \<Longrightarrow> circuit_ok (recover_if_expired c now)"
  by (auto simp: circuit_ok_def channel_defs split: option.splits)

lemma circuit_ok_to_healthy [simp]: "circuit_ok c \<Longrightarrow> circuit_ok (recover_to_healthy c now)"
  by (auto simp: circuit_ok_def channel_defs)

lemma circuit_ok_rate_limited [simp]:
  "circuit_ok (mark_model_rate_limited c now m r) = circuit_ok c"
  "circuit_ok (clean_expired_model_cooldowns c now) = circuit_ok c"
  by (simp_all add: circuit_ok_def channel_defs)

lemma recover_fields [simp]:
  "ch_id (recover_if_expired c now) = ch_id c"
  "ch_enabled (recover_if_expired c now) = ch_enabled c"
  "ch_priority (recover_if_expired c now) = ch_priority c"
  "ch_weight (recover_if_expired c now) = ch_weight c"
  "ch_provider (recover_if_expired c now) = ch_provider c"
  "ch_max_retries (recover_if_expired c now) = ch_max_retries c"
  by (auto simp: recover_if_expired_def split: option.splits)

text \<open>After the recovery step an available channel is never circuit-open.\<close>

lemma available_recover_status:
  "is_available c now \<Longrightarrow> ch_status (recover_if_expired c now) \<in> {Healthy, HalfOpen}"
  by (cases "ch_status c") (auto simp: channel_defs split: if_splits option.splits)

lemma available_iff_recovered:
  "is_available c now \<longleftrightarrow>
     ch_enabled c \<and> ch_status (recover_if_expired c now) \<in> {Healthy, HalfOpen}"
  by (cases "ch_status c") (auto simp: channel_defs split: option.splits)

lemma mark_open_available:
  "chrono_sum t d = Some u \<Longrightarrow>
     is_available (channel_mark_circuit_open c t d) now \<longleftrightarrow> ch_enabled c \<and> u \<le> now"
  by (simp add: is_available_def mark_open_until)

section \<open>Per-model cooldowns\<close>

lemma chrono_minutes_small: "unat m < 2 ^ 63 \<Longrightarrow> chrono_minutes m = int (unat m) * 60000000000"
  by (simp add: chrono_minutes_def sint_u64_small del: of_nat_unat)

lemma rate_limit_minutes_bounds: "1 \<le> rate_limit_minutes r \<and> rate_limit_minutes r \<le> 30"
  by (auto simp: rate_limit_minutes_def split: option.splits)

lemma rate_limit_minutes_unat: "1 \<le> unat (rate_limit_minutes r) \<and> unat (rate_limit_minutes r) \<le> 30"
  using rate_limit_minutes_bounds[of r] by (simp add: word_le_nat_alt)

lemma rate_limited_cooldown:
  "is_model_in_cooldown (mark_model_rate_limited c t m r) now m' \<longleftrightarrow>
     (if m' = m then now < t + chrono_minutes (rate_limit_minutes r)
      else is_model_in_cooldown c now m')"
  by (simp add: channel_defs)

lemma clean_cooldown_unobservable:
  assumes "hm_ok (ch_model_cooldowns c)" "now \<le> later"
  shows "is_model_in_cooldown (clean_expired_model_cooldowns c now) later m =
         is_model_in_cooldown c later m"
  using assms by (auto simp: channel_defs hm_get_retain split: option.splits)

section \<open>Cost\<close>

definition cost_rates_nonneg :: "channel \<Rightarrow> bool" where
  "cost_rates_nonneg c \<longleftrightarrow>
     (\<forall>r \<in> set_option (ch_cost_per_token c) \<union> set_option (ch_input_cost_per_mtok c)
          \<union> set_option (ch_output_cost_per_mtok c). 0 \<le> r)"

lemma f64_div_mono: "0 \<le> x \<Longrightarrow> x \<le> y \<Longrightarrow> 0 < d \<Longrightarrow> f64_div x d \<le> f64_div y d"
  by (simp add: f64_div_def f64_rnd_mono divide_right_mono)

lemma f64_mul_mono: "0 \<le> x \<Longrightarrow> x \<le> y \<Longrightarrow> 0 \<le> r \<Longrightarrow> f64_mul x r \<le> f64_mul y r"
  by (simp add: f64_mul_def f64_rnd_mono mult_right_mono)

lemma f64_add_mono: "0 \<le> a \<Longrightarrow> 0 \<le> b \<Longrightarrow> a \<le> c \<Longrightarrow> b \<le> d \<Longrightarrow> f64_add a b \<le> f64_add c d"
  by (simp add: f64_add_def f64_rnd_mono add_mono)

lemma f64_div_nonneg: "0 \<le> x \<Longrightarrow> 0 < d \<Longrightarrow> 0 \<le> f64_div x d"
  by (simp add: f64_div_def f64_rnd_nonneg)

lemma f64_mul_nonneg: "0 \<le> x \<Longrightarrow> 0 \<le> y \<Longrightarrow> 0 \<le> f64_mul x y"
  by (simp add: f64_mul_def f64_rnd_nonneg)

lemma f64_add_nonneg: "0 \<le> x \<Longrightarrow> 0 \<le> y \<Longrightarrow> 0 \<le> f64_add x y"
  by (simp add: f64_add_def f64_rnd_nonneg)

lemma f64_of_u64_nonneg: "0 \<le> f64_of_u64 w"
  unfolding f64_of_u64_def f64_of_nat_def by (rule f64_rnd_nonneg) (rule of_nat_0_le_iff)

lemma f64_of_u64_mono: "a \<le> b \<Longrightarrow> f64_of_u64 a \<le> f64_of_u64 b"
  by (simp add: f64_of_u64_def f64_of_nat_mono word_le_nat_alt)

lemmas f64_nonneg = f64_div_nonneg f64_mul_nonneg f64_add_nonneg f64_of_u64_nonneg
lemmas f64_mono = f64_div_mono f64_mul_mono f64_add_mono f64_of_u64_mono

text \<open>Splitting availability from recovery is sound: the router filters candidates with
  \<open>is_available\<close> and only then runs \<open>recover_if_expired\<close> on the clone; a channel passes the filter
  exactly when it is enabled and its recovered clone is Healthy or HalfOpen, so no candidate is
  still circuit-open or disabled.\<close>

theorem availability_matches_recovery:
  "is_available c now \<longleftrightarrow>
     ch_enabled c \<and> ch_status (recover_if_expired c now) \<in> {Healthy, HalfOpen}"
  by (rule available_iff_recovered)

text \<open>A 429 on one model puts exactly that model of the channel in cooldown, for at least one
  and at most thirty minutes whatever \<open>Retry-After\<close> says, and leaves every other model alone.\<close>

theorem rate_limit_cooldown_window:
  "(is_model_in_cooldown (mark_model_rate_limited c t m r) now m' \<longleftrightarrow>
     (if m' = m then now < t + int (unat (rate_limit_minutes r)) * 60000000000
      else is_model_in_cooldown c now m'))
   \<and> 1 \<le> unat (rate_limit_minutes r) \<and> unat (rate_limit_minutes r) \<le> 30"
  using rate_limit_minutes_unat[of r]
  by (simp add: rate_limited_cooldown chrono_minutes_small)

text \<open>The periodic cleanup of expired model cooldowns never changes a routing decision taken at
  that time or later.\<close>

theorem model_cooldown_cleanup_unobservable:
  assumes "hm_ok (ch_model_cooldowns c)" "now \<le> later"
  shows "is_model_in_cooldown (clean_expired_model_cooldowns c now) later m =
         is_model_in_cooldown c later m"
  using assms by (rule clean_cooldown_unobservable)

lemma model_cooldown_cleanup_unobservable_witness:
  "let c = (example_channel 1)\<lparr>ch_model_cooldowns := [(''m'', 5), (''n'', 20)]\<rparr> in
   is_model_in_cooldown (clean_expired_model_cooldowns c 10) 15 ''n'' = is_model_in_cooldown c 15 ''n''
   \<and> is_model_in_cooldown c 15 ''n''"
proof -
  let ?c = "(example_channel 1)\<lparr>ch_model_cooldowns := [(''m'', 5), (''n'', 20)]\<rparr>"
  have "hm_ok (ch_model_cooldowns ?c)" by (simp add: hm_ok_def)
  from model_cooldown_cleanup_unobservable[OF this, of 10 15 "''n''"]
  show ?thesis by (simp add: Let_def is_model_in_cooldown_def)
qed

text \<open>With non-negative rates the double-precision cost of a request never decreases when it
  uses more input or output tokens.\<close>

theorem calculate_cost_mono:
  assumes "cost_rates_nonneg c" "i \<le> i'" "out \<le> out'"
    and "calculate_cost c (Some i) (Some out) = Some x"
    and "calculate_cost c (Some i') (Some out') = Some y"
  shows "x \<le> y"
  using assms
  by (auto simp: calculate_cost_def Let_def cost_rates_nonneg_def split: if_splits option.splits
      intro!: f64_mono f64_nonneg)

lemma calculate_cost_mono_witness:
  "\<exists>x y. calculate_cost (example_channel 1) (Some 10) (Some 20) = Some x
    \<and> calculate_cost (example_channel 1) (Some 30) (Some 20) = Some y \<and> x \<le> y"
proof -
  have r: "cost_rates_nonneg (example_channel 1)"
    by (simp add: cost_rates_nonneg_def example_channel_def)
  obtain x where x: "calculate_cost (example_channel 1) (Some 10) (Some 20) = Some x"
    by (simp add: calculate_cost_def example_channel_def Let_def)
  obtain y where y: "calculate_cost (example_channel 1) (Some 30) (Some 20) = Some y"
    by (simp add: calculate_cost_def example_channel_def Let_def)
  have "x \<le> y" using r _ _ x y by (rule calculate_cost_mono) simp_all
  with x y show ?thesis by blast
qed

text \<open>Provider names survive a save and a reload: reading back the name a parsed provider
  prints gives the same provider.\<close>

theorem provider_roundtrip:
  "provider_from_str (provider_as_str (provider_from_str s)) = provider_from_str s"
  by (simp add: provider_as_from_str) (simp add: provider_from_str_def)

end
