(* ===== verification/Keyed_Store.thy ===== *)
theory Keyed_Store
  imports Prelude
begin

text \<open>
  The contract of a store whose entries are changed one at a time under a lock: the channel
  manager (\<open>with_channel\<close>), the virtual key store and the provider spend map all rely on it. A
  client gets its frame and invariant lemmas from the contract alone.
\<close>

locale keyed_store =
  fixes lookup :: "'s \<Rightarrow> 'k \<Rightarrow> 'v option"
    and modify :: "'s \<Rightarrow> 'k \<Rightarrow> ('v \<Rightarrow> 'v) \<Rightarrow> 's"
  assumes lookup_modify:
    "lookup (modify s k f) k' = (if k' = k then map_option f (lookup s k) else lookup s k')"
begin

lemma modify_same: "lookup s k = Some v \<Longrightarrow> lookup (modify s k f) k = Some (f v)"
  by (simp add: lookup_modify)

lemma modify_other: "k' \<noteq> k \<Longrightarrow> lookup (modify s k f) k' = lookup s k'"
  by (simp add: lookup_modify)

lemma modify_dom: "lookup (modify s k f) k' = None \<longleftrightarrow> lookup s k' = None"
  by (auto simp: lookup_modify)

text \<open>An entry-wise property survives a modification that keeps it.\<close>

lemma modify_preserves:
  assumes "\<And>k v. lookup s k = Some v \<Longrightarrow> P k v"
    and "\<And>v. lookup s k = Some v \<Longrightarrow> P k v \<Longrightarrow> P k (f v)"
    and "lookup (modify s k f) k' = Some v'"
  shows "P k' v'"
  using assms by (auto simp: lookup_modify split: if_splits)

text \<open>Modifications of different entries can be exchanged, those of one entry compose.\<close>

lemma modify_commute:
  "k \<noteq> k' \<Longrightarrow> lookup (modify (modify s k f) k' g) = lookup (modify (modify s k' g) k f)"
  by (auto simp: lookup_modify)

lemma modify_compose: "lookup (modify (modify s k f) k g) = lookup (modify s k (g \<circ> f))"
  by (auto simp: lookup_modify option.map_comp)

end

text \<open>The modification of one entry of a hash map.\<close>

definition hm_modify :: "('k, 'v) hashmap \<Rightarrow> 'k \<Rightarrow> ('v \<Rightarrow> 'v) \<Rightarrow> ('k, 'v) hashmap" where
  "hm_modify m k f = (case hm_get m k of None \<Rightarrow> m | Some v \<Rightarrow> hm_insert k (f v) m)"

lemma hm_get_modify [hm_simps]:
  "hm_get (hm_modify m k f) k' = (if k' = k then map_option f (hm_get m k) else hm_get m k')"
  by (simp add: hm_modify_def split: option.splits)

lemma hm_ok_modify [simp, intro]: "hm_ok m \<Longrightarrow> hm_ok (hm_modify m k f)"
  by (simp add: hm_modify_def split: option.splits)

interpretation hm: keyed_store "\<lambda>m k. hm_get m k" hm_modify
  by unfold_locales (rule hm_get_modify)

end
