(* ===== verification/Trackers.thy ===== *)
theory Trackers
  imports Float64 Keyed_Store
begin

text \<open>
  The per-channel runtime trackers of the router: in-flight counts with their RAII guard
  (\<open>router/active_requests.rs\<close>), the latency window (\<open>router/latency_tracker.rs\<close>) and the failure
  rate cooldown (\<open>router/cooldown.rs\<close>). Each keeps hash maps behind a mutex.
\<close>

section \<open>Active requests\<close>

type_synonym active_requests = "(uuid, u32) hashmap"

definition ar_new :: active_requests where "ar_new = []"

definition ar_get :: "active_requests \<Rightarrow> uuid \<Rightarrow> u32" where
  "ar_get a i = (case hm_get a i of Some n \<Rightarrow> n | None \<Rightarrow> 0)"

definition ar_increment :: "active_requests \<Rightarrow> uuid \<Rightarrow> active_requests" where
  "ar_increment a i = hm_insert i (ar_get a i + 1) a"

definition ar_decrement :: "active_requests \<Rightarrow> uuid \<Rightarrow> active_requests" where
  "ar_decrement a i =
     (case hm_get a i of None \<Rightarrow> a | Some n \<Rightarrow> if 0 < n then hm_insert i (n - 1) a else a)"

definition ar_total :: "active_requests \<Rightarrow> u64" where
  "ar_total a = sum_list (map (\<lambda>n. ucast n) (hm_values a))"

text \<open>
  The guard: \<open>acquire\<close> increments and hands out a guard for the channel, dropping a guard
  decrements. The state is the tracker with the channels of the guards that are alive; a run
  never holds \<open>2 ^ 32\<close> guards at once, each of which is a live request.
\<close>

inductive guard_step :: "active_requests \<times> uuid list \<Rightarrow> active_requests \<times> uuid list \<Rightarrow> bool" where
  acquire: "guard_step (a, gs) (ar_increment a i, i # gs)"
| drop: "i \<in> set gs \<Longrightarrow> guard_step (a, gs) (ar_decrement a i, remove1 i gs)"

inductive guard_reachable :: "active_requests \<times> uuid list \<Rightarrow> bool" where
  start: "guard_reachable (ar_new, [])"
| step: "guard_reachable s \<Longrightarrow> guard_step s s' \<Longrightarrow> length (snd s') < 2 ^ 32 \<Longrightarrow> guard_reachable s'"

inductive_cases guard_stepE: "guard_step (a, gs) s'"

section \<open>Latency window\<close>

type_synonym latency_sample = "u64 \<times> u64 option"
type_synonym latency_tracker = "(uuid, latency_sample list) hashmap"

definition LATENCY_WINDOW_SIZE :: nat where "LATENCY_WINDOW_SIZE = 10"

definition lt_samples :: "latency_tracker \<Rightarrow> uuid \<Rightarrow> latency_sample list" where
  "lt_samples l i = (case hm_get l i of Some q \<Rightarrow> q | None \<Rightarrow> [])"

definition record_with_tokens :: "latency_tracker \<Rightarrow> uuid \<Rightarrow> u64 \<Rightarrow> u64 option \<Rightarrow> latency_tracker" where
  "record_with_tokens l i latency tokens =
     hm_insert i (push_window LATENCY_WINDOW_SIZE (lt_samples l i) (latency, tokens)) l"

definition lt_record :: "latency_tracker \<Rightarrow> uuid \<Rightarrow> u64 \<Rightarrow> latency_tracker" where
  "lt_record l i latency = record_with_tokens l i latency None"

definition avg_latency :: "latency_tracker \<Rightarrow> uuid \<Rightarrow> u64" where
  "avg_latency l i = (let samples = lt_samples l i in
     if samples = [] then 0 else sum_list (map fst samples) div of_nat (length samples))"

text \<open>\<open>(n as f64 * 0.95).ceil() as usize\<close> for a window length \<open>n\<close>.\<close>

definition p95_index :: "nat \<Rightarrow> nat" where
  "p95_index n = nat \<lceil>f64_mul (f64_of_nat n) (f64_lit (95 / 100))\<rceil>"

definition p95_latency :: "latency_tracker \<Rightarrow> uuid \<Rightarrow> u64" where
  "p95_latency l i = (let samples = lt_samples l i in
     if samples = [] then 0
     else let sorted = sort (map fst samples)
          in sorted ! min (p95_index (length sorted) - 1) (length sorted - 1))"

definition avg_latency_per_token :: "latency_tracker \<Rightarrow> uuid \<Rightarrow> u64 option" where
  "avg_latency_per_token l i =
     (let with_tokens = filter (\<lambda>(_, t). t \<noteq> None) (lt_samples l i) in
      if with_tokens = [] then None
      else let total_latency = sum_list (map fst with_tokens);
               total_tokens = sum_list (map (\<lambda>(_, t). the t) with_tokens)
           in if total_tokens = 0 then None else Some (total_latency div total_tokens))"

section \<open>Failure rate cooldown\<close>

definition DEFAULT_FAILURE_THRESHOLD :: f64 where "DEFAULT_FAILURE_THRESHOLD = f64_lit (3 / 10)"
definition MIN_ATTEMPTS :: nat where "MIN_ATTEMPTS = 5"
definition DEFAULT_COOLDOWN_SECS :: nat where "DEFAULT_COOLDOWN_SECS = 60"
definition COOLDOWN_WINDOW_SIZE :: nat where "COOLDOWN_WINDOW_SIZE = 20"

record cooldown_tracker =
  cd_records :: "(uuid, bool list) hashmap"
  cd_cooldowns :: "(uuid, instant) hashmap"
  cd_threshold :: f64
  cd_min_attempts :: nat
  cd_duration :: nat

definition cooldown_new :: cooldown_tracker where
  "cooldown_new = \<lparr>cd_records = [], cd_cooldowns = [], cd_threshold = DEFAULT_FAILURE_THRESHOLD,
     cd_min_attempts = MIN_ATTEMPTS, cd_duration = DEFAULT_COOLDOWN_SECS * 10 ^ 9\<rparr>"

definition evaluate_cooldown :: "cooldown_tracker \<Rightarrow> instant \<Rightarrow> uuid \<Rightarrow> cooldown_tracker" where
  "evaluate_cooldown t now i =
     (case hm_get (cd_records t) i of
        None \<Rightarrow> t
      | Some queue \<Rightarrow>
          if length queue < cd_min_attempts t then t
          else
            let failures = length (filter (\<lambda>s. \<not> s) queue);
                failure_rate = f64_div (f64_of_nat failures) (f64_of_nat (length queue))
            in if cd_threshold t \<le> failure_rate
               then t\<lparr>cd_cooldowns := hm_insert i (now + cd_duration t) (cd_cooldowns t)\<rparr>
               else t)"

definition record_attempt :: "cooldown_tracker \<Rightarrow> instant \<Rightarrow> uuid \<Rightarrow> bool \<Rightarrow> cooldown_tracker" where
  "record_attempt t now i success =
     (let queue = (case hm_get (cd_records t) i of Some q \<Rightarrow> q | None \<Rightarrow> []);
          t' = t\<lparr>cd_records := hm_insert i (push_window COOLDOWN_WINDOW_SIZE queue success) (cd_records t)\<rparr>
      in if \<not> success then evaluate_cooldown t' now i
         else t'\<lparr>cd_cooldowns := hm_remove i (cd_cooldowns t')\<rparr>)"

definition is_in_cooldown :: "cooldown_tracker \<Rightarrow> instant \<Rightarrow> uuid \<Rightarrow> bool" where
  "is_in_cooldown t now i =
     (case hm_get (cd_cooldowns t) i of Some until \<Rightarrow> now < until | None \<Rightarrow> False)"

definition cooldown_remaining_secs :: "cooldown_tracker \<Rightarrow> instant \<Rightarrow> uuid \<Rightarrow> nat" where
  "cooldown_remaining_secs t now i =
     (case hm_get (cd_cooldowns t) i of Some until \<Rightarrow> (until - now) div 10 ^ 9 | None \<Rightarrow> 0)"

definition cooldown_remove :: "cooldown_tracker \<Rightarrow> uuid \<Rightarrow> cooldown_tracker" where
  "cooldown_remove t i =
     t\<lparr>cd_records := hm_remove i (cd_records t), cd_cooldowns := hm_remove i (cd_cooldowns t)\<rparr>"

text \<open>A history of attempts on all channels, replayed on a fresh tracker.\<close>

definition run_attempts :: "(instant \<times> uuid \<times> bool) list \<Rightarrow> cooldown_tracker" where
  "run_attempts h = foldl (\<lambda>t (now, i, s). record_attempt t now i s) cooldown_new h"

definition recent_attempts :: "uuid \<Rightarrow> (instant \<times> uuid \<times> bool) list \<Rightarrow> bool list" where
  "recent_attempts i h =
     (let own = map (\<lambda>(_, _, s). s) (filter (\<lambda>(_, j, _). j = i) h) in drop (length own - 20) own)"

section \<open>Guards\<close>

lemma ar_get_increment: "ar_get (ar_increment a i) j = (if j = i then ar_get a i + 1 else ar_get a j)"
  by (simp add: ar_get_def ar_increment_def)

lemma ar_get_decrement:
  "ar_get (ar_decrement a i) j = (if j = i \<and> 0 < ar_get a i then ar_get a i - 1 else ar_get a j)"
  by (auto simp: ar_get_def ar_decrement_def split: option.splits)

lemma count_list_remove1:
  "count_list (remove1 i xs) j = (if j = i then count_list xs j - 1 else count_list xs j)"
  by (induction xs) auto

lemma count_list_le_length: "count_list xs i \<le> length xs"
  by (induction xs) auto

lemma guard_counts: "guard_reachable s \<Longrightarrow> unat (ar_get (fst s) i) = count_list (snd s) i"
proof (induction rule: guard_reachable.induct)
  case start
  then show ?case by (simp add: ar_get_def ar_new_def)
next
  case (step s s')
  from step.hyps(2) show ?case
  proof (cases rule: guard_step.cases)
    case (acquire a gs j)
    have "count_list gs i < 2 ^ 32 - 1"
      using step.hyps(3) acquire count_list_le_length[of gs i] by simp
    then have "ar_get a i \<noteq> - 1"
      using step.IH acquire unat_minus_one_max[where 'a = 32] by auto
    then show ?thesis
      using step.IH acquire unat_plus_one[of "ar_get a i"] by (simp add: ar_get_increment)
  next
    case (drop j gs a)
    then have "i = j \<Longrightarrow> 0 < unat (ar_get a i)"
      using step.IH count_list_0_iff[of gs j] by auto
    then have "i = j \<Longrightarrow> ar_get a i \<noteq> 0" by force
    then have "i = j \<Longrightarrow> unat (ar_get a i - 1) = unat (ar_get a i) - 1 \<and> 0 < ar_get a i"
      using unat_minus_one[of "ar_get a i"] by (simp add: word_neq_0_conv)
    then show ?thesis
      using step.IH drop by (cases "i = j") (simp_all add: ar_get_decrement count_list_remove1)
  qed
qed

section \<open>Windows\<close>

lemma sorted_last_Max: "xs \<noteq> [] \<Longrightarrow> sorted xs \<Longrightarrow> last xs = Max (set xs)" for xs :: "'a::linorder list"
  by (induction xs) (auto simp: max_def intro!: antisym)

lemma sort_last_Max: "xs \<noteq> [] \<Longrightarrow> last (sort xs) = Max (set xs)" for xs :: "'a::linorder list"
  using sorted_last_Max[of "sort xs"] by (metis set_sort sorted_sort sort_key_eq_Nil)

text \<open>The index of the 95th percentile of at most ten samples is their number.\<close>

lemma p95_index_small: "0 < n \<Longrightarrow> n \<le> 10 \<Longrightarrow> p95_index n = n"
proof -
  assume n: "0 < n" "n \<le> 10"
  let ?q = "f64_rnd (95 / 100)" and ?x = "f64_mul (f64_of_nat n) (f64_rnd (95 / 100))"
  have e: "f64_of_nat n = of_nat n" using n by (intro f64_of_nat_exact) simp
  have lo: "f64_rnd (of_int 15 * 2 powi - 4) = of_int 15 * 2 powi - 4" by (rule f64_rnd_exact) simp_all
  have "of_int 15 * 2 powi - 4 \<le> ?q"
    using f64_rnd_mono[of "of_int 15 * 2 powi - 4" "95 / 100"] lo by (simp add: power_int_minus)
  then have q: "15 / 16 \<le> ?q" "?q \<le> 1"
    using f64_rnd_mono[of "95 / 100" 1] f64_rnd_of_int[of 1] by (simp_all add: power_int_minus)
  have "f64_rnd (of_int (15 * int n) * 2 powi - 4) = of_int (15 * int n) * 2 powi - 4"
    by (rule f64_rnd_exact) (use n in simp_all)
  then have "of_nat n * (15 / 16) \<le> f64_rnd (of_nat n * ?q)"
    using f64_rnd_mono[of "of_nat n * (15 / 16)" "of_nat n * ?q"] q(1) n
    by (simp add: power_int_minus field_simps)
  moreover have "f64_rnd (of_nat n * ?q) \<le> of_nat n"
    using f64_rnd_mono[of "of_nat n * ?q" "of_nat n"] q n e
    by (simp add: f64_of_nat_def mult_left_le)
  moreover have "of_nat n - 1 < (of_nat n * (15 / 16) :: rat)"
  proof -
    have "(of_nat n :: rat) \<le> of_nat 10" using n(2) by (simp only: of_nat_le_iff)
    then show ?thesis by simp
  qed
  ultimately have "of_nat n - 1 < ?x" "?x \<le> of_nat n" by (simp_all add: f64_mul_def e)
  then have "\<lceil>?x\<rceil> = int n" by (simp add: ceiling_eq_iff)
  then show ?thesis by (simp add: p95_index_def)
qed

lemma lt_samples_record:
  "lt_samples (record_with_tokens l i x t) j =
     (if j = i then push_window LATENCY_WINDOW_SIZE (lt_samples l i) (x, t) else lt_samples l j)"
  by (simp add: lt_samples_def record_with_tokens_def)

lemma lt_samples_history:
  "lt_samples (foldl (\<lambda>l (x, t). record_with_tokens l i x t) [] h) i = drop (length h - 10) h"
proof -
  have "lt_samples (foldl (\<lambda>l (x, t). record_with_tokens l i x t) l h) i =
      foldl (push_window LATENCY_WINDOW_SIZE) (lt_samples l i) h" for l
    by (induction h arbitrary: l) (auto simp: lt_samples_record)
  from this[of "[]"] show ?thesis
    using foldl_push_window[of 10 h] by (simp add: LATENCY_WINDOW_SIZE_def lt_samples_def)
qed

section \<open>The failure rate test\<close>

text \<open>
  The double-precision comparison of the failure rate with the literal \<open>0.30\<close> decides the exact
  inequality: every rate below three tenths over at most twenty attempts is at most \<open>19 / 64\<close>,
  which the rounding keeps apart from the literal.
\<close>

lemma failure_rate_exact:
  assumes "0 < n" "n \<le> 20" "k \<le> n"
  shows "DEFAULT_FAILURE_THRESHOLD \<le> f64_div (f64_of_nat k) (f64_of_nat n) \<longleftrightarrow> 3 * n \<le> 10 * k"
proof -
  have e: "f64_of_nat k = of_nat k" "f64_of_nat n = of_nat n"
    using assms by (auto intro!: f64_of_nat_exact)
  have lo: "f64_rnd (of_int 19 * 2 powi - 6) = of_int 19 * 2 powi - 6"
    and hi: "f64_rnd (of_int 153 * 2 powi - 9) = of_int 153 * 2 powi - 9"
    by (rule f64_rnd_exact; simp)+
  show ?thesis
  proof (cases "3 * n \<le> 10 * k")
    case True
    then have "(3 * of_nat n :: rat) \<le> 10 * of_nat k"
      by (metis of_nat_le_iff of_nat_mult of_nat_numeral)
    then have "(3 / 10 :: rat) \<le> of_nat k / of_nat n" using assms(1) by (simp add: field_simps)
    then have "f64_rnd (3 / 10) \<le> f64_rnd (of_nat k / of_nat n)" by (intro f64_rnd_mono) auto
    with True show ?thesis by (simp add: DEFAULT_FAILURE_THRESHOLD_def f64_div_def e)
  next
    case False
    then have "64 * k \<le> 19 * n" using assms by linarith
    then have "(64 * of_nat k :: rat) \<le> 19 * of_nat n"
      by (metis of_nat_le_iff of_nat_mult of_nat_numeral)
    then have "of_nat k / of_nat n \<le> (of_int 19 * 2 powi - 6 :: rat)"
      using assms(1) by (simp add: field_simps power_int_minus)
    then have "f64_rnd (of_nat k / of_nat n) \<le> of_int 19 * 2 powi - 6"
      using f64_rnd_mono[of "of_nat k / of_nat n" "of_int 19 * 2 powi - 6"] lo by simp
    also have "\<dots> < (of_int 153 * 2 powi - 9 :: rat)" by (simp add: power_int_minus)
    also have "\<dots> \<le> f64_rnd (3 / 10)"
      using f64_rnd_mono[of "of_int 153 * 2 powi - 9" "3 / 10"] hi by (simp add: power_int_minus)
    finally show ?thesis using False by (simp add: DEFAULT_FAILURE_THRESHOLD_def f64_div_def e)
  qed
qed

lemma evaluate_records [simp]:
  "cd_records (evaluate_cooldown t now i) = cd_records t"
  "cd_threshold (evaluate_cooldown t now i) = cd_threshold t"
  "cd_min_attempts (evaluate_cooldown t now i) = cd_min_attempts t"
  "cd_duration (evaluate_cooldown t now i) = cd_duration t"
  by (simp_all add: evaluate_cooldown_def Let_def split: option.splits)

lemma record_attempt_config [simp]:
  "cd_threshold (record_attempt t now i s) = cd_threshold t"
  "cd_min_attempts (record_attempt t now i s) = cd_min_attempts t"
  "cd_duration (record_attempt t now i s) = cd_duration t"
  by (simp_all add: record_attempt_def Let_def)

definition cd_queue :: "cooldown_tracker \<Rightarrow> uuid \<Rightarrow> bool list" where
  "cd_queue t i = (case hm_get (cd_records t) i of Some q \<Rightarrow> q | None \<Rightarrow> [])"

lemma cd_queue_record:
  "cd_queue (record_attempt t now i s) j =
     (if j = i then push_window COOLDOWN_WINDOW_SIZE (cd_queue t i) s else cd_queue t j)"
  by (simp add: cd_queue_def record_attempt_def Let_def)

lemma run_attempts_config:
  "cd_threshold (run_attempts h) = DEFAULT_FAILURE_THRESHOLD"
  "cd_min_attempts (run_attempts h) = 5"
  "cd_duration (run_attempts h) = 60000000000"
  by (induction h rule: rev_induct)
    (auto simp: run_attempts_def cooldown_new_def MIN_ATTEMPTS_def DEFAULT_COOLDOWN_SECS_def)

lemma run_attempts_queue: "cd_queue (run_attempts h) i = recent_attempts i h"
proof (induction h rule: rev_induct)
  case Nil
  then show ?case by (simp add: run_attempts_def cooldown_new_def cd_queue_def recent_attempts_def)
next
  case (snoc x h)
  obtain now j s where x: "x = (now, j, s)" by (cases x)
  have "run_attempts (h @ [x]) = record_attempt (run_attempts h) now j s"
    by (simp add: run_attempts_def x)
  then show ?case
    using snoc push_window_suffix[of 20 "map (\<lambda>(_, _, s). s) (filter (\<lambda>(_, k, _). k = i) h)" s]
    by (auto simp: cd_queue_record recent_attempts_def Let_def x COOLDOWN_WINDOW_SIZE_def)
qed

lemma record_failure_cooldown:
  assumes "cd_min_attempts t = 5" "cd_threshold t = DEFAULT_FAILURE_THRESHOLD"
    and "length (cd_queue t i) \<le> 20"
  shows "is_in_cooldown (record_attempt t t0 i False) now i \<longleftrightarrow>
    (let q = push_window 20 (cd_queue t i) False in
     if 5 \<le> length q \<and> 3 * length q \<le> 10 * length (filter Not q) then now < t0 + cd_duration t
     else is_in_cooldown t now i)"
proof -
  let ?q = "push_window 20 (cd_queue t i) False"
  have len: "length ?q \<le> 20" using assms(3) by (rule push_window_length)
  have "DEFAULT_FAILURE_THRESHOLD \<le> f64_div (f64_of_nat (length (filter Not ?q))) (f64_of_nat (length ?q))
      \<longleftrightarrow> 3 * length ?q \<le> 10 * length (filter Not ?q)" if "5 \<le> length ?q"
    using that len by (intro failure_rate_exact) auto
  then show ?thesis
    using assms(1,2)
    by (auto simp: record_attempt_def evaluate_cooldown_def is_in_cooldown_def Let_def
        cd_queue_def[symmetric] COOLDOWN_WINDOW_SIZE_def not_less)
qed

text \<open>Whatever the interleaving of acquired and dropped guards, the active request count of a
  channel is the number of its live guards; in particular the count never underflows and returns
  to zero when every request has ended.\<close>

theorem active_count_is_live_guards:
  assumes "guard_reachable (a, gs)"
  shows "unat (ar_get a i) = count_list gs i"
  using guard_counts[OF assms, of i] by simp

lemma active_count_is_live_guards_witness:
  "unat (ar_get (ar_increment (ar_increment ar_new 3) 3) 3) = 2"
proof -
  have "guard_reachable (ar_increment ar_new 3, [3])"
    by (rule guard_reachable.step[OF guard_reachable.start guard_step.acquire]) simp
  then have "guard_reachable (ar_increment (ar_increment ar_new 3) 3, [3, 3])"
    by (rule guard_reachable.step[OF _ guard_step.acquire]) simp
  from active_count_is_live_guards[OF this, of 3] show ?thesis by simp
qed

text \<open>The reported 95th percentile is the maximum of the last ten samples of the channel (with
  ten samples the percentile index is always the last one), and the tracker keeps exactly the last
  ten samples.\<close>

theorem p95_is_window_maximum:
  assumes "h \<noteq> []"
  shows "p95_latency (foldl (\<lambda>l (x, t). record_with_tokens l i x t) [] h) i =
    Max (fst ` set (drop (length h - 10) h))"
proof -
  let ?w = "drop (length h - 10) h"
  let ?s = "sort (map fst ?w)"
  have ne: "?w \<noteq> []" using assms by (cases h) auto
  have len: "0 < length ?s" "length ?s \<le> 10" using ne by auto
  have "p95_latency (foldl (\<lambda>l (x, t). record_with_tokens l i x t) [] h) i = last ?s"
    using ne p95_index_small[OF len]
    by (simp add: p95_latency_def lt_samples_history Let_def last_conv_nth)
  then show ?thesis using ne by (simp add: sort_last_Max)
qed

lemma p95_is_window_maximum_witness:
  "p95_latency (foldl (\<lambda>l (x, t). record_with_tokens l 1 x t) [] [(30, None), (90, Some 4), (50, None)]) 1 = 90"
  using p95_is_window_maximum[of "[(30, None), (90, Some 4), (50, None)]" 1] by simp

text \<open>C32: after a failed attempt at time \<open>t0\<close> the channel is in cooldown for exactly sixty seconds
  when at least five attempts are in its window of the last twenty and three tenths or more of them
  failed; otherwise the attempt leaves an earlier cooldown as it was. The floating-point rate
  decides the exact ratio. A success ends the cooldown.\<close>

theorem cooldown_threshold:
  "(is_in_cooldown (run_attempts (h @ [(t0, i, False)])) now i \<longleftrightarrow>
     (let q = recent_attempts i (h @ [(t0, i, False)]) in
      if 5 \<le> length q \<and> 3 * length q \<le> 10 * length (filter Not q) then now < t0 + 60000000000
      else is_in_cooldown (run_attempts h) now i))
   \<and> \<not> is_in_cooldown (run_attempts (h @ [(t0, i, True)])) now i"
proof -
  have step: "run_attempts (h @ [(t0, i, s)]) = record_attempt (run_attempts h) t0 i s" for s
    by (simp add: run_attempts_def)
  have "length (cd_queue (run_attempts h) i) \<le> 20"
    by (simp add: run_attempts_queue recent_attempts_def Let_def)
  note fail = record_failure_cooldown[OF run_attempts_config(2,1) this, of t0 now]
  have "push_window 20 (cd_queue (run_attempts h) i) False = recent_attempts i (h @ [(t0, i, False)])"
    using run_attempts_queue[of "h @ [(t0, i, False)]" i]
    by (simp add: step cd_queue_record COOLDOWN_WINDOW_SIZE_def)
  with fail have "is_in_cooldown (run_attempts (h @ [(t0, i, False)])) now i \<longleftrightarrow>
     (let q = recent_attempts i (h @ [(t0, i, False)]) in
      if 5 \<le> length q \<and> 3 * length q \<le> 10 * length (filter Not q) then now < t0 + 60000000000
      else is_in_cooldown (run_attempts h) now i)"
    by (simp add: step run_attempts_config)
  moreover have "\<not> is_in_cooldown (run_attempts (h @ [(t0, i, True)])) now i"
    by (simp add: step record_attempt_def is_in_cooldown_def Let_def)
  ultimately show ?thesis ..
qed

end
