(* ===== verification/Sliding_Window.thy ===== *)
theory Sliding_Window
  imports Prelude
begin

text \<open>
  \<open>BucketedWindow\<close> of \<open>proxy/rate_limiter.rs\<close>: a ring of one-second buckets over a window, and its
  relation to the log of everything that was recorded. Times inside the window are milliseconds
  since its epoch, kept as natural numbers (the 64 bits of the source last for ages); counts keep
  their 64 bits and wrap.
\<close>

definition WINDOW_MS :: nat where "WINDOW_MS = 60000"

record bucketed_window =
  bw_buckets :: "(nat \<times> u64) list"
  bw_bucket_ms :: nat
  bw_bucket_count :: nat
  bw_window_ms :: nat
  bw_epoch :: instant

definition bw_new :: "nat \<Rightarrow> instant \<Rightarrow> bucketed_window" where
  "bw_new window_ms now =
     (let bucket_ms = min 1000 window_ms; bucket_count = max (window_ms div bucket_ms) 1
      in \<lparr>bw_buckets = replicate bucket_count (0, 0), bw_bucket_ms = bucket_ms,
          bw_bucket_count = bucket_count, bw_window_ms = window_ms, bw_epoch = now\<rparr>)"

definition bw_now_ms :: "bucketed_window \<Rightarrow> instant \<Rightarrow> nat" where
  "bw_now_ms w now = (now - bw_epoch w) div 1000000"

definition bw_add_ms :: "bucketed_window \<Rightarrow> nat \<Rightarrow> u64 \<Rightarrow> bucketed_window" where
  "bw_add_ms w now count =
     (let bucket_ts = (now div bw_bucket_ms w) * bw_bucket_ms w;
          idx = (now div bw_bucket_ms w) mod bw_bucket_count w;
          (ts, c) = bw_buckets w ! idx
      in w\<lparr>bw_buckets := (bw_buckets w)[idx := if ts = bucket_ts then (ts, c + count)
                                               else (bucket_ts, count)]\<rparr>)"

definition bw_add :: "bucketed_window \<Rightarrow> instant \<Rightarrow> u64 \<Rightarrow> bucketed_window" where
  "bw_add w now count = bw_add_ms w (bw_now_ms w now) count"

definition bw_total_ms :: "bucketed_window \<Rightarrow> nat \<Rightarrow> u64" where
  "bw_total_ms w now =
     (let cutoff = now - bw_window_ms w
      in sum_list (map snd (filter (\<lambda>(ts, _). cutoff \<le> ts) (bw_buckets w))))"

definition bw_current_total :: "bucketed_window \<Rightarrow> instant \<Rightarrow> u64" where
  "bw_current_total w now = bw_total_ms w (bw_now_ms w now)"

definition bw_check_and_add :: "bucketed_window \<Rightarrow> instant \<Rightarrow> u64 \<Rightarrow> u64 \<Rightarrow> bool" where
  "bw_check_and_add w now count limit = (bw_current_total w now + count \<le> limit)"

section \<open>The log of a window\<close>

text \<open>What was recorded, in order: the time in milliseconds and the count.\<close>

type_synonym window_log = "(nat \<times> u64) list"

definition bw_run :: "instant \<Rightarrow> window_log \<Rightarrow> bucketed_window" where
  "bw_run epoch es = foldl (\<lambda>w (t, c). bw_add_ms w t c) (bw_new WINDOW_MS epoch) es"

definition log_sum :: "(nat \<Rightarrow> bool) \<Rightarrow> window_log \<Rightarrow> nat" where
  "log_sum P es = sum_list (map (\<lambda>(t, c). unat c) (filter (\<lambda>(t, _). P t) es))"

definition log_wsum :: "(nat \<Rightarrow> bool) \<Rightarrow> window_log \<Rightarrow> u64" where
  "log_wsum P es = sum_list (map snd (filter (\<lambda>(t, _). P t) es))"

lemma log_sum_mono: "(\<And>t c. (t, c) \<in> set es \<Longrightarrow> P t \<Longrightarrow> Q t) \<Longrightarrow> log_sum P es \<le> log_sum Q es"
  by (induction es) (auto simp: log_sum_def intro: add_mono trans_le_add2)

lemma log_wsum_cong:
  "(\<And>t c. (t, c) \<in> set es \<Longrightarrow> P t = Q t) \<Longrightarrow> log_wsum P es = log_wsum Q es"
  unfolding log_wsum_def by (rule arg_cong[where f = "\<lambda>l. sum_list (map snd l)"], rule filter_cong) auto

lemma log_wsum_append [simp]:
  "log_wsum P (a @ b) = log_wsum P a + log_wsum P b"
  by (simp add: log_wsum_def)

lemma log_wsum_single [simp]: "log_wsum P [(t, c)] = (if P t then c else 0)"
  by (simp add: log_wsum_def)

lemma log_wsum_none: "(\<And>t c. (t, c) \<in> set es \<Longrightarrow> \<not> P t) \<Longrightarrow> log_wsum P es = 0"
  by (induction es) (auto simp: log_wsum_def)

lemma unat_log_wsum:
  assumes "log_sum (\<lambda>_. True) es < 2 ^ 64"
  shows "unat (log_wsum P es) = log_sum P es"
  using assms
proof (induction es)
  case Nil
  then show ?case by (simp add: log_wsum_def log_sum_def)
next
  case (Cons x es)
  obtain t c where x: "x = (t, c)" by (cases x)
  have bound: "unat c + log_sum (\<lambda>_. True) es < 2 ^ 64"
    using Cons.prems by (simp add: log_sum_def x)
  with Cons.IH have IH: "unat (log_wsum P es) = log_sum P es" by linarith
  have "log_sum P es \<le> log_sum (\<lambda>_. True) es" by (rule log_sum_mono) simp
  with bound IH have "unat c + unat (log_wsum P es) < 2 ^ 64" by linarith
  then have "unat (c + log_wsum P es) = unat c + unat (log_wsum P es)"
    by (simp add: unat_word_ariths)
  with IH show ?case by (auto simp: log_wsum_def log_sum_def x)
qed

section \<open>The ring represents the log\<close>

abbreviation bucket_of :: "nat \<Rightarrow> nat" where "bucket_of t \<equiv> t div 1000 * 1000"
abbreviation slot_of :: "nat \<Rightarrow> nat" where "slot_of t \<equiv> t div 1000 mod 60"

definition ring_slot :: "window_log \<Rightarrow> nat \<Rightarrow> nat \<times> u64 \<Rightarrow> bool" where
  "ring_slot es j b \<longleftrightarrow>
     snd b = log_wsum (\<lambda>t. slot_of t = j \<and> bucket_of t = fst b) es
     \<and> (\<forall>(t, c) \<in> set es. slot_of t = j \<longrightarrow> bucket_of t \<le> fst b)
     \<and> (fst b = 0 \<or> (\<exists>(t, c) \<in> set es. slot_of t = j \<and> fst b = bucket_of t))"

definition ring_ok :: "bucketed_window \<Rightarrow> window_log \<Rightarrow> bool" where
  "ring_ok w es \<longleftrightarrow> length (bw_buckets w) = 60 \<and> bw_bucket_ms w = 1000 \<and> bw_bucket_count w = 60
     \<and> bw_window_ms w = 60000 \<and> (\<forall>j < 60. ring_slot es j (bw_buckets w ! j))"

lemma ring_ok_new: "ring_ok (bw_new WINDOW_MS epoch) []"
  by (simp add: ring_ok_def bw_new_def WINDOW_MS_def Let_def ring_slot_def log_wsum_def)

lemma ring_slot_other:
  "ring_slot es j b \<Longrightarrow> slot_of t \<noteq> j \<Longrightarrow> ring_slot (es @ [(t, c)]) j b"
  by (auto simp: ring_slot_def)

lemma ring_slot_same:
  assumes "ring_slot es (slot_of t) (ts, n)" "\<forall>(t', c') \<in> set es. t' \<le> t"
  shows "ring_slot (es @ [(t, c)]) (slot_of t)
    (if ts = bucket_of t then (ts, n + c) else (bucket_of t, c))"
proof -
  have le: "bucket_of t' \<le> bucket_of t" if "(t', c') \<in> set es" for t' c'
  proof -
    have "t' \<le> t" using that assms(2) by auto
    then show ?thesis by (simp add: div_le_mono)
  qed
  have ts: "ts \<le> bucket_of t" using assms(1) le by (auto simp: ring_slot_def)
  show ?thesis
  proof (cases "ts = bucket_of t")
    case True
    then show ?thesis using assms(1) le by (auto simp: ring_slot_def)
  next
    case False
    have "log_wsum (\<lambda>t'. slot_of t' = slot_of t \<and> bucket_of t' = bucket_of t) es = 0"
      using assms(1) ts False by (intro log_wsum_none) (auto simp: ring_slot_def)
    with False le show ?thesis by (auto simp: ring_slot_def)
  qed
qed

lemma ring_ok_add:
  assumes "ring_ok w es" "\<forall>(t', c') \<in> set es. t' \<le> t"
  shows "ring_ok (bw_add_ms w t c) (es @ [(t, c)])"
proof -
  obtain ts n where b: "bw_buckets w ! slot_of t = (ts, n)" by fastforce
  have "slot_of t < 60" by simp
  then have "ring_slot es (slot_of t) (ts, n)" using assms(1) b by (metis ring_ok_def)
  then have same: "ring_slot (es @ [(t, c)]) (slot_of t)
      (if ts = bucket_of t then (ts, n + c) else (bucket_of t, c))"
    using assms(2) by (rule ring_slot_same)
  have "ring_slot (es @ [(t, c)]) j (bw_buckets (bw_add_ms w t c) ! j)" if "j < 60" for j
    using that same assms(1) b
    by (cases "j = slot_of t") (simp_all add: ring_ok_def bw_add_ms_def Let_def ring_slot_other)
  with assms(1) show ?thesis by (simp add: ring_ok_def bw_add_ms_def Let_def split: prod.splits)
qed

lemma ring_ok_run:
  "sorted (map fst es) \<Longrightarrow> ring_ok (bw_run epoch es) es"
proof (induction es rule: rev_induct)
  case (snoc x es)
  obtain t c where x: "x = (t, c)" by (cases x)
  have "\<forall>(t', c') \<in> set es. t' \<le> t" using snoc.prems by (auto simp: sorted_append x)
  with snoc show ?case by (simp add: bw_run_def ring_ok_add sorted_append x)
qed (simp add: bw_run_def ring_ok_new)

section \<open>The total\<close>

lemma sum_slots:
  "(\<Sum>j<60. log_wsum (\<lambda>t. slot_of t = j \<and> P j t) es) = log_wsum (\<lambda>t. P (slot_of t) t) es"
proof (induction es)
  case Nil
  then show ?case by (simp add: log_wsum_def)
next
  case (Cons x es)
  obtain t c where x: "x = (t, c)" by (cases x)
  have split: "log_wsum Q (x # es) = (if Q t then c else 0) + log_wsum Q es" for Q
    by (simp add: log_wsum_def x)
  have "(\<Sum>j<60. if slot_of t = j \<and> P j t then c else 0) =
      (\<Sum>j<60. if j = slot_of t then (if P j t then c else 0) else 0)"
    by (rule sum.cong) auto
  then have "(\<Sum>j<60. if slot_of t = j \<and> P j t then c else 0) = (if P (slot_of t) t then c else 0)"
    by (simp add: sum.delta)
  with Cons show ?case by (simp add: split sum.distrib)
qed

text \<open>The total is the sum of the logged events that sit in the bucket of their slot and whose
  bucket starts inside the window.\<close>

lemma bw_total_log:
  assumes "ring_ok w es"
  shows "bw_total_ms w now =
    log_wsum (\<lambda>t. bucket_of t = fst (bw_buckets w ! slot_of t) \<and> now - 60000 \<le> bucket_of t) es"
proof -
  let ?b = "bw_buckets w" and ?cut = "now - 60000"
  have slot: "snd (?b ! j) = log_wsum (\<lambda>t. slot_of t = j \<and> bucket_of t = fst (?b ! j)) es" if "j < 60" for j
    using assms that by (simp add: ring_ok_def ring_slot_def)
  have "bw_total_ms w now = sum_list (map (\<lambda>x. if ?cut \<le> fst x then snd x else 0) ?b)"
    using assms by (simp add: bw_total_ms_def ring_ok_def Let_def sum_list_map_filter' case_prod_unfold)
  also have "\<dots> = (\<Sum>j<60. if ?cut \<le> fst (?b ! j) then snd (?b ! j) else 0)"
    using assms by (simp add: ring_ok_def sum_list_sum_nth atLeast0LessThan)
  also have "\<dots> = (\<Sum>j<60. log_wsum (\<lambda>t. slot_of t = j \<and> (bucket_of t = fst (?b ! j) \<and> ?cut \<le> bucket_of t)) es)"
    (is "?l = ?r")
  proof (rule sum.cong)
    fix j :: nat assume "j \<in> {..<60}"
    then show "(if ?cut \<le> fst (?b ! j) then snd (?b ! j) else 0) =
        log_wsum (\<lambda>t. slot_of t = j \<and> (bucket_of t = fst (?b ! j) \<and> ?cut \<le> bucket_of t)) es"
      using slot[of j] log_wsum_none[of es "\<lambda>t. slot_of t = j \<and> (bucket_of t = fst (?b ! j) \<and> ?cut \<le> bucket_of t)"]
      by (cases "?cut \<le> fst (?b ! j)") (auto intro!: log_wsum_cong)
  qed simp
  also have "\<dots> = log_wsum (\<lambda>t. bucket_of t = fst (?b ! slot_of t) \<and> ?cut \<le> bucket_of t) es"
    by (rule sum_slots)
  finally show ?thesis .
qed

lemma same_slot_close:
  assumes "slot_of t = slot_of t'" "t div 1000 \<le> t' div 1000" "t' div 1000 < t div 1000 + 60"
  shows "t' div 1000 = t div 1000"
proof -
  have "60 dvd t' div 1000 - t div 1000"
    using assms(1) mod_eq_dvd_iff_nat[OF assms(2), of 60] by metis
  moreover have "t' div 1000 - t div 1000 < 60" using assms(2,3) by linarith
  ultimately have "t' div 1000 - t div 1000 = 0" using nat_dvd_not_less by blast
  then show ?thesis using assms(2) by linarith
qed

text \<open>An event of the last 59 seconds is still in its bucket.\<close>

lemma recent_in_bucket:
  assumes "ring_ok w es" "(t, c) \<in> set es" "now < t + 59000" "\<forall>(t', c') \<in> set es. t' \<le> now"
  shows "bucket_of t = fst (bw_buckets w ! slot_of t) \<and> now - 60000 \<le> bucket_of t"
proof
  let ?b = "fst (bw_buckets w ! slot_of t)"
  have "slot_of t < 60" by simp
  then have r: "ring_slot es (slot_of t) (bw_buckets w ! slot_of t)" using assms(1) by (simp add: ring_ok_def)
  then have le: "bucket_of t \<le> ?b" using assms(2) by (auto simp: ring_slot_def)
  show "bucket_of t = ?b"
  proof (cases "?b = 0")
    case True
    with le show ?thesis by simp
  next
    case False
    then obtain t' c' where t': "(t', c') \<in> set es" "?b = bucket_of t'" "slot_of t' = slot_of t"
      using r by (auto simp: ring_slot_def)
    have "t' \<le> now" using t'(1) assms(4) by auto
    then have "t' div 1000 \<le> now div 1000" by (rule div_le_mono)
    moreover have "now div 1000 < t div 1000 + 60" using assms(3) by linarith
    moreover have "t div 1000 \<le> t' div 1000" using le t'(2) by simp
    ultimately show ?thesis using same_slot_close[of t t'] t' by simp
  qed
  show "now - 60000 \<le> bucket_of t" using assms(3) by linarith
qed

lemma window_sandwich:
  assumes "sorted (map fst es)" "\<forall>(t, c) \<in> set es. t \<le> now" "log_sum (\<lambda>_. True) es < 2 ^ 64"
  shows "log_sum (\<lambda>t. now < t + 59000) es \<le> unat (bw_total_ms (bw_run epoch es) now)"
    and "unat (bw_total_ms (bw_run epoch es) now) \<le> log_sum (\<lambda>t. now \<le> t + 60000) es"
proof -
  let ?w = "bw_run epoch es"
  have ok: "ring_ok ?w es" using assms(1) by (rule ring_ok_run)
  have tot: "unat (bw_total_ms ?w now) = log_sum (\<lambda>t. bucket_of t = fst (bw_buckets ?w ! slot_of t)
      \<and> now - 60000 \<le> bucket_of t) es"
    using bw_total_log[OF ok] unat_log_wsum[OF assms(3)] by simp
  show "log_sum (\<lambda>t. now < t + 59000) es \<le> unat (bw_total_ms ?w now)"
    unfolding tot using recent_in_bucket[OF ok _ _ assms(2)] by (intro log_sum_mono) blast
  have "now \<le> t + 60000" if "now - 60000 \<le> bucket_of t" for t
    using that by (metis add.commute le_diff_conv order_trans add_le_cancel_left div_times_less_eq_dividend)
  then show "unat (bw_total_ms ?w now) \<le> log_sum (\<lambda>t. now \<le> t + 60000) es"
    unfolding tot by (intro log_sum_mono) blast
qed

text \<open>C8: the ring of one-second buckets is a sliding window over the log of everything recorded:
  its total counts every event of the last 59 seconds and no event older than 60 seconds, whatever
  buckets were overwritten in between.\<close>

theorem sliding_window_sandwich:
  assumes "sorted (map fst es)" "\<forall>(t, c) \<in> set es. t \<le> now" "log_sum (\<lambda>_. True) es < 2 ^ 64"
  shows "log_sum (\<lambda>t. now < t + 59000) es \<le> unat (bw_total_ms (bw_run epoch es) now)
    \<and> unat (bw_total_ms (bw_run epoch es) now) \<le> log_sum (\<lambda>t. now \<le> t + 60000) es"
  using window_sandwich[OF assms] by blast

lemma sliding_window_sandwich_witness:
  "unat (bw_total_ms (bw_run 0 [(500, 3), (61000, 4), (61500, 5)]) 90000) = 9"
  using sliding_window_sandwich[of "[(500, 3), (61000, 4), (61500, 5)]" 90000 0]
  by (simp add: log_sum_def)

end
