(* ===== verification/Redis_Limit.thy ===== *)
theory Redis_Limit
  imports Prelude
begin

text \<open>
  \<open>proxy/redis_rate_limit.rs\<close>: the distributed counters. The Lua script the backend sends is
  modelled on the server's keys (a hash of ten-second buckets with an expiry time); the connection
  is an argument that says for every key suffix whether the call is answered, never reaches the
  server, or loses its answer. Numbers of the script are integers: the script's doubles are exact
  below \<open>2 ^ 53\<close>.
\<close>

type_synonym redis_hash = "(int, int) hashmap"
type_synonym redis_server = "(string, redis_hash \<times> int) hashmap"

datatype redis_link = Reply | Unreachable | ReplyLost

record redis_env =
  re_prefix :: string
  re_link :: "string \<Rightarrow> redis_link"
  re_uuid :: "uuid \<Rightarrow> string"
  re_now :: int

definition REDIS_WINDOW_MS :: int where "REDIS_WINDOW_MS = 60000"
definition REDIS_BUCKET_MS :: int where "REDIS_BUCKET_MS = 10000"

text \<open>A key past its expiry is gone, and a hash without fields does not exist.\<close>

definition redis_hgetall :: "redis_server \<Rightarrow> int \<Rightarrow> string \<Rightarrow> redis_hash" where
  "redis_hgetall srv now key =
     (case hm_get srv key of Some (h, expire) \<Rightarrow> if now < expire then h else [] | None \<Rightarrow> [])"

definition redis_put :: "redis_server \<Rightarrow> string \<Rightarrow> redis_hash \<Rightarrow> int \<Rightarrow> redis_server" where
  "redis_put srv key h expire = (if h = [] then hm_remove key srv else hm_insert key (h, expire) srv)"

definition redis_ttl :: "redis_server \<Rightarrow> string \<Rightarrow> int" where
  "redis_ttl srv key = (case hm_get srv key of Some (_, expire) \<Rightarrow> expire | None \<Rightarrow> 0)"

text \<open>
  The script. Lua computes with double-precision numbers, which agree with the integers here as long as the
  amounts, sums and times stay below \<open>2\<^sup>5\<^sup>3\<close>: the times are milliseconds, and a minute of tokens is far below
  that. The gateway passes its own time as \<open>now\<close>; the key expires by the clock of the Redis server, which is
  taken to agree with it.
\<close>

definition check_and_add_lua ::
  "redis_server \<Rightarrow> string \<Rightarrow> int \<Rightarrow> int \<Rightarrow> int \<Rightarrow> int \<Rightarrow> int \<Rightarrow> bool \<Rightarrow> redis_server \<times> bool \<times> int" where
  "check_and_add_lua srv key now window bucket_size amount limit add_flag =
     (let current_bucket = now div bucket_size;
          min_valid_bucket = (now - window) div bucket_size;
          valid = hm_retain (\<lambda>bucket _. min_valid_bucket \<le> bucket) (redis_hgetall srv now key);
          total = sum_list (hm_values valid)
      in if 0 < limit \<and> limit < total + amount
         then (redis_put srv key valid (redis_ttl srv key), False, total)
         else if add_flag \<and> 0 < amount then
           let h = hm_insert current_bucket
                     ((case hm_get valid current_bucket of Some n \<Rightarrow> n | None \<Rightarrow> 0) + amount) valid
           in (redis_put srv key h (now + window + bucket_size), True, total + amount)
         else (redis_put srv key valid (now + window + bucket_size), True, total))"

definition redis_check_and_add ::
  "redis_env \<Rightarrow> redis_server \<Rightarrow> string \<Rightarrow> u64 \<Rightarrow> u64 \<Rightarrow> bool \<Rightarrow> redis_server \<times> (bool \<times> u64) option" where
  "redis_check_and_add env srv key_suffix amount limit add_flag =
     (let redis_key = re_prefix env @ '':'' @ key_suffix;
          (srv', allowed, total) = check_and_add_lua srv redis_key (re_now env)
             REDIS_WINDOW_MS REDIS_BUCKET_MS (uint amount) (uint limit) add_flag
      in case re_link env key_suffix of
           Reply \<Rightarrow> (srv', Some (allowed, of_int total))
         | ReplyLost \<Rightarrow> (srv', None)
         | Unreachable \<Rightarrow> (srv, None))"

definition channel_key :: "redis_env \<Rightarrow> uuid \<Rightarrow> string \<Rightarrow> string" where
  "channel_key env i dimension = ''ch:'' @ re_uuid env i @ '':'' @ dimension"

definition vk_key :: "redis_env \<Rightarrow> uuid \<Rightarrow> string \<Rightarrow> string" where
  "vk_key env i dimension = ''vk:'' @ re_uuid env i @ '':'' @ dimension"

definition global_key :: string where "global_key = ''global:tpm''"

definition check_channel_tpm ::
  "redis_env \<Rightarrow> redis_server \<Rightarrow> uuid \<Rightarrow> u64 \<Rightarrow> u64 option \<Rightarrow> redis_server \<times> bool option" where
  "check_channel_tpm env srv i estimated tpm_limit =
     (let (srv, r) = redis_check_and_add env srv (channel_key env i ''tpm'') estimated
            (case tpm_limit of Some l \<Rightarrow> l | None \<Rightarrow> 0) False
      in (srv, map_option fst r))"

definition check_channel_rpm ::
  "redis_env \<Rightarrow> redis_server \<Rightarrow> uuid \<Rightarrow> u64 \<Rightarrow> redis_server \<times> bool option" where
  "check_channel_rpm env srv i rpm_limit =
     (let (srv, r) = redis_check_and_add env srv (channel_key env i ''rpm'') 0 rpm_limit False
      in (srv, map_option (\<lambda>(_, current). current < rpm_limit) r))"

definition record_channel :: "redis_env \<Rightarrow> redis_server \<Rightarrow> uuid \<Rightarrow> u64 \<Rightarrow> redis_server \<times> unit option" where
  "record_channel env srv i tokens =
     (case redis_check_and_add env srv (channel_key env i ''rpm'') 1 0 True of
        (srv, None) \<Rightarrow> (srv, None)
      | (srv, Some _) \<Rightarrow>
          if 0 < tokens then
            let (srv, r) = redis_check_and_add env srv (channel_key env i ''tpm'') tokens 0 True
            in (srv, map_option (\<lambda>_. ()) r)
          else (srv, Some ()))"

definition check_key_rpm :: "redis_env \<Rightarrow> redis_server \<Rightarrow> uuid \<Rightarrow> u32 \<Rightarrow> redis_server \<times> bool option" where
  "check_key_rpm env srv i rpm_limit =
     (let (srv, r) = redis_check_and_add env srv (vk_key env i ''rpm'') 0 (ucast rpm_limit) False
      in (srv, map_option (\<lambda>(_, current). current < ucast rpm_limit) r))"

definition check_key_tpm :: "redis_env \<Rightarrow> redis_server \<Rightarrow> uuid \<Rightarrow> u32 \<Rightarrow> redis_server \<times> bool option" where
  "check_key_tpm env srv i tpm_limit =
     (let (srv, r) = redis_check_and_add env srv (vk_key env i ''tpm'') 0 (ucast tpm_limit) False
      in (srv, map_option (\<lambda>(_, current). current < ucast tpm_limit) r))"

definition record_key_rpm :: "redis_env \<Rightarrow> redis_server \<Rightarrow> uuid \<Rightarrow> redis_server \<times> unit option" where
  "record_key_rpm env srv i =
     (let (srv, r) = redis_check_and_add env srv (vk_key env i ''rpm'') 1 0 True
      in (srv, map_option (\<lambda>_. ()) r))"

definition record_key_tokens :: "redis_env \<Rightarrow> redis_server \<Rightarrow> uuid \<Rightarrow> u64 \<Rightarrow> redis_server \<times> unit option" where
  "record_key_tokens env srv i tokens =
     (if tokens = 0 then (srv, Some ())
      else let (srv, r) = redis_check_and_add env srv (vk_key env i ''tpm'') tokens 0 True
           in (srv, map_option (\<lambda>_. ()) r))"

definition check_global_tpm :: "redis_env \<Rightarrow> redis_server \<Rightarrow> u64 \<Rightarrow> u64 \<Rightarrow> redis_server \<times> bool option" where
  "check_global_tpm env srv estimated global_limit =
     (let (srv, r) = redis_check_and_add env srv global_key estimated global_limit False
      in (srv, map_option fst r))"

definition record_global_tpm :: "redis_env \<Rightarrow> redis_server \<Rightarrow> u64 \<Rightarrow> redis_server \<times> unit option" where
  "record_global_tpm env srv tokens =
     (if tokens = 0 then (srv, Some ())
      else let (srv, r) = redis_check_and_add env srv global_key tokens 0 True
           in (srv, map_option (\<lambda>_. ()) r))"

section \<open>The script against the log of recorded amounts\<close>

text \<open>The calls on one key, the latest first: time, amount, limit and whether the amount is recorded.\<close>

type_synonym redis_call = "int \<times> int \<times> int \<times> bool"

fun redis_run :: "string \<Rightarrow> redis_call list \<Rightarrow> redis_server \<times> (int \<times> int) list" where
  "redis_run key [] = ([], [])"
| "redis_run key ((now, amount, limit, add_flag) # calls) =
     (let (srv, events) = redis_run key calls;
          (srv', allowed, _) = check_and_add_lua srv key now REDIS_WINDOW_MS REDIS_BUCKET_MS
             amount limit add_flag
      in (srv', if allowed \<and> add_flag \<and> 0 < amount then (now, amount) # events else events))"

definition window_amount :: "int \<Rightarrow> (int \<times> int) list \<Rightarrow> int" where
  "window_amount now events =
     sum_list (map snd (filter (\<lambda>(t, _). (now - 60000) div 10000 \<le> t div 10000) events))"

definition bucket_amount :: "int \<Rightarrow> (int \<times> int) list \<Rightarrow> int" where
  "bucket_amount b events = sum_list (map snd (filter (\<lambda>(t, _). t div 10000 = b) events))"

definition hget0 :: "redis_hash \<Rightarrow> int \<Rightarrow> int" where
  "hget0 h b = (case hm_get h b of Some n \<Rightarrow> n | None \<Rightarrow> 0)"

text \<open>At every time from \<open>now\<close> on, the live buckets that are still valid hold what the log says.\<close>

definition redis_ok :: "int \<Rightarrow> redis_server \<Rightarrow> string \<Rightarrow> (int \<times> int) list \<Rightarrow> bool" where
  "redis_ok now srv key events \<longleftrightarrow> (\<forall>later \<ge> now.
     hm_ok (redis_hgetall srv later key) \<and>
     (\<forall>b \<ge> (later - 60000) div 10000. hget0 (redis_hgetall srv later key) b = bucket_amount b events))"

lemma hgetall_put:
  "redis_hgetall (redis_put srv key h e) later key = (if later < e then h else [])"
  by (simp add: redis_put_def redis_hgetall_def)

lemma hget0_Nil [simp]: "hget0 [] b = 0"
  by (simp add: hget0_def)

lemma hget0_insert [simp]: "hget0 (hm_insert k v h) b = (if b = k then v else hget0 h b)"
  by (simp add: hget0_def)

lemma hget0_retain: "hm_ok h \<Longrightarrow> hget0 (hm_retain (\<lambda>k _. P k) h) b = (if P b then hget0 h b else 0)"
  by (simp add: hget0_def hm_get_retain split: option.splits)

lemma bucket_amount_Cons [simp]:
  "bucket_amount b ((t, n) # ev) = (if t div 10000 = b then n else 0) + bucket_amount b ev"
  by (simp add: bucket_amount_def)

lemma bucket_amount_none: "(\<And>t n. (t, n) \<in> set ev \<Longrightarrow> t div 10000 \<noteq> b) \<Longrightarrow> bucket_amount b ev = 0"
  by (induction ev) (auto simp: bucket_amount_def)

lemma hgetall_later:
  "now \<le> later \<Longrightarrow> redis_hgetall srv later key =
     (if later < redis_ttl srv key then redis_hgetall srv now key else [])"
  by (auto simp: redis_hgetall_def redis_ttl_def split: option.splits)

lemma div_bucket_mono: "(a::int) \<le> b \<Longrightarrow> a div 10000 \<le> b div 10000"
  by (rule zdiv_mono1) simp_all

lemma sum_values_hget0:
  assumes "hm_ok h" "finite B" "fst ` set h \<subseteq> B"
  shows "sum_list (hm_values h) = (\<Sum>b\<in>B. hget0 h b)"
  using assms
proof (induction h arbitrary: B)
  case Nil
  then show ?case by (simp add: hm_values_def)
next
  case (Cons x h)
  obtain k v where x: "x = (k, v)" by (cases x)
  have k: "k \<in> B" "k \<notin> fst ` set h" and ok: "hm_ok h" using Cons.prems by (auto simp: x hm_ok_def)
  have "(\<Sum>b\<in>B. hget0 (x # h) b) = hget0 (x # h) k + (\<Sum>b\<in>B - {k}. hget0 (x # h) b)"
    using Cons.prems(2) k(1) by (rule sum.remove)
  also have "\<dots> = v + (\<Sum>b\<in>B - {k}. hget0 h b)"
    by (simp add: x hget0_def)
  finally have "(\<Sum>b\<in>B. hget0 (x # h) b) = v + (\<Sum>b\<in>B - {k}. hget0 h b)" .
  moreover have "fst ` set h \<subseteq> B - {k}" using Cons.prems(3) k(2) by (auto simp: x)
  then have "(\<Sum>b\<in>B - {k}. hget0 h b) = sum_list (hm_values h)"
    using Cons.IH[OF ok, of "B - {k}"] Cons.prems(2) by simp
  ultimately show ?case by (simp add: hm_values_def x)
qed

lemma sum_bucket_amount:
  assumes "finite B" "\<And>t n. (t, n) \<in> set ev \<Longrightarrow> m \<le> t div 10000 \<Longrightarrow> t div 10000 \<in> B"
  shows "(\<Sum>b\<in>{b\<in>B. m \<le> b}. bucket_amount b ev) = sum_list (map snd (filter (\<lambda>(t, _). m \<le> t div 10000) ev))"
  using assms(2)
proof (induction ev)
  case Nil
  then show ?case by (simp add: bucket_amount_def)
next
  case (Cons x ev)
  obtain t n where x: "x = (t, n)" by (cases x)
  have "(\<Sum>b\<in>{b\<in>B. m \<le> b}. if t div 10000 = b then n else 0) = (if m \<le> t div 10000 then n else 0)"
    using Cons.prems[of t n] assms(1) by (auto simp: sum.delta' x)
  moreover have "(\<Sum>b\<in>{b\<in>B. m \<le> b}. bucket_amount b ev) =
      sum_list (map snd (filter (\<lambda>(t, _). m \<le> t div 10000) ev))"
    using Cons by auto
  ultimately show ?case by (simp add: x sum.distrib)
qed

text \<open>The sum of the valid buckets is the amount logged in the window.\<close>

lemma valid_total:
  assumes ok: "hm_ok h" and get: "\<And>b. m \<le> b \<Longrightarrow> hget0 h b = bucket_amount b ev"
  shows "sum_list (hm_values (hm_retain (\<lambda>b _. m \<le> b) h)) =
    sum_list (map snd (filter (\<lambda>(t, _). m \<le> t div 10000) ev))"
proof -
  let ?v = "hm_retain (\<lambda>b _. m \<le> b) h"
  let ?B = "fst ` set ?v \<union> (\<lambda>(t, _). t div 10000) ` set ev"
  have sub: "fst ` set ?v \<subseteq> {b \<in> ?B. m \<le> b}" by (auto simp: set_hm_retain)
  have "sum_list (hm_values ?v) = (\<Sum>b\<in>{b \<in> ?B. m \<le> b}. hget0 ?v b)"
    using ok sub by (intro sum_values_hget0) auto
  also have "\<dots> = (\<Sum>b\<in>{b \<in> ?B. m \<le> b}. bucket_amount b ev)"
    using ok get by (intro sum.cong) (auto simp: hget0_retain)
  also have "\<dots> = sum_list (map snd (filter (\<lambda>(t, _). m \<le> t div 10000) ev))"
    by (rule sum_bucket_amount) force+
  finally show ?thesis .
qed

section \<open>One call\<close>

abbreviation valid_buckets :: "redis_server \<Rightarrow> int \<Rightarrow> string \<Rightarrow> redis_hash" where
  "valid_buckets srv now key \<equiv>
     hm_retain (\<lambda>b _. (now - 60000) div 10000 \<le> b) (redis_hgetall srv now key)"

lemma valid_hget0:
  assumes "redis_ok now0 srv key ev" "now0 \<le> now" "(now - 60000) div 10000 \<le> b"
  shows "hget0 (valid_buckets srv now key) b = bucket_amount b ev"
  using assms by (simp add: redis_ok_def hget0_retain)

lemma valid_hm_ok: "redis_ok now0 srv key ev \<Longrightarrow> now0 \<le> now \<Longrightarrow> hm_ok (valid_buckets srv now key)"
  by (simp add: redis_ok_def)

text \<open>A refreshed key may expire: by then no logged bucket is valid any more.\<close>

lemma redis_ok_refresh:
  assumes "hm_ok h" "\<And>b. (now - 60000) div 10000 \<le> b \<Longrightarrow> hget0 h b = bucket_amount b ev"
    and "\<forall>(t, n) \<in> set ev. t \<le> now"
  shows "redis_ok now (redis_put srv key h (now + 70000)) key ev"
  unfolding redis_ok_def
proof (intro allI impI conjI)
  fix later b :: int
  assume later: "now \<le> later" and b: "(later - 60000) div 10000 \<le> b"
  have "(now - 60000) div 10000 \<le> b" using b div_bucket_mono[of "now - 60000" "later - 60000"] later by linarith
  moreover have "bucket_amount b ev = 0" if "now + 70000 \<le> later"
  proof (rule bucket_amount_none)
    fix t n assume "(t, n) \<in> set ev"
    then have "t div 10000 \<le> now div 10000" using assms(3) by (auto intro: div_bucket_mono)
    moreover have "now div 10000 + 1 \<le> (later - 60000) div 10000"
      using that div_bucket_mono[of "now + 10000" "later - 60000"] by simp
    ultimately show "t div 10000 \<noteq> b" using b by linarith
  qed
  ultimately show "hget0 (redis_hgetall (redis_put srv key h (now + 70000)) later key) b = bucket_amount b ev"
    using assms(2) by (auto simp: hgetall_put)
qed (use assms(1) in \<open>simp add: hgetall_put\<close>)

text \<open>A denied call only drops buckets that are no longer valid.\<close>

lemma redis_ok_denied:
  assumes "redis_ok now0 srv key ev" "now0 \<le> now"
  shows "redis_ok now (redis_put srv key (valid_buckets srv now key) (redis_ttl srv key)) key ev"
  unfolding redis_ok_def
proof (intro allI impI conjI)
  fix later b :: int
  assume later: "now \<le> later" and b: "(later - 60000) div 10000 \<le> b"
  have m: "(now - 60000) div 10000 \<le> b" using b div_bucket_mono[of "now - 60000" "later - 60000"] later by linarith
  have "hget0 (redis_hgetall srv later key) b = bucket_amount b ev"
    using assms later b by (simp add: redis_ok_def)
  with valid_hget0[OF assms m] later
  show "hget0 (redis_hgetall (redis_put srv key (valid_buckets srv now key) (redis_ttl srv key)) later key) b =
      bucket_amount b ev"
    by (simp add: hgetall_put hgetall_later[OF later, of srv key] split: if_splits)
qed (use valid_hm_ok[OF assms] in \<open>simp add: hgetall_put\<close>)

lemma lua_total:
  assumes "redis_ok now0 srv key ev" "now0 \<le> now"
  shows "sum_list (hm_values (valid_buckets srv now key)) = window_amount now ev"
  unfolding window_amount_def using assms by (intro valid_total) (auto simp: redis_ok_def)

lemma lua_step:
  assumes "redis_ok now0 srv key ev" "now0 \<le> now" "\<forall>(t, n) \<in> set ev. t \<le> now"
    and "check_and_add_lua srv key now REDIS_WINDOW_MS REDIS_BUCKET_MS amount limit add_flag = (srv', allowed, tot')"
  shows "allowed \<longleftrightarrow> limit \<le> 0 \<or> window_amount now ev + amount \<le> limit"
    and "redis_ok now srv' key (if allowed \<and> add_flag \<and> 0 < amount then (now, amount) # ev else ev)"
proof -
  let ?v = "valid_buckets srv now key" and ?c = "now div 10000"
  let ?h = "hm_insert ?c (hget0 ?v ?c + amount) ?v"
  note tot = lua_total[OF assms(1,2)] and get = valid_hget0[OF assms(1,2)] and ok = valid_hm_ok[OF assms(1,2)]
  have c: "(now - 60000) div 10000 \<le> ?c" by (rule div_bucket_mono) simp
  have add: "redis_ok now (redis_put srv key ?h (now + 70000)) key ((now, amount) # ev)"
    using ok get c assms(3) by (intro redis_ok_refresh) auto
  have keep: "redis_ok now (redis_put srv key ?v (now + 70000)) key ev"
    using ok get assms(3) by (intro redis_ok_refresh) auto
  note deny = redis_ok_denied[OF assms(1,2)]
  note body = assms(4)[unfolded check_and_add_lua_def REDIS_WINDOW_MS_def REDIS_BUCKET_MS_def Let_def
      hget0_def[symmetric] tot]
  show "allowed \<longleftrightarrow> limit \<le> 0 \<or> window_amount now ev + amount \<le> limit"
    using body by (auto split: if_splits)
  show "redis_ok now srv' key (if allowed \<and> add_flag \<and> 0 < amount then (now, amount) # ev else ev)"
    using body add keep deny by (auto split: if_splits simp: add.assoc)
qed

lemma redis_run_ok:
  assumes "sorted (rev (map fst calls))" "\<forall>(t, c) \<in> set calls. t \<le> now" "redis_run key calls = (srv, ev)"
  shows "(\<exists>now0 \<le> now. redis_ok now0 srv key ev) \<and> (\<forall>(t, n) \<in> set ev. t \<le> now)"
  using assms
proof (induction calls arbitrary: srv ev now)
  case Nil
  then show ?case by (auto simp: redis_ok_def redis_hgetall_def bucket_amount_def)
next
  case (Cons x calls)
  obtain t amount limit fl where x: "x = (t, amount, limit, fl)" by (cases x)
  obtain s0 e0 where r: "redis_run key calls = (s0, e0)" by fastforce
  have le: "\<forall>(t', c) \<in> set calls. t' \<le> t" and sorted: "sorted (rev (map fst calls))"
    using Cons.prems(1) by (auto simp: x sorted_append)
  from Cons.IH[OF sorted le r] obtain now0 where ok: "now0 \<le> t" "redis_ok now0 s0 key e0"
    and ev: "\<forall>(t', n) \<in> set e0. t' \<le> t" by blast
  obtain s1 al tt where l: "check_and_add_lua s0 key t REDIS_WINDOW_MS REDIS_BUCKET_MS amount limit fl = (s1, al, tt)"
    by (cases "check_and_add_lua s0 key t REDIS_WINDOW_MS REDIS_BUCKET_MS amount limit fl")
  have out: "srv = s1" "ev = (if al \<and> fl \<and> 0 < amount then (t, amount) # e0 else e0)"
    using Cons.prems(3) by (simp_all add: x r l)
  have "t \<le> now" using Cons.prems(2) by (simp add: x)
  have "\<forall>(t', n) \<in> set ev. t' \<le> now"
    using ev \<open>t \<le> now\<close> by (auto simp: out(2))
  with lua_step(2)[OF ok(2,1) ev l] \<open>t \<le> now\<close> show ?case unfolding out by blast
qed

text \<open>C10: the Redis counter enforces the limit on a sliding window: after any sequence of calls on a
  key, a call with a positive limit is allowed exactly when the amounts recorded by earlier calls
  in the window (the last sixty seconds, widened to whole ten-second buckets) plus the new amount
  stay within the limit; the expiry of keys and the removal of old buckets are never observable. The sums are
  those of the integers, as in the script while they stay below \<open>2\<^sup>5\<^sup>3\<close>.\<close>

theorem redis_window_exact:
  assumes "sorted (rev (map fst calls))" "\<forall>(t, c) \<in> set calls. t \<le> now"
    and "redis_run key calls = (srv, events)" "0 < limit"
  shows "fst (snd (check_and_add_lua srv key now REDIS_WINDOW_MS REDIS_BUCKET_MS amount limit add_flag)) \<longleftrightarrow>
    window_amount now events + amount \<le> limit"
proof -
  from redis_run_ok[OF assms(1-3)] obtain now0
    where ok: "now0 \<le> now" "redis_ok now0 srv key events" and ev: "\<forall>(t, n) \<in> set events. t \<le> now" by blast
  obtain s1 al tt where l: "check_and_add_lua srv key now REDIS_WINDOW_MS REDIS_BUCKET_MS amount limit add_flag = (s1, al, tt)"
    by (cases "check_and_add_lua srv key now REDIS_WINDOW_MS REDIS_BUCKET_MS amount limit add_flag")
  show ?thesis using lua_step(1)[OF ok(2,1) ev l] assms(4) by (simp add: l)
qed

lemma redis_window_exact_witness:
  "\<not> fst (snd (check_and_add_lua (fst (redis_run ''k'' [(70000, 5, 0, True), (1000, 3, 0, True)]))
        ''k'' 75000 REDIS_WINDOW_MS REDIS_BUCKET_MS 6 10 False))
   \<and> fst (snd (check_and_add_lua (fst (redis_run ''k'' [(70000, 5, 0, True), (1000, 3, 0, True)]))
        ''k'' 75000 REDIS_WINDOW_MS REDIS_BUCKET_MS 5 10 False))"
proof -
  let ?calls = "[(70000, 5, 0, True), (1000, 3, 0, True)] :: redis_call list"
  obtain srv ev where r: "redis_run ''k'' ?calls = (srv, ev)" by fastforce
  have "snd (redis_run ''k'' ?calls) = [(70000, 5), (1000, 3)]" by code_simp
  with r have "window_amount 75000 ev = 5" by (simp add: window_amount_def)
  then show ?thesis using redis_window_exact[of ?calls 75000 "''k''" srv ev 10] r by simp
qed

end
