(* ===== verification/Rate_Limiter.thy ===== *)
theory Rate_Limiter
  imports Sliding_Window Redis_Limit Float64
begin

text \<open>
  The rest of \<open>proxy/rate_limiter.rs\<close>: the token bucket, the per-channel limiter and the per-key
  limiter, each with the Redis counters of \<open>Redis_Limit\<close> in front of the in-memory windows of
  \<open>Sliding_Window\<close>. The Redis server and the connection are arguments of the operations;
  \<open>rl_redis\<close> and \<open>kl_redis\<close> say whether the backend is configured.
\<close>

section \<open>Token bucket\<close>

datatype rate_limit_algorithm = SlidingWindow | TokenBucketAlg

record token_bucket =
  tb_tokens :: f64
  tb_capacity :: f64
  tb_refill_rate :: f64
  tb_last_refill :: instant

text \<open>\<open>None\<close> is the panic of the two assertions.\<close>

definition tb_new :: "f64 \<Rightarrow> f64 \<Rightarrow> instant \<Rightarrow> token_bucket option" where
  "tb_new capacity refill_rate now =
     (if 0 < capacity \<and> 0 < refill_rate
      then Some \<lparr>tb_tokens = capacity, tb_capacity = capacity, tb_refill_rate = refill_rate,
                 tb_last_refill = now\<rparr>
      else None)"

definition as_secs_f64 :: "nat \<Rightarrow> f64" where
  "as_secs_f64 ns = f64_add (f64_of_nat (ns div 1000000000))
     (f64_div (f64_of_nat (ns mod 1000000000)) (f64_of_nat 1000000000))"

definition tb_refill :: "token_bucket \<Rightarrow> instant \<Rightarrow> token_bucket" where
  "tb_refill b now =
     (let elapsed = now - tb_last_refill b;
          added = f64_mul (as_secs_f64 elapsed) (tb_refill_rate b)
      in b\<lparr>tb_tokens := min (f64_add (tb_tokens b) added) (tb_capacity b), tb_last_refill := now\<rparr>)"

definition tb_try_consume :: "token_bucket \<Rightarrow> instant \<Rightarrow> f64 \<Rightarrow> token_bucket \<times> bool" where
  "tb_try_consume b now tokens =
     (let b = tb_refill b now; available = tb_tokens b
      in if tokens \<le> available then (b\<lparr>tb_tokens := f64_sub available tokens\<rparr>, True)
         else (b\<lparr>tb_tokens := available\<rparr>, False))"

section \<open>Per-channel limits\<close>

record channel_limits =
  cl_tpm :: "u64 option"
  cl_rpm :: u64

record per_channel_state =
  pc_tpm :: bucketed_window
  pc_rpm :: bucketed_window
  pc_limits :: channel_limits

record rate_limiter =
  rl_channels :: "(uuid, per_channel_state) hashmap"
  rl_global_tpm :: bucketed_window
  rl_global_tpm_limit :: "u64 option"
  rl_redis :: bool

definition rl_new :: "u64 option \<Rightarrow> bool \<Rightarrow> instant \<Rightarrow> rate_limiter" where
  "rl_new limit redis now =
     \<lparr>rl_channels = [], rl_global_tpm = bw_new WINDOW_MS now, rl_global_tpm_limit = limit,
      rl_redis = redis\<rparr>"

definition new_channel_state :: "instant \<Rightarrow> per_channel_state" where
  "new_channel_state now =
     \<lparr>pc_tpm = bw_new WINDOW_MS now, pc_rpm = bw_new WINDOW_MS now,
      pc_limits = \<lparr>cl_tpm = None, cl_rpm = 60\<rparr>\<rparr>"

definition get_or_create_channel ::
  "rate_limiter \<Rightarrow> instant \<Rightarrow> uuid \<Rightarrow> rate_limiter \<times> per_channel_state" where
  "get_or_create_channel l now i =
     (case hm_get (rl_channels l) i of
        Some st \<Rightarrow> (l, st)
      | None \<Rightarrow> let st = new_channel_state now
                in (l\<lparr>rl_channels := hm_insert i st (rl_channels l)\<rparr>, st))"

definition put_channel :: "rate_limiter \<Rightarrow> uuid \<Rightarrow> per_channel_state \<Rightarrow> rate_limiter" where
  "put_channel l i st = l\<lparr>rl_channels := hm_insert i st (rl_channels l)\<rparr>"

definition set_channel_tpm_limit :: "rate_limiter \<Rightarrow> instant \<Rightarrow> uuid \<Rightarrow> u64 \<Rightarrow> rate_limiter" where
  "set_channel_tpm_limit l now i limit =
     (let (l, st) = get_or_create_channel l now i
      in put_channel l i (st\<lparr>pc_limits := (pc_limits st)\<lparr>cl_tpm := Some limit\<rparr>\<rparr>))"

definition set_channel_rpm_limit :: "rate_limiter \<Rightarrow> instant \<Rightarrow> uuid \<Rightarrow> u64 \<Rightarrow> rate_limiter" where
  "set_channel_rpm_limit l now i limit =
     (let (l, st) = get_or_create_channel l now i
      in put_channel l i (st\<lparr>pc_limits := (pc_limits st)\<lparr>cl_rpm := limit\<rparr>\<rparr>))"

datatype limit_reason = GlobalTpmExceeded | ChannelRpmExceeded | ChannelTpmExceeded | LimitOk

text \<open>The in-memory part of \<open>check\<close>.\<close>

definition rl_check_memory ::
  "rate_limiter \<Rightarrow> instant \<Rightarrow> uuid \<Rightarrow> u64 \<Rightarrow> rate_limiter \<times> bool \<times> limit_reason" where
  "rl_check_memory l now i estimated =
     (if (case rl_global_tpm_limit l of
            Some g \<Rightarrow> \<not> bw_check_and_add (rl_global_tpm l) now estimated g | None \<Rightarrow> False)
      then (l, False, GlobalTpmExceeded)
      else
        let (l, st) = get_or_create_channel l now i
        in if cl_rpm (pc_limits st) \<le> bw_current_total (pc_rpm st) now
           then (l, False, ChannelRpmExceeded)
           else if (case cl_tpm (pc_limits st) of
                      Some t \<Rightarrow> t < bw_current_total (pc_tpm st) now + estimated | None \<Rightarrow> False)
           then (l, False, ChannelTpmExceeded)
           else (l, True, LimitOk))"

text \<open>The Redis part: \<open>Some\<close> verdict, or \<open>None\<close> to fall through to the in-memory part.\<close>

definition rl_check_redis ::
  "redis_env \<Rightarrow> redis_server \<Rightarrow> rate_limiter \<Rightarrow> instant \<Rightarrow> uuid \<Rightarrow> u64
     \<Rightarrow> redis_server \<times> rate_limiter \<times> (bool \<times> limit_reason) option" where
  "rl_check_redis env srv l now i estimated =
     (let (srv, g) = (case rl_global_tpm_limit l of
                        Some limit \<Rightarrow> check_global_tpm env srv estimated limit
                      | None \<Rightarrow> (srv, Some True))
      in if g = Some False then (srv, l, Some (False, GlobalTpmExceeded))
         else
           let (l, st) = get_or_create_channel l now i;
               (srv, r) = (if g = Some True then check_channel_rpm env srv i (cl_rpm (pc_limits st))
                           else (srv, None))
           in if r = Some False then (srv, l, Some (False, ChannelRpmExceeded))
              else
                let (srv, t) = (if r = Some True then
                       (case cl_tpm (pc_limits st) of
                          Some limit \<Rightarrow> check_channel_tpm env srv i estimated (Some limit)
                        | None \<Rightarrow> (srv, Some True))
                     else (srv, None))
                in if t = Some False then (srv, l, Some (False, ChannelTpmExceeded))
                   else if t = Some True then (srv, l, Some (True, LimitOk))
                   else (srv, l, None))"

definition rl_check ::
  "redis_env \<Rightarrow> redis_server \<Rightarrow> rate_limiter \<Rightarrow> instant \<Rightarrow> uuid \<Rightarrow> u64
     \<Rightarrow> redis_server \<times> rate_limiter \<times> bool \<times> limit_reason" where
  "rl_check env srv l now i estimated =
     (if rl_redis l then
        (case rl_check_redis env srv l now i estimated of
           (srv, l, Some verdict) \<Rightarrow> (srv, l, verdict)
         | (srv, l, None) \<Rightarrow> (srv, rl_check_memory l now i estimated))
      else (srv, rl_check_memory l now i estimated))"

definition rl_record ::
  "redis_env \<Rightarrow> redis_server \<Rightarrow> rate_limiter \<Rightarrow> instant \<Rightarrow> uuid \<Rightarrow> u64 \<Rightarrow> redis_server \<times> rate_limiter" where
  "rl_record env srv l now i tokens =
     (let (l, st) = get_or_create_channel l now i;
          l = put_channel l i (st\<lparr>pc_tpm := bw_add (pc_tpm st) now tokens,
                                  pc_rpm := bw_add (pc_rpm st) now 1\<rparr>);
          l = l\<lparr>rl_global_tpm := bw_add (rl_global_tpm l) now tokens\<rparr>
      in if rl_redis l then
           let (srv, _) = record_channel env srv i tokens;
               (srv, _) = record_global_tpm env srv tokens
           in (srv, l)
         else (srv, l))"

definition current_tpm :: "rate_limiter \<Rightarrow> instant \<Rightarrow> uuid \<Rightarrow> u64" where
  "current_tpm l now i =
     (case hm_get (rl_channels l) i of Some st \<Rightarrow> bw_current_total (pc_tpm st) now | None \<Rightarrow> 0)"

definition tpm_limit :: "rate_limiter \<Rightarrow> uuid \<Rightarrow> u64 option" where
  "tpm_limit l i = (case hm_get (rl_channels l) i of Some st \<Rightarrow> cl_tpm (pc_limits st) | None \<Rightarrow> None)"

section \<open>Per-key limits\<close>

type_synonym key_windows = "(uuid, bucketed_window) hashmap"

record key_rate_limiter =
  kl_rpm :: key_windows
  kl_tpm :: key_windows
  kl_redis :: bool

definition kl_get_or_create :: "key_windows \<Rightarrow> instant \<Rightarrow> uuid \<Rightarrow> key_windows \<times> bucketed_window" where
  "kl_get_or_create m now k =
     (case hm_get m k of
        Some w \<Rightarrow> (m, w)
      | None \<Rightarrow> let w = bw_new WINDOW_MS now in (hm_insert k w m, w))"

definition kl_check ::
  "redis_env \<Rightarrow> redis_server \<Rightarrow> key_rate_limiter \<Rightarrow> instant \<Rightarrow> uuid \<Rightarrow> u32
     \<Rightarrow> redis_server \<times> key_rate_limiter \<times> bool" where
  "kl_check env srv l now k rpm_limit =
     (let (srv, r) = (if kl_redis l then check_key_rpm env srv k rpm_limit else (srv, None))
      in case r of
           Some allowed \<Rightarrow> (srv, l, allowed)
         | None \<Rightarrow> let (m, w) = kl_get_or_create (kl_rpm l) now k
                   in (srv, l\<lparr>kl_rpm := m\<rparr>, bw_current_total w now < ucast rpm_limit))"

definition kl_record ::
  "redis_env \<Rightarrow> redis_server \<Rightarrow> key_rate_limiter \<Rightarrow> instant \<Rightarrow> uuid \<Rightarrow> redis_server \<times> key_rate_limiter" where
  "kl_record env srv l now k =
     (let (m, w) = kl_get_or_create (kl_rpm l) now k;
          l = l\<lparr>kl_rpm := hm_insert k (bw_add w now 1) m\<rparr>
      in if kl_redis l then let (srv, _) = record_key_rpm env srv k in (srv, l) else (srv, l))"

definition kl_check_tpm ::
  "redis_env \<Rightarrow> redis_server \<Rightarrow> key_rate_limiter \<Rightarrow> instant \<Rightarrow> uuid \<Rightarrow> u32
     \<Rightarrow> redis_server \<times> key_rate_limiter \<times> bool" where
  "kl_check_tpm env srv l now k limit =
     (let (srv, r) = (if kl_redis l then check_key_tpm env srv k limit else (srv, None))
      in case r of
           Some allowed \<Rightarrow> (srv, l, allowed)
         | None \<Rightarrow> let (m, w) = kl_get_or_create (kl_tpm l) now k
                   in (srv, l\<lparr>kl_tpm := m\<rparr>, bw_current_total w now < ucast limit))"

definition kl_record_tokens ::
  "redis_env \<Rightarrow> redis_server \<Rightarrow> key_rate_limiter \<Rightarrow> instant \<Rightarrow> uuid \<Rightarrow> u64 \<Rightarrow> redis_server \<times> key_rate_limiter" where
  "kl_record_tokens env srv l now k tokens =
     (if tokens = 0 then (srv, l)
      else
        let (m, w) = kl_get_or_create (kl_tpm l) now k;
            l = l\<lparr>kl_tpm := hm_insert k (bw_add w now tokens) m\<rparr>
        in if kl_redis l then let (srv, _) = record_key_tokens env srv k tokens in (srv, l) else (srv, l))"

definition kl_new :: "bool \<Rightarrow> key_rate_limiter" where
  "kl_new redis = \<lparr>kl_rpm = [], kl_tpm = [], kl_redis = redis\<rparr>"

text \<open>
  The requests of one key \<open>k\<close> in the virtual key filter, without Redis. Check and record are two critical
  sections, so any number of requests may have passed the check and not be recorded yet; such a request can
  also be refused by the token limit and is then never recorded. The state holds the limiter, the number of
  requests between check and record, the largest such number so far, the times of the recorded requests
  and the clock. Requests of other keys may come in between.
\<close>

type_synonym gate = "key_rate_limiter \<times> nat \<times> nat \<times> instant list \<times> instant"

inductive gate_run :: "uuid \<Rightarrow> u32 \<Rightarrow> gate \<Rightarrow> bool" for k rpm_limit where
  start: "gate_run k rpm_limit (kl_new False, 0, 0, [], now)"
| admit: "gate_run k rpm_limit (l, p, q, rec, t) \<Longrightarrow> t \<le> now \<Longrightarrow>
    kl_check env srv l now k rpm_limit = (srv', l', True) \<Longrightarrow>
    gate_run k rpm_limit (l', p + 1, max q (p + 1), rec, now)"
| refuse: "gate_run k rpm_limit (l, p, q, rec, t) \<Longrightarrow> t \<le> now \<Longrightarrow>
    kl_check env srv l now k rpm_limit = (srv', l', False) \<Longrightarrow> gate_run k rpm_limit (l', p, q, rec, now)"
| put: "gate_run k rpm_limit (l, p, q, rec, t) \<Longrightarrow> t \<le> now \<Longrightarrow> 0 < p \<Longrightarrow>
    kl_record env srv l now k = (srv', l') \<Longrightarrow> gate_run k rpm_limit (l', p - 1, q, rec @ [now], now)"
| leave: "gate_run k rpm_limit (l, p, q, rec, t) \<Longrightarrow> gate_run k rpm_limit (l, p - 1, q, rec, t)"
| other_check: "gate_run k rpm_limit (l, p, q, rec, t) \<Longrightarrow> t \<le> now \<Longrightarrow> j \<noteq> k \<Longrightarrow>
    kl_check env srv l now j lmt = (srv', l', ok) \<Longrightarrow> gate_run k rpm_limit (l', p, q, rec, now)"
| other_record: "gate_run k rpm_limit (l, p, q, rec, t) \<Longrightarrow> t \<le> now \<Longrightarrow> j \<noteq> k \<Longrightarrow>
    kl_record env srv l now j = (srv', l') \<Longrightarrow> gate_run k rpm_limit (l', p, q, rec, now)"

section \<open>Token bucket invariant\<close>

definition tb_ok :: "token_bucket \<Rightarrow> bool" where
  "tb_ok b \<longleftrightarrow> 0 \<le> tb_tokens b \<and> tb_tokens b \<le> tb_capacity b \<and> 0 < tb_refill_rate b
     \<and> is_f64 (tb_tokens b) \<and> is_f64 (tb_capacity b)"

lemma as_secs_f64_nonneg: "0 \<le> as_secs_f64 ns"
  by (simp add: as_secs_f64_def f64_add_def f64_div_def f64_of_nat_def f64_rnd_nonneg)

lemma tb_refill_ok: "tb_ok b \<Longrightarrow> tb_ok (tb_refill b now)"
  using as_secs_f64_nonneg[of "now - tb_last_refill b"]
  by (auto simp: tb_ok_def tb_refill_def Let_def f64_add_def f64_mul_def f64_rnd_nonneg is_f64_min)

lemma tb_refill_mono: "tb_ok b \<Longrightarrow> tb_tokens b \<le> tb_tokens (tb_refill b now)"
proof -
  assume ok: "tb_ok b"
  let ?a = "f64_mul (as_secs_f64 (now - tb_last_refill b)) (tb_refill_rate b)"
  have "0 \<le> ?a" using ok as_secs_f64_nonneg by (simp add: tb_ok_def f64_mul_def f64_rnd_nonneg)
  then have "f64_rnd (tb_tokens b) \<le> f64_rnd (tb_tokens b + ?a)"
    using ok by (intro f64_rnd_mono) (auto simp: tb_ok_def)
  with ok show ?thesis by (simp add: tb_ok_def tb_refill_def Let_def f64_add_def is_f64_def)
qed

lemma tb_consume_ok:
  assumes "tb_ok b" "0 \<le> n"
  shows "tb_ok (fst (tb_try_consume b now n))"
proof -
  let ?b = "tb_refill b now"
  have ok: "tb_ok ?b" using assms(1) by (rule tb_refill_ok)
  have "f64_rnd (tb_tokens ?b - n) \<le> f64_rnd (tb_tokens ?b)" if "n \<le> tb_tokens ?b"
    using that assms(2) by (intro f64_rnd_mono) auto
  with ok show ?thesis
    by (auto simp: tb_try_consume_def Let_def tb_ok_def f64_sub_def is_f64_def f64_rnd_nonneg)
      (use is_f64_rnd is_f64_def in auto)
qed

section \<open>Redis failures\<close>

lemma bw_new_total [simp]: "bw_current_total (bw_new n t0) now = 0"
proof -
  have "sum_list (map snd (filter P (replicate k (0, 0 :: u64)))) = 0" for P and k
    by (induction k) auto
  then show ?thesis by (simp add: bw_current_total_def bw_total_ms_def bw_new_def Let_def)
qed

lemma redis_reply: "redis_check_and_add env srv key a lmt fl = (s1, Some r) \<Longrightarrow> re_link env key = Reply"
  by (auto simp: redis_check_and_add_def Let_def split: redis_link.splits prod.splits)

lemma get_or_create_idem:
  "get_or_create_channel l now i = (l', st) \<Longrightarrow> get_or_create_channel l' now i = (l', st)"
  by (auto simp: get_or_create_channel_def Let_def split: option.splits)

lemma get_or_create_frame:
  assumes "get_or_create_channel l now i = (l', st)"
  shows "rl_global_tpm_limit l' = rl_global_tpm_limit l" "rl_global_tpm l' = rl_global_tpm l"
    "rl_redis l' = rl_redis l"
  using assms by (auto simp: get_or_create_channel_def Let_def split: option.splits)

text \<open>Creating the channel entry first does not change the in-memory verdict.\<close>

lemma check_memory_created:
  assumes "get_or_create_channel l now i = (l', st)"
  shows "snd (rl_check_memory l' now i e) = snd (rl_check_memory l now i e)"
  unfolding rl_check_memory_def get_or_create_frame[OF assms] get_or_create_idem[OF assms] assms
  by simp

definition redis_answers :: "redis_env \<Rightarrow> rate_limiter \<Rightarrow> instant \<Rightarrow> uuid \<Rightarrow> bool" where
  "redis_answers env l now i \<longleftrightarrow>
     (rl_global_tpm_limit l = None \<or> re_link env global_key = Reply)
     \<and> re_link env (channel_key env i ''rpm'') = Reply
     \<and> (tpm_limit l i = None \<or> re_link env (channel_key env i ''tpm'') = Reply)"

lemma check_replies:
  "check_global_tpm env srv e g = (s1, Some b) \<Longrightarrow> re_link env global_key = Reply"
  "check_channel_rpm env srv i lmt = (s1, Some b) \<Longrightarrow> re_link env (channel_key env i ''rpm'') = Reply"
  "check_channel_tpm env srv i e tlm = (s1, Some b) \<Longrightarrow> re_link env (channel_key env i ''tpm'') = Reply"
  by (auto simp: check_global_tpm_def check_channel_rpm_def check_channel_tpm_def
      split: prod.splits dest: redis_reply)

lemma tpm_limit_created:
  "get_or_create_channel l now i = (l', st) \<Longrightarrow> cl_tpm (pc_limits st) = tpm_limit l i"
  by (auto simp: get_or_create_channel_def tpm_limit_def new_channel_state_def Let_def split: option.splits)

lemma check_redis_admits:
  assumes "rl_check_redis env srv l now i e = (srv', l', Some (True, r))"
  shows "redis_answers env l now i"
proof -
  obtain s1 g where g: "(case rl_global_tpm_limit l of Some limit \<Rightarrow> check_global_tpm env srv e limit
      | None \<Rightarrow> (srv, Some True)) = (s1, g)" by fastforce
  obtain l1 st where c: "get_or_create_channel l now i = (l1, st)" by fastforce
  obtain s2 rp where rp: "check_channel_rpm env s1 i (cl_rpm (pc_limits st)) = (s2, rp)" by fastforce
  obtain s3 t where t: "(case cl_tpm (pc_limits st) of
      Some limit \<Rightarrow> check_channel_tpm env s2 i e (Some limit) | None \<Rightarrow> (s2, Some True)) = (s3, t)" by fastforce
  from assms have all: "g = Some True" "rp = Some True" "t = Some True"
    by (auto simp: rl_check_redis_def Let_def g c rp t split: if_splits)
  show ?thesis
    using g c rp t all tpm_limit_created[OF c] unfolding redis_answers_def
    by (auto split: option.splits dest: check_replies)
qed

lemma check_redis_undecided:
  assumes "rl_check_redis env srv l now i e = (srv', l', None)"
  shows "\<exists>st. get_or_create_channel l now i = (l', st)"
  using assms by (auto simp: rl_check_redis_def Let_def split: prod.splits if_splits)

section \<open>Admitted requests of a key\<close>

definition epoch_log :: "instant \<Rightarrow> instant list \<Rightarrow> window_log" where
  "epoch_log e ts = map (\<lambda>t. ((t - e) div 1000000, 1)) ts"

lemma bw_epoch_run [simp]: "bw_epoch (bw_run e es) = e"
proof (induction es rule: rev_induct)
  case (snoc x es)
  then show ?case by (cases x) (simp add: bw_run_def bw_add_ms_def Let_def split: prod.splits)
qed (simp add: bw_run_def bw_new_def Let_def)

lemma bw_add_run:
  "bw_add (bw_run e (epoch_log e ts)) now 1 = bw_run e (epoch_log e (ts @ [now]))"
  by (simp add: bw_add_def bw_now_ms_def epoch_log_def) (simp add: bw_run_def)

lemma log_sum_epoch: "log_sum P (epoch_log e ts) = length (filter (\<lambda>t. P ((t - e) div 1000000)) ts)"
  by (induction ts) (simp_all add: log_sum_def epoch_log_def)

definition recent :: "instant \<Rightarrow> instant list \<Rightarrow> instant list" where
  "recent T ts = filter (\<lambda>t. t \<le> T \<and> T < t + 58000000000) ts"

definition window_inv :: "uuid \<Rightarrow> key_rate_limiter \<Rightarrow> instant list \<Rightarrow> instant \<Rightarrow> bool" where
  "window_inv k l adm now \<longleftrightarrow> \<not> kl_redis l \<and> sorted adm \<and> (\<forall>t \<in> set adm. t \<le> now)
     \<and> (case hm_get (kl_rpm l) k of None \<Rightarrow> adm = []
          | Some w \<Rightarrow> \<exists>e \<le> now. w = bw_run e (epoch_log e adm) \<and> (\<forall>t \<in> set adm. e \<le> t))"

definition count_inv :: "u32 \<Rightarrow> nat \<Rightarrow> nat \<Rightarrow> instant list \<Rightarrow> instant \<Rightarrow> bool" where
  "count_inv lmt p q adm now \<longleftrightarrow> length (recent now adm) + p \<le> unat lmt + (q - 1)
     \<and> (\<forall>T. length (recent T adm) \<le> unat lmt + (q - 1))"

definition gate_inv :: "uuid \<Rightarrow> u32 \<Rightarrow> gate \<Rightarrow> bool" where
  "gate_inv k lmt st \<longleftrightarrow> (case st of (l, p, q, adm, now) \<Rightarrow> window_inv k l adm now \<and> count_inv lmt p q adm now)"

lemma sorted_epoch_log: "sorted ts \<Longrightarrow> sorted (map fst (epoch_log e ts))"
  by (auto simp: epoch_log_def sorted_map comp_def sorted_wrt_map
      intro!: sorted_wrt_mono_rel[of ts "(\<le>)"] div_le_mono diff_le_mono)

text \<open>The window's total bounds the number of admitted requests of the last 58 seconds.\<close>

lemma recent_le_total:
  assumes "sorted adm" "\<forall>t \<in> set adm. t \<le> now" "\<forall>t \<in> set adm. e \<le> t" "length adm < 2 ^ 64"
  shows "length (recent now adm) \<le> unat (bw_current_total (bw_run e (epoch_log e adm)) now)"
proof -
  let ?es = "epoch_log e adm" and ?n = "(now - e) div 1000000"
  have ts: "\<forall>(t, c) \<in> set ?es. t \<le> ?n"
    using assms(2) by (auto simp: epoch_log_def intro!: div_le_mono diff_le_mono)
  have "length (recent now adm) \<le> length (filter (\<lambda>t. ?n < (t - e) div 1000000 + 59000) adm)"
  proof -
    have "?n < (t - e) div 1000000 + 59000" if "t \<in> set adm" "now < t + 58000000000" for t
    proof -
      have "e \<le> t" using that(1) assms(3) by blast
      then have "now - e < (t - e) + 58000000000" using that(2) by linarith
      then have "?n \<le> ((t - e) + 58000000000) div 1000000" by (intro div_le_mono) simp
      then show ?thesis by simp
    qed
    then show ?thesis unfolding recent_def
      by (induction adm) (auto simp: le_Suc_eq)
  qed
  also have "\<dots> \<le> unat (bw_total_ms (bw_run e ?es) ?n)"
    using window_sandwich(1)[OF sorted_epoch_log[OF assms(1)] ts] assms(4)
    by (simp add: log_sum_epoch)
  finally show ?thesis by (simp add: bw_current_total_def bw_now_ms_def)
qed

lemma recent_later:
  assumes "\<forall>t' \<in> set adm. t' \<le> t" "t \<le> T"
  shows "length (recent T adm) \<le> length (recent t adm)"
  using assms unfolding recent_def by (induction adm) auto

lemma recent_snoc_le:
  assumes "\<forall>t \<in> set adm. t \<le> now" "length (recent now adm) < n" "\<forall>T. length (recent T adm) \<le> n"
  shows "length (recent T (adm @ [now])) \<le> n"
proof (cases "now \<le> T")
  case True
  have "length (recent T adm) \<le> length (recent now adm)" using recent_later[OF assms(1) True] .
  with assms(2) show ?thesis by (simp add: recent_def)
next
  case False
  then show ?thesis using assms(3) by (simp add: recent_def)
qed

lemma window_inv_later: "window_inv k l adm t \<Longrightarrow> t \<le> now \<Longrightarrow> window_inv k l adm now"
  by (cases "hm_get (kl_rpm l) k") (auto simp: window_inv_def intro: order_trans)

lemma count_inv_later:
  "count_inv lmt p q adm t \<Longrightarrow> t \<le> now \<Longrightarrow> \<forall>t' \<in> set adm. t' \<le> t \<Longrightarrow> count_inv lmt p q adm now"
  using recent_later[of adm t now] by (auto simp: count_inv_def)

text \<open>The window found or created for the key holds exactly the recorded requests.\<close>

lemma window_found:
  assumes "window_inv k l adm now" "kl_get_or_create (kl_rpm l) now k = (m, w)"
  obtains e where "w = bw_run e (epoch_log e adm)" "e \<le> now" "\<forall>t \<in> set adm. e \<le> t" "hm_get m k = Some w"
proof (cases "hm_get (kl_rpm l) k")
  case None
  then have "adm = []" "w = bw_new WINDOW_MS now" "hm_get m k = Some w"
    using assms by (auto simp: window_inv_def kl_get_or_create_def Let_def)
  then show ?thesis using that[of now] by (simp add: bw_run_def epoch_log_def)
next
  case (Some w')
  then have "w' = w" "m = kl_rpm l" using assms(2) by (simp_all add: kl_get_or_create_def)
  with Some assms(1) show ?thesis using that by (force simp: window_inv_def)
qed

lemma window_inv_check:
  assumes "window_inv k l adm now" "kl_check env srv l now k lmt = (srv', l', ok)" "length adm < 2 ^ 64"
  shows "window_inv k l' adm now" "ok \<Longrightarrow> length (recent now adm) < unat lmt"
proof -
  obtain m w where c: "kl_get_or_create (kl_rpm l) now k = (m, w)" by fastforce
  obtain e where e: "w = bw_run e (epoch_log e adm)" "e \<le> now" "\<forall>t \<in> set adm. e \<le> t" "hm_get m k = Some w"
    using window_found[OF assms(1) c] .
  have inv: "\<not> kl_redis l" "sorted adm" "\<forall>t \<in> set adm. t \<le> now" using assms(1) by (simp_all add: window_inv_def)
  have l': "l' = l\<lparr>kl_rpm := m\<rparr>" "ok \<longleftrightarrow> bw_current_total w now < ucast lmt"
    using assms(2) c inv(1) by (auto simp: kl_check_def)
  show "window_inv k l' adm now" using inv e by (auto simp: l'(1) window_inv_def)
  assume ok
  then have "unat (bw_current_total w now) < unat lmt"
    using l'(2) by (simp add: word_less_nat_alt unat_ucast_small less_trans[OF unsigned_less])
  then show "length (recent now adm) < unat lmt"
    using recent_le_total[OF inv(2,3) e(3) assms(3)] e(1) by simp
qed

lemma window_inv_record:
  assumes "window_inv k l adm now" "kl_record env srv l now k = (srv', l')"
  shows "window_inv k l' (adm @ [now]) now"
proof -
  obtain m w where c: "kl_get_or_create (kl_rpm l) now k = (m, w)" by fastforce
  obtain e where e: "w = bw_run e (epoch_log e adm)" "e \<le> now" "\<forall>t \<in> set adm. e \<le> t"
    using window_found[OF assms(1) c] by metis
  have inv: "\<not> kl_redis l" "sorted (adm @ [now])" "\<forall>t \<in> set adm. t \<le> now"
    using assms(1) by (simp_all add: window_inv_def sorted_append)
  then show ?thesis
    using assms(2) c e bw_add_run[of e adm now] by (auto simp: kl_record_def window_inv_def)
qed

lemma window_inv_other:
  assumes "window_inv k l adm now" "j \<noteq> k"
  shows "kl_check env srv l now j lmt = (srv', l', ok) \<Longrightarrow> window_inv k l' adm now"
    "kl_record env srv l now j = (srv', l') \<Longrightarrow> window_inv k l' adm now"
  using assms
  by (auto simp: kl_check_def kl_record_def window_inv_def kl_get_or_create_def Let_def split: prod.splits option.splits)

lemma gate_run_inv: "gate_run k lmt (l, p, q, adm, now) \<Longrightarrow> length adm < 2 ^ 64 \<Longrightarrow> gate_inv k lmt (l, p, q, adm, now)"
proof (induction "(l, p, q, adm, now)" arbitrary: l p q adm now rule: gate_run.induct)
  case (start now)
  then show ?case by (simp add: gate_inv_def window_inv_def count_inv_def kl_new_def recent_def)
next
  case (admit l p q adm t now env srv srv' l')
  then have i: "window_inv k l adm now" "count_inv lmt p q adm t"
    by (auto simp: gate_inv_def intro: window_inv_later)
  note c = window_inv_check[OF i(1) admit(4,5)]
  have "unat lmt + (q - 1) \<le> unat lmt + (max q (p + 1) - 1)" by simp
  with i(2) have "\<forall>T. length (recent T adm) \<le> unat lmt + (max q (p + 1) - 1)"
    unfolding count_inv_def by (meson order_trans)
  moreover have "length (recent now adm) + (p + 1) \<le> unat lmt + (max q (p + 1) - 1)" using c(2) by simp
  ultimately show ?case using c(1) by (simp add: gate_inv_def count_inv_def)
next
  case (refuse l p q adm t now env srv srv' l')
  then show ?case
    using window_inv_check(1)[OF window_inv_later[of k l adm t now] refuse(4,5)]
    by (auto simp: gate_inv_def window_inv_def intro: count_inv_later)
next
  case (put l p q adm t now env srv srv' l')
  then have w: "window_inv k l adm t" "count_inv lmt p q adm t" by (simp_all add: gate_inv_def)
  then have i: "window_inv k l adm now" "count_inv lmt p q adm now" "\<forall>t' \<in> set adm. t' \<le> now"
    using put(3) window_inv_later[OF w(1) put(3)] count_inv_later[OF w(2) put(3)] by (auto simp: window_inv_def)
  have less: "length (recent now adm) < unat lmt + (q - 1)" using i(2) put(4) by (simp add: count_inv_def)
  have "length (recent now (adm @ [now])) + (p - 1) \<le> unat lmt + (q - 1)"
    using i(2) put(4) by (simp add: count_inv_def recent_def)
  then have "count_inv lmt (p - 1) q (adm @ [now]) now"
    using recent_snoc_le[OF i(3) less] i(2) by (simp add: count_inv_def)
  then show ?case using window_inv_record[OF i(1) put(5)] by (simp add: gate_inv_def)
next
  case (leave l p q adm t)
  then show ?case by (auto simp: gate_inv_def count_inv_def)
next
  case (other_check l p q adm t now j env srv lmt' srv' l' ok)
  then show ?case
    using window_inv_other(1)[OF window_inv_later[of k l adm t now] other_check(4,5)]
    by (auto simp: gate_inv_def window_inv_def intro: count_inv_later)
next
  case (other_record l p q adm t now j env srv srv' l')
  then show ?case
    using window_inv_other(2)[OF window_inv_later[of k l adm t now] other_record(4,5)]
    by (auto simp: gate_inv_def window_inv_def intro: count_inv_later)
qed

text \<open>The token bucket stays between zero and its capacity under double-precision arithmetic;
  a request for \<open>n\<close> tokens is granted exactly when the refilled bucket holds them, and a refused
  request keeps the refilled tokens, which never fall below those before the call.\<close>

theorem token_bucket_correct:
  assumes "tb_ok b" "0 \<le> n"
  shows "tb_ok (fst (tb_try_consume b now n))
    \<and> (snd (tb_try_consume b now n) \<longleftrightarrow> n \<le> tb_tokens (tb_refill b now))
    \<and> (\<not> snd (tb_try_consume b now n) \<longrightarrow> tb_tokens b \<le> tb_tokens (fst (tb_try_consume b now n)))"
  using tb_consume_ok[OF assms] tb_refill_mono[OF assms(1), of now]
  by (simp add: tb_try_consume_def Let_def)

lemma token_bucket_correct_witness:
  "\<exists>b. tb_new 10 2 0 = Some b \<and> snd (tb_try_consume b 0 10) \<and> tb_ok (fst (tb_try_consume b 0 10))"
proof -
  obtain b where b: "tb_new 10 2 0 = Some b" by (simp add: tb_new_def)
  have "is_f64 10" using f64_rnd_of_int[of 10] by (simp add: is_f64_def)
  with b have ok: "tb_ok b" "tb_tokens b = 10" by (auto simp: tb_new_def tb_ok_def)
  have "10 \<le> tb_tokens (tb_refill b 0)" using tb_refill_mono[OF ok(1)] ok(2) by metis
  with token_bucket_correct[OF ok(1), of 10 0] b show ?thesis by auto
qed

text \<open>C11: a Redis outage never opens the gate: a request the channel limiter admits was either
  admitted by the in-memory counters, or every Redis check its limits call for was answered; when a
  call goes unanswered without an earlier denial, the in-memory verdict decides.\<close>

theorem rate_check_never_fails_open:
  assumes "fst (snd (snd (rl_check env srv l now i estimated)))"
  shows "fst (snd (rl_check_memory l now i estimated)) \<or> (rl_redis l \<and> redis_answers env l now i)"
proof (cases "rl_redis l")
  case True
  obtain s1 l1 v where r: "rl_check_redis env srv l now i estimated = (s1, l1, v)"
    by (cases "rl_check_redis env srv l now i estimated")
  show ?thesis
  proof (cases v)
    case None
    with check_redis_undecided[of env srv l now i estimated s1 l1] r obtain st
      where "get_or_create_channel l now i = (l1, st)" by auto
    from check_memory_created[OF this, of estimated] assms True r None show ?thesis
      by (simp add: rl_check_def)
  next
    case (Some w)
    obtain b rsn where w: "w = (b, rsn)" by (cases w)
    from assms True r Some w have "b" by (simp add: rl_check_def)
    with check_redis_admits[of env srv l now i estimated s1 l1 rsn] r Some w True show ?thesis by simp
  qed
qed (use assms in \<open>simp add: rl_check_def\<close>)

lemma rate_check_never_fails_open_witness:
  "fst (snd (rl_check_memory (rl_new None True 0) 5 7 100))"
proof -
  let ?env = "\<lparr>re_prefix = ''p'', re_link = (\<lambda>_. Unreachable), re_uuid = (\<lambda>_. ''u''), re_now = 0\<rparr>"
  have "fst (snd (snd (rl_check ?env [] (rl_new None True 0) 5 7 100)))"
    by (simp add: rl_check_def rl_check_redis_def rl_new_def get_or_create_channel_def
        new_channel_state_def check_channel_rpm_def redis_check_and_add_def rl_check_memory_def
        Let_def split: prod.splits)
  from rate_check_never_fails_open[OF this] show ?thesis by (simp add: redis_answers_def)
qed

text \<open>The two backends disagree on a limit of zero tokens per minute: the in-memory counters
  refuse every request that needs a token, the Redis script reads zero as \<open>no limit\<close> and admits
  it.\<close>

theorem zero_tpm_limit_diverges:
  "let l = \<lambda>redis. set_channel_tpm_limit (rl_new None redis 0) 0 7 0;
       env = \<lparr>re_prefix = ''p'', re_link = (\<lambda>_. Reply), re_uuid = (\<lambda>_. ''u''), re_now = 0\<rparr>
   in snd (snd (rl_check env [] (l False) 0 7 100)) = (False, ChannelTpmExceeded)
      \<and> snd (snd (rl_check env [] (l True) 0 7 100)) = (True, LimitOk)"
  by (simp add: set_channel_tpm_limit_def put_channel_def rl_check_def rl_check_redis_def rl_new_def
      get_or_create_channel_def new_channel_state_def check_channel_rpm_def check_channel_tpm_def
      redis_check_and_add_def check_and_add_lua_def redis_hgetall_def redis_put_def hm_retain_def
      hm_values_def rl_check_memory_def Let_def)

text \<open>C9: without Redis, the requests-per-minute limit of a virtual key holds on every interval of 58 seconds up
  to the requests that are checked at the same time: when at most \<open>c\<close> requests of the key have ever been between
  their check and their record at once, at most \<open>rpm_limit + c - 1\<close> recorded requests fall into the 58 seconds
  before any time \<open>T\<close>; requests that come one after the other never exceed the limit itself. Hypothesis: fewer than
  2^64 requests have been recorded.\<close>

theorem key_rpm_limit_enforced:
  assumes "gate_run k rpm_limit (l, p, c, recorded, now)" "length recorded < 2 ^ 64"
  shows "length (recent T recorded) \<le> unat rpm_limit + (c - 1)"
  using gate_run_inv[OF assms] by (simp add: gate_inv_def count_inv_def)

text \<open>Two requests that are both checked before either is recorded pass a limit of one.\<close>

lemma two_at_once:
  "\<exists>l. gate_run 9 1 (l, 0, 2, [1, 1], 1)"
proof -
  let ?e = "\<lparr>re_prefix = ''p'', re_link = (\<lambda>_. Unreachable), re_uuid = (\<lambda>_. ''u''), re_now = 0\<rparr>"
  obtain s1 l1 ok1 where 1: "kl_check ?e [] (kl_new False) 1 9 1 = (s1, l1, ok1)" by (metis prod_cases3)
  obtain s2 l2 ok2 where 2: "kl_check ?e [] l1 1 9 1 = (s2, l2, ok2)" by (metis prod_cases3)
  have "ok1" "ok2" using 1 2
    by (auto simp: kl_check_def kl_new_def kl_get_or_create_def bw_current_total_def bw_total_ms_def bw_new_def
        WINDOW_MS_def filter_replicate sum_list_replicate Let_def split: if_splits)
  then have c: "kl_check ?e [] (kl_new False) 1 9 1 = (s1, l1, True)" "kl_check ?e [] l1 1 9 1 = (s2, l2, True)"
    using 1 2 by simp_all
  have "gate_run 9 1 (l1, 0 + 1, max 0 (0 + 1), [], 1)" by (rule gate_run.admit[OF gate_run.start order_refl c(1)])
  then have "gate_run 9 1 (l2, 0 + 1 + 1, max (max 0 (0 + 1)) (0 + 1 + 1), [], 1)"
    by (rule gate_run.admit[OF _ order_refl c(2)])
  then have run: "gate_run 9 1 (l2, 2, 2, [], 1)" by (simp add: numeral_2_eq_2)
  obtain s3 l3 where 3: "kl_record ?e [] l2 1 9 = (s3, l3)" by fastforce
  obtain s4 l4 where 4: "kl_record ?e [] l3 1 9 = (s4, l4)" by fastforce
  have "gate_run 9 1 (l3, 2 - 1, 2, [] @ [1], 1)" by (rule gate_run.put[OF run order_refl _ 3]) simp
  then have "gate_run 9 1 (l4, 2 - 1 - 1, 2, ([] @ [1]) @ [1], 1)" by (rule gate_run.put[OF _ order_refl _ 4]) simp
  then show ?thesis by auto
qed

lemma key_rpm_limit_enforced_witness: "length (recent 1 [1, 1]) \<le> unat (1 :: u32) + (2 - 1)"
proof -
  obtain l where "gate_run 9 1 (l, 0, 2, [1, 1], 1)" using two_at_once ..
  from key_rpm_limit_enforced[OF this, of 1] show ?thesis by simp
qed

end
