(* ===== verification/Strategy.thy ===== *)
theory Strategy
  imports Channel Trackers Rate_Limiter
begin

text \<open>
  The routing strategies (\<open>router/strategy.rs\<close>, \<open>router/weighted.rs\<close>). A strategy makes at most one
  random draw per selection; the generator is the argument \<open>draw\<close>, an arbitrary number that
  \<open>random_range\<close> maps into the requested range, so a statement for all draws covers every outcome.
\<close>

datatype routing_strategy_type = WeightedRandom | Latency | LeastBusy | Usage | LowestCost

fun strategy_name :: "routing_strategy_type \<Rightarrow> string" where
  "strategy_name WeightedRandom = ''weighted_random''"
| "strategy_name Latency = ''latency''"
| "strategy_name LeastBusy = ''least_busy''"
| "strategy_name Usage = ''usage''"
| "strategy_name LowestCost = ''lowest_cost''"

definition random_range :: "nat \<Rightarrow> nat \<Rightarrow> nat" where
  "random_range draw n = draw mod n"

fun pick_by_roll :: "nat \<Rightarrow> channel list \<Rightarrow> channel option" where
  "pick_by_roll roll [] = None"
| "pick_by_roll roll (ch # rest) =
     (if roll \<le> unat (ch_weight ch) then Some ch else pick_by_roll (roll - unat (ch_weight ch)) rest)"

definition total_weight :: "channel list \<Rightarrow> nat" where
  "total_weight cs = sum_list (map (\<lambda>c. unat (ch_weight c)) cs)"

definition weighted_random :: "nat \<Rightarrow> channel list \<Rightarrow> channel option" where
  "weighted_random draw candidates =
     (if candidates = [] then None
      else if total_weight candidates = 0
      then Some (candidates ! random_range draw (length candidates))
      else (case pick_by_roll (1 + random_range draw (total_weight candidates)) candidates of
              Some ch \<Rightarrow> Some ch
            | None \<Rightarrow> Some (last candidates)))"

text \<open>Sort by score and pick one of the best \<open>k\<close>.\<close>

definition pick_top :: "nat \<Rightarrow> nat \<Rightarrow> ('a \<Rightarrow> 'b::linorder) \<Rightarrow> 'a list \<Rightarrow> 'a" where
  "pick_top draw k score xs =
     (let top = take (min k (length xs)) (sort_key score xs) in top ! random_range draw (length top))"

definition latency_select :: "latency_tracker \<Rightarrow> nat \<Rightarrow> channel list \<Rightarrow> channel option" where
  "latency_select lt draw candidates =
     (if candidates = [] then None
      else
        let per_token = List.map_filter (\<lambda>c. map_option (\<lambda>s. (c, s)) (avg_latency_per_token lt (ch_id c))) candidates;
            raw = List.map_filter (\<lambda>c.
                     if avg_latency_per_token lt (ch_id c) = None \<and> 0 < avg_latency lt (ch_id c)
                     then Some (c, avg_latency lt (ch_id c)) else None) candidates
        in if per_token \<noteq> [] then Some (fst (pick_top draw 2 snd per_token))
           else if raw \<noteq> [] then Some (fst (pick_top draw 2 snd raw))
           else weighted_random draw candidates)"

fun least_busy_scan :: "active_requests \<Rightarrow> u32 \<Rightarrow> channel list \<Rightarrow> channel list \<Rightarrow> channel list" where
  "least_busy_scan snapshot min_count least_busy [] = least_busy"
| "least_busy_scan snapshot min_count least_busy (c # rest) =
     (let count = ar_get snapshot (ch_id c)
      in if count < min_count then least_busy_scan snapshot count [c] rest
         else if count = min_count then least_busy_scan snapshot min_count (least_busy @ [c]) rest
         else least_busy_scan snapshot min_count least_busy rest)"

definition least_busy_select :: "active_requests \<Rightarrow> nat \<Rightarrow> channel list \<Rightarrow> channel option" where
  "least_busy_select snapshot draw candidates =
     (if candidates = [] then None
      else
        let least_busy = least_busy_scan snapshot u32_max [] candidates
        in if length least_busy = length candidates then weighted_random draw candidates
           else Some (least_busy ! random_range draw (length least_busy)))"

definition F64_MAX :: f64 where "F64_MAX = (2 ^ 53 - 1) * 2 ^ 971"

definition channel_cost_score :: "channel \<Rightarrow> f64" where
  "channel_cost_score c =
     (if ch_input_cost_per_mtok c \<noteq> None \<or> ch_output_cost_per_mtok c \<noteq> None
      then f64_add (case ch_input_cost_per_mtok c of Some r \<Rightarrow> r | None \<Rightarrow> 0)
                   (case ch_output_cost_per_mtok c of Some r \<Rightarrow> r | None \<Rightarrow> 0)
      else (case ch_cost_per_token c of Some r \<Rightarrow> r | None \<Rightarrow> F64_MAX))"

definition lowest_cost_select :: "nat \<Rightarrow> channel list \<Rightarrow> channel option" where
  "lowest_cost_select draw candidates =
     (if candidates = [] then None else Some (pick_top draw 2 channel_cost_score candidates))"

definition usage_ratio :: "rate_limiter \<Rightarrow> instant \<Rightarrow> channel \<Rightarrow> f64" where
  "usage_ratio l now c =
     (case tpm_limit l (ch_id c) of
        Some limit \<Rightarrow>
          if 0 < limit then f64_div (f64_of_u64 (current_tpm l now (ch_id c))) (f64_of_u64 limit) else 0
      | None \<Rightarrow> 0)"

definition usage_select :: "rate_limiter \<Rightarrow> instant \<Rightarrow> nat \<Rightarrow> channel list \<Rightarrow> channel option" where
  "usage_select l now draw candidates =
     (if candidates = [] then None else Some (pick_top draw 2 (usage_ratio l now) candidates))"

section \<open>The interface of a strategy\<close>

locale routing_strategy =
  fixes select :: "channel list \<Rightarrow> channel option"
  assumes select_mem: "select cs = Some c \<Longrightarrow> c \<in> set cs"
    and select_total: "cs \<noteq> [] \<Longrightarrow> select cs \<noteq> None"
begin

lemma select_nonempty: "cs \<noteq> [] \<Longrightarrow> \<exists>c \<in> set cs. select cs = Some c"
  using select_mem select_total by fastforce

lemma select_none_iff: "select cs = None \<longleftrightarrow> cs = []"
  using select_total select_mem by (metis empty_iff empty_set not_Some_eq)

end

section \<open>Lemmas on the selections\<close>

lemma random_range_less: "0 < n \<Longrightarrow> random_range draw n < n"
  by (simp add: random_range_def)

lemma pick_by_roll_mem: "pick_by_roll roll cs = Some c \<Longrightarrow> c \<in> set cs"
  by (induction roll cs rule: pick_by_roll.induct) (auto split: if_splits)

lemma pick_by_roll_total: "roll \<le> total_weight cs \<Longrightarrow> cs \<noteq> [] \<Longrightarrow> pick_by_roll roll cs \<noteq> None"
proof (induction roll cs rule: pick_by_roll.induct)
  case (2 roll ch rest)
  then show ?case by (cases rest) (auto simp: total_weight_def)
qed simp

lemma weighted_random_mem: "weighted_random draw cs = Some c \<Longrightarrow> c \<in> set cs"
  by (auto simp: weighted_random_def random_range_less split: if_splits option.splits
      dest: pick_by_roll_mem)

lemma weighted_random_total: "cs \<noteq> [] \<Longrightarrow> weighted_random draw cs \<noteq> None"
  by (simp add: weighted_random_def split: option.splits)

lemma pick_top_nth:
  assumes "xs \<noteq> []" "0 < k"
  shows "\<exists>i < min k (length xs). pick_top draw k score xs = sort_key score xs ! i"
proof -
  let ?n = "min k (length xs)"
  have n: "0 < ?n" using assms by simp
  then have "random_range draw ?n < ?n" by (rule random_range_less)
  then show ?thesis by (auto simp: pick_top_def Let_def intro!: exI[of _ "random_range draw ?n"])
qed

lemma pick_top_mem: "xs \<noteq> [] \<Longrightarrow> 0 < k \<Longrightarrow> pick_top draw k score xs \<in> set xs"
  using pick_top_nth[of xs k draw score] by (metis length_sort min_less_iff_conj nth_mem set_sort)

lemma pick_top_rank:
  assumes "xs \<noteq> []" "0 < k"
  shows "length (filter (\<lambda>y. score y < score (pick_top draw k score xs)) xs) < k"
proof -
  obtain i where i: "i < min k (length xs)" "pick_top draw k score xs = sort_key score xs ! i"
    using pick_top_nth[OF assms] by blast
  then show ?thesis using take_sort_key_rank[of i k xs score] by simp
qed

lemma map_filter_mem: "x \<in> set (List.map_filter f xs) \<longleftrightarrow> (\<exists>y \<in> set xs. f y = Some x)"
  by (induction xs) (auto simp: List.map_filter_simps split: option.splits)

lemma latency_select_mem:
  assumes "latency_select lt draw cs = Some c"
  shows "c \<in> set cs"
proof -
  have top: "fst (pick_top draw 2 snd xs) \<in> set cs"
    if "xs \<noteq> []" "\<And>p. p \<in> set xs \<Longrightarrow> fst p \<in> set cs" for xs :: "(channel \<times> u64) list"
    using that pick_top_mem[of xs 2 draw snd] by auto
  show ?thesis
    using assms
    by (auto simp: latency_select_def Let_def map_filter_mem dest: weighted_random_mem
        intro!: top split: if_splits)
qed

lemma latency_select_total: "cs \<noteq> [] \<Longrightarrow> latency_select lt draw cs \<noteq> None"
  using weighted_random_total by (simp add: latency_select_def Let_def)

text \<open>The scan keeps channels with the least count.\<close>

lemma least_busy_scan_mem: "c \<in> set (least_busy_scan a m lb cs) \<Longrightarrow> c \<in> set lb \<or> c \<in> set cs"
  by (induction a m lb cs rule: least_busy_scan.induct) (auto simp: Let_def split: if_splits)

lemma least_busy_scan_min:
  assumes "c \<in> set (least_busy_scan a m lb cs)" "\<forall>d \<in> set lb. ar_get a (ch_id d) = m"
  shows "ar_get a (ch_id c) \<le> m \<and> (\<forall>d \<in> set cs. ar_get a (ch_id c) \<le> ar_get a (ch_id d))"
  using assms
proof (induction a m lb cs rule: least_busy_scan.induct)
  case (2 a m lb x cs)
  show ?case
  proof (cases "ar_get a (ch_id x)" m rule: linorder_cases)
    case less
    with 2 have "ar_get a (ch_id c) \<le> ar_get a (ch_id x)
        \<and> (\<forall>d \<in> set cs. ar_get a (ch_id c) \<le> ar_get a (ch_id d))" by (simp add: Let_def)
    with less show ?thesis by auto
  next
    case equal
    with 2 show ?thesis by (simp add: Let_def)
  next
    case greater
    then have "\<not> ar_get a (ch_id x) < m" "ar_get a (ch_id x) \<noteq> m" by auto
    with 2 have "ar_get a (ch_id c) \<le> m \<and> (\<forall>d \<in> set cs. ar_get a (ch_id c) \<le> ar_get a (ch_id d))"
      by (simp add: Let_def)
    with greater show ?thesis by auto
  qed
qed simp

lemma least_busy_scan_nonempty:
  "lb \<noteq> [] \<or> m = u32_max \<and> cs \<noteq> [] \<Longrightarrow> least_busy_scan a m lb cs \<noteq> []"
  by (induction a m lb cs rule: least_busy_scan.induct)
    (auto simp: Let_def not_less word_order.extremum_unique)

lemma least_busy_scan_length: "length (least_busy_scan a m lb cs) \<le> length lb + length cs"
proof (induction a m lb cs rule: least_busy_scan.induct)
  case (2 a m lb c cs)
  then show ?case by (auto simp: Let_def split: if_splits)
qed simp

lemma least_busy_scan_all:
  "length (least_busy_scan a m lb cs) = length lb + length cs \<Longrightarrow> least_busy_scan a m lb cs = lb @ cs"
proof (induction a m lb cs rule: least_busy_scan.induct)
  case (2 a m lb c cs)
  show ?case
  proof (cases "ar_get a (ch_id c)" m rule: linorder_cases)
    case less
    with 2(1,4) least_busy_scan_length[of a "ar_get a (ch_id c)" "[c]" cs]
    show ?thesis by (cases lb) (simp_all add: Let_def)
  next
    case equal
    with 2 show ?thesis by (simp add: Let_def)
  next
    case greater
    then have "\<not> ar_get a (ch_id c) < m" "ar_get a (ch_id c) \<noteq> m" by auto
    with 2 least_busy_scan_length[of a m lb cs] show ?thesis by (simp add: Let_def)
  qed
qed simp

lemma least_busy_select_scan:
  assumes "least_busy_select a draw cs = Some c"
  shows "c \<in> set (least_busy_scan a u32_max [] cs)"
proof -
  let ?lb = "least_busy_scan a u32_max [] cs"
  have cs: "cs \<noteq> []" using assms by (auto simp: least_busy_select_def)
  show ?thesis
  proof (cases "length ?lb = length cs")
    case True
    then have "?lb = cs" using least_busy_scan_all[of a u32_max "[]" cs] by simp
    with assms True show ?thesis
      by (auto simp: least_busy_select_def Let_def dest: weighted_random_mem split: if_splits)
  next
    case False
    have "?lb \<noteq> []" using cs by (intro least_busy_scan_nonempty) simp
    with assms False show ?thesis
      by (auto simp: least_busy_select_def Let_def random_range_less split: if_splits)
  qed
qed

lemma least_busy_select_mem: "least_busy_select a draw cs = Some c \<Longrightarrow> c \<in> set cs"
  using least_busy_scan_mem[of c a u32_max "[]" cs] least_busy_select_scan by auto

lemma least_busy_select_total: "cs \<noteq> [] \<Longrightarrow> least_busy_select a draw cs \<noteq> None"
  using weighted_random_total by (simp add: least_busy_select_def Let_def)

section \<open>Every strategy meets the interface\<close>

interpretation weighted: routing_strategy "weighted_random draw"
  by unfold_locales (use weighted_random_mem weighted_random_total in auto)

interpretation latency: routing_strategy "latency_select lt draw"
  by unfold_locales (use latency_select_mem latency_select_total in auto)

interpretation least_busy: routing_strategy "least_busy_select a draw"
  by unfold_locales (use least_busy_select_mem least_busy_select_total in auto)

interpretation lowest_cost: routing_strategy "lowest_cost_select draw"
  by unfold_locales (auto simp: lowest_cost_select_def pick_top_mem split: if_splits)

interpretation usage: routing_strategy "usage_select l now draw"
  by unfold_locales (auto simp: usage_select_def pick_top_mem split: if_splits)

section \<open>Weights\<close>

lemma pick_by_roll_shift:
  "{roll. 0 < roll \<and> roll \<le> total_weight (a # cs) \<and> pick_by_roll roll (a # cs) = Some c} =
   {roll. 0 < roll \<and> roll \<le> unat (ch_weight a) \<and> a = c}
   \<union> (\<lambda>r. r + unat (ch_weight a)) ` {roll. 0 < roll \<and> roll \<le> total_weight cs \<and> pick_by_roll roll cs = Some c}"
  (is "?l = ?r1 \<union> ?f ` ?r2")
proof -
  have "roll \<in> ?l \<longleftrightarrow> roll \<in> ?r1 \<union> ?f ` ?r2" for roll
  proof (cases "roll \<le> unat (ch_weight a)")
    case True
    then show ?thesis by (auto simp: total_weight_def)
  next
    case False
    then have "roll \<in> ?l \<longleftrightarrow> roll - unat (ch_weight a) \<in> ?r2" by (auto simp: total_weight_def)
    also have "\<dots> \<longleftrightarrow> roll \<in> ?f ` ?r2" using False by (auto simp: image_iff intro: exI[of _ "roll - unat (ch_weight a)"])
    finally show ?thesis using False by auto
  qed
  then show ?thesis by blast
qed

lemma pick_by_roll_count:
  assumes "distinct cs" "c \<in> set cs"
  shows "card {roll. 0 < roll \<and> roll \<le> total_weight cs \<and> pick_by_roll roll cs = Some c} = unat (ch_weight c)"
  using assms
proof (induction cs)
  case (Cons a cs)
  let ?r2 = "{roll. 0 < roll \<and> roll \<le> total_weight cs \<and> pick_by_roll roll cs = Some c}"
  let ?f = "\<lambda>r. r + unat (ch_weight a)"
  show ?case
  proof (cases "a = c")
    case True
    then have "?r2 = {}" using Cons.prems pick_by_roll_mem by fastforce
    then have "{roll. 0 < roll \<and> roll \<le> total_weight (a # cs) \<and> pick_by_roll roll (a # cs) = Some c} =
        {1..unat (ch_weight a)}"
      using True unfolding pick_by_roll_shift by auto
    with True show ?thesis by simp
  next
    case False
    then have "{roll. 0 < roll \<and> roll \<le> total_weight (a # cs) \<and> pick_by_roll roll (a # cs) = Some c} = ?f ` ?r2"
      unfolding pick_by_roll_shift by auto
    moreover have "card (?f ` ?r2) = card ?r2" by (rule card_image) simp
    ultimately show ?thesis using Cons False by simp
  qed
qed simp

text \<open>The weighted strategy is proportional: of the equally likely draws below the total weight,
  exactly \<open>weight\<close> many select a given candidate.\<close>

theorem weighted_random_proportional:
  assumes "distinct cs" "c \<in> set cs" "0 < total_weight cs"
  shows "card {draw. draw < total_weight cs \<and> weighted_random draw cs = Some c} = unat (ch_weight c)"
proof -
  have "weighted_random draw cs = pick_by_roll (Suc draw) cs" if "draw < total_weight cs" for draw
  proof -
    have "cs \<noteq> []" using assms(2) by auto
    moreover from this that obtain ch where "pick_by_roll (Suc draw) cs = Some ch"
      using pick_by_roll_total[of "Suc draw" cs] by auto
    ultimately show ?thesis using that by (simp add: weighted_random_def random_range_def)
  qed
  then have "Suc ` {draw. draw < total_weight cs \<and> weighted_random draw cs = Some c} =
      {roll. 0 < roll \<and> roll \<le> total_weight cs \<and> pick_by_roll roll cs = Some c}"
    by (auto simp: image_iff) (metis Suc_pred less_Suc_eq_le Suc_le_lessD)
  with pick_by_roll_count[OF assms(1,2)] show ?thesis
    by (metis card_image inj_Suc)
qed

lemma weighted_random_proportional_witness:
  "card {draw. draw < 300 \<and> weighted_random draw [example_channel 1, (example_channel 2)\<lparr>ch_weight := 200\<rparr>] =
     Some ((example_channel 2)\<lparr>ch_weight := 200\<rparr>)} = 200"
proof -
  let ?b = "(example_channel 2)\<lparr>ch_weight := 200\<rparr>"
  have "example_channel 1 \<noteq> ?b" by (simp add: example_channel_def)
  moreover have "total_weight [example_channel 1, ?b] = 300"
    by (simp add: total_weight_def example_channel_def)
  ultimately show ?thesis
    using weighted_random_proportional[of "[example_channel 1, ?b]" ?b] by simp
qed

text \<open>The least-busy strategy always returns a candidate with the fewest active requests.\<close>

theorem least_busy_is_minimal:
  assumes "least_busy_select a draw cs = Some c" "d \<in> set cs"
  shows "ar_get a (ch_id c) \<le> ar_get a (ch_id d)"
  using least_busy_scan_min[OF least_busy_select_scan[OF assms(1)]] assms(2) by simp

lemma least_busy_is_minimal_witness:
  "ar_get [(1, 3), (2, 1)] (ch_id (example_channel 2)) \<le> ar_get [(1, 3), (2, 1)] (ch_id (example_channel 1))"
proof -
  have "least_busy_select [(1, 3), (2, 1)] 0 [example_channel 1, example_channel 2] = Some (example_channel 2)"
    by (simp add: least_busy_select_def ar_get_def example_channel_def random_range_def Let_def)
  from least_busy_is_minimal[OF this, of "example_channel 1"] show ?thesis by simp
qed

text \<open>The usage strategy returns one of the two least utilised candidates, the cost strategy one
  of the two cheapest: fewer than two candidates have a strictly better score.\<close>

theorem top_two_strategies:
  "(usage_select l now draw cs = Some c \<longrightarrow>
      length (filter (\<lambda>d. usage_ratio l now d < usage_ratio l now c) cs) < 2)
   \<and> (lowest_cost_select draw cs = Some c \<longrightarrow>
      length (filter (\<lambda>d. channel_cost_score d < channel_cost_score c) cs) < 2)"
  using pick_top_rank[of cs 2 "usage_ratio l now" draw] pick_top_rank[of cs 2 channel_cost_score draw]
  by (auto simp: usage_select_def lowest_cost_select_def)

lemma top_two_strategies_witness:
  "length (filter (\<lambda>d. channel_cost_score d < channel_cost_score (example_channel 1)) [example_channel 1]) < 2"
proof -
  have "lowest_cost_select 0 [example_channel 1] = Some (example_channel 1)"
    by (simp add: lowest_cost_select_def pick_top_def random_range_def)
  with top_two_strategies[of undefined 0 0 "[example_channel 1]" "example_channel 1"] show ?thesis by blast
qed

end
