(* ===== verification/Channel_Manager.thy ===== *)
theory Channel_Manager
  imports Channel Keyed_Store
begin

text \<open>
  \<open>channel/manager.rs\<close> and the connectivity test of \<open>channel/mod.rs\<close>: the store of channels with
  circuit breaking, progressive backoff, key rotation and persistence. The locks make every
  operation atomic on the state, so an operation is a function from state to state. The
  credential store (system keyring or file) is the argument \<open>cred_get\<close>, the outcome of the HTTP
  check of \<open>check_channel_connectivity\<close> the argument \<open>reachable\<close>.
\<close>

record manager =
  mgr_channels :: "(uuid, channel) hashmap"
  mgr_circuit_breaker_minutes :: u64
  mgr_key_indices :: "(uuid, nat) hashmap"
  mgr_disable_cooling :: bool

definition manager_new :: "channel list \<Rightarrow> u64 \<Rightarrow> bool \<Rightarrow> manager" where
  "manager_new chans minutes disable =
     \<lparr>mgr_channels = fold (\<lambda>c m. hm_insert (ch_id c) c m) chans [],
      mgr_circuit_breaker_minutes = minutes, mgr_key_indices = [], mgr_disable_cooling = disable\<rparr>"

definition set_disable_cooling :: "manager \<Rightarrow> bool \<Rightarrow> manager" where
  "set_disable_cooling m v = m\<lparr>mgr_disable_cooling := v\<rparr>"

definition manager_list :: "manager \<Rightarrow> utc \<Rightarrow> channel list" where
  "manager_list m now = map (\<lambda>c. recover_if_expired c now) (hm_values (mgr_channels m))"

definition manager_get :: "manager \<Rightarrow> uuid \<Rightarrow> channel option" where
  "manager_get m i = hm_get (mgr_channels m) i"

definition manager_create :: "manager \<Rightarrow> channel \<Rightarrow> manager" where
  "manager_create m c = m\<lparr>mgr_channels := hm_insert (ch_id c) c (mgr_channels m)\<rparr>"

definition manager_update :: "manager \<Rightarrow> uuid \<Rightarrow> channel \<Rightarrow> manager \<times> channel option" where
  "manager_update m i updated =
     (if hm_contains (mgr_channels m) i
      then (m\<lparr>mgr_channels := hm_insert i updated (mgr_channels m)\<rparr>, Some updated)
      else (m, None))"

definition manager_delete :: "manager \<Rightarrow> uuid \<Rightarrow> manager \<times> bool" where
  "manager_delete m i =
     (m\<lparr>mgr_channels := hm_remove i (mgr_channels m)\<rparr>, hm_contains (mgr_channels m) i)"

text \<open>Writing through the inner lock of one channel.\<close>

definition with_channel :: "manager \<Rightarrow> uuid \<Rightarrow> (channel \<Rightarrow> channel) \<Rightarrow> manager" where
  "with_channel m i f =
     m\<lparr>mgr_channels := hm_modify (mgr_channels m) i f\<rparr>"

definition backoff_minutes :: "u64 \<Rightarrow> u32 \<Rightarrow> u64" where
  "backoff_minutes base failures =
     (let backoff = sat_mul (ucast base :: u32) (sat_pow 2 (unat (sat_sub failures 1)))
      in min (ucast backoff) 30)"

definition manager_mark_circuit_open :: "manager \<Rightarrow> utc \<Rightarrow> uuid \<Rightarrow> manager" where
  "manager_mark_circuit_open m now i = with_channel m i (\<lambda>c.
     let c = c\<lparr>ch_consecutive_failures := ch_consecutive_failures c + 1\<rparr>
     in if mgr_disable_cooling m then c
        else channel_mark_circuit_open c now
          (backoff_minutes (case ch_cooldown_minutes c of Some b \<Rightarrow> b
                              | None \<Rightarrow> mgr_circuit_breaker_minutes m)
             (ch_consecutive_failures c)))"

definition retry_open_minutes :: "manager \<Rightarrow> u64 option \<Rightarrow> u64" where
  "retry_open_minutes m retry_after =
     (case retry_after of Some s \<Rightarrow> max (s div 60) 1 | None \<Rightarrow> mgr_circuit_breaker_minutes m)"

definition mark_circuit_open_with_retry :: "manager \<Rightarrow> utc \<Rightarrow> uuid \<Rightarrow> u64 option \<Rightarrow> manager" where
  "mark_circuit_open_with_retry m now i retry_after =
     (if mgr_disable_cooling m then m
      else with_channel m i (\<lambda>c. channel_mark_circuit_open c now (retry_open_minutes m retry_after)))"

text \<open>The call panics when the minutes, which nothing limits here, lead out of the calendar; the state is
  then the one \<open>mark_circuit_open_with_retry\<close> gives.\<close>

definition mark_open_panics :: "manager \<Rightarrow> utc \<Rightarrow> uuid \<Rightarrow> u64 option \<Rightarrow> bool" where
  "mark_open_panics m now i retry_after \<longleftrightarrow>
     \<not> mgr_disable_cooling m \<and> hm_contains (mgr_channels m) i
     \<and> chrono_sum now (retry_open_minutes m retry_after) = None"

definition manager_mark_model_rate_limited ::
  "manager \<Rightarrow> utc \<Rightarrow> uuid \<Rightarrow> string \<Rightarrow> u64 option \<Rightarrow> manager" where
  "manager_mark_model_rate_limited m now i model retry_after =
     (if mgr_disable_cooling m then m
      else with_channel m i (\<lambda>c. mark_model_rate_limited c now model retry_after))"

definition manager_clean_expired_model_cooldowns :: "manager \<Rightarrow> utc \<Rightarrow> manager" where
  "manager_clean_expired_model_cooldowns m now =
     m\<lparr>mgr_channels := map (\<lambda>(i, c). (i, clean_expired_model_cooldowns c now)) (mgr_channels m)\<rparr>"

text \<open>
  A credential lookup either finishes with an optional key or panics on \<open>all_keys[idx]\<close>; the
  rotation counter is advanced before the index is used, so it changes on a panic as well.
\<close>

datatype credential_result = CredPanic | Cred "string option"

definition get_credential ::
  "(string \<Rightarrow> string \<Rightarrow> string option) \<Rightarrow> manager \<Rightarrow> uuid \<Rightarrow> manager \<times> credential_result" where
  "get_credential cred_get m i =
     (case hm_get (mgr_channels m) i of
        None \<Rightarrow> (m, Cred None)
      | Some c \<Rightarrow>
          let fallback = (case cred_api_key (ch_credential c) of
                            Some key \<Rightarrow> Some key
                          | None \<Rightarrow> cred_get ''modelswitch'' (key_ref (ch_credential c)))
          in if ch_api_keys c \<noteq> [] then
               let keys = all_keys c in
               if keys = [] then (m, Cred fallback)
               else
                 let current = (case hm_get (mgr_key_indices m) i of Some n \<Rightarrow> n | None \<Rightarrow> 0);
                     m' = m\<lparr>mgr_key_indices :=
                              hm_insert i ((current + 1) mod length keys) (mgr_key_indices m)\<rparr>
                 in (m', if current < length keys then Cred (Some (keys ! current)) else CredPanic)
             else (m, Cred fallback))"

text \<open>The per-channel part of \<open>persist\<close>; \<open>uuid_to_string\<close> is the uuid crate's printer.\<close>

definition channel_to_config :: "(uuid \<Rightarrow> string) \<Rightarrow> channel \<Rightarrow> 'r channel_config" where
  "channel_to_config uuid_to_string c =
     \<lparr>cc_id = uuid_to_string (ch_id c),
      cc_name = ch_name c,
      cc_provider = provider_as_str (ch_provider c),
      cc_priority = ch_priority c,
      cc_weight = ch_weight c,
      cc_cost_per_token = ch_cost_per_token c,
      cc_input_cost_per_mtok = ch_input_cost_per_mtok c,
      cc_output_cost_per_mtok = ch_output_cost_per_mtok c,
      cc_credential_type =
        (case cred_type (ch_credential c) of ApiKey \<Rightarrow> ''api_key'' | WebSession \<Rightarrow> ''web_session''),
      cc_credential_ref = key_ref (ch_credential c),
      cc_api_key = cred_api_key (ch_credential c),
      cc_base_url = ch_base_url c,
      cc_enabled = ch_enabled c,
      cc_model_mapping = ch_model_mapping c,
      cc_cooldown_minutes = ch_cooldown_minutes c,
      cc_rpm_limit = ch_rpm_limit c,
      cc_tpm_limit = ch_tpm_limit c,
      cc_payload_rules = None,
      cc_quota = ch_quota c,
      cc_account_group = ch_account_group c,
      cc_max_concurrent = ch_max_concurrent c,
      cc_api_keys = ch_api_keys c,
      cc_excluded_models = ch_excluded_models c,
      cc_proxy_url = ch_proxy_url c,
      cc_headers = (if ch_headers c = [] then None else Some (ch_headers c)),
      cc_max_retries = ch_max_retries c,
      cc_models_endpoint = ch_models_endpoint c,
      cc_models_refresh_interval_secs = ch_models_refresh_interval_secs c,
      cc_tags = ch_tags c\<rparr>"

definition persist_channels :: "(uuid \<Rightarrow> string) \<Rightarrow> manager \<Rightarrow> 'r channel_config list" where
  "persist_channels uuid_to_string m =
     map (channel_to_config uuid_to_string) (hm_values (mgr_channels m))"

definition ema_latency :: "u64 \<Rightarrow> u64 \<Rightarrow> u64" where
  "ema_latency avg latency =
     (if avg = 0 then latency
      else f64_as_u64 (f64_add (f64_mul (f64_of_u64 avg) (f64_lit (7 / 10)))
                               (f64_mul (f64_of_u64 latency) (f64_lit (3 / 10)))))"

definition manager_record_latency :: "manager \<Rightarrow> utc \<Rightarrow> uuid \<Rightarrow> u64 \<Rightarrow> manager" where
  "manager_record_latency m now i latency = with_channel m i (\<lambda>c.
     recover_to_healthy
       (c\<lparr>ch_avg_latency_ms := ema_latency (ch_avg_latency_ms c) latency,
          ch_consecutive_failures := 0\<rparr>) now)"

definition force_recover :: "manager \<Rightarrow> utc \<Rightarrow> uuid \<Rightarrow> manager" where
  "force_recover m now i = with_channel m i (\<lambda>c.
     c\<lparr>ch_status := Healthy, ch_circuit_open_until := None, ch_consecutive_failures := 0,
       ch_updated_at := now\<rparr>)"

definition replace_all :: "manager \<Rightarrow> channel list \<Rightarrow> manager" where
  "replace_all m chans = m\<lparr>mgr_channels := fold (\<lambda>c acc. hm_insert (ch_id c) c acc) chans []\<rparr>"

record channel_test_result =
  tr_channel_id :: uuid
  tr_channel_name :: string
  tr_success :: bool
  tr_latency_ms :: "u64 option"
  tr_error :: "string option"
  tr_tested_at :: utc

text \<open>
  \<open>run_channel_test\<close> reads the channel, checks connectivity and writes back; \<open>outcome\<close> is the
  result of the HTTP check and \<open>latency\<close> its duration. Nothing else runs in between here.
\<close>

definition run_channel_test ::
  "manager \<Rightarrow> utc \<Rightarrow> uuid \<Rightarrow> string + unit \<Rightarrow> u64 \<Rightarrow> manager \<times> channel_test_result" where
  "run_channel_test m now i outcome latency =
     (case manager_get m i of
        None \<Rightarrow> (m, \<lparr>tr_channel_id = i, tr_channel_name = [], tr_success = False,
                    tr_latency_ms = None, tr_error = Some ''channel not found'', tr_tested_at = now\<rparr>)
      | Some c \<Rightarrow>
          (case outcome of
             Inr _ \<Rightarrow>
               (fst (manager_update m i
                  (c\<lparr>ch_status := Healthy, ch_consecutive_failures := 0, ch_updated_at := now\<rparr>)),
                \<lparr>tr_channel_id = i, tr_channel_name = ch_name c, tr_success = True,
                 tr_latency_ms = Some latency, tr_error = None, tr_tested_at = now\<rparr>)
           | Inl e \<Rightarrow>
               (manager_mark_circuit_open m now i,
                \<lparr>tr_channel_id = i, tr_channel_name = ch_name c, tr_success = False,
                 tr_latency_ms = Some latency, tr_error = Some e, tr_tested_at = now\<rparr>)))"

fun run_tests_on :: "manager \<Rightarrow> utc \<Rightarrow> (uuid \<Rightarrow> string + unit) \<Rightarrow> u64 \<Rightarrow> channel list
    \<Rightarrow> manager \<times> channel_test_result list" where
  "run_tests_on m now net latency [] = (m, [])"
| "run_tests_on m now net latency (c # cs) =
     (if ch_enabled c then
        let (m', r) = run_channel_test m now (ch_id c) (net (ch_id c)) latency;
            (m'', rs) = run_tests_on m' now net latency cs
        in (m'', r # rs)
      else run_tests_on m now net latency cs)"

definition run_all_tests :: "manager \<Rightarrow> utc \<Rightarrow> (uuid \<Rightarrow> string + unit) \<Rightarrow> u64
    \<Rightarrow> manager \<times> channel_test_result list" where
  "run_all_tests m now net latency = run_tests_on m now net latency (manager_list m now)"

section \<open>The manager as a keyed store\<close>

interpretation mgr: keyed_store manager_get with_channel
  by unfold_locales (simp add: manager_get_def with_channel_def hm_get_modify)

lemma with_channel_frame [simp]:
  "mgr_disable_cooling (with_channel m i f) = mgr_disable_cooling m"
  "mgr_circuit_breaker_minutes (with_channel m i f) = mgr_circuit_breaker_minutes m"
  "mgr_key_indices (with_channel m i f) = mgr_key_indices m"
  by (simp_all add: with_channel_def)

section \<open>Steps and reachable states\<close>

text \<open>
  What the rest of the gateway does to the manager. \<open>edit\<close> covers the admin handlers, the config
  import and the hot reload: they write back a stored channel, with its status kept, disabled or
  reset to Healthy, or a fresh one built from a config; \<open>create\<close> and \<open>replace\<close> install channels
  built from configs, whose status is Healthy. These are the calls that return.
\<close>

inductive mgr_step :: "manager \<Rightarrow> manager \<Rightarrow> bool" where
  fail: "mgr_step m (manager_mark_circuit_open m now i)"
| retry: "\<not> mark_open_panics m now i r \<Longrightarrow> mgr_step m (mark_circuit_open_with_retry m now i r)"
| rate: "mgr_step m (manager_mark_model_rate_limited m now i model r)"
| clean: "mgr_step m (manager_clean_expired_model_cooldowns m now)"
| latency: "mgr_step m (manager_record_latency m now i l)"
| force: "mgr_step m (force_recover m now i)"
| cooling: "mgr_step m (set_disable_cooling m b)"
| cred: "mgr_step m (fst (get_credential g m i))"
| test: "mgr_step m (fst (run_channel_test m now i res l))"
| create: "ch_status c = Healthy \<Longrightarrow> mgr_step m (manager_create m c)"
| edit: "manager_get m i = Some c \<Longrightarrow> ch_id c' = i \<Longrightarrow>
    ch_status c' \<in> {Disabled, Healthy} \<or>
    (ch_status c' = ch_status c \<and> ch_circuit_open_until c' = ch_circuit_open_until c) \<Longrightarrow>
    mgr_step m (fst (manager_update m i c'))"
| delete: "mgr_step m (fst (manager_delete m i))"
| replace: "\<forall>c \<in> set cs. ch_status c = Healthy \<Longrightarrow> mgr_step m (replace_all m cs)"

text \<open>The reachable states, with the channels on which a call has panicked: such a call leaves the circuit open
  without setting its end.\<close>

inductive mgr_reachable :: "uuid set \<Rightarrow> manager \<Rightarrow> bool" where
  start: "\<forall>c \<in> set cs. ch_status c = Healthy \<Longrightarrow> mgr_reachable {} (manager_new cs mins dis)"
| step: "mgr_reachable W m \<Longrightarrow> mgr_step m m' \<Longrightarrow> mgr_reachable W m'"
| overflow: "mgr_reachable W m \<Longrightarrow> mark_open_panics m now i r \<Longrightarrow>
    mgr_reachable (insert i W) (mark_circuit_open_with_retry m now i r)"

definition stored_but :: "uuid set \<Rightarrow> uuid \<Rightarrow> channel \<Rightarrow> bool" where
  "stored_but W i c \<longleftrightarrow> ch_id c = i \<and> (i \<in> W \<or> circuit_ok c) \<and> ch_status c \<noteq> HalfOpen"

definition mgr_inv_but :: "uuid set \<Rightarrow> manager \<Rightarrow> bool" where
  "mgr_inv_but W m \<longleftrightarrow> (\<forall>i c. manager_get m i = Some c \<longrightarrow> stored_but W i c)"

definition stored_ok :: "uuid \<Rightarrow> channel \<Rightarrow> bool" where
  "stored_ok i c \<longleftrightarrow> ch_id c = i \<and> circuit_ok c \<and> ch_status c \<noteq> HalfOpen"

definition mgr_inv :: "manager \<Rightarrow> bool" where
  "mgr_inv m \<longleftrightarrow> (\<forall>i c. manager_get m i = Some c \<longrightarrow> stored_ok i c)"

lemma stored_but_empty [simp]: "stored_but {} i c = stored_ok i c"
  by (simp add: stored_but_def stored_ok_def)

lemma mgr_inv_but_empty [simp]: "mgr_inv_but {} m = mgr_inv m"
  by (simp add: mgr_inv_but_def mgr_inv_def)

lemma mgr_inv_but_mono: "mgr_inv_but W m \<Longrightarrow> W \<subseteq> V \<Longrightarrow> mgr_inv_but V m"
  by (auto simp: mgr_inv_but_def stored_but_def)

lemma inv_but_with_channel:
  assumes "mgr_inv_but W m" "\<And>c. stored_but W i c \<Longrightarrow> stored_but W i (f c)"
  shows "mgr_inv_but W (with_channel m i f)"
  using mgr.modify_preserves[of m "stored_but W" i f] assms by (simp add: mgr_inv_but_def)

lemma inv_but_insert:
  assumes "mgr_inv_but W m" "stored_but W i c"
  shows "mgr_inv_but W (m\<lparr>mgr_channels := hm_insert i c (mgr_channels m)\<rparr>)"
  using assms by (simp add: mgr_inv_but_def manager_get_def)

lemma inv_but_update:
  assumes "mgr_inv_but W m" "stored_but W i c"
  shows "mgr_inv_but W (fst (manager_update m i c))"
  using assms by (simp add: manager_update_def inv_but_insert)

lemma healthy_stored_ok: "ch_status c = Healthy \<Longrightarrow> stored_ok (ch_id c) c"
  by (simp add: stored_ok_def circuit_ok_def)

lemma stored_ok_but: "stored_ok i c \<Longrightarrow> stored_but W i c"
  by (simp add: stored_ok_def stored_but_def)

lemma fold_insert_channels:
  "hm_get (fold (\<lambda>c acc. hm_insert (ch_id c) c acc) cs m) i = Some c \<Longrightarrow>
   hm_get m i = Some c \<or> (c \<in> set cs \<and> ch_id c = i)"
proof (induction cs arbitrary: m)
  case (Cons a cs)
  from Cons.IH[of "hm_insert (ch_id a) a m"] Cons.prems show ?case by (auto split: if_splits)
qed simp

lemma stored_but_mark_open:
  "stored_but W i c \<Longrightarrow> i \<in> W \<or> chrono_sum now d \<noteq> None \<Longrightarrow> stored_but W i (channel_mark_circuit_open c now d)"
  by (auto simp: stored_but_def intro: circuit_ok_mark_open)

lemma stored_but_to_healthy: "stored_but W i c \<Longrightarrow> stored_but W i (recover_to_healthy c now)"
  by (auto simp: stored_but_def recover_to_healthy_def circuit_ok_def)

lemma backoff_at_most_30: "backoff_minutes base f \<le> 30"
  by (simp add: backoff_minutes_def Let_def)

lemma inv_but_fail: "mgr_inv_but W m \<Longrightarrow> mgr_inv_but W (manager_mark_circuit_open m now i)"
  unfolding manager_mark_circuit_open_def
  by (rule inv_but_with_channel)
    (simp_all add: Let_def stored_but_def circuit_ok_def mark_open_until backoff_at_most_30)

lemma inv_but_get_credential: "mgr_inv_but W m \<Longrightarrow> mgr_inv_but W (fst (get_credential g m i))"
  by (auto simp: get_credential_def Let_def mgr_inv_but_def manager_get_def split: option.splits)

lemma inv_but_test: "mgr_inv_but W m \<Longrightarrow> mgr_inv_but W (fst (run_channel_test m now i res l))"
proof (cases "manager_get m i")
  case (Some c)
  assume inv: "mgr_inv_but W m"
  with Some have "stored_but W i c" by (simp add: mgr_inv_but_def)
  then have "stored_but W i (c\<lparr>ch_status := Healthy, ch_consecutive_failures := 0, ch_updated_at := now\<rparr>)"
    by (simp add: stored_but_def circuit_ok_def)
  with inv Some show ?thesis
    by (auto simp: run_channel_test_def inv_but_update inv_but_fail split: sum.splits)
qed (simp add: run_channel_test_def)

lemma inv_but_delete: "mgr_inv_but W m \<Longrightarrow> mgr_inv_but W (fst (manager_delete m i))"
  by (simp add: manager_delete_def mgr_inv_but_def manager_get_def)

lemma inv_but_cooling: "mgr_inv_but W m \<Longrightarrow> mgr_inv_but W (set_disable_cooling m b)"
  by (simp add: set_disable_cooling_def mgr_inv_but_def manager_get_def)

lemma with_channel_absent: "\<not> hm_contains (mgr_channels m) i \<Longrightarrow> manager_get (with_channel m i f) j = manager_get m j"
  unfolding mgr.lookup_modify by (auto simp: manager_get_def hm_contains_def)

text \<open>Opening a circuit for the time the upstream asked for: whether the call returns or panics.\<close>

lemma inv_but_retry:
  assumes "mgr_inv_but W m" "mark_open_panics m now i r \<longrightarrow> i \<in> W"
  shows "mgr_inv_but W (mark_circuit_open_with_retry m now i r)"
proof (cases "mgr_disable_cooling m \<or> \<not> hm_contains (mgr_channels m) i")
  case True
  then show ?thesis
    using assms(1) by (auto simp: mark_circuit_open_with_retry_def mgr_inv_but_def with_channel_absent)
next
  case False
  then have "i \<in> W \<or> chrono_sum now (retry_open_minutes m r) \<noteq> None"
    using assms(2) by (auto simp: mark_open_panics_def)
  then show ?thesis
    using False assms(1) by (auto simp: mark_circuit_open_with_retry_def intro!: inv_but_with_channel stored_but_mark_open)
qed

lemma inv_but_step: "mgr_step m m' \<Longrightarrow> mgr_inv_but W m \<Longrightarrow> mgr_inv_but W m'"
proof (induction rule: mgr_step.induct)
  case (rate m now i model r)
  then show ?case
    by (auto simp: manager_mark_model_rate_limited_def intro!: inv_but_with_channel)
      (auto simp: stored_but_def, auto simp: mark_model_rate_limited_def)
next
  case (clean m now)
  have "map_of (map (\<lambda>(i, c). (i, clean_expired_model_cooldowns c now)) xs) i =
      map_option (\<lambda>c. clean_expired_model_cooldowns c now) (map_of xs i)" for xs :: "(uuid \<times> channel) list" and i
    by (induction xs) auto
  with clean show ?case
    by (auto simp: manager_clean_expired_model_cooldowns_def mgr_inv_but_def manager_get_def stored_but_def)
      (auto simp: clean_expired_model_cooldowns_def)
next
  case (latency m now i l)
  show ?case unfolding manager_record_latency_def
    by (rule inv_but_with_channel[OF latency], rule stored_but_to_healthy)
      (simp add: stored_but_def circuit_ok_def)
next
  case (force m now i)
  show ?case unfolding force_recover_def
    by (rule inv_but_with_channel[OF force]) (simp add: stored_but_def circuit_ok_def)
next
  case (edit m i c c')
  then have "stored_but W i c" by (simp add: mgr_inv_but_def)
  with edit have "stored_but W i c'" unfolding stored_but_def circuit_ok_def by auto
  with edit show ?case by (simp add: inv_but_update)
next
  case (replace cs m)
  then show ?case
    by (auto simp: mgr_inv_but_def manager_get_def replace_all_def dest!: fold_insert_channels
        intro: healthy_stored_ok stored_ok_but)
qed (simp_all add: inv_but_fail inv_but_retry inv_but_get_credential inv_but_test inv_but_delete inv_but_cooling
    manager_create_def inv_but_insert stored_ok_but healthy_stored_ok)

lemma mgr_reachable_inv_but: "mgr_reachable W m \<Longrightarrow> mgr_inv_but W m"
proof (induction rule: mgr_reachable.induct)
  case (start cs mins dis)
  then show ?case
    by (auto simp: mgr_inv_def manager_get_def manager_new_def dest!: fold_insert_channels
        intro: healthy_stored_ok)
next
  case (overflow W m now i r)
  then show ?case using inv_but_retry mgr_inv_but_mono[of W m "insert i W"] by blast
qed (rule inv_but_step)

text \<open>The invariant when no call has panicked.\<close>

lemmas mgr_inv_insert = inv_but_insert[of "{}", simplified]
  and mgr_inv_update = inv_but_update[of "{}", simplified]
  and mgr_inv_delete = inv_but_delete[of "{}", simplified]
  and mgr_step_inv = inv_but_step[of _ _ "{}", simplified]
  and mgr_reachable_inv = mgr_reachable_inv_but[of "{}", simplified]

section \<open>Backoff\<close>

lemma unat_backoff:
  assumes "unat base < 2 ^ 32" "0 < unat f"
  shows "unat (backoff_minutes base f) = min 30 (unat base * 2 ^ (unat f - 1))"
proof -
  have b: "unat (ucast base :: u32) = unat base"
    using assms(1) by (simp add: unat_ucast_small)
  let ?p = "sat_pow (2 :: u32) (unat (sat_sub f 1))"
  let ?m = "sat_mul (ucast base :: u32) ?p"
  have p: "unat ?p = min (2 ^ (unat f - 1)) (2 ^ 32 - 1)"
    by (simp add: rust_arith)
  have "unat ?m = min (unat base * min (2 ^ (unat f - 1)) (2 ^ 32 - 1)) (2 ^ 32 - 1)"
    by (simp add: rust_arith b)
  moreover have "unat (ucast ?m :: u64) = unat ?m"
    by (rule unat_ucast_small) (rule less_trans[OF unsigned_less], simp)
  moreover have "unat (30 :: u64) = 30" by simp
  ultimately have "unat (backoff_minutes base f) =
      min (min (unat base * min (2 ^ (unat f - 1)) (2 ^ 32 - 1)) (2 ^ 32 - 1)) 30"
    unfolding backoff_minutes_def Let_def unat_min by presburger
  also have "\<dots> = min 30 (unat base * 2 ^ (unat f - 1))"
    by (cases "unat base") (auto simp: min_def)
  finally show ?thesis .
qed

section \<open>Key rotation\<close>

definition rotation_index :: "manager \<Rightarrow> uuid \<Rightarrow> nat" where
  "rotation_index m i = (case hm_get (mgr_key_indices m) i of Some n \<Rightarrow> n | None \<Rightarrow> 0)"

definition rotating :: "manager \<Rightarrow> uuid \<Rightarrow> string list \<Rightarrow> bool" where
  "rotating m i ks \<longleftrightarrow>
     (\<exists>c. manager_get m i = Some c \<and> ch_api_keys c \<noteq> [] \<and> all_keys c = ks)"

fun credential_calls ::
  "(string \<Rightarrow> string \<Rightarrow> string option) \<Rightarrow> manager \<Rightarrow> uuid \<Rightarrow> nat \<Rightarrow> manager \<times> credential_result list" where
  "credential_calls g m i 0 = (m, [])"
| "credential_calls g m i (Suc n) =
     (let (m', r) = get_credential g m i; (m'', rs) = credential_calls g m' i n in (m'', r # rs))"

lemma rotating_nonempty: "rotating m i ks \<Longrightarrow> ks \<noteq> []"
  by (auto simp: rotating_def all_keys_def)

lemma get_credential_rotating:
  assumes "rotating m i ks"
  shows "get_credential g m i =
    (m\<lparr>mgr_key_indices :=
        hm_insert i ((rotation_index m i + 1) mod length ks) (mgr_key_indices m)\<rparr>,
     if rotation_index m i < length ks then Cred (Some (ks ! rotation_index m i)) else CredPanic)"
  using assms rotating_nonempty[OF assms]
  by (auto simp: rotating_def get_credential_def manager_get_def rotation_index_def Let_def)

lemma rotating_step:
  assumes "rotating m i ks"
  shows "rotating (fst (get_credential g m i)) i ks"
    and "rotation_index (fst (get_credential g m i)) i = (rotation_index m i + 1) mod length ks"
  using assms unfolding get_credential_rotating[OF assms]
  by (auto simp: rotating_def manager_get_def rotation_index_def)

lemma credential_calls_rotate:
  assumes "rotating m i ks" "rotation_index m i < length ks"
  shows "snd (credential_calls g m i n) =
    map (\<lambda>j. Cred (Some (ks ! ((rotation_index m i + j) mod length ks)))) [0..<n]"
  using assms
proof (induction n arbitrary: m)
  case (Suc n)
  let ?m' = "fst (get_credential g m i)" and ?s = "rotation_index m i" and ?l = "length ks"
  note st = rotating_step[OF Suc.prems(1), of g]
  have "0 < ?l" using Suc.prems(2) by linarith
  then have idx: "rotation_index ?m' i < ?l" using st(2) by simp
  have "snd (credential_calls g m i (Suc n)) =
      Cred (Some (ks ! ?s)) # snd (credential_calls g ?m' i n)"
    using Suc.prems(2) by (simp add: get_credential_rotating[OF Suc.prems(1)] split: prod.splits)
  also have "\<dots> = Cred (Some (ks ! ?s)) #
      map (\<lambda>j. Cred (Some (ks ! ((rotation_index ?m' i + j) mod ?l)))) [0..<n]"
    using Suc.IH[OF st(1) idx] by simp
  also have "\<dots> = map (\<lambda>j. Cred (Some (ks ! ((?s + j) mod ?l)))) [0..<Suc n]"
    using Suc.prems(2) by (simp add: st(2) mod_add_left_eq map_upt_Suc del: upt_Suc)
  finally show ?case .
qed simp

text \<open>A reachable state with one channel whose circuit is open.\<close>

definition example_open :: manager where
  "example_open = manager_mark_circuit_open (manager_new [example_channel 7] 5 False) 0 7"

lemma example_open_reachable: "mgr_reachable {} example_open"
  unfolding example_open_def
  by (rule mgr_reachable.step[OF mgr_reachable.start mgr_step.fail]) (simp add: example_channel_def)

lemma example_open_get:
  "\<exists>c. manager_get example_open 7 = Some c \<and> ch_status c = CircuitOpen \<and> ch_enabled c"
  by (simp add: example_open_def mgr.lookup_modify manager_mark_circuit_open_def Let_def)
    (simp add: manager_get_def manager_new_def example_channel_def)

text \<open>C12: whatever the callers of the channel manager have done, an open circuit has an end time on every channel
  on which no call has panicked, so that an enabled channel whose circuit is open becomes available again exactly
  when that time has passed. The one call that can panic after it has set the status is the one that opens a
  circuit for the time an upstream asked for, when this time leads out of chrono's calendar; \<open>W\<close> holds the
  channels on which this has happened. Hypotheses: the channel is not one of them, is enabled and its circuit
  is open.\<close>

theorem open_circuit_recovers:
  assumes "mgr_reachable W m" "i \<notin> W"
    and "manager_get m i = Some c" "ch_status c = CircuitOpen" "ch_enabled c"
  shows "\<exists>u. ch_circuit_open_until c = Some u \<and> (\<forall>now. is_available c now \<longleftrightarrow> u \<le> now)"
proof -
  from mgr_reachable_inv_but[OF assms(1)] assms(3) have "stored_but W i c" by (simp add: mgr_inv_but_def)
  with assms(2,4) obtain u where "ch_circuit_open_until c = Some u"
    by (auto simp: stored_but_def circuit_ok_def)
  with assms(4,5) show ?thesis by (simp add: is_available_def)
qed

lemma open_circuit_recovers_witness:
  "\<exists>c u. manager_get example_open 7 = Some c \<and> ch_circuit_open_until c = Some u
     \<and> is_available c u \<and> \<not> is_available c (u - 1)"
proof -
  obtain c where "manager_get example_open 7 = Some c" "ch_status c = CircuitOpen" "ch_enabled c"
    using example_open_get by blast
  with open_circuit_recovers[OF example_open_reachable _ this] show ?thesis by auto
qed

text \<open>The other case happens: the seconds of a \<open>Retry-After\<close> header are not limited, and from about
  8.2e12 on (for any clock after 1970) the sum panics. A channel whose circuit was closed is then left
  circuit-open without an end: it is never available again and the recovery step never closes the circuit.\<close>

lemma huge_retry_overflows:
  assumes "0 \<le> now" "8210266876860 \<le> unat s"
  shows "chrono_sum now (retry_open_minutes m (Some s)) = None"
proof -
  have div: "unat (s div 60) = unat s div 60" by (simp add: unat_div)
  have d: "136837781281 \<le> unat (s div 60)"
    using div_le_mono[OF assms(2), of 60] unfolding div by simp
  have small: "unat (s div 60) < 2 ^ 63"
    using unsigned_less[of s, where ?'a = nat] unfolding div by simp
  have ge: "1 \<le> s div 60" "30 < s div 60" using d by (simp_all add: word_le_nat_alt word_less_nat_alt div)
  have "chrono_minutes (s div 60) = int (unat (s div 60)) * 60000000000" by (rule chrono_minutes_small[OF small])
  then have "8210266876860000000000 \<le> chrono_minutes (s div 60)" using d by linarith
  then have "\<not> now + chrono_minutes (s div 60) \<le> chrono_max_utc"
    using assms(1) unfolding chrono_max_utc_def by linarith
  then show ?thesis
    using ge by (simp add: chrono_sum_def retry_open_minutes_def max_absorb1 Let_def)
qed

theorem huge_retry_after_opens_forever:
  assumes "manager_get m i = Some c" "ch_circuit_open_until c = None" "\<not> mgr_disable_cooling m"
    and "0 \<le> now" "8210266876860 \<le> unat s"
  shows "mark_open_panics m now i (Some s)
    \<and> (\<exists>c'. manager_get (mark_circuit_open_with_retry m now i (Some s)) i = Some c' \<and> ch_status c' = CircuitOpen
         \<and> (\<forall>later. \<not> is_available c' later \<and> recover_if_expired c' later = c'))"
proof -
  note none = huge_retry_overflows[OF assms(4,5), of m]
  let ?c = "channel_mark_circuit_open c now (retry_open_minutes m (Some s))"
  have "manager_get (mark_circuit_open_with_retry m now i (Some s)) i = Some ?c"
    using assms(1,3) by (simp add: mark_circuit_open_with_retry_def mgr.lookup_modify)
  moreover have "ch_circuit_open_until ?c = None" using none assms(2) by (simp add: mark_open_until)
  moreover have "mark_open_panics m now i (Some s)"
    using none assms(1,3) by (simp add: mark_open_panics_def manager_get_def hm_contains_def)
  ultimately show ?thesis by (simp add: is_available_def recover_if_expired_def)
qed

lemma huge_retry_after_opens_forever_witness:
  "mark_open_panics (manager_new [example_channel 7] 5 False) 0 7 (Some 9000000000000)"
proof -
  have "manager_get (manager_new [example_channel 7] 5 False) 7 = Some (example_channel 7)"
    by (simp add: manager_get_def manager_new_def example_channel_def)
  from huge_retry_after_opens_forever[OF this, of 0 9000000000000] show ?thesis
    by (simp add: example_channel_def manager_new_def)
qed

text \<open>The stored status is never HalfOpen (that state exists only in the clones the router and
  \<open>list\<close> hand out), so recording a successful dispatch leaves an open circuit open: the promotion
  to Healthy that \<open>record_latency\<close> announces does not happen for any reachable state.\<close>

theorem success_never_closes_circuit:
  assumes "mgr_reachable W m" "manager_get m i = Some c"
  shows "ch_status c \<noteq> HalfOpen
    \<and> map_option ch_status (manager_get (manager_record_latency m now i l) i) = Some (ch_status c)"
proof -
  from mgr_reachable_inv_but[OF assms(1)] assms(2) have "ch_status c \<noteq> HalfOpen"
    by (simp add: mgr_inv_but_def stored_but_def)
  moreover from this assms(2)
  have "map_option ch_status (manager_get (manager_record_latency m now i l) i) = Some (ch_status c)"
    by (simp add: manager_record_latency_def mgr.lookup_modify recover_to_healthy_def)
  ultimately show ?thesis ..
qed

lemma success_never_closes_circuit_witness:
  "map_option ch_status (manager_get (manager_record_latency example_open 10 7 42) 7) =
     Some CircuitOpen"
proof -
  obtain c where "manager_get example_open 7 = Some c" "ch_status c = CircuitOpen"
    using example_open_get by blast
  with success_never_closes_circuit[OF example_open_reachable this(1)] show ?thesis by simp
qed

text \<open>C31: the circuit opened after \<open>n\<close> consecutive failures lasts \<open>base * 2 ^ (n - 1)\<close> minutes,
  capped at thirty: the saturating 32-bit arithmetic computes the mathematical value.\<close>

theorem backoff_doubles_capped:
  assumes "manager_get m i = Some c" "\<not> mgr_disable_cooling m"
    and "ch_cooldown_minutes c = Some base" "unat base < 2 ^ 32"
    and "ch_consecutive_failures c \<noteq> u32_max"
  shows "\<exists>c'. manager_get (manager_mark_circuit_open m now i) i = Some c'
     \<and> ch_status c' = CircuitOpen
     \<and> ch_circuit_open_until c' =
         Some (now + int (min 30 (unat base * 2 ^ unat (ch_consecutive_failures c))) * 60000000000)"
proof -
  let ?f = "ch_consecutive_failures c"
  have f: "unat (?f + 1) = unat ?f + 1"
    using assms(5) by (rule unat_plus_one)
  have u: "unat (backoff_minutes base (?f + 1)) = min 30 (unat base * 2 ^ unat ?f)"
    using unat_backoff[OF assms(4), of "?f + 1"] f by simp
  have "chrono_minutes (backoff_minutes base (?f + 1)) =
      int (min 30 (unat base * 2 ^ unat ?f)) * 60000000000"
    by (subst chrono_minutes_small) (simp_all add: u del: of_nat_unat)
  then show ?thesis
    using assms(1,2,3)
    by (simp add: manager_mark_circuit_open_def mgr.lookup_modify Let_def mark_open_until backoff_at_most_30)
qed

lemma backoff_doubles_capped_witness:
  "\<exists>c'. manager_get (manager_mark_circuit_open (manager_new
          [(example_channel 7)\<lparr>ch_cooldown_minutes := Some 5, ch_consecutive_failures := 2\<rparr>] 1 False) 0 7) 7
        = Some c' \<and> ch_circuit_open_until c' = Some (20 * 60000000000)"
proof -
  let ?c = "(example_channel 7)\<lparr>ch_cooldown_minutes := Some 5, ch_consecutive_failures := 2\<rparr>"
  let ?m = "manager_new [?c] 1 False"
  have "manager_get ?m 7 = Some ?c" "\<not> mgr_disable_cooling ?m"
    by (simp_all add: manager_get_def manager_new_def example_channel_def)
  from backoff_doubles_capped[OF this, of 5 0] show ?thesis by auto
qed

text \<open>While the key list of a channel does not change, \<open>n\<close> credential lookups hand out the
  primary key and the rotation keys strictly round-robin, starting at the current counter.\<close>

theorem credential_round_robin:
  assumes "rotating m i ks" "rotation_index m i < length ks"
  shows "snd (credential_calls g m i n) =
    map (\<lambda>j. Cred (Some (ks ! ((rotation_index m i + j) mod length ks)))) [0..<n]"
  using assms by (rule credential_calls_rotate)

lemma credential_round_robin_witness:
  "snd (credential_calls (\<lambda>_ _. None)
     (manager_new [(example_channel 7)\<lparr>ch_api_keys := [''k1'']\<rparr>] 5 False) 7 3) =
   [Cred (Some ''k0''), Cred (Some ''k1''), Cred (Some ''k0'')]"
proof -
  let ?m = "manager_new [(example_channel 7)\<lparr>ch_api_keys := [''k1'']\<rparr>] 5 False"
  have "rotating ?m 7 [''k0'', ''k1'']"
    by (simp add: rotating_def manager_get_def manager_new_def example_channel_def
        example_credential_def all_keys_def)
  moreover have i: "rotation_index ?m 7 = 0" by (simp add: rotation_index_def manager_new_def)
  ultimately show ?thesis
    using credential_round_robin[of ?m 7 "[''k0'', ''k1'']" "\<lambda>_ _. None" 3]
    by (simp add: upt_rec numeral_nat)
qed

text \<open>The rotation counter is not reset when the key list shrinks, so a reachable sequence of
  two lookups, an edit that removes rotation keys and a third lookup panics on an index out of
  bounds.\<close>

theorem credential_panics_after_shrink:
  "let c = (example_channel 7)\<lparr>ch_api_keys := [''k1'', ''k2'']\<rparr>;
       m0 = manager_new [c] 5 False;
       m1 = fst (get_credential g m0 7);
       m2 = fst (get_credential g m1 7);
       m3 = fst (manager_update m2 7 (c\<lparr>ch_api_keys := [''k1'']\<rparr>))
   in snd (get_credential g m3 7) = CredPanic"
  by code_simp

text \<open>Persisting a channel and loading it again keeps its whole configuration; only the runtime
  state starts afresh. \<open>uuid_to_string\<close> and \<open>parse_uuid\<close> are the printer and the parser of the uuid
  crate, which are inverse on the channel's id.\<close>

theorem persist_reload_roundtrip:
  assumes "parse_uuid (uuid_to_string (ch_id c)) = Some (ch_id c)"
    and "provider_from_str (provider_as_str (ch_provider c)) = ch_provider c"
  shows "channel_from_config parse_uuid fresh now (channel_to_config uuid_to_string c) =
    c\<lparr>ch_credential := (ch_credential c)\<lparr>cred_expires_at := None\<rparr>,
      ch_status := Healthy, ch_circuit_open_until := None, ch_created_at := now,
      ch_updated_at := now, ch_avg_latency_ms := 0, ch_consecutive_failures := 0,
      ch_model_cooldowns := []\<rparr>"
  using assms
  by (cases "cred_type (ch_credential c)")
    (simp_all add: channel_from_config_def channel_to_config_def)

lemma persist_reload_roundtrip_witness:
  "channel_from_config (\<lambda>_. Some 7) 9 5 (channel_to_config (\<lambda>_. ''id'') (example_channel 7)) =
     (example_channel 7)\<lparr>ch_created_at := 5, ch_updated_at := 5\<rparr>"
proof -
  have "provider_from_str (provider_as_str OpenAI) = OpenAI" by code_simp
  then show ?thesis
    using persist_reload_roundtrip[of "\<lambda>_. Some 7" "\<lambda>_. ''id''" "example_channel 7" 9 5]
    by (simp add: example_channel_def example_credential_def)
qed

end
