(* ===== verification/Router.thy ===== *)
theory Router
  imports Strategy Channel_Manager
begin

text \<open>
  Channel selection (\<open>router/mod.rs\<close>, \<open>select_channel\<close>): filter the stored channels, sort the
  survivors by priority and health, and let the strategy choose within the best priority that has
  a candidate. The scan over the priorities is proved against the interface of a strategy.
\<close>

record routing_context =
  rc_active_requests :: active_requests
  rc_rate_limiter :: rate_limiter
  rc_latency_tracker :: latency_tracker
  rc_cooldown_tracker :: cooldown_tracker

text \<open>\<open>now\<close> is the wall clock of the channel fields, \<open>inst\<close> the monotonic clock of the trackers.\<close>

definition routable :: "routing_context \<Rightarrow> utc \<Rightarrow> instant \<Rightarrow> string \<Rightarrow> string option \<Rightarrow> channel \<Rightarrow> bool" where
  "routable ctx now inst requested_model account_group c \<longleftrightarrow>
     is_available c now
     \<and> (case account_group of
          Some tag \<Rightarrow> ch_account_group c = Some tag \<or> ch_account_group c = None | None \<Rightarrow> True)
     \<and> (case ch_max_concurrent c of
          Some m \<Rightarrow> ar_get (rc_active_requests ctx) (ch_id c) < m | None \<Rightarrow> True)
     \<and> (ch_model_mapping c = [] \<or> hm_contains (ch_model_mapping c) requested_model)
     \<and> \<not> is_model_excluded c requested_model
     \<and> \<not> is_model_in_cooldown c now requested_model
     \<and> \<not> is_in_cooldown (rc_cooldown_tracker ctx) inst (ch_id c)"

definition flush :: "(channel list \<Rightarrow> channel option) \<Rightarrow> channel list \<Rightarrow> channel list \<Rightarrow> channel option" where
  "flush select healthy halfopen =
     (case (if healthy \<noteq> [] then select healthy else None) of
        Some selected \<Rightarrow> Some selected
      | None \<Rightarrow> if halfopen \<noteq> [] then select halfopen else None)"

fun scan_priorities ::
  "(channel list \<Rightarrow> channel option) \<Rightarrow> u8 \<Rightarrow> channel list \<Rightarrow> channel list \<Rightarrow> channel list \<Rightarrow> channel option" where
  "scan_priorities select current healthy halfopen [] = flush select healthy halfopen"
| "scan_priorities select current healthy halfopen (ch # rest) =
     (let push = (\<lambda>p h ho. if ch_status ch = HalfOpen then scan_priorities select p h (ho @ [ch]) rest
                          else scan_priorities select p (h @ [ch]) ho rest)
      in if ch_priority ch \<noteq> current then
           (case flush select healthy halfopen of
              Some selected \<Rightarrow> Some selected
            | None \<Rightarrow> push (ch_priority ch) [] [])
         else push current healthy halfopen)"

definition strategy_select ::
  "routing_context \<Rightarrow> instant \<Rightarrow> routing_strategy_type \<Rightarrow> nat \<Rightarrow> channel list \<Rightarrow> channel option" where
  "strategy_select ctx inst st draw =
     (case st of
        Latency \<Rightarrow> latency_select (rc_latency_tracker ctx) draw
      | LeastBusy \<Rightarrow> least_busy_select (rc_active_requests ctx) draw
      | Usage \<Rightarrow> usage_select (rc_rate_limiter ctx) inst draw
      | LowestCost \<Rightarrow> lowest_cost_select draw
      | WeightedRandom \<Rightarrow> weighted_random draw)"

definition routing_key :: "channel \<Rightarrow> u8 \<times> bool" where
  "routing_key c = (ch_priority c, ch_status c \<noteq> Healthy)"

definition routing_candidates ::
  "manager \<Rightarrow> routing_context \<Rightarrow> utc \<Rightarrow> instant \<Rightarrow> string \<Rightarrow> string option \<Rightarrow> channel list" where
  "routing_candidates m ctx now inst requested_model account_group =
     map (\<lambda>c. recover_if_expired c now)
       (filter (routable ctx now inst requested_model account_group) (hm_values (mgr_channels m)))"

definition select_channel ::
  "manager \<Rightarrow> string \<Rightarrow> routing_strategy_type \<Rightarrow> routing_context \<Rightarrow> string option
     \<Rightarrow> utc \<Rightarrow> instant \<Rightarrow> nat \<Rightarrow> channel option" where
  "select_channel m requested_model st ctx account_group now inst draw =
     (let candidates = routing_candidates m ctx now inst requested_model account_group
      in if candidates = [] then None
         else scan_priorities (strategy_select ctx inst st draw) 0 [] [] (sort_key routing_key candidates))"

text \<open>Who may serve a request, stated on the stored channel and without the code's helpers: an
  excluded model is one that a pattern denotes, a circuit must be closed or past its end.\<close>

definition may_serve ::
  "routing_context \<Rightarrow> utc \<Rightarrow> instant \<Rightarrow> string \<Rightarrow> string option \<Rightarrow> channel \<Rightarrow> bool" where
  "may_serve ctx now inst model account_group s \<longleftrightarrow>
     ch_enabled s \<and> ch_status s \<noteq> Disabled
     \<and> (ch_status s = CircuitOpen \<longrightarrow> (\<exists>u. ch_circuit_open_until s = Some u \<and> u \<le> now))
     \<and> (\<forall>tag g. account_group = Some tag \<and> ch_account_group s = Some g \<longrightarrow> g = tag)
     \<and> (\<forall>n. ch_max_concurrent s = Some n \<longrightarrow> ar_get (rc_active_requests ctx) (ch_id s) < n)
     \<and> (ch_model_mapping s = [] \<or> model \<in> fst ` set (ch_model_mapping s))
     \<and> (\<forall>p \<in> set (ch_excluded_models s). model \<notin> glob_lang p)
     \<and> (\<forall>e. hm_get (ch_model_cooldowns s) model = Some e \<longrightarrow> e \<le> now)
     \<and> (\<forall>e. hm_get (cd_cooldowns (rc_cooldown_tracker ctx)) (ch_id s) = Some e \<longrightarrow> e \<le> inst)"

section \<open>The scan, for any strategy\<close>

abbreviation group_healthy :: "u8 \<Rightarrow> channel list \<Rightarrow> channel list" where
  "group_healthy p cs \<equiv> filter (\<lambda>c. ch_priority c = p \<and> ch_status c \<noteq> HalfOpen) cs"

abbreviation group_halfopen :: "u8 \<Rightarrow> channel list \<Rightarrow> channel list" where
  "group_halfopen p cs \<equiv> filter (\<lambda>c. ch_priority c = p \<and> ch_status c = HalfOpen) cs"

context routing_strategy
begin

lemma flush_some: "h \<noteq> [] \<or> ho \<noteq> [] \<Longrightarrow> \<exists>c. flush select h ho = Some c \<and> c \<in> set (if h \<noteq> [] then h else ho)"
  using select_nonempty[of h] select_nonempty[of ho] by (auto simp: flush_def)

lemma scan_group:
  assumes "h \<noteq> [] \<or> ho \<noteq> []" "sorted (map ch_priority cs)" "\<forall>c \<in> set cs. p \<le> ch_priority c"
  shows "scan_priorities select p h ho cs = flush select (h @ group_healthy p cs) (ho @ group_halfopen p cs)"
  using assms
proof (induction cs arbitrary: h ho)
  case (Cons c cs)
  show ?case
  proof (cases "ch_priority c = p")
    case True
    then show ?thesis using Cons by (simp add: Let_def)
  next
    case False
    with Cons.prems have "\<forall>d \<in> set (c # cs). ch_priority d \<noteq> p" by auto
    then have "group_healthy p (c # cs) = []" "group_halfopen p (c # cs) = []"
      by (auto simp: filter_empty_conv)
    with False flush_some[OF Cons.prems(1)] show ?thesis by (auto simp: Let_def)
  qed
qed simp

text \<open>From the start the scan settles on the group of the first channel.\<close>

lemma scan_start:
  assumes "sorted (map ch_priority (c # cs))"
  shows "scan_priorities select 0 [] [] (c # cs) =
    flush select (group_healthy (ch_priority c) (c # cs)) (group_halfopen (ch_priority c) (c # cs))"
proof -
  have "scan_priorities select 0 [] [] (c # cs) =
      (if ch_status c = HalfOpen then scan_priorities select (ch_priority c) [] [c] cs
       else scan_priorities select (ch_priority c) [c] [] cs)"
    by (auto simp: Let_def flush_def)
  also have "\<dots> = flush select (group_healthy (ch_priority c) (c # cs)) (group_halfopen (ch_priority c) (c # cs))"
    using assms by (simp add: scan_group)
  finally show ?thesis .
qed

lemma scan_best:
  assumes "sorted (map ch_priority cs)" "cs \<noteq> []"
  shows "\<exists>c \<in> set cs. scan_priorities select 0 [] [] cs = Some c
    \<and> (\<forall>d \<in> set cs. ch_priority c \<le> ch_priority d)
    \<and> (ch_status c = HalfOpen \<longrightarrow> (\<forall>d \<in> set cs. ch_priority d = ch_priority c \<longrightarrow> ch_status d = HalfOpen))"
proof -
  obtain x xs where cs: "cs = x # xs" using assms(2) by (cases cs) auto
  let ?p = "ch_priority x"
  let ?h = "group_healthy ?p cs" and ?ho = "group_halfopen ?p cs"
  have "?h \<noteq> [] \<or> ?ho \<noteq> []" by (simp add: cs)
  from flush_some[OF this] obtain c where c: "flush select ?h ?ho = Some c"
    "c \<in> set (if ?h \<noteq> [] then ?h else ?ho)" by blast
  have "scan_priorities select 0 [] [] cs = Some c" using scan_start[of x xs] assms(1) c(1) by (simp add: cs)
  moreover have "c \<in> set cs" "ch_priority c = ?p" using c(2) by (auto split: if_splits)
  moreover have "\<forall>d \<in> set cs. ?p \<le> ch_priority d" using assms(1) by (auto simp: cs)
  moreover have "\<forall>d \<in> set cs. ch_priority d = ?p \<longrightarrow> ch_status d = HalfOpen" if "ch_status c = HalfOpen"
    using c(2) that by (auto simp: filter_empty_conv split: if_splits)
  ultimately show ?thesis by metis
qed

end

section \<open>The strategies of the router\<close>

interpretation chosen: routing_strategy "strategy_select ctx inst st draw"
  by (cases st) (simp_all add: strategy_select_def weighted.routing_strategy_axioms
      latency.routing_strategy_axioms least_busy.routing_strategy_axioms
      lowest_cost.routing_strategy_axioms usage.routing_strategy_axioms)

lemma routing_key_sorted: "sorted (map ch_priority (sort_key routing_key cs))"
proof -
  have "sorted (map routing_key (sort_key routing_key cs))" by simp
  then have "sorted (map fst (map routing_key (sort_key routing_key cs)))"
    by (auto simp: sorted_map sorted_wrt_map less_eq_prod_def routing_key_def elim!: sorted_wrt_mono_rel[rotated])
  then show ?thesis by (simp add: routing_key_def comp_def)
qed

definition example_context :: routing_context where
  "example_context = \<lparr>rc_active_requests = ar_new, rc_rate_limiter = rl_new None False 0,
     rc_latency_tracker = [], rc_cooldown_tracker = cooldown_new\<rparr>"

lemma routable_iff_may_serve: "routable ctx now inst model ag s \<longleftrightarrow> may_serve ctx now inst model ag s"
proof -
  have glob: "is_model_excluded s model \<longleftrightarrow> (\<exists>p \<in> set (ch_excluded_models s). model \<in> glob_lang p)"
    by (auto simp: is_model_excluded_def list_ex_iff matches_glob_def match_helper_lang)
  have avail: "is_available s now \<longleftrightarrow> ch_enabled s \<and> ch_status s \<noteq> Disabled
      \<and> (ch_status s = CircuitOpen \<longrightarrow> (\<exists>u. ch_circuit_open_until s = Some u \<and> u \<le> now))"
    by (auto simp: is_available_def split: option.splits)
  have mapped: "hm_contains (ch_model_mapping s) model \<longleftrightarrow> model \<in> fst ` set (ch_model_mapping s)"
    by (simp add: hm_contains_def map_of_eq_None_iff)
  have cooled: "\<not> is_model_in_cooldown s now model \<longleftrightarrow>
      (\<forall>e. hm_get (ch_model_cooldowns s) model = Some e \<longrightarrow> e \<le> now)"
    by (auto simp: is_model_in_cooldown_def split: option.splits)
  have failing: "\<not> is_in_cooldown (rc_cooldown_tracker ctx) inst (ch_id s) \<longleftrightarrow>
      (\<forall>e. hm_get (cd_cooldowns (rc_cooldown_tracker ctx)) (ch_id s) = Some e \<longrightarrow> e \<le> inst)"
    by (auto simp: is_in_cooldown_def split: option.splits)
  have grouped: "(case ag of Some tag \<Rightarrow> ch_account_group s = Some tag \<or> ch_account_group s = None
        | None \<Rightarrow> True) \<longleftrightarrow> (\<forall>tag g. ag = Some tag \<and> ch_account_group s = Some g \<longrightarrow> g = tag)"
    by (auto split: option.splits)
  have room: "(case ch_max_concurrent s of Some n \<Rightarrow> ar_get (rc_active_requests ctx) (ch_id s) < n
        | None \<Rightarrow> True) \<longleftrightarrow>
      (\<forall>n. ch_max_concurrent s = Some n \<longrightarrow> ar_get (rc_active_requests ctx) (ch_id s) < n)"
    by (auto split: option.splits)
  show ?thesis
    unfolding routable_def may_serve_def avail glob mapped cooled failing grouped room by blast
qed

lemma set_routing_candidates:
  "set (routing_candidates m ctx now inst model ag) =
     (\<lambda>s. recover_if_expired s now) `
       {s \<in> set (hm_values (mgr_channels m)). may_serve ctx now inst model ag s}"
  by (simp add: routing_candidates_def routable_iff_may_serve)

lemma select_channel_scan:
  "case select_channel m model st ctx ag now inst draw of
     None \<Rightarrow> routing_candidates m ctx now inst model ag = []
   | Some c \<Rightarrow> c \<in> set (routing_candidates m ctx now inst model ag)
       \<and> (\<forall>d \<in> set (routing_candidates m ctx now inst model ag).
            ch_priority c \<le> ch_priority d
            \<and> (ch_status c = HalfOpen \<and> ch_priority d = ch_priority c \<longrightarrow> ch_status d = HalfOpen))"
proof -
  let ?cs = "routing_candidates m ctx now inst model ag"
  show ?thesis
  proof (cases "?cs = []")
    case True
    then show ?thesis by (simp add: select_channel_def)
  next
    case False
    with chosen.scan_best[OF routing_key_sorted[of ?cs], of ctx inst st draw] show ?thesis
      by (auto simp: select_channel_def Let_def)
  qed
qed

text \<open>C4: the router returns no channel exactly when no stored channel may serve the request.
  Otherwise, for every strategy and every random draw, it returns the recovered clone of a stored
  channel that may serve it, of the best priority among all that may, and a half-open probe only if
  every eligible channel of that priority is one.\<close>

theorem select_channel_best:
  "case select_channel m model st ctx account_group now inst draw of
     None \<Rightarrow> \<not> (\<exists>s \<in> set (hm_values (mgr_channels m)). may_serve ctx now inst model account_group s)
   | Some c \<Rightarrow>
       (\<exists>s \<in> set (hm_values (mgr_channels m)).
          may_serve ctx now inst model account_group s \<and> c = recover_if_expired s now)
       \<and> ch_status c \<in> {Healthy, HalfOpen}
       \<and> (\<forall>d \<in> set (hm_values (mgr_channels m)).
            may_serve ctx now inst model account_group d \<longrightarrow>
              ch_priority c \<le> ch_priority d
              \<and> (ch_status c = HalfOpen \<and> ch_priority d = ch_priority c
                   \<longrightarrow> ch_status (recover_if_expired d now) = HalfOpen))"
proof (cases "select_channel m model st ctx account_group now inst draw")
  case None
  with select_channel_scan[where m = m and model = model and st = st and ctx = ctx and ag = account_group
      and now = now and inst = inst and draw = draw]
    set_routing_candidates[of m ctx now inst model account_group]
  show ?thesis by auto
next
  case (Some c)
  note scan = select_channel_scan[where m = m and model = model and st = st and ctx = ctx and ag = account_group
      and now = now and inst = inst and draw = draw, unfolded Some,
      simplified, unfolded set_routing_candidates]
  then obtain s where s: "s \<in> set (hm_values (mgr_channels m))"
    "may_serve ctx now inst model account_group s" "c = recover_if_expired s now" by blast
  then have "is_available s now" by (simp add: routable_def flip: routable_iff_may_serve)
  then have "ch_status c \<in> {Healthy, HalfOpen}" unfolding s(3) by (rule available_recover_status)
  with s scan Some show ?thesis by (auto simp: image_iff)
qed

lemma example_may_serve: "may_serve example_context 0 0 ''m'' None (example_channel 1)"
  by (simp add: may_serve_def example_channel_def example_context_def cooldown_new_def)

lemma select_channel_best_witness:
  "\<exists>c. select_channel (manager_new [example_channel 1] 5 False) ''m'' WeightedRandom example_context
        None 0 0 3 = Some c \<and> ch_id c = 1"
  using select_channel_best[where m = "manager_new [example_channel 1] 5 False" and
      model = "''m''" and st = WeightedRandom and ctx = example_context and
      account_group = None and now = 0 and inst = 0 and draw = 3] example_may_serve
  by (auto simp: manager_new_def hm_values_def split: option.splits) (simp_all add: example_channel_def)

end
