(* ===== verification/Json.thy ===== *)
theory Json
  imports Float64
begin

text \<open>
  The part of \<open>serde_json::Value\<close> the gateway uses. Objects are association lists with distinct
  keys; the crate does not enable \<open>preserve_order\<close>, so no code relies on their order.
\<close>

datatype json = JNull | JBool bool | JInt int | JFloat f64 | JStr string
  | JArr "json list" | JObj "(string \<times> json) list"

definition json_get :: "json \<Rightarrow> string \<Rightarrow> json option" where
  "json_get v k = (case v of JObj m \<Rightarrow> hm_get m k | _ \<Rightarrow> None)"

definition json_as_str :: "json \<Rightarrow> string option" where
  "json_as_str v = (case v of JStr s \<Rightarrow> Some s | _ \<Rightarrow> None)"

definition json_as_array :: "json \<Rightarrow> json list option" where
  "json_as_array v = (case v of JArr xs \<Rightarrow> Some xs | _ \<Rightarrow> None)"

definition json_as_object :: "json \<Rightarrow> (string \<times> json) list option" where
  "json_as_object v = (case v of JObj m \<Rightarrow> Some m | _ \<Rightarrow> None)"

definition json_as_bool :: "json \<Rightarrow> bool option" where
  "json_as_bool v = (case v of JBool b \<Rightarrow> Some b | _ \<Rightarrow> None)"

text \<open>\<open>as_u64\<close> succeeds on integers in the range of \<open>u64\<close> and never on floats.\<close>

definition json_as_u64 :: "json \<Rightarrow> u64 option" where
  "json_as_u64 v = (case v of JInt n \<Rightarrow> if 0 \<le> n \<and> n < 2 ^ 64 then Some (of_int n) else None | _ \<Rightarrow> None)"

definition json_is_object :: "json \<Rightarrow> bool" where
  "json_is_object v = (case v of JObj _ \<Rightarrow> True | _ \<Rightarrow> False)"

text \<open>\<open>body.get(k).and_then(Value::as_str)\<close> and its like.\<close>

abbreviation json_get_str :: "json \<Rightarrow> string \<Rightarrow> string option" where
  "json_get_str v k \<equiv> Option.bind (json_get v k) json_as_str"

abbreviation json_get_u64 :: "json \<Rightarrow> string \<Rightarrow> u64 option" where
  "json_get_u64 v k \<equiv> Option.bind (json_get v k) json_as_u64"

lemma json_get_JObj [simp]: "json_get (JObj m) k = hm_get m k"
  by (simp add: json_get_def)

lemma json_get_not_object: "\<not> json_is_object v \<Longrightarrow> json_get v k = None"
  by (simp add: json_get_def json_is_object_def split: json.splits)

end
