(* ===== verification/Affinity.thy ===== *)
theory Affinity
  imports Json "HOL-Library.Multiset"
begin

text \<open>
  Session affinity (\<open>router/affinity.rs\<close>): the bounded session map with expiry and least recently
  used eviction, and the extraction of a session id from a request. The SHA-256 digest and the JSON
  printer are arguments.
\<close>

definition AFFINITY_MAX_ENTRIES :: nat where "AFFINITY_MAX_ENTRIES = 10000"
definition CLEANUP_INTERVAL :: u32 where "CLEANUP_INTERVAL = 64"

record affinity =
  af_map :: "(string, uuid \<times> instant) hashmap"
  af_ttl :: nat
  af_max_entries :: nat
  af_set_counter :: u32

definition affinity_with_options :: "nat \<Rightarrow> nat \<Rightarrow> affinity" where
  "affinity_with_options ttl max_entries =
     \<lparr>af_map = [], af_ttl = ttl, af_max_entries = max_entries, af_set_counter = 0\<rparr>"

definition affinity_new :: "u64 \<Rightarrow> affinity" where
  "affinity_new ttl_secs = affinity_with_options (unat ttl_secs * 10 ^ 9) AFFINITY_MAX_ENTRIES"

definition affinity_get :: "affinity \<Rightarrow> instant \<Rightarrow> string \<Rightarrow> affinity \<times> uuid option" where
  "affinity_get a now s =
     (let is_expired = (case hm_get (af_map a) s of
                          Some (_, t) \<Rightarrow> af_ttl a \<le> now - t | None \<Rightarrow> True)
      in if is_expired then (a\<lparr>af_map := hm_remove s (af_map a)\<rparr>, None)
         else (case hm_get (af_map a) s of
                 Some (ch, _) \<Rightarrow> (a\<lparr>af_map := hm_insert s (ch, now) (af_map a)\<rparr>, Some ch)
               | None \<Rightarrow> (a, None)))"

definition affinity_cleanup :: "affinity \<Rightarrow> instant \<Rightarrow> affinity" where
  "affinity_cleanup a now =
     a\<lparr>af_map := hm_retain (\<lambda>_ (_, t). now - t < af_ttl a) (af_map a)\<rparr>"

definition lru_excess :: "affinity \<Rightarrow> string list" where
  "lru_excess a = map fst (take (length (af_map a) - af_max_entries a)
     (sort_key snd (map (\<lambda>(k, (_, t)). (k, t)) (af_map a))))"

definition evict_lru :: "affinity \<Rightarrow> affinity" where
  "evict_lru a =
     (if length (af_map a) \<le> af_max_entries a then a
      else a\<lparr>af_map := fold hm_remove (lru_excess a) (af_map a)\<rparr>)"

definition affinity_set :: "affinity \<Rightarrow> instant \<Rightarrow> string \<Rightarrow> uuid \<Rightarrow> affinity" where
  "affinity_set a now s ch =
     (let a = a\<lparr>af_map := hm_insert s (ch, now) (af_map a), af_set_counter := af_set_counter a + 1\<rparr>;
          a = (if af_set_counter a mod CLEANUP_INTERVAL = 0 then affinity_cleanup a now else a)
      in evict_lru a)"

definition affinity_len :: "affinity \<Rightarrow> nat" where
  "affinity_len a = length (af_map a)"

text \<open>\<open>digest\<close> is \<open>sha256_short\<close>, \<open>print\<close> is \<open>serde_json::to_string\<close> on a list of values; a header
  lookup is case-insensitive and gives \<open>None\<close> for values that are not text.\<close>

definition session_headers :: "string list" where
  "session_headers = [''x-session-id'', ''session_id'', ''x-amp-thread-id'', ''x-client-request-id'']"

definition first_nonempty :: "string option list \<Rightarrow> string option" where
  "first_nonempty xs = (case filter (\<lambda>x. x \<noteq> None \<and> x \<noteq> Some []) xs of [] \<Rightarrow> None | x # _ \<Rightarrow> x)"

definition extract_session_id ::
  "(string \<Rightarrow> string) \<Rightarrow> (json list \<Rightarrow> string) \<Rightarrow> (string \<Rightarrow> string option) \<Rightarrow> json \<Rightarrow> string option" where
  "extract_session_id digest print header body =
     (case first_nonempty [Option.bind (json_get body ''metadata'') (\<lambda>m. json_get_str m ''user_id'')] of
        Some uid \<Rightarrow> Some (''uid:'' @ uid)
      | None \<Rightarrow>
     (case first_nonempty (map header session_headers) of
        Some val \<Rightarrow> Some (''hdr:'' @ val)
      | None \<Rightarrow>
     (case first_nonempty [json_get_str body ''conversation_id''] of
        Some cid \<Rightarrow> Some (''cid:'' @ cid)
      | None \<Rightarrow>
     (case Option.bind (json_get body ''messages'') json_as_array of
        Some messages \<Rightarrow>
          if take 2 messages \<noteq> [] then Some (''msg:'' @ digest (print (take 2 messages))) else None
      | None \<Rightarrow> None))))"

section \<open>Eviction\<close>

definition affinity_ok :: "affinity \<Rightarrow> bool" where
  "affinity_ok a \<longleftrightarrow> hm_ok (af_map a) \<and> length (af_map a) \<le> af_max_entries a"

lemma fold_hm_remove: "fold hm_remove ks m = filter (\<lambda>(k, v). k \<notin> set ks) m"
proof (induction ks arbitrary: m)
  case Nil
  then show ?case by (simp add: case_prod_unfold)
next
  case (Cons k ks)
  have "hm_remove k m = filter (\<lambda>(k', v). k' \<noteq> k) m"
    by (induction m) auto
  with Cons show ?case by (simp add: case_prod_unfold conj_commute)
qed

lemma length_filter_keys:
  assumes "hm_ok m" "distinct ks" "set ks \<subseteq> fst ` set m"
  shows "length (filter (\<lambda>(k, v). k \<notin> set ks) m) = length m - length ks"
proof -
  let ?in = "filter (\<lambda>(k, v). k \<in> set ks) m"
  have "distinct (map fst ?in)" using assms(1) by (simp add: hm_ok_def distinct_map_filter)
  then have "length ?in = card (fst ` set ?in)" by (metis distinct_card length_map set_map)
  also have "fst ` set ?in = set ks" using assms(3) by force
  finally have "length ?in = length ks" using assms(2) by (simp add: distinct_card)
  with sum_length_filter_compl[of "\<lambda>(k, v). k \<in> set ks" m] show ?thesis
    by (simp add: case_prod_unfold)
qed

lemma lru_keys:
  assumes "hm_ok (af_map a)"
  shows "distinct (lru_excess a)" "set (lru_excess a) \<subseteq> fst ` set (af_map a)"
    "length (lru_excess a) = length (af_map a) - af_max_entries a"
proof -
  let ?e = "map (\<lambda>(k, (_, t)). (k, t)) (af_map a)"
  have f: "map fst ?e = map fst (af_map a)" by (induction "af_map a") auto
  have "distinct (map fst (sort_key snd ?e))"
  proof -
    have "mset (map fst (sort_key snd ?e)) = mset (map fst ?e)" by (simp only: mset_map mset_sort)
    then have "distinct (map fst (sort_key snd ?e)) = distinct (map fst ?e)"
      by (rule mset_eq_imp_distinct_iff)
    with assms f show ?thesis by (simp only: hm_ok_def)
  qed
  then show "distinct (lru_excess a)" by (simp add: lru_excess_def take_map[symmetric])
  show "set (lru_excess a) \<subseteq> fst ` set (af_map a)"
    by (force simp: lru_excess_def dest: set_take_sort_key)
  show "length (lru_excess a) = length (af_map a) - af_max_entries a"
    by (simp add: lru_excess_def)
qed

lemma evict_lru_ok:
  assumes "hm_ok (af_map a)"
  shows "affinity_ok (evict_lru a)"
  using lru_keys[OF assms] length_filter_keys[OF assms] assms
  by (auto simp: affinity_ok_def evict_lru_def fold_remove_ok)
    (simp add: fold_hm_remove)

lemma affinity_set_ok: "affinity_ok a \<Longrightarrow> affinity_ok (affinity_set a now s ch)"
  unfolding affinity_set_def Let_def
  by (rule evict_lru_ok) (simp add: affinity_ok_def affinity_cleanup_def)

lemma length_hm_remove_le: "length (hm_remove k m) \<le> length m"
  by (simp add: length_delete_le)

lemma affinity_get_ok: "affinity_ok a \<Longrightarrow> affinity_ok (fst (affinity_get a now s))"
  using length_hm_remove_le[of s "af_map a"]
  by (auto simp: affinity_get_def affinity_ok_def Let_def length_hm_insert hm_contains_def
      split: option.splits)

lemma affinity_cleanup_ok: "affinity_ok a \<Longrightarrow> affinity_ok (affinity_cleanup a now)"
  by (auto simp: affinity_ok_def affinity_cleanup_def hm_retain_def[of _ "af_map a"] intro: order_trans[OF length_filter_le])
    (simp add: hm_retain_def[symmetric])

section \<open>Which entries go\<close>

lemma sorted_take_drop_le:
  assumes "sorted (map f xs)" "x \<in> set (take n xs)" "y \<in> set (drop n xs)"
  shows "f x \<le> f y"
proof -
  have "sorted (map f (take n xs) @ map f (drop n xs))"
    using assms(1) by (metis append_take_drop_id map_append)
  with assms(2,3) show ?thesis by (simp add: sorted_append)
qed

text \<open>An evicted entry was used no later than any entry that stays.\<close>

lemma evicted_older:
  assumes "hm_ok (af_map a)" "(k, c, t) \<in> set (af_map a)" "k \<in> set (lru_excess a)"
    and "(k', c', t') \<in> set (af_map a)" "k' \<notin> set (lru_excess a)"
  shows "t \<le> t'"
proof -
  let ?e = "map (\<lambda>(k, (_, t)). (k, t)) (af_map a)" and ?n = "length (af_map a) - af_max_entries a"
  let ?s = "sort_key snd ?e"
  from assms(3) obtain u where u: "(k, u) \<in> set (take ?n ?s)" by (auto simp: lru_excess_def)
  then have "(k, u) \<in> set ?e" by (rule set_take_sort_key)
  then obtain d where "(k, d, u) \<in> set (af_map a)" by auto
  with assms(1,2) have "u = t"
    by (metis hm_get_iff option.inject prod.inject)
  moreover have "(k', t') \<in> set ?s" using assms(4) by force
  then have "(k', t') \<in> set (take ?n ?s) \<or> (k', t') \<in> set (drop ?n ?s)"
    by (metis Un_iff append_take_drop_id set_append)
  then have "(k', t') \<in> set (drop ?n ?s)" using assms(5) by (force simp: lru_excess_def)
  ultimately show ?thesis
    using u sorted_take_drop_le[of snd ?s "(k, u)" ?n "(k', t')"] by (simp add: sorted_sort_key)
qed

lemma evict_get:
  "hm_get (af_map (evict_lru a)) k =
     (if af_max_entries a < length (af_map a) \<and> k \<in> set (lru_excess a) then None
      else hm_get (af_map a) k)"
proof -
  have "hm_get (filter (\<lambda>(k, v). k \<notin> K) m) k = (if k \<in> K then None else hm_get m k)"
    for K and m :: "(string, uuid \<times> instant) hashmap"
    by (induction m) auto
  then show ?thesis by (auto simp: evict_lru_def fold_hm_remove)
qed

lemma hm_get_insert_mem: "hm_ok m \<Longrightarrow> (k', v') \<in> set (hm_insert k v m) \<Longrightarrow>
    (k' = k \<and> v' = v) \<or> (k' \<noteq> k \<and> (k', v') \<in> set m)"
  using hm_get_iff[of "hm_insert k v m" k' v'] hm_get_iff[of m k' v']
  by (auto split: if_splits)

text \<open>The entry just written is the most recent one and there is at most one entry too many, so
  the eviction spares it.\<close>

lemma evict_spares_newest:
  assumes ok: "hm_ok (af_map a)" and len: "length (af_map a) \<le> Suc (af_max_entries a)"
    and pos: "0 < af_max_entries a" and mem: "(k, c, now) \<in> set (af_map a)"
    and newest: "\<And>k' c' t. (k', c', t) \<in> set (af_map a) \<Longrightarrow> k' \<noteq> k \<Longrightarrow> t < now"
  shows "hm_get (af_map (evict_lru a)) k = Some (c, now)"
proof -
  have get: "hm_get (af_map a) k = Some (c, now)" using ok mem by (simp add: hm_get_iff)
  show ?thesis
  proof (cases "af_max_entries a < length (af_map a) \<and> k \<in> set (lru_excess a)")
    case True
    then have "length (lru_excess a) = 1" using lru_keys(3)[OF ok] len by linarith
    with True have only: "set (lru_excess a) = {k}"
      by (metis One_nat_def empty_iff empty_set length_0_conv length_Suc_conv list.simps(15) singleton_iff)
    have "1 < length (af_map a)" using True pos by linarith
    moreover have "length (af_map a) = card (fst ` set (af_map a))"
      using ok by (metis hm_ok_def distinct_card length_map set_map)
    ultimately have "\<not> fst ` set (af_map a) \<subseteq> {k}"
      by (metis card.empty card_insert_disjoint card_mono finite.emptyI finite_insert empty_iff
          One_nat_def not_less)
    then obtain k' c' t where o: "(k', c', t) \<in> set (af_map a)" "k' \<noteq> k" by force
    with evicted_older[OF ok mem _ o(1)] True only newest[OF o] show ?thesis by auto
  next
    case False
    then show ?thesis using get by (simp add: evict_get)
  qed
qed

text \<open>The affinity map never holds more sessions than its capacity: every operation keeps the
  bound and the uniqueness of session ids, from the empty map on.\<close>

theorem affinity_bounded:
  "affinity_ok (affinity_with_options ttl n)
   \<and> (affinity_ok a \<longrightarrow> affinity_ok (affinity_set a now s ch)
        \<and> affinity_ok (fst (affinity_get a now s)) \<and> affinity_ok (affinity_cleanup a now))"
  using affinity_set_ok affinity_get_ok affinity_cleanup_ok
  by (auto simp: affinity_ok_def[of "affinity_with_options ttl n"])
    (simp_all add: affinity_with_options_def)

lemma affinity_bounded_witness:
  "affinity_len (affinity_set (affinity_set (affinity_with_options 100 1) 1 ''a'' 7) 2 ''b'' 8) \<le> 1"
proof -
  have m: "af_max_entries (affinity_set a now s ch) = af_max_entries a" for a now s ch
    by (simp add: affinity_set_def evict_lru_def affinity_cleanup_def Let_def)
  have "affinity_ok (affinity_set (affinity_with_options 100 1) 1 ''a'' 7)"
    using affinity_bounded[of 100 1 "affinity_with_options 100 1"] by blast
  then have "affinity_ok (affinity_set (affinity_set (affinity_with_options 100 1) 1 ''a'' 7) 2 ''b'' 8)"
    using affinity_bounded by blast
  then show ?thesis by (simp add: affinity_ok_def affinity_len_def m) (simp add: affinity_with_options_def)
qed

text \<open>A session that was just routed sticks to its channel: after \<open>set\<close> at a time later than
  every other entry, a lookup before the time-to-live has passed returns that channel, whatever
  cleanup and eviction did in between.\<close>

theorem affinity_sticks:
  assumes "affinity_ok a" "0 < af_max_entries a" "now \<le> later" "later - now < af_ttl a"
    and "\<forall>(s', c', t) \<in> set (af_map a). t < now"
  shows "snd (affinity_get (affinity_set a now s ch) later s) = Some ch"
proof -
  let ?ins = "a\<lparr>af_map := hm_insert s (ch, now) (af_map a), af_set_counter := af_set_counter a + 1\<rparr>"
  let ?b = "if af_set_counter ?ins mod CLEANUP_INTERVAL = 0 then affinity_cleanup ?ins now else ?ins"
  have ok: "hm_ok (af_map ?ins)" using assms(1) by (simp add: affinity_ok_def)
  have mem: "(s, ch, now) \<in> set (af_map ?ins)" using hm_get_iff[OF ok, of s "(ch, now)"] by simp
  have sub: "set (af_map ?b) \<subseteq> set (af_map ?ins)"
    by (auto simp: affinity_cleanup_def set_hm_retain)
  have "length (af_map ?ins) \<le> Suc (af_max_entries a)"
    using assms(1) by (simp add: affinity_ok_def length_hm_insert)
  then have len: "length (af_map ?b) \<le> Suc (af_max_entries ?b)"
    by (auto simp: affinity_cleanup_def hm_retain_def intro: order_trans[OF length_filter_le])
  have "0 < af_ttl a" using assms(4) by simp
  then have memb: "(s, ch, now) \<in> set (af_map ?b)"
    using mem by (simp add: affinity_cleanup_def set_hm_retain)
  have okb: "hm_ok (af_map ?b)" using ok by (simp add: affinity_cleanup_def)
  have newest: "t < now" if "(k', c', t) \<in> set (af_map ?b)" "k' \<noteq> s" for k' c' t
  proof -
    have "(k', c', t) \<in> set (hm_insert s (ch, now) (af_map a))" using that(1) sub by auto
    with that(2) have "(k', c', t) \<in> set (af_map a)"
      using hm_get_insert_mem[of "af_map a" k' "(c', t)" s "(ch, now)"] assms(1)
      by (simp add: affinity_ok_def)
    with assms(5) show ?thesis by auto
  qed
  have "hm_get (af_map (evict_lru ?b)) s = Some (ch, now)"
    by (rule evict_spares_newest[OF okb len _ memb newest])
      (use assms(2) in \<open>auto simp: affinity_cleanup_def\<close>)
  moreover have "af_ttl (evict_lru ?b) = af_ttl a" by (simp add: evict_lru_def affinity_cleanup_def)
  ultimately show ?thesis
    using assms(4) by (simp add: affinity_set_def affinity_get_def Let_def not_le)
qed

lemma affinity_sticks_witness:
  "snd (affinity_get (affinity_set (affinity_set (affinity_with_options 100 1) 1 ''a'' 7) 2 ''b'' 8) 50 ''b'')
     = Some 8"
proof -
  let ?a = "affinity_set (affinity_with_options 100 1) 1 ''a'' 7"
  have "?a = \<lparr>af_map = [(''a'', 7, 1)], af_ttl = 100, af_max_entries = 1, af_set_counter = 1\<rparr>"
    by code_simp
  then show ?thesis
    using affinity_sticks[of ?a 2 50 "''b''" 8] by (simp add: affinity_ok_def hm_ok_def)
qed

end
