(* ===== verification/Fallback.thy ===== *)
theory Fallback
  imports Prelude "HOL-Library.Sublist"
begin

text \<open>
  Model fallback chains (\<open>router/fallback.rs\<close>). The Rust code removes repeated wildcard matches by
  the address of their list; addresses of non-empty lists are those of the map entries, so the model
  compares the keys (empty lists share an address but add nothing to the chain).
\<close>

definition is_ascii_digit :: "char \<Rightarrow> bool" where
  "is_ascii_digit c \<longleftrightarrow> 48 \<le> (of_char c :: nat) \<and> (of_char c :: nat) \<le> 57"

text \<open>\<open>rfind('-')\<close> splits the name at its last dash.\<close>

definition strip_date_suffix :: "string \<Rightarrow> string option" where
  "strip_date_suffix model =
     (if CHR ''-'' \<notin> set model then None
      else
        let suffix = rev (takeWhile (\<lambda>c. c \<noteq> CHR ''-'') (rev model));
            stripped = take (length model - length suffix - 1) model
        in if 4 \<le> length suffix \<and> length suffix \<le> 8 \<and> list_all is_ascii_digit suffix
              \<and> stripped \<noteq> [] \<and> stripped \<noteq> model
           then Some stripped else None)"

definition ends_with_star :: "string \<Rightarrow> bool" where
  "ends_with_star key \<longleftrightarrow> key \<noteq> [] \<and> last key = CHR ''*''"

definition match_wildcards :: "string \<Rightarrow> (string, string list) hashmap \<Rightarrow> (string \<times> string list) list" where
  "match_wildcards model fallbacks =
     sort_key (\<lambda>(key, _). - int (length key - 1))
       (filter (\<lambda>(key, _). key = ''*'' \<or> prefix (butlast key) model)
         (filter (\<lambda>(key, _). key = ''*'' \<or> ends_with_star key \<and> 1 < length key) fallbacks))"

fun dedup_by_key :: "string list \<Rightarrow> (string \<times> string list) list \<Rightarrow> string list list" where
  "dedup_by_key seen [] = []"
| "dedup_by_key seen ((k, fb) # rest) =
     (if k \<in> set seen then dedup_by_key seen rest else fb # dedup_by_key (k # seen) rest)"

definition push_new :: "string list \<Rightarrow> string \<Rightarrow> string list" where
  "push_new chain fb = (if fb \<in> set chain then chain else chain @ [fb])"

definition fallback_lists :: "string \<Rightarrow> (string, string list) hashmap \<Rightarrow> string list list" where
  "fallback_lists model fallbacks =
     (let stripped = strip_date_suffix model;
          exact = (case hm_get fallbacks model of Some fb \<Rightarrow> [fb] | None \<Rightarrow> []);
          exact_stripped = (case stripped of
             Some s \<Rightarrow> (case hm_get fallbacks s of Some fb \<Rightarrow> [fb] | None \<Rightarrow> []) | None \<Rightarrow> []);
          wildcards = match_wildcards model fallbacks @
             (case stripped of Some s \<Rightarrow> match_wildcards s fallbacks | None \<Rightarrow> [])
      in exact @ exact_stripped @ dedup_by_key [] wildcards)"

definition resolve_fallback_chain :: "string \<Rightarrow> (string, string list) hashmap \<Rightarrow> string list" where
  "resolve_fallback_chain model fallbacks =
     foldl (foldl push_new) [model] (fallback_lists model fallbacks)"

section \<open>Reference: which fallback keys apply to a model\<close>

definition key_applies :: "string \<Rightarrow> string \<Rightarrow> bool" where
  "key_applies model key \<longleftrightarrow> key = model \<or> (\<exists>p. key = p @ ''*'' \<and> prefix p model)"

definition names_of :: "string \<Rightarrow> string set" where
  "names_of model = {model} \<union> set_option (strip_date_suffix model)"

section \<open>Lemmas\<close>

lemma set_foldl_push [simp]: "set (foldl push_new c fbs) = set c \<union> set fbs"
  by (induction fbs arbitrary: c) (auto simp: push_new_def)

lemma distinct_foldl_push: "distinct c \<Longrightarrow> distinct (foldl push_new c fbs)"
  by (induction fbs arbitrary: c) (auto simp: push_new_def)

lemma prefix_foldl_push: "prefix c (foldl push_new c fbs)"
proof (induction fbs arbitrary: c)
  case (Cons x fbs)
  have "prefix c (push_new c x)" by (simp add: push_new_def)
  with Cons[of "push_new c x"] show ?case by (simp add: prefix_order.trans)
qed simp

lemma set_foldl_lists: "set (foldl (foldl push_new) c ls) = set c \<union> \<Union> (set ` set ls)"
  by (induction ls arbitrary: c) auto

lemma distinct_foldl_lists: "distinct c \<Longrightarrow> distinct (foldl (foldl push_new) c ls)"
  by (induction ls arbitrary: c) (auto simp: distinct_foldl_push)

lemma prefix_foldl_lists: "prefix c (foldl (foldl push_new) c ls)"
  by (induction ls arbitrary: c) (auto intro: prefix_order.trans[OF prefix_foldl_push])

lemma dedup_by_key_sub: "fb \<in> set (dedup_by_key seen xs) \<Longrightarrow> \<exists>k. (k, fb) \<in> set xs"
  by (induction seen xs rule: dedup_by_key.induct) (auto split: if_splits)

lemma dedup_by_key_sup:
  assumes "(k, fb) \<in> set xs" "k \<notin> set seen" "\<And>k v. (k, v) \<in> set xs \<Longrightarrow> f k = Some v"
  shows "fb \<in> set (dedup_by_key seen xs)"
  using assms
proof (induction seen xs rule: dedup_by_key.induct)
  case (2 seen k' fb' rest)
  show ?case
  proof (cases "k = k'")
    case True
    with "2.prems"(1) "2.prems"(3)[of k fb] "2.prems"(3)[of k' fb'] have "fb = fb'" by auto
    with True "2.prems"(2) show ?thesis by simp
  next
    case False
    with 2 show ?thesis by (auto split: if_splits)
  qed
qed simp

lemma star_form: "ends_with_star key \<longleftrightarrow> (\<exists>p. key = p @ ''*'')"
  by (auto simp: ends_with_star_def) (metis append_butlast_last_id)

lemma match_wildcards_mem:
  "(key, fb) \<in> set (match_wildcards model m) \<longleftrightarrow>
     (key, fb) \<in> set m \<and> (\<exists>p. key = p @ ''*'' \<and> prefix p model)"
  by (auto simp: match_wildcards_def star_form)

lemma dedup_wildcards:
  assumes "hm_ok m"
  shows "fb \<in> set (dedup_by_key [] (concat (map (\<lambda>n. match_wildcards n m) ns))) \<longleftrightarrow>
    (\<exists>p. hm_get m (p @ ''*'') = Some fb \<and> (\<exists>n \<in> set ns. prefix p n))"
proof -
  let ?xs = "concat (map (\<lambda>n. match_wildcards n m) ns)"
  have f: "hm_get m k = Some v" if "(k, v) \<in> set ?xs" for k v
    using that assms by (auto simp: match_wildcards_mem hm_get_iff)
  have "fb \<in> set (dedup_by_key [] ?xs) \<longleftrightarrow> (\<exists>k. (k, fb) \<in> set ?xs)"
    using dedup_by_key_sub[of fb "[]" ?xs] dedup_by_key_sup[of _ fb ?xs "[]" "hm_get m"] f by auto
  then show ?thesis using assms by (auto simp: match_wildcards_mem hm_get_iff)
qed

lemma fallback_lists_mem:
  assumes "hm_ok m"
  shows "fb \<in> set (fallback_lists model m) \<longleftrightarrow>
    (\<exists>key n. hm_get m key = Some fb \<and> n \<in> names_of model \<and> key_applies n key)"
proof (cases "strip_date_suffix model")
  case None
  then show ?thesis
    using dedup_wildcards[OF assms, of fb "[model]"]
    by (auto simp: fallback_lists_def Let_def names_of_def key_applies_def split: option.splits)
next
  case (Some s)
  then show ?thesis
    using dedup_wildcards[OF assms, of fb "[model, s]"]
    by (auto simp: fallback_lists_def Let_def names_of_def key_applies_def split: option.splits)
qed

lemma match_wildcards_sorted:
  "sorted (map (\<lambda>(key, _). - int (length key - 1)) (match_wildcards model m))"
  by (simp add: match_wildcards_def sorted_sort_key)

lemma dropWhile_to_mem: "y \<in> set xs \<Longrightarrow> \<exists>r. dropWhile (\<lambda>c. c \<noteq> y) xs = y # r"
  by (induction xs) auto

lemma strip_suffix_form:
  assumes "strip_date_suffix model = Some s"
  shows "\<exists>d. model = s @ ''-'' @ d \<and> s \<noteq> [] \<and> 4 \<le> length d \<and> length d \<le> 8 \<and> list_all is_ascii_digit d"
proof -
  let ?d = "rev (takeWhile (\<lambda>c. c \<noteq> CHR ''-'') (rev model))"
  from assms have dash: "CHR ''-'' \<in> set (rev model)" and len: "4 \<le> length ?d" "length ?d \<le> 8"
    and dig: "list_all is_ascii_digit ?d" and s: "s = take (length model - length ?d - 1) model" "s \<noteq> []"
    by (auto simp: strip_date_suffix_def Let_def split: if_splits)
  let ?t = "takeWhile (\<lambda>c. c \<noteq> CHR ''-'') (rev model)"
  from dropWhile_to_mem[OF dash]
  obtain r where r: "dropWhile (\<lambda>c. c \<noteq> CHR ''-'') (rev model) = CHR ''-'' # r" by blast
  have split: "?t @ CHR ''-'' # r = rev model"
    using takeWhile_dropWhile_id[of "\<lambda>c. c \<noteq> CHR ''-''" "rev model"] unfolding r .
  have "rev (?t @ CHR ''-'' # r) = model" unfolding split by (rule rev_rev_ident)
  then have m: "model = rev r @ ''-'' @ ?d" unfolding rev_append rev.simps append_assoc append.simps
    by (rule sym)
  obtain d where d: "d = ?d" by blast
  have "model = rev r @ ''-'' @ d" using m d by simp
  moreover from this have "s = rev r" using s(1)[folded d] by simp
  ultimately show ?thesis using s(2) len dig unfolding d[symmetric] by blast
qed

text \<open>C35: the fallback chain starts with the requested model, lists no model twice, and holds
  exactly the models of the fallback lists whose key applies: the model name or its date-stripped
  form exactly, or a wildcard key whose prefix the name starts with.\<close>

theorem fallback_chain_exact:
  assumes "hm_ok fallbacks"
  shows "hd (resolve_fallback_chain model fallbacks) = model
    \<and> distinct (resolve_fallback_chain model fallbacks)
    \<and> set (resolve_fallback_chain model fallbacks) = insert model
        {x. \<exists>key fb n. hm_get fallbacks key = Some fb \<and> x \<in> set fb \<and> n \<in> names_of model \<and> key_applies n key}"
proof (intro conjI)
  have "prefix [model] (resolve_fallback_chain model fallbacks)"
    by (simp add: resolve_fallback_chain_def prefix_foldl_lists)
  then show "hd (resolve_fallback_chain model fallbacks) = model" by (auto simp: prefix_def)
  show "distinct (resolve_fallback_chain model fallbacks)"
    by (simp add: resolve_fallback_chain_def distinct_foldl_lists)
  show "set (resolve_fallback_chain model fallbacks) = insert model
      {x. \<exists>key fb n. hm_get fallbacks key = Some fb \<and> x \<in> set fb \<and> n \<in> names_of model \<and> key_applies n key}"
    using fallback_lists_mem[OF assms, of _ model]
    by (auto simp: resolve_fallback_chain_def set_foldl_lists; blast)
qed

lemma fallback_chain_exact_witness:
  "set (resolve_fallback_chain ''gpt-4-0613'' [(''gpt-4*'', [''a'']), (''gpt-4'', [''b'', ''a''])]) =
     {''gpt-4-0613'', ''a'', ''b''}
   \<and> distinct (resolve_fallback_chain ''gpt-4-0613'' [(''gpt-4*'', [''a'']), (''gpt-4'', [''b'', ''a''])])"
proof -
  let ?m = "[(''gpt-4*'', [''a'']), (''gpt-4'', [''b'', ''a''])]"
  have "set (resolve_fallback_chain ''gpt-4-0613'' ?m) = {''gpt-4-0613'', ''a'', ''b''}" by code_simp
  moreover have "hm_ok ?m" by (simp add: hm_ok_def)
  ultimately show ?thesis using fallback_chain_exact[of ?m "''gpt-4-0613''"] by blast
qed

text \<open>An exact fallback list has priority: when the model itself is a key, the chain begins with
  the model followed by that list, in its order and without repetitions.\<close>

theorem fallback_exact_first:
  assumes "hm_get fallbacks model = Some fb"
  shows "prefix (foldl push_new [model] fb) (resolve_fallback_chain model fallbacks)"
  using assms
  by (simp add: resolve_fallback_chain_def fallback_lists_def Let_def foldl_append[symmetric]
      prefix_foldl_lists del: foldl_append)

lemma fallback_exact_first_witness:
  "prefix [''m'', ''b'', ''c''] (resolve_fallback_chain ''m'' [(''*'', [''a'']), (''m'', [''b'', ''m'', ''c''])])"
  using fallback_exact_first[of "[(''*'', [''a'']), (''m'', [''b'', ''m'', ''c''])]" "''m''" "[''b'', ''m'', ''c'']"]
  by (simp add: push_new_def)

end
