(* ===== verification/Virtual_Key.thy ===== *)
theory Virtual_Key
  imports Glob Keyed_Store
begin

unbundle bit_operations_syntax

text \<open>
  Virtual keys (\<open>virtual_key/key.rs\<close>, \<open>spend.rs\<close>, \<open>store.rs\<close>): access rules of one key, the key
  store with its prefix index, and the spend counters. The local date and month are arguments
  (\<open>today\<close>, \<open>this_month\<close>); SHA-256 and the random ids are arguments of the operations that use
  them.
\<close>

record daily_spend =
  ds_date :: string
  ds_cents :: u64

record monthly_spend =
  ms_month :: string
  ms_cents :: u64

record virtual_key_spend =
  sp_today :: daily_spend
  sp_this_month :: monthly_spend
  sp_total_cents :: u64

record virtual_key =
  vk_id :: uuid
  vk_key_hash :: string
  vk_key_prefix :: string
  vk_name :: string
  vk_daily_budget_cents :: "u64 option"
  vk_monthly_budget_cents :: "u64 option"
  vk_enabled :: bool
  vk_created_at :: utc
  vk_spend :: virtual_key_spend
  vk_allowed_models :: "string list option"
  vk_denied_models :: "string list"
  vk_allowed_ips :: "string list"
  vk_rpm_limit :: "u32 option"
  vk_tpm_limit :: "u32 option"
  vk_expires_at :: "utc option"
  vk_group :: "string option"

section \<open>Access rules of one key\<close>

definition is_budget_exceeded :: "virtual_key \<Rightarrow> string \<Rightarrow> string \<Rightarrow> bool" where
  "is_budget_exceeded vk today this_month =
     (let daily_spend = (if ds_date (sp_today (vk_spend vk)) = today
                         then ds_cents (sp_today (vk_spend vk)) else 0);
          monthly_spend = (if ms_month (sp_this_month (vk_spend vk)) = this_month
                           then ms_cents (sp_this_month (vk_spend vk)) else 0)
      in (case vk_daily_budget_cents vk of Some limit \<Rightarrow> limit \<le> daily_spend | None \<Rightarrow> False)
         \<or> (case vk_monthly_budget_cents vk of Some limit \<Rightarrow> limit \<le> monthly_spend | None \<Rightarrow> False))"

definition is_model_allowed :: "virtual_key \<Rightarrow> string \<Rightarrow> bool" where
  "is_model_allowed vk model =
     (case vk_allowed_models vk of
        None \<Rightarrow> True
      | Some allowed \<Rightarrow> list_ex (\<lambda>pattern. prefix pattern model \<or> matches_glob pattern model) allowed)"

definition is_model_denied :: "virtual_key \<Rightarrow> string \<Rightarrow> bool" where
  "is_model_denied vk model = list_ex (\<lambda>pattern. matches_glob pattern model) (vk_denied_models vk)"

definition is_expired :: "virtual_key \<Rightarrow> utc \<Rightarrow> bool" where
  "is_expired vk now = (case vk_expires_at vk of Some e \<Rightarrow> e < now | None \<Rightarrow> False)"

fun ipv4_octets :: "u32 \<Rightarrow> string list \<Rightarrow> u32 option" where
  "ipv4_octets acc [] = Some acc"
| "ipv4_octets acc (oct # rest) =
     (case parse_uint (2 ^ 32 - 1) oct of
        None \<Rightarrow> None
      | Some v \<Rightarrow> if 255 < v then None else ipv4_octets (push_bit 8 acc OR of_nat v) rest)"

definition parse_ipv4 :: "string \<Rightarrow> u32 option" where
  "parse_ipv4 s =
     (let octets = split_on (CHR ''.'') s in if length octets \<noteq> 4 then None else ipv4_octets 0 octets)"

definition ip_in_cidr :: "string \<Rightarrow> string \<Rightarrow> bool" where
  "ip_in_cidr ip cidr =
     (case split_once (CHR ''/'') cidr of
        None \<Rightarrow> False
      | Some (network, bits_text) \<Rightarrow>
          (case parse_uint 255 bits_text of
             None \<Rightarrow> False
           | Some bits \<Rightarrow>
               if 32 < bits then False
               else (case (parse_ipv4 ip, parse_ipv4 network) of
                       (Some ip_u32, Some net_u32) \<Rightarrow>
                         if bits = 0 then True
                         else let mask = push_bit (32 - bits) (- 1 :: u32)
                              in ip_u32 AND mask = net_u32 AND mask
                     | _ \<Rightarrow> False)))"

definition check_ip_allowed :: "virtual_key \<Rightarrow> string \<Rightarrow> bool" where
  "check_ip_allowed vk ip =
     (if vk_allowed_ips vk = [] then True
      else list_ex (\<lambda>allowed. allowed = ip \<or> (CHR ''/'' \<in> set allowed \<and> ip_in_cidr ip allowed))
             (vk_allowed_ips vk))"

section \<open>The key store\<close>

record key_store =
  ks_keys :: "(uuid, virtual_key) hashmap"
  ks_prefix_index :: "(string, uuid) hashmap"

definition ks_new :: key_store where "ks_new = \<lparr>ks_keys = [], ks_prefix_index = []\<rparr>"

text \<open>\<open>plaintext.get(..16).unwrap_or(plaintext)\<close>: the slice exists when byte 16 starts a character.\<close>

definition key_prefix_of :: "string \<Rightarrow> string" where
  "key_prefix_of s =
     (if 16 \<le> length s \<and> (length s = 16 \<or> \<not> (128 \<le> (of_char (s ! 16) :: nat) \<and> (of_char (s ! 16) :: nat) < 192))
      then take 16 s else s)"

definition find_by_prefix :: "key_store \<Rightarrow> string \<Rightarrow> uuid option" where
  "find_by_prefix ks key = hm_get (ks_prefix_index ks) (key_prefix_of key)"

definition ks_get :: "key_store \<Rightarrow> uuid \<Rightarrow> virtual_key option" where
  "ks_get ks i = hm_get (ks_keys ks) i"

definition ks_list :: "key_store \<Rightarrow> virtual_key list" where
  "ks_list ks = hm_values (ks_keys ks)"

definition validate_any :: "(string \<Rightarrow> string) \<Rightarrow> key_store \<Rightarrow> string \<Rightarrow> virtual_key option" where
  "validate_any sha256 ks plaintext =
     (case hm_get (ks_prefix_index ks) (key_prefix_of plaintext) of
        None \<Rightarrow> None
      | Some i \<Rightarrow>
          (case hm_get (ks_keys ks) i of
             None \<Rightarrow> None
           | Some vk \<Rightarrow> if vk_key_hash vk = sha256 plaintext then Some vk else None))"

definition validate ::
  "(string \<Rightarrow> string) \<Rightarrow> key_store \<Rightarrow> utc \<Rightarrow> string \<Rightarrow> string \<Rightarrow> string \<Rightarrow> virtual_key option" where
  "validate sha256 ks now today this_month plaintext =
     (case hm_get (ks_prefix_index ks) (key_prefix_of plaintext) of
        None \<Rightarrow> None
      | Some i \<Rightarrow>
          (case hm_get (ks_keys ks) i of
             None \<Rightarrow> None
           | Some vk \<Rightarrow>
               if vk_key_hash vk \<noteq> sha256 plaintext then None
               else if \<not> vk_enabled vk then None
               else if is_expired vk now then None
               else if is_budget_exceeded vk today this_month then None
               else Some vk))"

definition no_spend :: virtual_key_spend where
  "no_spend = \<lparr>sp_today = \<lparr>ds_date = [], ds_cents = 0\<rparr>, sp_this_month = \<lparr>ms_month = [], ms_cents = 0\<rparr>,
     sp_total_cents = 0\<rparr>"

text \<open>\<open>plaintext\<close> is \<open>ms-vk-\<close> with a random uuid in hexadecimal, \<open>i\<close> another random uuid.\<close>

definition ks_create ::
  "(string \<Rightarrow> string) \<Rightarrow> key_store \<Rightarrow> utc \<Rightarrow> string \<Rightarrow> uuid \<Rightarrow> string \<Rightarrow> u64 option \<Rightarrow> u64 option
     \<Rightarrow> string list option \<Rightarrow> string list \<Rightarrow> string list \<Rightarrow> u32 option \<Rightarrow> u32 option \<Rightarrow> utc option
     \<Rightarrow> string option \<Rightarrow> key_store \<times> virtual_key \<times> string" where
  "ks_create sha256 ks now uuid_simple i name daily monthly allowed denied ips rpm tpm expires grp =
     (let plaintext = ''ms-vk-'' @ uuid_simple;
          pre = take 16 plaintext;
          vk = \<lparr>vk_id = i, vk_key_hash = sha256 plaintext, vk_key_prefix = pre, vk_name = name,
                vk_daily_budget_cents = daily, vk_monthly_budget_cents = monthly, vk_enabled = True,
                vk_created_at = now, vk_spend = no_spend, vk_allowed_models = allowed,
                vk_denied_models = denied, vk_allowed_ips = ips, vk_rpm_limit = rpm, vk_tpm_limit = tpm,
                vk_expires_at = expires, vk_group = grp\<rparr>
      in (\<lparr>ks_keys = hm_insert i vk (ks_keys ks), ks_prefix_index = hm_insert pre i (ks_prefix_index ks)\<rparr>,
          vk, plaintext))"

definition ks_delete :: "key_store \<Rightarrow> uuid \<Rightarrow> key_store \<times> bool" where
  "ks_delete ks i =
     (case hm_get (ks_keys ks) i of
        None \<Rightarrow> (ks, False)
      | Some vk \<Rightarrow> (\<lparr>ks_keys = hm_remove i (ks_keys ks),
                     ks_prefix_index = hm_remove (vk_key_prefix vk) (ks_prefix_index ks)\<rparr>, True))"

definition ks_modify :: "key_store \<Rightarrow> uuid \<Rightarrow> (virtual_key \<Rightarrow> virtual_key) \<Rightarrow> key_store" where
  "ks_modify ks i f = ks\<lparr>ks_keys := hm_modify (ks_keys ks) i f\<rparr>"

text \<open>The arguments of \<open>update\<close>: \<open>Some\<close> replaces the field.\<close>

record key_update =
  up_name :: "string option"
  up_daily :: "u64 option option"
  up_monthly :: "u64 option option"
  up_enabled :: "bool option"
  up_allowed :: "string list option option"
  up_denied :: "string list option"
  up_ips :: "string list option"
  up_rpm :: "u32 option option"
  up_tpm :: "u32 option option"
  up_expires :: "utc option option"
  up_group :: "string option option"

abbreviation set_if :: "'a option \<Rightarrow> 'a \<Rightarrow> 'a" where
  "set_if new old \<equiv> (case new of Some v \<Rightarrow> v | None \<Rightarrow> old)"

definition apply_update :: "key_update \<Rightarrow> virtual_key \<Rightarrow> virtual_key" where
  "apply_update u vk =
     vk\<lparr>vk_name := set_if (up_name u) (vk_name vk),
        vk_daily_budget_cents := set_if (up_daily u) (vk_daily_budget_cents vk),
        vk_monthly_budget_cents := set_if (up_monthly u) (vk_monthly_budget_cents vk),
        vk_enabled := set_if (up_enabled u) (vk_enabled vk),
        vk_allowed_models := set_if (up_allowed u) (vk_allowed_models vk),
        vk_denied_models := set_if (up_denied u) (vk_denied_models vk),
        vk_allowed_ips := set_if (up_ips u) (vk_allowed_ips vk),
        vk_rpm_limit := set_if (up_rpm u) (vk_rpm_limit vk),
        vk_tpm_limit := set_if (up_tpm u) (vk_tpm_limit vk),
        vk_expires_at := set_if (up_expires u) (vk_expires_at vk),
        vk_group := set_if (up_group u) (vk_group vk)\<rparr>"

definition ks_update :: "key_store \<Rightarrow> uuid \<Rightarrow> key_update \<Rightarrow> key_store \<times> virtual_key option" where
  "ks_update ks i u =
     (let ks' = ks_modify ks i (apply_update u) in (ks', hm_get (ks_keys ks') i))"

definition has_keys :: "key_store \<Rightarrow> bool" where
  "has_keys ks \<longleftrightarrow> ks_keys ks \<noteq> []"

text \<open>\<open>load\<close> merges the entries read from disk and rebuilds the index from the whole map.\<close>

definition rebuild_index :: "(uuid, virtual_key) hashmap \<Rightarrow> (string, uuid) hashmap" where
  "rebuild_index keys = fold (\<lambda>vk idx. hm_insert (vk_key_prefix vk) (vk_id vk) idx) (hm_values keys) []"

section \<open>Spend\<close>

datatype reserve_result = NoBudget | Reserved u64 | Exceeded

definition roll_over :: "string \<Rightarrow> string \<Rightarrow> virtual_key_spend \<Rightarrow> virtual_key_spend" where
  "roll_over today this_month sp =
     (let sp = (if ds_date (sp_today sp) \<noteq> today
                then sp\<lparr>sp_today := \<lparr>ds_date = today, ds_cents = 0\<rparr>\<rparr> else sp)
      in if ms_month (sp_this_month sp) \<noteq> this_month
         then sp\<lparr>sp_this_month := \<lparr>ms_month = this_month, ms_cents = 0\<rparr>\<rparr> else sp)"

definition set_spend :: "virtual_key \<Rightarrow> u64 \<Rightarrow> u64 \<Rightarrow> u64 \<Rightarrow> virtual_key" where
  "set_spend vk daily monthly all_time =
     (let sp = vk_spend vk in
      vk\<lparr>vk_spend := sp\<lparr>sp_today := (sp_today sp)\<lparr>ds_cents := daily\<rparr>,
                        sp_this_month := (sp_this_month sp)\<lparr>ms_cents := monthly\<rparr>,
                        sp_total_cents := all_time\<rparr>\<rparr>)"

definition reserve_key :: "string \<Rightarrow> string \<Rightarrow> u64 \<Rightarrow> virtual_key \<Rightarrow> virtual_key \<times> reserve_result" where
  "reserve_key today this_month estimated vk =
     (if \<not> vk_enabled vk then (vk, NoBudget)
      else if vk_daily_budget_cents vk = None \<and> vk_monthly_budget_cents vk = None then (vk, NoBudget)
      else
        let vk = vk\<lparr>vk_spend := roll_over today this_month (vk_spend vk)\<rparr>;
            new_daily = sat_add (ds_cents (sp_today (vk_spend vk))) estimated;
            new_monthly = sat_add (ms_cents (sp_this_month (vk_spend vk))) estimated
        in if (case vk_daily_budget_cents vk of Some limit \<Rightarrow> limit < new_daily | None \<Rightarrow> False)
           then (vk, Exceeded)
           else if (case vk_monthly_budget_cents vk of Some limit \<Rightarrow> limit < new_monthly | None \<Rightarrow> False)
           then (vk, Exceeded)
           else (set_spend vk new_daily new_monthly (sat_add (sp_total_cents (vk_spend vk)) estimated),
                 Reserved estimated))"

definition reserve_spend :: "key_store \<Rightarrow> string \<Rightarrow> string \<Rightarrow> uuid \<Rightarrow> u64 \<Rightarrow> key_store \<times> reserve_result" where
  "reserve_spend ks today this_month i estimated =
     (case hm_get (ks_keys ks) i of
        None \<Rightarrow> (ks, NoBudget)
      | Some vk \<Rightarrow> (ks_modify ks i (\<lambda>vk. fst (reserve_key today this_month estimated vk)),
                    snd (reserve_key today this_month estimated vk)))"

text \<open>\<open>actual as i64 - reserved as i64\<close>: both casts and the difference wrap.\<close>

definition reconcile_key :: "u64 \<Rightarrow> u64 \<Rightarrow> virtual_key \<Rightarrow> virtual_key" where
  "reconcile_key reserved actual vk =
     (let delta = actual - reserved;
          daily = ds_cents (sp_today (vk_spend vk));
          monthly = ms_cents (sp_this_month (vk_spend vk));
          all_time = sp_total_cents (vk_spend vk)
      in if sint delta < 0
         then let refund = - delta in set_spend vk (sat_sub daily refund) (sat_sub monthly refund) (sat_sub all_time refund)
         else set_spend vk (daily + delta) (monthly + delta) (all_time + delta))"

definition reconcile_spend :: "key_store \<Rightarrow> uuid \<Rightarrow> u64 \<Rightarrow> u64 \<Rightarrow> key_store" where
  "reconcile_spend ks i reserved actual =
     (if reserved = actual then ks else ks_modify ks i (reconcile_key reserved actual))"

definition accumulate_key :: "string \<Rightarrow> string \<Rightarrow> u64 \<Rightarrow> virtual_key \<Rightarrow> virtual_key" where
  "accumulate_key today this_month cents vk =
     (let vk = vk\<lparr>vk_spend := roll_over today this_month (vk_spend vk)\<rparr>
      in set_spend vk (ds_cents (sp_today (vk_spend vk)) + cents)
           (ms_cents (sp_this_month (vk_spend vk)) + cents) (sp_total_cents (vk_spend vk) + cents))"

definition accumulate_spend :: "key_store \<Rightarrow> string \<Rightarrow> string \<Rightarrow> uuid \<Rightarrow> u64 \<Rightarrow> key_store" where
  "accumulate_spend ks today this_month i cents = ks_modify ks i (accumulate_key today this_month cents)"

section \<open>Address ranges\<close>

lemma mask_eq_drop:
  "(a AND push_bit k (- 1) = b AND push_bit k (- 1)) \<longleftrightarrow> unat a div 2 ^ k = unat b div 2 ^ k"
  for a b :: u32
proof -
  have push: "w AND push_bit k (- 1) = push_bit k (drop_bit k w)" for w :: u32
    by (rule bit_eqI) (auto simp: bit_and_iff bit_push_bit_iff bit_drop_bit_eq bit_not_iff bit_mask_iff not_less)
  have drop: "drop_bit k (w AND push_bit k (- 1)) = drop_bit k w" for w :: u32
    by (rule bit_eqI) (auto simp: bit_and_iff bit_push_bit_iff bit_drop_bit_eq bit_not_iff bit_mask_iff dest: bit_imp_le_length)
  have "(a AND push_bit k (- 1) = b AND push_bit k (- 1)) \<longleftrightarrow> drop_bit k a = drop_bit k b"
    using push drop by metis
  also have "\<dots> \<longleftrightarrow> unat (drop_bit k a) = unat (drop_bit k b)" by (simp add: word_unat_eq_iff)
  finally have "(a AND push_bit k (- 1) = b AND push_bit k (- 1)) \<longleftrightarrow>
      unat (drop_bit k a) = unat (drop_bit k b)" .
  moreover have "unat (drop_bit k w) = unat w div 2 ^ k" for w :: u32
    by (subst unat_drop_bit_eq) (rule drop_bit_eq_div)
  ultimately show ?thesis by metis
qed

section \<open>The key store as a keyed store\<close>

interpretation vks: keyed_store ks_get ks_modify
  by unfold_locales (simp add: ks_get_def ks_modify_def hm_get_modify)

lemma ks_modify_index [simp]: "ks_prefix_index (ks_modify ks i f) = ks_prefix_index ks"
  by (simp add: ks_modify_def)

section \<open>The index\<close>

text \<open>Every index entry points to a stored key with that prefix, and every stored key is reachable
  through its own prefix under its own id.\<close>

definition ks_ok :: "key_store \<Rightarrow> bool" where
  "ks_ok ks \<longleftrightarrow>
     (\<forall>p i. hm_get (ks_prefix_index ks) p = Some i \<longrightarrow>
        (\<exists>vk. ks_get ks i = Some vk \<and> vk_key_prefix vk = p))
     \<and> (\<forall>i vk. ks_get ks i = Some vk \<longrightarrow>
          vk_id vk = i \<and> hm_get (ks_prefix_index ks) (vk_key_prefix vk) = Some i)"

lemma ks_okI:
  assumes "\<And>p i. hm_get (ks_prefix_index ks) p = Some i \<Longrightarrow> \<exists>vk. ks_get ks i = Some vk \<and> vk_key_prefix vk = p"
    and "\<And>i vk. ks_get ks i = Some vk \<Longrightarrow> vk_id vk = i \<and> hm_get (ks_prefix_index ks) (vk_key_prefix vk) = Some i"
  shows "ks_ok ks"
  using assms by (simp add: ks_ok_def)

lemma ks_ok_index:
  "ks_ok ks \<Longrightarrow> hm_get (ks_prefix_index ks) p = Some i \<Longrightarrow> \<exists>vk. ks_get ks i = Some vk \<and> vk_key_prefix vk = p"
  by (simp add: ks_ok_def)

lemma ks_ok_key:
  "ks_ok ks \<Longrightarrow> ks_get ks i = Some vk \<Longrightarrow> vk_id vk = i \<and> hm_get (ks_prefix_index ks) (vk_key_prefix vk) = Some i"
  by (simp add: ks_ok_def)

lemma ks_ok_new: "ks_ok ks_new"
  by (simp add: ks_ok_def ks_new_def ks_get_def)

text \<open>A modification that keeps id and prefix keeps the index consistent.\<close>

lemma ks_ok_modify:
  assumes "ks_ok ks" "\<And>vk. vk_id (f vk) = vk_id vk \<and> vk_key_prefix (f vk) = vk_key_prefix vk"
  shows "ks_ok (ks_modify ks i f)"
proof (rule ks_okI)
  fix p j assume "hm_get (ks_prefix_index (ks_modify ks i f)) p = Some j"
  then obtain vk where "ks_get ks j = Some vk" "vk_key_prefix vk = p"
    using ks_ok_index[OF assms(1)] by auto
  then show "\<exists>vk. ks_get (ks_modify ks i f) j = Some vk \<and> vk_key_prefix vk = p"
    using assms(2) by (auto simp: vks.lookup_modify)
next
  fix j vk assume "ks_get (ks_modify ks i f) j = Some vk"
  then obtain vk0 where "ks_get ks j = Some vk0" "vk_id vk = vk_id vk0" "vk_key_prefix vk = vk_key_prefix vk0"
    using assms(2) by (auto simp: vks.lookup_modify split: if_splits)
  then show "vk_id vk = j \<and> hm_get (ks_prefix_index (ks_modify ks i f)) (vk_key_prefix vk) = Some j"
    using ks_ok_key[OF assms(1)] by simp
qed

lemma set_spend_fields [simp]:
  "vk_id (set_spend vk a b c) = vk_id vk" "vk_key_prefix (set_spend vk a b c) = vk_key_prefix vk"
  "vk_enabled (set_spend vk a b c) = vk_enabled vk"
  "vk_daily_budget_cents (set_spend vk a b c) = vk_daily_budget_cents vk"
  "vk_monthly_budget_cents (set_spend vk a b c) = vk_monthly_budget_cents vk"
  by (simp_all add: set_spend_def Let_def)

lemma reserve_key_fields [simp]:
  "vk_id (fst (reserve_key d m e vk)) = vk_id vk"
  "vk_key_prefix (fst (reserve_key d m e vk)) = vk_key_prefix vk"
  "vk_enabled (fst (reserve_key d m e vk)) = vk_enabled vk"
  "vk_daily_budget_cents (fst (reserve_key d m e vk)) = vk_daily_budget_cents vk"
  by (simp_all add: reserve_key_def Let_def)

lemma reconcile_key_fields [simp]:
  "vk_id (reconcile_key r a vk) = vk_id vk"
  "vk_key_prefix (reconcile_key r a vk) = vk_key_prefix vk"
  "vk_enabled (reconcile_key r a vk) = vk_enabled vk"
  "vk_daily_budget_cents (reconcile_key r a vk) = vk_daily_budget_cents vk"
  by (simp_all add: reconcile_key_def Let_def)

lemma accumulate_key_fields [simp]:
  "vk_id (accumulate_key d m c vk) = vk_id vk"
  "vk_key_prefix (accumulate_key d m c vk) = vk_key_prefix vk"
  by (simp_all add: accumulate_key_def Let_def)

lemma apply_update_fields [simp]:
  "vk_id (apply_update u vk) = vk_id vk" "vk_key_prefix (apply_update u vk) = vk_key_prefix vk"
  by (simp_all add: apply_update_def)

lemma ks_ok_spend:
  assumes "ks_ok ks"
  shows "ks_ok (fst (reserve_spend ks d m i e))" "ks_ok (reconcile_spend ks i r a)"
    "ks_ok (accumulate_spend ks d m i c)" "ks_ok (fst (ks_update ks i u))"
  using assms
  by (auto simp: reserve_spend_def reconcile_spend_def accumulate_spend_def ks_update_def Let_def
      intro!: ks_ok_modify split: option.splits)

lemma ks_create_get:
  fixes h ks now s i n d m al dn ips rpm tpm ex g
  defines "r \<equiv> ks_create h ks now s i n d m al dn ips rpm tpm ex g"
  shows "ks_get (fst r) j = (if j = i then Some (fst (snd r)) else ks_get ks j)"
    and "hm_get (ks_prefix_index (fst r)) p =
      (if p = take 16 (''ms-vk-'' @ s) then Some i else hm_get (ks_prefix_index ks) p)"
    and "vk_id (fst (snd r)) = i" "vk_key_prefix (fst (snd r)) = take 16 (''ms-vk-'' @ s)"
    and "vk_key_hash (fst (snd r)) = h (snd (snd r))" "snd (snd r) = ''ms-vk-'' @ s"
    and "vk_enabled (fst (snd r))" "vk_expires_at (fst (snd r)) = ex"
    and "vk_daily_budget_cents (fst (snd r)) = d" "vk_monthly_budget_cents (fst (snd r)) = m"
    and "vk_spend (fst (snd r)) = no_spend"
  by (simp_all add: r_def ks_create_def Let_def ks_get_def)

lemma ks_ok_create:
  assumes "ks_ok ks" "ks_get ks i = None" "hm_get (ks_prefix_index ks) (take 16 (''ms-vk-'' @ s)) = None"
  shows "ks_ok (fst (ks_create h ks now s i n d m al dn ips rpm tpm ex g))"
proof (rule ks_okI)
  let ?r = "ks_create h ks now s i n d m al dn ips rpm tpm ex g"
  note get = ks_create_get[of h ks now s i n d m al dn ips rpm tpm ex g]
  fix p j assume "hm_get (ks_prefix_index (fst ?r)) p = Some j"
  then show "\<exists>vk. ks_get (fst ?r) j = Some vk \<and> vk_key_prefix vk = p"
    using ks_ok_index[OF assms(1), of p j] assms(2) get(4) unfolding get(1,2) by (auto split: if_splits)
next
  let ?r = "ks_create h ks now s i n d m al dn ips rpm tpm ex g"
  note get = ks_create_get[of h ks now s i n d m al dn ips rpm tpm ex g]
  fix j vk assume "ks_get (fst ?r) j = Some vk"
  then show "vk_id vk = j \<and> hm_get (ks_prefix_index (fst ?r)) (vk_key_prefix vk) = Some j"
    using ks_ok_key[OF assms(1), of j vk] assms(3) get(3,4) unfolding get(1,2) by (auto split: if_splits)
qed

lemma ks_ok_delete:
  assumes "ks_ok ks" shows "ks_ok (fst (ks_delete ks i))"
proof (cases "ks_get ks i")
  case None
  then show ?thesis using assms by (simp add: ks_delete_def ks_get_def)
next
  case (Some vk)
  let ?ks = "fst (ks_delete ks i)"
  have get: "ks_get ?ks j = (if j = i then None else ks_get ks j)"
    "hm_get (ks_prefix_index ?ks) p = (if p = vk_key_prefix vk then None else hm_get (ks_prefix_index ks) p)" for j p
    using Some by (simp_all add: ks_delete_def ks_get_def)
  note own = ks_ok_key[OF assms Some]
  show ?thesis
  proof (rule ks_okI)
    fix p j assume p: "hm_get (ks_prefix_index ?ks) p = Some j"
    then have "p \<noteq> vk_key_prefix vk" "hm_get (ks_prefix_index ks) p = Some j" by (auto simp: get split: if_splits)
    with ks_ok_index[OF assms this(2)] Some show "\<exists>vk. ks_get ?ks j = Some vk \<and> vk_key_prefix vk = p"
      by (cases "j = i") (auto simp: get)
  next
    fix j vk' assume "ks_get ?ks j = Some vk'"
    then have "j \<noteq> i" "ks_get ks j = Some vk'" by (auto simp: get split: if_splits)
    with ks_ok_key[OF assms this(2)] own
    show "vk_id vk' = j \<and> hm_get (ks_prefix_index ?ks) (vk_key_prefix vk') = Some j"
      by (auto simp: get)
  qed
qed

section \<open>The ledger of one key and one day\<close>

text \<open>
  What happens to a key while the local date is \<open>today\<close> and its limits stay: reservations, their
  settlement with an actual cost, which may be lower or higher, charges without a reservation, and
  changes of other keys. The state carries the reservations that are not settled yet, the sum of the
  costs charged, and the sum of what was charged beyond a reservation.
\<close>

type_synonym ledger = "key_store \<times> u64 list \<times> nat \<times> nat"

inductive ledger_step :: "string \<Rightarrow> string \<Rightarrow> uuid \<Rightarrow> ledger \<Rightarrow> ledger \<Rightarrow> bool"
  for today this_month k where
  reserve: "reserve_spend ks today this_month k e = (ks', Reserved r) \<Longrightarrow>
    ledger_step today this_month k (ks, open_res, settled, excess) (ks', r # open_res, settled, excess)"
| refuse: "reserve_spend ks today this_month k e = (ks', Exceeded) \<Longrightarrow>
    ledger_step today this_month k (ks, open_res, settled, excess) (ks', open_res, settled, excess)"
| settle: "r \<in> set open_res \<Longrightarrow>
    ledger_step today this_month k (ks, open_res, settled, excess)
      (reconcile_spend ks k r actual, remove1 r open_res, settled + unat actual, excess + (unat actual - unat r))"
| accumulate: "ledger_step today this_month k (ks, open_res, settled, excess)
      (accumulate_spend ks today this_month k c, open_res, settled + unat c, excess + unat c)"
| other: "j \<noteq> k \<Longrightarrow>
    ledger_step today this_month k (ks, open_res, settled, excess) (ks_modify ks j f, open_res, settled, excess)"

inductive ledger_run :: "string \<Rightarrow> string \<Rightarrow> uuid \<Rightarrow> ledger \<Rightarrow> ledger \<Rightarrow> bool"
  for today this_month k where
  refl: "ledger_run today this_month k s s"
| step: "ledger_run today this_month k s s' \<Longrightarrow> ledger_step today this_month k s' s'' \<Longrightarrow>
    ledger_run today this_month k s s''"

definition spent_today :: "string \<Rightarrow> virtual_key \<Rightarrow> nat" where
  "spent_today today vk =
     (if ds_date (sp_today (vk_spend vk)) = today then unat (ds_cents (sp_today (vk_spend vk))) else 0)"

definition open_sum :: "u64 list \<Rightarrow> nat" where
  "open_sum rs = sum_list (map unat rs)"

definition ledger_ok :: "string \<Rightarrow> uuid \<Rightarrow> u64 \<Rightarrow> nat \<Rightarrow> ledger \<Rightarrow> bool" where
  "ledger_ok today k limit base s \<longleftrightarrow> (case s of (ks, open_res, settled, excess) \<Rightarrow>
     \<exists>vk. ks_get ks k = Some vk \<and> vk_daily_budget_cents vk = Some limit
       \<and> spent_today today vk = base + open_sum open_res + settled
       \<and> spent_today today vk \<le> unat limit + excess
       \<and> (open_res \<noteq> [] \<longrightarrow> ds_date (sp_today (vk_spend vk)) = today))"

lemma roll_over_today [simp]:
  "ds_date (sp_today (roll_over d m sp)) = d"
  "unat (ds_cents (sp_today (roll_over d m sp))) =
     (if ds_date (sp_today sp) = d then unat (ds_cents (sp_today sp)) else 0)"
  by (simp_all add: roll_over_def Let_def)

lemma set_spend_today [simp]:
  "sp_today (vk_spend (set_spend vk a b c)) = (sp_today (vk_spend vk))\<lparr>ds_cents := a\<rparr>"
  by (simp add: set_spend_def Let_def)

text \<open>A granted reservation raises today's spend by exactly the reserved amount, within the limit.\<close>

lemma reserve_key_spent:
  assumes "reserve_key today m e vk = (vk', Reserved r)" "vk_daily_budget_cents vk = Some limit"
    and "unat limit < 2 ^ 63"
  shows "spent_today today vk' = spent_today today vk + unat r" "spent_today today vk' \<le> unat limit"
    "ds_date (sp_today (vk_spend vk')) = today"
proof -
  let ?sp = "roll_over today m (vk_spend vk)"
  let ?c = "ds_cents (sp_today ?sp)"
  from assms(1,2) have r: "r = e" and le: "sat_add ?c e \<le> limit"
    and vk': "sp_today (vk_spend vk') = (sp_today ?sp)\<lparr>ds_cents := sat_add ?c e\<rparr>"
    by (auto simp: reserve_key_def Let_def not_less split: if_splits)
  have "unat (sat_add ?c e) \<le> unat limit" using le by (simp add: word_le_nat_alt)
  then have sum: "unat (sat_add ?c e) = unat ?c + unat e"
    using assms(3) by (simp add: unat_sat_add min_def split: if_splits)
  show "spent_today today vk' = spent_today today vk + unat r" "spent_today today vk' \<le> unat limit"
    "ds_date (sp_today (vk_spend vk')) = today"
    using sum \<open>unat (sat_add ?c e) \<le> unat limit\<close> by (simp_all add: spent_today_def vk' r)
qed

lemma reserve_key_refused:
  assumes "reserve_key today m e vk = (vk', Exceeded)"
  shows "spent_today today vk' = spent_today today vk" "ds_date (sp_today (vk_spend vk')) = today"
  using assms by (auto simp: reserve_key_def Let_def spent_today_def split: if_splits)

text \<open>Settling below the reservation refunds the difference.\<close>

lemma reconcile_key_spent:
  assumes "actual < r" "unat r < 2 ^ 63" "unat r \<le> spent_today today vk"
    and "ds_date (sp_today (vk_spend vk)) = today"
  shows "spent_today today (reconcile_key r actual vk) = spent_today today vk - (unat r - unat actual)"
    "ds_date (sp_today (vk_spend (reconcile_key r actual vk))) = today"
proof -
  have lt: "unat actual < unat r" using assms(1) by (simp add: word_less_nat_alt)
  have "unat (actual - r) = unat actual + 2 ^ 64 - unat r"
    using lt by (simp add: unat_sub_if_size word_size)
  then have neg: "sint (actual - r) < 0" using assms(2) lt by (simp add: sint_u64_neg_iff)
  have "unat (r - actual) = unat r - unat actual"
    using assms(1) by (intro unat_sub) simp
  then show "spent_today today (reconcile_key r actual vk) = spent_today today vk - (unat r - unat actual)"
    "ds_date (sp_today (vk_spend (reconcile_key r actual vk))) = today"
    using neg assms(4) by (simp_all add: reconcile_key_def Let_def spent_today_def unat_sat_sub)
qed

text \<open>Settling above the reservation charges the difference, and a charge without a reservation adds up.\<close>

lemma reconcile_key_charged:
  assumes "r < actual" "spent_today today vk + (unat actual - unat r) < 2 ^ 63"
    and "ds_date (sp_today (vk_spend vk)) = today"
  shows "spent_today today (reconcile_key r actual vk) = spent_today today vk + (unat actual - unat r)"
    "ds_date (sp_today (vk_spend (reconcile_key r actual vk))) = today"
proof -
  have d: "unat (actual - r) = unat actual - unat r" using assms(1) by (intro unat_sub) simp
  then have "\<not> sint (actual - r) < 0" using assms(2) by (simp add: sint_u64_neg_iff)
  moreover have "unat (ds_cents (sp_today (vk_spend vk)) + (actual - r)) =
      unat (ds_cents (sp_today (vk_spend vk))) + (unat actual - unat r)"
    using d assms(2,3) by (simp add: spent_today_def unat_word_ariths)
  ultimately show "spent_today today (reconcile_key r actual vk) = spent_today today vk + (unat actual - unat r)"
    "ds_date (sp_today (vk_spend (reconcile_key r actual vk))) = today"
    using assms(3) by (simp_all add: reconcile_key_def Let_def spent_today_def)
qed

lemma accumulate_key_spent:
  assumes "spent_today today vk + unat c < 2 ^ 63"
  shows "spent_today today (accumulate_key today m c vk) = spent_today today vk + unat c"
    "ds_date (sp_today (vk_spend (accumulate_key today m c vk))) = today"
  using assms by (simp_all add: accumulate_key_def Let_def spent_today_def unat_word_ariths)

lemma spend_keeps_budget [simp]:
  "vk_daily_budget_cents (reconcile_key r a vk) = vk_daily_budget_cents vk"
  "vk_daily_budget_cents (accumulate_key d m c vk) = vk_daily_budget_cents vk"
  by (simp_all add: reconcile_key_def accumulate_key_def set_spend_def Let_def)

text \<open>Settling one of the open reservations moves its actual cost from the open to the settled ones.\<close>

lemma reconcile_spend_settles:
  assumes "ks_get ks k = Some vk" "ds_date (sp_today (vk_spend vk)) = today" "unat r \<le> spent_today today vk"
    and "spent_today today vk + (unat actual - unat r) < 2 ^ 63"
  obtains vk' where "ks_get (reconcile_spend ks k r actual) k = Some vk'"
    "spent_today today vk' + unat r = spent_today today vk + unat actual"
    "ds_date (sp_today (vk_spend vk')) = today" "vk_daily_budget_cents vk' = vk_daily_budget_cents vk"
proof -
  consider "actual = r" | "actual < r" | "r < actual" by fastforce
  then show ?thesis
  proof cases
    case 1
    then show ?thesis using assms that[of vk] by (simp add: reconcile_spend_def)
  next
    case 2
    have "ks_get (reconcile_spend ks k r actual) k = Some (reconcile_key r actual vk)"
      using 2 assms(1) by (auto simp: reconcile_spend_def vks.lookup_modify)
    moreover have "unat r < 2 ^ 63" using assms(3,4) by linarith
    note sp = reconcile_key_spent[OF 2 this assms(3,2)]
    have "unat actual < unat r" using 2 by (simp add: word_less_nat_alt)
    ultimately show ?thesis using that[of "reconcile_key r actual vk"] sp assms(3) by simp
  next
    case 3
    have "ks_get (reconcile_spend ks k r actual) k = Some (reconcile_key r actual vk)"
      using 3 assms(1) by (auto simp: reconcile_spend_def vks.lookup_modify)
    moreover have "unat r < unat actual" using 3 by (simp add: word_less_nat_alt)
    ultimately show ?thesis using that[of "reconcile_key r actual vk"] reconcile_key_charged[OF 3 assms(4,2)] by simp
  qed
qed

lemma open_sum_remove1: "r \<in> set rs \<Longrightarrow> open_sum rs = unat r + open_sum (remove1 r rs)"
  by (induction rs) (auto simp: open_sum_def)

lemma reserve_spend_key:
  assumes "reserve_spend ks d m k e = (ks', res)" "ks_get ks k = Some vk"
  obtains vk' where "reserve_key d m e vk = (vk', res)" "ks_get ks' k = Some vk'"
proof -
  obtain vk' r' where r: "reserve_key d m e vk = (vk', r')" by fastforce
  with assms have "res = r'" "ks_get ks' k = Some vk'"
    by (auto simp: reserve_spend_def ks_get_def ks_modify_def hm_get_modify)
  with r show ?thesis using that by simp
qed

definition excess_of :: "ledger \<Rightarrow> nat" where
  "excess_of s = (case s of (_, _, _, excess) \<Rightarrow> excess)"

lemma ledger_step_excess: "ledger_step today m k s s' \<Longrightarrow> excess_of s \<le> excess_of s'"
  by (induction rule: ledger_step.induct) (simp_all add: excess_of_def)

lemma ledger_okE:
  assumes "ledger_ok today k limit base (ks, open_res, settled, excess)"
  obtains vk where "ks_get ks k = Some vk" "vk_daily_budget_cents vk = Some limit"
    "spent_today today vk = base + open_sum open_res + settled" "spent_today today vk \<le> unat limit + excess"
    "open_res \<noteq> [] \<longrightarrow> ds_date (sp_today (vk_spend vk)) = today"
  using assms that unfolding ledger_ok_def prod.case by blast

lemma ledger_reserve_ok:
  assumes "reserve_spend ks today m k e = (ks', res)" "ledger_ok today k limit base (ks, open_res, settled, excess)"
    and "unat limit < 2 ^ 63"
  shows "res = Reserved r \<Longrightarrow> ledger_ok today k limit base (ks', r # open_res, settled, excess)"
    "res = Exceeded \<Longrightarrow> ledger_ok today k limit base (ks', open_res, settled, excess)"
proof -
  obtain vk where vk: "ks_get ks k = Some vk" "vk_daily_budget_cents vk = Some limit"
    "spent_today today vk = base + open_sum open_res + settled" "spent_today today vk \<le> unat limit + excess"
    using assms(2) by (rule ledger_okE)
  obtain vk' where vk': "reserve_key today m e vk = (vk', res)" "ks_get ks' k = Some vk'"
    using reserve_spend_key[OF assms(1) vk(1)] .
  have lim: "vk_daily_budget_cents vk' = Some limit"
    using reserve_key_fields(4)[of today m e vk] vk'(1) vk(2) by simp
  show "ledger_ok today k limit base (ks', r # open_res, settled, excess)" if "res = Reserved r"
    using reserve_key_spent[OF vk'(1)[unfolded that] vk(2) assms(3)] vk(3) vk'(2) lim
    by (auto simp: ledger_ok_def open_sum_def)
  show "ledger_ok today k limit base (ks', open_res, settled, excess)" if "res = Exceeded"
    using reserve_key_refused[OF vk'(1)[unfolded that]] vk(3,4) vk'(2) lim by (auto simp: ledger_ok_def)
qed

lemma ledger_step_ok:
  assumes "ledger_step today m k s s'" "ledger_ok today k limit base s" "unat limit + excess_of s' < 2 ^ 63"
  shows "ledger_ok today k limit base s'"
  using assms(1)
proof cases
  case (settle r open_res ks settled excess actual)
  obtain vk where vk: "ks_get ks k = Some vk" "vk_daily_budget_cents vk = Some limit"
    "spent_today today vk = base + open_sum open_res + settled" "spent_today today vk \<le> unat limit + excess"
    "open_res \<noteq> [] \<longrightarrow> ds_date (sp_today (vk_spend vk)) = today"
    using assms(2) unfolding settle(1) by (rule ledger_okE)
  have "open_res \<noteq> []" using settle(3) by auto
  then have date: "ds_date (sp_today (vk_spend vk)) = today" using vk(5) by simp
  have sum: "open_sum open_res = unat r + open_sum (remove1 r open_res)"
    using settle(3) by (rule open_sum_remove1)
  have "unat r \<le> spent_today today vk" using vk(3) sum by linarith
  moreover have "spent_today today vk + (unat actual - unat r) < 2 ^ 63"
    using assms(3) vk(4) settle(2) by (simp add: excess_of_def)
  ultimately obtain vk' where "ks_get (reconcile_spend ks k r actual) k = Some vk'"
    "spent_today today vk' + unat r = spent_today today vk + unat actual"
    "ds_date (sp_today (vk_spend vk')) = today" "vk_daily_budget_cents vk' = vk_daily_budget_cents vk"
    using reconcile_spend_settles[OF vk(1) date] by metis
  with vk sum show ?thesis by (auto simp: settle(2) ledger_ok_def)
next
  case (accumulate ks open_res settled excess c)
  obtain vk where vk: "ks_get ks k = Some vk" "vk_daily_budget_cents vk = Some limit"
    "spent_today today vk = base + open_sum open_res + settled" "spent_today today vk \<le> unat limit + excess"
    using assms(2) unfolding accumulate(1) by (rule ledger_okE)
  have "spent_today today vk + unat c < 2 ^ 63"
    using assms(3) vk(4) accumulate(2) by (simp add: excess_of_def)
  note sp = accumulate_key_spent[OF this, of m]
  have "ks_get (accumulate_spend ks today m k c) k = Some (accumulate_key today m c vk)"
    using vk(1) by (simp add: accumulate_spend_def vks.lookup_modify)
  with sp vk show ?thesis by (simp add: accumulate(2) ledger_ok_def)
next
  case (other j ks open_res settled excess f)
  then show ?thesis using assms(2) by (auto simp: ledger_ok_def vks.lookup_modify)
qed (use assms ledger_reserve_ok in auto)

lemma ledger_run_ok:
  assumes "ledger_run today m k s s'" "ledger_ok today k limit base s" "unat limit + excess_of s' < 2 ^ 63"
  shows "ledger_ok today k limit base s'"
  using assms
proof (induction rule: ledger_run.induct)
  case (step s s' s'')
  then have "unat limit + excess_of s' < 2 ^ 63" using ledger_step_excess[OF step(2)] by linarith
  with step show ?case by (blast intro: ledger_step_ok)
qed

lemma validate_cases:
  assumes "ks_ok ks" "ks_get ks i = Some vk" "vk_key_prefix vk = key_prefix_of plaintext"
  shows "validate sha256 ks now today this_month plaintext =
    (if vk_key_hash vk = sha256 plaintext \<and> vk_enabled vk \<and> \<not> is_expired vk now
        \<and> \<not> is_budget_exceeded vk today this_month then Some vk else None)"
  using ks_ok_key[OF assms(1,2)] assms by (auto simp: validate_def ks_get_def)

lemma validate_SomeD:
  assumes "ks_ok ks" "validate sha256 ks now today this_month plaintext = Some vk"
  shows "ks_get ks (vk_id vk) = Some vk \<and> vk_key_prefix vk = key_prefix_of plaintext
    \<and> vk_key_hash vk = sha256 plaintext \<and> vk_enabled vk \<and> \<not> is_expired vk now
    \<and> \<not> is_budget_exceeded vk today this_month"
proof -
  from assms(2) obtain i where i: "hm_get (ks_prefix_index ks) (key_prefix_of plaintext) = Some i"
    "ks_get ks i = Some vk"
    by (auto simp: validate_def ks_get_def split: option.splits if_splits)
  with ks_ok_index[OF assms(1) i(1)] ks_ok_key[OF assms(1) i(2)] have "vk_id vk = i"
    "vk_key_prefix vk = key_prefix_of plaintext" by auto
  with validate_cases[OF assms(1) i(2)] assms(2) i(2) show ?thesis by (auto split: if_splits)
qed

section \<open>Properties\<close>

text \<open>C5: reservations protect the daily budget under any interleaving: while the date does not change and the
  key is not edited, however its reservations, their settlements with whatever actual cost, charges without a
  reservation and the changes of other keys are interleaved, the day's counter is exactly the spend at the start
  plus the open reservations plus the costs charged. It exceeds the daily limit by at most what was charged
  beyond the reservations, so not at all when no settlement costs more than it had reserved. Hypotheses: the
  key starts within its limit, and limit and excess together stay below 2^63 cents.\<close>

theorem budget_ledger_exact:
  assumes "ledger_run today this_month k (ks, [], 0, 0) (ks', open_res, settled, excess)"
    and "ks_get ks k = Some vk" "vk_daily_budget_cents vk = Some limit" "unat limit + excess < 2 ^ 63"
    and "spent_today today vk \<le> unat limit"
  shows "\<exists>vk'. ks_get ks' k = Some vk' \<and> spent_today today vk' \<le> unat limit + excess
    \<and> spent_today today vk' = spent_today today vk + sum_list (map unat open_res) + settled"
proof -
  have "ledger_ok today k limit (spent_today today vk) (ks, [], 0, 0)"
    using assms(2,3,5) by (simp add: ledger_ok_def open_sum_def)
  from ledger_run_ok[OF assms(1) this] assms(4) show ?thesis
    by (auto simp: ledger_ok_def open_sum_def excess_of_def)
qed

definition example_key :: virtual_key where
  "example_key = \<lparr>vk_id = 3, vk_key_hash = ''h'', vk_key_prefix = ''p'', vk_name = ''n'',
     vk_daily_budget_cents = Some 100, vk_monthly_budget_cents = None, vk_enabled = True,
     vk_created_at = 0, vk_spend = no_spend, vk_allowed_models = None, vk_denied_models = [],
     vk_allowed_ips = [], vk_rpm_limit = None, vk_tpm_limit = None, vk_expires_at = None,
     vk_group = None\<rparr>"

definition example_store :: key_store where
  "example_store = \<lparr>ks_keys = [(3, example_key)], ks_prefix_index = [(''p'', 3)]\<rparr>"

text \<open>A reservation of 40 cents that is settled with 70.\<close>

lemma budget_ledger_exact_witness:
  "\<exists>vk'. ks_get (reconcile_spend (fst (reserve_spend example_store ''d'' ''m'' 3 40)) 3 40 70) 3 = Some vk'
     \<and> spent_today ''d'' vk' = 70"
proof -
  let ?r = "reserve_spend example_store ''d'' ''m'' 3 40"
  have "snd ?r = Reserved 40"
    by (simp add: example_store_def example_key_def reserve_spend_def reserve_key_def no_spend_def
        roll_over_def sat_add_def Let_def)
  then have res: "?r = (fst ?r, Reserved 40)" by (simp add: prod_eq_iff)
  have "ledger_step ''d'' ''m'' 3 (fst ?r, [40], 0, 0) (reconcile_spend (fst ?r) 3 40 70, [], 70, 30)"
    using ledger_step.settle[of 40 "[40]" "''d''" "''m''" 3 "fst ?r" 0 0 70] by simp
  then have "ledger_run ''d'' ''m'' 3 (example_store, [], 0, 0) (reconcile_spend (fst ?r) 3 40 70, [], 70, 30)"
    by (rule ledger_run.step[OF ledger_run.step[OF ledger_run.refl ledger_step.reserve[OF res]]])
  moreover have "ks_get example_store 3 = Some example_key" "spent_today ''d'' example_key = 0"
    "vk_daily_budget_cents example_key = Some 100"
    by (simp_all add: example_store_def ks_get_def example_key_def spent_today_def no_spend_def)
  ultimately show ?thesis
    using budget_ledger_exact[of "''d''" "''m''" 3 example_store "reconcile_spend (fst ?r) 3 40 70" "[]" 70 30] by auto
qed

text \<open>A reservation that is settled after midnight is refunded to the wrong day: a reservation of
  yesterday settled at no cost cancels today's reservation of another request, so the day's budget
  is handed out again.\<close>

theorem refund_crosses_midnight:
  "let s1 = fst (reserve_spend example_store ''d1'' ''m'' 3 100);
       s2 = fst (reserve_spend s1 ''d2'' ''m'' 3 100);
       s3 = reconcile_spend s2 3 100 0
   in snd (reserve_spend s2 ''d2'' ''m'' 3 100) = Exceeded
      \<and> snd (reserve_spend s3 ''d2'' ''m'' 3 100) = Reserved 100"
  by (simp add: example_store_def example_key_def reserve_spend_def reserve_key_def no_spend_def
      roll_over_def sat_add_def set_spend_def reconcile_spend_def reconcile_key_def ks_modify_def
      hm_modify_def sat_sub_def Let_def sint_u64_neg_iff)

text \<open>C18: a bearer token is accepted only as the stored key it belongs to: on a store whose index is
  consistent, \<open>validate\<close> returns a key exactly when a stored key has the token's prefix, its hash is
  the token's digest, and it is enabled, not expired and within its budgets.\<close>

theorem validate_exact:
  assumes "ks_ok ks"
  shows "validate sha256 ks now today this_month plaintext = Some vk \<longleftrightarrow>
    ks_get ks (vk_id vk) = Some vk \<and> vk_key_prefix vk = key_prefix_of plaintext
    \<and> vk_key_hash vk = sha256 plaintext \<and> vk_enabled vk \<and> \<not> is_expired vk now
    \<and> \<not> is_budget_exceeded vk today this_month" (is "?l = ?r")
proof
  assume ?l
  then show ?r by (rule validate_SomeD[OF assms])
next
  assume ?r
  then show ?l using validate_cases[OF assms, of "vk_id vk" vk] by simp
qed

lemma validate_exact_witness: "validate (\<lambda>_. ''h'') example_store 0 ''d'' ''m'' ''p'' = Some example_key"
proof -
  have ok: "ks_ok example_store"
    by (rule ks_okI) (auto simp: example_store_def ks_get_def example_key_def split: if_splits)
  show ?thesis
    unfolding validate_exact[OF ok]
    by (simp add: example_store_def ks_get_def example_key_def key_prefix_of_def is_expired_def
        is_budget_exceeded_def no_spend_def)
qed

text \<open>A created key works: the plaintext \<open>create\<close> returns validates to the created key, as long as
  it has not expired and no budget is zero.\<close>

theorem create_then_validate:
  assumes "16 \<le> length (''ms-vk-'' @ uuid_simple)" "\<forall>c \<in> set uuid_simple. (of_char c :: nat) < 128"
    and "case expires of Some e \<Rightarrow> now' \<le> e | None \<Rightarrow> True" "daily \<noteq> Some 0" "monthly \<noteq> Some 0"
  shows "case ks_create sha256 ks now uuid_simple i name daily monthly allowed denied ips rpm tpm expires grp of
    (ks', vk, plaintext) \<Rightarrow> validate sha256 ks' now' today this_month plaintext = Some vk"
proof -
  let ?r = "ks_create sha256 ks now uuid_simple i name daily monthly allowed denied ips rpm tpm expires grp"
  let ?p = "''ms-vk-'' @ uuid_simple"
  note get = ks_create_get[of sha256 ks now uuid_simple i name daily monthly allowed denied ips rpm tpm expires grp]
  have "(of_char (?p ! 16) :: nat) < 128" if "16 < length ?p"
  proof -
    have "?p ! 16 = uuid_simple ! 10" by (simp add: nth_append)
    moreover have "10 < length uuid_simple" using that by simp
    ultimately show ?thesis using assms(2) by simp
  qed
  then have pre: "key_prefix_of ?p = take 16 ?p"
    using assms(1) by (auto simp: key_prefix_of_def nat_less_le simp del: append.simps)
  have "\<not> is_expired (fst (snd ?r)) now'" using assms(3) by (auto simp: is_expired_def get(8) split: option.splits)
  moreover have "\<not> is_budget_exceeded (fst (snd ?r)) today this_month"
    unfolding is_budget_exceeded_def get(9,10,11) no_spend_def Let_def
    using assms(4,5) by (auto split: option.splits)
  moreover have "hm_get (ks_prefix_index (fst ?r)) (key_prefix_of ?p) = Some i"
    unfolding get(2) pre by simp
  moreover have "hm_get (ks_keys (fst ?r)) i = Some (fst (snd ?r))"
    using get(1)[of i] by (simp add: ks_get_def)
  ultimately have "validate sha256 (fst ?r) now' today this_month ?p = Some (fst (snd ?r))"
    using get(5,6,7) by (simp add: validate_def)
  then show ?thesis using get(6) by (simp add: case_prod_unfold)
qed

lemma create_then_validate_witness:
  "case ks_create (\<lambda>s. s) ks_new 0 ''0123456789abcdef'' 5 ''n'' (Some 10) None None [] [] None None None None of
     (ks', vk, plaintext) \<Rightarrow> validate (\<lambda>s. s) ks' 1 ''d'' ''m'' plaintext = Some vk"
  by (rule create_then_validate) simp_all

text \<open>The address filter decides CIDR membership: an address is in a range exactly when the range
  is a network and a prefix length of at most 32, both addresses are dotted quads, and they agree on
  the leading bits; every malformed input is refused.\<close>

theorem ip_in_cidr_exact:
  "ip_in_cidr ip cidr \<longleftrightarrow>
     (\<exists>network bits_text bits a n. split_once (CHR ''/'') cidr = Some (network, bits_text)
        \<and> parse_uint 255 bits_text = Some bits \<and> bits \<le> 32
        \<and> parse_ipv4 ip = Some a \<and> parse_ipv4 network = Some n
        \<and> unat a div 2 ^ (32 - bits) = unat n div 2 ^ (32 - bits))"
proof -
  have "unat (w :: u32) div 2 ^ 32 = 0" for w
  proof -
    have "unat w < 2 ^ LENGTH(32)" by (rule unsigned_less)
    then show ?thesis by simp
  qed
  then show ?thesis
    using mask_eq_drop
    by (auto simp: ip_in_cidr_def Let_def split: option.splits prod.splits if_splits)
qed

end
