(* ===== verification/Provider_Budget.thy ===== *)
theory Provider_Budget
  imports Virtual_Key
begin

text \<open>
  \<open>provider_budget.rs\<close>: budget caps per provider, with the spend counters of the virtual keys. The
  local date and month are arguments.
\<close>

record provider_budget_config =
  pb_daily_budget_cents :: "u64 option"
  pb_monthly_budget_cents :: "u64 option"

record provider_budget_store =
  pb_configs :: "(string, provider_budget_config) hashmap"
  pb_spend :: "(string, virtual_key_spend) hashmap"

definition pb_new :: provider_budget_store where
  "pb_new = \<lparr>pb_configs = [], pb_spend = []\<rparr>"

definition set_budget :: "provider_budget_store \<Rightarrow> string \<Rightarrow> provider_budget_config \<Rightarrow> provider_budget_store" where
  "set_budget s p cfg = s\<lparr>pb_configs := hm_insert p cfg (pb_configs s)\<rparr>"

definition get_budget :: "provider_budget_store \<Rightarrow> string \<Rightarrow> provider_budget_config option" where
  "get_budget s p = hm_get (pb_configs s) p"

definition delete_budget :: "provider_budget_store \<Rightarrow> string \<Rightarrow> provider_budget_store \<times> bool" where
  "delete_budget s p = (s\<lparr>pb_configs := hm_remove p (pb_configs s)\<rparr>, hm_contains (pb_configs s) p)"

definition check_budget :: "provider_budget_store \<Rightarrow> string \<Rightarrow> string \<Rightarrow> string \<Rightarrow> bool" where
  "check_budget s today this_month p =
     (case hm_get (pb_configs s) p of
        None \<Rightarrow> True
      | Some config \<Rightarrow>
          if pb_daily_budget_cents config = None \<and> pb_monthly_budget_cents config = None then True
          else
            let current = hm_get (pb_spend s) p;
                daily_spend = (case current of
                   Some sp \<Rightarrow> if ds_date (sp_today sp) = today then ds_cents (sp_today sp) else 0 | None \<Rightarrow> 0);
                monthly_spend = (case current of
                   Some sp \<Rightarrow> if ms_month (sp_this_month sp) = this_month then ms_cents (sp_this_month sp) else 0
                 | None \<Rightarrow> 0)
            in \<not> (case pb_daily_budget_cents config of Some limit \<Rightarrow> limit \<le> daily_spend | None \<Rightarrow> False)
               \<and> \<not> (case pb_monthly_budget_cents config of Some limit \<Rightarrow> limit \<le> monthly_spend | None \<Rightarrow> False))"

definition add_spend :: "u64 \<Rightarrow> virtual_key_spend \<Rightarrow> virtual_key_spend" where
  "add_spend cents sp =
     sp\<lparr>sp_today := (sp_today sp)\<lparr>ds_cents := ds_cents (sp_today sp) + cents\<rparr>,
        sp_this_month := (sp_this_month sp)\<lparr>ms_cents := ms_cents (sp_this_month sp) + cents\<rparr>,
        sp_total_cents := sp_total_cents sp + cents\<rparr>"

definition accumulate_provider_spend ::
  "provider_budget_store \<Rightarrow> string \<Rightarrow> string \<Rightarrow> string \<Rightarrow> u64 \<Rightarrow> provider_budget_store" where
  "accumulate_provider_spend s today this_month p cents =
     (let entry = (case hm_get (pb_spend s) p of Some sp \<Rightarrow> sp | None \<Rightarrow> no_spend)
      in s\<lparr>pb_spend := hm_insert p (add_spend cents (roll_over today this_month entry)) (pb_spend s)\<rparr>)"

definition get_provider_spend :: "provider_budget_store \<Rightarrow> string \<Rightarrow> virtual_key_spend option" where
  "get_provider_spend s p = hm_get (pb_spend s) p"

section \<open>The day's spend\<close>

definition provider_spent :: "provider_budget_store \<Rightarrow> string \<Rightarrow> string \<Rightarrow> u64" where
  "provider_spent s today p =
     (case hm_get (pb_spend s) p of
        Some sp \<Rightarrow> if ds_date (sp_today sp) = today then ds_cents (sp_today sp) else 0 | None \<Rightarrow> 0)"

definition charge_all :: "provider_budget_store \<Rightarrow> string \<Rightarrow> string \<Rightarrow> (string \<times> u64) list \<Rightarrow> provider_budget_store" where
  "charge_all s today this_month charges =
     foldl (\<lambda>s (p, c). accumulate_provider_spend s today this_month p c) s charges"

lemma provider_spent_accumulate:
  assumes "today \<noteq> []"
  shows "provider_spent (accumulate_provider_spend s today m q c) today p =
    (if p = q then provider_spent s today p + c else provider_spent s today p)"
  using assms
  by (auto simp: provider_spent_def accumulate_provider_spend_def add_spend_def roll_over_def no_spend_def
      Let_def split: option.splits)

lemma accumulate_configs [simp]: "pb_configs (accumulate_provider_spend s today m q c) = pb_configs s"
  by (simp add: accumulate_provider_spend_def Let_def)

lemma charge_all_configs [simp]: "pb_configs (charge_all s today m cs) = pb_configs s"
  by (induction cs arbitrary: s) (auto simp: charge_all_def)

lemma charge_all_spent:
  assumes "today \<noteq> []"
  shows "provider_spent (charge_all s today m cs) today p =
    provider_spent s today p + sum_list (map snd (filter (\<lambda>(q, _). q = p) cs))"
proof (induction cs arbitrary: s)
  case Nil
  then show ?case by (simp add: charge_all_def)
next
  case (Cons x cs)
  obtain q c where x: "x = (q, c)" by (cases x)
  have "charge_all s today m (x # cs) = charge_all (accumulate_provider_spend s today m q c) today m cs"
    by (simp add: charge_all_def x)
  then show ?case
    using Cons[of "accumulate_provider_spend s today m q c"] provider_spent_accumulate[OF assms, of s m q c p]
    by (auto simp: x)
qed

lemma unat_sum_list_word:
  "sum_list (map unat cs) < 2 ^ LENGTH('a) \<Longrightarrow> unat (sum_list cs) = sum_list (map unat cs)" for cs :: "'a::len word list"
proof (induction cs)
  case (Cons c cs)
  then have "unat (sum_list cs) = sum_list (map unat cs)" by simp
  with Cons.prems have "unat c + unat (sum_list cs) < 2 ^ LENGTH('a)" by simp
  then show ?case using \<open>unat (sum_list cs) = _\<close> by (simp add: unat_word_ariths)
qed simp

text \<open>A provider is cut off exactly when its day's charges reach the cap: after any sequence of
  charges to any providers on one day, starting with nothing spent, a provider with only a daily cap
  is within budget if and only if the sum of its own charges is below the cap.\<close>

theorem provider_budget_cutoff:
  assumes "today \<noteq> []" "hm_get (pb_configs s) p = Some \<lparr>pb_daily_budget_cents = Some limit, pb_monthly_budget_cents = None\<rparr>"
    and "provider_spent s today p = 0"
    and "sum_list (map unat (map snd (filter (\<lambda>(q, _). q = p) charges))) < 2 ^ 64"
  shows "check_budget (charge_all s today this_month charges) today this_month p \<longleftrightarrow>
    sum_list (map unat (map snd (filter (\<lambda>(q, _). q = p) charges))) < unat limit"
proof -
  let ?s = "charge_all s today this_month charges"
  let ?cs = "map snd (filter (\<lambda>(q, _). q = p) charges)"
  have "provider_spent ?s today p = sum_list ?cs"
    using charge_all_spent[OF assms(1), of s this_month charges p] assms(3) by simp
  moreover have "unat (sum_list ?cs) = sum_list (map unat ?cs)"
    using assms(4) by (intro unat_sum_list_word) simp
  moreover have "check_budget ?s today this_month p \<longleftrightarrow> provider_spent ?s today p < limit"
    using assms(2) by (auto simp: check_budget_def provider_spent_def Let_def not_le split: option.splits)
  ultimately show ?thesis by (simp add: word_less_nat_alt)
qed

lemma provider_budget_cutoff_witness:
  "\<not> check_budget (charge_all (set_budget pb_new ''openai''
       \<lparr>pb_daily_budget_cents = Some 100, pb_monthly_budget_cents = None\<rparr>) ''d'' ''m''
       [(''openai'', 60), (''gemini'', 5), (''openai'', 40)]) ''d'' ''m'' ''openai''"
  using provider_budget_cutoff[of "''d''" "set_budget pb_new ''openai''
       \<lparr>pb_daily_budget_cents = Some 100, pb_monthly_budget_cents = None\<rparr>" "''openai''" 100
       "[(''openai'', 60), (''gemini'', 5), (''openai'', 40)]" "''m''"]
  by (simp add: set_budget_def pb_new_def provider_spent_def)

end
