(* ===== verification/Persisted_Store.thy ===== *)
theory Persisted_Store
  imports Json
begin

text \<open>
  \<open>persisted_store.rs\<close>: a hash map with a JSON file behind it. The disk has the store file, the
  temporary file and the backups of corrupt files; \<open>persist\<close> is the list of the disk states it goes
  through, so a crash leaves one of them. The JSON parser and printer and the serde encoding of the
  map are arguments.
\<close>

record disk =
  d_file :: "string option"
  d_tmp :: "string option"
  d_backups :: "string list"

record ('k, 'v) persisted_store =
  ps_data :: "('k, 'v) hashmap"
  ps_poisoned :: bool

record ('k, 'v) codec =
  co_parse :: "string \<Rightarrow> json option"
  co_print :: "json \<Rightarrow> string"
  co_encode :: "('k, 'v) hashmap \<Rightarrow> json"
  co_decode :: "json \<Rightarrow> ('k, 'v) hashmap option"

definition DATA_SCHEMA_VERSION :: int where "DATA_SCHEMA_VERSION = 1"

definition ps_new :: "('k, 'v) persisted_store" where
  "ps_new = \<lparr>ps_data = [], ps_poisoned = False\<rparr>"

definition inject_schema_version :: "('k, 'v) codec \<Rightarrow> string \<Rightarrow> string" where
  "inject_schema_version co text =
     (case co_parse co text of
        Some (JObj obj) \<Rightarrow> co_print co (JObj (hm_insert ''schema_version'' (JInt DATA_SCHEMA_VERSION) obj))
      | _ \<Rightarrow> text)"

definition strip_schema_version :: "('k, 'v) codec \<Rightarrow> string \<Rightarrow> string" where
  "strip_schema_version co text =
     (case co_parse co text of
        Some (JObj obj) \<Rightarrow>
          if hm_contains obj ''schema_version'' then co_print co (JObj (hm_remove ''schema_version'' obj)) else text
      | _ \<Rightarrow> text)"

text \<open>How far the file operations of one \<open>persist\<close> get; \<open>WriteFails n\<close> leaves \<open>n\<close> bytes written.\<close>

datatype io_outcome = DirFails | OpenFails | WriteFails nat | SyncFails | RenameFails | IoOk

definition persist_states :: "io_outcome \<Rightarrow> disk \<Rightarrow> string \<Rightarrow> disk list" where
  "persist_states io d text =
     (let opened = d\<lparr>d_tmp := Some []\<rparr>; written = d\<lparr>d_tmp := Some text\<rparr>; removed = d\<lparr>d_tmp := None\<rparr>
      in case io of
           DirFails \<Rightarrow> [d]
         | OpenFails \<Rightarrow> [d]
         | WriteFails n \<Rightarrow> [d, opened, d\<lparr>d_tmp := Some (take n text)\<rparr>, removed]
         | SyncFails \<Rightarrow> [d, opened, written, removed]
         | RenameFails \<Rightarrow> [d, opened, written, removed]
         | IoOk \<Rightarrow> [d, opened, written, d\<lparr>d_file := Some text, d_tmp := None\<rparr>])"

definition ps_persist :: "('k, 'v) codec \<Rightarrow> io_outcome \<Rightarrow> ('k, 'v) persisted_store \<Rightarrow> disk \<Rightarrow> disk list" where
  "ps_persist co io ps d =
     (if ps_poisoned ps then [d]
      else persist_states io d (inject_schema_version co (co_print co (co_encode co (ps_data ps)))))"

text \<open>The result of \<open>read_to_string\<close>; an error other than a missing file includes invalid UTF-8.\<close>

datatype read_result = ReadOk | ReadError

definition insert_absent :: "('k, 'v) hashmap \<Rightarrow> ('k, 'v) hashmap \<Rightarrow> ('k, 'v) hashmap" where
  "insert_absent loaded data =
     fold (\<lambda>(k, v) m. if hm_contains m k then m else hm_insert k v m) loaded data"

definition ps_load ::
  "('k, 'v) codec \<Rightarrow> read_result \<Rightarrow> bool \<Rightarrow> ('k, 'v) persisted_store \<Rightarrow> disk \<Rightarrow> ('k, 'v) persisted_store \<times> disk" where
  "ps_load co rr rename_ok ps d =
     (case d_file d of
        None \<Rightarrow> (ps, d)
      | Some text \<Rightarrow>
          if rr = ReadError then (ps, d)
          else
            (case Option.bind (co_parse co (strip_schema_version co text)) (co_decode co) of
               None \<Rightarrow> (ps\<lparr>ps_poisoned := True\<rparr>,
                        if rename_ok then d\<lparr>d_file := None, d_backups := text # d_backups d\<rparr> else d)
             | Some loaded \<Rightarrow> (ps\<lparr>ps_data := insert_absent loaded (ps_data ps)\<rparr>, d)))"

section \<open>Lemmas\<close>

text \<open>What the JSON library and the serde derivation give for the data at hand.\<close>

definition codec_ok :: "('k, 'v) codec \<Rightarrow> ('k, 'v) hashmap \<Rightarrow> bool" where
  "codec_ok co data \<longleftrightarrow>
     (\<exists>obj data'. co_encode co data = JObj obj \<and> \<not> hm_contains obj ''schema_version''
        \<and> (\<forall>v \<in> {JObj obj, JObj (hm_insert ''schema_version'' (JInt DATA_SCHEMA_VERSION) obj)}.
              co_parse co (co_print co v) = Some v)
        \<and> co_decode co (JObj obj) = Some data' \<and> map_of data' = map_of data \<and> hm_ok data')"

lemma remove_insert_absent: "\<not> hm_contains obj k \<Longrightarrow> hm_remove k (hm_insert k v obj) = obj"
  by (induction obj) (auto simp: hm_contains_def split: if_splits)

lemma insert_absent_get:
  assumes "hm_ok loaded"
  shows "hm_get (insert_absent loaded data) k = (case hm_get data k of Some v \<Rightarrow> Some v | None \<Rightarrow> hm_get loaded k)"
  using assms
proof (induction loaded arbitrary: data)
  case Nil
  then show ?case by (simp add: insert_absent_def split: option.splits)
next
  case (Cons x loaded)
  obtain k' v' where x: "x = (k', v')" by (cases x)
  have IH: "hm_get (insert_absent loaded d) k = (case hm_get d k of Some v \<Rightarrow> Some v | None \<Rightarrow> hm_get loaded k)" for d
    using Cons by (simp add: hm_ok_def)
  have "k' \<notin> fst ` set loaded" using Cons.prems by (simp add: hm_ok_def x)
  then have no: "hm_get loaded k' = None" by (simp add: map_of_eq_None_iff)
  have "insert_absent (x # loaded) data =
      insert_absent loaded (if hm_contains data k' then data else hm_insert k' v' data)"
    by (simp add: insert_absent_def x)
  then show ?case using no by (auto simp: IH x hm_contains_def split: option.splits)
qed

text \<open>A crash never damages the store file: every disk state \<open>persist\<close> goes through holds
  either the old file or the complete new one, and a successful call ends with the new one.\<close>

theorem persist_crash_safe:
  "(\<forall>d'. d' \<in> set (ps_persist co io ps d) \<longrightarrow>
      d_file d' = d_file d
      \<or> d_file d' = Some (inject_schema_version co (co_print co (co_encode co (ps_data ps)))))
   \<and> (io = IoOk \<and> \<not> ps_poisoned ps \<longrightarrow>
      d_file (last (ps_persist co io ps d)) =
        Some (inject_schema_version co (co_print co (co_encode co (ps_data ps)))))"
  by (cases io) (auto simp: ps_persist_def persist_states_def Let_def)

definition example_codec :: "(string, string) codec" where
  "example_codec = \<lparr>co_parse = (\<lambda>s. if s = ''x'' then None else Some (JObj [])), co_print = (\<lambda>_. ''{}''),
     co_encode = (\<lambda>_. JObj []), co_decode = (\<lambda>_. Some [])\<rparr>"

lemma persist_crash_safe_witness:
  "d_file (last (ps_persist example_codec IoOk ps_new \<lparr>d_file = Some ''old'', d_tmp = None, d_backups = []\<rparr>)) = Some ''{}''"
  using persist_crash_safe[of example_codec IoOk ps_new "\<lparr>d_file = Some ''old'', d_tmp = None, d_backups = []\<rparr>"]
  by (simp add: ps_new_def inject_schema_version_def example_codec_def)

text \<open>What is persisted is what is loaded: loading the file a successful \<open>persist\<close> wrote into an
  empty store gives the same entries, with the schema version stripped again.\<close>

theorem persist_load_roundtrip:
  assumes "codec_ok co (ps_data ps)" "\<not> ps_poisoned ps"
  shows "case ps_load co ReadOk rename_ok ps_new (last (ps_persist co IoOk ps d)) of
    (ps', d') \<Rightarrow> map_of (ps_data ps') = map_of (ps_data ps) \<and> \<not> ps_poisoned ps'"
proof -
  from assms(1) obtain obj data' where obj: "co_encode co (ps_data ps) = JObj obj"
      "\<not> hm_contains obj ''schema_version''"
    and data': "co_decode co (JObj obj) = Some data'" "map_of data' = map_of (ps_data ps)" "hm_ok data'"
    and parse: "co_parse co (co_print co (JObj obj)) = Some (JObj obj)"
      "co_parse co (co_print co (JObj (hm_insert ''schema_version'' (JInt DATA_SCHEMA_VERSION) obj))) =
         Some (JObj (hm_insert ''schema_version'' (JInt DATA_SCHEMA_VERSION) obj))"
    unfolding codec_ok_def by auto
  let ?ins = "hm_insert ''schema_version'' (JInt DATA_SCHEMA_VERSION) obj"
  have "hm_contains ?ins ''schema_version''" by (simp add: hm_contains_def)
  then have strip: "strip_schema_version co (co_print co (JObj ?ins)) = co_print co (JObj obj)"
    by (simp add: strip_schema_version_def parse remove_insert_absent[OF obj(2)])
  have written: "d_file (last (ps_persist co IoOk ps d)) = Some (co_print co (JObj ?ins))"
    using assms(2)
    by (simp add: ps_persist_def persist_states_def Let_def inject_schema_version_def parse obj(1))
  have "map_of (insert_absent data' []) = map_of data'"
    using insert_absent_get[OF data'(3), of "[]"] by auto
  then show ?thesis
    using data' by (simp add: ps_load_def written strip parse ps_new_def)
qed

definition version_codec :: "(string, string) codec" where
  "version_codec = \<lparr>co_parse = (\<lambda>s. Some (JObj (if s = ''v'' then [(''schema_version'', JInt 1)] else []))),
     co_print = (\<lambda>v. if v = JObj [] then ''e'' else ''v''), co_encode = (\<lambda>_. JObj []), co_decode = (\<lambda>_. Some [])\<rparr>"

lemma persist_load_roundtrip_witness:
  "case ps_load version_codec ReadOk True ps_new
      (last (ps_persist version_codec IoOk ps_new \<lparr>d_file = None, d_tmp = None, d_backups = []\<rparr>)) of
     (ps', d') \<Rightarrow> map_of (ps_data ps') = map_of [] \<and> \<not> ps_poisoned ps'"
proof -
  have "codec_ok version_codec (ps_data ps_new)"
    by (simp add: codec_ok_def version_codec_def hm_contains_def DATA_SCHEMA_VERSION_def ps_new_def)
  then show ?thesis
    using persist_load_roundtrip[of version_codec ps_new True "\<lparr>d_file = None, d_tmp = None, d_backups = []\<rparr>"]
    by (simp add: ps_new_def)
qed

text \<open>A corrupt file is never overwritten: loading it poisons the store, and a poisoned store
  writes nothing.\<close>

theorem corrupt_file_poisons:
  assumes "d_file d = Some text" "Option.bind (co_parse co (strip_schema_version co text)) (co_decode co) = None"
  shows "case ps_load co ReadOk rename_ok ps d of
    (ps', d') \<Rightarrow> ps_persist co io ps' d' = [d'] \<and> (d_file d' = Some text \<or> text \<in> set (d_backups d'))"
  using assms by (simp add: ps_load_def ps_persist_def)

lemma corrupt_file_poisons_witness:
  "case ps_load example_codec ReadOk True ps_new \<lparr>d_file = Some ''x'', d_tmp = None, d_backups = []\<rparr> of
     (ps', d') \<Rightarrow> ps_persist example_codec IoOk ps' d' = [d'] \<and> d_backups d' = [''x'']"
  using corrupt_file_poisons[of "\<lparr>d_file = Some ''x'', d_tmp = None, d_backups = []\<rparr>" "''x''" example_codec IoOk True ps_new]
  by (simp add: example_codec_def strip_schema_version_def ps_load_def)

text \<open>The poisoning misses read errors: when the file exists but cannot be read (for instance
  because it is not valid UTF-8), \<open>load\<close> returns with an empty, unpoisoned store and the next
  \<open>persist\<close> replaces the file.\<close>

theorem read_error_overwrites:
  assumes "d_file d = Some text"
  shows "case ps_load co ReadError rename_ok ps_new d of
    (ps', d') \<Rightarrow> \<not> ps_poisoned ps' \<and> ps_data ps' = []
      \<and> d_file (last (ps_persist co IoOk ps' d')) =
          Some (inject_schema_version co (co_print co (co_encode co [])))"
  using assms by (simp add: ps_load_def ps_persist_def persist_states_def ps_new_def Let_def)

lemma read_error_overwrites_witness:
  "case ps_load example_codec ReadError True ps_new \<lparr>d_file = Some ''precious'', d_tmp = None, d_backups = []\<rparr> of
     (ps', d') \<Rightarrow> d_file (last (ps_persist example_codec IoOk ps' d')) = Some ''{}''"
  using read_error_overwrites[of "\<lparr>d_file = Some ''precious'', d_tmp = None, d_backups = []\<rparr>" "''precious''" example_codec True]
  by (simp add: example_codec_def inject_schema_version_def case_prod_unfold)

end
