(* ===== verification/Cache.thy ===== *)
theory Cache
  imports Json Channel
begin

text \<open>
  \<open>proxy/cache.rs\<close>: the response cache with its time-to-live and its eviction in insertion order,
  the key material of a request, and the coalescing of identical requests in flight. The hash
  (blake3, cut to 128 bits) and the JSON printer are arguments.
\<close>

section \<open>Modes\<close>

datatype cache_mode = CacheOn | CacheOff | CacheReadOnly | CacheWriteOnly

definition can_read :: "cache_mode \<Rightarrow> bool" where
  "can_read m \<longleftrightarrow> m = CacheOn \<or> m = CacheReadOnly"

definition can_write :: "cache_mode \<Rightarrow> bool" where
  "can_write m \<longleftrightarrow> m = CacheOn \<or> m = CacheWriteOnly"

definition parse_mode :: "string \<Rightarrow> cache_mode" where
  "parse_mode s = (let l = to_lowercase s in
     if l \<in> {''off'', ''disabled'', ''false''} then CacheOff
     else if l \<in> {''readonly'', ''read-only'', ''ro''} then CacheReadOnly
     else if l \<in> {''writeonly'', ''write-only'', ''wo''} then CacheWriteOnly
     else CacheOn)"

section \<open>Key material\<close>

fun join_with :: "string \<Rightarrow> string list \<Rightarrow> string" where
  "join_with sep [] = []"
| "join_with sep [x] = x"
| "join_with sep (x # xs) = x @ sep @ join_with sep xs"

definition canonical_key_material :: "(json \<Rightarrow> string) \<Rightarrow> string \<Rightarrow> json \<Rightarrow> string" where
  "canonical_key_material print model body =
     model @ [CHR 0x00] @
     (case body of
        JObj m \<Rightarrow>
          ''{'' @ join_with '',''
            (map (\<lambda>(k, v). print (JStr k) @ '':'' @ print v)
               (filter (\<lambda>(k, _). k \<noteq> ''stream'' \<and> k \<noteq> ''stream_options'') m)) @ ''}''
      | _ \<Rightarrow> print body)"

type_synonym cache_key = uuid

definition compute_key ::
  "(string \<Rightarrow> cache_key) \<Rightarrow> (json \<Rightarrow> string) \<Rightarrow> string \<Rightarrow> json \<Rightarrow> cache_key \<times> string" where
  "compute_key hash print model body =
     (let material = canonical_key_material print model body in (hash material, material))"

section \<open>The cache\<close>

record cache_entry =
  ce_response_body :: string
  ce_cached_at :: instant
  ce_key_material :: string

record request_cache =
  ca_entries :: "(cache_key, cache_entry) hashmap"
  ca_order :: "cache_key list"
  ca_ttl :: nat
  ca_max_entries :: nat
  ca_mode :: cache_mode

definition cache_new :: "nat \<Rightarrow> nat \<Rightarrow> cache_mode \<Rightarrow> request_cache" where
  "cache_new ttl max_entries mode =
     \<lparr>ca_entries = [], ca_order = [], ca_ttl = ttl, ca_max_entries = max_entries, ca_mode = mode\<rparr>"

definition cache_get :: "request_cache \<Rightarrow> instant \<Rightarrow> cache_key \<Rightarrow> string \<Rightarrow> string option" where
  "cache_get c now key material =
     (if \<not> can_read (ca_mode c) then None
      else (case hm_get (ca_entries c) key of
              None \<Rightarrow> None
            | Some e \<Rightarrow>
                if ca_ttl c \<le> now - ce_cached_at e then None
                else if ce_key_material e = material then Some (ce_response_body e) else None))"

definition sweep_expired :: "request_cache \<Rightarrow> instant \<Rightarrow> request_cache \<times> nat" where
  "sweep_expired c now =
     (let expired = map fst (filter (\<lambda>(_, e). ca_ttl c \<le> now - ce_cached_at e) (ca_entries c));
          c' = fold (\<lambda>k c. c\<lparr>ca_entries := hm_remove k (ca_entries c),
                            ca_order := filter (\<lambda>j. j \<noteq> k) (ca_order c)\<rparr>) expired c
      in (c', length (ca_entries c) - length (ca_entries c')))"

function evict_oldest :: "nat \<Rightarrow> (cache_key, cache_entry) hashmap \<Rightarrow> cache_key list
    \<Rightarrow> (cache_key, cache_entry) hashmap \<times> cache_key list" where
  "evict_oldest max_entries entries order =
     (if length entries \<le> max_entries then (entries, order)
      else case order of
             [] \<Rightarrow> (entries, order)
           | k # rest \<Rightarrow> evict_oldest max_entries (hm_remove k entries) rest)"
  by pat_completeness auto

termination
  by (relation "measure (\<lambda>(_, _, order). length order)") auto

definition cache_insert :: "request_cache \<Rightarrow> instant \<Rightarrow> cache_key \<Rightarrow> string \<Rightarrow> string \<Rightarrow> request_cache" where
  "cache_insert c now key material body =
     (if \<not> can_write (ca_mode c) then c
      else
        let order = (if hm_contains (ca_entries c) key then filter (\<lambda>k. k \<noteq> key) (ca_order c) else ca_order c);
            entries = hm_insert key \<lparr>ce_response_body = body, ce_cached_at = now, ce_key_material = material\<rparr>
                        (ca_entries c);
            (entries', order') = evict_oldest (ca_max_entries c) entries (order @ [key])
        in c\<lparr>ca_entries := entries', ca_order := order'\<rparr>)"

definition cache_len :: "request_cache \<Rightarrow> nat" where
  "cache_len c = length (ca_entries c)"

definition cache_flush :: "request_cache \<Rightarrow> request_cache" where
  "cache_flush c = c\<lparr>ca_entries := [], ca_order := []\<rparr>"

definition cache_set_mode :: "request_cache \<Rightarrow> cache_mode \<Rightarrow> request_cache" where
  "cache_set_mode c m = c\<lparr>ca_mode := m\<rparr>"

section \<open>Requests in flight\<close>

text \<open>
  Every registration creates a fresh \<open>Notify\<close>, here a number. A caller of \<open>wait\<close> first clones the
  notifier under the lock and then starts to listen; \<open>notify_waiters\<close> wakes those who listen at that
  time. The state has the map, the next fresh notifier, the callers that have cloned a notifier
  and those that listen.
\<close>

record in_flight =
  if_map :: "(cache_key, nat) hashmap"
  if_next :: nat
  if_cloned :: "(nat \<times> nat) list"
  if_listening :: "(nat \<times> nat) list"

definition if_new :: in_flight where
  "if_new = \<lparr>if_map = [], if_next = 0, if_cloned = [], if_listening = []\<rparr>"

definition register :: "in_flight \<Rightarrow> cache_key \<Rightarrow> in_flight \<times> bool" where
  "register f key =
     (if hm_contains (if_map f) key then (f, False)
      else (f\<lparr>if_map := hm_insert key (if_next f) (if_map f), if_next := if_next f + 1\<rparr>, True))"

definition wait_clone :: "in_flight \<Rightarrow> nat \<Rightarrow> cache_key \<Rightarrow> in_flight" where
  "wait_clone f waiter key =
     (case hm_get (if_map f) key of
        None \<Rightarrow> f
      | Some n \<Rightarrow> f\<lparr>if_cloned := (waiter, n) # if_cloned f\<rparr>)"

definition wait_listen :: "in_flight \<Rightarrow> nat \<times> nat \<Rightarrow> in_flight" where
  "wait_listen f w = f\<lparr>if_cloned := remove1 w (if_cloned f), if_listening := w # if_listening f\<rparr>"

definition complete :: "in_flight \<Rightarrow> cache_key \<Rightarrow> in_flight" where
  "complete f key =
     (case hm_get (if_map f) key of
        None \<Rightarrow> f
      | Some n \<Rightarrow> f\<lparr>if_map := hm_remove key (if_map f),
                    if_listening := filter (\<lambda>(_, m). m \<noteq> n) (if_listening f)\<rparr>)"

inductive inflight_step :: "in_flight \<Rightarrow> in_flight \<Rightarrow> bool" where
  register: "inflight_step f (fst (register f key))"
| clone: "inflight_step f (wait_clone f waiter key)"
| listen: "w \<in> set (if_cloned f) \<Longrightarrow> inflight_step f (wait_listen f w)"
| complete: "inflight_step f (complete f key)"

inductive inflight_run :: "in_flight \<Rightarrow> in_flight \<Rightarrow> bool" where
  refl: "inflight_run f f"
| step: "inflight_run f f' \<Longrightarrow> inflight_step f' f'' \<Longrightarrow> inflight_run f f''"

section \<open>Invariant of the cache\<close>

definition cache_ok :: "request_cache \<Rightarrow> bool" where
  "cache_ok c \<longleftrightarrow> hm_ok (ca_entries c) \<and> distinct (ca_order c) \<and> set (ca_order c) = fst ` set (ca_entries c)
     \<and> length (ca_entries c) \<le> ca_max_entries c"

definition order_ok :: "(cache_key, cache_entry) hashmap \<Rightarrow> cache_key list \<Rightarrow> bool" where
  "order_ok entries order \<longleftrightarrow> hm_ok entries \<and> distinct order \<and> set order = fst ` set entries"

lemma keys_hm_remove: "fst ` set (hm_remove k m) = fst ` set m - {k}"
  by (metis delete_keys set_map set_removeAll)

lemma order_ok_remove: "order_ok entries (k # order) \<Longrightarrow> order_ok (hm_remove k entries) order"
  by (auto simp: order_ok_def keys_hm_remove)

lemma order_ok_length: "order_ok entries order \<Longrightarrow> length order = length entries"
  by (metis distinct_card hm_ok_def length_map order_ok_def set_map)

lemma evict_oldest_eqs:
  "length entries \<le> n \<Longrightarrow> evict_oldest n entries order = (entries, order)"
  "evict_oldest n entries [] = (entries, [])"
  "n < length entries \<Longrightarrow> evict_oldest n entries (k # rest) = evict_oldest n (hm_remove k entries) rest"
  by (simp_all add: evict_oldest.simps[of n entries])

declare evict_oldest.simps [simp del]

lemma evict_oldest_ok:
  "order_ok entries order \<Longrightarrow> evict_oldest n entries order = (entries', order') \<Longrightarrow>
   order_ok entries' order' \<and> length entries' \<le> n"
proof (induction order arbitrary: entries)
  case Nil
  then show ?case using order_ok_length[OF Nil(1)] by (simp add: evict_oldest_eqs)
next
  case (Cons k rest)
  then show ?case
    by (cases "length entries \<le> n") (auto simp: evict_oldest_eqs not_le dest: order_ok_remove)
qed

text \<open>The keys kept are a suffix of the insertion order.\<close>

lemma evict_oldest_suffix:
  "evict_oldest n entries order = (entries', order') \<Longrightarrow>
   \<exists>gone. order = gone @ order' \<and> (\<forall>k. k \<notin> set gone \<longrightarrow> hm_get entries' k = hm_get entries k)"
proof (induction order arbitrary: entries)
  case Nil
  then show ?case by (simp add: evict_oldest_eqs)
next
  case (Cons k rest)
  show ?case
  proof (cases "length entries \<le> n")
    case True
    with Cons.prems show ?thesis by (auto simp: evict_oldest_eqs)
  next
    case False
    with Cons.prems have "evict_oldest n (hm_remove k entries) rest = (entries', order')"
      by (simp add: evict_oldest_eqs)
    from Cons.IH[OF this] obtain gone where "rest = gone @ order'"
      "\<forall>j. j \<notin> set gone \<longrightarrow> hm_get entries' j = hm_get (hm_remove k entries) j" by blast
    then show ?thesis by (intro exI[of _ "k # gone"]) auto
  qed
qed

text \<open>With one entry too many the eviction drops the oldest key, not the one just appended.\<close>

lemma evict_keeps_newest:
  assumes "order_ok entries (order @ [key])" "length entries \<le> Suc n" "0 < n"
  shows "hm_get (fst (evict_oldest n entries (order @ [key]))) key = hm_get entries key"
proof (cases "length entries \<le> n")
  case True
  then show ?thesis by (simp add: evict_oldest_eqs)
next
  case False
  have "length (order @ [key]) = length entries" using assms(1) by (rule order_ok_length)
  with False assms(3) obtain k rest where o: "order = k # rest" by (cases order) auto
  then have ok: "order_ok (hm_remove k entries) (rest @ [key])" "k \<noteq> key"
    using assms(1) order_ok_remove[of entries k "rest @ [key]"] by (auto simp: order_ok_def)
  have "length (hm_remove k entries) \<le> n"
    using order_ok_length[OF ok(1)] order_ok_length[OF assms(1)] assms(2) o by simp
  with False ok(2) o show ?thesis by (simp add: evict_oldest_eqs not_le)
qed

lemma insert_order_ok:
  assumes "cache_ok c"
  shows "order_ok (hm_insert key e (ca_entries c))
    ((if hm_contains (ca_entries c) key then filter (\<lambda>k. k \<noteq> key) (ca_order c) else ca_order c) @ [key])"
proof -
  have keys: "fst ` set (hm_insert key e (ca_entries c)) = insert key (fst ` set (ca_entries c))"
    unfolding set_map[symmetric] update_keys by auto
  have "hm_contains (ca_entries c) key \<longleftrightarrow> key \<in> fst ` set (ca_entries c)"
    by (simp add: hm_contains_def map_of_eq_None_iff)
  then show ?thesis using assms by (auto simp: order_ok_def cache_ok_def keys)
qed

lemma cache_insert_ok: "cache_ok c \<Longrightarrow> cache_ok (cache_insert c now key mat body)"
proof -
  assume ok: "cache_ok c"
  let ?e = "\<lparr>ce_response_body = body, ce_cached_at = now, ce_key_material = mat\<rparr>"
  obtain es os where ev: "evict_oldest (ca_max_entries c) (hm_insert key ?e (ca_entries c))
    ((if hm_contains (ca_entries c) key then filter (\<lambda>k. k \<noteq> key) (ca_order c) else ca_order c) @ [key]) = (es, os)"
    by fastforce
  from evict_oldest_ok[OF insert_order_ok[OF ok] ev] ok show ?thesis
    by (auto simp: cache_insert_def Let_def ev cache_ok_def order_ok_def)
qed

text \<open>Sweeping drops the expired entries together with their place in the order.\<close>

lemma drop_keys_eq:
  "fold (\<lambda>k c. c\<lparr>ca_entries := hm_remove k (ca_entries c), ca_order := filter (\<lambda>j. j \<noteq> k) (ca_order c)\<rparr>) ks c =
   c\<lparr>ca_entries := fold hm_remove ks (ca_entries c), ca_order := filter (\<lambda>j. j \<notin> set ks) (ca_order c)\<rparr>"
  by (induction ks arbitrary: c) (simp_all add: conj_commute)

lemma fold_remove_length: "length (fold hm_remove ks m) \<le> length m"
proof (induction ks arbitrary: m)
  case (Cons k ks)
  then show ?case using Cons[of "hm_remove k m"] length_delete_le[of k m] by (simp, linarith)
qed simp

lemma fold_remove_keys: "fst ` set (fold hm_remove ks m) = fst ` set m - set ks"
  by (induction ks arbitrary: m) (auto simp: keys_hm_remove)

lemma sweep_ok: "cache_ok c \<Longrightarrow> cache_ok (fst (sweep_expired c now))"
  using order_trans[OF fold_remove_length]
  by (auto simp: sweep_expired_def Let_def drop_keys_eq cache_ok_def fold_remove_ok fold_remove_keys)

lemma sweep_get:
  assumes "cache_ok c"
  shows "cache_get (fst (sweep_expired c now)) now key mat = cache_get c now key mat"
proof -
  have "hm_ok (ca_entries c)" using assms by (simp add: cache_ok_def)
  then have "key \<in> fst ` {(k, e) \<in> set (ca_entries c). ca_ttl c \<le> now - ce_cached_at e} \<longleftrightarrow>
      (\<exists>e. hm_get (ca_entries c) key = Some e \<and> ca_ttl c \<le> now - ce_cached_at e)"
    by (force simp: hm_get_iff)
  then show ?thesis
    by (auto simp: sweep_expired_def Let_def drop_keys_eq cache_get_def fold_remove_get split: option.splits)
qed

section \<open>Where a cached response comes from\<close>

text \<open>The inserts a cache has seen: time, key, material and body.\<close>

type_synonym insert_log = "(instant \<times> cache_key \<times> string \<times> string) list"

definition from_log :: "insert_log \<Rightarrow> request_cache \<Rightarrow> bool" where
  "from_log es c \<longleftrightarrow> (\<forall>k e. hm_get (ca_entries c) k = Some e \<longrightarrow>
     (ce_cached_at e, k, ce_key_material e, ce_response_body e) \<in> set es)"

inductive cache_run :: "insert_log \<Rightarrow> request_cache \<Rightarrow> bool" where
  start: "cache_run [] (cache_new ttl n mode)"
| ins: "cache_run es c \<Longrightarrow> cache_run ((now, key, mat, body) # es) (cache_insert c now key mat body)"
| sweep: "cache_run es c \<Longrightarrow> cache_run es (fst (sweep_expired c now))"
| flushed: "cache_run es c \<Longrightarrow> cache_run es (cache_flush c)"
| mode: "cache_run es c \<Longrightarrow> cache_run es (cache_set_mode c m)"

lemma evict_oldest_sub:
  "evict_oldest n en od = (en', od') \<Longrightarrow> hm_get en' k = Some e \<Longrightarrow> hm_get en k = Some e"
proof (induction od arbitrary: en)
  case Nil
  then show ?case by (simp add: evict_oldest_eqs)
next
  case (Cons a od)
  show ?case
  proof (cases "length en \<le> n")
    case True
    with Cons.prems show ?thesis by (simp add: evict_oldest_eqs)
  next
    case False
    with Cons.prems(1) have "evict_oldest n (hm_remove a en) od = (en', od')" by (simp add: evict_oldest_eqs)
    from Cons.IH[OF this Cons.prems(2)] show ?thesis by (simp split: if_splits)
  qed
qed

lemma insert_entries_get:
  "hm_get (ca_entries (cache_insert c now key mat body)) k = Some e \<Longrightarrow>
   hm_get (ca_entries c) k = Some e
   \<or> (k = key \<and> e = \<lparr>ce_response_body = body, ce_cached_at = now, ce_key_material = mat\<rparr>)"
proof -
  assume get: "hm_get (ca_entries (cache_insert c now key mat body)) k = Some e"
  let ?e = "\<lparr>ce_response_body = body, ce_cached_at = now, ce_key_material = mat\<rparr>"
  let ?ord = "(if hm_contains (ca_entries c) key then filter (\<lambda>k. k \<noteq> key) (ca_order c) else ca_order c) @ [key]"
  obtain es os where ev: "evict_oldest (ca_max_entries c) (hm_insert key ?e (ca_entries c)) ?ord = (es, os)" by fastforce
  show ?thesis
    using get evict_oldest_sub[OF ev, of k e]
    by (auto simp: cache_insert_def Let_def ev split: if_splits)
qed

lemma cache_run_log: "cache_run es c \<Longrightarrow> from_log es c"
proof (induction rule: cache_run.induct)
  case (ins es c now key mat body)
  then show ?case using insert_entries_get[of c now key mat body] by (fastforce simp: from_log_def)
next
  case (sweep es c now)
  then show ?case
    by (auto simp: from_log_def sweep_expired_def Let_def drop_keys_eq fold_remove_get split: if_splits)
qed (simp_all add: from_log_def cache_new_def cache_flush_def cache_set_mode_def)

section \<open>Lost wake-ups\<close>

definition notifier_gone :: "nat \<Rightarrow> in_flight \<Rightarrow> bool" where
  "notifier_gone n f \<longleftrightarrow> n < if_next f \<and> (\<forall>k. hm_get (if_map f) k \<noteq> Some n)"

lemma notifier_gone_step: "inflight_step f f' \<Longrightarrow> notifier_gone n f \<Longrightarrow> notifier_gone n f'"
  by (induction rule: inflight_step.induct)
    (auto simp: notifier_gone_def register_def wait_clone_def wait_listen_def complete_def split: option.splits)

lemma listening_stays:
  "inflight_step f f' \<Longrightarrow> notifier_gone n f \<Longrightarrow> (w, n) \<in> set (if_listening f) \<Longrightarrow> (w, n) \<in> set (if_listening f')"
  by (induction rule: inflight_step.induct)
    (auto simp: notifier_gone_def register_def wait_clone_def wait_listen_def complete_def split: option.splits)

lemma stuck_forever:
  "inflight_run f f' \<Longrightarrow> notifier_gone n f \<Longrightarrow> (w, n) \<in> set (if_listening f) \<Longrightarrow>
   notifier_gone n f' \<and> (w, n) \<in> set (if_listening f')"
  by (induction rule: inflight_run.induct) (auto intro: notifier_gone_step listening_stays)

section \<open>Properties\<close>

text \<open>C34: the cache keeps its capacity: inserting and sweeping keep the bound and the agreement of
  entries and eviction order, a sweep is invisible to lookups, and what was just inserted is found
  by the same key and material, whatever was evicted for it.\<close>

theorem cache_invariant:
  assumes "cache_ok c"
  shows "cache_ok (cache_insert c now key mat body) \<and> cache_ok (fst (sweep_expired c now))
    \<and> cache_get (fst (sweep_expired c now)) now key mat = cache_get c now key mat
    \<and> (ca_mode c = CacheOn \<and> 0 < ca_max_entries c \<and> 0 < ca_ttl c \<longrightarrow>
        cache_get (cache_insert c now key mat body) now key mat = Some body)"
proof (intro conjI impI)
  let ?e = "\<lparr>ce_response_body = body, ce_cached_at = now, ce_key_material = mat\<rparr>"
  let ?ins = "hm_insert key ?e (ca_entries c)"
  let ?ord = "if hm_contains (ca_entries c) key then filter (\<lambda>k. k \<noteq> key) (ca_order c) else ca_order c"
  assume m: "ca_mode c = CacheOn \<and> 0 < ca_max_entries c \<and> 0 < ca_ttl c"
  have "length ?ins \<le> Suc (ca_max_entries c)" using assms by (simp add: cache_ok_def length_hm_insert)
  then have "hm_get (fst (evict_oldest (ca_max_entries c) ?ins (?ord @ [key]))) key = Some ?e"
    using evict_keeps_newest[OF insert_order_ok[OF assms, of key ?e]] m by simp
  then show "cache_get (cache_insert c now key mat body) now key mat = Some body"
    using m by (auto simp: cache_insert_def cache_get_def can_write_def can_read_def Let_def split: prod.splits)
qed (use assms cache_insert_ok sweep_ok sweep_get in auto)

lemma cache_invariant_witness:
  "cache_get (cache_insert (cache_insert (cache_new 100 1 CacheOn) 1 7 ''a'' ''x'') 2 8 ''b'' ''y'') 2 8 ''b'' = Some ''y''"
proof -
  have "cache_ok (cache_new 100 1 CacheOn)" by (simp add: cache_ok_def cache_new_def)
  then have "cache_ok (cache_insert (cache_new 100 1 CacheOn) 1 7 ''a'' ''x'')"
    using cache_invariant by blast
  from cache_invariant[OF this, of 2 8 "''b''" "''y''"] show ?thesis
    by (simp add: cache_insert_def cache_new_def can_write_def Let_def split: prod.splits)
qed

text \<open>C33: the cache never serves another request's response, even when hashes collide: in every
  reachable state a hit for a key and its material returns a body that was inserted for that key
  and that very material less than one time-to-live ago.\<close>

theorem cache_hit_sound:
  assumes "cache_run es c" "cache_get c now key mat = Some body"
  shows "\<exists>t. (t, key, mat, body) \<in> set es \<and> now - t < ca_ttl c"
  using cache_run_log[OF assms(1)] assms(2)
  by (auto simp: cache_get_def from_log_def not_le split: if_splits option.splits)

lemma cache_hit_sound_witness:
  "\<exists>t. (t, 7, ''a'', ''x'') \<in> set [(1, 7, ''a'', ''x'')] \<and> (5::nat) - t < 100"
proof -
  have run: "cache_run [(1, 7, ''a'', ''x'')] (cache_insert (cache_new 100 1 CacheOn) 1 7 ''a'' ''x'')"
    by (rule cache_run.ins[OF cache_run.start])
  have "cache_get (cache_insert (cache_new 100 1 CacheOn) 1 7 ''a'' ''x'') 5 7 ''a'' = Some ''x''"
    by (simp add: cache_insert_def cache_new_def cache_get_def can_write_def can_read_def Let_def
        hm_contains_def evict_oldest_eqs)
  from cache_hit_sound[OF run this] show ?thesis
    by (simp add: cache_insert_def cache_new_def can_write_def Let_def hm_contains_def evict_oldest_eqs)
qed

text \<open>C40: coalescing can lose a wake-up: a waiter that has taken the notifier from the map but does
  not listen yet when the request completes waits for ever, since the notifier is gone from the map
  and no later step signals it.\<close>

theorem coalesced_waiter_can_hang:
  "\<exists>f. inflight_run if_new f \<and> (1, 0) \<in> set (if_listening f)
     \<and> (\<forall>f'. inflight_run f f' \<longrightarrow> (1, 0) \<in> set (if_listening f'))"
proof -
  let ?f1 = "fst (register if_new 5)"
  let ?f2 = "wait_clone ?f1 1 5"
  let ?f3 = "complete ?f2 5"
  let ?f4 = "wait_listen ?f3 (1, 0)"
  have eval: "(1, 0) \<in> set (if_cloned ?f3)" "notifier_gone 0 ?f4" "(1, 0) \<in> set (if_listening ?f4)"
    by (simp_all add: register_def if_new_def wait_clone_def complete_def wait_listen_def hm_contains_def
        notifier_gone_def)
  have "inflight_run if_new ?f3"
    by (intro inflight_run.step[OF inflight_run.step[OF inflight_run.step[OF inflight_run.refl]]])
      (rule inflight_step.register inflight_step.clone inflight_step.complete)+
  then have "inflight_run if_new ?f4" using eval(1) by (rule inflight_run.step[OF _ inflight_step.listen])
  with eval(2,3) stuck_forever[of ?f4] show ?thesis by blast
qed

lemma coalesced_waiter_can_hang_witness:
  "\<exists>f. inflight_run if_new f \<and> (1, 0) \<in> set (if_listening (complete f 5))"
proof -
  obtain f where f: "inflight_run if_new f" "\<forall>f'. inflight_run f f' \<longrightarrow> (1, 0) \<in> set (if_listening f')"
    using coalesced_waiter_can_hang by blast
  have "inflight_run f (complete f 5)"
    by (rule inflight_run.step[OF inflight_run.refl inflight_step.complete])
  with f show ?thesis by blast
qed

end
