(* ===== verification/Payload_Rules.thy ===== *)
theory Payload_Rules
  imports Json Glob
begin

text \<open>
  \<open>proxy/payload_rules\<close>: dotted JSON paths (\<open>path.rs\<close>), the rules of a channel and of a model
  (\<open>types.rs\<close>) and their registry (\<open>store.rs\<close>). The maps of defaults and overrides are association
  lists: their order is the iteration order of the hash maps.
\<close>

section \<open>Paths\<close>

definition parse_usize :: "string \<Rightarrow> nat option" where
  "parse_usize s = parse_uint (2 ^ 64 - 1) s"

fun get_segments :: "json \<Rightarrow> string list \<Rightarrow> json option" where
  "get_segments current [] = Some current"
| "get_segments current (segment # rest) =
     (if segment = [] then None
      else case current of
             JObj m \<Rightarrow> (case hm_get m segment of None \<Rightarrow> None | Some v \<Rightarrow> get_segments v rest)
           | JArr arr \<Rightarrow>
               (case parse_usize segment of
                  None \<Rightarrow> None
                | Some i \<Rightarrow> if i < length arr then get_segments (arr ! i) rest else None)
           | _ \<Rightarrow> None)"

definition get_path :: "json \<Rightarrow> string \<Rightarrow> json option" where
  "get_path body path = get_segments body (split_on (CHR ''.'') path)"

definition container_or_object :: "json \<Rightarrow> json" where
  "container_or_object v = (case v of JObj _ \<Rightarrow> v | JArr _ \<Rightarrow> v | _ \<Rightarrow> JObj [])"

fun set_path_recursive :: "json \<Rightarrow> string list \<Rightarrow> json \<Rightarrow> json" where
  "set_path_recursive body [] value = body"
| "set_path_recursive body [first] value =
     (if first = [] then body
      else case body of
             JObj m \<Rightarrow> JObj (hm_insert first value m)
           | JArr arr \<Rightarrow>
               (case parse_usize first of
                  Some i \<Rightarrow> if i < length arr then JArr (arr[i := value]) else body
                | None \<Rightarrow> body)
           | _ \<Rightarrow> body)"
| "set_path_recursive body (first # second # rest) value =
     (if first = [] then body
      else case body of
             JObj m \<Rightarrow>
               let entry = container_or_object (case hm_get m first of Some v \<Rightarrow> v | None \<Rightarrow> JObj [])
               in JObj (hm_insert first (set_path_recursive entry (second # rest) value) m)
           | JArr arr \<Rightarrow>
               (case parse_usize first of
                  None \<Rightarrow> body
                | Some i \<Rightarrow>
                    if length arr \<le> i then body
                    else JArr (arr[i := set_path_recursive (container_or_object (arr ! i)) (second # rest) value]))
           | _ \<Rightarrow> body)"

definition set_path :: "json \<Rightarrow> string \<Rightarrow> json \<Rightarrow> json" where
  "set_path body path value = set_path_recursive body (split_on (CHR ''.'') path) value"

fun delete_path_recursive :: "json \<Rightarrow> string list \<Rightarrow> json" where
  "delete_path_recursive body [] = body"
| "delete_path_recursive body [first] =
     (if first = [] then body
      else case body of
             JObj m \<Rightarrow> JObj (hm_remove first m)
           | JArr arr \<Rightarrow>
               (case parse_usize first of
                  Some i \<Rightarrow> if i < length arr then JArr (take i arr @ drop (Suc i) arr) else body
                | None \<Rightarrow> body)
           | _ \<Rightarrow> body)"
| "delete_path_recursive body (first # second # rest) =
     (if first = [] then body
      else case body of
             JObj m \<Rightarrow>
               (case hm_get m first of
                  Some child \<Rightarrow> JObj (hm_insert first (delete_path_recursive child (second # rest)) m)
                | None \<Rightarrow> body)
           | JArr arr \<Rightarrow>
               (case parse_usize first of
                  Some i \<Rightarrow>
                    if i < length arr then JArr (arr[i := delete_path_recursive (arr ! i) (second # rest)]) else body
                | None \<Rightarrow> body)
           | _ \<Rightarrow> body)"

definition delete_path :: "json \<Rightarrow> string \<Rightarrow> json" where
  "delete_path body path = delete_path_recursive body (split_on (CHR ''.'') path)"

definition path_exists :: "json \<Rightarrow> string \<Rightarrow> bool" where
  "path_exists body path \<longleftrightarrow> get_path body path \<noteq> None"

section \<open>Rules\<close>

record payload_rules =
  pr_defaults :: "(string, json) hashmap"
  pr_overrides :: "(string, json) hashmap"
  pr_strip :: "string list"

record model_payload_rule =
  mr_models :: "string list"
  mr_protocol :: "string option"
  mr_rules :: payload_rules

definition apply_rules :: "payload_rules \<Rightarrow> json \<Rightarrow> json" where
  "apply_rules r body =
     (if \<not> json_is_object body then body
      else
        let body = fold (\<lambda>(path, val) b. if path_exists b path then b else set_path b path val) (pr_defaults r) body;
            body = fold (\<lambda>(path, val) b. set_path b path val) (pr_overrides r) body
        in fold (\<lambda>path b. delete_path b path) (pr_strip r) body)"

definition rule_matches :: "model_payload_rule \<Rightarrow> string \<Rightarrow> string \<Rightarrow> bool" where
  "rule_matches r model protocol =
     (if (case mr_protocol r of Some p \<Rightarrow> p \<noteq> [] \<and> p \<noteq> protocol | None \<Rightarrow> False) then False
      else mr_models r = [] \<or> list_ex (\<lambda>pattern. matches_glob pattern model) (mr_models r))"

definition apply_model_rule :: "model_payload_rule \<Rightarrow> json \<Rightarrow> json" where
  "apply_model_rule r body = apply_rules (mr_rules r) body"

section \<open>Registry\<close>

record channel_rules =
  cr_channel :: payload_rules
  cr_model_rules :: "model_payload_rule list"

type_synonym rules_registry = "(uuid, channel_rules) hashmap"

definition no_rules :: payload_rules where
  "no_rules = \<lparr>pr_defaults = [], pr_overrides = [], pr_strip = []\<rparr>"

definition rules_of :: "rules_registry \<Rightarrow> uuid \<Rightarrow> channel_rules" where
  "rules_of g i = (case hm_get g i of Some r \<Rightarrow> r | None \<Rightarrow> \<lparr>cr_channel = no_rules, cr_model_rules = []\<rparr>)"

definition rules_set :: "rules_registry \<Rightarrow> uuid \<Rightarrow> channel_rules \<Rightarrow> rules_registry" where
  "rules_set g i r = hm_insert i r g"

definition rules_add :: "rules_registry \<Rightarrow> uuid \<Rightarrow> payload_rules \<Rightarrow> rules_registry" where
  "rules_add g i r = hm_insert i ((rules_of g i)\<lparr>cr_channel := r\<rparr>) g"

definition set_model_rules :: "rules_registry \<Rightarrow> uuid \<Rightarrow> model_payload_rule list \<Rightarrow> rules_registry" where
  "set_model_rules g i rs = hm_insert i ((rules_of g i)\<lparr>cr_model_rules := rs\<rparr>) g"

definition rules_get_full :: "rules_registry \<Rightarrow> uuid \<Rightarrow> channel_rules option" where
  "rules_get_full g i = hm_get g i"

definition has_rules :: "rules_registry \<Rightarrow> uuid \<Rightarrow> bool" where
  "has_rules g i \<longleftrightarrow> hm_contains g i"

definition rules_remove :: "rules_registry \<Rightarrow> uuid \<Rightarrow> rules_registry" where
  "rules_remove g i = hm_remove i g"

definition apply_for_model :: "rules_registry \<Rightarrow> uuid \<Rightarrow> json \<Rightarrow> string \<Rightarrow> string \<Rightarrow> json" where
  "apply_for_model g i body model protocol =
     (case hm_get g i of
        None \<Rightarrow> body
      | Some rules \<Rightarrow>
          fold (\<lambda>mr b. if rule_matches mr model protocol then apply_model_rule mr b else b)
            (cr_model_rules rules) (apply_rules (cr_channel rules) body))"

section \<open>Laws of the paths\<close>

text \<open>Where a path can be written: no empty segment, and an array only at an index it has.\<close>

fun settable :: "json \<Rightarrow> string list \<Rightarrow> bool" where
  "settable body [] = False"
| "settable body [first] = (first \<noteq> [] \<and> (case body of
     JObj m \<Rightarrow> True
   | JArr arr \<Rightarrow> (case parse_usize first of Some i \<Rightarrow> i < length arr | None \<Rightarrow> False)
   | _ \<Rightarrow> False))"
| "settable body (first # second # rest) = (first \<noteq> [] \<and> (case body of
     JObj m \<Rightarrow> settable (container_or_object (case hm_get m first of Some v \<Rightarrow> v | None \<Rightarrow> JObj [])) (second # rest)
   | JArr arr \<Rightarrow> (case parse_usize first of
       Some i \<Rightarrow> i < length arr \<and> settable (container_or_object (arr ! i)) (second # rest) | None \<Rightarrow> False)
   | _ \<Rightarrow> False))"

lemma get_set_segments: "settable body segs \<Longrightarrow> get_segments (set_path_recursive body segs v) segs = Some v"
proof (induction segs arbitrary: body)
  case (Cons first segs)
  show ?case
  proof (cases segs)
    case Nil
    then show ?thesis using Cons.prems by (auto split: json.splits option.splits)
  next
    case (Cons second rest)
    then show ?thesis using Cons.prems Cons.IH
      by (cases body) (auto simp: Let_def split: option.splits simp del: get_segments.simps(2)
          simp: get_segments.simps(2)[of _ first])
  qed
qed simp

text \<open>Paths through objects only: the array case shifts indices.\<close>

fun object_path :: "json \<Rightarrow> string list \<Rightarrow> bool" where
  "object_path body [] = False"
| "object_path body [first] = (case body of JArr _ \<Rightarrow> False | _ \<Rightarrow> True)"
| "object_path body (first # second # rest) = (case body of
     JObj m \<Rightarrow> (case hm_get m first of Some v \<Rightarrow> object_path v (second # rest) | None \<Rightarrow> True)
   | JArr _ \<Rightarrow> False | _ \<Rightarrow> True)"

lemma get_delete_segments: "object_path body segs \<Longrightarrow> get_segments (delete_path_recursive body segs) segs = None"
proof (induction body segs rule: delete_path_recursive.induct)
  case (2 body first)
  then show ?case by (cases body) auto
next
  case (3 body first second rest)
  then show ?case by (cases body) (auto split: option.splits)
qed simp

text \<open>Two paths diverge when they differ at a common position below the same segments.\<close>

fun diverge :: "string list \<Rightarrow> string list \<Rightarrow> bool" where
  "diverge (a # as) (b # bs) = (if a = b then diverge as bs else True)"
| "diverge _ _ = False"

text \<open>The value is an object all along a path, so writing replaces nothing else.\<close>

fun through_objects :: "json \<Rightarrow> string list \<Rightarrow> bool" where
  "through_objects body [] = True"
| "through_objects body [first] = json_is_object body"
| "through_objects body (first # second # rest) = (case body of
     JObj m \<Rightarrow> (case hm_get m first of Some v \<Rightarrow> through_objects v (second # rest) | None \<Rightarrow> True)
   | _ \<Rightarrow> False)"

lemma get_segments_JObj_Nil: "segs \<noteq> [] \<Longrightarrow> get_segments (JObj []) segs = None"
  by (cases segs) auto

lemma set_fresh_other:
  "diverge segs other \<Longrightarrow> get_segments (set_path_recursive (JObj []) segs v) other = None"
proof (induction "JObj [] :: json" segs v arbitrary: other rule: set_path_recursive.induct)
  case (2 first v)
  then show ?case by (cases other) auto
next
  case (3 first second rest v)
  then show ?case
    by (cases other) (auto simp: container_or_object_def Let_def split: if_splits)
qed simp

lemma set_other_segments:
  assumes "diverge segs other" "through_objects body segs"
  shows "get_segments (set_path_recursive body segs v) other = get_segments body other"
  using assms
proof (induction segs arbitrary: body other)
  case (Cons first segs)
  obtain o1 os where o: "other = o1 # os" using Cons.prems(1) by (cases other) auto
  show ?case
  proof (cases segs)
    case Nil
    then show ?thesis using Cons.prems o by (cases body) (auto simp: json_is_object_def split: if_splits)
  next
    case segs: (Cons second rest)
    then obtain m where b: "body = JObj m" using Cons.prems(2) by (cases body) auto
    show ?thesis
    proof (cases "hm_get m first")
      case None
      then show ?thesis
        using Cons.prems b o segs set_fresh_other[of segs os v]
        by (auto simp: container_or_object_def Let_def split: if_splits)
    next
      case (Some w)
      then have th: "through_objects w segs" using Cons.prems(2) b segs by simp
      then obtain m' where w: "w = JObj m'" using segs by (cases rest; cases w) (auto simp: json_is_object_def)
      have step: "set_path_recursive body (first # segs) v =
          (if first = [] then body else JObj (hm_insert first (set_path_recursive w segs v) m))"
        using Some w by (simp add: b segs container_or_object_def Let_def)
      show ?thesis
        using Cons.prems(1) Cons.IH[OF _ th, of os] Some unfolding step
        by (auto simp: b o split: if_splits option.splits)
    qed
  qed
qed simp

section \<open>Properties\<close>

text \<open>Writing and reading a dotted path agree: after a write to a path that can be written the
  path reads back the value, and every path that diverges from it reads as before when the written
  path runs through objects.\<close>

theorem set_path_lens:
  "(settable body (split_on (CHR ''.'') path) \<longrightarrow> get_path (set_path body path v) path = Some v)
   \<and> (diverge (split_on (CHR ''.'') path) (split_on (CHR ''.'') other)
        \<and> through_objects body (split_on (CHR ''.'') path) \<longrightarrow>
      get_path (set_path body path v) other = get_path body other)"
  using get_set_segments set_other_segments by (simp add: get_path_def set_path_def)

lemma set_path_lens_witness:
  "get_path (set_path (JObj [(''a'', JObj [(''x'', JNull)])]) ''a.b'' (JInt 1)) ''a.b'' = Some (JInt 1)
   \<and> get_path (set_path (JObj [(''a'', JObj [(''x'', JNull)])]) ''a.b'' (JInt 1)) ''a.x'' = Some JNull"
  using set_path_lens[of "JObj [(''a'', JObj [(''x'', JNull)])]" "''a.b''" "JInt 1" "''a.x''"]
  by (simp add: container_or_object_def json_is_object_def get_path_def)

text \<open>Stripping removes: after deleting a path that runs through objects the path does not exist.\<close>

theorem delete_path_removes:
  assumes "object_path body (split_on (CHR ''.'') path)"
  shows "\<not> path_exists (delete_path body path) path"
  using get_delete_segments[OF assms] by (simp add: path_exists_def get_path_def delete_path_def)

lemma delete_path_removes_witness:
  "\<not> path_exists (delete_path (JObj [(''a'', JObj [(''x'', JNull)])]) ''a.x'') ''a.x''"
  by (rule delete_path_removes) simp

text \<open>Overlapping override paths make the outgoing payload depend on the iteration order of the
  hash map: the same two overrides in the two possible orders give different bodies.\<close>

theorem overlapping_overrides_ambiguous:
  "apply_rules (no_rules\<lparr>pr_overrides := [(''a'', JInt 1), (''a.b'', JInt 2)]\<rparr>) (JObj []) \<noteq>
   apply_rules (no_rules\<lparr>pr_overrides := [(''a.b'', JInt 2), (''a'', JInt 1)]\<rparr>) (JObj [])"
  by (simp add: apply_rules_def no_rules_def json_is_object_def set_path_def container_or_object_def Let_def)

text \<open>A scalar on the way is replaced, not kept: the documentation of \<open>set_path\<close> says the write
  is skipped, the code turns the scalar into an object.\<close>

theorem scalar_intermediate_replaced:
  "set_path (JObj [(''a'', JInt 5)]) ''a.b'' (JInt 1) = JObj [(''a'', JObj [(''b'', JInt 1)])]"
  by (simp add: set_path_def container_or_object_def Let_def)

end
