(* ===== verification/Middleware.thy ===== *)
theory Middleware
  imports Virtual_Key Rate_Limiter Channel
begin

text \<open>
  The HTTP filters that decide who gets in: \<open>middleware/auth.rs\<close> (administrator tokens with
  protection against guessing), \<open>middleware/rbac.rs\<close> (roles) and \<open>middleware/virtual_key.rs\<close> (virtual
  keys of the proxy routes). A filter returns the request it hands to the next layer or the status
  and message it rejects with. Times of the attempt table are nanoseconds of the monotonic clock.
\<close>

section \<open>Requests\<close>

text \<open>Header names are lower case, as the \<open>http\<close> crate stores them; a name may occur several times.
  \<open>rq_peer\<close> is the printed address of the \<open>ConnectInfo\<close> extension, \<open>rq_role\<close> the \<open>Role\<close> extension.\<close>

datatype role = SuperAdmin | KeyManager | Auditor

record request =
  rq_method :: string
  rq_path :: string
  rq_headers :: "(string \<times> string) list"
  rq_peer :: "string option"
  rq_role :: "role option"

datatype outcome = Forward request | Reject nat string

definition header_get :: "request \<Rightarrow> string \<Rightarrow> string option" where
  "header_get r name = map_of (rq_headers r) name"

definition header_remove :: "string \<Rightarrow> request \<Rightarrow> request" where
  "header_remove name r = r\<lparr>rq_headers := filter (\<lambda>(n, _). n \<noteq> name) (rq_headers r)\<rparr>"

definition header_insert :: "string \<Rightarrow> string \<Rightarrow> request \<Rightarrow> request" where
  "header_insert name v r =
     (let r = header_remove name r in r\<lparr>rq_headers := rq_headers r @ [(name, v)]\<rparr>)"

text \<open>\<open>HeaderValue::to_str\<close> succeeds on visible ASCII, space and tab.\<close>

definition header_text :: "string \<Rightarrow> string option" where
  "header_text v =
     (if list_all (\<lambda>c. (of_char c :: nat) = 9 \<or> 32 \<le> (of_char c :: nat) \<and> (of_char c :: nat) < 127) v
      then Some v else None)"

definition header_str :: "request \<Rightarrow> string \<Rightarrow> string option" where
  "header_str r name = Option.bind (header_get r name) header_text"

definition extract_client_ip :: "request \<Rightarrow> bool \<Rightarrow> string" where
  "extract_client_ip r trust_forwarded =
     (case rq_peer r of
        Some peer \<Rightarrow> peer
      | None \<Rightarrow>
          let real = (if trust_forwarded then header_str r ''x-real-ip'' else None);
              fwd = (if trust_forwarded then header_str r ''x-forwarded-for'' else None);
              real_ip = (case real of Some x \<Rightarrow> trim x | None \<Rightarrow> []);
              fwd_ip = (case fwd of Some x \<Rightarrow> trim (hd (split_on (CHR '','') x)) | None \<Rightarrow> [])
          in if real_ip \<noteq> [] then real_ip else if fwd_ip \<noteq> [] then fwd_ip else ''unknown'')"

section \<open>Failed attempts\<close>

definition MAX_ATTEMPTS :: u32 where "MAX_ATTEMPTS = 3"
definition WINDOW_SECS :: nat where "WINDOW_SECS = 10"
definition BLOCK_SECS :: nat where "BLOCK_SECS = 60"
definition CLEANUP_SECS :: nat where "CLEANUP_SECS = 120"

record auth_attempt_info =
  ai_fail_count :: u32
  ai_first_fail :: instant
  ai_blocked_until :: "instant option"

type_synonym auth_attempts = "(string, auth_attempt_info) hashmap"

definition is_rate_limited :: "auth_attempts \<Rightarrow> instant \<Rightarrow> string \<Rightarrow> bool" where
  "is_rate_limited m now ip =
     (case hm_get m ip of
        Some info \<Rightarrow> (case ai_blocked_until info of Some u \<Rightarrow> now < u | None \<Rightarrow> False)
      | None \<Rightarrow> False)"

definition as_secs :: "nat \<Rightarrow> nat" where
  "as_secs ns = ns div 1000000000"

definition record_auth_failure :: "auth_attempts \<Rightarrow> instant \<Rightarrow> string \<Rightarrow> auth_attempts" where
  "record_auth_failure m now ip =
     (let m = hm_retain (\<lambda>_ info. as_secs (now - ai_first_fail info) < CLEANUP_SECS) m;
          info = (case hm_get m ip of
                    Some info \<Rightarrow> info
                  | None \<Rightarrow> \<lparr>ai_fail_count = 0, ai_first_fail = now, ai_blocked_until = None\<rparr>);
          info = (if WINDOW_SECS \<le> as_secs (now - ai_first_fail info)
                  then \<lparr>ai_fail_count = 0, ai_first_fail = now, ai_blocked_until = None\<rparr> else info);
          info = info\<lparr>ai_fail_count := ai_fail_count info + 1\<rparr>;
          info = (if MAX_ATTEMPTS \<le> ai_fail_count info
                  then info\<lparr>ai_blocked_until := Some (now + BLOCK_SECS * 1000000000)\<rparr> else info)
      in hm_insert ip info m)"

definition record_auth_success :: "auth_attempts \<Rightarrow> string \<Rightarrow> auth_attempts" where
  "record_auth_success m ip = hm_remove ip m"

section \<open>Administrator tokens and roles\<close>

record security_state =
  sec_admin_token :: "string option"
  sec_admin_roles :: "(string \<times> role) list"
  sec_trust_forwarded_headers :: bool

definition verify_bearer_token :: "string \<Rightarrow> string \<Rightarrow> bool" where
  "verify_bearer_token h expected = (if \<not> starts_with h ''Bearer '' then False else drop 7 h = expected)"

fun role_of_token :: "string \<Rightarrow> (string \<times> role) list \<Rightarrow> role option" where
  "role_of_token h [] = None"
| "role_of_token h ((expected, role) # rest) =
     (if verify_bearer_token h expected then Some role else role_of_token h rest)"

definition admin_auth_middleware ::
  "security_state \<Rightarrow> auth_attempts \<Rightarrow> instant \<Rightarrow> request \<Rightarrow> auth_attempts \<times> outcome" where
  "admin_auth_middleware sec m now r =
     (if sec_admin_token sec = None \<and> sec_admin_roles sec = [] then (m, Forward r)
      else
        let ip = extract_client_ip r (sec_trust_forwarded_headers sec);
            unauthorized = (record_auth_failure m now ip, Reject 401 ''Unauthorized'')
        in if is_rate_limited m now ip then (m, Reject 429 ''Too many failed attempts'')
           else case header_str r ''authorization'' of
                  None \<Rightarrow> unauthorized
                | Some h \<Rightarrow>
                    if (case sec_admin_token sec of Some t \<Rightarrow> verify_bearer_token h t | None \<Rightarrow> False)
                    then (record_auth_success m ip, Forward (r\<lparr>rq_role := Some SuperAdmin\<rparr>))
                    else (case role_of_token h (sec_admin_roles sec) of
                            Some role \<Rightarrow> (record_auth_success m ip, Forward (r\<lparr>rq_role := Some role\<rparr>))
                          | None \<Rightarrow> unauthorized))"

text \<open>The filter of the login routes awaits the login itself between its two halves.\<close>

definition auth_rate_limit_enter :: "security_state \<Rightarrow> auth_attempts \<Rightarrow> instant \<Rightarrow> request \<Rightarrow> outcome" where
  "auth_rate_limit_enter sec m now r =
     (if is_rate_limited m now (extract_client_ip r (sec_trust_forwarded_headers sec))
      then Reject 429 ''Too many failed attempts'' else Forward r)"

definition auth_rate_limit_exit ::
  "security_state \<Rightarrow> auth_attempts \<Rightarrow> instant \<Rightarrow> request \<Rightarrow> nat \<Rightarrow> auth_attempts" where
  "auth_rate_limit_exit sec m now r status =
     (let ip = extract_client_ip r (sec_trust_forwarded_headers sec)
      in if status = 401 then record_auth_failure m now ip
         else if 200 \<le> status \<and> status < 300 then record_auth_success m ip else m)"

definition parse_role :: "string \<Rightarrow> role option" where
  "parse_role s = (let l = to_lowercase s in
     if l \<in> {''super_admin'', ''superadmin'', ''admin''} then Some SuperAdmin
     else if l \<in> {''key_manager'', ''keymanager''} then Some KeyManager
     else if l \<in> {''auditor'', ''audit''} then Some Auditor
     else None)"

definition is_virtual_keys_path :: "string \<Rightarrow> bool" where
  "is_virtual_keys_path path =
     list_ex (\<lambda>p. path = p \<or> starts_with path (p @ ''/''))
       [''/api/virtual-keys'', ''/v1/api/virtual-keys'']"

text \<open>\<open>Method::is_safe\<close>.\<close>

definition is_safe :: "string \<Rightarrow> bool" where
  "is_safe m \<longleftrightarrow> m \<in> {''GET'', ''HEAD'', ''OPTIONS'', ''TRACE''}"

fun is_permitted :: "string \<Rightarrow> string \<Rightarrow> role \<Rightarrow> bool" where
  "is_permitted m path SuperAdmin = True"
| "is_permitted m path KeyManager = (if is_safe m then True else is_virtual_keys_path path)"
| "is_permitted m path Auditor = is_safe m"

definition rbac_middleware :: "request \<Rightarrow> outcome" where
  "rbac_middleware r =
     (case rq_role r of
        None \<Rightarrow> Forward r
      | Some role \<Rightarrow>
          if is_permitted (rq_method r) (rq_path r) role then Forward r
          else Reject 403 ''Insufficient permissions for this role'')"

text \<open>The layers of the admin routes in \<open>server/routes.rs\<close>: authentication runs first.\<close>

definition admin_layers ::
  "security_state \<Rightarrow> auth_attempts \<Rightarrow> instant \<Rightarrow> request \<Rightarrow> auth_attempts \<times> outcome" where
  "admin_layers sec m now r =
     (case admin_auth_middleware sec m now r of
        (m, Forward r) \<Rightarrow> (m, rbac_middleware r) | (m, Reject s e) \<Rightarrow> (m, Reject s e))"

section \<open>Virtual keys\<close>

record gate_clock =
  gc_utc :: utc
  gc_inst :: instant
  gc_today :: string
  gc_month :: string

definition vk_limits ::
  "redis_env \<Rightarrow> redis_server \<Rightarrow> key_rate_limiter \<Rightarrow> instant \<Rightarrow> virtual_key
     \<Rightarrow> redis_server \<times> key_rate_limiter \<times> string option" where
  "vk_limits env srv l now vk =
     (case (case vk_rpm_limit vk of None \<Rightarrow> (srv, l, True) | Some n \<Rightarrow> kl_check env srv l now (vk_id vk) n) of
        (srv, l, False) \<Rightarrow> (srv, l, Some ''Virtual key RPM limit exceeded'')
      | (srv, l, True) \<Rightarrow>
          (case (case vk_tpm_limit vk of None \<Rightarrow> (srv, l, True)
                   | Some n \<Rightarrow> kl_check_tpm env srv l now (vk_id vk) n) of
             (srv, l, False) \<Rightarrow> (srv, l, Some ''Virtual key TPM limit exceeded'')
           | (srv, l, True) \<Rightarrow> (srv, l, None)))"

definition virtual_key_middleware ::
  "(string \<Rightarrow> string) \<Rightarrow> (uuid \<Rightarrow> string) \<Rightarrow> redis_env \<Rightarrow> key_store \<Rightarrow> bool \<Rightarrow> gate_clock
     \<Rightarrow> redis_server \<Rightarrow> key_rate_limiter \<Rightarrow> request \<Rightarrow> redis_server \<times> key_rate_limiter \<times> outcome" where
  "virtual_key_middleware sha256 print_uuid env ks trust_forwarded clk srv l r =
     (if \<not> has_keys ks then (srv, l, Forward (header_remove ''x-virtual-key-id'' r))
      else case header_str r ''authorization'' of
             None \<Rightarrow> (srv, l, Reject 401 ''Virtual key required'')
           | Some h \<Rightarrow>
               if \<not> starts_with h ''Bearer '' then (srv, l, Reject 401 ''Virtual key required'')
               else case validate sha256 ks (gc_utc clk) (gc_today clk) (gc_month clk) (drop 7 h) of
                      None \<Rightarrow> (srv, l, Reject 401 ''Invalid or exhausted virtual key'')
                    | Some vk \<Rightarrow>
                        if vk_allowed_ips vk \<noteq> [] \<and> \<not> check_ip_allowed vk (extract_client_ip r trust_forwarded)
                        then (srv, l, Reject 403 ''Client IP not allowed for this virtual key'')
                        else (case vk_limits env srv l (gc_inst clk) vk of
                                (srv, l, Some message) \<Rightarrow> (srv, l, Reject 429 message)
                              | (srv, l, None) \<Rightarrow>
                                  let (srv, l) = kl_record env srv l (gc_inst clk) (vk_id vk)
                                  in (srv, l, Forward (header_insert ''x-virtual-key-id''
                                        (print_uuid (vk_id vk)) (header_remove ''x-virtual-key-id'' r)))))"

section \<open>Headers\<close>

lemma header_remove_headers:
  "rq_headers (header_remove name r) = filter (\<lambda>(n, _). n \<noteq> name) (rq_headers r)"
  by (simp add: header_remove_def)

lemma header_remove_get [simp]: "header_get (header_remove name r) name = None"
  by (auto simp: header_get_def header_remove_def map_of_eq_None_iff)

text \<open>All values a later layer can find under a name.\<close>

definition header_values :: "request \<Rightarrow> string \<Rightarrow> string list" where
  "header_values r name = map snd (filter (\<lambda>(n, _). n = name) (rq_headers r))"

lemma header_values_remove [simp]:
  "header_values (header_remove name r) n = (if n = name then [] else header_values r n)"
  by (auto simp: header_values_def header_remove_def filter_empty_conv intro: filter_cong
      arg_cong[where f = "map snd"])

lemma header_values_insert [simp]:
  "header_values (header_insert name v r) n = (if n = name then [v] else header_values r n)"
proof -
  have "header_values (header_insert name v r) n =
      header_values (header_remove name r) n @ (if n = name then [v] else [])"
    by (simp add: header_insert_def header_values_def Let_def)
  then show ?thesis by simp
qed

lemma starts_with_Bearer: "starts_with h ''Bearer '' \<longleftrightarrow> h = ''Bearer '' @ drop 7 h"
proof -
  have "length ''Bearer '' = 7" by simp
  then show ?thesis
    unfolding starts_with_def by (metis append_eq_conv_conj append_take_drop_id)
qed

section \<open>Failed attempts of one address\<close>


lemma failure_ok: "hm_ok m \<Longrightarrow> hm_ok (record_auth_failure m now ip)"
  by (simp add: record_auth_failure_def Let_def)

lemma failure_same:
  assumes "hm_ok m" "hm_get m ip = Some info" "as_secs (now - ai_first_fail info) < WINDOW_SECS"
  shows "hm_get (record_auth_failure m now ip) ip =
    Some (if MAX_ATTEMPTS \<le> ai_fail_count info + 1
          then info\<lparr>ai_fail_count := ai_fail_count info + 1,
                    ai_blocked_until := Some (now + BLOCK_SECS * 1000000000)\<rparr>
          else info\<lparr>ai_fail_count := ai_fail_count info + 1\<rparr>)"
proof -
  have "as_secs (now - ai_first_fail info) < CLEANUP_SECS"
    using assms(3) by (simp add: WINDOW_SECS_def CLEANUP_SECS_def)
  with assms show ?thesis by (simp add: record_auth_failure_def Let_def hm_get_retain)
qed

lemma failure_fresh:
  assumes "hm_ok m" "hm_get m ip = None"
  shows "hm_get (record_auth_failure m now ip) ip =
    Some \<lparr>ai_fail_count = 1, ai_first_fail = now, ai_blocked_until = None\<rparr>"
  using assms
  by (simp add: record_auth_failure_def Let_def hm_get_retain as_secs_def WINDOW_SECS_def
      MAX_ATTEMPTS_def word_le_nat_alt)

lemma failure_stale:
  assumes "hm_ok m" "hm_get m ip = Some info" "WINDOW_SECS \<le> as_secs (now - ai_first_fail info)"
    "as_secs (now - ai_first_fail info) < CLEANUP_SECS"
  shows "hm_get (record_auth_failure m now ip) ip =
    Some \<lparr>ai_fail_count = 1, ai_first_fail = now, ai_blocked_until = None\<rparr>"
  using assms by (simp add: record_auth_failure_def Let_def hm_get_retain MAX_ATTEMPTS_def word_le_nat_alt)

section \<open>Runs of the administrator filter\<close>

abbreviation client_ip :: "security_state \<Rightarrow> request \<Rightarrow> string" where
  "client_ip sec r \<equiv> extract_client_ip r (sec_trust_forwarded_headers sec)"

definition auth_configured :: "security_state \<Rightarrow> bool" where
  "auth_configured sec \<longleftrightarrow> \<not> (sec_admin_token sec = None \<and> sec_admin_roles sec = [])"


definition admin_run :: "security_state \<Rightarrow> auth_attempts \<Rightarrow> (instant \<times> request) list \<Rightarrow> auth_attempts" where
  "admin_run sec m rs = foldl (\<lambda>m (now, r). fst (admin_auth_middleware sec m now r)) m rs"

lemma admin_run_simps [simp]:
  "admin_run sec m [] = m"
  "admin_run sec m ((now, r) # rs) = admin_run sec (fst (admin_auth_middleware sec m now r)) rs"
  "admin_run sec m (xs @ ys) = admin_run sec (admin_run sec m xs) ys"
  by (simp_all add: admin_run_def)

lemma verify_bearer: "verify_bearer_token h t \<longleftrightarrow> h = ''Bearer '' @ t"
  unfolding verify_bearer_token_def starts_with_Bearer by auto

lemma role_of_token_Some: "role_of_token h rs = Some role \<Longrightarrow> \<exists>t. h = ''Bearer '' @ t \<and> (t, role) \<in> set rs"
  by (induction h rs rule: role_of_token.induct) (auto simp: verify_bearer split: if_splits)










section \<open>The limits of a virtual key\<close>

lemma kl_check_memory:
  "\<not> kl_redis l \<Longrightarrow> kl_check env srv l now k n =
     (srv, l\<lparr>kl_rpm := fst (kl_get_or_create (kl_rpm l) now k)\<rparr>,
      bw_current_total (snd (kl_get_or_create (kl_rpm l) now k)) now < ucast n)"
  by (simp add: kl_check_def Let_def split: prod.splits)

lemma vk_limits_admits:
  assumes "vk_limits env srv l now vk = (srv', l', None)" "\<not> kl_redis l" "vk_rpm_limit vk = Some n"
  shows "bw_current_total (snd (kl_get_or_create (kl_rpm l) now (vk_id vk))) now < ucast n"
  using assms by (auto simp: vk_limits_def kl_check_memory split: prod.splits bool.splits)

section \<open>Properties\<close>


definition example_security :: security_state where
  "example_security = \<lparr>sec_admin_token = Some ''s'', sec_admin_roles = [(''a'', Auditor)],
     sec_trust_forwarded_headers = True\<rparr>"

definition example_request :: "string \<Rightarrow> string \<Rightarrow> request" where
  "example_request ip token = \<lparr>rq_method = ''POST'', rq_path = ''/api/channels'',
     rq_headers = [(''authorization'', ''Bearer '' @ token)], rq_peer = Some ip, rq_role = None\<rparr>"

lemma example_client_ip: "client_ip sec (example_request ip token) = ip"
  by (simp add: extract_client_ip_def example_request_def)



text \<open>The block of the login routes can be lifted by the attacker: their filter awaits the login
  between the check and the record, so a login that was let in before the block and fails more than
  ten seconds after the first failure starts a new window and clears the block, which should have
  lasted sixty seconds.\<close>

theorem late_failure_lifts_block:
  "let r = example_request ''ip'' ''x'';
       s = 1000000000 :: nat;
       fail = \<lambda>m t. auth_rate_limit_exit example_security m t r 401;
       m3 = fail (fail (fail [] (1 * s)) (2 * s)) (3 * s);
       m4 = fail m3 (12 * s)
   in auth_rate_limit_enter example_security [] 0 r = Forward r
      \<and> auth_rate_limit_enter example_security m3 (12 * s) r = Reject 429 ''Too many failed attempts''
      \<and> auth_rate_limit_enter example_security m4 (12 * s) r = Forward r"
proof -
  let ?f = "\<lambda>m t. record_auth_failure m t ''ip''" and ?s = "1000000000 :: nat"
  let ?m1 = "?f [] (1 * ?s)" and ?i = "\<lambda>n. \<lparr>ai_fail_count = n, ai_first_fail = 1 * ?s, ai_blocked_until = None\<rparr>"
  have m1: "hm_ok ?m1" "hm_get ?m1 ''ip'' = Some (?i 1)" by (simp_all add: failure_ok failure_fresh)
  let ?m2 = "?f ?m1 (2 * ?s)"
  have m2: "hm_ok ?m2" "hm_get ?m2 ''ip'' = Some (?i 2)"
    using failure_same[OF m1, of "2 * ?s"]
    by (simp_all add: failure_ok m1 as_secs_def WINDOW_SECS_def MAX_ATTEMPTS_def word_le_nat_alt)
  let ?m3 = "?f ?m2 (3 * ?s)"
  have m3: "hm_ok ?m3" "hm_get ?m3 ''ip'' = Some ((?i 3)\<lparr>ai_blocked_until := Some (63 * ?s)\<rparr>)"
    using failure_same[OF m2, of "3 * ?s"]
    by (simp_all add: failure_ok m2 as_secs_def WINDOW_SECS_def MAX_ATTEMPTS_def BLOCK_SECS_def)
  have m4: "hm_get (?f ?m3 (12 * ?s)) ''ip'' =
      Some \<lparr>ai_fail_count = 1, ai_first_fail = 12 * ?s, ai_blocked_until = None\<rparr>"
    by (rule failure_stale[OF m3]) (simp_all add: as_secs_def WINDOW_SECS_def CLEANUP_SECS_def)
  show ?thesis
    unfolding Let_def auth_rate_limit_enter_def auth_rate_limit_exit_def example_client_ip
      is_rate_limited_def
    using m3(2) m4 by simp
qed

lemma is_virtual_keys_path_shape:
  assumes "is_virtual_keys_path path"
  shows "\<exists>p \<in> {''/api/virtual-keys'', ''/v1/api/virtual-keys''}. path = p \<or> (\<exists>rest. path = p @ ''/'' @ rest)"
proof -
  from assms obtain p where "p \<in> set [''/api/virtual-keys'', ''/v1/api/virtual-keys'']"
    "path = p \<or> starts_with path (p @ ''/'')"
    unfolding is_virtual_keys_path_def list_ex_iff by blast
  then show ?thesis unfolding starts_with_iff by (intro bexI[of _ p]) auto
qed

text \<open>C15: with authentication configured, a request reaches the admin handlers only with a configured
  token, with the role of that token, and only if the role may do it: an auditor never gets a
  writing request through, a key manager only to the virtual key routes.\<close>

theorem admin_access_requires_role:
  assumes "auth_configured sec" "admin_layers sec m now r = (m', Forward r')"
  shows "\<exists>token role. header_str r ''authorization'' = Some (''Bearer '' @ token)
    \<and> (sec_admin_token sec = Some token \<and> role = SuperAdmin \<or> (token, role) \<in> set (sec_admin_roles sec))
    \<and> r' = r\<lparr>rq_role := Some role\<rparr>
    \<and> (role = Auditor \<longrightarrow> is_safe (rq_method r))
    \<and> (role = KeyManager \<longrightarrow> is_safe (rq_method r) \<or> (\<exists>p \<in> {''/api/virtual-keys'', ''/v1/api/virtual-keys''}.
          rq_path r = p \<or> (\<exists>rest. rq_path r = p @ ''/'' @ rest)))"
proof -
  obtain r1 where auth: "admin_auth_middleware sec m now r = (m', Forward r1)" and
    rb: "rbac_middleware r1 = Forward r'"
    using assms(2) by (auto simp: admin_layers_def split: prod.splits outcome.splits)
  from auth assms(1) obtain h role where h: "header_str r ''authorization'' = Some h"
    and role: "sec_admin_token sec \<noteq> None \<and> verify_bearer_token h (the (sec_admin_token sec)) \<and> role = SuperAdmin
      \<or> role_of_token h (sec_admin_roles sec) = Some role" and r1: "r1 = r\<lparr>rq_role := Some role\<rparr>"
    by (auto simp: admin_auth_middleware_def Let_def auth_configured_def split: if_splits option.splits)
  from rb have perm: "is_permitted (rq_method r) (rq_path r) role" and r': "r' = r1"
    unfolding r1 by (auto simp: rbac_middleware_def split: if_splits)
  from role obtain token where "h = ''Bearer '' @ token"
    "sec_admin_token sec = Some token \<and> role = SuperAdmin \<or> (token, role) \<in> set (sec_admin_roles sec)"
    using role_of_token_Some[of h "sec_admin_roles sec" role] by (auto simp: verify_bearer)
  moreover have "role = KeyManager \<longrightarrow> is_safe (rq_method r) \<or> is_virtual_keys_path (rq_path r)"
    "role = Auditor \<longrightarrow> is_safe (rq_method r)" using perm by (cases role; simp split: if_splits)+
  moreover note is_virtual_keys_path_shape
  ultimately show ?thesis using h r1 r' by blast
qed

lemma admin_access_requires_role_witness:
  "admin_layers example_security [] 0 (example_request ''ip'' ''s'') =
     ([], Forward ((example_request ''ip'' ''s'')\<lparr>rq_role := Some SuperAdmin\<rparr>))
   \<and> header_str (example_request ''ip'' ''s'') ''authorization'' = Some ''Bearer s''"
proof -
  have pass: "admin_layers example_security [] 0 (example_request ''ip'' ''s'') =
     ([], Forward ((example_request ''ip'' ''s'')\<lparr>rq_role := Some SuperAdmin\<rparr>))"
    by (simp add: admin_layers_def admin_auth_middleware_def example_security_def example_request_def
        is_rate_limited_def header_str_def header_get_def header_text_def verify_bearer Let_def
        record_auth_success_def rbac_middleware_def)
  have cfg: "auth_configured example_security" by (simp add: auth_configured_def example_security_def)
  from admin_access_requires_role[OF cfg pass] pass show ?thesis
    by (auto simp: example_security_def example_request_def)
qed

text \<open>C17: the proxy routes see only authentic key ids: with keys configured a request passes only with
  the bearer token of a stored, enabled, unexpired key within its budgets, from an allowed address
  and below the request limit of the key, and the one \<open>x-virtual-key-id\<close> value it carries on is that
  key's id; without keys none is carried on. Whatever the client sent under that name is gone and
  every other header is unchanged.\<close>

theorem virtual_key_gate:
  assumes "ks_ok ks"
    "virtual_key_middleware sha256 print_uuid env ks trust clk srv l r = (srv', l', Forward r')"
  shows "(\<forall>n. n \<noteq> ''x-virtual-key-id'' \<longrightarrow> header_values r' n = header_values r n)
    \<and> (if has_keys ks then \<exists>vk token. header_str r ''authorization'' = Some (''Bearer '' @ token)
         \<and> ks_get ks (vk_id vk) = Some vk \<and> vk_key_hash vk = sha256 token \<and> vk_enabled vk
         \<and> \<not> is_expired vk (gc_utc clk) \<and> \<not> is_budget_exceeded vk (gc_today clk) (gc_month clk)
         \<and> check_ip_allowed vk (extract_client_ip r trust)
         \<and> (\<forall>n. \<not> kl_redis l \<and> vk_rpm_limit vk = Some n \<longrightarrow>
              bw_current_total (snd (kl_get_or_create (kl_rpm l) (gc_inst clk) (vk_id vk))) (gc_inst clk) < ucast n)
         \<and> header_values r' ''x-virtual-key-id'' = [print_uuid (vk_id vk)]
       else header_values r' ''x-virtual-key-id'' = [])"
proof (cases "has_keys ks")
  case False
  then show ?thesis using assms(2) by (auto simp: virtual_key_middleware_def)
next
  case True
  with assms(2) obtain h vk srv1 l1 where h: "header_str r ''authorization'' = Some h" "starts_with h ''Bearer ''"
    and v: "validate sha256 ks (gc_utc clk) (gc_today clk) (gc_month clk) (drop 7 h) = Some vk"
    and ip: "vk_allowed_ips vk = [] \<or> check_ip_allowed vk (extract_client_ip r trust)"
    and lim: "vk_limits env srv l (gc_inst clk) vk = (srv1, l1, None)"
    and r': "r' = header_insert ''x-virtual-key-id'' (print_uuid (vk_id vk)) (header_remove ''x-virtual-key-id'' r)"
    by (auto simp: virtual_key_middleware_def Let_def split: option.splits if_splits prod.splits)
  note validate_SomeD[OF assms(1) v]
  moreover have "check_ip_allowed vk (extract_client_ip r trust)"
    using ip by (auto simp: check_ip_allowed_def)
  moreover have "h = ''Bearer '' @ drop 7 h" using h(2) by (simp only: starts_with_Bearer[symmetric])
  moreover note vk_limits_admits[OF lim]
  ultimately show ?thesis using True h(1) r' by (auto simp del: append.simps)
qed

lemma virtual_key_gate_witness:
  "\<exists>srv' l' r'. virtual_key_middleware (\<lambda>_. ''h'') (\<lambda>_. ''id3'') \<lparr>re_prefix = [], re_link = (\<lambda>_. Unreachable),
       re_uuid = (\<lambda>_. []), re_now = 0\<rparr> example_store False
       \<lparr>gc_utc = 0, gc_inst = 0, gc_today = ''d'', gc_month = ''m''\<rparr> [] (kl_new False)
       (example_request ''ip'' ''p'') = (srv', l', Forward r')
     \<and> header_values r' ''x-virtual-key-id'' = [''id3'']"
proof -
  let ?r = "example_request ''ip'' ''p''"
  let ?run = "virtual_key_middleware (\<lambda>_. ''h'') (\<lambda>_. ''id3'') \<lparr>re_prefix = [], re_link = (\<lambda>_. Unreachable),
       re_uuid = (\<lambda>_. []), re_now = 0\<rparr> example_store False
       \<lparr>gc_utc = 0, gc_inst = 0, gc_today = ''d'', gc_month = ''m''\<rparr> [] (kl_new False) ?r"
  have h: "header_str ?r ''authorization'' = Some ''Bearer p''"
    by (simp add: example_request_def header_str_def header_get_def header_text_def)
  have ok: "ks_ok example_store"
    by (rule ks_okI) (auto simp: example_store_def ks_get_def example_key_def split: if_splits)
  have keys: "has_keys example_store" by (simp add: has_keys_def example_store_def)
  have "\<exists>srv' l' r'. ?run = (srv', l', Forward r')"
    using h keys
    by (auto simp: virtual_key_middleware_def starts_with_def validate_def example_store_def example_key_def
        key_prefix_of_def is_expired_def is_budget_exceeded_def no_spend_def vk_limits_def
        split: prod.splits)
  then obtain srv' l' r' where run: "?run = (srv', l', Forward r')" by blast
  from virtual_key_gate[OF ok run] keys run show ?thesis by auto
qed

end
