(* ===== verification/Model_Registry.thy ===== *)
theory Model_Registry
  imports Json "HOL-Library.List_Lexorder" "HOL-Library.Char_ord"
begin

text \<open>
  \<open>model_registry.rs\<close>: the table of model capabilities, its lookup by longest prefix and its refresh
  from the model lists of upstream providers. URL parsing (crate \<open>url\<close>) and the HTTP call are
  arguments of the refresh.
\<close>

section \<open>Private addresses\<close>

datatype ip_addr = V4 u8 u8 u8 u8 | V6 "128 word"

definition is_private_v4 :: "u8 \<Rightarrow> u8 \<Rightarrow> u8 \<Rightarrow> u8 \<Rightarrow> bool" where
  "is_private_v4 a b c d \<longleftrightarrow>
     a = 127
     \<or> (a = 10 \<or> a = 172 \<and> 16 \<le> b \<and> b \<le> 31 \<or> a = 192 \<and> b = 168)
     \<or> a = 169 \<and> b = 254
     \<or> (a = 0 \<and> b = 0 \<and> c = 0 \<and> d = 0)
     \<or> (a = 255 \<and> b = 255 \<and> c = 255 \<and> d = 255)"

unbundle bit_operations_syntax

definition v6_segment0 :: "128 word \<Rightarrow> 16 word" where
  "v6_segment0 w = ucast (drop_bit 112 w)"

fun is_private_ip :: "ip_addr \<Rightarrow> bool" where
  "is_private_ip (V4 a b c d) = is_private_v4 a b c d"
| "is_private_ip (V6 w) \<longleftrightarrow>
     w = 1 \<or> w = 0 \<or> v6_segment0 w AND 0xfe00 = 0xfc00 \<or> v6_segment0 w AND 0xffc0 = 0xfe80"

section \<open>The registry\<close>

datatype thinking_format = ThinkNone | ThinkBudget | ThinkLevel | ThinkHybrid

record model_capabilities =
  supports_thinking :: bool
  supports_vision :: bool
  supports_tools :: bool
  max_context_tokens :: "u64 option"
  thinking_format_of :: thinking_format
  caps_source :: "string option"

definition default_capabilities :: model_capabilities where
  "default_capabilities = \<lparr>supports_thinking = False, supports_vision = False, supports_tools = False,
     max_context_tokens = None, thinking_format_of = ThinkNone, caps_source = None\<rparr>"

record model_registry_entry =
  me_name :: string
  me_capabilities :: model_capabilities
  me_source_type :: string
  me_last_refreshed_secs :: "u64 option"

record model_registry =
  mr_models :: "(string, model_capabilities) hashmap"
  mr_refresh_times :: "(string, u64) hashmap"

definition insert_models ::
  "string list \<Rightarrow> (string \<Rightarrow> model_capabilities) \<Rightarrow> (string, model_capabilities) hashmap
     \<Rightarrow> (string, model_capabilities) hashmap" where
  "insert_models names caps m = fold (\<lambda>n m. hm_insert n (caps n) m) names m"

definition builtin_caps :: "bool \<Rightarrow> bool \<Rightarrow> bool \<Rightarrow> u64 \<Rightarrow> thinking_format \<Rightarrow> model_capabilities" where
  "builtin_caps think vision tools ctx fmt =
     \<lparr>supports_thinking = think, supports_vision = vision, supports_tools = tools,
      max_context_tokens = Some ctx, thinking_format_of = fmt, caps_source = None\<rparr>"

definition openai_caps :: "string \<Rightarrow> model_capabilities" where
  "openai_caps model =
     builtin_caps False (model \<noteq> ''gpt-4'' \<and> model \<noteq> ''gpt-3.5-turbo'') True
       (if str_contains model ''turbo'' \<or> model = ''gpt-4o'' then 128000 else 8192) ThinkLevel"

definition reasoning_caps :: "string \<Rightarrow> model_capabilities" where
  "reasoning_caps model =
     (let limited = (model = ''o1-preview'' \<or> model = ''o1-mini'')
      in builtin_caps True (\<not> limited) (\<not> limited) 200000 ThinkLevel)"

definition registry_new :: model_registry where
  "registry_new =
     \<lparr>mr_models =
        insert_models [''gemini-2.5-pro'', ''gemini-2.5-flash'', ''gemini-3-pro'']
          (\<lambda>n. builtin_caps True True True 1000000 (if n = ''gemini-3-pro'' then ThinkHybrid else ThinkBudget))
       (insert_models [''gemini-1.5-pro'', ''gemini-1.5-flash'', ''gemini-2.0-flash'']
          (\<lambda>_. builtin_caps False True True 1000000 ThinkNone)
       (insert_models [''claude-sonnet-4'', ''claude-opus-4'', ''claude-3-7-sonnet'']
          (\<lambda>_. builtin_caps True True True 200000 ThinkBudget)
       (insert_models [''claude-3-5-sonnet'', ''claude-3-5-haiku'', ''claude-3-opus'', ''claude-3-sonnet'',
            ''claude-3-haiku'']
          (\<lambda>_. builtin_caps False True True 200000 ThinkNone)
       (insert_models [''o1'', ''o1-preview'', ''o1-mini'', ''o3'', ''o3-mini'', ''o4-mini''] reasoning_caps
       (insert_models [''gpt-4o'', ''gpt-4o-mini'', ''gpt-4-turbo'', ''gpt-4'', ''gpt-3.5-turbo'']
          openai_caps []))))),
      mr_refresh_times = []\<rparr>"

text \<open>The scan keeps the first of the longest keys it meets.\<close>

fun best_prefix ::
  "string \<Rightarrow> (string \<times> model_capabilities) option \<Rightarrow> (string \<times> model_capabilities) list
     \<Rightarrow> (string \<times> model_capabilities) option" where
  "best_prefix model best [] = best"
| "best_prefix model best ((key, caps) # rest) =
     best_prefix model
       (if (starts_with model key \<or> starts_with model (key @ ''-''))
           \<and> (case best of None \<Rightarrow> True | Some (k, _) \<Rightarrow> length k < length key)
        then Some (key, caps) else best) rest"

definition registry_get :: "model_registry \<Rightarrow> string \<Rightarrow> model_capabilities" where
  "registry_get r model =
     (case hm_get (mr_models r) model of
        Some caps \<Rightarrow> caps
      | None \<Rightarrow> (case best_prefix model None (mr_models r) of Some (_, c) \<Rightarrow> c | None \<Rightarrow> default_capabilities))"

text \<open>\<open>now_secs\<close> is \<open>None\<close> when the clock stands before the epoch.\<close>

definition update_models ::
  "model_registry \<Rightarrow> u64 option \<Rightarrow> string list \<Rightarrow> string \<Rightarrow> model_registry" where
  "update_models r now_secs models source =
     (let r = r\<lparr>mr_models := hm_retain (\<lambda>_ caps. caps_source caps \<noteq> Some source) (mr_models r)\<rparr>;
          r = fold (\<lambda>model_id r. r\<lparr>mr_models :=
                 hm_insert model_id ((registry_get r model_id)\<lparr>caps_source := Some source\<rparr>) (mr_models r)\<rparr>)
                models r
      in case now_secs of
           Some t \<Rightarrow> r\<lparr>mr_refresh_times := hm_insert source t (mr_refresh_times r)\<rparr>
         | None \<Rightarrow> r)"

definition list_models :: "model_registry \<Rightarrow> string list" where
  "list_models r = map fst (mr_models r)"

definition list_all :: "model_registry \<Rightarrow> model_registry_entry list" where
  "list_all r = sort_key me_name
     (map (\<lambda>(name, caps).
        \<lparr>me_name = name, me_capabilities = caps,
         me_source_type = (if caps_source caps \<noteq> None then ''discovered'' else ''builtin''),
         me_last_refreshed_secs = Option.bind (caps_source caps) (hm_get (mr_refresh_times r))\<rparr>)
      (mr_models r))"

section \<open>Refreshing from an endpoint\<close>

record parsed_url =
  pu_scheme :: string
  pu_host :: "string option"

datatype refresh_error = BadUrl | NotHttps | PrivateIp | InternalHost | FetchFailed | BadStatus | BadBody

datatype http_reply = NoReply | HttpStatus nat "json option"

definition check_endpoint ::
  "(string \<Rightarrow> parsed_url option) \<Rightarrow> (string \<Rightarrow> ip_addr option) \<Rightarrow> string \<Rightarrow> refresh_error option" where
  "check_endpoint parse_url parse_ip endpoint =
     (case parse_url endpoint of
        None \<Rightarrow> Some BadUrl
      | Some u \<Rightarrow>
          if pu_scheme u \<noteq> ''https'' then Some NotHttps
          else
            let host = (case pu_host u of Some h \<Rightarrow> h | None \<Rightarrow> []);
                lower = map (\<lambda>c. if CHR ''A'' \<le> c \<and> c \<le> CHR ''Z'' then char_of (of_char c + 32 :: nat) else c) host
            in if (case parse_ip host of Some ip \<Rightarrow> is_private_ip ip | None \<Rightarrow> False) then Some PrivateIp
               else if lower = ''localhost'' \<or> lower = ''metadata.google.internal'' then Some InternalHost
               else None)"

definition model_ids :: "json \<Rightarrow> string list" where
  "model_ids body =
     (case Option.bind (json_get body ''data'') json_as_array of
        None \<Rightarrow> []
      | Some arr \<Rightarrow> List.map_filter (\<lambda>m. Option.bind (json_get m ''id'') json_as_str) arr)"

definition refresh_from_endpoint ::
  "(string \<Rightarrow> parsed_url option) \<Rightarrow> (string \<Rightarrow> ip_addr option) \<Rightarrow> http_reply \<Rightarrow> string
     \<Rightarrow> refresh_error + string list" where
  "refresh_from_endpoint parse_url parse_ip reply endpoint =
     (case check_endpoint parse_url parse_ip endpoint of
        Some e \<Rightarrow> Inl e
      | None \<Rightarrow>
          (case reply of
             NoReply \<Rightarrow> Inl FetchFailed
           | HttpStatus status body \<Rightarrow>
               if \<not> (200 \<le> status \<and> status < 300) then Inl BadStatus
               else (case body of None \<Rightarrow> Inl BadBody | Some b \<Rightarrow> Inr (model_ids b))))"

section \<open>Lookup\<close>

lemma prefix_or_dash: "starts_with model key \<or> starts_with model (key @ ''-'') \<longleftrightarrow> starts_with model key"
  by (auto simp: starts_with_iff)

lemma best_prefix_spec:
  assumes "case best of Some (k, c) \<Rightarrow> starts_with model k | None \<Rightarrow> True"
  shows "case best_prefix model best xs of
      None \<Rightarrow> best = None \<and> (\<forall>(k, c) \<in> set xs. \<not> starts_with model k)
    | Some (k, c) \<Rightarrow> starts_with model k \<and> (best = Some (k, c) \<or> (k, c) \<in> set xs)
        \<and> (\<forall>(k', c') \<in> set xs. starts_with model k' \<longrightarrow> length k' \<le> length k)
        \<and> (\<forall>k' c'. best = Some (k', c') \<longrightarrow> length k' \<le> length k)"
  using assms
proof (induction model best xs rule: best_prefix.induct)
  case (1 model best)
  then show ?case by (auto split: option.splits)
next
  case (2 model best key caps rest)
  define b where "b = (if starts_with model key \<and> (case best of None \<Rightarrow> True | Some (k, _) \<Rightarrow> length k < length key)
            then Some (key, caps) else best)"
  have b: "b = Some (key, caps) \<and> starts_with model key \<and> (\<forall>k c. best = Some (k, c) \<longrightarrow> length k < length key)
      \<or> b = best \<and> (\<not> starts_with model key \<or> (\<exists>k c. best = Some (k, c) \<and> length key \<le> length k))"
    by (cases best) (auto simp: b_def)
  then have "case b of Some (k, c) \<Rightarrow> starts_with model k | None \<Rightarrow> True"
    using "2.prems" by auto
  then have ih: "case best_prefix model b rest of
      None \<Rightarrow> b = None \<and> (\<forall>(k, c) \<in> set rest. \<not> starts_with model k)
    | Some (k, c) \<Rightarrow> starts_with model k \<and> (b = Some (k, c) \<or> (k, c) \<in> set rest)
        \<and> (\<forall>(k', c') \<in> set rest. starts_with model k' \<longrightarrow> length k' \<le> length k)
        \<and> (\<forall>k' c'. b = Some (k', c') \<longrightarrow> length k' \<le> length k)"
    using "2.IH" unfolding prefix_or_dash b_def[symmetric] by blast
  have eq: "best_prefix model best ((key, caps) # rest) = best_prefix model b rest"
    by (simp only: best_prefix.simps prefix_or_dash b_def)
  show ?case
  proof (cases "best_prefix model b rest")
    case None
    with ih b show ?thesis unfolding eq by auto
  next
    case (Some kc)
    obtain k c where kc: "kc = (k, c)" by force
    have k: "starts_with model k" "b = Some (k, c) \<or> (k, c) \<in> set rest"
      "\<forall>(k', c') \<in> set rest. starts_with model k' \<longrightarrow> length k' \<le> length k"
      "\<forall>k' c'. b = Some (k', c') \<longrightarrow> length k' \<le> length k"
      using ih Some kc by auto
    have "starts_with model key \<longrightarrow> length key \<le> length k" "\<forall>k' c'. best = Some (k', c') \<longrightarrow> length k' \<le> length k"
      using b k(4) by fastforce+
    moreover have "best = Some (k, c) \<or> (k, c) \<in> set ((key, caps) # rest)" using b k(2) by auto
    ultimately show ?thesis unfolding eq Some kc using k(1,3) by simp
  qed
qed

lemma best_prefix_None:
  assumes "best_prefix model None xs = None" "(k, c) \<in> set xs"
  shows "\<not> starts_with model k"
  using best_prefix_spec[where best = None and model = model and xs = xs] assms by auto

lemma best_prefix_Some:
  assumes "best_prefix model None xs = Some (k, c)"
  shows "starts_with model k" "(k, c) \<in> set xs"
    "\<And>k' c'. (k', c') \<in> set xs \<Longrightarrow> starts_with model k' \<Longrightarrow> length k' \<le> length k"
  using best_prefix_spec[where best = None and model = model and xs = xs] assms by auto

text \<open>The lookup finds an entry no longer registered name competes with.\<close>

lemma registry_get_prefix:
  assumes ok: "hm_ok (mr_models r)" and k: "hm_get (mr_models r) k = Some c" "starts_with model k"
    and longest: "\<And>k'. starts_with model k' \<Longrightarrow> length k < length k' \<Longrightarrow> hm_get (mr_models r) k' = None"
  shows "registry_get r model = c"
proof (cases "hm_get (mr_models r) model")
  case (Some c0)
  have "\<not> length k < length model" using longest[of model] Some by (auto simp: starts_with_def)
  then have "k = model" using k(2) by (auto simp: starts_with_def)
  then show ?thesis using k by (simp add: registry_get_def)
next
  case None
  show ?thesis
  proof (cases "best_prefix model None (mr_models r)")
    case n: None
    from best_prefix_None[OF n, of k c] k ok show ?thesis by (simp add: hm_get_iff)
  next
    case (Some kc)
    obtain k1 c1 where kc: "kc = (k1, c1)" by force
    note best = best_prefix_Some[OF Some[unfolded kc]]
    have "length k \<le> length k1" using best(3)[of k c] k ok by (simp add: hm_get_iff)
    moreover have "hm_get (mr_models r) k1 = Some c1" using best(2) ok by (simp add: hm_get_iff)
    then have "\<not> length k < length k1" using longest[OF best(1)] by auto
    ultimately have "k1 = k" using best(1) k(2) by (simp add: starts_with_def)
    then have "c1 = c" using best(2) k(1) ok by (auto simp: hm_get_iff hm_ok_def dest: eq_key_imp_eq_value)
    then show ?thesis by (simp add: registry_get_def None Some kc)
  qed
qed

lemma registry_get_default:
  assumes "hm_ok (mr_models r)" "\<And>k. starts_with model k \<Longrightarrow> hm_get (mr_models r) k = None"
  shows "registry_get r model = default_capabilities"
proof -
  have "best_prefix model None (mr_models r) = None"
  proof (rule ccontr)
    assume "\<not> ?thesis"
    then obtain k c where "best_prefix model None (mr_models r) = Some (k, c)" by auto
    note best = best_prefix_Some[OF this]
    from best(2) assms(1) have "hm_get (mr_models r) k = Some c" by (simp add: hm_get_iff)
    with assms(2)[OF best(1)] show False by simp
  qed
  moreover have "hm_get (mr_models r) model = None" by (rule assms(2)) (simp add: starts_with_def)
  ultimately show ?thesis by (simp add: registry_get_def)
qed

lemma insert_models_ok: "hm_ok m \<Longrightarrow> hm_ok (insert_models ns f m)"
  unfolding insert_models_def by (induction ns arbitrary: m) simp_all

lemma insert_models_get:
  "hm_get (insert_models ns f m) n = (if n \<in> set ns then Some (f n) else hm_get m n)"
  unfolding insert_models_def by (induction ns arbitrary: m) auto

lemma registry_new_ok: "hm_ok (mr_models registry_new)"
proof -
  have "hm_ok ([] :: (string, model_capabilities) hashmap)" by (simp add: hm_ok_def)
  then show ?thesis unfolding registry_new_def by (simp only: model_registry.simps insert_models_ok)
qed

abbreviation without_source :: "string \<Rightarrow> model_registry \<Rightarrow> model_registry" where
  "without_source src r \<equiv> r\<lparr>mr_models := hm_retain (\<lambda>_ caps. caps_source caps \<noteq> Some src) (mr_models r)\<rparr>"

lemma update_one_get:
  assumes "hm_ok (mr_models r)"
  shows "hm_get (mr_models (update_models r t [m] src)) k =
    (if k = m then Some ((registry_get (without_source src r) m)\<lparr>caps_source := Some src\<rparr>) else hm_get (mr_models (without_source src r)) k)"
    and "hm_ok (mr_models (update_models r t [m] src))"
  using assms(1) by (auto simp: update_models_def Let_def split: option.splits)

section \<open>Properties\<close>

text \<open>The capabilities of a model are those of the longest registered name that is a prefix of it
  (the name itself when it is registered), whatever the iteration order of the table, and the
  defaults when no registered name is a prefix.\<close>

theorem registry_get_longest_prefix:
  assumes "hm_ok (mr_models r)"
  shows "(\<forall>k c. hm_get (mr_models r) k = Some c \<and> starts_with model k
            \<and> (\<forall>k' \<in> fst ` set (mr_models r). starts_with model k' \<longrightarrow> length k' \<le> length k)
            \<longrightarrow> registry_get r model = c)
    \<and> ((\<forall>k \<in> fst ` set (mr_models r). \<not> starts_with model k) \<longrightarrow> registry_get r model = default_capabilities)"
proof -
  have none: "hm_get (mr_models r) k = None \<longleftrightarrow> k \<notin> fst ` set (mr_models r)" for k
    by (simp add: map_of_eq_None_iff)
  show ?thesis
    using registry_get_prefix[OF assms] registry_get_default[OF assms] unfolding none
    by (metis linorder_not_less)
qed

lemma registry_get_longest_prefix_witness:
  "registry_get \<lparr>mr_models = [(''gpt-4'', openai_caps ''gpt-4''), (''gpt-4o'', openai_caps ''gpt-4o'')],
     mr_refresh_times = []\<rparr> ''gpt-4o-2024-08-06'' = openai_caps ''gpt-4o''"
  using registry_get_longest_prefix[of "\<lparr>mr_models = [(''gpt-4'', openai_caps ''gpt-4''),
      (''gpt-4o'', openai_caps ''gpt-4o'')], mr_refresh_times = []\<rparr>" "''gpt-4o-2024-08-06''",
      THEN conjunct1, rule_format, of "''gpt-4o''" "openai_caps ''gpt-4o''"]
  by (simp add: hm_ok_def starts_with_def)

text \<open>Refreshing twice from an endpoint that lists a built-in model degrades it: the first refresh
  claims the built-in entry for the endpoint, the second removes it as stale and re-infers it from
  the shorter name \<open>gpt-4\<close>, so \<open>gpt-4o\<close> loses its vision support and its context window drops from
  128000 to 8192 tokens.\<close>

theorem refresh_degrades_builtin:
  "registry_get registry_new ''gpt-4o'' = openai_caps ''gpt-4o''
   \<and> max_context_tokens (openai_caps ''gpt-4o'') = Some 128000 \<and> supports_vision (openai_caps ''gpt-4o'')
   \<and> (let refresh = \<lambda>r. update_models r now_secs [''gpt-4o''] ''https://api'';
          twice = refresh (refresh registry_new)
      in max_context_tokens (registry_get twice ''gpt-4o'') = Some 8192
         \<and> \<not> supports_vision (registry_get twice ''gpt-4o''))"
proof -
  let ?src = "''https://api''" and ?m = "''gpt-4o''"
  let ?r1 = "update_models registry_new now_secs [?m] ?src"
  let ?r2 = "update_models ?r1 now_secs [?m] ?src"
  have new: "hm_get (mr_models registry_new) ?m = Some (openai_caps ?m)"
    "hm_get (mr_models registry_new) ''gpt-4'' = Some (openai_caps ''gpt-4'')"
    by (simp_all add: registry_new_def insert_models_get)
  note up1 = update_one_get[OF registry_new_ok, where t = now_secs and m = ?m and src = ?src]
  note up2 = update_one_get[OF up1(2), where t = now_secs and m = ?m and src = ?src]
  have four: "hm_get (mr_models (without_source ?src ?r1)) ''gpt-4'' = Some (openai_caps ''gpt-4'')"
    using up1(1)[of "''gpt-4''"] new(2) registry_new_ok up1(2)
    by (simp add: hm_get_retain openai_caps_def builtin_caps_def)
  have gone: "hm_get (mr_models (without_source ?src ?r1)) ?m = None"
    using up1(1)[of ?m] up1(2) by (simp add: hm_get_retain)
  have "registry_get (without_source ?src ?r1) ?m = openai_caps ''gpt-4''"
  proof (rule registry_get_prefix[OF _ four])
    fix k' :: string
    assume k': "starts_with ?m k'" "length ''gpt-4'' < length k'"
    then have "k' = ?m" by (auto simp: starts_with_iff append_eq_Cons_conv Cons_eq_append_conv)
    then show "hm_get (mr_models (without_source ?src ?r1)) k' = None" using gone by simp
  qed (use up1(2) in \<open>simp_all add: starts_with_def\<close>)
  then have "registry_get ?r2 ?m = (openai_caps ''gpt-4'')\<lparr>caps_source := Some ?src\<rparr>"
    using up2(1)[of ?m] by (simp add: registry_get_def)
  moreover have "registry_get registry_new ?m = openai_caps ?m" using new(1) by (simp add: registry_get_def)
  ultimately show ?thesis
    by (simp add: Let_def openai_caps_def builtin_caps_def starts_with_def)
qed

end
