(* ===== verification/Guardrails.thy ===== *)
theory Guardrails
  imports Json Channel
begin

text \<open>
  \<open>guardrails.rs\<close>: content moderation of requests and of non-streaming responses. Text is compared
  after \<open>to_lowercase\<close>, which the model applies to ASCII letters. The checker is its configuration;
  \<open>update_config\<close> replaces it.
\<close>

record guardrails_config =
  gr_enabled :: bool
  gr_blocked_patterns :: "string list"
  gr_allowed_patterns :: "string list"
  gr_max_request_chars :: nat
  gr_block_message :: string

datatype guardrail_action = Allow | Block string

text \<open>\<open>chars().count()\<close> of UTF-8 text: every byte that does not continue a character starts one.\<close>

definition char_count :: "string \<Rightarrow> nat" where
  "char_count s = length (filter (\<lambda>c. \<not> (128 \<le> (of_char c :: nat) \<and> (of_char c :: nat) < 192)) s)"

fun scan_patterns :: "string \<Rightarrow> string list \<Rightarrow> string list \<Rightarrow> guardrail_action" where
  "scan_patterns content_lower allowed [] = Allow"
| "scan_patterns content_lower allowed (pattern # rest) =
     (if str_contains content_lower (to_lowercase pattern) then
        (if list_ex (\<lambda>a. str_contains content_lower (to_lowercase a)) allowed then Allow
         else Block (''Content matches blocked pattern: '' @ pattern))
      else scan_patterns content_lower allowed rest)"

definition guard_check :: "guardrails_config \<Rightarrow> string \<Rightarrow> guardrail_action" where
  "guard_check config content =
     (if \<not> gr_enabled config then Allow
      else if 0 < gr_max_request_chars config \<and> gr_max_request_chars config < char_count content
      then Block ''Request exceeds maximum length''
      else scan_patterns (to_lowercase content) (gr_allowed_patterns config) (gr_blocked_patterns config))"

definition with_newlines :: "string list \<Rightarrow> string" where
  "with_newlines parts = concat (map (\<lambda>p. p @ [CHR 0x0A]) parts)"

definition check_request :: "guardrails_config \<Rightarrow> json \<Rightarrow> guardrail_action" where
  "check_request config body =
     guard_check config
       (case Option.bind (json_get body ''messages'') json_as_array of
          None \<Rightarrow> []
        | Some messages \<Rightarrow> with_newlines (List.map_filter (\<lambda>m. json_get_str m ''content'') messages))"

definition check_response :: "guardrails_config \<Rightarrow> json \<Rightarrow> guardrail_action" where
  "check_response config body =
     guard_check config
       (case Option.bind (json_get body ''choices'') json_as_array of
          None \<Rightarrow> []
        | Some choices \<Rightarrow>
            with_newlines (List.map_filter
              (\<lambda>c. Option.bind (json_get c ''message'') (\<lambda>m. json_get_str m ''content'')) choices))"

section \<open>Properties\<close>

lemma scan_patterns_iff:
  "scan_patterns l allowed ps \<noteq> Allow \<longleftrightarrow>
     (\<exists>p \<in> set ps. str_contains l (to_lowercase p))
     \<and> \<not> (\<exists>a \<in> set allowed. str_contains l (to_lowercase a))"
  by (induction l allowed ps rule: scan_patterns.induct) (auto simp: list_ex_iff)

text \<open>Moderation blocks a text exactly when it is switched on and the text is over the length limit
  or contains a blocked pattern in any case while it contains no allowed pattern: one allowed
  pattern anywhere switches off every blocked one, but never the length limit.\<close>

theorem guard_check_exact:
  "guard_check config content \<noteq> Allow \<longleftrightarrow>
     gr_enabled config
     \<and> (0 < gr_max_request_chars config \<and> gr_max_request_chars config < char_count content
        \<or> (\<exists>p \<in> set (gr_blocked_patterns config). \<exists>a b. to_lowercase content = a @ to_lowercase p @ b)
          \<and> \<not> (\<exists>q \<in> set (gr_allowed_patterns config). \<exists>a b. to_lowercase content = a @ to_lowercase q @ b))"
  unfolding str_contains_iff[symmetric] by (auto simp: guard_check_def scan_patterns_iff)

text \<open>Moderation does not see content blocks: a message whose content is a list of blocks, as in
  multimodal requests, is skipped, so a blocked text passes once it is wrapped in a block.\<close>

theorem content_blocks_bypass_moderation:
  "let cfg = \<lparr>gr_enabled = True, gr_blocked_patterns = [''bad''], gr_allowed_patterns = [],
              gr_max_request_chars = 0, gr_block_message = []\<rparr>;
       request = \<lambda>content. JObj [(''messages'', JArr [JObj [(''role'', JStr ''user''), (''content'', content)]])]
   in check_request cfg (request (JStr ''bad'')) = Block ''Content matches blocked pattern: bad''
      \<and> check_request cfg (request (JArr [JObj [(''type'', JStr ''text''), (''text'', JStr ''bad'')]])) = Allow"
  by (simp add: check_request_def guard_check_def with_newlines_def List.map_filter_def json_as_array_def
      json_as_str_def to_lowercase_def starts_with_def)

end
