(* ===== verification/Token_Usage.thy ===== *)
theory Token_Usage
  imports Json Channel
begin

text \<open>
  Token counting and cost: \<open>proxy/token_counter.rs\<close>, \<open>estimate_tokens\<close> of
  \<open>proxy/mod.rs\<close>, \<open>proxy/usage.rs\<close> and \<open>compute_token_cost\<close> of \<open>proxy/response.rs\<close>. The JSON printer
  and parser are arguments \<open>print\<close> and \<open>parse\<close>. Counts are 64-bit and wrap; the running count of
  \<open>count_text_tokens\<close> is a double that only ever grows by one, exact below \<open>2 ^ 53\<close>, and is a natural
  number here.
\<close>

section \<open>Characters\<close>

text \<open>\<open>str::chars\<close>: the code points of UTF-8 text.\<close>

fun utf8_chars :: "nat list \<Rightarrow> nat list" where
  "utf8_chars [] = []"
| "utf8_chars [a] = [a]"
| "utf8_chars [a, b] = (if a < 192 then a # utf8_chars [b] else [(a - 192) * 64 + (b - 128)])"
| "utf8_chars [a, b, c] =
     (if a < 192 then a # utf8_chars [b, c]
      else if a < 224 then ((a - 192) * 64 + (b - 128)) # utf8_chars [c]
      else [(a - 224) * 4096 + (b - 128) * 64 + (c - 128)])"
| "utf8_chars (a # b # c # d # rest) =
     (if a < 192 then a # utf8_chars (b # c # d # rest)
      else if a < 224 then ((a - 192) * 64 + (b - 128)) # utf8_chars (c # d # rest)
      else if a < 240 then ((a - 224) * 4096 + (b - 128) * 64 + (c - 128)) # utf8_chars (d # rest)
      else ((a - 240) * 262144 + (b - 128) * 4096 + (c - 128) * 64 + (d - 128)) # utf8_chars rest)"

definition code_points :: "string \<Rightarrow> nat list" where
  "code_points s = utf8_chars (map (of_char :: char \<Rightarrow> nat) s)"

definition is_cjk :: "nat \<Rightarrow> bool" where
  "is_cjk code \<longleftrightarrow>
     0x4E00 \<le> code \<and> code \<le> 0x9FFF \<or> 0x3400 \<le> code \<and> code \<le> 0x4DBF
     \<or> 0xF900 \<le> code \<and> code \<le> 0xFAFF \<or> 0x3040 \<le> code \<and> code \<le> 0x309F
     \<or> 0x30A0 \<le> code \<and> code \<le> 0x30FF \<or> 0xAC00 \<le> code \<and> code \<le> 0xD7AF
     \<or> 0x3000 \<le> code \<and> code \<le> 0x303F \<or> 0xFF00 \<le> code \<and> code \<le> 0xFFEF"

text \<open>\<open>char::is_ascii_whitespace\<close>: tab, line feed, form feed, carriage return and space.\<close>

definition is_ascii_whitespace :: "nat \<Rightarrow> bool" where
  "is_ascii_whitespace c \<longleftrightarrow> c = 9 \<or> c = 10 \<or> c = 12 \<or> c = 13 \<or> c = 32"

fun count_chars :: "nat \<Rightarrow> nat \<Rightarrow> nat list \<Rightarrow> nat" where
  "count_chars token_count ascii_word_len [] =
     (if 0 < ascii_word_len then token_count + 1 else token_count)"
| "count_chars token_count ascii_word_len (ch # rest) =
     (let flushed = (if 0 < ascii_word_len then token_count + 1 else token_count)
      in if is_cjk ch then count_chars (flushed + 1) 0 rest
         else if is_ascii_whitespace ch then count_chars flushed 0 rest
         else if ch < 128 then count_chars token_count (ascii_word_len + 1) rest
         else count_chars (flushed + 1) 0 rest)"

definition count_text_tokens :: "string \<Rightarrow> u64" where
  "count_text_tokens text = (if text = [] then 0 else of_nat (count_chars 0 0 (code_points text)))"

section \<open>Requests\<close>

definition newline :: string where "newline = [CHR 0x0A]"

definition opt_text :: "string option \<Rightarrow> string" where
  "opt_text x = (case x of Some s \<Rightarrow> s | None \<Rightarrow> [])"

definition opt_line :: "string option \<Rightarrow> string" where
  "opt_line x = (case x of Some s \<Rightarrow> s @ newline | None \<Rightarrow> [])"

definition json_get_array :: "json \<Rightarrow> string \<Rightarrow> json list" where
  "json_get_array v k = (case Option.bind (json_get v k) json_as_array of Some xs \<Rightarrow> xs | None \<Rightarrow> [])"

definition extract_text_from_content :: "json \<Rightarrow> string" where
  "extract_text_from_content content =
     (case json_as_str content of
        Some s \<Rightarrow> s @ newline
      | None \<Rightarrow>
          (case json_as_array content of
             None \<Rightarrow> []
           | Some blocks \<Rightarrow> concat (map (\<lambda>block.
               if json_get_str block ''type'' = Some ''text'' then opt_line (json_get_str block ''text'') else [])
               blocks)))"

definition tool_call_text :: "json \<Rightarrow> string" where
  "tool_call_text tc =
     (case json_get tc ''function'' of
        None \<Rightarrow> []
      | Some func \<Rightarrow> opt_text (json_get_str func ''name'') @ opt_text (json_get_str func ''arguments''))"

definition message_text :: "json \<Rightarrow> string" where
  "message_text msg =
     opt_line (json_get_str msg ''role'')
     @ (case json_get msg ''content'' of Some c \<Rightarrow> extract_text_from_content c | None \<Rightarrow> [])
     @ concat (map tool_call_text (json_get_array msg ''tool_calls''))"

definition tool_text :: "(json \<Rightarrow> string) \<Rightarrow> json \<Rightarrow> string" where
  "tool_text print tool =
     (case json_get tool ''function'' of
        None \<Rightarrow> []
      | Some func \<Rightarrow>
          opt_text (json_get_str func ''name'') @ opt_text (json_get_str func ''description'')
          @ (case json_get func ''parameters'' of Some p \<Rightarrow> print p | None \<Rightarrow> []))"

definition count_input_tokens :: "(json \<Rightarrow> string) \<Rightarrow> json \<Rightarrow> u64" where
  "count_input_tokens print body =
     (let messages = json_get_array body ''messages''; tools = json_get_array body ''tools'';
          total_text = concat (map message_text messages) @ concat (map (tool_text print) tools)
      in count_text_tokens total_text + of_nat (length messages) * 3 + of_nat (length tools) * 10)"

definition estimate_tokens :: "(json \<Rightarrow> string) \<Rightarrow> json \<Rightarrow> u64" where
  "estimate_tokens print body =
     count_input_tokens print body
     + (case json_get_u64 body ''max_tokens'' of Some n \<Rightarrow> n | None \<Rightarrow> 4096)"

section \<open>Usage in responses\<close>

record token_usage =
  tu_input :: "u64 option"
  tu_output :: "u64 option"
  tu_cache_hit :: "u64 option"
  tu_cache_miss :: "u64 option"

definition no_usage :: token_usage where
  "no_usage = \<lparr>tu_input = None, tu_output = None, tu_cache_hit = None, tu_cache_miss = None\<rparr>"

definition or_else :: "'a option \<Rightarrow> 'a option \<Rightarrow> 'a option" where
  "or_else a b = (case a of Some x \<Rightarrow> Some x | None \<Rightarrow> b)"

definition extract_usage :: "(string \<Rightarrow> json option) \<Rightarrow> string \<Rightarrow> token_usage" where
  "extract_usage parse body =
     (case parse body of
        None \<Rightarrow> no_usage
      | Some v \<Rightarrow>
          (case json_get v ''usage'' of
             None \<Rightarrow> no_usage
           | Some usage \<Rightarrow>
               \<lparr>tu_input = or_else (json_get_u64 usage ''prompt_tokens'') (json_get_u64 usage ''input_tokens''),
                tu_output = or_else (json_get_u64 usage ''completion_tokens'') (json_get_u64 usage ''output_tokens''),
                tu_cache_hit = or_else (json_get_u64 usage ''prompt_cache_hit_tokens'')
                                       (json_get_u64 usage ''cache_read_input_tokens''),
                tu_cache_miss = or_else (json_get_u64 usage ''prompt_cache_miss_tokens'')
                                        (json_get_u64 usage ''cache_creation_input_tokens'')\<rparr>))"

text \<open>The loop over the chunks, newest first; \<open>acc\<close> holds the Anthropic fields.\<close>

fun usage_scan :: "(string \<Rightarrow> json option) \<Rightarrow> token_usage \<Rightarrow> string list \<Rightarrow> token_usage" where
  "usage_scan parse acc [] =
     (if tu_input acc \<noteq> None \<or> tu_output acc \<noteq> None then acc else no_usage)"
| "usage_scan parse acc (chunk # rest) =
     (if trim chunk = ''[DONE]'' \<or> trim chunk = [] then usage_scan parse acc rest
      else
        let v = parse chunk; event_type = Option.bind v (\<lambda>v. json_get_str v ''type'')
        in if event_type = Some ''message_delta'' then
             usage_scan parse
               (case Option.bind v (\<lambda>v. json_get v ''usage'') of
                  Some usage \<Rightarrow> acc\<lparr>tu_output := json_get_u64 usage ''output_tokens''\<rparr> | None \<Rightarrow> acc) rest
           else if event_type = Some ''message_start'' then
             usage_scan parse
               (case Option.bind v (\<lambda>v. Option.bind (json_get v ''message'') (\<lambda>m. json_get m ''usage'')) of
                  Some usage \<Rightarrow> acc\<lparr>tu_input := json_get_u64 usage ''input_tokens'',
                                    tu_cache_hit := json_get_u64 usage ''cache_read_input_tokens'',
                                    tu_cache_miss := json_get_u64 usage ''cache_creation_input_tokens''\<rparr>
                | None \<Rightarrow> acc) rest
           else
             let u = extract_usage parse chunk
             in if tu_input u \<noteq> None \<or> tu_output u \<noteq> None then u else usage_scan parse acc rest)"

definition extract_usage_from_stream :: "(string \<Rightarrow> json option) \<Rightarrow> string list \<Rightarrow> token_usage" where
  "extract_usage_from_stream parse chunks = usage_scan parse no_usage (take 10 (rev chunks))"

section \<open>Cost\<close>

record model_pricing =
  mp_input_cost_per_mtok :: "f64 option"
  mp_output_cost_per_mtok :: "f64 option"

record channel_cost_rates =
  cr_input_cost_per_mtok :: "f64 option"
  cr_output_cost_per_mtok :: "f64 option"
  cr_cost_per_token :: "f64 option"

definition rates_from_channel :: "channel \<Rightarrow> channel_cost_rates" where
  "rates_from_channel c =
     \<lparr>cr_input_cost_per_mtok = ch_input_cost_per_mtok c, cr_output_cost_per_mtok = ch_output_cost_per_mtok c,
      cr_cost_per_token = ch_cost_per_token c\<rparr>"

definition opt_rate :: "f64 option \<Rightarrow> f64" where
  "opt_rate r = (case r of Some x \<Rightarrow> x | None \<Rightarrow> 0)"

definition compute_token_cost ::
  "model_pricing option \<Rightarrow> channel_cost_rates \<Rightarrow> f64 \<Rightarrow> u64 \<Rightarrow> u64 \<Rightarrow> f64 option" where
  "compute_token_cost pricing rates completion_ratio input output =
     (let eff_in = or_else (Option.bind pricing mp_input_cost_per_mtok) (cr_input_cost_per_mtok rates);
          eff_out = or_else (Option.bind pricing mp_output_cost_per_mtok) (cr_output_cost_per_mtok rates)
      in if eff_in \<noteq> None \<or> eff_out \<noteq> None then
           Some (f64_add (f64_mul (f64_div (f64_of_u64 input) 1000000) (opt_rate eff_in))
                         (f64_mul (f64_mul (f64_div (f64_of_u64 output) 1000000) (opt_rate eff_out)) completion_ratio))
         else map_option (\<lambda>rate. f64_mul (f64_div (f64_of_u64 (input + output)) 1000) rate)
                (cr_cost_per_token rates))"

text \<open>\<open>(cost * 100.0) as u64\<close>, and the pre-charge of \<open>dispatch\<close> with its literals \<open>0.01\<close> and \<open>100.0\<close>.\<close>

definition cost_cents :: "f64 option \<Rightarrow> u64" where
  "cost_cents cost = f64_as_u64 (f64_mul (opt_rate cost) 100)"

definition estimated_cost_cents :: "u64 \<Rightarrow> u64" where
  "estimated_cost_cents est_tokens =
     f64_as_u64 (f64_mul (f64_mul (f64_div (f64_of_u64 est_tokens) 1000) (f64_rnd (1 / 100))) 100) + 1"

section \<open>Counting words\<close>

definition is_word :: "nat \<Rightarrow> bool" where
  "is_word c \<longleftrightarrow> c < 128 \<and> \<not> is_ascii_whitespace c"

lemma is_cjk_not_ascii: "is_cjk c \<Longrightarrow> 128 \<le> c"
  by (auto simp: is_cjk_def)

fun word_starts :: "bool \<Rightarrow> nat list \<Rightarrow> nat" where
  "word_starts inside [] = 0"
| "word_starts inside (c # cs) = (if is_word c \<and> \<not> inside then 1 else 0) + word_starts (is_word c) cs"

lemma count_chars_starts:
  "count_chars t w cs =
     t + (if 0 < w then 1 else 0) + length (filter (\<lambda>c. 128 \<le> c) cs) + word_starts (0 < w) cs"
proof (induction t w cs rule: count_chars.induct)
  case (2 t w ch rest)
  have ws: "is_ascii_whitespace ch \<Longrightarrow> ch < 128" by (auto simp: is_ascii_whitespace_def)
  consider "is_cjk ch" | "\<not> is_cjk ch" "is_ascii_whitespace ch"
    | "\<not> is_cjk ch" "\<not> is_ascii_whitespace ch" "ch < 128"
    | "\<not> is_cjk ch" "\<not> is_ascii_whitespace ch" "\<not> ch < 128" by blast
  then show ?case
    by cases (use "2.IH" ws is_cjk_not_ascii[of ch] in \<open>auto simp: Let_def is_word_def\<close>)
qed simp

lemma word_starts_zip:
  "word_starts inside cs =
     length (filter (\<lambda>(p, c). is_word c \<and> \<not> is_word p) (zip ((if inside then 97 else 32) # cs) cs))"
proof (induction inside cs rule: word_starts.induct)
  case (2 inside c cs)
  have w: "is_word 97" "\<not> is_word 32" by (simp_all add: is_word_def is_ascii_whitespace_def)
  have "length (filter (\<lambda>(p, c). is_word c \<and> \<not> is_word p) (zip (x # cs) cs)) =
      length (filter (\<lambda>(p, c). is_word c \<and> \<not> is_word p) (zip (y # cs) cs))" if "is_word x = is_word y" for x y
    using that by (cases cs) auto
  from this[of c "if is_word c then 97 else 32"] "2.IH" w show ?case by auto
qed simp

section \<open>Streams\<close>

lemma usage_scan_input_None:
  assumes "tu_input acc = None"
    and "\<forall>c \<in> set chunks. Option.bind (parse c) (\<lambda>v. json_get_str v ''type'') \<noteq> Some ''message_start''
      \<and> (Option.bind (parse c) (\<lambda>v. json_get_str v ''type'') \<noteq> Some ''message_delta'' \<longrightarrow>
           extract_usage parse c = no_usage)"
  shows "tu_input (usage_scan parse acc chunks) = None"
  using assms
proof (induction parse acc chunks rule: usage_scan.induct)
  case (1 parse acc)
  then show ?case by (simp add: no_usage_def)
next
  case (2 parse acc chunk rest)
  then show ?case by (auto simp: Let_def no_usage_def split: option.splits)
qed

lemma f64_of_nat_sum:
  assumes "m + n < 2 ^ 53"
  shows "f64_of_nat (m + n) = f64_add (f64_of_nat m) (f64_of_nat n)"
proof -
  have "f64_of_nat m = of_nat m" "f64_of_nat n = of_nat n"
    using assms by (simp_all add: f64_of_nat_exact)
  then show ?thesis by (simp add: f64_add_def f64_of_nat_def)
qed

section \<open>Properties\<close>

text \<open>The token heuristic is what its description says, for texts of any script: one token per
  non-ASCII character and one per maximal run of ASCII characters without white space.\<close>

theorem count_text_tokens_exact:
  "count_text_tokens text =
     (let cs = code_points text
      in of_nat (length (filter (\<lambda>c. 128 \<le> c) cs)
           + length (filter (\<lambda>(p, c). is_word c \<and> \<not> is_word p) (zip (32 # cs) cs))))"
  using word_starts_zip[of False "code_points text"]
  by (auto simp: count_text_tokens_def count_chars_starts code_points_def Let_def)

text \<open>The input tokens of a long Anthropic stream are lost: they are announced in the first event,
  but only the last ten chunks are read, so a stream with ten or more later chunks is charged
  without its input tokens.\<close>

theorem stream_input_tokens_lost:
  assumes "10 \<le> length later"
    and "\<forall>c \<in> set later. Option.bind (parse c) (\<lambda>v. json_get_str v ''type'') \<noteq> Some ''message_start''
      \<and> (Option.bind (parse c) (\<lambda>v. json_get_str v ''type'') \<noteq> Some ''message_delta'' \<longrightarrow>
           extract_usage parse c = no_usage)"
  shows "tu_input (extract_usage_from_stream parse (message_start # later)) = None"
proof -
  have "take 10 (rev (message_start # later)) = take 10 (rev later)" using assms(1) by simp
  moreover have "set (take 10 (rev later)) \<subseteq> set later" by (metis set_rev set_take_subset)
  ultimately show ?thesis
    unfolding extract_usage_from_stream_def using assms(2)
    by (intro usage_scan_input_None) (auto simp: no_usage_def)
qed

definition example_stream_parse :: "string \<Rightarrow> json option" where
  "example_stream_parse c =
     (if c = ''start'' then Some (JObj [(''type'', JStr ''message_start''),
        (''message'', JObj [(''usage'', JObj [(''input_tokens'', JInt 500)])])])
      else if c = ''delta'' then Some (JObj [(''type'', JStr ''content_block_delta'')])
      else if c = ''end'' then Some (JObj [(''type'', JStr ''message_delta''),
        (''usage'', JObj [(''output_tokens'', JInt 20)])])
      else None)"

lemma stream_input_tokens_lost_witness:
  "tu_input (extract_usage_from_stream example_stream_parse [''start'', ''delta'', ''end'']) = Some 500
   \<and> tu_input (extract_usage_from_stream example_stream_parse (''start'' # replicate 9 ''delta'' @ [''end''])) = None"
proof
  show "tu_input (extract_usage_from_stream example_stream_parse [''start'', ''delta'', ''end'']) = Some 500"
    by (simp add: extract_usage_from_stream_def example_stream_parse_def extract_usage_def no_usage_def
        trim_def is_space_def json_as_str_def json_as_u64_def Let_def)
  show "tu_input (extract_usage_from_stream example_stream_parse (''start'' # replicate 9 ''delta'' @ [''end''])) = None"
    by (rule stream_input_tokens_lost)
      (auto simp: example_stream_parse_def json_as_str_def extract_usage_def)
qed

text \<open>The token estimate wraps: a request that asks for the largest number of output tokens is
  estimated below its own input, so the pre-charge and the token limits see almost nothing.\<close>

theorem estimate_tokens_wraps:
  assumes "json_get body ''max_tokens'' = Some (JInt 18446744073709551615)"
  shows "estimate_tokens print body = count_input_tokens print body - 1"
proof -
  have "(of_int 18446744073709551615 :: u64) = - 1" by simp
  then show ?thesis using assms by (simp add: estimate_tokens_def json_as_u64_def)
qed

lemma estimate_tokens_wraps_witness:
  "estimate_tokens (\<lambda>_. []) (JObj [(''tools'', JArr [JNull]), (''max_tokens'', JInt 18446744073709551615)]) = 9"
proof -
  let ?b = "JObj [(''tools'', JArr [JNull]), (''max_tokens'', JInt 18446744073709551615)]"
  have "count_input_tokens (\<lambda>_. []) ?b = 10"
    by (simp add: count_input_tokens_def json_get_array_def json_as_array_def tool_text_def json_get_def
        count_text_tokens_def Let_def)
  with estimate_tokens_wraps[of ?b "\<lambda>_. []"] show ?thesis by simp
qed

text \<open>The two cost routines agree: without price overrides, the cost charged after a response is the
  double-precision value \<open>calculate_cost\<close> of the channel gives, for every number of tokens a double
  holds exactly.\<close>

theorem cost_routines_agree:
  assumes "unat input + unat output < 2 ^ 53"
  shows "compute_token_cost None (rates_from_channel c) 1 input output = calculate_cost c (Some input) (Some output)"
proof -
  have one: "f64_mul (f64_mul x y) 1 = f64_mul x y" for x y
    using is_f64_rnd[of "x * y"] by (simp add: f64_mul_def is_f64_def)
  have "unat (input + output) = unat input + unat output"
    using assms by (intro unat_add_lem[THEN iffD1]) simp
  then have "f64_of_u64 (input + output) = f64_add (f64_of_u64 input) (f64_of_u64 output)"
    using f64_of_nat_sum[OF assms] by (simp add: f64_of_u64_def)
  then show ?thesis
    by (auto simp: compute_token_cost_def calculate_cost_def rates_from_channel_def or_else_def opt_rate_def
        Let_def one split: option.splits)
qed

lemma cost_routines_agree_witness:
  "compute_token_cost None (rates_from_channel (example_channel 1)) 1 1000 2000 =
     calculate_cost (example_channel 1) (Some 1000) (Some 2000)"
  by (rule cost_routines_agree) simp

end
