(* ===== verification/Quota.thy ===== *)
theory Quota
  imports Float64 Keyed_Store Token_Usage
begin

text \<open>
  \<open>quota/mod.rs\<close>: the quota information of channels, fed by the poller (\<open>update\<close>), by response headers
  (\<open>update_rate_limits\<close>) and by the usage of every response (\<open>accumulate_usage\<close>), and the redemption
  codes. The file behind the quota store is the one of \<open>Persisted_Store\<close>.
\<close>

section \<open>Quota information\<close>

record quota_item =
  qi_label :: string
  qi_value :: string

record quota_group =
  qg_window :: string
  qg_utilization_pct :: "f64 option"
  qg_resets_at :: "string option"

record quota_info =
  qu_channel_id :: uuid
  qu_channel_name :: string
  qu_provider :: string
  qu_balance :: "f64 option"
  qu_limit :: "f64 option"
  qu_usage :: "f64 option"
  qu_remaining_tokens :: "u64 option"
  qu_remaining_requests :: "u64 option"
  qu_plan_status :: "string option"
  qu_expires_at :: "string option"
  qu_items :: "quota_item list"
  qu_groups :: "quota_group list"
  qu_compact_text :: "string option"
  qu_rl_remaining_req :: "u64 option"
  qu_rl_limit_req :: "u64 option"
  qu_rl_remaining_tok :: "u64 option"
  qu_rl_limit_tok :: "u64 option"
  qu_rl_updated_at :: "utc option"
  qu_total_input_tokens :: "u64 option"
  qu_total_output_tokens :: "u64 option"
  qu_total_cache_hit_tokens :: "u64 option"
  qu_total_cache_miss_tokens :: "u64 option"
  qu_total_requests_counted :: "u64 option"
  qu_total_estimated_cost :: "f64 option"
  qu_source :: string
  qu_updated_at :: utc
  qu_error :: "string option"

type_synonym quota_store = "(uuid, quota_info) hashmap"

definition quota_info_new :: "utc \<Rightarrow> uuid \<Rightarrow> string \<Rightarrow> string \<Rightarrow> string \<Rightarrow> quota_info" where
  "quota_info_new now i name prov source =
     \<lparr>qu_channel_id = i, qu_channel_name = name, qu_provider = prov, qu_balance = None, qu_limit = None,
      qu_usage = None, qu_remaining_tokens = None, qu_remaining_requests = None, qu_plan_status = None,
      qu_expires_at = None, qu_items = [], qu_groups = [], qu_compact_text = None,
      qu_rl_remaining_req = None, qu_rl_limit_req = None, qu_rl_remaining_tok = None,
      qu_rl_limit_tok = None, qu_rl_updated_at = None, qu_total_input_tokens = None,
      qu_total_output_tokens = None, qu_total_cache_hit_tokens = None, qu_total_cache_miss_tokens = None,
      qu_total_requests_counted = None, qu_total_estimated_cost = None, qu_source = source,
      qu_updated_at = now, qu_error = None\<rparr>"

definition update_from_headers ::
  "utc \<Rightarrow> u64 option \<Rightarrow> u64 option \<Rightarrow> u64 option \<Rightarrow> u64 option \<Rightarrow> quota_info \<Rightarrow> quota_info" where
  "update_from_headers now remaining_req limit_req remaining_tok limit_tok q =
     q\<lparr>qu_rl_remaining_req := or_else remaining_req (qu_rl_remaining_req q),
       qu_rl_limit_req := or_else limit_req (qu_rl_limit_req q),
       qu_rl_remaining_tok := or_else remaining_tok (qu_rl_remaining_tok q),
       qu_rl_limit_tok := or_else limit_tok (qu_rl_limit_tok q),
       qu_rl_updated_at := Some now,
       qu_source := (if qu_source q = [] \<or> qu_source q = ''http_api'' then ''response_header'' else qu_source q),
       qu_updated_at := now\<rparr>"

definition quota_merge :: "quota_info \<Rightarrow> quota_info \<Rightarrow> quota_info" where
  "quota_merge existing info =
     info\<lparr>qu_total_input_tokens := qu_total_input_tokens existing,
          qu_total_output_tokens := qu_total_output_tokens existing,
          qu_total_cache_hit_tokens := qu_total_cache_hit_tokens existing,
          qu_total_cache_miss_tokens := qu_total_cache_miss_tokens existing,
          qu_total_requests_counted := qu_total_requests_counted existing,
          qu_total_estimated_cost := qu_total_estimated_cost existing,
          qu_rl_remaining_req := or_else (qu_rl_remaining_req info) (qu_rl_remaining_req existing),
          qu_rl_limit_req := or_else (qu_rl_limit_req info) (qu_rl_limit_req existing),
          qu_rl_remaining_tok := or_else (qu_rl_remaining_tok info) (qu_rl_remaining_tok existing),
          qu_rl_limit_tok := or_else (qu_rl_limit_tok info) (qu_rl_limit_tok existing),
          qu_rl_updated_at := or_else (qu_rl_updated_at info) (qu_rl_updated_at existing)\<rparr>"

definition quota_update :: "quota_store \<Rightarrow> quota_info \<Rightarrow> quota_store" where
  "quota_update s info =
     hm_insert (qu_channel_id info)
       (case hm_get s (qu_channel_id info) of Some existing \<Rightarrow> quota_merge existing info | None \<Rightarrow> info) s"

definition update_rate_limits ::
  "quota_store \<Rightarrow> utc \<Rightarrow> uuid \<Rightarrow> u64 option \<Rightarrow> u64 option \<Rightarrow> u64 option \<Rightarrow> u64 option \<Rightarrow> quota_store" where
  "update_rate_limits s now i remaining_req limit_req remaining_tok limit_tok =
     hm_insert i
       (update_from_headers now remaining_req limit_req remaining_tok limit_tok
          (case hm_get s i of Some q \<Rightarrow> q | None \<Rightarrow> quota_info_new now i [] [] ''response_header'')) s"

definition quota_get :: "quota_store \<Rightarrow> uuid \<Rightarrow> quota_info option" where
  "quota_get s i = hm_get s i"

definition quota_list :: "quota_store \<Rightarrow> quota_info list" where
  "quota_list s = hm_values s"

definition quota_delete :: "quota_store \<Rightarrow> uuid \<Rightarrow> quota_store" where
  "quota_delete s i = hm_remove i s"

definition add_count :: "u64 option \<Rightarrow> u64 option \<Rightarrow> u64 option" where
  "add_count acc v = (case v of Some n \<Rightarrow> Some ((case acc of Some a \<Rightarrow> a | None \<Rightarrow> 0) + n) | None \<Rightarrow> acc)"

definition accumulate_usage ::
  "quota_store \<Rightarrow> utc \<Rightarrow> uuid \<Rightarrow> token_usage \<Rightarrow> f64 option \<Rightarrow> quota_store" where
  "accumulate_usage s now i u cost =
     hm_insert i
       (case hm_get s i of
          Some q \<Rightarrow>
            q\<lparr>qu_total_input_tokens := add_count (qu_total_input_tokens q) (tu_input u),
              qu_total_output_tokens := add_count (qu_total_output_tokens q) (tu_output u),
              qu_total_cache_hit_tokens := add_count (qu_total_cache_hit_tokens q) (tu_cache_hit u),
              qu_total_cache_miss_tokens := add_count (qu_total_cache_miss_tokens q) (tu_cache_miss u),
              qu_total_requests_counted := add_count (qu_total_requests_counted q) (Some 1),
              qu_total_estimated_cost :=
                (case cost of Some v \<Rightarrow> Some (f64_add (opt_rate (qu_total_estimated_cost q)) v)
                            | None \<Rightarrow> qu_total_estimated_cost q),
              qu_updated_at := now\<rparr>
        | None \<Rightarrow>
            (quota_info_new now i [] [] ''passive'')
              \<lparr>qu_total_input_tokens := tu_input u, qu_total_output_tokens := tu_output u,
               qu_total_cache_hit_tokens := tu_cache_hit u, qu_total_cache_miss_tokens := tu_cache_miss u,
               qu_total_requests_counted := Some 1, qu_total_estimated_cost := cost\<rparr>) s"

section \<open>Redemption codes\<close>

record redemption_code =
  rd_code :: string
  rd_credits_cents :: u64
  rd_used :: bool
  rd_used_by :: "string option"
  rd_used_at :: "utc option"
  rd_created_at :: utc
  rd_expires_at :: "utc option"

datatype redemption_error = CodeNotFound | AlreadyUsed | CodeExpired

type_synonym code_store = "(string, redemption_code) hashmap"

text \<open>\<open>fresh\<close> is the printed random UUID.\<close>

definition code_generate :: "code_store \<Rightarrow> string \<Rightarrow> utc \<Rightarrow> u64 \<Rightarrow> utc option \<Rightarrow> code_store \<times> redemption_code" where
  "code_generate s fresh now credits expires_at =
     (let c = \<lparr>rd_code = fresh, rd_credits_cents = credits, rd_used = False, rd_used_by = None, rd_used_at = None,
               rd_created_at = now, rd_expires_at = expires_at\<rparr>
      in (hm_insert fresh c s, c))"

definition code_redeem :: "code_store \<Rightarrow> utc \<Rightarrow> string \<Rightarrow> string \<Rightarrow> code_store \<times> (redemption_error + u64)" where
  "code_redeem s now code redeemed_by =
     (case hm_get s code of
        None \<Rightarrow> (s, Inl CodeNotFound)
      | Some e \<Rightarrow>
          if rd_used e then (s, Inl AlreadyUsed)
          else if (case rd_expires_at e of Some x \<Rightarrow> x < now | None \<Rightarrow> False) then (s, Inl CodeExpired)
          else (hm_insert code (e\<lparr>rd_used := True, rd_used_by := Some redeemed_by, rd_used_at := Some now\<rparr>) s,
                Inr (rd_credits_cents e)))"

definition code_list :: "code_store \<Rightarrow> redemption_code list" where
  "code_list s = hm_values s"

definition code_delete :: "code_store \<Rightarrow> string \<Rightarrow> code_store \<times> bool" where
  "code_delete s code = (hm_remove code s, hm_contains s code)"

definition code_is_valid :: "code_store \<Rightarrow> utc \<Rightarrow> string \<Rightarrow> bool" where
  "code_is_valid s now code =
     (case hm_get s code of
        None \<Rightarrow> False
      | Some e \<Rightarrow> if rd_used e then False
                  else \<not> (case rd_expires_at e of Some x \<Rightarrow> x < now | None \<Rightarrow> False))"

section \<open>Histories\<close>

datatype quota_op =
    PollerUpdate quota_info
  | HeaderUpdate utc uuid "u64 option" "u64 option" "u64 option" "u64 option"
  | UsageUpdate utc uuid token_usage "f64 option"

fun quota_step :: "quota_store \<Rightarrow> quota_op \<Rightarrow> quota_store" where
  "quota_step s (PollerUpdate info) = quota_update s info"
| "quota_step s (HeaderUpdate now i a b c d) = update_rate_limits s now i a b c d"
| "quota_step s (UsageUpdate now i u cost) = accumulate_usage s now i u cost"

definition quota_run :: "quota_store \<Rightarrow> quota_op list \<Rightarrow> quota_store" where
  "quota_run s ops = foldl quota_step s ops"

definition count_value :: "u64 option \<Rightarrow> u64" where
  "count_value x = (case x of Some n \<Rightarrow> n | None \<Rightarrow> 0)"

text \<open>The input tokens and the number of responses of a channel in a history.\<close>

fun usage_of :: "uuid \<Rightarrow> quota_op \<Rightarrow> u64" where
  "usage_of i (UsageUpdate _ j u _) = (if i = j then count_value (tu_input u) else 0)"
| "usage_of i _ = 0"

fun request_of :: "uuid \<Rightarrow> quota_op \<Rightarrow> u64" where
  "request_of i (UsageUpdate _ j _ _) = (if i = j then 1 else 0)"
| "request_of i _ = 0"

definition tokens_counted :: "quota_store \<Rightarrow> uuid \<Rightarrow> u64" where
  "tokens_counted s i = (case hm_get s i of Some q \<Rightarrow> count_value (qu_total_input_tokens q) | None \<Rightarrow> 0)"

definition requests_counted :: "quota_store \<Rightarrow> uuid \<Rightarrow> u64" where
  "requests_counted s i = (case hm_get s i of Some q \<Rightarrow> count_value (qu_total_requests_counted q) | None \<Rightarrow> 0)"

lemma count_value_None [simp]: "count_value None = 0"
  by (simp add: count_value_def)

lemma count_value_add: "count_value (add_count a v) = count_value a + count_value v"
  by (auto simp: count_value_def add_count_def split: option.splits)

text \<open>A poller result carries no usage counts of its own, as the collectors build it with \<open>new\<close>.\<close>

fun poller_clean :: "quota_op \<Rightarrow> bool" where
  "poller_clean (PollerUpdate info) \<longleftrightarrow> qu_total_input_tokens info = None \<and> qu_total_requests_counted info = None"
| "poller_clean _ = True"

lemma quota_step_counts:
  assumes "poller_clean opn"
  shows "tokens_counted (quota_step s opn) i = tokens_counted s i + usage_of i opn"
    and "requests_counted (quota_step s opn) i = requests_counted s i + request_of i opn"
proof -
  note counted = tokens_counted_def requests_counted_def
  have "tokens_counted (quota_step s opn) i = tokens_counted s i + usage_of i opn
      \<and> requests_counted (quota_step s opn) i = requests_counted s i + request_of i opn"
  proof (cases opn)
    case (PollerUpdate info)
    with assms show ?thesis
      by (cases "hm_get s (qu_channel_id info)")
        (simp_all add: counted quota_update_def quota_merge_def count_value_None)
  next
    case (HeaderUpdate now j a b c d)
    then show ?thesis
      by (cases "hm_get s j")
        (simp_all add: counted update_rate_limits_def update_from_headers_def quota_info_new_def count_value_None)
  next
    case (UsageUpdate now j u cost)
    have "count_value (Some 1) = 1" by (simp add: count_value_def)
    with UsageUpdate show ?thesis
      by (cases "hm_get s j")
        (simp_all add: counted accumulate_usage_def quota_info_new_def count_value_add)
  qed
  then show "tokens_counted (quota_step s opn) i = tokens_counted s i + usage_of i opn"
    and "requests_counted (quota_step s opn) i = requests_counted s i + request_of i opn" by auto
qed

section \<open>Properties\<close>

text \<open>Usage accounting loses nothing: however poller refreshes, header updates and responses of all
  channels are interleaved, the counters of a channel grow by exactly the input tokens and the number
  of its own responses (modulo the 64 bits of the counters).\<close>

theorem quota_counts_exact:
  assumes "list_all poller_clean ops"
  shows "tokens_counted (quota_run s ops) i = tokens_counted s i + sum_list (map (usage_of i) ops)
    \<and> requests_counted (quota_run s ops) i = requests_counted s i + sum_list (map (request_of i) ops)"
  using assms unfolding quota_run_def
  by (induction ops arbitrary: s) (simp_all add: quota_step_counts algebra_simps)

lemma quota_counts_exact_witness:
  "tokens_counted (quota_run [] [UsageUpdate 0 7 (no_usage\<lparr>tu_input := Some 5\<rparr>) None,
     PollerUpdate (quota_info_new 1 7 ''n'' ''p'' ''http_api''),
     UsageUpdate 2 7 (no_usage\<lparr>tu_input := Some 6\<rparr>) None]) 7 = 11"
  by (subst quota_counts_exact[THEN conjunct1])
    (simp_all add: quota_info_new_def tokens_counted_def no_usage_def count_value_def)

text \<open>A redemption code pays out at most once: whatever is redeemed afterwards, by anybody and at any
  time, a code that was redeemed is refused from then on as long as it is neither deleted nor
  generated anew.\<close>

theorem code_redeemed_once:
  assumes "snd (code_redeem s now code who) = Inr credits"
  shows "hm_get (fold (\<lambda>(t, c, w) s. fst (code_redeem s t c w)) later (fst (code_redeem s now code who))) code
      \<noteq> None
    \<and> snd (code_redeem (fold (\<lambda>(t, c, w) s. fst (code_redeem s t c w)) later (fst (code_redeem s now code who)))
        now' code who') = Inl AlreadyUsed"
proof -
  let ?used = "\<lambda>s. \<exists>e. hm_get s code = Some e \<and> rd_used e"
  have step: "?used (fst (code_redeem s t c w))" if "?used s" for s t c w
    using that by (auto simp: code_redeem_def split: option.splits)
  have "?used (fold (\<lambda>(t, c, w) s. fst (code_redeem s t c w)) later s)" if "?used s" for s
    using that by (induction later arbitrary: s) (auto simp: step)
  moreover have "?used (fst (code_redeem s now code who))"
    using assms by (auto simp: code_redeem_def split: option.splits if_splits)
  ultimately have "?used (fold (\<lambda>(t, c, w) s. fst (code_redeem s t c w)) later (fst (code_redeem s now code who)))"
    by blast
  then show ?thesis by (auto simp: code_redeem_def)
qed

lemma code_redeemed_once_witness:
  "snd (code_redeem (fst (code_redeem (fst (code_generate [] ''c'' 0 500 None)) 1 ''c'' ''a'')) 2 ''c'' ''b'') =
     Inl AlreadyUsed"
  using code_redeemed_once[of "fst (code_generate [] ''c'' 0 500 None)" 1 "''c''" "''a''" 500 "[]" 2 "''b''"]
  by (simp add: code_generate_def code_redeem_def Let_def)

end
