(* ===== verification/Thinking.thy ===== *)
theory Thinking
  imports Json Channel
begin

text \<open>
  \<open>proxy/thinking.rs\<close>: one notion of thinking budget behind the parameters of three providers. A write
  through \<open>body[key] = v\<close> panics when \<open>body\<close> is neither an object nor null; the model returns
  \<open>None\<close> there.
\<close>

definition DEFAULT_ENABLED_BUDGET :: u64 where "DEFAULT_ENABLED_BUDGET = 8192"

definition budget_to_level :: "u64 \<Rightarrow> string" where
  "budget_to_level budget =
     (if budget = 0 then ''none'' else if budget \<le> 1024 then ''low''
      else if budget \<le> 8192 then ''medium'' else ''high'')"

definition level_to_budget :: "string \<Rightarrow> u64 option" where
  "level_to_budget level =
     map_of [(''none'', 0), (''minimal'', 512), (''low'', 1024), (''medium'', 8192), (''high'', 24576),
             (''xhigh'', 32768), (''max'', 128000)] (to_lowercase level)"

definition extract_thinking_budget :: "json \<Rightarrow> u64 option" where
  "extract_thinking_budget body =
     (case Option.bind (json_get body ''thinking'') (\<lambda>t. json_get_u64 t ''budget_tokens'') of
        Some budget \<Rightarrow> Some budget
      | None \<Rightarrow>
          if Option.bind (json_get body ''thinking'') (\<lambda>t. json_get_str t ''type'') = Some ''enabled''
          then Some DEFAULT_ENABLED_BUDGET
          else
            (case Option.bind (json_get_str body ''reasoning_effort'') level_to_budget of
               Some budget \<Rightarrow> Some budget
             | None \<Rightarrow>
                 (case Option.bind (Option.bind (json_get body ''reasoning'') (\<lambda>r. json_get_str r ''effort''))
                         level_to_budget of
                    Some budget \<Rightarrow> Some budget
                  | None \<Rightarrow>
                      Option.bind (Option.bind (json_get body ''generationConfig'') (\<lambda>gc. json_get gc ''thinkingConfig''))
                        (\<lambda>tc. json_get_u64 tc ''thinkingBudget''))))"

text \<open>\<open>map.remove\<close> and \<open>get_mut\<close> with \<open>as_object_mut\<close>: nothing happens when the value is no object.\<close>

definition json_remove :: "string \<Rightarrow> json \<Rightarrow> json" where
  "json_remove k v = (case v of JObj m \<Rightarrow> JObj (hm_remove k m) | _ \<Rightarrow> v)"

definition json_update :: "string \<Rightarrow> (json \<Rightarrow> json) \<Rightarrow> json \<Rightarrow> json" where
  "json_update k f v =
     (case v of
        JObj m \<Rightarrow> (case hm_get m k of Some x \<Rightarrow> JObj (hm_insert k (f x) m) | None \<Rightarrow> v)
      | _ \<Rightarrow> v)"

text \<open>\<open>IndexMut\<close> of \<open>serde_json::Value\<close> with a key.\<close>

definition json_set :: "string \<Rightarrow> json \<Rightarrow> json \<Rightarrow> json option" where
  "json_set k x v =
     (case v of JObj m \<Rightarrow> Some (JObj (hm_insert k x m)) | JNull \<Rightarrow> Some (JObj [(k, x)]) | _ \<Rightarrow> None)"

definition remove_thinking_fields :: "json \<Rightarrow> json" where
  "remove_thinking_fields body =
     json_update ''generationConfig'' (json_remove ''thinkingConfig'')
       (json_remove ''reasoning'' (json_remove ''reasoning_effort'' (json_remove ''thinking'' body)))"

definition set_gemini_budget :: "u64 \<Rightarrow> json \<Rightarrow> json option" where
  "set_gemini_budget b body =
     Option.bind
       (if json_get body ''generationConfig'' = None then json_set ''generationConfig'' (JObj []) body else Some body)
       (\<lambda>body. Option.bind (json_get body ''generationConfig'') (\<lambda>gc.
          Option.bind (json_set ''thinkingConfig'' (JObj [(''thinkingBudget'', JInt (uint b))]) gc)
            (\<lambda>gc. json_set ''generationConfig'' gc body)))"

definition normalize_for_provider :: "json \<Rightarrow> string \<Rightarrow> json option" where
  "normalize_for_provider body target_provider =
     (let budget = extract_thinking_budget body; body = remove_thinking_fields body
      in case budget of
           None \<Rightarrow> Some body
         | Some b \<Rightarrow>
             if b = 0 then Some body
             else let p = to_lowercase target_provider
                  in if p = ''anthropic'' then
                       json_set ''thinking'' (JObj [(''type'', JStr ''enabled''), (''budget_tokens'', JInt (uint b))]) body
                     else if p = ''openai'' then json_set ''reasoning_effort'' (JStr (budget_to_level b)) body
                     else if p = ''gemini'' then set_gemini_budget b body
                     else Some body)"

section \<open>Reading after writing\<close>

lemma json_get_remove: "json_get (json_remove k v) k' = (if k' = k then None else json_get v k')"
  by (simp add: json_remove_def json_get_def split: json.splits)

lemma json_get_update:
  "json_get (json_update k f v) k' = (if k' = k then map_option f (json_get v k) else json_get v k')"
  by (auto simp: json_update_def json_get_def split: json.splits option.splits)

lemma json_get_set:
  "json_set k x v = Some w \<Longrightarrow> json_get w k' = (if k' = k then Some x else json_get v k')"
  by (auto simp: json_set_def json_get_def split: json.splits if_splits)

lemma json_set_object: "json_is_object v \<Longrightarrow> \<exists>w. json_set k x v = Some w \<and> json_is_object w"
  by (auto simp: json_set_def json_is_object_def split: json.splits)

lemma json_is_object_remove [simp]: "json_is_object (json_remove k v) = json_is_object v"
  by (simp add: json_remove_def json_is_object_def split: json.splits)

lemma json_is_object_update [simp]: "json_is_object (json_update k f v) = json_is_object v"
  by (auto simp: json_update_def json_is_object_def split: json.splits option.splits)

lemmas json_reads = json_get_remove json_get_update

lemma as_u64_JInt [simp]: "json_as_u64 (JInt (uint b)) = Some b"
  using uint_lt2p[of b] by (simp add: json_as_u64_def)

text \<open>Where the budget of a cleaned body can still come from: nowhere.\<close>

lemma remove_thinking_reads:
  "json_get (remove_thinking_fields body) ''thinking'' = None"
  "json_get (remove_thinking_fields body) ''reasoning_effort'' = None"
  "json_get (remove_thinking_fields body) ''reasoning'' = None"
  "Option.bind (json_get (remove_thinking_fields body) ''generationConfig'') (\<lambda>gc. json_get gc ''thinkingConfig'') = None"
  "k \<notin> {''thinking'', ''reasoning_effort'', ''reasoning'', ''generationConfig''} \<Longrightarrow>
     json_get (remove_thinking_fields body) k = json_get body k"
  by (simp_all add: remove_thinking_fields_def json_reads bind_map_option comp_def)

lemma extract_removed: "extract_thinking_budget (remove_thinking_fields body) = None"
  unfolding extract_thinking_budget_def remove_thinking_reads by simp

lemma level_of_level: "0 < b \<Longrightarrow> \<exists>b'. level_to_budget (budget_to_level b) = Some b' \<and> budget_to_level b' = budget_to_level b"
  by (auto simp: level_to_budget_def budget_to_level_def to_lowercase_def word_le_nat_alt)

lemma set_gemini_budget_reads:
  assumes obj: "json_is_object v"
    and gc: "\<forall>gc. json_get v ''generationConfig'' = Some gc \<longrightarrow> json_is_object gc"
  shows "\<exists>out. set_gemini_budget b v = Some out
    \<and> Option.bind (Option.bind (json_get out ''generationConfig'') (\<lambda>gc. json_get gc ''thinkingConfig''))
        (\<lambda>tc. json_get_u64 tc ''thinkingBudget'') = Some b
    \<and> (\<forall>k. k \<noteq> ''generationConfig'' \<longrightarrow> json_get out k = json_get v k)"
proof -
  obtain v1 gc1 where v1: "(if json_get v ''generationConfig'' = None then json_set ''generationConfig'' (JObj []) v
      else Some v) = Some v1" "json_is_object v1" "json_get v1 ''generationConfig'' = Some gc1" "json_is_object gc1"
    "\<forall>k. k \<noteq> ''generationConfig'' \<longrightarrow> json_get v1 k = json_get v k"
  proof (cases "json_get v ''generationConfig''")
    case None
    obtain w where w: "json_set ''generationConfig'' (JObj []) v = Some w" "json_is_object w"
      using json_set_object[OF obj] by blast
    have "json_is_object (JObj [])" by (simp add: json_is_object_def)
    with None w json_get_set[OF w(1)] that show ?thesis by simp
  next
    case (Some g)
    with gc obj that show ?thesis by simp
  qed
  let ?x = "JObj [(''thinkingBudget'', JInt (uint b))]"
  obtain gc2 where gc2: "json_set ''thinkingConfig'' ?x gc1 = Some gc2" using json_set_object[OF v1(4)] by blast
  obtain out where out: "json_set ''generationConfig'' gc2 v1 = Some out" using json_set_object[OF v1(2)] by blast
  have "set_gemini_budget b v = Some out"
    by (simp add: set_gemini_budget_def v1 gc2 out)
  then show ?thesis using v1(5) by (simp add: json_get_set[OF out] json_get_set[OF gc2])
qed

lemma gemini_normalized:
  assumes "json_is_object body" "\<forall>gc. json_get body ''generationConfig'' = Some gc \<longrightarrow> json_is_object gc"
  shows "\<exists>out. set_gemini_budget b (remove_thinking_fields body) = Some out \<and> extract_thinking_budget out = Some b
    \<and> (\<forall>k. k \<notin> {''thinking'', ''reasoning_effort'', ''reasoning'', ''generationConfig''} \<longrightarrow>
         json_get out k = json_get body k)"
proof -
  let ?r = "remove_thinking_fields body"
  have "json_is_object ?r" using assms(1) by (simp add: remove_thinking_fields_def)
  moreover have "\<forall>gc. json_get ?r ''generationConfig'' = Some gc \<longrightarrow> json_is_object gc"
    using assms(2) by (auto simp: remove_thinking_fields_def json_reads)
  ultimately obtain out where out: "set_gemini_budget b ?r = Some out"
    "Option.bind (Option.bind (json_get out ''generationConfig'') (\<lambda>gc. json_get gc ''thinkingConfig''))
        (\<lambda>tc. json_get_u64 tc ''thinkingBudget'') = Some b"
    "\<forall>k. k \<noteq> ''generationConfig'' \<longrightarrow> json_get out k = json_get ?r k"
    using set_gemini_budget_reads by blast
  have "json_get out ''thinking'' = None" "json_get out ''reasoning_effort'' = None" "json_get out ''reasoning'' = None"
    using out(3) by (simp_all add: remove_thinking_reads)
  then have "extract_thinking_budget out = Some b"
    using out(2) unfolding extract_thinking_budget_def by simp
  with out(1,3) show ?thesis by (auto simp: remove_thinking_reads(5))
qed

section \<open>Properties\<close>

text \<open>Normalising a request for a provider keeps the thinking budget: afterwards the request carries
  the same budget for Anthropic and Gemini, a budget of the same level for OpenAI, and none for any
  other provider or when thinking was off; every field that has nothing to do with thinking is
  unchanged. For an object whose \<open>generationConfig\<close>, if any, is an object the rewriting never
  panics.\<close>

theorem normalize_keeps_budget:
  assumes "json_is_object body"
    and "\<forall>gc. json_get body ''generationConfig'' = Some gc \<longrightarrow> json_is_object gc"
  shows "\<exists>out. normalize_for_provider body provider = Some out
    \<and> (let want = (case extract_thinking_budget body of Some b \<Rightarrow> if b = 0 then None else Some b | None \<Rightarrow> None);
           p = to_lowercase provider; got = extract_thinking_budget out
       in if p = ''anthropic'' \<or> p = ''gemini'' then got = want
          else if p = ''openai'' then map_option budget_to_level got = map_option budget_to_level want
          else got = None)
    \<and> (\<forall>k. k \<notin> {''thinking'', ''reasoning_effort'', ''reasoning'', ''generationConfig''} \<longrightarrow>
         json_get out k = json_get body k)"
proof -
  let ?r = "remove_thinking_fields body"
  have obj: "json_is_object ?r" using assms(1) by (simp add: remove_thinking_fields_def)
  show ?thesis
  proof (cases "extract_thinking_budget body")
    case None
    then show ?thesis
      by (auto simp: normalize_for_provider_def Let_def extract_removed remove_thinking_reads(5))
  next
    case (Some b)
    consider "b = 0" | "b \<noteq> 0" "to_lowercase provider = ''anthropic''" | "b \<noteq> 0" "to_lowercase provider = ''openai''"
      | "b \<noteq> 0" "to_lowercase provider = ''gemini''"
      | "b \<noteq> 0" "to_lowercase provider \<notin> {''anthropic'', ''openai'', ''gemini''}" by auto
    then show ?thesis
    proof cases
      case 1
      with Some show ?thesis
        by (auto simp: normalize_for_provider_def Let_def extract_removed remove_thinking_reads(5))
    next
      case 2
      let ?x = "JObj [(''type'', JStr ''enabled''), (''budget_tokens'', JInt (uint b))]"
      obtain out where out: "json_set ''thinking'' ?x ?r = Some out" using json_set_object[OF obj] by blast
      have "extract_thinking_budget out = Some b"
        by (simp add: extract_thinking_budget_def json_get_set[OF out])
      with 2 Some out show ?thesis
        by (auto simp: normalize_for_provider_def Let_def json_get_set[OF out] remove_thinking_reads(5))
    next
      case 3
      let ?x = "JStr (budget_to_level b)"
      obtain out where out: "json_set ''reasoning_effort'' ?x ?r = Some out" using json_set_object[OF obj] by blast
      obtain b' where b': "level_to_budget (budget_to_level b) = Some b'" "budget_to_level b' = budget_to_level b"
        using level_of_level[of b] 3(1) by (auto simp: word_neq_0_conv)
      have "extract_thinking_budget out = Some b'"
        using b'(1)
        by (simp add: extract_thinking_budget_def json_get_set[OF out] remove_thinking_reads json_as_str_def)
      with 3 Some out b'(2) show ?thesis
        by (auto simp: normalize_for_provider_def Let_def json_get_set[OF out] remove_thinking_reads(5))
    next
      case 4
      obtain out where "set_gemini_budget b ?r = Some out" "extract_thinking_budget out = Some b"
        "\<forall>k. k \<notin> {''thinking'', ''reasoning_effort'', ''reasoning'', ''generationConfig''} \<longrightarrow>
           json_get out k = json_get body k"
        using gemini_normalized[OF assms] by blast
      with 4 Some show ?thesis by (simp add: normalize_for_provider_def Let_def)
    next
      case 5
      with Some show ?thesis
        by (auto simp: normalize_for_provider_def Let_def extract_removed remove_thinking_reads(5))
    qed
  qed
qed

lemma normalize_keeps_budget_witness:
  "let body = JObj [(''model'', JStr ''m''), (''reasoning_effort'', JStr ''HIGH'')]
   in extract_thinking_budget body = Some 24576
      \<and> (\<exists>out. normalize_for_provider body ''Anthropic'' = Some out \<and> extract_thinking_budget out = Some 24576)"
proof -
  let ?b = "JObj [(''model'', JStr ''m''), (''reasoning_effort'', JStr ''HIGH'')]"
  have high: "to_lowercase ''HIGH'' = ''high''" by code_simp
  have b: "extract_thinking_budget ?b = Some 24576"
    by (simp add: extract_thinking_budget_def json_as_str_def level_to_budget_def high)
  have "to_lowercase ''Anthropic'' = ''anthropic''" by code_simp
  with normalize_keeps_budget[of ?b "''Anthropic''"] b show ?thesis
    by (auto simp: json_is_object_def Let_def)
qed

text \<open>A client can crash the rewriting for Gemini: when \<open>generationConfig\<close> is no object, the indexed
  write panics.\<close>

theorem normalize_panics_on_scalar_config:
  assumes "json_get body ''generationConfig'' = Some (JInt n)" "extract_thinking_budget body = Some b" "b \<noteq> 0"
    "json_is_object body"
  shows "normalize_for_provider body ''gemini'' = None"
proof -
  have "json_get (remove_thinking_fields body) ''generationConfig'' = Some (JInt n)"
    using assms(1) by (simp add: remove_thinking_fields_def json_reads) (simp add: json_remove_def)
  moreover have "to_lowercase ''gemini'' = ''gemini''" by code_simp
  ultimately show ?thesis
    using assms(2,3) by (simp add: normalize_for_provider_def set_gemini_budget_def json_set_def)
qed

lemma normalize_panics_on_scalar_config_witness:
  "normalize_for_provider (JObj [(''generationConfig'', JInt 5), (''reasoning_effort'', JStr ''low'')]) ''gemini'' = None"
proof -
  have "to_lowercase ''low'' = ''low''" by code_simp
  then show ?thesis
    by (intro normalize_panics_on_scalar_config[where n = 5 and b = 1024])
      (simp_all add: extract_thinking_budget_def json_as_str_def level_to_budget_def json_is_object_def)
qed

end
