(* ===== verification/Translate.thy ===== *)
theory Translate
  imports Thinking Token_Usage
begin

text \<open>
  \<open>proxy/translate\<close>: conversion of requests, responses and stream events between the formats of OpenAI,
  Anthropic and Gemini, and the line-wise rewriting of event streams in \<open>proxy/stream.rs\<close>. The JSON
  printer and parser, the fresh ids and the creation time are arguments.
\<close>

datatype request_format = OpenAIChat | AnthropicMessages | GeminiFormat | OpenAIResponses

section \<open>Shared readers\<close>

definition str_or :: "json \<Rightarrow> string \<Rightarrow> string \<Rightarrow> string" where
  "str_or v k d = (case json_get_str v k of Some s \<Rightarrow> s | None \<Rightarrow> d)"

definition u64_or_0 :: "json \<Rightarrow> string \<Rightarrow> u64" where
  "u64_or_0 v k = (case json_get_u64 v k of Some n \<Rightarrow> n | None \<Rightarrow> 0)"

definition get_or :: "json \<Rightarrow> string \<Rightarrow> json \<Rightarrow> json" where
  "get_or v k d = (case json_get v k of Some x \<Rightarrow> x | None \<Rightarrow> d)"

definition json_u64 :: "u64 \<Rightarrow> json" where
  "json_u64 n = JInt (uint n)"

definition pass_through :: "string list \<Rightarrow> json \<Rightarrow> (string \<times> json) list" where
  "pass_through keys body = List.map_filter (\<lambda>k. map_option (Pair k) (json_get body k)) keys"

definition optional_field :: "string \<Rightarrow> json option \<Rightarrow> (string \<times> json) list" where
  "optional_field k v = (case v of Some x \<Rightarrow> [(k, x)] | None \<Rightarrow> [])"

definition scalar_fields :: "string list" where
  "scalar_fields = [''model'', ''max_tokens'', ''stream'', ''temperature'', ''top_p'']"

definition text_message :: "string \<Rightarrow> string \<Rightarrow> json" where
  "text_message role content = JObj [(''role'', JStr role), (''content'', JStr content)]"

definition function_call :: "string \<Rightarrow> string \<Rightarrow> string \<Rightarrow> json" where
  "function_call i name arguments =
     JObj [(''id'', JStr i), (''type'', JStr ''function''),
           (''function'', JObj [(''name'', JStr name), (''arguments'', JStr arguments)])]"

definition tool_use_block :: "string \<Rightarrow> string \<Rightarrow> json \<Rightarrow> json" where
  "tool_use_block i name input =
     JObj [(''type'', JStr ''tool_use''), (''id'', JStr i), (''name'', JStr name), (''input'', input)]"

definition text_block :: "string \<Rightarrow> json" where
  "text_block text = JObj [(''type'', JStr ''text''), (''text'', JStr text)]"

section \<open>Anthropic requests to OpenAI\<close>

definition system_text :: "json \<Rightarrow> string" where
  "system_text system =
     (case system of
        JStr s \<Rightarrow> s
      | JArr arr \<Rightarrow> concat (List.map_filter (\<lambda>b. json_get_str b ''text'') arr)
      | _ \<Rightarrow> [])"

text \<open>The accumulators of the loop over the blocks of one message.\<close>

record block_acc =
  ba_texts :: "string list"
  ba_parts :: "json list"
  ba_tool_calls :: "json list"
  ba_multimodal :: bool
  ba_tool_results :: "json list"

definition a2o_block :: "(json \<Rightarrow> string) \<Rightarrow> block_acc \<Rightarrow> json \<Rightarrow> block_acc" where
  "a2o_block print acc block =
     (let btype = str_or block ''type'' []
      in if btype = ''text'' then
           let text = str_or block ''text'' []
           in acc\<lparr>ba_texts := ba_texts acc @ [text], ba_parts := ba_parts acc @ [text_block text]\<rparr>
         else if btype = ''image'' then
           (case json_get block ''source'' of
              None \<Rightarrow> acc\<lparr>ba_multimodal := True\<rparr>
            | Some source \<Rightarrow>
                acc\<lparr>ba_multimodal := True,
                    ba_parts := ba_parts acc @
                      [JObj [(''type'', JStr ''image_url''),
                             (''image_url'', JObj [(''url'', JStr (''data:'' @ str_or source ''media_type'' ''image/png''
                                @ '';base64,'' @ str_or source ''data'' []))])]]\<rparr>)
         else if btype = ''tool_use'' then
           acc\<lparr>ba_tool_calls := ba_tool_calls acc @
             [function_call (str_or block ''id'' []) (str_or block ''name'' []) (print (get_or block ''input'' (JObj [])))]\<rparr>
         else if btype = ''tool_result'' then
           acc\<lparr>ba_tool_results := ba_tool_results acc @
             [JObj [(''role'', JStr ''tool''), (''tool_call_id'', JStr (str_or block ''tool_use_id'' [])),
                    (''content'', JStr (str_or block ''content'' []))]]\<rparr>
         else acc)"

definition a2o_main_message :: "string \<Rightarrow> block_acc \<Rightarrow> json list" where
  "a2o_main_message role acc =
     (if ba_texts acc \<noteq> [] \<or> ba_multimodal acc \<or> ba_tool_calls acc \<noteq> [] then
        let content = (if ba_multimodal acc then JArr (ba_parts acc)
                       else if ba_tool_calls acc \<noteq> [] \<and> ba_texts acc = [] then JNull
                       else JStr (concat (ba_texts acc)))
        in [JObj ([(''role'', JStr role), (''content'', content)]
                  @ (if ba_tool_calls acc \<noteq> [] then [(''tool_calls'', JArr (ba_tool_calls acc))] else []))]
      else [])"

definition a2o_message :: "(json \<Rightarrow> string) \<Rightarrow> json \<Rightarrow> json list" where
  "a2o_message print msg =
     (let role = str_or msg ''role'' ''user''
      in case json_get msg ''content'' of
           Some (JStr s) \<Rightarrow> [text_message role s]
         | Some (JArr blocks) \<Rightarrow>
             let acc = foldl (a2o_block print)
                   \<lparr>ba_texts = [], ba_parts = [], ba_tool_calls = [], ba_multimodal = False, ba_tool_results = []\<rparr> blocks
             in ba_tool_results acc @ a2o_main_message role acc
         | _ \<Rightarrow> [text_message role []])"

definition a2o_tool :: "json \<Rightarrow> json" where
  "a2o_tool tool =
     JObj [(''type'', JStr ''function''),
           (''function'', JObj [(''name'', JStr (str_or tool ''name'' [])),
              (''description'', JStr (str_or tool ''description'' [])),
              (''parameters'', get_or tool ''input_schema'' (JObj [(''type'', JStr ''object'')]))])]"

definition a2o_tool_choice :: "json \<Rightarrow> json" where
  "a2o_tool_choice tc =
     (case json_get_str tc ''type'' of
        Some t \<Rightarrow>
          if t = ''any'' then JStr ''required''
          else if t = ''tool'' then
            JObj [(''type'', JStr ''function''), (''function'', JObj [(''name'', JStr (str_or tc ''name'' []))])]
          else JStr ''auto''
      | None \<Rightarrow> JStr ''auto'')"

definition anthropic_to_openai_request :: "(json \<Rightarrow> string) \<Rightarrow> json \<Rightarrow> json" where
  "anthropic_to_openai_request print body =
     (let system = (case json_get body ''system'' of Some s \<Rightarrow> system_text s | None \<Rightarrow> []);
          messages = (if system \<noteq> [] then [text_message ''system'' system] else [])
                     @ concat (map (a2o_message print) (json_get_array body ''messages''))
      in JObj (pass_through scalar_fields body
               @ optional_field ''stop'' (json_get body ''stop_sequences'')
               @ [(''messages'', JArr messages)]
               @ optional_field ''tools''
                   (map_option (\<lambda>ts. JArr (map a2o_tool ts)) (Option.bind (json_get body ''tools'') json_as_array))
               @ optional_field ''tool_choice'' (map_option a2o_tool_choice (json_get body ''tool_choice''))))"

section \<open>OpenAI requests to Anthropic\<close>

definition split_data_url :: "string \<Rightarrow> (string \<times> string) option" where
  "split_data_url url =
     (if starts_with url ''data:'' then split_once (CHR '','') (drop 5 url) else None)"

text \<open>\<open>trim_end_matches\<close> removes the suffix as often as it occurs.\<close>

function trim_end_matches :: "string \<Rightarrow> string \<Rightarrow> string" where
  "trim_end_matches s sfx =
     (if sfx \<noteq> [] \<and> length sfx \<le> length s \<and> drop (length s - length sfx) s = sfx
      then trim_end_matches (take (length s - length sfx) s) sfx else s)"
  by auto

termination
proof (relation "measure (\<lambda>(s, _). length s)")
  fix s sfx :: string
  assume "sfx \<noteq> [] \<and> length sfx \<le> length s \<and> drop (length s - length sfx) s = sfx"
  then have "length (take (length s - length sfx) s) < length s" by (cases sfx) auto
  then show "((take (length s - length sfx) s, sfx), (s, sfx)) \<in> measure (\<lambda>(s, _). length s)"
    by (simp only: in_measure prod.case)
qed simp

definition o2a_block :: "json \<Rightarrow> json list" where
  "o2a_block block =
     (let btype = str_or block ''type'' []
      in if btype = ''text'' then [block]
         else if btype = ''image_url'' then
           (case split_data_url (opt_text (Option.bind (json_get block ''image_url'') (\<lambda>u. json_get_str u ''url''))) of
              None \<Rightarrow> []
            | Some (media, data) \<Rightarrow>
                [JObj [(''type'', JStr ''image''),
                       (''source'', JObj [(''type'', JStr ''base64''),
                          (''media_type'', JStr (trim_end_matches media '';base64'')), (''data'', JStr data)])]])
         else [])"

definition o2a_tool_call :: "(string \<Rightarrow> json option) \<Rightarrow> json \<Rightarrow> json" where
  "o2a_tool_call parse tc =
     (let func = get_or tc ''function'' (JObj [])
      in tool_use_block (str_or tc ''id'' []) (str_or func ''name'' [])
           (case parse (str_or func ''arguments'' ''{}'') of Some v \<Rightarrow> v | None \<Rightarrow> JObj []))"

definition o2a_content :: "json list \<Rightarrow> json" where
  "o2a_content blocks =
     (case blocks of
        [] \<Rightarrow> JStr []
      | [b] \<Rightarrow> if json_get_str b ''type'' = Some ''text'' then JStr (str_or b ''text'' []) else JArr [b]
      | _ \<Rightarrow> JArr blocks)"

definition o2a_message :: "(string \<Rightarrow> json option) \<Rightarrow> json \<Rightarrow> json option" where
  "o2a_message parse msg =
     (let role = str_or msg ''role'' ''user''
      in if role = ''system'' then None
         else if role = ''tool'' then
           Some (JObj [(''role'', JStr ''user''),
             (''content'', JArr [JObj [(''type'', JStr ''tool_result''),
                (''tool_use_id'', JStr (str_or msg ''tool_call_id'' [])), (''content'', JStr (str_or msg ''content'' []))]])])
         else
           let content_blocks = (case json_get msg ''content'' of
                 Some (JStr s) \<Rightarrow> if s \<noteq> [] then [text_block s] else []
               | Some (JArr arr) \<Rightarrow> concat (map o2a_block arr)
               | _ \<Rightarrow> []);
               blocks = content_blocks @ map (o2a_tool_call parse) (json_get_array msg ''tool_calls'')
           in Some (JObj [(''role'', JStr role), (''content'', o2a_content blocks)]))"

fun add_system :: "string \<Rightarrow> json list \<Rightarrow> string" where
  "add_system acc [] = acc"
| "add_system acc (msg # rest) =
     (if str_or msg ''role'' ''user'' = ''system'' then
        (case json_get_str msg ''content'' of
           Some content \<Rightarrow> add_system ((if acc \<noteq> [] then acc @ newline else acc) @ content) rest
         | None \<Rightarrow> add_system acc rest)
      else add_system acc rest)"

definition o2a_tool :: "json \<Rightarrow> json option" where
  "o2a_tool tool =
     (if str_or tool ''type'' [] \<noteq> ''function'' then None
      else let func = get_or tool ''function'' (JObj [])
           in Some (JObj [(''name'', JStr (str_or func ''name'' [])),
                (''description'', JStr (str_or func ''description'' [])),
                (''input_schema'', get_or func ''parameters'' (JObj [(''type'', JStr ''object'')]))]))"

definition o2a_tool_choice :: "json \<Rightarrow> json" where
  "o2a_tool_choice tc =
     (case tc of
        JStr s \<Rightarrow> JObj [(''type'', JStr (if s = ''required'' then ''any'' else if s = ''none'' then ''none'' else ''auto''))]
      | JObj _ \<Rightarrow>
          if str_or tc ''type'' ''auto'' = ''function''
          then JObj [(''type'', JStr ''tool''),
                 (''name'', JStr (opt_text (Option.bind (json_get tc ''function'') (\<lambda>f. json_get_str f ''name''))))]
          else JObj [(''type'', JStr ''auto'')]
      | _ \<Rightarrow> JObj [(''type'', JStr ''auto'')])"

definition openai_to_anthropic_request :: "(string \<Rightarrow> json option) \<Rightarrow> json \<Rightarrow> json" where
  "openai_to_anthropic_request parse body =
     (let messages = json_get_array body ''messages''; system = add_system [] messages;
          tools = List.map_filter o2a_tool (json_get_array body ''tools'')
      in JObj (pass_through scalar_fields body
               @ optional_field ''stop_sequences'' (json_get body ''stop'')
               @ (if system \<noteq> [] then [(''system'', JStr system)] else [])
               @ [(''messages'', JArr (List.map_filter (o2a_message parse) messages))]
               @ (if tools \<noteq> [] then [(''tools'', JArr tools)] else [])
               @ optional_field ''tool_choice'' (map_option o2a_tool_choice (json_get body ''tool_choice''))))"

section \<open>Responses\<close>

definition first_choice :: "json \<Rightarrow> json option" where
  "first_choice body =
     (case Option.bind (json_get body ''choices'') json_as_array of Some (c # _) \<Rightarrow> Some c | _ \<Rightarrow> None)"

definition stop_reason_of :: "string \<Rightarrow> string" where
  "stop_reason_of finish =
     (if finish = ''length'' then ''max_tokens'' else if finish = ''tool_calls'' then ''tool_use'' else ''end_turn'')"

definition finish_reason_of :: "string \<Rightarrow> string" where
  "finish_reason_of stop =
     (if stop = ''max_tokens'' then ''length'' else if stop = ''tool_use'' then ''tool_calls'' else ''stop'')"

definition openai_to_anthropic_response :: "(string \<Rightarrow> json option) \<Rightarrow> string \<Rightarrow> json \<Rightarrow> json" where
  "openai_to_anthropic_response parse fresh body =
     (let choice = first_choice body;
          message = (case Option.bind choice (\<lambda>c. json_get c ''message'') of Some m \<Rightarrow> m | None \<Rightarrow> JObj []);
          finish = (case Option.bind choice (\<lambda>c. json_get_str c ''finish_reason'') of Some f \<Rightarrow> f | None \<Rightarrow> ''stop'');
          text = opt_text (json_get_str message ''content'');
          content = (if text \<noteq> [] then [text_block text] else [])
                    @ map (o2a_tool_call parse) (json_get_array message ''tool_calls'');
          usage = get_or body ''usage'' (JObj [])
      in JObj [(''id'', JStr (''msg_'' @ fresh)), (''type'', JStr ''message''), (''role'', JStr ''assistant''),
               (''content'', JArr content), (''model'', JStr (str_or body ''model'' [])),
               (''stop_reason'', JStr (stop_reason_of finish)),
               (''usage'', JObj [(''input_tokens'', json_u64 (u64_or_0 usage ''prompt_tokens'')),
                               (''output_tokens'', json_u64 (u64_or_0 usage ''completion_tokens''))])])"

definition response_texts :: "json list \<Rightarrow> string" where
  "response_texts blocks =
     concat (map (\<lambda>b. if str_or b ''type'' [] = ''text'' then opt_text (json_get_str b ''text'') else []) blocks)"

definition response_tool_calls :: "(json \<Rightarrow> string) \<Rightarrow> json list \<Rightarrow> json list" where
  "response_tool_calls print blocks =
     map (\<lambda>b. function_call (str_or b ''id'' []) (str_or b ''name'' []) (print (get_or b ''input'' (JObj []))))
       (filter (\<lambda>b. str_or b ''type'' [] = ''tool_use'') blocks)"

definition anthropic_to_openai_response :: "(json \<Rightarrow> string) \<Rightarrow> int \<Rightarrow> json \<Rightarrow> string \<Rightarrow> json" where
  "anthropic_to_openai_response print created body model =
     (let blocks = json_get_array body ''content''; text = response_texts blocks;
          tool_calls = response_tool_calls print blocks;
          message = JObj ((''role'', JStr ''assistant'')
             # (if tool_calls = [] then [(''content'', JStr text)]
                else [(''content'', if text = [] then JNull else JStr text), (''tool_calls'', JArr tool_calls)]));
          usage = get_or body ''usage'' (JObj []);
          input_tokens = u64_or_0 usage ''input_tokens''; output_tokens = u64_or_0 usage ''output_tokens''
      in JObj [(''id'', JStr (str_or body ''id'' ''anthropic-resp'')), (''object'', JStr ''chat.completion''),
               (''created'', JInt created), (''model'', JStr model),
               (''choices'', JArr [JObj [(''index'', JInt 0), (''message'', message),
                  (''finish_reason'', JStr (finish_reason_of (str_or body ''stop_reason'' ''end_turn'')))]]),
               (''usage'', JObj [(''prompt_tokens'', json_u64 input_tokens), (''completion_tokens'', json_u64 output_tokens),
                               (''total_tokens'', json_u64 (input_tokens + output_tokens))])])"

section \<open>Gemini\<close>

definition gemini_content :: "json \<Rightarrow> json option" where
  "gemini_content msg =
     (let role = str_or msg ''role'' ''user''
      in if role = ''system'' then None
         else Some (JObj [(''role'', JStr (if role = ''assistant'' then ''model'' else ''user'')),
                (''parts'', JArr [JObj [(''text'', JStr (opt_text (json_get_str msg ''content'')))]])]))"

definition gemini_system_part :: "json \<Rightarrow> json option" where
  "gemini_system_part msg =
     (if json_get_str msg ''role'' = Some ''system''
      then map_option (\<lambda>s. JObj [(''text'', JStr s)]) (json_get_str msg ''content'') else None)"

definition openai_to_gemini :: "json \<Rightarrow> json" where
  "openai_to_gemini body =
     (let messages = json_get_array body ''messages'';
          system_parts = List.map_filter gemini_system_part messages;
          gen_config = optional_field ''maxOutputTokens''
                         (or_else (json_get body ''max_tokens'') (json_get body ''max_completion_tokens''))
                       @ optional_field ''temperature'' (json_get body ''temperature'')
                       @ optional_field ''topP'' (json_get body ''top_p'')
      in JObj ([(''contents'', JArr (List.map_filter gemini_content messages))]
               @ (if system_parts \<noteq> [] then [(''systemInstruction'', JObj [(''parts'', JArr system_parts)])] else [])
               @ optional_field ''stream'' (map_option JBool (Option.bind (json_get body ''stream'') json_as_bool))
               @ (if gen_config \<noteq> [] then [(''generationConfig'', JObj gen_config)] else [])))"

definition gemini_text :: "json \<Rightarrow> string" where
  "gemini_text c =
     (case Option.bind (Option.bind (json_get c ''content'') (\<lambda>ct. json_get ct ''parts'')) json_as_array of
        Some (part # _) \<Rightarrow> opt_text (json_get_str part ''text'')
      | _ \<Rightarrow> [])"

definition gemini_finish :: "json \<Rightarrow> string" where
  "gemini_finish c =
     (case json_get_str c ''finishReason'' of
        Some f \<Rightarrow> if f = ''MAX_TOKENS'' then ''length'' else if f = ''SAFETY'' then ''content_filter'' else ''stop''
      | None \<Rightarrow> ''stop'')"

definition gemini_to_openai :: "int \<Rightarrow> json \<Rightarrow> string \<Rightarrow> json" where
  "gemini_to_openai created body model =
     (let candidates = json_get_array body ''candidates'';
          choices = map (\<lambda>(i, c). JObj [(''index'', JInt (int i)),
              (''message'', JObj [(''role'', JStr ''assistant''), (''content'', JStr (gemini_text c))]),
              (''finish_reason'', JStr (gemini_finish c))]) (List.enumerate 0 candidates);
          u = get_or body ''usageMetadata'' (JObj [])
      in JObj [(''id'', JStr ''gemini-resp''), (''object'', JStr ''chat.completion''), (''created'', JInt created),
               (''model'', JStr model), (''choices'', JArr choices),
               (''usage'', JObj [(''prompt_tokens'', json_u64 (u64_or_0 u ''promptTokenCount'')),
                  (''completion_tokens'', json_u64 (u64_or_0 u ''candidatesTokenCount'')),
                  (''total_tokens'', json_u64 (u64_or_0 u ''totalTokenCount''))])])"

section \<open>Stream events\<close>

definition data_line :: "(json \<Rightarrow> string) \<Rightarrow> json \<Rightarrow> string" where
  "data_line print v = ''data: '' @ print v @ newline @ newline"

definition event_line :: "(json \<Rightarrow> string) \<Rightarrow> string \<Rightarrow> json \<Rightarrow> string" where
  "event_line print name v = ''event: '' @ name @ newline @ data_line print v"

definition done_line :: string where
  "done_line = ''data: [DONE]'' @ newline @ newline"

definition openai_to_anthropic_stream_chunk :: "(json \<Rightarrow> string) \<Rightarrow> json \<Rightarrow> string option" where
  "openai_to_anthropic_stream_chunk print chunk =
     (case first_choice chunk of
        None \<Rightarrow> None
      | Some choice \<Rightarrow>
          let delta = get_or choice ''delta'' (JObj []);
              text = opt_text (json_get_str delta ''content'');
              parts = List.map_filter
                (\<lambda>tc. map_option (\<lambda>args. event_line print ''content_block_delta''
                     (JObj [(''type'', JStr ''content_block_delta''),
                            (''delta'', JObj [(''type'', JStr ''input_json_delta''), (''partial_json'', JStr args)])]))
                   (Option.bind (json_get tc ''function'') (\<lambda>f. json_get_str f ''arguments'')))
                (json_get_array delta ''tool_calls'');
              stop = event_line print ''message_stop'' (JObj [(''type'', JStr ''message_stop'')])
          in if text \<noteq> [] then
               Some (event_line print ''content_block_delta''
                 (JObj [(''type'', JStr ''content_block_delta''),
                        (''delta'', JObj [(''type'', JStr ''text_delta''), (''text'', JStr text)])]))
             else if parts \<noteq> [] then Some (concat parts)
             else if json_get_str choice ''finish_reason'' \<noteq> None then
               (case json_get chunk ''usage'' of
                  Some usage \<Rightarrow>
                    Some (event_line print ''message_delta''
                      (JObj [(''type'', JStr ''message_delta''),
                         (''usage'', JObj [(''output_tokens'', json_u64 (u64_or_0 usage ''completion_tokens''))])]) @ stop)
                | None \<Rightarrow> Some stop)
             else None)"

definition openai_chunk :: "string \<Rightarrow> int \<Rightarrow> string \<Rightarrow> json \<Rightarrow> json \<Rightarrow> (string \<times> json) list" where
  "openai_chunk fresh created model delta finish =
     [(''id'', JStr (''anthropic-stream-'' @ fresh)), (''object'', JStr ''chat.completion.chunk''),
      (''created'', JInt created), (''model'', JStr model),
      (''choices'', JArr [JObj [(''index'', JInt 0), (''delta'', delta), (''finish_reason'', finish)]])]"

definition a2o_block_start :: "(json \<Rightarrow> string) \<Rightarrow> string \<Rightarrow> int \<Rightarrow> string \<Rightarrow> json \<Rightarrow> string option" where
  "a2o_block_start print fresh created model block =
     (let emit = (\<lambda>delta. Some (data_line print (JObj (openai_chunk fresh created model delta JNull))))
      in case json_get_str block ''type'' of
           None \<Rightarrow> None
         | Some t \<Rightarrow>
             if t = ''text'' then
               emit (JObj [(''role'', JStr ''assistant''), (''content'', JStr (str_or block ''text'' []))])
             else if t = ''tool_use'' then
               emit (JObj [(''tool_calls'', JArr [JObj [(''index'', JInt 0), (''id'', JStr (str_or block ''id'' [])),
                  (''type'', JStr ''function''),
                  (''function'', JObj [(''name'', JStr (str_or block ''name'' [])), (''arguments'', JStr [])])]])])
             else None)"

definition a2o_block_delta :: "(json \<Rightarrow> string) \<Rightarrow> string \<Rightarrow> int \<Rightarrow> string \<Rightarrow> json \<Rightarrow> string option" where
  "a2o_block_delta print fresh created model delta =
     (let emit = (\<lambda>d. Some (data_line print (JObj (openai_chunk fresh created model d JNull))))
      in case json_get_str delta ''type'' of
           None \<Rightarrow> None
         | Some t \<Rightarrow>
             if t = ''text_delta'' then
               let text = str_or delta ''text'' []
               in if text = [] then None else emit (JObj [(''content'', JStr text)])
             else if t = ''input_json_delta'' then
               emit (JObj [(''tool_calls'', JArr [JObj [(''index'', JInt 0),
                  (''function'', JObj [(''arguments'', JStr (str_or delta ''partial_json'' []))])]])])
             else None)"

definition a2o_message_delta :: "(json \<Rightarrow> string) \<Rightarrow> string \<Rightarrow> int \<Rightarrow> string \<Rightarrow> json \<Rightarrow> string option" where
  "a2o_message_delta print fresh created model chunk =
     (case json_get chunk ''delta'' of
        None \<Rightarrow> None
      | Some delta \<Rightarrow>
          (case json_get_str delta ''stop_reason'' of
             None \<Rightarrow> None
           | Some s \<Rightarrow>
               Some (data_line print (JObj (openai_chunk fresh created model (JObj []) (JStr (finish_reason_of s))
                 @ (case json_get chunk ''usage'' of
                      None \<Rightarrow> []
                    | Some usage \<Rightarrow> [(''usage'', JObj [(''prompt_tokens'', json_u64 (u64_or_0 usage ''input_tokens'')),
                                         (''completion_tokens'', json_u64 (u64_or_0 usage ''output_tokens''))])]))))))"

definition anthropic_to_openai_stream_chunk ::
  "(json \<Rightarrow> string) \<Rightarrow> string \<Rightarrow> int \<Rightarrow> json \<Rightarrow> string \<Rightarrow> string option" where
  "anthropic_to_openai_stream_chunk print fresh created chunk model =
     (case json_get_str chunk ''type'' of
        None \<Rightarrow> None
      | Some t \<Rightarrow>
          if t = ''content_block_start'' then
            Option.bind (json_get chunk ''content_block'') (a2o_block_start print fresh created model)
          else if t = ''content_block_delta'' then
            Option.bind (json_get chunk ''delta'') (a2o_block_delta print fresh created model)
          else if t = ''message_delta'' then a2o_message_delta print fresh created model chunk
          else if t = ''message_stop'' then Some done_line
          else None)"

definition gemini_stream_to_openai :: "(json \<Rightarrow> string) \<Rightarrow> int \<Rightarrow> json \<Rightarrow> string \<Rightarrow> string option" where
  "gemini_stream_to_openai print created chunk model =
     (case Option.bind (json_get chunk ''candidates'') json_as_array of
        Some (c # _) \<Rightarrow>
          let text = gemini_text c; finish = gemini_finish c; is_done = (finish \<noteq> ''stop'' \<or> text = []);
              sse = JObj [(''id'', JStr ''gemini-stream''), (''object'', JStr ''chat.completion.chunk''),
                 (''created'', JInt created), (''model'', JStr model),
                 (''choices'', JArr [JObj [(''index'', JInt 0),
                    (''delta'', JObj [(''role'', JStr ''assistant''), (''content'', JStr text)]),
                    (''finish_reason'', if is_done then JStr finish else JNull)]])]
          in Some (data_line print sse @ (if is_done then done_line else []))
      | _ \<Rightarrow> None)"

section \<open>The registry of translations\<close>

definition translate_request ::
  "(string \<Rightarrow> json option) \<Rightarrow> (json \<Rightarrow> string) \<Rightarrow> json \<Rightarrow> request_format \<Rightarrow> request_format \<Rightarrow> json" where
  "translate_request parse print body src dst =
     (if src = dst then body
      else if src = OpenAIChat \<and> dst = AnthropicMessages then openai_to_anthropic_request parse body
      else if src = AnthropicMessages \<and> dst = OpenAIChat then anthropic_to_openai_request print body
      else body)"

definition translate_response ::
  "(string \<Rightarrow> json option) \<Rightarrow> (json \<Rightarrow> string) \<Rightarrow> string \<Rightarrow> int \<Rightarrow> json \<Rightarrow> request_format \<Rightarrow> request_format \<Rightarrow> string \<Rightarrow> json" where
  "translate_response parse print fresh created body src dst model =
     (if src = dst then body
      else if src = AnthropicMessages \<and> dst = OpenAIChat then anthropic_to_openai_response print created body model
      else if src = OpenAIChat \<and> dst = AnthropicMessages then openai_to_anthropic_response parse fresh body
      else body)"

definition translate_stream_chunk ::
  "(json \<Rightarrow> string) \<Rightarrow> string \<Rightarrow> int \<Rightarrow> json \<Rightarrow> request_format \<Rightarrow> request_format \<Rightarrow> string \<Rightarrow> string option" where
  "translate_stream_chunk print fresh created chunk src dst model =
     (if src = dst then None
      else if src = AnthropicMessages \<and> dst = OpenAIChat then anthropic_to_openai_stream_chunk print fresh created chunk model
      else if src = OpenAIChat \<and> dst = AnthropicMessages then openai_to_anthropic_stream_chunk print chunk
      else None)"

section \<open>Rewriting the lines of an event stream\<close>

definition strip_data :: "string \<Rightarrow> string" where
  "strip_data s = (if starts_with s ''data: '' then drop 6 s else s)"

definition translate_sse_line ::
  "(string \<Rightarrow> json option) \<Rightarrow> (string \<Rightarrow> json \<Rightarrow> string option) \<Rightarrow> string \<Rightarrow> string" where
  "translate_sse_line parse f line =
     (let trimmed = trim line
      in if trimmed = [] \<or> starts_with trimmed '':'' then line @ newline
         else let json_str = strip_data trimmed
              in if json_str = ''[DONE]'' then done_line
                 else if starts_with json_str ''event: '' then []
                 else case parse json_str of
                        Some v \<Rightarrow> opt_text (f line v)
                      | None \<Rightarrow> line @ newline)"

definition translate_sse_lines ::
  "(string \<Rightarrow> json option) \<Rightarrow> (string \<Rightarrow> json \<Rightarrow> string option) \<Rightarrow> string \<Rightarrow> string" where
  "translate_sse_lines parse f text = concat (map (translate_sse_line parse f) (split_on (CHR 0x0A) text))"

definition translate_gemini_sse_chunk ::
  "(string \<Rightarrow> json option) \<Rightarrow> (json \<Rightarrow> string) \<Rightarrow> int \<Rightarrow> string \<Rightarrow> string \<Rightarrow> string" where
  "translate_gemini_sse_chunk parse print created text model =
     translate_sse_lines parse
       (\<lambda>line v. Some (case gemini_stream_to_openai print created v model of
                         Some s \<Rightarrow> s | None \<Rightarrow> line @ newline @ newline)) text"

definition translate_protocol_sse_chunk ::
  "(string \<Rightarrow> json option) \<Rightarrow> (json \<Rightarrow> string) \<Rightarrow> string \<Rightarrow> int \<Rightarrow> string \<Rightarrow> string \<Rightarrow> request_format \<Rightarrow> request_format \<Rightarrow> string" where
  "translate_protocol_sse_chunk parse print fresh created text model src dst =
     translate_sse_lines parse (\<lambda>_ v. translate_stream_chunk print fresh created v src dst model) text"

section \<open>What a translation keeps\<close>

named_theorems field_simps_json \<open>fields of the assembled objects\<close>

lemma map_of_pass_through [field_simps_json]:
  "map_of (pass_through keys body) k = (if k \<in> set keys then json_get body k else None)"
  by (induction keys) (auto simp: pass_through_def map_filter_simps split: option.splits)

lemma map_of_optional_field [field_simps_json]:
  "map_of (optional_field k v) k' = (if k' = k then v else None)"
  by (simp add: optional_field_def split: option.splits)

lemma fields_append [field_simps_json]:
  "map_of (xs @ ys) k = (case map_of xs k of Some v \<Rightarrow> Some v | None \<Rightarrow> map_of ys k)"
  by (simp add: map_add_def)

lemma openai_to_anthropic_fields:
  "json_get (openai_to_anthropic_request parse body) k =
     (if k \<in> set scalar_fields then json_get body k
      else if k = ''stop_sequences'' then json_get body ''stop''
      else if k = ''system'' then
        (let s = add_system [] (json_get_array body ''messages'') in if s \<noteq> [] then Some (JStr s) else None)
      else if k = ''messages'' then Some (JArr (List.map_filter (o2a_message parse) (json_get_array body ''messages'')))
      else if k = ''tools'' then
        (let ts = List.map_filter o2a_tool (json_get_array body ''tools'') in if ts \<noteq> [] then Some (JArr ts) else None)
      else if k = ''tool_choice'' then map_option o2a_tool_choice (json_get body ''tool_choice'')
      else None)"
  by (simp add: openai_to_anthropic_request_def Let_def field_simps_json scalar_fields_def del: map_of_append split: option.splits)

lemma anthropic_to_openai_fields:
  "json_get (anthropic_to_openai_request print body) k =
     (if k \<in> set scalar_fields then json_get body k
      else if k = ''stop'' then json_get body ''stop_sequences''
      else if k = ''messages'' then
        (let s = (case json_get body ''system'' of Some s \<Rightarrow> system_text s | None \<Rightarrow> [])
         in Some (JArr ((if s \<noteq> [] then [text_message ''system'' s] else [])
                @ concat (map (a2o_message print) (json_get_array body ''messages'')))))
      else if k = ''tools'' then
        map_option (\<lambda>ts. JArr (map a2o_tool ts)) (Option.bind (json_get body ''tools'') json_as_array)
      else if k = ''tool_choice'' then map_option a2o_tool_choice (json_get body ''tool_choice'')
      else None)"
  by (simp add: anthropic_to_openai_request_def Let_def field_simps_json scalar_fields_def del: map_of_append split: option.splits)

section \<open>Conversations\<close>

text \<open>The messages a chat is made of, and how an OpenAI client writes them: an instruction, a text of the
  user or the assistant, an assistant message that calls tools (with or without text), and the result of a
  tool.\<close>

datatype turn =
    Instruction string
  | Said string string
  | Calls string "(string \<times> string \<times> json) list"
  | Result string string

fun openai_turn :: "(json \<Rightarrow> string) \<Rightarrow> turn \<Rightarrow> json" where
  "openai_turn print (Instruction s) = text_message ''system'' s"
| "openai_turn print (Said role s) = text_message role s"
| "openai_turn print (Calls s calls) =
     JObj [(''role'', JStr ''assistant''), (''content'', if s = [] then JNull else JStr s),
           (''tool_calls'', JArr (map (\<lambda>(i, name, input). function_call i name (print input)) calls))]"
| "openai_turn print (Result i s) =
     JObj [(''role'', JStr ''tool''), (''tool_call_id'', JStr i), (''content'', JStr s)]"

fun turn_ok :: "(string \<Rightarrow> json option) \<Rightarrow> (json \<Rightarrow> string) \<Rightarrow> turn \<Rightarrow> bool" where
  "turn_ok parse print (Instruction s) = True"
| "turn_ok parse print (Said role s) = (role \<in> {''user'', ''assistant''})"
| "turn_ok parse print (Calls s calls) =
     (calls \<noteq> [] \<and> (\<forall>(i, name, input) \<in> set calls. parse (print input) = Some input))"
| "turn_ok parse print (Result i s) = True"

definition instruction_text :: "turn list \<Rightarrow> string list" where
  "instruction_text ts = List.map_filter (\<lambda>t. case t of Instruction s \<Rightarrow> Some s | _ \<Rightarrow> None) ts"

definition is_instruction :: "turn \<Rightarrow> bool" where
  "is_instruction t = (case t of Instruction _ \<Rightarrow> True | _ \<Rightarrow> False)"

text \<open>Joined with line breaks, the way the loop of the translation does it: no break is written after
  instructions that are empty so far.\<close>

fun join_lines :: "string \<Rightarrow> string list \<Rightarrow> string" where
  "join_lines acc [] = acc"
| "join_lines acc (s # ss) = join_lines ((if acc \<noteq> [] then acc @ newline else acc) @ s) ss"

lemmas message_reads = str_or_def json_as_str_def text_message_def get_or_def

lemma add_system_turns:
  "list_all (turn_ok parse print) ts \<Longrightarrow>
     add_system acc (map (openai_turn print) ts) = join_lines acc (instruction_text ts)"
proof (induction ts arbitrary: acc)
  case (Cons t ts)
  then show ?case
    by (cases t) (auto simp: message_reads instruction_text_def map_filter_simps)
qed (simp add: instruction_text_def map_filter_simps)

lemma tool_call_back:
  "parse (print input) = Some input \<Longrightarrow>
     o2a_tool_call parse (function_call i name (print input)) = tool_use_block i name input"
  by (simp add: o2a_tool_call_def message_reads function_call_def)

lemma tool_uses_fold:
  "foldl (a2o_block print) acc (map (\<lambda>(i, name, input). tool_use_block i name input) calls) =
     acc\<lparr>ba_tool_calls := ba_tool_calls acc @ map (\<lambda>(i, name, input). function_call i name (print input)) calls\<rparr>"
  by (induction calls arbitrary: acc)
    (auto simp: a2o_block_def tool_use_block_def message_reads)

lemma tool_calls_back:
  "\<forall>(i, name, input) \<in> set calls. parse (print input) = Some input \<Longrightarrow>
     map (o2a_tool_call parse) (map (\<lambda>(i, name, input). function_call i name (print input)) calls) =
     map (\<lambda>(i, name, input). tool_use_block i name input) calls"
  by (induction calls) (auto simp: tool_call_back)

lemma o2a_content_calls:
  "calls \<noteq> [] \<Longrightarrow>
     o2a_content ((if s = [] then [] else [text_block s]) @ map (\<lambda>(i, name, input). tool_use_block i name input) calls) =
     JArr ((if s = [] then [] else [text_block s]) @ map (\<lambda>(i, name, input). tool_use_block i name input) calls)"
  by (cases calls) (auto simp: o2a_content_def tool_use_block_def json_as_str_def text_block_def split: list.splits)

text \<open>One turn: an instruction leaves the messages, everything else comes back as it was.\<close>

lemma turn_back:
  assumes "turn_ok parse print t"
  shows "(case o2a_message parse (openai_turn print t) of None \<Rightarrow> [] | Some m \<Rightarrow> a2o_message print m) =
    (if is_instruction t then [] else [openai_turn print t])"
proof (cases t)
  case (Instruction s)
  then show ?thesis by (simp add: o2a_message_def message_reads is_instruction_def)
next
  case (Said role s)
  with assms show ?thesis
    by (cases "s = []")
      (auto simp: o2a_message_def message_reads is_instruction_def json_get_array_def o2a_content_def text_block_def
        a2o_message_def)
next
  case (Result i s)
  then show ?thesis
    by (simp add: o2a_message_def message_reads is_instruction_def a2o_message_def a2o_block_def a2o_main_message_def)
next
  case (Calls s calls)
  let ?us = "map (\<lambda>(i, name, input). tool_use_block i name input) calls"
  let ?bs = "(if s = [] then [] else [text_block s]) @ ?us"
  have calls: "calls \<noteq> []" "\<forall>(i, name, input) \<in> set calls. parse (print input) = Some input"
    using assms Calls by simp_all
  have "o2a_message parse (openai_turn print t) = Some (JObj [(''role'', JStr ''assistant''), (''content'', JArr ?bs)])"
    using o2a_content_calls[OF calls(1), of s] Calls
    by (cases "s = []")
      (simp_all add: o2a_message_def message_reads json_get_array_def json_as_array_def
        tool_calls_back[OF calls(2)] del: map_map)
  moreover have "a2o_message print (JObj [(''role'', JStr ''assistant''), (''content'', JArr ?bs)]) = [openai_turn print t]"
    using calls(1) Calls tool_uses_fold
    by (simp add: a2o_message_def message_reads a2o_main_message_def a2o_block_def text_block_def Let_def)
  ultimately show ?thesis using Calls by (simp add: is_instruction_def)
qed

lemma turns_back:
  "list_all (turn_ok parse print) ts \<Longrightarrow>
     concat (map (a2o_message print) (List.map_filter (o2a_message parse) (map (openai_turn print) ts))) =
     map (openai_turn print) (filter (\<lambda>t. \<not> is_instruction t) ts)"
proof (induction ts)
  case (Cons t ts)
  then show ?case
    using turn_back[of parse print t]
    by (cases "o2a_message parse (openai_turn print t)") (auto simp: map_filter_simps split: if_splits)
qed (simp add: map_filter_simps)

text \<open>C13: a conversation sent by an OpenAI client to an Anthropic channel and translated back is the same
  conversation with its instructions gathered in front: every text, every tool call with its arguments and
  every tool result keeps its place and its content, and the sampling parameters and stop sequences are the
  client's. Hypothesis: the arguments of the tool calls are JSON the parser reads back.\<close>

theorem conversation_round_trip:
  assumes "json_get body ''messages'' = Some (JArr (map (openai_turn print) ts))"
    and "list_all (turn_ok parse print) ts"
  shows "let back = anthropic_to_openai_request print (openai_to_anthropic_request parse body);
             system = join_lines [] (instruction_text ts)
         in json_get back ''messages'' = Some (JArr ((if system = [] then [] else [text_message ''system'' system])
              @ map (openai_turn print) (filter (\<lambda>t. \<not> is_instruction t) ts)))
          \<and> (\<forall>k \<in> set (''stop'' # scalar_fields). json_get back k = json_get body k)"
proof -
  have ms: "json_get_array body ''messages'' = map (openai_turn print) ts"
    using assms(1) by (simp add: json_get_array_def json_as_array_def)
  have fields: "''system'' \<notin> set scalar_fields" "''messages'' \<notin> set scalar_fields" "''stop'' \<notin> set scalar_fields"
    "''stop_sequences'' \<notin> set scalar_fields"
    by (simp_all add: scalar_fields_def)
  let ?a = "openai_to_anthropic_request parse body"
  have sys: "(case json_get ?a ''system'' of Some s \<Rightarrow> system_text s | None \<Rightarrow> []) = join_lines [] (instruction_text ts)"
    using fields by (simp add: openai_to_anthropic_fields ms add_system_turns[OF assms(2)] system_text_def Let_def)
  have msgs: "json_get_array ?a ''messages'' = List.map_filter (o2a_message parse) (map (openai_turn print) ts)"
    unfolding json_get_array_def[of ?a] using fields by (simp add: json_as_array_def openai_to_anthropic_fields ms)
  have "json_get (anthropic_to_openai_request print ?a) ''messages'' =
     Some (JArr ((if join_lines [] (instruction_text ts) = [] then [] else [text_message ''system'' (join_lines [] (instruction_text ts))])
              @ map (openai_turn print) (filter (\<lambda>t. \<not> is_instruction t) ts)))"
    unfolding anthropic_to_openai_fields sys msgs turns_back[OF assms(2)] using fields by (simp add: Let_def)
  moreover have "\<forall>k \<in> set (''stop'' # scalar_fields). json_get (anthropic_to_openai_request print ?a) k = json_get body k"
    using fields by (auto simp: anthropic_to_openai_fields openai_to_anthropic_fields)
  ultimately show ?thesis by (simp add: Let_def)
qed

lemma conversation_round_trip_witness:
  "let print = (\<lambda>_. ''{}''); parse = (\<lambda>_. Some (JObj []));
       ts = [Said ''user'' ''hi'', Instruction ''be brief'', Calls [] [(''c1'', ''now'', JObj [])], Result ''c1'' ''noon''];
       body = JObj [(''model'', JStr ''m''), (''stop'', JStr ''x''), (''messages'', JArr (map (openai_turn print) ts))];
       back = anthropic_to_openai_request print (openai_to_anthropic_request parse body)
   in json_get back ''messages'' = Some (JArr (map (openai_turn print)
        [Instruction ''be brief'', Said ''user'' ''hi'', Calls [] [(''c1'', ''now'', JObj [])], Result ''c1'' ''noon'']))
      \<and> json_get back ''stop'' = Some (JStr ''x'')"
proof -
  let ?print = "\<lambda>_ :: json. ''{}''" and ?parse = "\<lambda>_ :: string. Some (JObj [])"
  let ?ts = "[Said ''user'' ''hi'', Instruction ''be brief'', Calls [] [(''c1'', ''now'', JObj [])], Result ''c1'' ''noon'']"
  let ?b = "JObj [(''model'', JStr ''m''), (''stop'', JStr ''x''), (''messages'', JArr (map (openai_turn ?print) ?ts))]"
  have "join_lines [] (instruction_text ?ts) = ''be brief''"
    by (simp add: instruction_text_def map_filter_simps)
  with conversation_round_trip[of ?b ?print ?ts ?parse] show ?thesis
    by (simp add: Let_def is_instruction_def)
qed

text \<open>The fields a thinking budget can be read from.\<close>

lemma no_thinking_fields:
  assumes "json_get v ''thinking'' = None" "json_get v ''reasoning_effort'' = None" "json_get v ''reasoning'' = None"
    and "Option.bind (json_get v ''generationConfig'') (\<lambda>gc. json_get gc ''thinkingConfig'') = None"
  shows "extract_thinking_budget v = None"
  unfolding extract_thinking_budget_def assms by simp

text \<open>Translating an OpenAI request for Anthropic or Gemini drops the client's thinking parameters,
  whichever way they were written: afterwards no budget can be read. The attempt translates before it
  normalises the thinking parameters for the provider, so on translated channels thinking is off whatever
  the client asked for.\<close>

theorem thinking_lost_in_translation:
  "extract_thinking_budget (openai_to_anthropic_request parse body) = None
   \<and> extract_thinking_budget (openai_to_gemini body) = None"
proof
  show "extract_thinking_budget (openai_to_anthropic_request parse body) = None"
    by (rule no_thinking_fields) (simp_all add: openai_to_anthropic_fields scalar_fields_def)
  show "extract_thinking_budget (openai_to_gemini body) = None"
    by (rule no_thinking_fields)
      (simp_all add: openai_to_gemini_def Let_def field_simps_json del: map_of_append split: option.splits)
qed

section \<open>Responses\<close>

lemma u64_or_0_json [simp]: "u64_or_0 (JObj ((k, json_u64 n) # m)) k = n"
  by (simp add: u64_or_0_def json_u64_def)

lemma u64_or_0_skip: "k' \<noteq> k \<Longrightarrow> u64_or_0 (JObj ((k', v) # m)) k = u64_or_0 (JObj m) k"
  by (simp add: u64_or_0_def)

lemma finish_reason_back: "finish_reason_of (stop_reason_of f) = (if f \<in> {''length'', ''tool_calls''} then f else ''stop'')"
  by (simp add: finish_reason_of_def stop_reason_of_def)

definition openai_answer :: "(json \<Rightarrow> string) \<Rightarrow> string \<Rightarrow> (string \<times> string \<times> json) list \<Rightarrow> json" where
  "openai_answer print s calls =
     JObj ((''role'', JStr ''assistant'')
       # (if calls = [] then [(''content'', JStr s)]
          else [(''content'', if s = [] then JNull else JStr s),
                (''tool_calls'', JArr (map (\<lambda>(i, name, input). function_call i name (print input)) calls))]))"

lemma answer_reads:
  assumes "\<forall>(i, name, input) \<in> set calls. parse (print input) = Some input"
  shows "opt_text (json_get_str (openai_answer print s calls) ''content'') = s"
    and "map (o2a_tool_call parse) (json_get_array (openai_answer print s calls) ''tool_calls'') =
      map (\<lambda>(i, name, input). tool_use_block i name input) calls"
  using tool_calls_back[OF assms]
  by (auto simp: openai_answer_def opt_text_def json_as_str_def json_get_array_def json_as_array_def
      simp del: map_map)

lemma uses_text: "response_texts (map (\<lambda>(i, name, input). tool_use_block i name input) calls) = []"
  by (auto simp: response_texts_def tool_use_block_def str_or_def json_as_str_def)

lemma uses_calls:
  "response_tool_calls print (map (\<lambda>(i, name, input). tool_use_block i name input) calls) =
     map (\<lambda>(i, name, input). function_call i name (print input)) calls"
  by (induction calls)
    (auto simp: response_tool_calls_def tool_use_block_def str_or_def json_as_str_def get_or_def)

lemma answer_blocks:
  "response_texts ((if s \<noteq> [] then [text_block s] else []) @ bs) = s @ response_texts bs"
  "response_tool_calls print ((if s \<noteq> [] then [text_block s] else []) @ bs) = response_tool_calls print bs"
  by (simp_all add: response_texts_def response_tool_calls_def text_block_def str_or_def json_as_str_def opt_text_def)

text \<open>C14: what a completion keeps when it is translated to Anthropic's format and back: its text and tool calls,
  the finish reasons \<open>length\<close>, \<open>tool_calls\<close> and \<open>stop\<close>, and its two token counts. Every other finish reason, also
  \<open>content_filter\<close>, becomes \<open>stop\<close>; the total is recomputed as the sum of the counts modulo \<open>2\<^sup>6\<^sup>4\<close>; details of the
  usage are dropped. Hypotheses: the completion has a first choice with such a message and a finish reason, and the
  arguments of its tool calls are JSON the parser reads back.\<close>

theorem completion_round_trip:
  assumes "first_choice body = Some choice"
    and "json_get choice ''message'' = Some (openai_answer print s calls)"
    and "\<forall>(i, name, input) \<in> set calls. parse (print input) = Some input"
    and "json_get_str choice ''finish_reason'' = Some finish"
  shows "let usage = get_or body ''usage'' (JObj []);
             p = u64_or_0 usage ''prompt_tokens''; c = u64_or_0 usage ''completion_tokens'';
             back = anthropic_to_openai_response print created (openai_to_anthropic_response parse fresh body) model
         in json_get back ''choices'' = Some (JArr [JObj [(''index'', JInt 0), (''message'', openai_answer print s calls),
               (''finish_reason'', JStr (if finish \<in> {''length'', ''tool_calls''} then finish else ''stop''))]])
          \<and> json_get back ''usage'' = Some (JObj [(''prompt_tokens'', json_u64 p), (''completion_tokens'', json_u64 c),
               (''total_tokens'', json_u64 (p + c))])"
proof -
  let ?us = "map (\<lambda>(i, name, input). tool_use_block i name input) calls"
  define content where "content = (if s \<noteq> [] then [text_block s] else []) @ ?us"
  have blocks: "response_texts content = s"
    "response_tool_calls print content = map (\<lambda>(i, name, input). function_call i name (print input)) calls"
    unfolding content_def answer_blocks uses_text uses_calls by simp_all
  let ?a = "openai_to_anthropic_response parse fresh body" and ?u = "get_or body ''usage'' (JObj [])"
  have content: "json_get_array ?a ''content'' = content"
    and stop: "str_or ?a ''stop_reason'' ''end_turn'' = stop_reason_of finish"
    and usage: "get_or ?a ''usage'' (JObj []) = JObj [(''input_tokens'', json_u64 (u64_or_0 ?u ''prompt_tokens'')),
                               (''output_tokens'', json_u64 (u64_or_0 ?u ''completion_tokens''))]"
    using answer_reads[OF assms(3)]
    by (simp_all add: openai_to_anthropic_response_def Let_def assms json_get_array_def[of "JObj _"] json_as_array_def
        str_or_def json_as_str_def get_or_def[of "JObj _"] content_def)
  show ?thesis
    by (simp add: anthropic_to_openai_response_def Let_def content stop usage blocks
        finish_reason_back u64_or_0_skip openai_answer_def)
qed

lemma completion_round_trip_witness:
  "let body = JObj [(''choices'', JArr [JObj [(''message'', openai_answer (\<lambda>_. []) ''hi'' []), (''finish_reason'', JStr ''length'')]]),
                    (''usage'', JObj [(''prompt_tokens'', JInt 3), (''completion_tokens'', JInt 4)])];
       back = anthropic_to_openai_response (\<lambda>_. []) 0 (openai_to_anthropic_response (\<lambda>_. None) ''1'' body) ''m''
   in json_get back ''usage'' = Some (JObj [(''prompt_tokens'', json_u64 3), (''completion_tokens'', json_u64 4),
        (''total_tokens'', json_u64 7)])
      \<and> json_get back ''choices'' = Some (JArr [JObj [(''index'', JInt 0), (''message'', openai_answer (\<lambda>_. []) ''hi'' []),
            (''finish_reason'', JStr ''length'')]])"
proof -
  let ?c = "JObj [(''message'', openai_answer (\<lambda>_. []) ''hi'' []), (''finish_reason'', JStr ''length'')]"
  let ?b = "JObj [(''choices'', JArr [?c]), (''usage'', JObj [(''prompt_tokens'', JInt 3), (''completion_tokens'', JInt 4)])]"
  have "first_choice ?b = Some ?c" by (simp add: first_choice_def json_as_array_def)
  moreover have "u64_or_0 (get_or ?b ''usage'' (JObj [])) ''prompt_tokens'' = 3"
    "u64_or_0 (get_or ?b ''usage'' (JObj [])) ''completion_tokens'' = 4"
    by (simp_all add: u64_or_0_def get_or_def json_as_u64_def)
  ultimately show ?thesis
    using completion_round_trip[of ?b ?c "\<lambda>_. []" "''hi''" "[]" "\<lambda>_. None" "''length''" 0 "''1''" "''m''"]
    by (simp add: Let_def json_as_str_def)
qed

end
