(* ===== verification/Utf8.thy ===== *)
theory Utf8
  imports Prelude
begin

text \<open>
  UTF-8 as the standard library reads it: \<open>std::str::from_utf8\<close> and \<open>String::from_utf8_lossy\<close>, which
  replaces every maximal ill-formed prefix of a character by U+FFFD. Text is a list of bytes.
\<close>

definition continuation :: "nat \<Rightarrow> bool" where
  "continuation b \<longleftrightarrow> 128 \<le> b \<and> b \<le> 191"

text \<open>Whether the text starts with a character, and the length of that character or of the bytes to
  replace. The second byte is restricted further after some first bytes (no overlong forms, no surrogates,
  nothing above U+10FFFF).\<close>

definition second_ok :: "nat \<Rightarrow> nat \<Rightarrow> bool" where
  "second_ok a b \<longleftrightarrow>
     (if a = 224 then 160 \<le> b \<and> b \<le> 191 else if a = 237 then 128 \<le> b \<and> b \<le> 159
      else if a = 240 then 144 \<le> b \<and> b \<le> 191 else if a = 244 then 128 \<le> b \<and> b \<le> 143 else continuation b)"

definition utf8_head :: "nat list \<Rightarrow> bool \<times> nat" where
  "utf8_head bs =
     (let a = hd bs; ok = (\<lambda>i. i < length bs \<and> (if i = 1 then second_ok a (bs ! i) else continuation (bs ! i)))
      in if a < 128 then (True, 1)
         else if 194 \<le> a \<and> a < 224 then (if ok 1 then (True, 2) else (False, 1))
         else if 224 \<le> a \<and> a < 240 then
           (if ok 1 then if ok 2 then (True, 3) else (False, 2) else (False, 1))
         else if 240 \<le> a \<and> a < 245 then
           (if ok 1 then if ok 2 then if ok 3 then (True, 4) else (False, 3) else (False, 2) else (False, 1))
         else (False, 1))"

lemma utf8_head_pos: "0 < snd (utf8_head bs)"
  by (simp add: utf8_head_def Let_def)

abbreviation bytes_of :: "string \<Rightarrow> nat list" where
  "bytes_of s \<equiv> map of_char s"

function utf8_chunks :: "string \<Rightarrow> (bool \<times> string) list" where
  "utf8_chunks [] = []"
| "utf8_chunks (c # cs) =
     (let (valid, n) = utf8_head (bytes_of (c # cs))
      in (valid, take n (c # cs)) # utf8_chunks (drop n (c # cs)))"
  by pat_completeness auto

termination
proof (relation "measure length")
  fix c cs x valid n
  assume "x = utf8_head (bytes_of (c # cs))" "(valid, n) = x"
  then have "0 < n" using utf8_head_pos[of "bytes_of (c # cs)"] by (metis snd_conv)
  then show "(drop n (c # cs), c # cs) \<in> measure length" by simp
qed simp

definition utf8_valid :: "string \<Rightarrow> bool" where
  "utf8_valid s \<longleftrightarrow> list_all fst (utf8_chunks s)"

definition str_chars :: "string \<Rightarrow> string list" where
  "str_chars s = map snd (utf8_chunks s)"

definition from_utf8 :: "string \<Rightarrow> string option" where
  "from_utf8 s = (if utf8_valid s then Some s else None)"

definition REPLACEMENT :: string where
  "REPLACEMENT = [CHR 0xEF, CHR 0xBF, CHR 0xBD]"

definition from_utf8_lossy :: "string \<Rightarrow> string" where
  "from_utf8_lossy s = concat (map (\<lambda>(valid, c). if valid then c else REPLACEMENT) (utf8_chunks s))"

section \<open>Valid text\<close>

lemma concat_str_chars: "concat (str_chars s) = s"
proof (induction s rule: utf8_chunks.induct)
  case (2 c cs)
  obtain valid n where n: "utf8_head (bytes_of (c # cs)) = (valid, n)" by fastforce
  with 2[OF n[symmetric] refl] have "concat (map snd (utf8_chunks (c # cs))) = take n (c # cs) @ drop n (c # cs)"
    by (simp add: str_chars_def)
  then show ?case unfolding str_chars_def by (simp only: append_take_drop_id)
qed (simp add: str_chars_def)

lemma lossy_valid [simp]: "utf8_valid s \<Longrightarrow> from_utf8_lossy s = s"
proof -
  assume "utf8_valid s"
  then have "map (\<lambda>(valid, c). if valid then c else REPLACEMENT) (utf8_chunks s) = str_chars s"
    unfolding utf8_valid_def str_chars_def list_all_iff by (auto split: prod.splits)
  then show ?thesis by (simp add: from_utf8_lossy_def concat_str_chars)
qed

text \<open>In valid text a character is one ASCII byte or consists of bytes above them.\<close>

lemma continuation_ge: "continuation b \<Longrightarrow> 128 \<le> b"
  by (simp add: continuation_def)

lemma second_ok_ge: "second_ok a b \<Longrightarrow> 128 \<le> b"
  by (auto simp: second_ok_def continuation_def split: if_splits)

lemma utf8_head_bytes:
  assumes "utf8_head bs = (True, n)" "bs \<noteq> []"
  shows "n = 1 \<and> hd bs < 128 \<or> (\<forall>b \<in> set (take n bs). 128 \<le> b)"
proof (cases "hd bs < 128")
  case True
  with assms show ?thesis by (simp add: utf8_head_def)
next
  case False
  have "n = 2 \<and> second_ok (hd bs) (bs ! 1)
      \<or> n = 3 \<and> second_ok (hd bs) (bs ! 1) \<and> continuation (bs ! 2)
      \<or> n = 4 \<and> second_ok (hd bs) (bs ! 1) \<and> continuation (bs ! 2) \<and> continuation (bs ! 3)"
    using assms(1) False unfolding utf8_head_def Let_def by (simp split: if_splits)
  then have high: "n \<le> 4 \<and> 128 \<le> bs ! 1 \<and> (2 < n \<longrightarrow> 128 \<le> bs ! 2) \<and> (3 < n \<longrightarrow> 128 \<le> bs ! 3)"
    using second_ok_ge continuation_ge by auto
  have tail: "128 \<le> bs ! i" if "0 < i" "i < n" for i
  proof -
    have "i = 1 \<or> i = 2 \<or> i = 3" using that high by linarith
    then show ?thesis using that high by auto
  qed
  have "128 \<le> b" if "b \<in> set (take n bs)" for b
  proof -
    from that obtain i where "i < n" "i < length bs" "b = bs ! i" by (auto simp: in_set_conv_nth)
    with tail[of i] False assms(2) show ?thesis by (cases "i = 0") (auto simp: hd_conv_nth)
  qed
  then show ?thesis by blast
qed

lemma str_chars_bytes:
  "utf8_valid s \<Longrightarrow> ch \<in> set (str_chars s) \<Longrightarrow>
     (\<exists>c. ch = [c] \<and> of_char c < (128 :: nat)) \<or> (\<forall>c \<in> set ch. 128 \<le> (of_char c :: nat))"
proof (induction s rule: utf8_chunks.induct)
  case (2 c cs)
  obtain valid n where n: "utf8_head (bytes_of (c # cs)) = (valid, n)" by fastforce
  have valid: "valid" "utf8_valid (drop n (c # cs))" using 2(2) n by (simp_all add: utf8_valid_def)
  have "ch = take n (c # cs) \<or> ch \<in> set (str_chars (drop n (c # cs)))" using 2(3) n by (auto simp: str_chars_def)
  then show ?case
  proof
    assume "ch = take n (c # cs)"
    moreover have "take n (bytes_of (c # cs)) = bytes_of (take n (c # cs))" by (rule take_map)
    ultimately show ?thesis
      using utf8_head_bytes[of "bytes_of (c # cs)" n] n valid(1) by auto
  next
    assume "ch \<in> set (str_chars (drop n (c # cs)))"
    then show ?thesis using 2(1)[OF n[symmetric] refl] valid(2) by blast
  qed
qed (simp add: str_chars_def)

end
