(* ===== verification/Adaptor.thy ===== *)
theory Adaptor
  imports Translate Utf8
begin

text \<open>
  \<open>proxy/provider.rs\<close>: the three implementations of \<open>ProviderAdaptor\<close>, and the headers of an upstream
  request as \<open>build_upstream_request\<close> of \<open>proxy/attempt.rs\<close> puts them together. The Unicode table behind
  \<open>char::is_alphanumeric\<close> is the argument \<open>alnum\<close>, asked for characters outside ASCII only; the checks of
  the http crate on names and values of headers are the argument \<open>header_ok\<close>.
\<close>

datatype adaptor = OpenAIAdaptor | AnthropicAdaptor | GeminiAdaptor

fun default_model :: "adaptor \<Rightarrow> string" where
  "default_model OpenAIAdaptor = ''gpt-3.5-turbo''"
| "default_model AnthropicAdaptor = ''claude-3-5-sonnet-20241022''"
| "default_model GeminiAdaptor = ''gemini-pro''"

fun provider_request_format :: "adaptor \<Rightarrow> request_format" where
  "provider_request_format OpenAIAdaptor = OpenAIChat"
| "provider_request_format AnthropicAdaptor = AnthropicMessages"
| "provider_request_format GeminiAdaptor = GeminiFormat"

definition inject_stream_usage :: "adaptor \<Rightarrow> bool" where
  "inject_stream_usage a \<longleftrightarrow> a = OpenAIAdaptor"

definition is_gemini_stream :: "adaptor \<Rightarrow> bool" where
  "is_gemini_stream a \<longleftrightarrow> a = GeminiAdaptor"

definition needs_response_transform :: "adaptor \<Rightarrow> bool" where
  "needs_response_transform a \<longleftrightarrow> a = GeminiAdaptor"

fun transform_request :: "adaptor \<Rightarrow> json \<Rightarrow> json" where
  "transform_request GeminiAdaptor body = openai_to_gemini body"
| "transform_request _ body = body"

fun transform_response :: "adaptor \<Rightarrow> int \<Rightarrow> json \<Rightarrow> string \<Rightarrow> json" where
  "transform_response GeminiAdaptor created body model = gemini_to_openai created body model"
| "transform_response _ created body model = body"

section \<open>Model names in URLs\<close>

definition ascii_alnum :: "nat \<Rightarrow> bool" where
  "ascii_alnum b \<longleftrightarrow> 48 \<le> b \<and> b \<le> 57 \<or> 65 \<le> b \<and> b \<le> 90 \<or> 97 \<le> b \<and> b \<le> 122"

definition keep_char :: "(string \<Rightarrow> bool) \<Rightarrow> string \<Rightarrow> bool" where
  "keep_char alnum ch =
     (case ch of
        [c] \<Rightarrow> ascii_alnum (of_char c) \<or> c \<in> {CHR ''-'', CHR ''.'', CHR ''_'', CHR '':''}
      | _ \<Rightarrow> alnum ch)"

text \<open>One \<open>replace("..", ".")\<close>, and the loop that repeats it while there is something to replace.\<close>

fun replace_dots :: "string \<Rightarrow> string" where
  "replace_dots (a # b # s) =
     (if a = CHR ''.'' \<and> b = CHR ''.'' then CHR ''.'' # replace_dots s else a # replace_dots (b # s))"
| "replace_dots s = s"

lemma replace_dots_length_le: "length (replace_dots s) \<le> length s"
  by (induction s rule: replace_dots.induct) auto

lemma replace_dots_length: "str_contains s ''..'' \<Longrightarrow> length (replace_dots s) < length s"
proof (induction s rule: replace_dots.induct)
  case (1 a b s)
  show ?case
  proof (cases "a = CHR ''.'' \<and> b = CHR ''.''")
    case True
    then show ?thesis using replace_dots_length_le[of s] by (simp add: less_Suc_eq_le)
  next
    case False
    with 1(3) have "str_contains (b # s) ''..''" by (auto simp: starts_with_def)
    with 1(2) False show ?thesis by auto
  qed
qed (auto simp: starts_with_def)

function collapse_dots :: "string \<Rightarrow> string" where
  "collapse_dots s = (if str_contains s ''..'' then collapse_dots (replace_dots s) else s)"
  by auto

termination
  by (relation "measure length") (simp_all add: replace_dots_length)

declare collapse_dots.simps [simp del]

definition trim_dots :: "string \<Rightarrow> string" where
  "trim_dots s = rev (dropWhile (\<lambda>c. c = CHR ''.'') (rev (dropWhile (\<lambda>c. c = CHR ''.'') s)))"

definition sanitize_model_for_url :: "(string \<Rightarrow> bool) \<Rightarrow> string \<Rightarrow> string" where
  "sanitize_model_for_url alnum model =
     (let sanitized = trim_dots (collapse_dots (concat (filter (keep_char alnum) (str_chars model))))
      in if sanitized = [] then ''unknown'' else sanitized)"

definition trim_slashes :: "string \<Rightarrow> string" where
  "trim_slashes s = rev (dropWhile (\<lambda>c. c = CHR ''/'') (rev s))"

fun build_url :: "(string \<Rightarrow> bool) \<Rightarrow> adaptor \<Rightarrow> string \<Rightarrow> string \<Rightarrow> bool \<Rightarrow> string" where
  "build_url alnum OpenAIAdaptor base_url model is_stream = trim_slashes base_url @ ''/v1/chat/completions''"
| "build_url alnum AnthropicAdaptor base_url model is_stream = trim_slashes base_url @ ''/v1/messages''"
| "build_url alnum GeminiAdaptor base_url model is_stream =
     trim_slashes base_url @ ''/v1beta/models/'' @ sanitize_model_for_url alnum model
     @ (if is_stream then '':streamGenerateContent?alt=sse'' else '':generateContent'')"

section \<open>Headers of the upstream request\<close>

type_synonym headers = "(string \<times> string) list"

text \<open>The headers \<open>apply_auth\<close> adds, with names in lower case.\<close>

fun apply_auth :: "adaptor \<Rightarrow> string \<Rightarrow> bool \<Rightarrow> headers" where
  "apply_auth a api_key True = [(''cookie'', api_key), (''content-type'', ''application/json'')]"
| "apply_auth OpenAIAdaptor api_key False =
     [(''authorization'', ''Bearer '' @ api_key), (''content-type'', ''application/json'')]"
| "apply_auth AnthropicAdaptor api_key False =
     [(''x-api-key'', api_key), (''anthropic-version'', ''2023-06-01''), (''content-type'', ''application/json'')]"
| "apply_auth GeminiAdaptor api_key False =
     [(''x-goog-api-key'', api_key), (''content-type'', ''application/json'')]"

definition SKIP_HEADERS :: "string list" where
  "SKIP_HEADERS = [''host'', ''connection'', ''keep-alive'', ''proxy-authenticate'', ''proxy-authorization'', ''te'',
     ''trailers'', ''transfer-encoding'', ''upgrade'', ''content-length'', ''authorization'', ''x-api-key'',
     ''anthropic-version'', ''content-type'']"

definition CUSTOM_HEADER_DENYLIST :: "string list" where
  "CUSTOM_HEADER_DENYLIST = [''host'', ''transfer-encoding'', ''content-length'', ''connection'', ''x-forwarded-for'',
     ''x-forwarded-host'', ''x-forwarded-proto'', ''authorization'', ''x-api-key'', ''cookie'', ''forwarded'']"

definition custom_headers :: "(string \<Rightarrow> string \<Rightarrow> bool) \<Rightarrow> (string, string) hashmap \<Rightarrow> headers" where
  "custom_headers header_ok hs =
     map (\<lambda>(name, value). (to_lowercase name, value))
       (filter (\<lambda>(name, value). to_lowercase name \<notin> set CUSTOM_HEADER_DENYLIST \<and> header_ok name value) hs)"

text \<open>Every call of \<open>header\<close> on the builder appends; \<open>json_headers\<close> are those the HTTP client sets itself for
  \<open>post(url).json(body)\<close>: the content type, and a basic \<open>Authorization\<close> when the URL carries user info.\<close>

definition upstream_headers ::
  "(string \<Rightarrow> string \<Rightarrow> bool) \<Rightarrow> headers \<Rightarrow> adaptor \<Rightarrow> channel \<Rightarrow> headers \<Rightarrow> string \<Rightarrow> bool \<Rightarrow> headers" where
  "upstream_headers header_ok json_headers a ch original_headers api_key is_stream =
     json_headers
     @ filter (\<lambda>(name, _). name \<notin> set SKIP_HEADERS) original_headers
     @ apply_auth a api_key (cred_type (ch_credential ch) = WebSession)
     @ custom_headers header_ok (ch_headers ch)
     @ (if is_stream then [(''accept'', ''text/event-stream'')] else [])"

section \<open>Dots\<close>

lemma set_replace_dots: "set (replace_dots s) \<subseteq> set s"
  by (induction s rule: replace_dots.induct) auto

lemma set_collapse_dots: "set (collapse_dots s) \<subseteq> set s"
proof (induction s rule: collapse_dots.induct)
  case (1 s)
  show ?case
  proof (cases "str_contains s ''..''")
    case True
    then have "collapse_dots s = collapse_dots (replace_dots s)" by (subst collapse_dots.simps) simp
    with 1[OF True] set_replace_dots[of s] show ?thesis by auto
  next
    case False
    then show ?thesis by (subst collapse_dots.simps) simp
  qed
qed

lemma collapse_dots_done: "\<not> str_contains (collapse_dots s) ''..''"
proof (induction s rule: collapse_dots.induct)
  case (1 s)
  then show ?case by (subst collapse_dots.simps) simp
qed

lemma trim_dots_sublist: "\<exists>a b. s = a @ trim_dots s @ b"
proof -
  let ?p = "\<lambda>c. c = CHR ''.''"
  let ?t = "dropWhile ?p s"
  have "s = takeWhile ?p s @ ?t" by simp
  moreover have "rev ?t = takeWhile ?p (rev ?t) @ dropWhile ?p (rev ?t)" by simp
  then have "?t = rev (dropWhile ?p (rev ?t)) @ rev (takeWhile ?p (rev ?t))"
    by (metis rev_append rev_rev_ident)
  ultimately show ?thesis unfolding trim_dots_def by (metis append.assoc)
qed

lemma contains_trans: "str_contains s t \<Longrightarrow> str_contains t p \<Longrightarrow> str_contains s p"
  unfolding str_contains_iff by (metis append.assoc)

lemma sanitized_cases:
  obtains "sanitize_model_for_url alnum model = ''unknown''"
  | t where "sanitize_model_for_url alnum model = t" "t \<noteq> []"
    "str_contains (collapse_dots (concat (filter (keep_char alnum) (str_chars model)))) t"
proof -
  let ?s = "collapse_dots (concat (filter (keep_char alnum) (str_chars model)))"
  have "str_contains ?s (trim_dots ?s)" using trim_dots_sublist[of ?s] by (simp add: str_contains_iff)
  with that show ?thesis
    by (cases "trim_dots ?s = []") (simp_all add: sanitize_model_for_url_def)
qed

section \<open>Properties\<close>

text \<open>The model name a client sends becomes exactly one path segment of the Gemini URL: it is not empty,
  has no slash, question mark, hash or percent sign, and no two dots in a row, so that a client cannot leave
  the models collection or change the query, whatever characters count as alphanumeric.\<close>

theorem sanitized_model_is_one_segment:
  assumes "utf8_valid model"
  shows "let s = sanitize_model_for_url alnum model
         in s \<noteq> [] \<and> \<not> str_contains s ''..'' \<and> set s \<inter> set ''/?#% '' = {}"
proof -
  let ?kept = "concat (filter (keep_char alnum) (str_chars model))"
  have kept: "c \<notin> set ''/?#% ''" if "c \<in> set ?kept" for c
  proof -
    from that obtain ch where ch: "ch \<in> set (str_chars model)" "keep_char alnum ch" "c \<in> set ch" by auto
    from str_chars_bytes[OF assms ch(1)] show ?thesis
    proof
      assume "\<exists>d. ch = [d] \<and> of_char d < (128 :: nat)"
      with ch(2,3) show ?thesis by (auto simp: keep_char_def ascii_alnum_def)
    next
      assume "\<forall>c \<in> set ch. 128 \<le> (of_char c :: nat)"
      with ch(3) have "128 \<le> (of_char c :: nat)" by blast
      then show ?thesis by auto
    qed
  qed
  show ?thesis
  proof (cases rule: sanitized_cases[of alnum model])
    case 1
    then show ?thesis by (simp add: Let_def starts_with_def)
  next
    case (2 t)
    have "set t \<subseteq> set ?kept"
      using 2(3) set_collapse_dots[of ?kept] by (auto simp: str_contains_iff)
    with kept have "set t \<inter> set ''/?#% '' = {}" by blast
    moreover have "\<not> str_contains t ''..''" using 2(3) collapse_dots_done contains_trans by blast
    ultimately show ?thesis using 2(1,2) by (simp add: Let_def)
  qed
qed

lemma sanitized_model_is_one_segment_witness:
  "utf8_valid ''../x'' \<and> \<not> str_contains (sanitize_model_for_url (\<lambda>_. True) ''../x'') ''..''"
proof -
  have "utf8_valid ''../x''" by (simp add: utf8_valid_def utf8_head_def)
  with sanitized_model_is_one_segment[of "''../x''" "\<lambda>_. True"] show ?thesis by (simp add: Let_def)
qed

text \<open>C30: whatever headers a client sends and a channel configures, the headers \<open>Authorization\<close> and
  \<open>x-api-key\<close> of the upstream request are the ones the HTTP client sets itself for the URL and the body, followed by
  the ones the adaptor sets from the channel's credential. The HTTP client sets one exactly when the base URL of
  the channel carries user info; otherwise the adaptor's are the only ones. No header of the client and no configured
  header is among them.\<close>

theorem upstream_credentials_exact:
  "filter (\<lambda>(n, _). n \<in> {''authorization'', ''x-api-key''})
      (upstream_headers header_ok json_headers a ch original_headers api_key is_stream) =
    filter (\<lambda>(n, _). n \<in> {''authorization'', ''x-api-key''}) json_headers
    @ filter (\<lambda>(n, _). n \<in> {''authorization'', ''x-api-key''})
        (apply_auth a api_key (cred_type (ch_credential ch) = WebSession))"
proof -
  let ?P = "\<lambda>(n, _ :: string). n \<in> {''authorization'', ''x-api-key''}"
  have "filter ?P (filter (\<lambda>(name, _). name \<notin> set SKIP_HEADERS) original_headers) = []"
    by (auto simp: filter_empty_conv SKIP_HEADERS_def)
  moreover have "filter ?P (custom_headers header_ok (ch_headers ch)) = []"
    by (auto simp: filter_empty_conv custom_headers_def CUSTOM_HEADER_DENYLIST_def)
  ultimately show ?thesis by (simp add: upstream_headers_def)
qed

text \<open>A base URL with a password: the request carries two \<open>Authorization\<close> headers, the basic one of the URL first.\<close>

theorem url_password_sent_too:
  assumes "json_headers = [(''authorization'', basic), (''content-type'', ''application/json'')]"
    "cred_type (ch_credential ch) = ApiKey"
  shows "filter (\<lambda>(n, _). n = ''authorization'')
      (upstream_headers header_ok json_headers OpenAIAdaptor ch original_headers api_key False) =
    [(''authorization'', basic), (''authorization'', ''Bearer '' @ api_key)]"
proof -
  have "filter (\<lambda>(n, _). n = ''authorization'') (filter (\<lambda>(name, _). name \<notin> set SKIP_HEADERS) original_headers) = []"
    by (auto simp: filter_empty_conv SKIP_HEADERS_def)
  moreover have "filter (\<lambda>(n, _). n = ''authorization'') (custom_headers header_ok (ch_headers ch)) = []"
    by (auto simp: filter_empty_conv custom_headers_def CUSTOM_HEADER_DENYLIST_def)
  ultimately show ?thesis using assms by (simp add: upstream_headers_def)
qed

lemma url_password_sent_too_witness:
  "(''authorization'', ''Basic dTpw'') \<in> set (upstream_headers (\<lambda>_ _. True)
      [(''authorization'', ''Basic dTpw''), (''content-type'', ''application/json'')] OpenAIAdaptor (example_channel 1) [] ''k'' False)"
proof -
  have "cred_type (ch_credential (example_channel 1)) = ApiKey" by (simp add: example_channel_def example_credential_def)
  from url_password_sent_too[OF HOL.refl this, of "\<lambda>_ _. True" "''Basic dTpw''" "[]" "''k''"]
  have "(''authorization'', ''Basic dTpw'') \<in> set (filter (\<lambda>(n, _). n = ''authorization'')
      (upstream_headers (\<lambda>_ _. True) [(''authorization'', ''Basic dTpw''), (''content-type'', ''application/json'')]
         OpenAIAdaptor (example_channel 1) [] ''k'' False))" by (simp only: list.set insert_iff HOL.simp_thms)
  then show ?thesis unfolding set_filter by blast
qed

text \<open>The key header of Gemini is not among the headers the gateway manages: a client that sends
  \<open>x-goog-api-key\<close> has it forwarded, in front of the channel's own key, and a cookie of the client is
  forwarded to every provider.\<close>

theorem client_google_key_forwarded:
  assumes "json_headers = [(''content-type'', ''application/json'')]" "cred_type (ch_credential ch) = ApiKey"
    "ch_headers ch = []"
  shows "upstream_headers header_ok json_headers GeminiAdaptor ch [(''x-goog-api-key'', k), (''cookie'', c)] api_key False =
    [(''content-type'', ''application/json''), (''x-goog-api-key'', k), (''cookie'', c), (''x-goog-api-key'', api_key),
     (''content-type'', ''application/json'')]"
  using assms by (simp add: upstream_headers_def SKIP_HEADERS_def custom_headers_def)

lemma client_google_key_forwarded_witness:
  "(''x-goog-api-key'', ''mine'') \<in> set (upstream_headers (\<lambda>_ _. True) [(''content-type'', ''application/json'')]
      GeminiAdaptor ((example_channel 1)\<lparr>ch_headers := []\<rparr>) [(''x-goog-api-key'', ''mine''), (''cookie'', [])] ''k'' False)"
  using client_google_key_forwarded[of "[(''content-type'', ''application/json'')]" "(example_channel 1)\<lparr>ch_headers := []\<rparr>"
      "\<lambda>_ _. True" "''mine''" "[]" "''k''"]
  by (simp add: example_channel_def example_credential_def)

end
