(* ===== verification/Sse_Stream.thy ===== *)
theory Sse_Stream
  imports Translate Utf8
begin

text \<open>
  \<open>proxy/stream.rs\<close>: the responses of the gateway and the task that forwards an upstream event stream. The
  task reads the upstream until its end, an error or a stall, rewrites every network chunk, sends it to the
  client and keeps a copy in a bounded buffer; when the client has gone it drains the upstream into the
  buffer only. The upstream is a list of events whose end is the end of the stream; a timeout (first byte or
  read) is the event \<open>Stall\<close>. When the client goes is given by the number of sends that still succeed.
\<close>

section \<open>Responses\<close>

datatype stream_item = Data string | Broken

datatype response_body = Full string | Streamed "stream_item list"

record http_response =
  rs_status :: nat
  rs_headers :: "(string \<times> string) list"
  rs_body :: response_body

definition json_response :: "nat \<Rightarrow> string \<Rightarrow> http_response" where
  "json_response status body =
     \<lparr>rs_status = status, rs_headers = [(''content-type'', ''application/json'')], rs_body = Full body\<rparr>"

definition sse_headers :: "(string \<times> string) list" where
  "sse_headers = [(''content-type'', ''text/event-stream''), (''cache-control'', ''no-cache''),
     (''connection'', ''keep-alive''), (''x-accel-buffering'', ''no'')]"

definition sse_single_chunk_response :: "nat \<Rightarrow> string \<Rightarrow> http_response" where
  "sse_single_chunk_response status body_json =
     \<lparr>rs_status = status, rs_headers = take 3 sse_headers,
      rs_body = Full (''data: '' @ body_json @ newline @ newline @ done_line)\<rparr>"

definition sse_stream_response_with_cached :: "string \<Rightarrow> http_response" where
  "sse_stream_response_with_cached cached_body =
     \<lparr>rs_status = 200, rs_headers = sse_headers, rs_body = Full cached_body\<rparr>"

definition error_response :: "(json \<Rightarrow> string) \<Rightarrow> nat \<Rightarrow> string \<Rightarrow> string \<Rightarrow> string \<Rightarrow> http_response" where
  "error_response print status message error_type code =
     json_response status (print (JObj [(''error'',
       JObj [(''message'', JStr message), (''type'', JStr error_type), (''code'', JStr code)])]))"

definition all_channels_exhausted_response :: "(json \<Rightarrow> string) \<Rightarrow> http_response" where
  "all_channels_exhausted_response print =
     error_response print 429 ''All channels are rate-limited or unavailable. Please retry after a brief wait.''
       ''rate_limit_exhausted'' ''all_channels_rate_limited''"

section \<open>Forwarding\<close>

datatype upstream_event = Chunk string | ChunkError | Stall

definition MAX_OUTPUT_BUFFER_BYTES :: nat where "MAX_OUTPUT_BUFFER_BYTES = 512 * 1024"

definition push_output :: "string \<Rightarrow> string \<Rightarrow> string" where
  "push_output buf bytes =
     (let buf = buf @ bytes
      in if MAX_OUTPUT_BUFFER_BYTES < length buf then drop (length buf div 2) buf else buf)"

text \<open>The drain after the client has gone: an error is skipped and the loop goes on.\<close>

fun drain :: "(string \<Rightarrow> string) \<Rightarrow> string \<Rightarrow> upstream_event list \<Rightarrow> string" where
  "drain rewrite buf [] = buf"
| "drain rewrite buf (Chunk b # es) = drain rewrite (push_output buf (rewrite b)) es"
| "drain rewrite buf (ChunkError # es) = drain rewrite buf es"
| "drain rewrite buf (Stall # es) = buf"

fun forward :: "(string \<Rightarrow> string) \<Rightarrow> nat option \<Rightarrow> string \<Rightarrow> upstream_event list \<Rightarrow> stream_item list \<times> string" where
  "forward rewrite sends buf [] = ([], buf)"
| "forward rewrite sends buf (Chunk b # es) =
     (let out = rewrite b; buf' = push_output buf out
      in if sends = Some 0 then ([], drain rewrite buf' es)
         else let (items, final) = forward rewrite (map_option (\<lambda>n. n - 1) sends) buf' es
              in (Data out # items, final))"
| "forward rewrite sends buf (ChunkError # es) = (if sends = Some 0 then [] else [Broken], buf)"
| "forward rewrite sends buf (Stall # es) = (if sends = Some 0 then [] else [Broken], buf)"

definition sse_rewrite ::
  "(string \<Rightarrow> json option) \<Rightarrow> (json \<Rightarrow> string) \<Rightarrow> string \<Rightarrow> int \<Rightarrow> bool \<Rightarrow> string
     \<Rightarrow> (request_format \<times> request_format) option \<Rightarrow> string \<Rightarrow> string" where
  "sse_rewrite parse print fresh created translate_gemini model protocol_translation bytes =
     (case protocol_translation of
        Some (src, dst) \<Rightarrow> translate_protocol_sse_chunk parse print fresh created (from_utf8_lossy bytes) model src dst
      | None \<Rightarrow>
          if translate_gemini then translate_gemini_sse_chunk parse print created (from_utf8_lossy bytes) model
          else bytes)"

definition sse_stream_response :: "stream_item list \<Rightarrow> http_response" where
  "sse_stream_response items = \<lparr>rs_status = 200, rs_headers = sse_headers, rs_body = Streamed items\<rparr>"

section \<open>Keepalive comments\<close>

text \<open>\<open>keepalive_stream\<close>: the interleaving of upstream items and timer ticks is given; a tick sends a
  comment when no data went out since the previous one.\<close>

datatype keepalive_event = Item stream_item | Tick

definition ping_item :: stream_item where
  "ping_item = Data ('': ping'' @ newline @ newline)"

fun keepalive_stream :: "bool \<Rightarrow> keepalive_event list \<Rightarrow> stream_item list" where
  "keepalive_stream data_sent [] = []"
| "keepalive_stream data_sent (Item (Data b) # es) = Data b # keepalive_stream True es"
| "keepalive_stream data_sent (Item Broken # es) = [Broken]"
| "keepalive_stream data_sent (Tick # es) =
     (if data_sent then keepalive_stream False es else ping_item # keepalive_stream False es)"

section \<open>What the buffer holds\<close>

fun clean_chunks :: "upstream_event list \<Rightarrow> string list option" where
  "clean_chunks [] = Some []"
| "clean_chunks (Chunk b # es) = map_option (Cons b) (clean_chunks es)"
| "clean_chunks (_ # es) = None"

lemma clean_chunks_iff: "clean_chunks es = Some bs \<longleftrightarrow> es = map Chunk bs"
proof (induction es arbitrary: bs rule: clean_chunks.induct)
  case (2 b es)
  then show ?case by (cases bs) auto
qed auto

text \<open>Without errors the two loops fill the buffer alike, whenever the client goes.\<close>

definition fill :: "(string \<Rightarrow> string) \<Rightarrow> string \<Rightarrow> string list \<Rightarrow> string" where
  "fill rewrite buf bs = foldl (\<lambda>buf b. push_output buf (rewrite b)) buf bs"

lemma drain_clean: "drain rewrite buf (map Chunk bs) = fill rewrite buf bs"
  by (induction bs arbitrary: buf) (auto simp: fill_def)

lemma forward_clean:
  "forward rewrite sends buf (map Chunk bs) =
     (map (Data \<circ> rewrite) (case sends of Some n \<Rightarrow> take n bs | None \<Rightarrow> bs), fill rewrite buf bs)"
proof (induction bs arbitrary: sends buf)
  case (Cons b bs)
  show ?case
    by (cases sends; cases "sends = Some 0")
      (auto simp: Let_def Cons drain_clean fill_def take_Cons' split: nat.splits)
qed (simp add: fill_def split: option.splits)

lemma fill_small:
  "length (buf @ concat (map rewrite bs)) \<le> MAX_OUTPUT_BUFFER_BYTES \<Longrightarrow>
     fill rewrite buf bs = buf @ concat (map rewrite bs)"
  by (induction bs arbitrary: buf) (auto simp: fill_def push_output_def)

text \<open>In general the buffer is the output without a beginning, and without some of it once the output
  is too long.\<close>

lemma push_output_drop:
  "\<exists>k \<le> length (buf @ bytes). push_output buf bytes = drop k (buf @ bytes)
     \<and> (MAX_OUTPUT_BUFFER_BYTES < length (buf @ bytes) \<longrightarrow> 0 < k)"
proof (cases "MAX_OUTPUT_BUFFER_BYTES < length (buf @ bytes)")
  case True
  then have "0 < length (buf @ bytes) div 2" unfolding MAX_OUTPUT_BUFFER_BYTES_def by linarith
  then show ?thesis
    using True unfolding push_output_def Let_def by (intro exI[of _ "length (buf @ bytes) div 2"]) auto
qed (auto simp: push_output_def intro!: exI[of _ 0])

lemma fill_drop:
  "bs \<noteq> [] \<Longrightarrow> \<exists>k. fill rewrite buf bs = drop k (buf @ concat (map rewrite bs))
     \<and> (MAX_OUTPUT_BUFFER_BYTES < length (buf @ concat (map rewrite bs)) \<longrightarrow> 0 < k)"
proof (induction bs arbitrary: buf)
  case (Cons b bs)
  let ?x = "buf @ rewrite b" and ?r = "concat (map rewrite bs)"
  obtain k where k: "k \<le> length ?x" "push_output buf (rewrite b) = drop k ?x"
    "MAX_OUTPUT_BUFFER_BYTES < length ?x \<longrightarrow> 0 < k"
    using push_output_drop by blast
  show ?case
  proof (cases "bs = []")
    case True
    with k show ?thesis by (auto simp: fill_def)
  next
    case False
    from Cons.IH[OF False, of "drop k ?x"] obtain j where j: "fill rewrite (drop k ?x) bs = drop j (drop k ?x @ ?r)"
      "MAX_OUTPUT_BUFFER_BYTES < length (drop k ?x @ ?r) \<longrightarrow> 0 < j" by blast
    have "drop k (?x @ ?r) = drop k ?x @ ?r" using k(1) unfolding drop_append by simp
    then have "drop j (drop k ?x @ ?r) = drop (j + k) (?x @ ?r)" by (metis drop_drop)
    moreover have "fill rewrite buf (b # bs) = fill rewrite (drop k ?x) bs" using k(2) by (simp add: fill_def)
    moreover have "MAX_OUTPUT_BUFFER_BYTES < length (?x @ ?r) \<Longrightarrow> 0 < j + k" using j(2) by (cases "k = 0") auto
    ultimately show ?thesis using j(1) by (intro exI[of _ "j + k"]) auto
  qed
qed simp

section \<open>Properties\<close>

text \<open>While the output fits the buffer, forwarding is faithful: the client receives the rewritten chunks
  in order (those sent before it went), and the buffer that is billed and cached holds the complete output,
  whenever the client disconnected.\<close>

theorem stream_buffer_complete:
  assumes "length (concat (map rewrite bs)) \<le> MAX_OUTPUT_BUFFER_BYTES"
  shows "forward rewrite sends [] (map Chunk bs) =
    (map (Data \<circ> rewrite) (case sends of Some n \<Rightarrow> take n bs | None \<Rightarrow> bs), concat (map rewrite bs))"
  using fill_small[of "[]" rewrite bs] assms by (simp add: forward_clean)

lemma stream_buffer_complete_witness:
  "forward id (Some 1) [] (map Chunk [''a'', ''b'', ''c'']) = ([Data ''a''], ''abc'')"
  using stream_buffer_complete[of id "[''a'', ''b'', ''c'']" "Some 1"] by (simp add: MAX_OUTPUT_BUFFER_BYTES_def)

text \<open>A longer output loses its beginning: the buffer is a proper suffix of what the client received, and
  that suffix is what the response cache stores for the next client.\<close>

theorem long_stream_buffer_loses_start:
  assumes "MAX_OUTPUT_BUFFER_BYTES < length (concat (map rewrite bs))"
  shows "\<exists>k > 0. snd (forward rewrite sends [] (map Chunk bs)) = drop k (concat (map rewrite bs))
    \<and> length (snd (forward rewrite sends [] (map Chunk bs))) < length (concat (map rewrite bs))"
proof -
  have "bs \<noteq> []" using assms by auto
  then obtain k where "fill rewrite [] bs = drop k (concat (map rewrite bs))" "0 < k"
    using fill_drop[of bs rewrite "[]"] assms by auto
  then show ?thesis using assms by (intro exI[of _ k]) (auto simp: forward_clean)
qed

lemma long_stream_buffer_loses_start_witness:
  "\<exists>bs. MAX_OUTPUT_BUFFER_BYTES < length (concat (map id bs))
    \<and> snd (forward id None [] (map Chunk bs)) \<noteq> concat (map id bs)"
proof -
  let ?bs = "[replicate (Suc MAX_OUTPUT_BUFFER_BYTES) (CHR ''x'')]"
  have "MAX_OUTPUT_BUFFER_BYTES < length (concat (map id ?bs))" by simp
  with long_stream_buffer_loses_start[of id ?bs None] show ?thesis by (metis less_irrefl)
qed

end
