(* ===== verification/Dispatch_Log.thy ===== *)
theory Dispatch_Log
  imports Float64 "HOL-Library.List_Lexorder" "HOL-Library.Char_ord"
begin

text \<open>
  \<open>log.rs\<close>: the dispatch log. A bounded queue in memory, an append-only file with rotation, and the
  statistics computed from the queue. The file system is a map from the index of a file (0 the log, \<open>i\<close>
  its backup \<open>.i\<close>) to its lines; the JSON printer and parser of an entry are arguments. Appending to the
  file runs in a background task, which is executed with the call here.
\<close>

section \<open>Entries and logger\<close>

record dispatch_log =
  dl_id :: uuid
  dl_timestamp :: utc
  dl_request_model :: string
  dl_channel_id :: uuid
  dl_channel_name :: string
  dl_channel_priority :: u8
  dl_retry_count :: u8
  dl_trigger_reason :: "string option"
  dl_latency_ms :: u64
  dl_success :: bool
  dl_estimated_cost :: "f64 option"
  dl_input_tokens :: "u64 option"
  dl_output_tokens :: "u64 option"
  dl_cache_hit_tokens :: "u64 option"
  dl_cache_miss_tokens :: "u64 option"
  dl_request_id :: "string option"
  dl_virtual_key_id :: "string option"

type_synonym log_files = "nat \<rightharpoonup> string list"

record dispatch_logger =
  lg_logs :: "dispatch_log list"
  lg_max_entries :: nat
  lg_persistent :: bool
  lg_max_file_size_bytes :: u64
  lg_max_file_count :: nat
  lg_write_counter :: u64
  lg_files :: log_files

definition MAX_FILE_SIZE_BYTES :: u64 where "MAX_FILE_SIZE_BYTES = 10 * 1024 * 1024"
definition ROTATION_CHECK_INTERVAL :: u64 where "ROTATION_CHECK_INTERVAL = 100"

definition logger_new :: "nat \<Rightarrow> dispatch_logger" where
  "logger_new max_entries =
     \<lparr>lg_logs = [], lg_max_entries = max_entries, lg_persistent = False,
      lg_max_file_size_bytes = MAX_FILE_SIZE_BYTES, lg_max_file_count = 1, lg_write_counter = 0,
      lg_files = Map.empty\<rparr>"

definition logger_with_persistence :: "nat \<Rightarrow> u64 \<Rightarrow> nat \<Rightarrow> log_files \<Rightarrow> dispatch_logger" where
  "logger_with_persistence max_entries max_file_size_mb max_file_count files =
     \<lparr>lg_logs = [], lg_max_entries = max_entries, lg_persistent = True,
      lg_max_file_size_bytes = sat_mul max_file_size_mb (1024 * 1024), lg_max_file_count = max max_file_count 1,
      lg_write_counter = 0, lg_files = files\<rparr>"

section \<open>Files\<close>

definition file_size :: "string list \<Rightarrow> nat" where
  "file_size lines = sum_list (map (\<lambda>l. length l + 1) lines)"

definition append_line :: "log_files \<Rightarrow> string \<Rightarrow> log_files" where
  "append_line fs line = fs(0 \<mapsto> (case fs 0 of Some ls \<Rightarrow> ls | None \<Rightarrow> []) @ [line])"

text \<open>\<open>rename\<close> replaces the target; a missing source is an error, which the shift ignores.\<close>

definition rename_file :: "nat \<Rightarrow> nat \<Rightarrow> log_files \<Rightarrow> log_files" where
  "rename_file a b fs = (case fs a of Some ls \<Rightarrow> (fs(b \<mapsto> ls))(a := None) | None \<Rightarrow> fs)"

fun shift_backups :: "nat \<Rightarrow> log_files \<Rightarrow> log_files" where
  "shift_backups 0 fs = fs"
| "shift_backups (Suc i) fs = shift_backups i (rename_file (Suc i) (Suc (Suc i)) fs)"

definition rotate_if_needed :: "log_files \<Rightarrow> u64 \<Rightarrow> nat \<Rightarrow> log_files" where
  "rotate_if_needed fs max_bytes max_count =
     (case fs 0 of
        None \<Rightarrow> fs
      | Some lines \<Rightarrow>
          if file_size lines \<le> unat max_bytes then fs
          else rename_file 0 1 (shift_backups (max_count - 1) (fs(max_count := None))))"

definition read_entries :: "(string \<Rightarrow> dispatch_log option) \<Rightarrow> string list \<Rightarrow> dispatch_log list" where
  "read_entries parse lines = List.map_filter (\<lambda>l. if trim l = [] then None else parse (trim l)) lines"

fun push_until :: "nat \<Rightarrow> dispatch_log list \<Rightarrow> dispatch_log list \<Rightarrow> dispatch_log list" where
  "push_until n logs [] = logs"
| "push_until n logs (e # es) = (if n \<le> length logs then logs else push_until n (logs @ [e]) es)"

definition load_from_file :: "(string \<Rightarrow> dispatch_log option) \<Rightarrow> dispatch_logger \<Rightarrow> dispatch_logger" where
  "load_from_file parse lg =
     (if \<not> lg_persistent lg then lg
      else
        let fs = rotate_if_needed (lg_files lg) (lg_max_file_size_bytes lg) (lg_max_file_count lg)
        in case fs 0 of
             None \<Rightarrow> lg\<lparr>lg_files := fs\<rparr>
           | Some lines \<Rightarrow>
               let entries = read_entries parse lines
               in lg\<lparr>lg_files := fs,
                     lg_logs := push_until (lg_max_entries lg) (lg_logs lg)
                                  (drop (length entries - lg_max_entries lg) entries)\<rparr>)"

section \<open>Writing\<close>

definition persist_entry :: "(dispatch_log \<Rightarrow> string) \<Rightarrow> dispatch_logger \<Rightarrow> dispatch_log \<Rightarrow> dispatch_logger" where
  "persist_entry print lg entry =
     (if \<not> lg_persistent lg then lg
      else
        let line = print entry; count = lg_write_counter lg;
            fs = (if count mod ROTATION_CHECK_INTERVAL = 0
                  then rotate_if_needed (lg_files lg) (lg_max_file_size_bytes lg) (lg_max_file_count lg)
                  else lg_files lg)
        in if line = [] then lg
           else lg\<lparr>lg_write_counter := count + 1, lg_files := append_line fs line\<rparr>)"

definition log_entry :: "(dispatch_log \<Rightarrow> string) \<Rightarrow> dispatch_logger \<Rightarrow> dispatch_log \<Rightarrow> dispatch_logger" where
  "log_entry print lg entry =
     (let lg = persist_entry print lg entry;
          logs = (if lg_max_entries lg \<le> length (lg_logs lg) then drop 1 (lg_logs lg) else lg_logs lg)
      in lg\<lparr>lg_logs := logs @ [entry]\<rparr>)"

text \<open>The newest entry with the id.\<close>

fun update_first :: "(dispatch_log \<Rightarrow> bool) \<Rightarrow> (dispatch_log \<Rightarrow> dispatch_log) \<Rightarrow> dispatch_log list \<Rightarrow> dispatch_log list" where
  "update_first P f [] = []"
| "update_first P f (e # es) = (if P e then f e # es else e # update_first P f es)"

definition set_tokens :: "u64 \<Rightarrow> u64 \<Rightarrow> u64 option \<Rightarrow> u64 option \<Rightarrow> f64 option \<Rightarrow> dispatch_log \<Rightarrow> dispatch_log" where
  "set_tokens input output cache_hit cache_miss exact_cost e =
     e\<lparr>dl_input_tokens := Some input, dl_output_tokens := Some output,
       dl_cache_hit_tokens := (if cache_hit \<noteq> None then cache_hit else dl_cache_hit_tokens e),
       dl_cache_miss_tokens := (if cache_miss \<noteq> None then cache_miss else dl_cache_miss_tokens e),
       dl_estimated_cost := (if exact_cost \<noteq> None then exact_cost else dl_estimated_cost e)\<rparr>"

definition update_log_tokens ::
  "dispatch_logger \<Rightarrow> uuid \<Rightarrow> u64 \<Rightarrow> u64 \<Rightarrow> u64 option \<Rightarrow> u64 option \<Rightarrow> f64 option \<Rightarrow> dispatch_logger" where
  "update_log_tokens lg i input output cache_hit cache_miss exact_cost =
     lg\<lparr>lg_logs := rev (update_first (\<lambda>e. dl_id e = i)
          (set_tokens input output cache_hit cache_miss exact_cost) (rev (lg_logs lg)))\<rparr>"

section \<open>Reading\<close>

definition logger_list :: "dispatch_logger \<Rightarrow> nat \<Rightarrow> nat \<Rightarrow> dispatch_log list" where
  "logger_list lg offset limit = take limit (drop offset (rev (lg_logs lg)))"

definition list_by_key :: "dispatch_logger \<Rightarrow> string \<Rightarrow> nat \<Rightarrow> nat \<Rightarrow> dispatch_log list" where
  "list_by_key lg key offset limit =
     take limit (drop offset (filter (\<lambda>l. dl_virtual_key_id l = Some key) (rev (lg_logs lg))))"

definition logger_total :: "dispatch_logger \<Rightarrow> nat" where
  "logger_total lg = length (lg_logs lg)"

definition total_by_key :: "dispatch_logger \<Rightarrow> string \<Rightarrow> nat" where
  "total_by_key lg key = length (filter (\<lambda>l. dl_virtual_key_id l = Some key) (lg_logs lg))"

record dispatch_stats =
  st_total_requests :: nat
  st_successes :: nat
  st_failures :: nat
  st_avg_latency_ms :: u64

definition logger_stats :: "dispatch_logger \<Rightarrow> dispatch_stats" where
  "logger_stats lg =
     (let n = length (lg_logs lg); successes = length (filter dl_success (lg_logs lg))
      in \<lparr>st_total_requests = n, st_successes = successes, st_failures = n - successes,
          st_avg_latency_ms = (if 0 < n then sum_list (map dl_latency_ms (lg_logs lg)) div of_nat n else 0)\<rparr>)"

text \<open>\<open>BTreeMap::entry\<close> with \<open>or_insert_with\<close> and an update of the entry.\<close>

fun bt_upsert :: "'k::linorder \<Rightarrow> 'v \<Rightarrow> ('v \<Rightarrow> 'v) \<Rightarrow> ('k \<times> 'v) list \<Rightarrow> ('k \<times> 'v) list" where
  "bt_upsert k d f [] = [(k, f d)]"
| "bt_upsert k d f ((k', v) # m) =
     (if k = k' then (k', f v) # m else if k < k' then (k, f d) # (k', v) # m else (k', v) # bt_upsert k d f m)"

record usage_bucket =
  ub_timestamp :: utc
  ub_channel_id :: uuid
  ub_channel_name :: string
  ub_model :: string
  ub_input_tokens :: u64
  ub_output_tokens :: u64
  ub_cache_hit_tokens :: u64
  ub_cache_miss_tokens :: u64
  ub_request_count :: u32
  ub_estimated_cost :: f64

record usage_report =
  uh_buckets :: "usage_bucket list"
  uh_total_input_tokens :: u64
  uh_total_output_tokens :: u64
  uh_total_requests :: u32
  uh_total_cost :: f64

definition count_or_0 :: "u64 option \<Rightarrow> u64" where
  "count_or_0 x = (case x of Some n \<Rightarrow> n | None \<Rightarrow> 0)"

definition NANOS_PER_HOUR :: int where "NANOS_PER_HOUR = 3600000000000"

definition hour_of :: "utc \<Rightarrow> utc" where
  "hour_of t = t - t mod NANOS_PER_HOUR"

type_synonym bucket_id = "utc \<times> uuid \<times> string"

definition bucket_key :: "dispatch_log \<Rightarrow> bucket_id" where
  "bucket_key l = (hour_of (dl_timestamp l), dl_channel_id l, dl_request_model l)"

definition empty_bucket :: "dispatch_log \<Rightarrow> usage_bucket" where
  "empty_bucket l =
     \<lparr>ub_timestamp = hour_of (dl_timestamp l), ub_channel_id = dl_channel_id l, ub_channel_name = dl_channel_name l,
      ub_model = dl_request_model l, ub_input_tokens = 0, ub_output_tokens = 0, ub_cache_hit_tokens = 0,
      ub_cache_miss_tokens = 0, ub_request_count = 0, ub_estimated_cost = 0\<rparr>"

definition add_to_bucket :: "dispatch_log \<Rightarrow> usage_bucket \<Rightarrow> usage_bucket" where
  "add_to_bucket l b =
     b\<lparr>ub_input_tokens := ub_input_tokens b + count_or_0 (dl_input_tokens l),
       ub_output_tokens := ub_output_tokens b + count_or_0 (dl_output_tokens l),
       ub_cache_hit_tokens := ub_cache_hit_tokens b + count_or_0 (dl_cache_hit_tokens l),
       ub_cache_miss_tokens := ub_cache_miss_tokens b + count_or_0 (dl_cache_miss_tokens l),
       ub_request_count := ub_request_count b + 1,
       ub_estimated_cost := f64_add (ub_estimated_cost b) (case dl_estimated_cost l of Some c \<Rightarrow> c | None \<Rightarrow> 0)\<rparr>"

definition bucket_map :: "dispatch_log list \<Rightarrow> (bucket_id \<times> usage_bucket) list" where
  "bucket_map logs = foldl (\<lambda>m l. bt_upsert (bucket_key l) (empty_bucket l) (add_to_bucket l) m) [] logs"

definition f64_sum :: "f64 list \<Rightarrow> f64" where
  "f64_sum xs = foldl f64_add 0 xs"

text \<open>\<open>chrono::Duration::hours\<close> panics outside its range, and so does the subtraction of times when the
  result is no date (\<open>in_range\<close>).\<close>

definition history_cutoff :: "(utc \<Rightarrow> bool) \<Rightarrow> utc \<Rightarrow> u64 \<Rightarrow> utc option" where
  "history_cutoff in_range now hours =
     (let h = sint hours; cutoff = now - h * NANOS_PER_HOUR
      in if \<bar>h * 3600\<bar> \<le> (2 ^ 63 - 1) div 1000 \<and> in_range cutoff then Some cutoff else None)"

definition counts_in_history :: "utc \<Rightarrow> dispatch_log \<Rightarrow> bool" where
  "counts_in_history cutoff l \<longleftrightarrow>
     dl_success l \<and> cutoff \<le> dl_timestamp l \<and> (dl_input_tokens l \<noteq> None \<or> dl_output_tokens l \<noteq> None)"

definition usage_history :: "(utc \<Rightarrow> bool) \<Rightarrow> utc \<Rightarrow> dispatch_logger \<Rightarrow> u64 \<Rightarrow> usage_report option" where
  "usage_history in_range now lg hours =
     map_option (\<lambda>cutoff.
       let buckets = map snd (bucket_map (filter (counts_in_history cutoff) (lg_logs lg)))
       in \<lparr>uh_buckets = buckets, uh_total_input_tokens = sum_list (map ub_input_tokens buckets),
           uh_total_output_tokens = sum_list (map ub_output_tokens buckets),
           uh_total_requests = sum_list (map ub_request_count buckets),
           uh_total_cost = f64_sum (map ub_estimated_cost buckets)\<rparr>) (history_cutoff in_range now hours)"

record priority_stats =
  ps_priority :: u8
  ps_requests :: nat
  ps_estimated_cost :: f64

record cost_stats =
  co_total_requests :: nat
  co_total_estimated_cost :: f64
  co_priority_breakdown :: "priority_stats list"
  co_model_counts :: "(string \<times> nat) list"
  co_total_input_tokens :: u64
  co_total_output_tokens :: u64

definition cost_stats_of :: "dispatch_logger \<Rightarrow> cost_stats" where
  "cost_stats_of lg =
     (let successful = filter dl_success (lg_logs lg)
      in \<lparr>co_total_requests = length successful,
          co_total_estimated_cost = f64_sum (List.map_filter dl_estimated_cost successful),
          co_priority_breakdown = map snd (foldl (\<lambda>m l.
             bt_upsert (dl_channel_priority l)
               \<lparr>ps_priority = dl_channel_priority l, ps_requests = 0, ps_estimated_cost = 0\<rparr>
               (\<lambda>e. e\<lparr>ps_requests := ps_requests e + 1,
                      ps_estimated_cost := (case dl_estimated_cost l of
                         Some c \<Rightarrow> f64_add (ps_estimated_cost e) c | None \<Rightarrow> ps_estimated_cost e)\<rparr>) m) [] successful),
          co_model_counts = foldl (\<lambda>m l. bt_upsert (dl_request_model l) 0 Suc m) [] successful,
          co_total_input_tokens = sum_list (List.map_filter dl_input_tokens successful),
          co_total_output_tokens = sum_list (List.map_filter dl_output_tokens successful)\<rparr>)"

section \<open>Buckets\<close>

definition sorted_keys :: "('k::linorder \<times> 'v) list \<Rightarrow> bool" where
  "sorted_keys m \<longleftrightarrow> sorted_wrt (<) (map fst m)"

lemma bt_upsert_keys: "set (map fst (bt_upsert k d f m)) = insert k (set (map fst m))"
  by (induction m rule: bt_upsert.induct) auto

lemma bt_upsert_sorted: "sorted_keys m \<Longrightarrow> sorted_keys (bt_upsert k d f m)"
proof (induction m)
  case (Cons kv m)
  then show ?case
    using bt_upsert_keys[of k d f m] by (cases kv) (auto simp: sorted_keys_def)
qed (simp add: sorted_keys_def)

lemma bt_upsert_get:
  "sorted_keys m \<Longrightarrow>
     map_of (bt_upsert k d f m) k' =
       (if k' = k then Some (f (case map_of m k of Some v \<Rightarrow> v | None \<Rightarrow> d)) else map_of m k')"
proof (induction m)
  case (Cons kv m)
  obtain a v where kv: "kv = (a, v)" by fastforce
  have "map_of m k = None" if "k < a"
    using Cons.prems that kv by (force simp: sorted_keys_def map_of_eq_None_iff)
  with Cons kv show ?case by (auto simp: sorted_keys_def)
qed simp

text \<open>A total over the values of the map grows by what the update adds.\<close>

lemma bt_upsert_sum:
  fixes g :: "'v \<Rightarrow> 'a::comm_monoid_add"
  assumes "\<And>v. g (f v) = g v + a" "g d = 0"
  shows "sum_list (map (g \<circ> snd) (bt_upsert k d f m)) = sum_list (map (g \<circ> snd) m) + a"
  by (induction m) (auto simp: assms ac_simps)

lemma bucket_map_sum:
  fixes g :: "usage_bucket \<Rightarrow> 'a::comm_monoid_add"
  assumes "\<And>l b. g (add_to_bucket l b) = g b + h l" "\<And>l. g (empty_bucket l) = 0"
  shows "sum_list (map (g \<circ> snd) (bucket_map logs)) = sum_list (map h logs)"
proof (induction logs rule: rev_induct)
  case (snoc l logs)
  have "sum_list (map (g \<circ> snd) (bucket_map (logs @ [l]))) = sum_list (map (g \<circ> snd) (bucket_map logs)) + h l"
    unfolding bucket_map_def foldl_append foldl.simps
    by (rule bt_upsert_sum) (use assms in auto)
  with snoc show ?case by (simp add: comp_def)
qed (simp add: bucket_map_def)

lemma bucket_map_sorted: "sorted_keys (bucket_map logs)"
proof (induction logs rule: rev_induct)
  case (snoc l logs)
  then show ?case using bt_upsert_sorted unfolding bucket_map_def by (simp add: foldl_append)
qed (simp add: bucket_map_def sorted_keys_def)

lemma bucket_map_get:
  "map_option (\<lambda>b. (ub_input_tokens b, ub_output_tokens b, ub_request_count b)) (map_of (bucket_map logs) k) =
     (let ls = filter (\<lambda>l. bucket_key l = k) logs
      in if ls = [] then None
         else Some (sum_list (map (count_or_0 \<circ> dl_input_tokens) ls),
                    sum_list (map (count_or_0 \<circ> dl_output_tokens) ls), of_nat (length ls)))"
proof (induction logs rule: rev_induct)
  case (snoc l logs)
  have step: "map_of (bucket_map (logs @ [l])) k =
     (if k = bucket_key l then Some (add_to_bucket l (case map_of (bucket_map logs) k of Some v \<Rightarrow> v | None \<Rightarrow> empty_bucket l))
      else map_of (bucket_map logs) k)"
    using bt_upsert_get[OF bucket_map_sorted[of logs]] by (simp add: bucket_map_def)
  show ?case
  proof (cases "k = bucket_key l")
    case True
    then show ?thesis
      using snoc step
      by (cases "map_of (bucket_map logs) k")
        (auto simp: Let_def add_to_bucket_def empty_bucket_def split: if_splits)
  next
    case False
    with snoc step show ?thesis by (simp add: Let_def)
  qed
qed (simp add: bucket_map_def)

section \<open>The queue\<close>

lemma persist_entry_logs [simp]:
  "lg_logs (persist_entry print lg e) = lg_logs lg" "lg_max_entries (persist_entry print lg e) = lg_max_entries lg"
  by (simp_all add: persist_entry_def Let_def)

lemma log_entry_window:
  assumes "0 < lg_max_entries lg" "length (lg_logs lg) \<le> lg_max_entries lg"
  shows "lg_logs (log_entry print lg e) = push_window (lg_max_entries lg) (lg_logs lg) e"
    and "lg_max_entries (log_entry print lg e) = lg_max_entries lg"
  using assms by (cases "lg_logs lg"; simp add: log_entry_def Let_def push_window_def)+

lemma logs_are_window:
  assumes "0 < lg_max_entries lg" "lg_logs lg = []"
  shows "lg_logs (foldl (log_entry print) lg es) = foldl (push_window (lg_max_entries lg)) [] es
    \<and> lg_max_entries (foldl (log_entry print) lg es) = lg_max_entries lg"
proof (induction es rule: rev_induct)
  case (snoc e es)
  let ?lg = "foldl (log_entry print) lg es"
  have "length (lg_logs ?lg) \<le> lg_max_entries ?lg"
    using snoc assms(1) by (simp add: foldl_push_window)
  with snoc assms(1) show ?case by (simp add: log_entry_window)
qed (simp add: assms)

text \<open>Rotation, with the place of the oldest backup free.\<close>

lemma shift_backups_get:
  "fs (Suc n) = None \<Longrightarrow>
     shift_backups n fs k = (if 2 \<le> k \<and> k \<le> Suc n then fs (k - 1) else if k = 1 \<and> 0 < n then None else fs k)"
proof (induction n arbitrary: fs)
  case (Suc n)
  let ?fs = "rename_file (Suc n) (Suc (Suc n)) fs"
  have get: "?fs j = (if j = Suc (Suc n) then fs (Suc n) else if j = Suc n then None else fs j)" for j
    using Suc.prems by (cases "fs (Suc n)") (auto simp: rename_file_def)
  have "shift_backups n ?fs k = (if 2 \<le> k \<and> k \<le> Suc n then ?fs (k - 1) else if k = 1 \<and> 0 < n then None else ?fs k)"
    using Suc.IH[of ?fs] get[of "Suc n"] by simp
  then have "shift_backups (Suc n) fs k =
      (if 2 \<le> k \<and> k \<le> Suc n then ?fs (k - 1) else if k = 1 \<and> 0 < n then None else ?fs k)"
    by simp
  also have "\<dots> = (if 2 \<le> k \<and> k \<le> Suc (Suc n) then fs (k - 1) else if k = 1 \<and> 0 < Suc n then None else fs k)"
    unfolding get by auto
  finally show ?case .
qed auto

section \<open>Properties\<close>

text \<open>The log in memory always holds exactly the last \<open>max_entries\<close> entries in order, whatever was
  logged and whether or not a file is kept, and \<open>list\<close> pages through them from the newest.\<close>

theorem log_keeps_latest:
  assumes "0 < lg_max_entries lg" "lg_logs lg = []"
  shows "let after = foldl (log_entry print) lg es; n = lg_max_entries lg
         in lg_logs after = drop (length es - n) es
          \<and> logger_list after offset limit = take limit (drop offset (take n (rev es)))"
proof -
  let ?after = "foldl (log_entry print) lg es" and ?n = "lg_max_entries lg"
  have logs: "lg_logs ?after = drop (length es - ?n) es"
    using logs_are_window[OF assms] assms(1) by (simp add: foldl_push_window)
  have "rev (drop (length es - ?n) es) = take ?n (rev es)"
    by (cases "length es \<le> ?n") (simp_all add: rev_drop)
  with logs show ?thesis by (simp add: Let_def logger_list_def)
qed

definition example_entry :: "uuid \<Rightarrow> dispatch_log" where
  "example_entry i =
     \<lparr>dl_id = i, dl_timestamp = 0, dl_request_model = [], dl_channel_id = 0, dl_channel_name = [],
      dl_channel_priority = 0, dl_retry_count = 0, dl_trigger_reason = None, dl_latency_ms = 0, dl_success = True,
      dl_estimated_cost = None, dl_input_tokens = None, dl_output_tokens = None, dl_cache_hit_tokens = None,
      dl_cache_miss_tokens = None, dl_request_id = None, dl_virtual_key_id = None\<rparr>"

lemma log_keeps_latest_witness:
  "logger_list (foldl (log_entry (\<lambda>_. [])) (logger_new 2) [example_entry 1, example_entry 2, example_entry 3]) 0 5 =
     [example_entry 3, example_entry 2]"
  using log_keeps_latest[of "logger_new 2" "\<lambda>_. []" "[example_entry 1, example_entry 2, example_entry 3]" 0 5]
  by (simp add: logger_new_def Let_def)

text \<open>A rotation moves every backup one place up and the log to the first place, so that no line is
  lost but those of the oldest backup, the one with number \<open>max_count\<close>; files beyond it are not touched, and
  without need nothing happens.\<close>

theorem rotation_shifts_backups:
  assumes "1 \<le> max_count"
  shows "rotate_if_needed fs max_bytes max_count k =
    (case fs 0 of
       Some lines \<Rightarrow>
         if file_size lines \<le> unat max_bytes then fs k
         else if k = 0 then None else if k \<le> max_count then fs (k - 1) else fs k
     | None \<Rightarrow> fs k)"
proof (cases "fs 0")
  case (Some lines)
  let ?f = "fs(max_count := None)"
  have "shift_backups (max_count - 1) ?f j =
      (if 2 \<le> j \<and> j \<le> max_count then ?f (j - 1) else if j = 1 \<and> 1 < max_count then None else ?f j)" for j
    using shift_backups_get[of ?f "max_count - 1" j] assms by simp
  note shift = this
  let ?g = "shift_backups (max_count - 1) ?f"
  have 0: "?g 0 = Some lines" using shift[of 0] Some assms by simp
  have "rename_file 0 1 ?g k = (if k = 0 then None else if k = 1 then Some lines else ?g k)"
    using 0 by (simp add: rename_file_def)
  also have "\<dots> = (if k = 0 then None else if k \<le> max_count then fs (k - 1) else fs k)"
    using shift[of k] Some assms by (cases "k = 1"; cases "k \<le> max_count") auto
  finally have "rename_file 0 1 ?g k = (if k = 0 then None else if k \<le> max_count then fs (k - 1) else fs k)" .
  with Some show ?thesis unfolding rotate_if_needed_def by simp
qed (simp add: rotate_if_needed_def)

lemma rotation_shifts_backups_witness:
  "let fs = [0 \<mapsto> [''new''], 1 \<mapsto> [''old''], 2 \<mapsto> [''older'']] in
     rotate_if_needed fs 1 2 2 = Some [''old''] \<and> rotate_if_needed fs 1 2 0 = None"
proof -
  let ?fs = "[0 \<mapsto> [''new''], 1 \<mapsto> [''old''], 2 \<mapsto> [''older'']] :: log_files"
  have "\<not> file_size [''new''] \<le> unat (1 :: u64)" by (simp add: file_size_def)
  then have "rotate_if_needed ?fs 1 2 k = (if k = 0 then None else if k \<le> 2 then ?fs (k - 1) else ?fs k)" for k
    using rotation_shifts_backups[of 2 ?fs 1 k] by simp
  then show ?thesis by (simp add: Let_def)
qed

text \<open>The usage history adds up: its buckets are ordered by hour, channel and model with no key twice,
  each bucket holds the tokens and the number of the successful entries of its hour, channel and model since
  the cutoff that carry token counts, and the totals are those of all such entries (modulo the width of the
  counters). It panics exactly when the cutoff is no representable time.\<close>

theorem usage_history_adds_up:
  "case history_cutoff in_range now hours of
     None \<Rightarrow> usage_history in_range now lg hours = None
   | Some cutoff \<Rightarrow>
       let ls = filter (counts_in_history cutoff) (lg_logs lg); m = bucket_map ls in
       \<exists>h. usage_history in_range now lg hours = Some h
         \<and> uh_buckets h = map snd m \<and> sorted_keys m
         \<and> (\<forall>k. map_option (\<lambda>b. (ub_input_tokens b, ub_output_tokens b, ub_request_count b)) (map_of m k) =
               (let es = filter (\<lambda>l. bucket_key l = k) ls
                in if es = [] then None
                   else Some (sum_list (map (count_or_0 \<circ> dl_input_tokens) es),
                              sum_list (map (count_or_0 \<circ> dl_output_tokens) es), of_nat (length es))))
         \<and> uh_total_input_tokens h = sum_list (map (count_or_0 \<circ> dl_input_tokens) ls)
         \<and> uh_total_output_tokens h = sum_list (map (count_or_0 \<circ> dl_output_tokens) ls)
         \<and> uh_total_requests h = of_nat (length ls)"
proof (cases "history_cutoff in_range now hours")
  case (Some cutoff)
  define ls where "ls = filter (counts_in_history cutoff) (lg_logs lg)"
  have one: "sum_list (map (\<lambda>_. 1) xs) = of_nat (length xs)" for xs :: "'a list"
    by (induction xs) simp_all
  have "sum_list (map (ub_input_tokens \<circ> snd) (bucket_map ls)) = sum_list (map (count_or_0 \<circ> dl_input_tokens) ls)"
    "sum_list (map (ub_output_tokens \<circ> snd) (bucket_map ls)) = sum_list (map (count_or_0 \<circ> dl_output_tokens) ls)"
    "sum_list (map (ub_request_count \<circ> snd) (bucket_map ls)) = of_nat (length ls)"
    unfolding one[symmetric] by (rule bucket_map_sum; simp add: add_to_bucket_def empty_bucket_def)+
  with Some bucket_map_sorted bucket_map_get show ?thesis
    by (simp add: usage_history_def Let_def ls_def[symmetric])
qed (simp add: usage_history_def)

end
