(* ===== verification/Gateway_State.thy ===== *)
theory Gateway_State
  imports Router Affinity Fallback Virtual_Key Provider_Budget Cache Payload_Rules Model_Registry Guardrails Quota
    Adaptor Sse_Stream Dispatch_Log
begin

text \<open>
  \<open>proxy/state.rs\<close>, \<open>proxy/request_meta.rs\<close> and the shared parts of \<open>proxy/mod.rs\<close>: the state one request
  works on, what is read from the request, and the entries of the dispatch log. The parts of \<open>AppState\<close> that
  dispatching neither reads nor writes (identity providers, audit log, notifications, MCP) are left out, and
  so are the Prometheus counters, which nothing reads back. The server behind the Redis limits is part of the
  state.

  Third-party code is the record \<open>libs\<close>: the JSON parser and printer, the hash of the cache, the digest of
  session ids, the printing and parsing of uuids, the checks on headers and the keyring. What the outside
  world answers at some time is the record \<open>moment\<close>: the clocks, the date and month the budgets use, the Redis
  link and a fresh uuid.
\<close>

record libs =
  lib_parse :: "string \<Rightarrow> json option"
  lib_print :: "json \<Rightarrow> string"
  lib_hash :: "string \<Rightarrow> cache_key"
  lib_digest :: "string \<Rightarrow> string"
  lib_uuid_print :: "uuid \<Rightarrow> string"
  lib_uuid_parse :: "string \<Rightarrow> uuid option"
  lib_log_print :: "dispatch_log \<Rightarrow> string"
  lib_header_ok :: "string \<Rightarrow> string \<Rightarrow> bool"
  lib_alnum :: "string \<Rightarrow> bool"
  lib_keyring :: "string \<Rightarrow> string \<Rightarrow> string option"

record moment =
  mo_utc :: utc
  mo_inst :: instant
  mo_today :: string
  mo_month :: string
  mo_redis :: redis_env
  mo_fresh :: uuid

record model_retry_config =
  rc_max_retries :: "u32 option"
  rc_retry_base_ms :: "u64 option"
  rc_retry_max_ms :: "u64 option"

record proxy_params =
  pp_request_timeout_secs :: "u64 option"
  pp_stream_keepalive_secs :: "u64 option"
  pp_stream_ttft_timeout_secs :: "u64 option"
  pp_max_retries :: u32
  pp_model_fallbacks :: "(string, string list) hashmap"
  pp_context_window_fallbacks :: "(string, string list) hashmap"
  pp_model_aliases :: "(string, string) hashmap"
  pp_retry_base_ms :: u64
  pp_retry_max_ms :: u64
  pp_model_retry_overrides :: "(string, model_retry_config) hashmap"
  pp_nonstream_keepalive_interval_secs :: u64
  pp_passthrough_headers :: "string list"
  pp_stream_bootstrap_retries :: u32
  pp_model_groups :: "(string, string list) hashmap"
  pp_model_pricing :: "(string, model_pricing) hashmap"
  pp_completion_ratios :: "(string, f64) hashmap"

record app_state =
  as_manager :: manager
  as_logger :: dispatch_logger
  as_registry :: model_registry
  as_gateway :: proxy_params
  as_affinity :: affinity
  as_active :: active_requests
  as_latency :: latency_tracker
  as_cooldown :: cooldown_tracker
  as_cache :: request_cache
  as_in_flight :: in_flight
  as_payload_rules :: rules_registry
  as_rate_limiter :: rate_limiter
  as_quota :: quota_store
  as_keys :: key_store
  as_provider_budgets :: provider_budget_store
  as_key_limiter :: key_rate_limiter
  as_guardrails :: guardrails_config
  as_strategy :: routing_strategy_type
  as_redis :: redis_server

section \<open>The request\<close>

record client_request =
  cl_headers :: headers
  cl_body :: json

text \<open>\<open>HeaderMap::get\<close> with \<open>to_str\<close>.\<close>

definition request_header :: "headers \<Rightarrow> string \<Rightarrow> string option" where
  "request_header hs name =
     Option.bind (map_of hs name)
       (\<lambda>v. if \<forall>c \<in> set v. 32 \<le> (of_char c :: nat) \<and> (of_char c :: nat) < 127 \<or> (of_char c :: nat) = 9 then Some v else None)"

record request_meta =
  rm_original_model :: string
  rm_is_stream :: bool
  rm_request_id :: "string option"
  rm_session_id :: "string option"
  rm_affinity_channel :: "uuid option"
  rm_account_group :: "string option"

definition extract_virtual_key_id :: "libs \<Rightarrow> headers \<Rightarrow> uuid option" where
  "extract_virtual_key_id L hs = Option.bind (request_header hs ''x-virtual-key-id'') (lib_uuid_parse L)"

definition extract_request_meta ::
  "libs \<Rightarrow> app_state \<Rightarrow> instant \<Rightarrow> json \<Rightarrow> headers \<Rightarrow> string \<Rightarrow> app_state \<times> request_meta" where
  "extract_request_meta L st now body hs fallback_model =
     (let session_id = extract_session_id (lib_digest L) (\<lambda>xs. lib_print L (JArr xs)) (request_header hs) body;
          (aff, ch) = (case session_id of
             Some sid \<Rightarrow> affinity_get (as_affinity st) now sid
           | None \<Rightarrow> (as_affinity st, None))
      in (st\<lparr>as_affinity := aff\<rparr>,
          \<lparr>rm_original_model = (case json_get_str body ''model'' of Some m \<Rightarrow> m | None \<Rightarrow> fallback_model),
           rm_is_stream = (Option.bind (json_get body ''stream'') json_as_bool = Some True),
           rm_request_id = request_header hs ''x-request-id'', rm_session_id = session_id,
           rm_affinity_channel = ch, rm_account_group = request_header hs ''x-account-group''\<rparr>))"

section \<open>Log entries\<close>

datatype failure_reason = RateLimited | ServerError | ConnectionError | NoCredential | Timeout | ContextWindow
  | AllExhausted | ClientError nat

fun nat_digits :: "nat \<Rightarrow> string" where
  "nat_digits n = (if n < 10 then [char_of (48 + n)] else nat_digits (n div 10) @ [char_of (48 + n mod 10)])"

declare nat_digits.simps [simp del]

fun log_str :: "failure_reason \<Rightarrow> string" where
  "log_str RateLimited = ''429''"
| "log_str ServerError = ''5xx''"
| "log_str ConnectionError = ''connection_error''"
| "log_str Timeout = ''ttft_timeout''"
| "log_str NoCredential = ''no_credential''"
| "log_str ContextWindow = ''context_overflow''"
| "log_str AllExhausted = ''all_exhausted''"
| "log_str (ClientError code) = nat_digits code"

record log_input =
  li_model :: string
  li_channel_id :: uuid
  li_channel_name :: string
  li_channel_priority :: u8
  li_retry_count :: u32
  li_reason :: "string option"
  li_latency_ms :: u64
  li_success :: bool
  li_estimated_cost :: "f64 option"
  li_usage :: token_usage
  li_request_id :: "string option"
  li_virtual_key_id :: "string option"

definition make_log :: "moment \<Rightarrow> log_input \<Rightarrow> dispatch_log" where
  "make_log t i =
     \<lparr>dl_id = mo_fresh t, dl_timestamp = mo_utc t, dl_request_model = li_model i, dl_channel_id = li_channel_id i,
      dl_channel_name = li_channel_name i, dl_channel_priority = li_channel_priority i,
      dl_retry_count = ucast (li_retry_count i), dl_trigger_reason = li_reason i, dl_latency_ms = li_latency_ms i,
      dl_success = li_success i, dl_estimated_cost = li_estimated_cost i, dl_input_tokens = tu_input (li_usage i),
      dl_output_tokens = tu_output (li_usage i), dl_cache_hit_tokens = tu_cache_hit (li_usage i),
      dl_cache_miss_tokens = tu_cache_miss (li_usage i), dl_request_id = li_request_id i,
      dl_virtual_key_id = li_virtual_key_id i\<rparr>"

definition elapsed_ms :: "instant \<Rightarrow> moment \<Rightarrow> u64" where
  "elapsed_ms start t = of_nat ((mo_inst t - start) div 1000000)"

definition write_log :: "libs \<Rightarrow> dispatch_log \<Rightarrow> app_state \<Rightarrow> app_state" where
  "write_log L e st = st\<lparr>as_logger := log_entry (lib_log_print L) (as_logger st) e\<rparr>"

section \<open>One attempt\<close>

text \<open>\<open>DispatchContext\<close>, with the fields of \<open>ResponseContext\<close> it is copied into.\<close>

record dispatch_context =
  dc_headers :: headers
  dc_body :: json
  dc_adaptor :: adaptor
  dc_channel :: channel
  dc_current_model :: string
  dc_original_model :: string
  dc_is_stream :: bool
  dc_session_id :: "string option"
  dc_start :: instant
  dc_attempt :: u32
  dc_request_id :: "string option"
  dc_vk_id :: "uuid option"
  dc_reserved_cents :: u64
  dc_cache_key :: cache_key
  dc_cache_key_material :: string
  dc_request_format :: request_format

section \<open>A small gateway\<close>

text \<open>One channel, one key with a budget of a hundred cents, no Redis, no other traffic: the state the
  properties are tried on.\<close>

definition demo_libs :: libs where
  "demo_libs = \<lparr>lib_parse = (\<lambda>_. None), lib_print = (\<lambda>_. []), lib_hash = (\<lambda>_. 9), lib_digest = (\<lambda>_. []),
     lib_uuid_print = (\<lambda>_. []), lib_uuid_parse = (\<lambda>_. Some 3), lib_log_print = (\<lambda>_. []), lib_header_ok = (\<lambda>_ _. True),
     lib_alnum = (\<lambda>_. False), lib_keyring = (\<lambda>_ _. None)\<rparr>"

definition demo_moment :: moment where
  "demo_moment = \<lparr>mo_utc = 0, mo_inst = 0, mo_today = ''d'', mo_month = ''m'',
     mo_redis = \<lparr>re_prefix = [], re_link = (\<lambda>_. Unreachable), re_uuid = (\<lambda>_. []), re_now = 0\<rparr>, mo_fresh = 0\<rparr>"

definition demo_params :: proxy_params where
  "demo_params = \<lparr>pp_request_timeout_secs = None, pp_stream_keepalive_secs = None, pp_stream_ttft_timeout_secs = None,
     pp_max_retries = 3, pp_model_fallbacks = [], pp_context_window_fallbacks = [], pp_model_aliases = [],
     pp_retry_base_ms = 100, pp_retry_max_ms = 1000, pp_model_retry_overrides = [],
     pp_nonstream_keepalive_interval_secs = 0, pp_passthrough_headers = [], pp_stream_bootstrap_retries = 0,
     pp_model_groups = [], pp_model_pricing = [], pp_completion_ratios = []\<rparr>"

definition demo_state :: app_state where
  "demo_state = \<lparr>as_manager = manager_new [example_channel 1] 5 False, as_logger = logger_new 10,
     as_registry = \<lparr>mr_models = [], mr_refresh_times = []\<rparr>, as_gateway = demo_params, as_affinity = affinity_new 60,
     as_active = [], as_latency = [], as_cooldown = cooldown_new, as_cache = cache_new 60 10 CacheOn,
     as_in_flight = if_new, as_payload_rules = [], as_rate_limiter = rl_new None False 0, as_quota = [],
     as_keys = example_store, as_provider_budgets = pb_new, as_key_limiter = kl_new False,
     as_guardrails = \<lparr>gr_enabled = False, gr_blocked_patterns = [], gr_allowed_patterns = [], gr_max_request_chars = 0, gr_block_message = []\<rparr>,
     as_strategy = WeightedRandom, as_redis = []\<rparr>"

definition demo_body :: json where
  "demo_body = JObj [(''model'', JStr ''m''), (''messages'', JArr [text_message ''user'' ''hi''])]"

definition demo_request :: client_request where
  "demo_request = \<lparr>cl_headers = [(''x-virtual-key-id'', ''3'')], cl_body = demo_body\<rparr>"

definition demo_context :: dispatch_context where
  "demo_context = \<lparr>dc_headers = [], dc_body = demo_body, dc_adaptor = OpenAIAdaptor, dc_channel = example_channel 1,
     dc_current_model = ''m'', dc_original_model = ''m'', dc_is_stream = False, dc_session_id = None, dc_start = 0,
     dc_attempt = 1, dc_request_id = None, dc_vk_id = Some 3, dc_reserved_cents = 5, dc_cache_key = 9,
     dc_cache_key_material = [], dc_request_format = OpenAIChat\<rparr>"

end
