(* ===== verification/Response.thy ===== *)
theory Response
  imports Gateway_State
begin

text \<open>
  \<open>proxy/response.rs\<close>: what happens after an upstream answered with success. The JSON handler translates,
  scans and caches the answer and settles the accounts in a background task; the streaming handler forwards
  the stream and settles from the buffered output when the stream has ended, or after a minute. A background
  task is a function on the state, run at a later moment.
\<close>

type_synonym background = "app_state \<Rightarrow> app_state"

text \<open>What an upstream sent: for a stream also its events, how many sends to the client succeed, how many
  events had been handled when the accounting task woke up, and the keepalive ticks before a JSON body was
  complete.\<close>

record upstream_reply =
  ur_status :: nat
  ur_headers :: headers
  ur_body :: string
  ur_events :: "upstream_event list"
  ur_sends :: "nat option"
  ur_seen :: nat
  ur_ticks :: nat

section \<open>Headers\<close>

definition extract_passthrough_headers :: "headers \<Rightarrow> string list \<Rightarrow> headers" where
  "extract_passthrough_headers hs names =
     List.map_filter (\<lambda>n. map_option (Pair n) (request_header hs (to_lowercase n))) names"

definition inject_passthrough_headers :: "libs \<Rightarrow> headers \<Rightarrow> http_response \<Rightarrow> http_response" where
  "inject_passthrough_headers L hs resp =
     resp\<lparr>rs_headers := rs_headers resp
       @ map (\<lambda>(n, v). (to_lowercase n, v)) (filter (\<lambda>(n, v). lib_header_ok L n v) hs)\<rparr>"

definition set_header :: "libs \<Rightarrow> string \<Rightarrow> string \<Rightarrow> http_response \<Rightarrow> http_response" where
  "set_header L n v resp =
     (if lib_header_ok L n v
      then resp\<lparr>rs_headers := filter (\<lambda>(m, _). m \<noteq> n) (rs_headers resp) @ [(n, v)]\<rparr> else resp)"

definition trigger_reason :: "dispatch_context \<Rightarrow> string option" where
  "trigger_reason ctx = (if dc_current_model ctx \<noteq> dc_original_model ctx then Some ''model_fallback'' else None)"

definition fallback_headers :: "libs \<Rightarrow> dispatch_context \<Rightarrow> http_response \<Rightarrow> http_response" where
  "fallback_headers L ctx resp =
     (if trigger_reason ctx = Some ''model_fallback''
      then set_header L ''x-modelswitch-original-model'' (dc_original_model ctx)
             (set_header L ''x-modelswitch-fallback-model'' (dc_current_model ctx) resp)
      else resp)"

section \<open>Accounting\<close>

record telemetry_record =
  tr_channel_id :: uuid
  tr_provider_name :: string
  tr_model :: string
  tr_usage :: token_usage
  tr_cost :: "f64 option"
  tr_vk_id :: "uuid option"
  tr_reserved_cents :: u64

definition usage_tokens :: "token_usage \<Rightarrow> u64" where
  "usage_tokens u = count_or_0 (tu_input u) + count_or_0 (tu_output u)"

definition charge_key :: "moment \<Rightarrow> telemetry_record \<Rightarrow> uuid \<Rightarrow> app_state \<Rightarrow> app_state" where
  "charge_key t rec vk st =
     (let cents = cost_cents (tr_cost rec);
          keys = (if 0 < tr_reserved_cents rec
                  then reconcile_spend (as_keys st) vk (tr_reserved_cents rec) cents
                  else accumulate_spend (as_keys st) (mo_today t) (mo_month t) vk cents);
          (srv, lim) = kl_record_tokens (mo_redis t) (as_redis st) (as_key_limiter st) (mo_inst t) vk
                         (usage_tokens (tr_usage rec))
      in st\<lparr>as_keys := keys, as_redis := srv, as_key_limiter := lim\<rparr>)"

definition record_post_response_telemetry :: "moment \<Rightarrow> telemetry_record \<Rightarrow> app_state \<Rightarrow> app_state" where
  "record_post_response_telemetry t rec st =
     (let st = st\<lparr>as_quota := accumulate_usage (as_quota st) (mo_utc t) (tr_channel_id rec) (tr_usage rec) (tr_cost rec)\<rparr>;
          st = (case tr_vk_id rec of Some vk \<Rightarrow> charge_key t rec vk st | None \<Rightarrow> st)
      in st\<lparr>as_provider_budgets := accumulate_provider_spend (as_provider_budgets st) (mo_today t) (mo_month t)
             (tr_provider_name rec) (cost_cents (tr_cost rec))\<rparr>)"

definition record_cache_entry :: "instant \<Rightarrow> cache_key \<Rightarrow> string \<Rightarrow> string \<Rightarrow> app_state \<Rightarrow> app_state" where
  "record_cache_entry now key material body st =
     st\<lparr>as_cache := cache_insert (as_cache st) now key material body,
        as_in_flight := complete (as_in_flight st) key\<rparr>"

definition completion_ratio :: "app_state \<Rightarrow> string \<Rightarrow> f64" where
  "completion_ratio st model =
     (case hm_get (pp_completion_ratios (as_gateway st)) model of Some r \<Rightarrow> r | None \<Rightarrow> 1)"

definition token_cost :: "app_state \<Rightarrow> dispatch_context \<Rightarrow> u64 \<Rightarrow> u64 \<Rightarrow> f64 option" where
  "token_cost st ctx input output =
     compute_token_cost (hm_get (pp_model_pricing (as_gateway st)) (dc_current_model ctx))
       (rates_from_channel (dc_channel ctx)) (completion_ratio st (dc_current_model ctx)) input output"

definition telemetry_of :: "dispatch_context \<Rightarrow> token_usage \<Rightarrow> f64 option \<Rightarrow> telemetry_record" where
  "telemetry_of ctx usage cost =
     \<lparr>tr_channel_id = ch_id (dc_channel ctx), tr_provider_name = provider_as_str (ch_provider (dc_channel ctx)),
      tr_model = dc_current_model ctx, tr_usage = usage, tr_cost = cost, tr_vk_id = dc_vk_id ctx,
      tr_reserved_cents = dc_reserved_cents ctx\<rparr>"

definition success_log :: "libs \<Rightarrow> dispatch_context \<Rightarrow> moment \<Rightarrow> token_usage \<Rightarrow> f64 option \<Rightarrow> dispatch_log" where
  "success_log L ctx t usage cost =
     make_log t \<lparr>li_model = dc_current_model ctx, li_channel_id = ch_id (dc_channel ctx),
       li_channel_name = ch_name (dc_channel ctx), li_channel_priority = ch_priority (dc_channel ctx),
       li_retry_count = dc_attempt ctx, li_reason = trigger_reason ctx, li_latency_ms = elapsed_ms (dc_start ctx) t,
       li_success = True, li_estimated_cost = cost, li_usage = usage, li_request_id = dc_request_id ctx,
       li_virtual_key_id = map_option (lib_uuid_print L) (dc_vk_id ctx)\<rparr>"

definition release_active :: "uuid \<Rightarrow> app_state \<Rightarrow> app_state" where
  "release_active i st = st\<lparr>as_active := ar_decrement (as_active st) i\<rparr>"

section \<open>JSON answers\<close>

definition apply_provider_response_transform :: "libs \<Rightarrow> adaptor \<Rightarrow> int \<Rightarrow> string \<Rightarrow> string \<Rightarrow> string" where
  "apply_provider_response_transform L a created body upstream_model =
     (if needs_response_transform a then
        (case lib_parse L (opt_text (from_utf8 body)) of
           Some v \<Rightarrow> lib_print L (transform_response a created v upstream_model)
         | None \<Rightarrow> body)
      else body)"

definition translate_json_body ::
  "libs \<Rightarrow> string \<Rightarrow> int \<Rightarrow> request_format \<Rightarrow> request_format \<Rightarrow> string \<Rightarrow> string \<Rightarrow> string" where
  "translate_json_body L fresh created upstream_format request_format model body =
     (if request_format \<noteq> upstream_format then
        (case lib_parse L (opt_text (from_utf8 body)) of
           Some v \<Rightarrow> lib_print L (translate_response (lib_parse L) (lib_print L) fresh created v upstream_format request_format model)
         | None \<Rightarrow> body)
      else body)"

definition created_of :: "moment \<Rightarrow> int" where
  "created_of t = mo_utc t div 1000000000"

text \<open>The bytes returned to the client.\<close>

definition json_answer :: "libs \<Rightarrow> moment \<Rightarrow> dispatch_context \<Rightarrow> string \<Rightarrow> string \<Rightarrow> string" where
  "json_answer L t ctx upstream_model body =
     translate_json_body L (lib_uuid_print L (mo_fresh t)) (created_of t)
       (provider_request_format (dc_adaptor ctx)) (dc_request_format ctx) upstream_model
       (apply_provider_response_transform L (dc_adaptor ctx) (created_of t) body upstream_model)"

definition response_blocked :: "libs \<Rightarrow> app_state \<Rightarrow> string \<Rightarrow> bool" where
  "response_blocked L st response_str =
     (case lib_parse L response_str of
        Some v \<Rightarrow> (case check_response (as_guardrails st) v of Block _ \<Rightarrow> True | Allow \<Rightarrow> False)
      | None \<Rightarrow> False)"

text \<open>The usage that is charged: the upstream's, or the estimate of the request when it reports none.\<close>

definition json_cost :: "libs \<Rightarrow> app_state \<Rightarrow> dispatch_context \<Rightarrow> token_usage \<Rightarrow> f64 option" where
  "json_cost L st ctx usage =
     (if tu_input usage = None \<and> tu_output usage = None then
        let est = estimate_tokens (lib_print L) (dc_body ctx) in token_cost st ctx (est div 2) (est div 2)
      else token_cost st ctx (count_or_0 (tu_input usage)) (count_or_0 (tu_output usage)))"

definition json_background :: "libs \<Rightarrow> dispatch_context \<Rightarrow> token_usage \<Rightarrow> f64 option \<Rightarrow> moment \<Rightarrow> background" where
  "json_background L ctx usage cost t st =
     (let i = ch_id (dc_channel ctx); ms = elapsed_ms (dc_start ctx) t;
          st = record_post_response_telemetry t (telemetry_of ctx usage cost) st;
          st = write_log L (success_log L ctx t usage cost) st
      in st\<lparr>as_manager := manager_record_latency (as_manager st) (mo_utc t) i ms,
            as_latency := record_with_tokens (as_latency st) i ms (tu_output usage)\<rparr>)"

text \<open>
  \<open>race_response_with_keepalive\<close>: every tick of the timer before the body is complete puts a newline into a
  channel of sixteen places whose receiver is read only after the function has returned. The send of the
  seventeenth newline waits for a free place and the body is not polled meanwhile: the function does not
  return, which is the value \<open>None\<close>.
\<close>

definition KEEPALIVE_SLOTS :: nat where "KEEPALIVE_SLOTS = 16"

fun send_ticks :: "stream_item list \<Rightarrow> nat \<Rightarrow> stream_item list option" where
  "send_ticks queue 0 = Some queue"
| "send_ticks queue (Suc n) =
     (if length queue < KEEPALIVE_SLOTS then send_ticks (queue @ [Data newline]) n else None)"

definition race_response_with_keepalive :: "u64 \<Rightarrow> upstream_reply \<Rightarrow> stream_item list option option" where
  "race_response_with_keepalive keepalive_secs reply =
     (if 0 < keepalive_secs then map_option Some (send_ticks [] (ur_ticks reply)) else Some None)"

definition keepalive_body :: "stream_item list option \<Rightarrow> string \<Rightarrow> response_body" where
  "keepalive_body sent bytes =
     (case sent of Some queue \<Rightarrow> Streamed (queue @ [Data bytes]) | None \<Rightarrow> Full bytes)"

text \<open>\<open>None\<close>: the handler waits for ever for a place in the keepalive channel.\<close>

definition handle_json_success ::
  "libs \<Rightarrow> moment \<Rightarrow> moment \<Rightarrow> dispatch_context \<Rightarrow> string \<Rightarrow> headers \<Rightarrow> upstream_reply \<Rightarrow> app_state
     \<Rightarrow> (app_state \<times> http_response \<times> background) option" where
  "handle_json_success L t t_bg ctx upstream_model passthrough reply st =
     (case race_response_with_keepalive (pp_nonstream_keepalive_interval_secs (as_gateway st)) reply of
        None \<Rightarrow> None
      | Some sent \<Rightarrow>
          let bytes = json_answer L t ctx upstream_model (ur_body reply);
              response_str = opt_text (from_utf8 bytes);
              release = release_active (ch_id (dc_channel ctx))
          in if response_blocked L st response_str then
               Some (release st, error_response (lib_print L) 403 ''Response blocked by content policy'' ''content_blocked''
                 ''guardrails_response_blocked'', \<lambda>st. st)
             else
               let usage = extract_usage (lib_parse L) response_str; cost = json_cost L st ctx usage;
                   st = record_cache_entry (mo_inst t) (dc_cache_key ctx) (dc_cache_key_material ctx) response_str st
               in Some (release st,
                   fallback_headers L ctx (inject_passthrough_headers L passthrough
                     \<lparr>rs_status = 200, rs_headers = [(''content-type'', ''application/json'')],
                      rs_body = keepalive_body sent bytes\<rparr>),
                   json_background L ctx usage cost t_bg))"

section \<open>Streams\<close>

text \<open>\<open>str::lines\<close> on the buffered output: the data lines, without the end marker.\<close>

definition data_lines :: "string \<Rightarrow> string list" where
  "data_lines output =
     List.map_filter (\<lambda>line. let t = trim line in
       if starts_with t ''data: '' \<and> drop 6 t \<noteq> [] \<and> drop 6 t \<noteq> ''[DONE]'' then Some (drop 6 t) else None)
       (split_on (CHR 0x0A) output)"

text \<open>The prices are those of the gateway when the task is spawned: \<open>price\<close> maps token counts to a cost.\<close>

definition stream_background ::
  "libs \<Rightarrow> dispatch_context \<Rightarrow> (u64 \<Rightarrow> u64 \<Rightarrow> f64 option) \<Rightarrow> uuid \<Rightarrow> string \<Rightarrow> moment \<Rightarrow> background" where
  "stream_background L ctx price log_id buffer t st =
     (let output = from_utf8_lossy buffer;
          st = (if output \<noteq> [] then record_cache_entry (mo_inst t) (dc_cache_key ctx) (dc_cache_key_material ctx) output st
                else st);
          usage = extract_usage_from_stream (lib_parse L) (data_lines output);
          st = (if data_lines output = [] \<or> tu_input usage = None \<and> tu_output usage = None then st
                else
                  let cost = price (count_or_0 (tu_input usage)) (count_or_0 (tu_output usage));
                      st = (case (tu_input usage, tu_output usage) of
                              (Some it, Some ot) \<Rightarrow>
                                st\<lparr>as_logger := update_log_tokens (as_logger st) log_id it ot (tu_cache_hit usage)
                                       (tu_cache_miss usage) cost\<rparr>
                            | _ \<Rightarrow> st)
                  in record_post_response_telemetry t (telemetry_of ctx usage cost) st)
      in release_active (ch_id (dc_channel ctx)) st)"

definition with_keepalive :: "app_state \<Rightarrow> (stream_item list \<Rightarrow> keepalive_event list) \<Rightarrow> stream_item list \<Rightarrow> stream_item list" where
  "with_keepalive st timing items =
     (case pp_stream_keepalive_secs (as_gateway st) of
        Some secs \<Rightarrow> if 0 < secs then keepalive_stream False (timing items) else items
      | None \<Rightarrow> items)"

definition handle_streaming_success ::
  "libs \<Rightarrow> moment \<Rightarrow> moment \<Rightarrow> (stream_item list \<Rightarrow> keepalive_event list) \<Rightarrow> dispatch_context \<Rightarrow> string \<Rightarrow> headers
     \<Rightarrow> (request_format \<times> request_format) option \<Rightarrow> upstream_reply \<Rightarrow> app_state
     \<Rightarrow> app_state \<times> http_response \<times> background" where
  "handle_streaming_success L t t_bg timing ctx upstream_model passthrough translation reply st =
     (let rewrite = sse_rewrite (lib_parse L) (lib_print L) (lib_uuid_print L (mo_fresh t)) (created_of t)
            (is_gemini_stream (dc_adaptor ctx)) upstream_model translation;
          (items, _) = forward rewrite (ur_sends reply) [] (ur_events reply);
          (_, buffer) = forward rewrite (ur_sends reply) [] (take (ur_seen reply) (ur_events reply));
          est = estimate_tokens (lib_print L) (dc_body ctx);
          entry = success_log L ctx t no_usage (token_cost st ctx (est div 2) (est div 2));
          i = ch_id (dc_channel ctx); ms = elapsed_ms (dc_start ctx) t;
          st = write_log L entry st;
          st = st\<lparr>as_manager := manager_record_latency (as_manager st) (mo_utc t) i ms,
                  as_latency := lt_record (as_latency st) i ms\<rparr>
      in (st, fallback_headers L ctx (inject_passthrough_headers L passthrough
                (sse_stream_response (with_keepalive st timing items))),
          stream_background L ctx (token_cost st ctx) (dl_id entry) buffer t_bg))"

section \<open>The keepalive channel\<close>

lemma send_ticks_exact:
  "length queue \<le> KEEPALIVE_SLOTS \<Longrightarrow> send_ticks queue n =
     (if length queue + n \<le> KEEPALIVE_SLOTS then Some (queue @ replicate n (Data newline)) else None)"
proof (induction n arbitrary: queue)
  case (Suc n)
  then show ?case by (simp add: replicate_app_Cons_same)
qed simp

lemma race_hangs_iff:
  "race_response_with_keepalive secs reply = None \<longleftrightarrow> 0 < secs \<and> KEEPALIVE_SLOTS < ur_ticks reply"
  by (auto simp: race_response_with_keepalive_def send_ticks_exact KEEPALIVE_SLOTS_def)

lemma json_success_hangs_iff:
  "handle_json_success L t t' ctx um ps reply st = None \<longleftrightarrow>
     0 < pp_nonstream_keepalive_interval_secs (as_gateway st) \<and> KEEPALIVE_SLOTS < ur_ticks reply"
  by (auto simp: handle_json_success_def Let_def race_hangs_iff[symmetric] split: option.splits)

end
