(* ===== verification/Attempt.thy ===== *)
theory Attempt
  imports Response
begin

text \<open>
  \<open>proxy/attempt.rs\<close>: one attempt to serve a request through one channel. Body preparation, rate limit,
  credential, translation, capability guards, sending, the treatment of error statuses and the hand-over to
  the response handlers, in the order of the code, with every early return. The outside world of an attempt
  is the record \<open>attempt_env\<close>; the upstream is a function of the request it receives.
\<close>

record upstream_request =
  uq_url :: string
  uq_headers :: headers
  uq_body :: json

datatype upstream_outcome = SendError | SendTimeout | Answered upstream_reply

record attempt_env =
  ae_before :: moment
  ae_after :: moment
  ae_background :: moment
  ae_draw :: nat
  ae_proxy_ok :: bool
  ae_json_headers :: "string \<Rightarrow> headers"
  ae_upstream :: "upstream_request \<Rightarrow> upstream_outcome"
  ae_timing :: "stream_item list \<Rightarrow> keepalive_event list"

text \<open>A panic unwinds the task of the request. \<open>Hung\<close>: the attempt waits for ever, until the client gives up and
  the server drops the request, which releases what the attempt holds.\<close>

datatype attempt_outcome = Respond http_response background | Retry | ContextOverflow | Panicked | Hung

section \<open>Failures\<close>

definition failure_log :: "libs \<Rightarrow> dispatch_context \<Rightarrow> moment \<Rightarrow> failure_reason \<Rightarrow> dispatch_log" where
  "failure_log L ctx t reason =
     make_log t \<lparr>li_model = dc_current_model ctx, li_channel_id = ch_id (dc_channel ctx),
       li_channel_name = ch_name (dc_channel ctx), li_channel_priority = ch_priority (dc_channel ctx),
       li_retry_count = dc_attempt ctx, li_reason = Some (log_str reason), li_latency_ms = elapsed_ms (dc_start ctx) t,
       li_success = False, li_estimated_cost = None, li_usage = no_usage, li_request_id = dc_request_id ctx,
       li_virtual_key_id = map_option (lib_uuid_print L) (dc_vk_id ctx)\<rparr>"

definition log_attempt_failure :: "libs \<Rightarrow> dispatch_context \<Rightarrow> moment \<Rightarrow> failure_reason \<Rightarrow> app_state \<Rightarrow> app_state" where
  "log_attempt_failure L ctx t reason st = write_log L (failure_log L ctx t reason) st"

definition open_circuit :: "dispatch_context \<Rightarrow> moment \<Rightarrow> app_state \<Rightarrow> app_state" where
  "open_circuit ctx t st =
     st\<lparr>as_manager := manager_mark_circuit_open (as_manager st) (mo_utc t) (ch_id (dc_channel ctx))\<rparr>"

definition note_attempt :: "dispatch_context \<Rightarrow> moment \<Rightarrow> bool \<Rightarrow> app_state \<Rightarrow> app_state" where
  "note_attempt ctx t success st =
     st\<lparr>as_cooldown := record_attempt (as_cooldown st) (mo_inst t) (ch_id (dc_channel ctx)) success\<rparr>"

definition fail_and_retry :: "libs \<Rightarrow> dispatch_context \<Rightarrow> moment \<Rightarrow> failure_reason \<Rightarrow> app_state \<Rightarrow> app_state" where
  "fail_and_retry L ctx t reason st =
     log_attempt_failure L ctx t reason (note_attempt ctx t False (open_circuit ctx t st))"

section \<open>The upstream request\<close>

definition prepare_upstream_body :: "json \<Rightarrow> channel \<Rightarrow> string \<Rightarrow> rules_registry \<Rightarrow> string \<times> json" where
  "prepare_upstream_body body ch current_model rules =
     (let upstream_model = map_model ch current_model;
          has = has_rules rules (ch_id ch);
          body_model = (case json_get_str body ''model'' of Some m \<Rightarrow> m | None \<Rightarrow> current_model);
          body' = (if upstream_model \<noteq> body_model
                   then (case body of JObj m \<Rightarrow> JObj (hm_insert ''model'' (JStr upstream_model) m) | _ \<Rightarrow> body) else body);
          body'' = (if has then apply_for_model rules (ch_id ch) body' current_model (provider_as_str (ch_provider ch))
                    else body')
      in (upstream_model, body''))"

definition inject_include_usage :: "json \<Rightarrow> json" where
  "inject_include_usage body =
     (let wanted = (case Option.bind (json_get body ''stream_options'') json_as_object of
                      Some so \<Rightarrow> \<not> hm_contains so ''include_usage'' | None \<Rightarrow> True)
      in if \<not> wanted then body
         else case body of
                JObj m \<Rightarrow>
                  JObj (hm_insert ''stream_options''
                    (case Option.bind (hm_get m ''stream_options'') json_as_object of
                       Some so \<Rightarrow> JObj (hm_insert ''include_usage'' (JBool True) so)
                     | None \<Rightarrow> JObj [(''include_usage'', JBool True)]) m)
              | _ \<Rightarrow> body)"

text \<open>The capability guards of the model registry.\<close>

definition strip_unsupported :: "model_capabilities \<Rightarrow> json \<Rightarrow> json" where
  "strip_unsupported caps body =
     (let body = (if supports_thinking caps then body else remove_thinking_fields body)
      in if supports_tools caps then body else json_remove ''tool_choice'' (json_remove ''tools'' body))"

definition check_pre_flight_guards ::
  "libs \<Rightarrow> moment \<Rightarrow> dispatch_context \<Rightarrow> json \<Rightarrow> app_state \<Rightarrow> app_state \<times> json option" where
  "check_pre_flight_guards L t ctx body st =
     (let caps = registry_get (as_registry st) (dc_current_model ctx);
          body = strip_unsupported caps body
      in case max_context_tokens caps of
           Some max_context \<Rightarrow>
             if max_context < of_nat (length (lib_print L body) div 4)
             then (log_attempt_failure L ctx t ContextWindow st, None) else (st, Some body)
         | None \<Rightarrow> (st, Some body))"

definition build_upstream_request ::
  "libs \<Rightarrow> attempt_env \<Rightarrow> dispatch_context \<Rightarrow> json \<Rightarrow> string \<Rightarrow> string \<Rightarrow> app_state \<Rightarrow> app_state \<times> upstream_request option" where
  "build_upstream_request L env ctx body upstream_model api_key st =
     (let ch = dc_channel ctx;
          url = build_url (lib_alnum L) (dc_adaptor ctx) (ch_base_url ch) upstream_model (dc_is_stream ctx)
      in if ch_proxy_url ch \<noteq> None \<and> \<not> ae_proxy_ok env then (fail_and_retry L ctx (ae_before env) ConnectionError st, None)
         else (st, Some \<lparr>uq_url = url,
                     uq_headers = upstream_headers (lib_header_ok L) (ae_json_headers env url) (dc_adaptor ctx) ch (dc_headers ctx)
                       api_key (dc_is_stream ctx),
                     uq_body = body\<rparr>))"

section \<open>Sending\<close>

definition acquire_active :: "uuid \<Rightarrow> app_state \<Rightarrow> app_state" where
  "acquire_active i st = st\<lparr>as_active := ar_increment (as_active st) i\<rparr>"

definition record_rate :: "moment \<Rightarrow> uuid \<Rightarrow> u64 \<Rightarrow> app_state \<Rightarrow> app_state" where
  "record_rate t i tokens st =
     (let (srv, lim) = rl_record (mo_redis t) (as_redis st) (as_rate_limiter st) (mo_inst t) i tokens
      in st\<lparr>as_redis := srv, as_rate_limiter := lim\<rparr>)"

definition ttft_limited :: "dispatch_context \<Rightarrow> app_state \<Rightarrow> bool" where
  "ttft_limited ctx st =
     (dc_is_stream ctx \<and> (case pp_stream_ttft_timeout_secs (as_gateway st) of Some s \<Rightarrow> 0 < s | None \<Rightarrow> False))"

text \<open>The guard of the active count is released on the error paths and handed to the handlers otherwise.\<close>

definition send_with_timeout ::
  "libs \<Rightarrow> attempt_env \<Rightarrow> dispatch_context \<Rightarrow> upstream_request \<Rightarrow> u64 \<Rightarrow> app_state \<Rightarrow> app_state \<times> upstream_reply option" where
  "send_with_timeout L env ctx req estimated st =
     (let i = ch_id (dc_channel ctx); t = ae_after env;
          st = record_rate t i estimated (acquire_active i st)
      in case ae_upstream env req of
           Answered reply \<Rightarrow> (st, Some reply)
         | SendTimeout \<Rightarrow>
             (release_active i (fail_and_retry L ctx t (if ttft_limited ctx st then Timeout else ConnectionError) st), None)
         | SendError \<Rightarrow> (release_active i (fail_and_retry L ctx t ConnectionError st), None))"

section \<open>Reading the answer\<close>

definition is_stream_error_chunk :: "string \<Rightarrow> bool" where
  "is_stream_error_chunk chunk \<longleftrightarrow>
     str_contains chunk ''event: error''
     \<or> str_contains chunk ''\"type\":\"error\"'' \<or> str_contains chunk ''\"type\": \"error\"''
     \<or> str_contains chunk ''\"error\"'' \<and> \<not> str_contains chunk ''\"choices\"''"

definition is_context_window_error :: "nat \<Rightarrow> string \<Rightarrow> bool" where
  "is_context_window_error status body \<longleftrightarrow>
     (status = 400 \<or> status = 413)
     \<and> (let b = to_lowercase body in
          str_contains b ''maximum context length'' \<or> str_contains b ''context_length_exceeded''
          \<or> str_contains b ''context length exceeded'' \<or> str_contains b ''reduce the length of the messages''
          \<or> str_contains b ''prompt is too long''
          \<or> str_contains b ''context window'' \<and> (str_contains b ''exceed'' \<or> str_contains b ''limit''))"

definition retry_after :: "upstream_reply \<Rightarrow> u64 option" where
  "retry_after reply =
     map_option of_nat (Option.bind (request_header (ur_headers reply) ''retry-after'') (parse_uint (2 ^ 64 - 1)))"

definition is_success :: "nat \<Rightarrow> bool" where "is_success status \<longleftrightarrow> 200 \<le> status \<and> status < 300"
definition is_server_error :: "nat \<Rightarrow> bool" where "is_server_error status \<longleftrightarrow> 500 \<le> status \<and> status < 600"

definition check_error_status ::
  "libs \<Rightarrow> moment \<Rightarrow> dispatch_context \<Rightarrow> upstream_reply \<Rightarrow> app_state \<Rightarrow> app_state \<times> attempt_outcome option" where
  "check_error_status L t ctx reply st =
     (let status = ur_status reply; i = ch_id (dc_channel ctx); text = from_utf8_lossy (ur_body reply)
      in if status = 429 then
           let m = manager_mark_model_rate_limited (as_manager st) (mo_utc t) i (dc_current_model ctx) (retry_after reply);
               m' = mark_circuit_open_with_retry m (mo_utc t) i (retry_after reply)
           in if mark_open_panics m (mo_utc t) i (retry_after reply) then (st\<lparr>as_manager := m'\<rparr>, Some Panicked)
              else (log_attempt_failure L ctx t RateLimited (note_attempt ctx t False (st\<lparr>as_manager := m'\<rparr>)), Some Retry)
         else if is_server_error status then (fail_and_retry L ctx t ServerError st, Some Retry)
         else if \<not> is_success status then
           if is_context_window_error status text
           then (log_attempt_failure L ctx t ContextWindow st, Some ContextOverflow)
           else (log_attempt_failure L ctx t (ClientError status) st, Some (Respond (json_response status text) (\<lambda>st. st)))
         else (st, None))"

text \<open>Peeking at the first event of a stream: \<open>True\<close> to go on with the stream.\<close>

definition bootstrap_sse_stream ::
  "libs \<Rightarrow> moment \<Rightarrow> dispatch_context \<Rightarrow> u64 \<Rightarrow> upstream_event list \<Rightarrow> app_state \<Rightarrow> app_state \<times> bool" where
  "bootstrap_sse_stream L t ctx estimated events st =
     (case events of
        Chunk b # _ \<Rightarrow>
          if is_stream_error_chunk (from_utf8_lossy b) then (fail_and_retry L ctx t ServerError st, False) else (st, True)
      | ChunkError # _ \<Rightarrow> (log_attempt_failure L ctx t ConnectionError (note_attempt ctx t False st), False)
      | [] \<Rightarrow> (log_attempt_failure L ctx t ServerError (note_attempt ctx t False st), False)
      | Stall # _ \<Rightarrow> (fail_and_retry L ctx t Timeout (record_rate t (ch_id (dc_channel ctx)) estimated st), False))"

definition check_sse_bootstrap ::
  "libs \<Rightarrow> moment \<Rightarrow> dispatch_context \<Rightarrow> u64 \<Rightarrow> upstream_event list \<Rightarrow> app_state \<Rightarrow> app_state \<times> bool" where
  "check_sse_bootstrap L t ctx estimated events st =
     (let retries = pp_stream_bootstrap_retries (as_gateway st)
      in if 0 < retries \<and> dc_attempt ctx \<le> retries then bootstrap_sse_stream L t ctx estimated events st else (st, True))"

section \<open>Success\<close>

text \<open>\<open>quota/collectors/response_header.rs\<close>.\<close>

definition header_u64 :: "headers \<Rightarrow> string \<Rightarrow> u64 option" where
  "header_u64 hs name = map_option of_nat (Option.bind (request_header hs name) (parse_uint (2 ^ 64 - 1)))"

definition extract_quota_headers ::
  "string \<Rightarrow> headers \<Rightarrow> (u64 option \<times> u64 option \<times> u64 option \<times> u64 option) option" where
  "extract_quota_headers prov hs =
     (let q = (if prov = ''anthropic'' then
                 (header_u64 hs ''anthropic-ratelimit-requests-remaining'', header_u64 hs ''anthropic-ratelimit-requests-limit'',
                  header_u64 hs ''anthropic-ratelimit-tokens-remaining'', header_u64 hs ''anthropic-ratelimit-tokens-limit'')
               else
                 (or_else (header_u64 hs ''x-ratelimit-remaining-requests'') (header_u64 hs ''x-ratelimit-remaining''),
                  or_else (header_u64 hs ''x-ratelimit-limit-requests'') (header_u64 hs ''x-ratelimit-limit''),
                  header_u64 hs ''x-ratelimit-remaining-tokens'', header_u64 hs ''x-ratelimit-limit-tokens''))
      in if q = (None, None, None, None) then None else Some q)"

definition record_success_side_effects ::
  "moment \<Rightarrow> dispatch_context \<Rightarrow> upstream_reply \<Rightarrow> app_state \<Rightarrow> app_state \<times> headers" where
  "record_success_side_effects t ctx reply st =
     (let i = ch_id (dc_channel ctx); st = note_attempt ctx t True st;
          st = (case dc_session_id ctx of
                  Some sid \<Rightarrow> st\<lparr>as_affinity := affinity_set (as_affinity st) (mo_inst t) sid i\<rparr> | None \<Rightarrow> st);
          passthrough = extract_passthrough_headers (ur_headers reply) (pp_passthrough_headers (as_gateway st));
          st = (case extract_quota_headers (provider_as_str (ch_provider (dc_channel ctx))) (ur_headers reply) of
                  Some (rr, lr, rt, lt) \<Rightarrow>
                    st\<lparr>as_quota := update_rate_limits (as_quota st) (mo_utc t) i rr lr rt lt\<rparr>
                | None \<Rightarrow> st)
      in (st, passthrough))"

definition handle_success ::
  "libs \<Rightarrow> attempt_env \<Rightarrow> dispatch_context \<Rightarrow> string \<Rightarrow> u64 \<Rightarrow> upstream_reply \<Rightarrow> app_state \<Rightarrow> app_state \<times> attempt_outcome" where
  "handle_success L env ctx upstream_model estimated reply st =
     (let t = ae_after env; (st, passthrough) = record_success_side_effects t ctx reply st;
          upstream_format = provider_request_format (dc_adaptor ctx)
      in if dc_is_stream ctx then
           let translation = (if dc_request_format ctx \<noteq> upstream_format \<and> \<not> is_gemini_stream (dc_adaptor ctx)
                              then Some (dc_request_format ctx, upstream_format) else None);
               (st, proceed) = check_sse_bootstrap L t ctx estimated (ur_events reply) st
           in if \<not> proceed then (release_active (ch_id (dc_channel ctx)) st, Retry)
              else let (st, resp, bg) = handle_streaming_success L t (ae_background env) (ae_timing env) ctx upstream_model
                         passthrough translation reply st
                   in (st, Respond resp bg)
         else
           (case handle_json_success L t (ae_background env) ctx upstream_model passthrough reply st of
              None \<Rightarrow> (release_active (ch_id (dc_channel ctx)) st, Hung)
            | Some (st, resp, bg) \<Rightarrow> (st, Respond resp bg)))"

section \<open>The attempt\<close>

definition send_and_handle ::
  "libs \<Rightarrow> attempt_env \<Rightarrow> dispatch_context \<Rightarrow> json \<Rightarrow> string \<Rightarrow> string \<Rightarrow> u64 \<Rightarrow> app_state \<Rightarrow> app_state \<times> attempt_outcome" where
  "send_and_handle L env ctx body upstream_model api_key estimated st =
     (case build_upstream_request L env ctx body upstream_model api_key st of
        (st, None) \<Rightarrow> (st, Retry)
      | (st, Some req) \<Rightarrow>
          (case send_with_timeout L env ctx req estimated st of
             (st, None) \<Rightarrow> (st, Retry)
           | (st, Some reply) \<Rightarrow>
               (case check_error_status L (ae_after env) ctx reply st of
                  (st, Some outcome) \<Rightarrow> (release_active (ch_id (dc_channel ctx)) st, outcome)
                | (st, None) \<Rightarrow> handle_success L env ctx upstream_model estimated reply st)))"

definition transform_body :: "libs \<Rightarrow> dispatch_context \<Rightarrow> json \<Rightarrow> json option" where
  "transform_body L ctx body =
     (let fmt = provider_request_format (dc_adaptor ctx);
          body = (if dc_request_format ctx \<noteq> fmt
                  then translate_request (lib_parse L) (lib_print L) body (dc_request_format ctx) fmt else body);
          body = transform_request (dc_adaptor ctx) body
      in if json_is_object body then normalize_for_provider body (provider_as_str (ch_provider (dc_channel ctx)))
         else Some body)"

definition try_channel_attempt ::
  "libs \<Rightarrow> attempt_env \<Rightarrow> dispatch_context \<Rightarrow> app_state \<Rightarrow> app_state \<times> attempt_outcome" where
  "try_channel_attempt L env ctx st =
     (let t = ae_before env; i = ch_id (dc_channel ctx);
          (upstream_model, body) = prepare_upstream_body (dc_body ctx) (dc_channel ctx) (dc_current_model ctx) (as_payload_rules st);
          estimated = estimate_tokens (lib_print L) body;
          (srv, lim, allowed, _) = rl_check (mo_redis t) (as_redis st) (as_rate_limiter st) (mo_inst t) i estimated;
          st = st\<lparr>as_redis := srv, as_rate_limiter := lim\<rparr>
      in if \<not> allowed then (log_attempt_failure L ctx t RateLimited st, Retry)
         else
           let body = (if dc_is_stream ctx \<and> inject_stream_usage (dc_adaptor ctx) then inject_include_usage body else body);
               (m, cred) = get_credential (lib_keyring L) (as_manager st) i; st = st\<lparr>as_manager := m\<rparr>
           in case cred of
                CredPanic \<Rightarrow> (st, Panicked)
              | Cred None \<Rightarrow> (fail_and_retry L ctx t NoCredential st, Retry)
              | Cred (Some api_key) \<Rightarrow>
                  (case transform_body L ctx body of
                     None \<Rightarrow> (st, Panicked)
                   | Some body \<Rightarrow>
                       (case check_pre_flight_guards L t ctx body st of
                          (st, None) \<Rightarrow> (st, ContextOverflow)
                        | (st, Some body) \<Rightarrow> send_and_handle L env ctx body upstream_model api_key estimated st)))"

section \<open>What an attempt leaves alone\<close>

text \<open>The accounts: an attempt itself never touches them, only the background task of an answer does. The
  cache and the requests in flight change only when a JSON answer is stored.\<close>

definition accounts :: "app_state \<Rightarrow> key_store \<times> provider_budget_store \<times> proxy_params \<times> key_rate_limiter" where
  "accounts st = (as_keys st, as_provider_budgets st, as_gateway st, as_key_limiter st)"

definition shelf :: "app_state \<Rightarrow> request_cache \<times> in_flight" where
  "shelf st = (as_cache st, as_in_flight st)"

named_theorems frame \<open>state components an operation leaves unchanged\<close>

lemma frame_basic [frame]:
  "accounts (write_log L e st) = accounts st" "shelf (write_log L e st) = shelf st"
  "accounts (note_attempt ctx t b st) = accounts st" "shelf (note_attempt ctx t b st) = shelf st"
  "accounts (open_circuit ctx t st) = accounts st" "shelf (open_circuit ctx t st) = shelf st"
  "accounts (acquire_active i st) = accounts st" "shelf (acquire_active i st) = shelf st"
  "accounts (release_active i st) = accounts st" "shelf (release_active i st) = shelf st"
  "accounts (record_rate t i n st) = accounts st" "shelf (record_rate t i n st) = shelf st"
  "accounts (st\<lparr>as_manager := m\<rparr>) = accounts st" "shelf (st\<lparr>as_manager := m\<rparr>) = shelf st"
  "accounts (st\<lparr>as_affinity := af\<rparr>) = accounts st" "shelf (st\<lparr>as_affinity := af\<rparr>) = shelf st"
  "accounts (st\<lparr>as_quota := qu\<rparr>) = accounts st" "shelf (st\<lparr>as_quota := qu\<rparr>) = shelf st"
  "accounts (st\<lparr>as_latency := la\<rparr>) = accounts st" "shelf (st\<lparr>as_latency := la\<rparr>) = shelf st"
  "accounts (st\<lparr>as_redis := srv, as_rate_limiter := rl\<rparr>) = accounts st"
  "shelf (st\<lparr>as_redis := srv, as_rate_limiter := rl\<rparr>) = shelf st"
  "accounts (st\<lparr>as_in_flight := f\<rparr>) = accounts st"
  by (simp_all add: accounts_def shelf_def write_log_def note_attempt_def open_circuit_def acquire_active_def
      release_active_def record_rate_def Let_def split: prod.splits)

lemma frame_failures [frame]:
  "accounts (log_attempt_failure L ctx t r st) = accounts st" "shelf (log_attempt_failure L ctx t r st) = shelf st"
  "accounts (fail_and_retry L ctx t r st) = accounts st" "shelf (fail_and_retry L ctx t r st) = shelf st"
  by (simp_all add: log_attempt_failure_def fail_and_retry_def frame)

lemma frame_steps:
  "accounts (fst (check_pre_flight_guards L t ctx body st)) = accounts st"
  "shelf (fst (check_pre_flight_guards L t ctx body st)) = shelf st"
  "accounts (fst (build_upstream_request L env ctx body um key st)) = accounts st"
  "shelf (fst (build_upstream_request L env ctx body um key st)) = shelf st"
  "accounts (fst (check_error_status L t ctx reply st)) = accounts st"
  "shelf (fst (check_error_status L t ctx reply st)) = shelf st"
  by (simp_all add: check_pre_flight_guards_def build_upstream_request_def check_error_status_def Let_def frame
      split: option.splits)

lemma frame_send:
  "accounts (fst (send_with_timeout L env ctx req n st)) = accounts st"
  "shelf (fst (send_with_timeout L env ctx req n st)) = shelf st"
  by (simp_all add: send_with_timeout_def Let_def frame split: upstream_outcome.splits)

lemma frame_bootstrap:
  "accounts (fst (check_sse_bootstrap L t ctx n es st)) = accounts st"
  "shelf (fst (check_sse_bootstrap L t ctx n es st)) = shelf st"
  by (simp_all add: check_sse_bootstrap_def bootstrap_sse_stream_def Let_def frame split: list.splits upstream_event.splits)

lemma frame_success:
  "accounts (fst (record_success_side_effects t ctx reply st)) = accounts st"
  "shelf (fst (record_success_side_effects t ctx reply st)) = shelf st"
  by (simp_all add: record_success_side_effects_def Let_def frame split: option.splits)

lemma frame_streaming:
  "accounts (fst (handle_streaming_success L t t' tm ctx um ps tr reply st)) = accounts st"
  "shelf (fst (handle_streaming_success L t t' tm ctx um ps tr reply st)) = shelf st"
  by (simp_all add: handle_streaming_success_def Let_def accounts_def shelf_def write_log_def split: prod.splits)

text \<open>The outcome of an attempt and its effect: no attempt answers with status 429, and an answer with a
  status other than 200 leaves cache and requests in flight as they were and has nothing left to do.\<close>

definition attempt_effect :: "app_state \<Rightarrow> app_state \<Rightarrow> attempt_outcome \<Rightarrow> bool" where
  "attempt_effect st st' out \<longleftrightarrow> accounts st' = accounts st
     \<and> (case out of
          Respond resp bg \<Rightarrow> rs_status resp \<noteq> 429 \<and> (rs_status resp = 200 \<or> shelf st' = shelf st \<and> bg = (\<lambda>st. st))
        | _ \<Rightarrow> shelf st' = shelf st)"

lemma attempt_effectI:
  "accounts st' = accounts st \<Longrightarrow> shelf st' = shelf st \<Longrightarrow> out \<in> {Retry, ContextOverflow, Panicked, Hung}
    \<Longrightarrow> attempt_effect st st' out"
  by (auto simp: attempt_effect_def)

lemma attempt_effect_after:
  "accounts st1 = accounts st \<Longrightarrow> shelf st1 = shelf st \<Longrightarrow> attempt_effect st1 st' out \<Longrightarrow> attempt_effect st st' out"
  by (cases out) (auto simp: attempt_effect_def)

lemma header_status [simp]:
  "rs_status (fallback_headers L ctx resp) = rs_status resp"
  "rs_status (inject_passthrough_headers L hs resp) = rs_status resp"
  by (simp_all add: fallback_headers_def inject_passthrough_headers_def set_header_def)

lemma json_effect:
  "handle_json_success L t t' ctx um ps reply st = Some (st', resp, bg) \<Longrightarrow> attempt_effect st st' (Respond resp bg)"
  by (auto simp: handle_json_success_def attempt_effect_def Let_def accounts_def shelf_def record_cache_entry_def
      release_active_def error_response_def json_response_def split: if_splits option.splits)

lemma streaming_effect:
  assumes "handle_streaming_success L t t' tm ctx um ps tr reply st = (st', resp, bg)"
  shows "attempt_effect st st' (Respond resp bg)"
proof -
  have "rs_status resp = 200"
    using assms by (auto simp: handle_streaming_success_def Let_def sse_stream_response_def split: prod.splits)
  then show ?thesis
    using frame_streaming[of L t t' tm ctx um ps tr reply st] assms by (simp add: attempt_effect_def)
qed

lemma handle_success_effect:
  assumes "handle_success L env ctx um n reply st = (st', out)"
  shows "attempt_effect st st' out"
proof -
  let ?t = "ae_after env"
  obtain st1 ps where r: "record_success_side_effects ?t ctx reply st = (st1, ps)" by fastforce
  have 1: "accounts st1 = accounts st" "shelf st1 = shelf st" using frame_success[of ?t ctx reply st] r by simp_all
  show ?thesis
  proof (cases "dc_is_stream ctx")
    case True
    obtain st2 go where b: "check_sse_bootstrap L ?t ctx n (ur_events reply) st1 = (st2, go)" by fastforce
    have 2: "accounts st2 = accounts st" "shelf st2 = shelf st"
      using frame_bootstrap[of L ?t ctx n "ur_events reply" st1] b 1 by simp_all
    let ?tr = "if dc_request_format ctx \<noteq> provider_request_format (dc_adaptor ctx) \<and> \<not> is_gemini_stream (dc_adaptor ctx)
                then Some (dc_request_format ctx, provider_request_format (dc_adaptor ctx)) else None"
    obtain st3 resp bg where h: "handle_streaming_success L ?t (ae_background env) (ae_timing env) ctx um ps ?tr reply st2 =
        (st3, resp, bg)" by (metis prod_cases3)
    show ?thesis
    proof (cases go)
      case False
      then show ?thesis
        using assms r b 2 True by (auto simp: handle_success_def frame intro!: attempt_effectI)
    next
      case go: True
      have "attempt_effect st2 st' out"
        using assms r b h True go streaming_effect[OF h] by (simp add: handle_success_def)
      then show ?thesis using 2 attempt_effect_after by blast
    qed
  next
    case False
    have "attempt_effect st1 st' out"
    proof (cases "handle_json_success L ?t (ae_background env) ctx um ps reply st1")
      case None
      then show ?thesis using assms r False by (auto simp: handle_success_def frame intro!: attempt_effectI)
    next
      case (Some a)
      obtain st3 resp bg where a: "a = (st3, resp, bg)" by (metis prod_cases3)
      show ?thesis using assms r False Some json_effect[of L ?t "ae_background env" ctx um ps reply st1 st3 resp bg]
        by (simp add: handle_success_def a)
    qed
    then show ?thesis using 1 attempt_effect_after by blast
  qed
qed

lemma error_status_effect:
  assumes "check_error_status L t ctx reply st = (st', Some out)"
  shows "attempt_effect st (release_active i st') out"
proof -
  have fr: "accounts st' = accounts st" "shelf st' = shelf st"
    using frame_steps(5,6)[of L t ctx reply st] assms by simp_all
  have "out = Retry \<or> out = ContextOverflow \<or> out = Panicked \<or> (\<exists>resp. out = Respond resp (\<lambda>st. st) \<and> rs_status resp \<noteq> 429)"
    using assms by (auto simp: check_error_status_def Let_def json_response_def split: if_splits)
  with fr show ?thesis by (auto simp: attempt_effect_def frame)
qed

lemma send_and_handle_effect:
  assumes "send_and_handle L env ctx body um key n st = (st', out)"
  shows "attempt_effect st st' out"
proof -
  obtain st1 rq where b: "build_upstream_request L env ctx body um key st = (st1, rq)" by fastforce
  have 1: "accounts st1 = accounts st" "shelf st1 = shelf st"
    using frame_steps(3,4)[of L env ctx body um key st] b by simp_all
  show ?thesis
  proof (cases rq)
    case None
    with assms b 1 show ?thesis by (auto simp: send_and_handle_def intro!: attempt_effectI)
  next
    case (Some req)
    obtain st2 rp where s: "send_with_timeout L env ctx req n st1 = (st2, rp)" by fastforce
    have 2: "accounts st2 = accounts st" "shelf st2 = shelf st"
      using frame_send[of L env ctx req n st1] s 1 by simp_all
    show ?thesis
    proof (cases rp)
      case None
      with assms b s 2 Some show ?thesis by (auto simp: send_and_handle_def intro!: attempt_effectI)
    next
      case rp: (Some reply)
      obtain st3 oc where c: "check_error_status L (ae_after env) ctx reply st2 = (st3, oc)" by fastforce
      have 3: "accounts st3 = accounts st" "shelf st3 = shelf st"
        using frame_steps(5,6)[of L "ae_after env" ctx reply st2] c 2 by simp_all
      show ?thesis
      proof (cases oc)
        case None
        then have "attempt_effect st3 st' out"
          using assms b s c Some rp handle_success_effect by (simp add: send_and_handle_def)
        then show ?thesis using 3 attempt_effect_after by blast
      next
        case oc: (Some o')
        then have "attempt_effect st2 st' out"
          using assms b s c Some rp error_status_effect[of L "ae_after env" ctx reply st2 st3 o'] by (auto simp: send_and_handle_def)
        then show ?thesis using 2 attempt_effect_after by blast
      qed
    qed
  qed
qed

section \<open>The active count\<close>

abbreviation active_of :: "app_state \<Rightarrow> uuid \<Rightarrow> u32" where
  "active_of st \<equiv> ar_get (as_active st)"

named_theorems active_simps \<open>the active counts after an operation\<close>

lemma active_basic [active_simps]:
  "as_active (write_log L e st) = as_active st"
  "as_active (note_attempt ctx t b st) = as_active st"
  "as_active (open_circuit ctx t st) = as_active st"
  "as_active (record_rate t i n st) = as_active st"
  "as_active (log_attempt_failure L ctx t r st) = as_active st"
  "as_active (fail_and_retry L ctx t r st) = as_active st"
  "as_active (record_cache_entry now key mat body st) = as_active st"
  "as_active (record_post_response_telemetry t rec st) = as_active st"
  by (simp_all add: write_log_def note_attempt_def open_circuit_def record_rate_def log_attempt_failure_def
      fail_and_retry_def record_cache_entry_def record_post_response_telemetry_def charge_key_def Let_def
      split: prod.splits option.splits)

lemma active_guard [active_simps]:
  "active_of (acquire_active i st) = (active_of st)(i := active_of st i + 1)"
  "active_of (release_active i st) = (if 0 < active_of st i then (active_of st)(i := active_of st i - 1) else active_of st)"
  by (auto simp: acquire_active_def release_active_def ar_get_increment ar_get_decrement)

lemma active_steps:
  "as_active (fst (check_pre_flight_guards L t ctx body st)) = as_active st"
  "as_active (fst (build_upstream_request L env ctx body um key st)) = as_active st"
  "as_active (fst (check_error_status L t ctx reply st)) = as_active st"
  "as_active (fst (record_success_side_effects t ctx reply st)) = as_active st"
  by (simp_all add: check_pre_flight_guards_def build_upstream_request_def check_error_status_def
      record_success_side_effects_def Let_def active_simps split: option.splits)

lemma active_bootstrap: "as_active (fst (check_sse_bootstrap L t ctx n es st)) = as_active st"
  by (simp add: check_sse_bootstrap_def bootstrap_sse_stream_def Let_def active_simps
      split: list.splits upstream_event.splits)

lemma active_streaming:
  assumes "handle_streaming_success L t t' tm ctx um ps tr reply st = (st', resp, bg)"
  shows "as_active st' = as_active st" "active_of (bg st') = active_of (release_active (ch_id (dc_channel ctx)) st')"
  using assms
  by (auto simp: handle_streaming_success_def stream_background_def Let_def active_simps write_log_def
      split: prod.splits option.splits)

lemma active_json:
  assumes "handle_json_success L t t' ctx um ps reply st = Some (st', resp, bg)"
  shows "active_of st' = active_of (release_active (ch_id (dc_channel ctx)) st)" "as_active (bg st') = as_active st'"
  using assms
  by (auto simp: handle_json_success_def json_background_def Let_def active_simps write_log_def split: if_splits option.splits)

lemma release_after_acquire:
  assumes "active_of st i \<noteq> - 1" "active_of st' = (active_of st)(i := active_of st i + 1)"
  shows "active_of (release_active i st') = active_of st"
proof -
  have "active_of st i + 1 \<noteq> 0" using assms(1) by (metis eq_neg_iff_add_eq_0)
  then have "0 < active_of st i + 1" by (simp add: word_neq_0_conv)
  then show ?thesis using assms(2) by (simp add: active_simps)
qed

text \<open>Releasing: what an outcome must have done to the counts.\<close>

definition active_settled :: "app_state \<Rightarrow> app_state \<Rightarrow> attempt_outcome \<Rightarrow> bool" where
  "active_settled st st' out \<longleftrightarrow>
     (case out of Respond resp bg \<Rightarrow> active_of (bg st') = active_of st | _ \<Rightarrow> active_of st' = active_of st)"

lemma handle_success_active:
  assumes "handle_success L env ctx um n reply st = (st', out)"
    and "active_of st0 (ch_id (dc_channel ctx)) \<noteq> - 1"
    and "active_of st = (active_of st0)(ch_id (dc_channel ctx) := active_of st0 (ch_id (dc_channel ctx)) + 1)"
  shows "active_settled st0 st' out"
proof -
  let ?t = "ae_after env" and ?i = "ch_id (dc_channel ctx)"
  obtain st1 ps where r: "record_success_side_effects ?t ctx reply st = (st1, ps)" by fastforce
  have 1: "as_active st1 = as_active st" using active_steps(4)[of ?t ctx reply st] r by simp
  note restored = release_after_acquire[OF assms(2)]
  show ?thesis
  proof (cases "dc_is_stream ctx")
    case True
    obtain st2 go where b: "check_sse_bootstrap L ?t ctx n (ur_events reply) st1 = (st2, go)" by fastforce
    have 2: "as_active st2 = as_active st" using active_bootstrap[of L ?t ctx n "ur_events reply" st1] b 1 by simp
    let ?tr = "if dc_request_format ctx \<noteq> provider_request_format (dc_adaptor ctx) \<and> \<not> is_gemini_stream (dc_adaptor ctx)
                then Some (dc_request_format ctx, provider_request_format (dc_adaptor ctx)) else None"
    obtain st3 resp bg where h: "handle_streaming_success L ?t (ae_background env) (ae_timing env) ctx um ps ?tr reply st2 =
        (st3, resp, bg)" by (metis prod_cases3)
    show ?thesis
    proof (cases go)
      case False
      then show ?thesis
        using assms(1) r b True restored[of st2] 2 assms(3) by (auto simp: handle_success_def active_settled_def)
    next
      case go: True
      then have "st' = st3" "out = Respond resp bg" using assms(1) r b h True by (simp_all add: handle_success_def)
      then show ?thesis
        using active_streaming[OF h] restored[of st3] 2 assms(3) by (simp add: active_settled_def)
    qed
  next
    case False
    show ?thesis
    proof (cases "handle_json_success L ?t (ae_background env) ctx um ps reply st1")
      case None
      then show ?thesis
        using assms(1) r False restored[of st1] 1 assms(3) by (auto simp: handle_success_def active_settled_def)
    next
      case (Some a)
      obtain st3 resp bg where a: "a = (st3, resp, bg)" by (metis prod_cases3)
      then have "st' = st3" "out = Respond resp bg" using assms(1) r False Some by (simp_all add: handle_success_def)
      then show ?thesis
        using active_json[OF Some[unfolded a]] restored[of st1] 1 assms(3) by (simp add: active_settled_def)
    qed
  qed
qed

lemma error_status_outcome:
  "check_error_status L t ctx reply st = (st', Some out) \<Longrightarrow>
     out = Retry \<or> out = ContextOverflow \<or> out = Panicked \<or> (\<exists>resp. out = Respond resp (\<lambda>st. st))"
  by (auto simp: check_error_status_def Let_def split: if_splits)

lemma send_and_handle_active:
  assumes "send_and_handle L env ctx body um key n st = (st', out)"
    and "active_of st (ch_id (dc_channel ctx)) \<noteq> - 1"
  shows "active_settled st st' out"
proof -
  let ?i = "ch_id (dc_channel ctx)" and ?t = "ae_after env"
  note restored = release_after_acquire[OF assms(2)]
  obtain st1 rq where b: "build_upstream_request L env ctx body um key st = (st1, rq)" by fastforce
  have 1: "as_active st1 = as_active st" using active_steps(2)[of L env ctx body um key st] b by simp
  show ?thesis
  proof (cases rq)
    case None
    with assms b 1 show ?thesis by (auto simp: send_and_handle_def active_settled_def)
  next
    case (Some req)
    let ?a = "record_rate ?t ?i n (acquire_active ?i st1)"
    have a: "active_of ?a = (active_of st)(?i := active_of st ?i + 1)" using 1 by (simp add: active_simps)
    show ?thesis
    proof (cases "ae_upstream env req")
      case (Answered reply)
      then have s: "send_with_timeout L env ctx req n st1 = (?a, Some reply)" by (simp add: send_with_timeout_def Let_def)
      obtain st3 oc where c: "check_error_status L ?t ctx reply ?a = (st3, oc)" by fastforce
      have 3: "as_active st3 = as_active ?a" using active_steps(3)[of L ?t ctx reply ?a] c by simp
      show ?thesis
      proof (cases oc)
        case None
        then have "handle_success L env ctx um n reply st3 = (st', out)"
          using assms(1) b s c Some by (simp add: send_and_handle_def)
        then show ?thesis using handle_success_active[OF _ assms(2)] 3 a by simp
      next
        case oc: (Some o')
        then have "st' = release_active ?i st3" "out = o'" using assms(1) b s c Some by (simp_all add: send_and_handle_def)
        moreover have "active_of (release_active ?i st3) = active_of st" using restored[of st3] 3 a by simp
        ultimately show ?thesis using error_status_outcome[of L ?t ctx reply ?a st3 o'] c oc by (auto simp: active_settled_def)
      qed
    qed (use assms(1) b Some restored a in \<open>auto simp: send_and_handle_def send_with_timeout_def Let_def active_settled_def active_simps\<close>)
  qed
qed

section \<open>The whole attempt\<close>

text \<open>Either an attempt ends before anything was sent, or it is decided by the sending.\<close>

definition untouched :: "app_state \<Rightarrow> app_state \<Rightarrow> bool" where
  "untouched st st' \<longleftrightarrow> accounts st' = accounts st \<and> shelf st' = shelf st \<and> as_active st' = as_active st"

lemma attempt_split:
  assumes "try_channel_attempt L env ctx st = (st', out)"
  obtains "untouched st st'" "out = Retry \<or> out = ContextOverflow \<or> out = Panicked"
  | st1 body um key n where "untouched st st1" "send_and_handle L env ctx body um key n st1 = (st', out)"
proof -
  let ?t = "ae_before env" and ?i = "ch_id (dc_channel ctx)"
  obtain um body where p: "prepare_upstream_body (dc_body ctx) (dc_channel ctx) (dc_current_model ctx) (as_payload_rules st) = (um, body)"
    by fastforce
  let ?n = "estimate_tokens (lib_print L) body"
  obtain srv lim ok why where c: "rl_check (mo_redis ?t) (as_redis st) (as_rate_limiter st) (mo_inst ?t) ?i ?n = (srv, lim, ok, why)"
    by (metis prod_cases4)
  let ?st1 = "st\<lparr>as_redis := srv, as_rate_limiter := lim\<rparr>"
  obtain m cred where g: "get_credential (lib_keyring L) (as_manager ?st1) ?i = (m, cred)" by fastforce
  let ?st2 = "?st1\<lparr>as_manager := m\<rparr>"
  let ?body = "if dc_is_stream ctx \<and> inject_stream_usage (dc_adaptor ctx) then inject_include_usage body else body"
  have fr: "untouched st ?st1" "untouched st ?st2" by (simp_all add: untouched_def accounts_def shelf_def)
  have logged: "untouched st (log_attempt_failure L ctx t r s)" "untouched st (fail_and_retry L ctx t r s)"
    if "untouched st s" for t r s
    using that by (simp_all add: untouched_def frame active_simps)
  consider "\<not> ok" | "ok" "cred = CredPanic" | "ok" "cred = Cred None"
    | key where "ok" "cred = Cred (Some key)" "transform_body L ctx ?body = None"
    | key b' where "ok" "cred = Cred (Some key)" "transform_body L ctx ?body = Some b'"
    by (metis credential_result.exhaust option.exhaust)
  then show ?thesis
  proof cases
    case 1
    with assms p c that(1) logged(1)[OF fr(1)] show ?thesis by (auto simp: try_channel_attempt_def)
  next
    case 2
    with assms p c g that(1) fr(2) show ?thesis by (simp add: try_channel_attempt_def Let_def)
  next
    case 3
    with assms p c g that(1) logged(2)[OF fr(2)] show ?thesis by (auto simp: try_channel_attempt_def Let_def)
  next
    case (4 key)
    with assms p c g that(1) fr(2) show ?thesis by (simp add: try_channel_attempt_def Let_def)
  next
    case (5 key b')
    obtain st3 r where pf: "check_pre_flight_guards L ?t ctx b' ?st2 = (st3, r)" by fastforce
    have 3: "untouched st st3"
      using frame_steps(1,2)[of L ?t ctx b' ?st2] active_steps(1)[of L ?t ctx b' ?st2] pf fr(2)
      by (simp add: untouched_def)
    then show ?thesis
      using assms p c g 5 pf that by (cases r) (simp_all add: try_channel_attempt_def Let_def)
  qed
qed

lemma try_channel_attempt_effect:
  assumes "try_channel_attempt L env ctx st = (st', out)"
  shows "attempt_effect st st' out"
  using assms
proof (cases rule: attempt_split)
  case 1
  then show ?thesis by (intro attempt_effectI) (auto simp: untouched_def)
next
  case (2 st1 body um key n)
  then show ?thesis using attempt_effect_after send_and_handle_effect by (metis untouched_def)
qed

section \<open>Attempts that hang\<close>

text \<open>The only way: the keepalive of JSON answers is on and the upstream takes more than sixteen ticks to answer.\<close>

definition stuck_in_keepalive :: "attempt_env \<Rightarrow> app_state \<Rightarrow> bool" where
  "stuck_in_keepalive env st \<longleftrightarrow> 0 < pp_nonstream_keepalive_interval_secs (as_gateway st)
     \<and> (\<exists>req reply. ae_upstream env req = Answered reply \<and> KEEPALIVE_SLOTS < ur_ticks reply)"

lemma stuck_accounts: "accounts st' = accounts st \<Longrightarrow> stuck_in_keepalive env st' = stuck_in_keepalive env st"
  by (simp add: stuck_in_keepalive_def accounts_def)

lemma handle_success_hung:
  assumes "handle_success L env ctx um n reply st = (st', Hung)"
  shows "\<not> dc_is_stream ctx \<and> 0 < pp_nonstream_keepalive_interval_secs (as_gateway st) \<and> KEEPALIVE_SLOTS < ur_ticks reply"
proof -
  obtain st1 ps where r: "record_success_side_effects (ae_after env) ctx reply st = (st1, ps)" by fastforce
  then have "as_gateway st1 = as_gateway st"
    using frame_success(1)[of "ae_after env" ctx reply st] by (simp add: accounts_def)
  then show ?thesis
    using assms r json_success_hangs_iff[of L "ae_after env" "ae_background env" ctx um ps reply st1]
    by (auto simp: handle_success_def Let_def split: prod.splits if_splits option.splits)
qed

lemma send_and_handle_hung:
  assumes "send_and_handle L env ctx body um key n st = (st', Hung)"
  shows "\<not> dc_is_stream ctx \<and> stuck_in_keepalive env st"
proof -
  obtain st1 rq where b: "build_upstream_request L env ctx body um key st = (st1, rq)" by fastforce
  then obtain req where rq: "rq = Some req" using assms by (cases rq) (auto simp: send_and_handle_def)
  obtain st2 rp where s: "send_with_timeout L env ctx req n st1 = (st2, rp)" by fastforce
  then obtain reply where rp: "rp = Some reply" using assms b rq by (cases rp) (auto simp: send_and_handle_def)
  obtain st3 oc where c: "check_error_status L (ae_after env) ctx reply st2 = (st3, oc)" by fastforce
  have "oc = None" using assms b s c rq rp error_status_outcome[of L "ae_after env" ctx reply st2 st3]
    by (cases oc) (auto simp: send_and_handle_def)
  then have "handle_success L env ctx um n reply st3 = (st', Hung)" using assms b s c rq rp by (simp add: send_and_handle_def)
  moreover have "accounts st3 = accounts st"
    using frame_steps(3)[of L env ctx body um key st] frame_send(1)[of L env ctx req n st1]
      frame_steps(5)[of L "ae_after env" ctx reply st2] b s c by simp
  moreover have "ae_upstream env req = Answered reply"
    using s rp by (auto simp: send_with_timeout_def Let_def split: upstream_outcome.splits)
  ultimately show ?thesis
    using handle_success_hung[of L env ctx um n reply st3 st'] by (auto simp: stuck_in_keepalive_def accounts_def)
qed

lemma attempt_hung:
  assumes "try_channel_attempt L env ctx st = (st', Hung)"
  shows "\<not> dc_is_stream ctx \<and> stuck_in_keepalive env st'"
proof -
  have same: "accounts st' = accounts st" using try_channel_attempt_effect[OF assms] by (simp add: attempt_effect_def)
  from assms show ?thesis
  proof (cases rule: attempt_split)
    case (2 st1 body um key n)
    then show ?thesis
      using send_and_handle_hung[OF 2(2)] same stuck_accounts[of st' st1 env] by (simp add: untouched_def)
  qed simp
qed

text \<open>A slow upstream hangs the attempt: when more than sixteen ticks pass before the body of a JSON answer is
  complete, the handler waits for a place in the keepalive channel that nobody empties.\<close>

theorem slow_json_answer_hangs:
  assumes "0 < pp_nonstream_keepalive_interval_secs (as_gateway st)" "16 < ur_ticks reply" "\<not> dc_is_stream ctx"
  shows "snd (handle_success L env ctx um n reply st) = Hung"
proof -
  obtain st1 ps where r: "record_success_side_effects (ae_after env) ctx reply st = (st1, ps)" by fastforce
  then have "as_gateway st1 = as_gateway st"
    using frame_success(1)[of "ae_after env" ctx reply st] by (simp add: accounts_def)
  then have "handle_json_success L (ae_after env) (ae_background env) ctx um ps reply st1 = None"
    using assms by (simp add: json_success_hangs_iff KEEPALIVE_SLOTS_def)
  then show ?thesis using assms(3) r by (simp add: handle_success_def)
qed

lemma slow_json_answer_hangs_witness:
  "\<exists>st reply. 0 < pp_nonstream_keepalive_interval_secs (as_gateway st)
     \<and> snd (handle_success demo_libs env demo_context um n reply st) = Hung"
proof -
  let ?st = "demo_state\<lparr>as_gateway := demo_params\<lparr>pp_nonstream_keepalive_interval_secs := 5\<rparr>\<rparr>"
  let ?r = "\<lparr>ur_status = 200, ur_headers = [], ur_body = [], ur_events = [], ur_sends = None, ur_seen = 0, ur_ticks = 17\<rparr>"
  have "\<not> dc_is_stream demo_context" by (simp add: demo_context_def)
  then have "snd (handle_success demo_libs env demo_context um n ?r ?st) = Hung"
    by (intro slow_json_answer_hangs) simp_all
  moreover have "0 < pp_nonstream_keepalive_interval_secs (as_gateway ?st)" by simp
  ultimately show ?thesis by blast
qed

section \<open>Properties\<close>

text \<open>C7: the count of active requests is balanced on every path of an attempt: a failed attempt, an error
  relayed to the client and a panic leave all counts as they were, an attempt that hangs does so once the client
  has given up, and an answer gives its slot back at the
  latest when its background task has run (a stream keeps it while it flows). Hypothesis: the count of the
  channel has not reached its maximum.\<close>

theorem active_requests_balanced:
  assumes "try_channel_attempt L env ctx st = (st', out)"
    and "ar_get (as_active st) (ch_id (dc_channel ctx)) \<noteq> - 1"
  shows "case out of
      Respond resp bg \<Rightarrow> ar_get (as_active (bg st')) = ar_get (as_active st)
    | _ \<Rightarrow> ar_get (as_active st') = ar_get (as_active st)"
  using assms(1)
proof (cases rule: attempt_split)
  case 1
  then show ?thesis by (auto simp: untouched_def)
next
  case (2 st1 body um key n)
  then show ?thesis
    using send_and_handle_active[OF 2(2)] assms(2) by (cases out) (simp_all add: untouched_def active_settled_def)
qed

definition demo_env :: attempt_env where
  "demo_env = \<lparr>ae_before = demo_moment, ae_after = demo_moment, ae_background = demo_moment, ae_draw = 0,
     ae_proxy_ok = True, ae_json_headers = (\<lambda>_. []), ae_upstream = (\<lambda>_. SendError), ae_timing = map Item\<rparr>"

lemma active_requests_balanced_witness:
  "case try_channel_attempt demo_libs demo_env demo_context demo_state of (st', out) \<Rightarrow>
     (case out of
        Respond resp bg \<Rightarrow> ar_get (as_active (bg st')) = ar_get (as_active demo_state)
      | _ \<Rightarrow> ar_get (as_active st') = ar_get (as_active demo_state))"
proof -
  obtain st' out where r: "try_channel_attempt demo_libs demo_env demo_context demo_state = (st', out)"
    by fastforce
  have "ar_get (as_active demo_state) i \<noteq> - 1" for i by (simp add: demo_state_def ar_get_def)
  with active_requests_balanced[OF r] r show ?thesis by simp
qed

end
