(* ===== verification/Dispatch.thy ===== *)
theory Dispatch
  imports Attempt
begin

text \<open>
  \<open>proxy/dispatch.rs\<close>: the life of a request. Admission (content policy, the key's models, its budget), the
  response cache with the coalescing of identical requests, the chain of models, and for every model the loop
  of attempts over channels, bounded by retry counts and a deadline; at the end the refund.

  Other requests run between the awaits of this one: \<open>de_others\<close> says what they do to the state before every
  attempt, \<open>de_wait\<close> what they do while this request waits for an identical one (\<open>None\<close>: it is never woken).
  The sleep between two attempts is part of the time that passes to the next \<open>moment\<close>.
\<close>

record dispatch_env =
  de_start :: moment
  de_wait :: "background option"
  de_woken :: moment
  de_attempts :: "nat \<Rightarrow> attempt_env"
  de_others :: "nat \<Rightarrow> background"
  de_end :: moment

datatype dispatch_result = Answer http_response background | Crash | Hang

section \<open>Choosing models and channels\<close>

definition is_model_allowed_with_groups :: "virtual_key \<Rightarrow> string \<Rightarrow> (string, string list) hashmap \<Rightarrow> bool" where
  "is_model_allowed_with_groups vk model groups \<longleftrightarrow>
     is_model_allowed vk model
     \<or> (case vk_allowed_models vk of
          None \<Rightarrow> False
        | Some allowed \<Rightarrow>
            list_ex (\<lambda>entry. case hm_get groups entry of
              Some members \<Rightarrow> list_ex (\<lambda>gm. matches_glob gm model) members | None \<Rightarrow> False) allowed)"

definition affinity_usable :: "routing_context \<Rightarrow> utc \<Rightarrow> instant \<Rightarrow> string \<Rightarrow> string option \<Rightarrow> channel \<Rightarrow> bool" where
  "affinity_usable ctx now inst model account_group ch \<longleftrightarrow>
     (case account_group of
        Some tag \<Rightarrow> ch_account_group ch = Some tag \<or> ch_account_group ch = None | None \<Rightarrow> True)
     \<and> (ch_model_mapping ch = [] \<or> hm_contains (ch_model_mapping ch) model)
     \<and> is_available ch now \<and> \<not> is_in_cooldown (rc_cooldown_tracker ctx) inst (ch_id ch)"

definition select_channel_for_attempt ::
  "uuid option \<Rightarrow> manager \<Rightarrow> string \<Rightarrow> routing_strategy_type \<Rightarrow> routing_context \<Rightarrow> string option \<Rightarrow> utc \<Rightarrow> instant \<Rightarrow> nat
     \<Rightarrow> channel option" where
  "select_channel_for_attempt affinity_channel m model strategy ctx account_group now inst draw =
     (case Option.bind affinity_channel (\<lambda>i. hm_get (mgr_channels m) i) of
        Some ch \<Rightarrow>
          if affinity_usable ctx now inst model account_group ch then Some (recover_if_expired ch now)
          else select_channel m model strategy ctx account_group now inst draw
      | None \<Rightarrow> select_channel m model strategy ctx account_group now inst draw)"

definition build_fallback_chain ::
  "string \<Rightarrow> bool \<Rightarrow> (string, string list) hashmap \<Rightarrow> (string, string list) hashmap \<Rightarrow> (string, string list) hashmap
     \<Rightarrow> string list" where
  "build_fallback_chain original_model is_group_request groups fallbacks context_fallbacks =
     (let chain = (if is_group_request
                   then (case hm_get groups original_model of Some ms \<Rightarrow> ms | None \<Rightarrow> [original_model])
                   else resolve_fallback_chain original_model fallbacks)
      in case hm_get context_fallbacks original_model of
           Some fbs \<Rightarrow> foldl push_new chain fbs
         | None \<Rightarrow> chain)"

definition no_retry_config :: model_retry_config where
  "no_retry_config = \<lparr>rc_max_retries = None, rc_retry_base_ms = None, rc_retry_max_ms = None\<rparr>"

fun best_wildcard :: "string \<Rightarrow> (string \<times> 'v) option \<Rightarrow> (string \<times> 'v) list \<Rightarrow> (string \<times> 'v) option" where
  "best_wildcard model best [] = best"
| "best_wildcard model best ((key, cfg) # rest) =
     (if ends_with_star key \<and> 1 < length key then
        (if starts_with model (butlast key)
            \<and> (case best of None \<Rightarrow> True | Some (k, _) \<Rightarrow> length k < length key)
         then best_wildcard model (Some (key, cfg)) rest else best_wildcard model best rest)
      else if key = ''*'' \<and> best = None then best_wildcard model (Some (key, cfg)) rest
      else best_wildcard model best rest)"

definition resolve_model_retry_config ::
  "string \<Rightarrow> (string, model_retry_config) hashmap \<Rightarrow> model_retry_config" where
  "resolve_model_retry_config model overrides =
     (case hm_get overrides model of
        Some cfg \<Rightarrow> cfg
      | None \<Rightarrow>
          (case Option.bind (strip_date_suffix model) (hm_get overrides) of
             Some cfg \<Rightarrow> cfg
           | None \<Rightarrow>
               (case best_wildcard model None overrides of Some (_, cfg) \<Rightarrow> cfg | None \<Rightarrow> no_retry_config)))"

definition resolve_model_retry_counts ::
  "string list \<Rightarrow> (string, model_retry_config) hashmap \<Rightarrow> u32 \<Rightarrow> u32 list" where
  "resolve_model_retry_counts chain overrides default_max_retries =
     map (\<lambda>m. case rc_max_retries (resolve_model_retry_config m overrides) of
                Some n \<Rightarrow> n | None \<Rightarrow> default_max_retries) chain"

definition pre_flight_skip_model :: "app_state \<Rightarrow> moment \<Rightarrow> string \<Rightarrow> nat \<Rightarrow> bool" where
  "pre_flight_skip_model st t model body_len \<longleftrightarrow>
     (case max_context_tokens (registry_get (as_registry st) model) of
        Some max_ctx \<Rightarrow> max_ctx < of_nat (body_len div 4) | None \<Rightarrow> False)
     \<or> \<not> list_ex (\<lambda>ch. ch_enabled ch \<and> is_available ch (mo_utc t) \<and> \<not> is_model_excluded ch model
              \<and> (ch_model_mapping ch = [] \<or> hm_contains (ch_model_mapping ch) model)
              \<and> \<not> is_in_cooldown (as_cooldown st) (mo_inst t) (ch_id ch)) (hm_values (mgr_channels (as_manager st)))"

section \<open>The loops\<close>

text \<open>What stays fixed while one request is dispatched.\<close>

record job =
  jb_request :: client_request
  jb_adaptor :: adaptor
  jb_format :: request_format
  jb_original_model :: string
  jb_is_stream :: bool
  jb_request_id :: "string option"
  jb_session_id :: "string option"
  jb_affinity_channel :: "uuid option"
  jb_account_group :: "string option"
  jb_vk_id :: "uuid option"
  jb_reserved_cents :: u64
  jb_start :: instant
  jb_deadline :: instant
  jb_cache_key :: cache_key
  jb_cache_key_material :: string

definition job_context :: "job \<Rightarrow> channel \<Rightarrow> string \<Rightarrow> u32 \<Rightarrow> dispatch_context" where
  "job_context j ch model attempt =
     \<lparr>dc_headers = cl_headers (jb_request j), dc_body = cl_body (jb_request j), dc_adaptor = jb_adaptor j,
      dc_channel = ch, dc_current_model = model, dc_original_model = jb_original_model j,
      dc_is_stream = jb_is_stream j, dc_session_id = jb_session_id j, dc_start = jb_start j, dc_attempt = attempt,
      dc_request_id = jb_request_id j, dc_vk_id = jb_vk_id j, dc_reserved_cents = jb_reserved_cents j,
      dc_cache_key = jb_cache_key j, dc_cache_key_material = jb_cache_key_material j, dc_request_format = jb_format j\<rparr>"

definition routing_context_of :: "app_state \<Rightarrow> routing_context" where
  "routing_context_of st =
     \<lparr>rc_active_requests = as_active st, rc_rate_limiter = as_rate_limiter st, rc_latency_tracker = as_latency st,
      rc_cooldown_tracker = as_cooldown st\<rparr>"

definition deadline_of :: "instant \<Rightarrow> proxy_params \<Rightarrow> instant" where
  "deadline_of start gw =
     start + unat (case pp_request_timeout_secs gw of Some s \<Rightarrow> s | None \<Rightarrow> 120) * 1000000000"

text \<open>One iteration of the loop after its guard: \<open>None\<close> to continue, otherwise leave the loop, with a
  result or (\<open>Some None\<close>) for the next model.\<close>

definition attempt_once ::
  "libs \<Rightarrow> attempt_env \<Rightarrow> job \<Rightarrow> string \<Rightarrow> u32 \<Rightarrow> app_state \<Rightarrow> app_state \<times> dispatch_result option option" where
  "attempt_once L env j model attempt st =
     (let t = ae_before env
      in case select_channel_for_attempt (jb_affinity_channel j) (as_manager st) model (as_strategy st)
                (routing_context_of st) (jb_account_group j) (mo_utc t) (mo_inst t) (ae_draw env) of
           None \<Rightarrow> (st, Some None)
         | Some ch \<Rightarrow>
             if \<not> check_budget (as_provider_budgets st) (mo_today t) (mo_month t) (provider_as_str (ch_provider ch))
             then (st, None)
             else if (case ch_max_retries ch of Some m \<Rightarrow> m < attempt | None \<Rightarrow> False) then (st, None)
             else (case try_channel_attempt L env (job_context j ch model attempt) st of
                     (st, Respond resp bg) \<Rightarrow> (st, Some (Some (Answer resp bg)))
                   | (st, Retry) \<Rightarrow> (st, None)
                   | (st, ContextOverflow) \<Rightarrow> (st, Some None)
                   | (st, Panicked) \<Rightarrow> (st, Some (Some Crash))
                   | (st, Hung) \<Rightarrow> (st, Some (Some Hang))))"

function attempt_loop ::
  "libs \<Rightarrow> dispatch_env \<Rightarrow> job \<Rightarrow> string \<Rightarrow> u32 \<Rightarrow> u32 \<Rightarrow> u32 \<Rightarrow> u32 \<Rightarrow> app_state
     \<Rightarrow> app_state \<times> u32 \<times> dispatch_result option" where
  "attempt_loop L de j model model_max max_total attempt attempts st =
     (if \<not> (attempt < model_max \<and> attempts < max_total) then (st, attempts, None)
      else
        let env = de_attempts de (unat attempts); st = de_others de (unat attempts) st
        in if jb_deadline j < mo_inst (ae_before env) then (st, attempts, None)
           else
             (case attempt_once L env j model (attempt + 1) st of
                (st, None) \<Rightarrow> attempt_loop L de j model model_max max_total (attempt + 1) (attempts + 1) st
              | (st, Some res) \<Rightarrow> (st, attempts + 1, res)))"
  by auto

termination
proof (relation "measure (\<lambda>(_, _, _, _, model_max, _, attempt, _). unat model_max - unat attempt)")
  fix model_max max_total attempt attempts :: u32
  assume "\<not> \<not> (attempt < model_max \<and> attempts < max_total)"
  then have "unat attempt < unat model_max" by (simp add: word_less_nat_alt)
  moreover have "unat model_max < 2 ^ 32" using unsigned_less[of model_max] by simp
  ultimately have "unat (attempt + 1) = unat attempt + 1" by (simp add: unat_word_ariths)
  with \<open>unat attempt < unat model_max\<close> show "((L, de, j, model, model_max, max_total, attempt + 1, attempts + 1, st'),
      (L, de, j, model, model_max, max_total, attempt, attempts, st))
    \<in> measure (\<lambda>(_, _, _, _, model_max, _, attempt, _). unat model_max - unat attempt)" for L de j model st st'
    by simp
qed simp

declare attempt_loop.simps [simp del]

fun model_loop ::
  "libs \<Rightarrow> dispatch_env \<Rightarrow> job \<Rightarrow> nat \<Rightarrow> u32 \<Rightarrow> (string \<times> u32) list \<Rightarrow> u32 \<Rightarrow> app_state
     \<Rightarrow> app_state \<times> u32 \<times> dispatch_result option" where
  "model_loop L de j body_len max_total [] attempts st = (st, attempts, None)"
| "model_loop L de j body_len max_total ((model, retries) # rest) attempts st =
     (if pre_flight_skip_model st (ae_before (de_attempts de (unat attempts))) model body_len
      then model_loop L de j body_len max_total rest attempts st
      else
        (case attempt_loop L de j model retries max_total 0 attempts st of
           (st, attempts, Some res) \<Rightarrow> (st, attempts, Some res)
         | (st, attempts, None) \<Rightarrow> model_loop L de j body_len max_total rest attempts st))"

definition exhausted_log :: "libs \<Rightarrow> job \<Rightarrow> moment \<Rightarrow> u32 \<Rightarrow> dispatch_log" where
  "exhausted_log L j t attempts =
     make_log t \<lparr>li_model = jb_original_model j, li_channel_id = 0, li_channel_name = ''none'', li_channel_priority = 0,
       li_retry_count = attempts, li_reason = Some (log_str AllExhausted), li_latency_ms = elapsed_ms (jb_start j) t,
       li_success = False, li_estimated_cost = None, li_usage = no_usage, li_request_id = jb_request_id j,
       li_virtual_key_id = map_option (lib_uuid_print L) (jb_vk_id j)\<rparr>"

definition log_all_exhausted :: "libs \<Rightarrow> job \<Rightarrow> moment \<Rightarrow> u32 \<Rightarrow> app_state \<Rightarrow> app_state \<times> http_response" where
  "log_all_exhausted L j t attempts st =
     (write_log L (exhausted_log L j t attempts) (st\<lparr>as_in_flight := complete (as_in_flight st) (jb_cache_key j)\<rparr>),
      all_channels_exhausted_response (lib_print L))"

definition refund :: "job \<Rightarrow> app_state \<Rightarrow> app_state" where
  "refund j st =
     (if 0 < jb_reserved_cents j
      then (case jb_vk_id j of
              Some vk \<Rightarrow> st\<lparr>as_keys := reconcile_spend (as_keys st) vk (jb_reserved_cents j) 0\<rparr> | None \<Rightarrow> st)
      else st)"

text \<open>The chain of models of a request, each with its retry count.\<close>

definition job_models :: "app_state \<Rightarrow> job \<Rightarrow> (string \<times> u32) list" where
  "job_models st j =
     (let gw = as_gateway st; original = jb_original_model j;
          chain = build_fallback_chain original (hm_contains (pp_model_groups gw) original) (pp_model_groups gw)
                    (pp_model_fallbacks gw) (pp_context_window_fallbacks gw)
      in zip chain (resolve_model_retry_counts chain (pp_model_retry_overrides gw) (pp_max_retries gw)))"

definition run_job :: "libs \<Rightarrow> dispatch_env \<Rightarrow> job \<Rightarrow> app_state \<Rightarrow> app_state \<times> u32 \<times> dispatch_result" where
  "run_job L de j st =
     (let models = job_models st j; body_len = length (lib_print L (cl_body (jb_request j)))
      in case model_loop L de j body_len (sum_list (map snd models)) models 0 st of
           (st, attempts, Some res) \<Rightarrow> (st, attempts, res)
         | (st, attempts, None) \<Rightarrow>
             (case log_all_exhausted L j (de_end de) attempts (refund j st) of
                (st, resp) \<Rightarrow> (st, attempts, Answer resp (\<lambda>st. st))))"

section \<open>Admission and cache\<close>

datatype cache_check = Hit http_response | Miss | NeverWoken

definition cached_response :: "bool \<Rightarrow> string \<Rightarrow> http_response" where
  "cached_response is_stream cached =
     (if is_stream then sse_stream_response_with_cached cached else json_response 200 cached)"

definition check_request_cache ::
  "dispatch_env \<Rightarrow> cache_key \<Rightarrow> string \<Rightarrow> bool \<Rightarrow> app_state \<Rightarrow> app_state \<times> cache_check" where
  "check_request_cache de key material is_stream st =
     (case cache_get (as_cache st) (mo_inst (de_start de)) key material of
        Some cached \<Rightarrow> (st, Hit (cached_response is_stream cached))
      | None \<Rightarrow>
          (case register (as_in_flight st) key of
             (f, True) \<Rightarrow> (st\<lparr>as_in_flight := f\<rparr>, Miss)
           | (f, False) \<Rightarrow>
               (case de_wait de of
                  None \<Rightarrow> (st\<lparr>as_in_flight := f\<rparr>, NeverWoken)
                | Some others \<Rightarrow>
                    let st = others (st\<lparr>as_in_flight := f\<rparr>)
                    in case cache_get (as_cache st) (mo_inst (de_woken de)) key material of
                         Some cached \<Rightarrow> (st, Hit (cached_response is_stream cached))
                       | None \<Rightarrow> (st\<lparr>as_in_flight := fst (register (as_in_flight st) key)\<rparr>, Miss))))"

definition check_key_models :: "libs \<Rightarrow> app_state \<Rightarrow> uuid option \<Rightarrow> string \<Rightarrow> http_response option" where
  "check_key_models L st vkid model =
     (case Option.bind vkid (ks_get (as_keys st)) of
        None \<Rightarrow> None
      | Some vk \<Rightarrow>
          if \<not> is_model_allowed_with_groups vk model (pp_model_groups (as_gateway st)) then
            Some (error_response (lib_print L) 403 (''Model '' @ [CHR 0x27] @ model @ [CHR 0x27] @ '' is not allowed for this virtual key'')
              ''model_not_allowed'' ''virtual_key_model_not_allowed'')
          else if is_model_denied vk model then
            Some (error_response (lib_print L) 403 (''Model '' @ [CHR 0x27] @ model @ [CHR 0x27] @ '' is denied for this virtual key'')
              ''model_denied'' ''virtual_key_model_denied'')
          else None)"

text \<open>The pre-charge: the reserved cents, or \<open>None\<close> when the budget is exceeded.\<close>

definition pre_charge :: "libs \<Rightarrow> moment \<Rightarrow> uuid option \<Rightarrow> json \<Rightarrow> app_state \<Rightarrow> app_state \<times> u64 option" where
  "pre_charge L t vkid body st =
     (case vkid of
        None \<Rightarrow> (st, Some 0)
      | Some vk \<Rightarrow>
          (case reserve_spend (as_keys st) (mo_today t) (mo_month t) vk
                  (estimated_cost_cents (estimate_tokens (lib_print L) body)) of
             (ks, Exceeded) \<Rightarrow> (st\<lparr>as_keys := ks\<rparr>, None)
           | (ks, NoBudget) \<Rightarrow> (st\<lparr>as_keys := ks\<rparr>, Some 0)
           | (ks, Reserved n) \<Rightarrow> (st\<lparr>as_keys := ks\<rparr>, Some n)))"

definition dispatch ::
  "libs \<Rightarrow> dispatch_env \<Rightarrow> adaptor \<Rightarrow> request_format \<Rightarrow> client_request \<Rightarrow> app_state \<Rightarrow> app_state \<times> dispatch_result" where
  "dispatch L de a fmt req st =
     (let t = de_start de; body = cl_body req; reply = (\<lambda>st resp. (st, Answer resp (\<lambda>st. st)));
          (st, meta) = extract_request_meta L st (mo_inst t) body (cl_headers req) (default_model a);
          model = (case hm_get (pp_model_aliases (as_gateway st)) (rm_original_model meta) of
                     Some m \<Rightarrow> m | None \<Rightarrow> rm_original_model meta);
          vkid = extract_virtual_key_id L (cl_headers req);
          (key, material) = compute_key (lib_hash L) (lib_print L) model body
      in case check_request (as_guardrails st) body of
           Block _ \<Rightarrow> reply st (error_response (lib_print L) 403 ''Request blocked by content policy''
                        ''content_blocked'' ''guardrails_blocked'')
         | Allow \<Rightarrow>
             (case check_key_models L st vkid model of
                Some resp \<Rightarrow> reply st resp
              | None \<Rightarrow>
                  (case pre_charge L t vkid body st of
                     (st, None) \<Rightarrow> reply st (error_response (lib_print L) 402
                        ''Virtual key budget exceeded. Please increase your budget limit or try again later.''
                        ''budget_exceeded'' ''virtual_key_budget_exceeded'')
                   | (st, Some reserved) \<Rightarrow>
                       (case check_request_cache de key material (rm_is_stream meta) st of
                          (st, Hit resp) \<Rightarrow> reply st resp
                        | (st, NeverWoken) \<Rightarrow> (st, Hang)
                        | (st, Miss) \<Rightarrow>
                            (case run_job L de
                                    \<lparr>jb_request = req, jb_adaptor = a, jb_format = fmt, jb_original_model = model,
                                     jb_is_stream = rm_is_stream meta, jb_request_id = rm_request_id meta,
                                     jb_session_id = rm_session_id meta, jb_affinity_channel = rm_affinity_channel meta,
                                     jb_account_group = rm_account_group meta, jb_vk_id = vkid,
                                     jb_reserved_cents = reserved, jb_start = mo_inst t,
                                     jb_deadline = deadline_of (mo_inst t) (as_gateway st), jb_cache_key = key,
                                     jb_cache_key_material = material\<rparr> st of
                               (st, _, res) \<Rightarrow> (st, res))))))"

end
