(* ===== verification/Request_Life.thy ===== *)
theory Request_Life
  imports Dispatch
begin

text \<open>
  The properties of a whole request (\<open>proxy/dispatch.rs\<close> over \<open>attempt.rs\<close> and \<open>response.rs\<close>). The interface
  \<open>attempt_invariant\<close> says which predicate on the state one attempt keeps and which it leaves behind when it panics;
  the same holds of the loops, whatever the other requests do in between as long as they keep the first. It is interpreted on the accounts (an attempt
  never moves money) and on the well-formedness of the gateway state.
\<close>

definition others_keep :: "(app_state \<Rightarrow> bool) \<Rightarrow> dispatch_env \<Rightarrow> bool" where
  "others_keep I de \<longleftrightarrow> (\<forall>n st. I st \<longrightarrow> I (de_others de n st))
     \<and> (\<forall>w st. de_wait de = Some w \<longrightarrow> I st \<longrightarrow> I (w st))"

lemma others_keepD:
  "others_keep I de \<Longrightarrow> I st \<Longrightarrow> I (de_others de n st)"
  "others_keep I de \<Longrightarrow> de_wait de = Some w \<Longrightarrow> I st \<Longrightarrow> I (w st)"
  by (simp_all add: others_keep_def)

lemma unat_Suc_less:
  fixes n m :: u32
  assumes "n < m" shows "unat (n + 1) = unat n + 1"
proof -
  have "unat m < 2 ^ 32" using unsigned_less[of m] by simp
  with assms have "unat n + 1 < 2 ^ 32" by (simp add: word_less_nat_alt)
  then show ?thesis by (simp add: unat_word_ariths)
qed

section \<open>What the loops keep\<close>

locale attempt_invariant =
  fixes I J :: "app_state \<Rightarrow> bool"
  assumes attempt_keeps:
    "try_channel_attempt L env ctx st = (st', out) \<Longrightarrow> I st \<Longrightarrow> if out = Panicked then J st' else I st'"
begin

definition after :: "dispatch_result option \<Rightarrow> app_state \<Rightarrow> bool" where
  "after r st \<longleftrightarrow> (if r = Some Crash then J st else I st)"

lemma after_simps [simp]:
  "after None st = I st" "after (Some (Answer resp bg)) st = I st" "after (Some Hang) st = I st" "after (Some Crash) st = J st"
  by (simp_all add: after_def)

lemma once_keeps:
  assumes "attempt_once L env j model n st = (st', res)" "I st"
  shows "case res of None \<Rightarrow> I st' | Some r \<Rightarrow> after r st'"
  using assms attempt_keeps
  by (auto simp: attempt_once_def Let_def split: option.splits if_splits prod.splits attempt_outcome.splits)

lemma loop_keeps:
  assumes "others_keep I de"
  shows "attempt_loop L de j model mx tot n k st = (st', k', res) \<Longrightarrow> I st \<Longrightarrow> after res st'"
proof (induction "unat mx - unat n" arbitrary: n k st rule: less_induct)
  case less
  let ?env = "de_attempts de (unat k)" and ?st = "de_others de (unat k) st"
  obtain st1 r where once: "attempt_once L ?env j model (n + 1) ?st = (st1, r)" by fastforce
  have keep: "I ?st" using others_keepD(1)[OF assms less.prems(2)] .
  note one = once_keeps[OF once keep]
  show ?case
  proof (cases "n < mx \<and> k < tot \<and> \<not> jb_deadline j < mo_inst (ae_before ?env) \<and> r = None")
    case True
    then have "attempt_loop L de j model mx tot (n + 1) (k + 1) st1 = (st', k', res)"
      using less.prems(1) once by (simp add: attempt_loop.simps[of L de j model mx tot n])
    moreover have "unat mx - unat (n + 1) < unat mx - unat n"
      using True unat_Suc_less[of n mx] by (auto simp: word_less_nat_alt)
    ultimately show ?thesis using less.hyps one True by simp
  next
    case False
    then show ?thesis
      using less.prems once keep one by (cases r) (auto simp: attempt_loop.simps[of L de j model mx tot n] Let_def split: if_splits)
  qed
qed

lemma models_keep:
  assumes "others_keep I de"
  shows "model_loop L de j len tot ms k st = (st', k', res) \<Longrightarrow> I st \<Longrightarrow> after res st'"
proof (induction ms arbitrary: k st)
  case (Cons m ms)
  obtain model retries where m: "m = (model, retries)" by fastforce
  obtain st1 k1 r where loop: "attempt_loop L de j model retries tot 0 k st = (st1, k1, r)" by (metis prod_cases3)
  show ?case using Cons m loop loop_keeps[OF assms loop] by (auto split: if_splits option.splits)
qed simp

end

section \<open>How often an upstream is tried\<close>

lemma loop_attempts:
  assumes "n \<le> mx" "k \<le> tot" "attempt_loop L de j model mx tot n k st = (st', k', res)"
  shows "unat k' + unat n \<le> unat k + unat mx \<and> k' \<le> tot"
  using assms
proof (induction "unat mx - unat n" arbitrary: n k st rule: less_induct)
  case less
  let ?env = "de_attempts de (unat k)" and ?st = "de_others de (unat k) st"
  obtain st1 r where once: "attempt_once L ?env j model (n + 1) ?st = (st1, r)" by fastforce
  show ?case
  proof (cases "n < mx \<and> k < tot")
    case False
    with less.prems show ?thesis by (auto simp: attempt_loop.simps[of L de j model mx tot n] word_le_nat_alt)
  next
    case True
    then have suc: "unat (n + 1) = unat n + 1" "unat (k + 1) = unat k + 1" using unat_Suc_less by auto
    then have le: "n + 1 \<le> mx" "k + 1 \<le> tot" using True by (auto simp: word_le_nat_alt word_less_nat_alt)
    consider (late) "k' = k" | (stop) "k' = k + 1"
      | (again) "attempt_loop L de j model mx tot (n + 1) (k + 1) st1 = (st', k', res)"
      using less.prems(3) once True
      by (cases r) (auto simp: attempt_loop.simps[of L de j model mx tot n] Let_def split: if_splits)
    then show ?thesis
    proof cases
      case again
      then show ?thesis using less.hyps[of "n + 1" "k + 1" st1] le suc by (simp add: word_le_nat_alt)
    qed (use True suc le in \<open>auto simp: word_le_nat_alt word_less_nat_alt\<close>)
  qed
qed

lemma models_attempts:
  assumes "k \<le> tot" "model_loop L de j len tot ms k st = (st', k', res)"
  shows "unat k' \<le> unat k + sum_list (map (unat \<circ> snd) ms) \<and> k' \<le> tot"
  using assms
proof (induction ms arbitrary: k st)
  case (Cons m ms)
  obtain model retries where m: "m = (model, retries)" by fastforce
  obtain st1 k1 r where loop: "attempt_loop L de j model retries tot 0 k st = (st1, k1, r)" by (metis prod_cases3)
  have "unat k1 \<le> unat k + unat retries" "k1 \<le> tot"
    using loop_attempts[OF _ Cons.prems(1) loop] by simp_all
  then show ?case
    using Cons.IH[of k1 st1] Cons.IH[of k st] Cons.prems m loop by (auto split: if_splits option.splits)
qed simp

section \<open>The accounts\<close>

text \<open>An attempt keeps every predicate on the accounts.\<close>

interpretation kept_accounts: attempt_invariant "\<lambda>st. P (accounts st)" "\<lambda>st. P (accounts st)" for P
  by unfold_locales (auto dest!: try_channel_attempt_effect simp: attempt_effect_def)

lemma models_keep_accounts:
  "others_keep (\<lambda>st. P (accounts st)) de \<Longrightarrow> model_loop L de j len tot ms k st = (st', k', res) \<Longrightarrow> P (accounts st)
    \<Longrightarrow> P (accounts st')"
  using kept_accounts.models_keep[of P] by (simp add: kept_accounts.after_def)

text \<open>What the answers of the loops can be.\<close>

lemma once_answer:
  assumes "attempt_once L env j model n st = (st', Some (Some (Answer resp bg)))"
  shows "rs_status resp \<noteq> 429 \<and> (rs_status resp = 200 \<or> bg = (\<lambda>st. st))"
  using assms
  by (auto simp: attempt_once_def Let_def split: option.splits if_splits prod.splits attempt_outcome.splits
      dest!: try_channel_attempt_effect simp: attempt_effect_def)

text \<open>An attempt of the loop hangs only in the keepalive of a JSON answer.\<close>

definition hangs_in_keepalive :: "dispatch_env \<Rightarrow> job \<Rightarrow> app_state \<Rightarrow> bool" where
  "hangs_in_keepalive de j st \<longleftrightarrow> \<not> jb_is_stream j \<and> (\<exists>n. stuck_in_keepalive (de_attempts de n) st)"

lemma once_hang:
  assumes "attempt_once L (de_attempts de m) j model n st = (st', Some (Some Hang))"
  shows "hangs_in_keepalive de j st'"
  using assms
  by (auto simp: attempt_once_def Let_def hangs_in_keepalive_def split: option.splits if_splits prod.splits attempt_outcome.splits
      dest!: attempt_hung) (auto simp: job_context_def)

definition answer_ok :: "dispatch_env \<Rightarrow> job \<Rightarrow> app_state \<Rightarrow> dispatch_result option \<Rightarrow> bool" where
  "answer_ok de j st r \<longleftrightarrow> (r = Some Hang \<longrightarrow> hangs_in_keepalive de j st)
     \<and> (\<forall>resp bg. r = Some (Answer resp bg) \<longrightarrow> rs_status resp \<noteq> 429 \<and> (rs_status resp = 200 \<or> bg = (\<lambda>st. st)))"

lemma once_answer_ok: "attempt_once L (de_attempts de m) j model n st = (st', Some r) \<Longrightarrow> answer_ok de j st' r"
  using once_answer once_hang by (fastforce simp: answer_ok_def)

lemma loop_answer: "attempt_loop L de j model mx tot n k st = (st', k', res) \<Longrightarrow> answer_ok de j st' res"
proof (induction L de j model mx tot n k st rule: attempt_loop.induct)
  case (1 L de j model mx tot n k st)
  let ?env = "de_attempts de (unat k)" and ?st = "de_others de (unat k) st"
  obtain st1 r where once: "attempt_once L ?env j model (n + 1) ?st = (st1, r)" by fastforce
  show ?case
    using 1(2) 1(1)[OF _ HOL.refl HOL.refl _ once[symmetric]] once_answer_ok[of L de "unat k" j model "n + 1" ?st st1] once
    by (cases r) (auto simp: attempt_loop.simps[of L de j model mx tot n] Let_def answer_ok_def split: if_splits)
qed

lemma models_answer: "model_loop L de j len tot ms k st = (st', k', res) \<Longrightarrow> answer_ok de j st' res"
proof (induction ms arbitrary: k st)
  case (Cons m ms)
  obtain model retries where m: "m = (model, retries)" by fastforce
  obtain st1 k1 r where loop: "attempt_loop L de j model retries tot 0 k st = (st1, k1, r)" by (metis prod_cases3)
  show ?case using Cons m loop loop_answer[OF loop] by (auto split: if_splits option.splits)
qed (simp add: answer_ok_def)

section \<open>Admission, loops and refund together\<close>

lemma run_job_split:
  assumes "run_job L de j st = (st', n, res)"
  obtains s r where
    "model_loop L de j (length (lib_print L (cl_body (jb_request j)))) (sum_list (map snd (job_models st j))) (job_models st j) 0 st
      = (s, n, r)"
    "r = Some res \<and> st' = s \<or> r = None \<and> (\<exists>resp. log_all_exhausted L j (de_end de) n (refund j s) = (st', resp)
         \<and> res = Answer resp (\<lambda>st. st))"
proof -
  obtain s k r where loop: "model_loop L de j (length (lib_print L (cl_body (jb_request j)))) (sum_list (map snd (job_models st j)))
      (job_models st j) 0 st = (s, k, r)" by (metis prod_cases3)
  then show ?thesis
    using assms that[of s r] by (cases r) (auto simp: run_job_def Let_def split: prod.splits)
qed

lemma run_job_keys:
  assumes run: "run_job L de j st = (st', n, res)"
    and keep: "\<And>e. others_keep (\<lambda>st. ks_get (as_keys st) k = e) de"
    and key: "ks_get (as_keys st) k = Some vk"
  shows "ks_get (as_keys st') k = Some vk \<and> answer_ok de j st' (Some res)
    \<or> (\<exists>s resp. ks_get (as_keys s) k = Some vk \<and> as_keys st' = as_keys (refund j s)
         \<and> res = Answer resp (\<lambda>st. st) \<and> rs_status resp = 429)"
proof -
  from run_job_split[OF run] obtain s r where
    loop: "model_loop L de j (length (lib_print L (cl_body (jb_request j)))) (sum_list (map snd (job_models st j))) (job_models st j) 0 st
      = (s, n, r)"
    and fin: "r = Some res \<and> st' = s \<or> r = None \<and> (\<exists>resp. log_all_exhausted L j (de_end de) n (refund j s) = (st', resp)
         \<and> res = Answer resp (\<lambda>st. st))" .
  have "ks_get (as_keys s) k = Some vk"
    using models_keep_accounts[of "\<lambda>(ks, _). ks_get ks k = Some vk", OF _ loop] keep key
    by (simp add: accounts_def)
  then show ?thesis
    using fin models_answer[OF loop]
    by (auto simp: log_all_exhausted_def write_log_def all_channels_exhausted_response_def error_response_def json_response_def)
qed

lemma refund_key:
  assumes "jb_vk_id j = Some k" "ks_get (as_keys s) k = Some vk" "unat (jb_reserved_cents j) \<le> spent_today d vk"
    and "spent_today d vk < 2 ^ 63" "ds_date (sp_today (vk_spend vk)) = d"
  shows "\<exists>vk'. ks_get (as_keys (refund j s)) k = Some vk'
    \<and> spent_today d vk' = spent_today d vk - unat (jb_reserved_cents j)"
proof (cases "0 < jb_reserved_cents j")
  case True
  then have "ks_get (as_keys (refund j s)) k = Some (reconcile_key (jb_reserved_cents j) 0 vk)"
    using assms(1,2) by (simp add: refund_def reconcile_spend_def vks.lookup_modify)
  then show ?thesis using reconcile_key_spent(1)[OF True _ assms(3,5)] assms(3,4) by simp
next
  case False
  then have "unat (jb_reserved_cents j) = 0" by (simp add: word_gt_0)
  with False show ?thesis using assms(2) by (simp add: refund_def)
qed

lemma pre_charge_key:
  assumes "pre_charge L t (Some k) body st = (st', r)" "ks_get (as_keys st) k = Some vk" "vk_enabled vk"
    and "vk_daily_budget_cents vk = Some limit" "unat limit < 2 ^ 63"
  obtains vk' where "ks_get (as_keys st') k = Some vk'"
    and "r = None \<Longrightarrow> spent_today (mo_today t) vk' = spent_today (mo_today t) vk"
    and "\<And>c. r = Some c \<Longrightarrow> c = estimated_cost_cents (estimate_tokens (lib_print L) body)
        \<and> spent_today (mo_today t) vk' = spent_today (mo_today t) vk + unat c
        \<and> spent_today (mo_today t) vk' < 2 ^ 63 \<and> ds_date (sp_today (vk_spend vk')) = mo_today t"
proof -
  let ?e = "estimated_cost_cents (estimate_tokens (lib_print L) body)"
  obtain ks res where rs: "reserve_spend (as_keys st) (mo_today t) (mo_month t) k ?e = (ks, res)" by fastforce
  from reserve_spend_key[OF rs assms(2)] obtain vk' where
    rk: "reserve_key (mo_today t) (mo_month t) ?e vk = (vk', res)" and g: "ks_get ks k = Some vk'" .
  have st': "as_keys st' = ks" using assms(1) rs by (auto simp: pre_charge_def split: reserve_result.splits)
  show ?thesis
  proof (rule that[of vk'])
    show "ks_get (as_keys st') k = Some vk'" using g st' by simp
  next
    assume "r = None"
    then have "res = Exceeded" using assms(1) rs by (auto simp: pre_charge_def split: reserve_result.splits)
    then show "spent_today (mo_today t) vk' = spent_today (mo_today t) vk" using reserve_key_refused rk by simp
  next
    fix c assume "r = Some c"
    then have "res = Reserved c"
      using assms rs rk by (auto simp: pre_charge_def reserve_key_def Let_def split: reserve_result.splits if_splits)
    moreover from this have "c = ?e" using rk by (auto simp: reserve_key_def Let_def split: if_splits)
    moreover from calculation have "reserve_key (mo_today t) (mo_month t) ?e vk = (vk', Reserved c)" using rk by simp
    note sp = reserve_key_spent[OF this assms(4,5)]
    have "spent_today (mo_today t) vk' < 2 ^ 63" using sp(2) assms(5) by linarith
    with sp calculation show "c = ?e \<and> spent_today (mo_today t) vk' = spent_today (mo_today t) vk + unat c
        \<and> spent_today (mo_today t) vk' < 2 ^ 63 \<and> ds_date (sp_today (vk_spend vk')) = mo_today t"
      by blast
  qed
qed

lemma cache_step_key:
  assumes "check_request_cache de key mat str st = (st', r)" "\<And>e. others_keep (\<lambda>st. ks_get (as_keys st) k = e) de"
  shows "ks_get (as_keys st') k = ks_get (as_keys st) k"
    "r = Hit resp \<Longrightarrow> rs_status resp = 200" "r = NeverWoken \<Longrightarrow> de_wait de = None"
proof -
  have w: "ks_get (as_keys (w s)) k = ks_get (as_keys s) k" if "de_wait de = Some w" for w s
    using others_keepD(2)[OF assms(2) that] by blast
  show "ks_get (as_keys st') k = ks_get (as_keys st) k"
    using assms(1) w by (auto simp: check_request_cache_def Let_def split: option.splits prod.splits bool.splits)
  show "r = Hit resp \<Longrightarrow> rs_status resp = 200" "r = NeverWoken \<Longrightarrow> de_wait de = None"
    using assms(1)
    by (auto simp: check_request_cache_def Let_def cached_response_def json_response_def
        sse_stream_response_with_cached_def sse_single_chunk_response_def split: option.splits prod.splits bool.splits if_splits)
qed

lemma dispatch_split:
  assumes "dispatch L de a fmt req st = (st', res)"
  defines "st0 \<equiv> fst (extract_request_meta L st (mo_inst (de_start de)) (cl_body req) (cl_headers req) (default_model a))"
    and "vkid \<equiv> extract_virtual_key_id L (cl_headers req)"
  obtains (policy) resp where "st' = st0" "res = Answer resp (\<lambda>st. st)" "rs_status resp = 403"
  | (budget) resp where "pre_charge L (de_start de) vkid (cl_body req) st0 = (st', None)"
      "res = Answer resp (\<lambda>st. st)" "rs_status resp = 402"
  | (hit) st1 c key mat str resp where "pre_charge L (de_start de) vkid (cl_body req) st0 = (st1, Some c)"
      "check_request_cache de key mat str st1 = (st', Hit resp)" "res = Answer resp (\<lambda>st. st)"
  | (hang) st1 c key mat str where "pre_charge L (de_start de) vkid (cl_body req) st0 = (st1, Some c)"
      "check_request_cache de key mat str st1 = (st', NeverWoken)" "res = Hang"
  | (run) st1 c key mat str st2 j n where "pre_charge L (de_start de) vkid (cl_body req) st0 = (st1, Some c)"
      "check_request_cache de key mat str st1 = (st2, Miss)" "run_job L de j st2 = (st', n, res)"
      "jb_vk_id j = vkid" "jb_reserved_cents j = c"
proof -
  let ?t = "de_start de"
  obtain meta where m: "extract_request_meta L st (mo_inst ?t) (cl_body req) (cl_headers req) (default_model a) = (st0, meta)"
    unfolding st0_def by (metis prod.collapse)
  define model where "model = (case hm_get (pp_model_aliases (as_gateway st0)) (rm_original_model meta) of
     Some m \<Rightarrow> m | None \<Rightarrow> rm_original_model meta)"
  obtain key mat where km: "compute_key (lib_hash L) (lib_print L) model (cl_body req) = (key, mat)" by fastforce
  note d = assms(1)[unfolded dispatch_def Let_def m prod.case model_def[symmetric] km vkid_def[symmetric]]
  show ?thesis
  proof (cases "check_request (as_guardrails st0) (cl_body req)")
    case (Block reason)
    with d show ?thesis by (intro policy) (auto simp: error_response_def json_response_def)
  next
    case Allow
    show ?thesis
    proof (cases "check_key_models L st0 vkid model")
      case (Some resp)
      then have "rs_status resp = 403"
        by (auto simp: check_key_models_def error_response_def json_response_def split: option.splits if_splits)
      with d Allow Some show ?thesis by (intro policy) auto
    next
      case None
      obtain st1 r where pc: "pre_charge L ?t vkid (cl_body req) st0 = (st1, r)" by fastforce
      show ?thesis
      proof (cases r)
        case r: None
        with d Allow None pc show ?thesis by (intro budget) (auto simp: error_response_def json_response_def)
      next
        case r: (Some c)
        obtain st2 cc where cache: "check_request_cache de key mat (rm_is_stream meta) st1 = (st2, cc)" by fastforce
        show ?thesis
        proof (cases cc)
          case (Hit resp)
          with d Allow None pc r cache hit show ?thesis by simp
        next
          case Miss
          with d Allow None pc r cache show ?thesis by (auto split: prod.splits intro: run)
        next
          case NeverWoken
          with d Allow None pc r cache hang show ?thesis by simp
        qed
      qed
    qed
  qed
qed

text \<open>The spend of a key after a request: as before when the request was refused or all channels were
  exhausted, raised by the reservation in all other cases.\<close>

lemma dispatch_accounts:
  assumes d: "dispatch L de a fmt req st = (st', res)"
    and vkid: "extract_virtual_key_id L (cl_headers req) = Some k"
    and key: "ks_get (as_keys st) k = Some vk" "vk_enabled vk" "vk_daily_budget_cents vk = Some limit"
    and small: "unat limit < 2 ^ 63"
    and keep: "\<And>e. others_keep (\<lambda>st. ks_get (as_keys st) k = e) de"
  defines "today \<equiv> mo_today (de_start de)"
  shows "\<exists>vk'. ks_get (as_keys st') k = Some vk'
    \<and> (spent_today today vk' = spent_today today vk
         \<and> (\<exists>resp. res = Answer resp (\<lambda>st. st) \<and> rs_status resp \<in> {402, 403, 429})
       \<or> spent_today today vk' = spent_today today vk + unat (estimated_cost_cents (estimate_tokens (lib_print L) (cl_body req)))
         \<and> (\<forall>resp bg. res = Answer resp bg \<longrightarrow> rs_status resp \<noteq> 429 \<and> (rs_status resp = 200 \<or> bg = (\<lambda>st. st))))"
proof -
  let ?st0 = "fst (extract_request_meta L st (mo_inst (de_start de)) (cl_body req) (cl_headers req) (default_model a))"
  have st0: "ks_get (as_keys ?st0) k = Some vk"
    using key(1) by (simp add: extract_request_meta_def Let_def split: prod.splits option.splits)
  note charge = pre_charge_key[OF _ st0 key(2,3) small, where L = L and t = "de_start de" and body = "cl_body req"]
  have charged: "\<exists>vk'. ks_get (as_keys st1) k = Some vk'
      \<and> c = estimated_cost_cents (estimate_tokens (lib_print L) (cl_body req))
      \<and> spent_today today vk' = spent_today today vk + unat c \<and> spent_today today vk' < 2 ^ 63
      \<and> ds_date (sp_today (vk_spend vk')) = today"
    if "pre_charge L (de_start de) (extract_virtual_key_id L (cl_headers req)) (cl_body req) ?st0 = (st1, Some c)" for st1 c
    using charge[of st1 "Some c"] that vkid unfolding today_def by metis
  show ?thesis
    using d
  proof (cases rule: dispatch_split)
    case (policy resp)
    then show ?thesis using st0 by auto
  next
    case (budget resp)
    then show ?thesis using charge[of st' None] vkid unfolding today_def by (metis insertI1)
  next
    case (hit st1 c key mat str resp)
    with charged[OF hit(1)] show ?thesis using cache_step_key(1,2)[OF hit(2) keep] hit(3) by auto
  next
    case (hang st1 c key mat str)
    with charged[OF hang(1)] show ?thesis using cache_step_key(1,3)[OF hang(2) keep] hang(3) by auto
  next
    case (run st1 c key mat str st2 j n)
    from charged[OF run(1)] obtain vk' where 1: "ks_get (as_keys st1) k = Some vk'"
      "c = estimated_cost_cents (estimate_tokens (lib_print L) (cl_body req))"
      "spent_today today vk' = spent_today today vk + unat c" "spent_today today vk' < 2 ^ 63"
      "ds_date (sp_today (vk_spend vk')) = today" by blast
    have 2: "ks_get (as_keys st2) k = Some vk'" using cache_step_key(1)[OF run(2) keep] 1(1) by simp
    from run_job_keys[OF run(3) keep 2] consider "ks_get (as_keys st') k = Some vk'" "answer_ok de j st' (Some res)"
      | s resp where "ks_get (as_keys s) k = Some vk'" "as_keys st' = as_keys (refund j s)"
          "res = Answer resp (\<lambda>st. st)" "rs_status resp = 429" by auto
    then show ?thesis
    proof cases
      case 1
      then show ?thesis using \<open>c = _\<close> \<open>spent_today today vk' = _\<close> by (auto simp: answer_ok_def)
    next
      case (2 s resp)
      then show ?thesis
        using refund_key[of j k s vk' today] run(4,5) 1(3-5) vkid by auto
    qed
  qed
qed

text \<open>A quiet gateway whose only channel answers as given.\<close>

definition demo_dispatch_env :: "upstream_outcome \<Rightarrow> dispatch_env" where
  "demo_dispatch_env o' = \<lparr>de_start = demo_moment, de_wait = None, de_woken = demo_moment,
     de_attempts = (\<lambda>_. demo_env\<lparr>ae_upstream := (\<lambda>_. o')\<rparr>), de_others = (\<lambda>_ st. st), de_end = demo_moment\<rparr>"

definition demo_reply :: "nat \<Rightarrow> upstream_reply" where
  "demo_reply status = \<lparr>ur_status = status, ur_headers = [], ur_body = [], ur_events = [], ur_sends = None, ur_seen = 0, ur_ticks = 0\<rparr>"

text \<open>C3: the number of attempts of a request is bounded by the retry counts of the models of its chain, whatever
  the upstreams answer and whatever other requests do meanwhile, and the loops end with one exception: an attempt
  can hang, only for a request without streaming, only when the keepalive of JSON answers is configured, and only when
  an upstream takes more than sixteen ticks of it to answer. Then it does hang: \<open>slow_json_answer_hangs\<close>.\<close>

theorem dispatch_attempts_bounded:
  "case run_job L de j st of (st', attempts, res) \<Rightarrow>
     unat attempts \<le> sum_list (map (unat \<circ> snd) (job_models st j))
     \<and> (case res of
            Hang \<Rightarrow> \<not> jb_is_stream j \<and> 0 < pp_nonstream_keepalive_interval_secs (as_gateway st')
              \<and> (\<exists>n req reply. ae_upstream (de_attempts de n) req = Answered reply \<and> 16 < ur_ticks reply)
          | _ \<Rightarrow> True)"
proof -
  obtain st' n res where run: "run_job L de j st = (st', n, res)" by (metis prod_cases3)
  from run_job_split[OF run] obtain s r where
    loop: "model_loop L de j (length (lib_print L (cl_body (jb_request j)))) (sum_list (map snd (job_models st j))) (job_models st j) 0 st
      = (s, n, r)" and fin: "r = Some res \<and> st' = s \<or> r = None \<and> (\<exists>resp. res = Answer resp (\<lambda>st. st))" by metis
  have "unat n \<le> sum_list (map (unat \<circ> snd) (job_models st j))" using models_attempts[OF _ loop] by simp
  then show ?thesis
    using run fin models_answer[OF loop]
    by (auto simp: answer_ok_def hangs_in_keepalive_def stuck_in_keepalive_def KEEPALIVE_SLOTS_def
        split: dispatch_result.split)
qed

text \<open>C2: a request that ends with status 429, all channels exhausted, costs nothing: whatever was reserved for its
  virtual key is refunded. Hypotheses: the key is enabled and has a daily budget below 2^63 cents, and
  meanwhile the other requests do not change this key's counters.\<close>

theorem exhausted_request_is_free:
  assumes "dispatch L de a fmt req st = (st', Answer resp bg)" "rs_status resp = 429"
    and "extract_virtual_key_id L (cl_headers req) = Some k"
    and "ks_get (as_keys st) k = Some vk" "vk_enabled vk" "vk_daily_budget_cents vk = Some limit"
    and "unat limit < 2 ^ 63"
    and "\<And>e. others_keep (\<lambda>st. ks_get (as_keys st) k = e) de"
  shows "\<exists>vk'. ks_get (as_keys st') k = Some vk'
    \<and> spent_today (mo_today (de_start de)) vk' = spent_today (mo_today (de_start de)) vk"
  using dispatch_accounts[OF assms(1,3-8)] assms(2) by blast

lemma demo_keeps: "others_keep I (demo_dispatch_env r)"
  by (simp add: others_keep_def demo_dispatch_env_def)

text \<open>A request that asks for no tokens: one cent is reserved.\<close>

definition idle_body :: json where
  "idle_body = JObj [(''model'', JStr ''m''), (''messages'', JArr []), (''max_tokens'', JInt 0)]"

definition idle_request :: client_request where
  "idle_request = demo_request\<lparr>cl_body := idle_body\<rparr>"

lemma idle_key:
  "extract_virtual_key_id demo_libs (cl_headers idle_request) = Some 3"
  "ks_get (as_keys demo_state) 3 = Some example_key"
  "vk_enabled example_key" "vk_daily_budget_cents example_key = Some 100" "spent_today ''d'' example_key = 0"
  by (simp_all add: extract_virtual_key_id_def idle_request_def demo_request_def demo_libs_def request_header_def demo_state_def
      example_store_def example_key_def ks_get_def no_spend_def spent_today_def)

lemma idle_request_body: "cl_body idle_request = idle_body"
  by (simp add: idle_request_def)

lemma idle_estimate: "estimated_cost_cents (estimate_tokens print idle_body) = 1"
  by (simp add: estimated_cost_cents_def estimate_tokens_def idle_body_def count_input_tokens_def json_get_array_def
      json_as_array_def json_as_u64_def count_text_tokens_def f64_of_u64_def f64_of_nat_def f64_div_def f64_mul_def
      f64_rnd_def f64_as_u64_def Let_def)

lemmas demo_defs = demo_dispatch_env_def demo_moment_def demo_request_def demo_state_def demo_libs_def demo_params_def
  example_store_def example_key_def no_spend_def cache_new_def if_new_def affinity_new_def affinity_with_options_def

definition idle_job :: job where
  "idle_job = \<lparr>jb_request = idle_request, jb_adaptor = OpenAIAdaptor, jb_format = OpenAIChat, jb_original_model = ''m'',
     jb_is_stream = False, jb_request_id = None, jb_session_id = None, jb_affinity_channel = None,
     jb_account_group = None, jb_vk_id = Some 3, jb_reserved_cents = 1, jb_start = 0, jb_deadline = 120000000000,
     jb_cache_key = 9, jb_cache_key_material = canonical_key_material (\<lambda>_. []) ''m'' idle_body\<rparr>"

definition idle_admitted :: "manager \<Rightarrow> app_state" where
  "idle_admitted m = demo_state\<lparr>as_manager := m,
     as_keys := fst (reserve_spend (as_keys demo_state) ''d'' ''m'' 3 1), as_in_flight := fst (register if_new 9)\<rparr>"

lemma idle_meta:
  "extract_request_meta demo_libs (demo_state\<lparr>as_manager := m\<rparr>) 0 idle_body (cl_headers idle_request) dm =
     (demo_state\<lparr>as_manager := m\<rparr>, \<lparr>rm_original_model = ''m'', rm_is_stream = False, rm_request_id = None,
        rm_session_id = None, rm_affinity_channel = None, rm_account_group = None\<rparr>)"
  by (simp add: extract_request_meta_def extract_session_id_def session_headers_def first_nonempty_def idle_body_def
      idle_request_def affinity_get_def json_as_array_def request_header_def demo_defs json_as_str_def Let_def)

lemma idle_pre_charge:
  "pre_charge demo_libs demo_moment (Some 3) idle_body (demo_state\<lparr>as_manager := m\<rparr>) =
     (demo_state\<lparr>as_manager := m, as_keys := fst (reserve_spend (as_keys demo_state) ''d'' ''m'' 3 1)\<rparr>, Some 1)"
  by (simp add: pre_charge_def idle_estimate demo_defs reserve_spend_def reserve_key_def roll_over_def Let_def sat_add_def)

lemma idle_dispatch:
  "dispatch demo_libs (demo_dispatch_env r) OpenAIAdaptor OpenAIChat idle_request (demo_state\<lparr>as_manager := m\<rparr>) =
     (case run_job demo_libs (demo_dispatch_env r) idle_job (idle_admitted m) of (st, _, res) \<Rightarrow> (st, res))"
proof -
  let ?st = "demo_state\<lparr>as_manager := m\<rparr>"
  have req: "cl_body idle_request = idle_body" "cl_headers idle_request = cl_headers demo_request"
    by (simp_all add: idle_request_def)
  have allow: "check_request (as_guardrails ?st) b = Allow" for b
    by (simp add: demo_state_def check_request_def guard_check_def)
  have models: "check_key_models demo_libs ?st (Some 3) ''m'' = None"
    by (simp add: check_key_models_def demo_defs ks_get_def is_model_allowed_with_groups_def is_model_allowed_def is_model_denied_def)
  have cache: "check_request_cache (demo_dispatch_env r) 9 mat b
      (?st\<lparr>as_keys := ks\<rparr>) = (?st\<lparr>as_keys := ks, as_in_flight := fst (register if_new 9)\<rparr>, Miss)" for ks mat b
    by (simp add: check_request_cache_def demo_defs cache_get_def can_read_def register_def hm_contains_def Let_def)
  have key: "compute_key (lib_hash demo_libs) (lib_print demo_libs) ''m'' idle_body = (9, canonical_key_material (\<lambda>_. []) ''m'' idle_body)"
    by (simp add: compute_key_def demo_libs_def Let_def)
  have gw: "pp_model_aliases (as_gateway ?st) = []" "deadline_of 0 (as_gateway ?st) = 120000000000"
    "de_start (demo_dispatch_env r) = demo_moment" "mo_inst demo_moment = 0"
    by (simp_all add: demo_defs deadline_of_def)
  show ?thesis
    unfolding dispatch_def Let_def req gw
    using idle_meta[of m] idle_pre_charge[of m] idle_key(1) allow models cache key gw
    by (simp add: req idle_job_def idle_admitted_def)
qed

lemma idle_chain:
  "run_job demo_libs (demo_dispatch_env r) idle_job (idle_admitted m) =
     (case model_loop demo_libs (demo_dispatch_env r) idle_job 0 3 [(''m'', 3)] 0 (idle_admitted m) of
        (st, attempts, Some res) \<Rightarrow> (st, attempts, res)
      | (st, attempts, None) \<Rightarrow>
          (case log_all_exhausted demo_libs idle_job demo_moment attempts (refund idle_job st) of
             (st, resp) \<Rightarrow> (st, attempts, Answer resp (\<lambda>st. st))))"
proof -
  let ?chain = "build_fallback_chain ''m'' (hm_contains (pp_model_groups demo_params) ''m'') (pp_model_groups demo_params)
                  (pp_model_fallbacks demo_params) (pp_context_window_fallbacks demo_params)"
  have chain: "?chain = [''m'']"
    by (simp add: demo_params_def build_fallback_chain_def resolve_fallback_chain_def fallback_lists_def
        strip_date_suffix_def hm_contains_def match_wildcards_def)
  have counts: "resolve_model_retry_counts [''m''] (pp_model_retry_overrides demo_params) (pp_max_retries demo_params) = [3]"
    by (simp add: demo_params_def resolve_model_retry_counts_def resolve_model_retry_config_def no_retry_config_def
        strip_date_suffix_def)
  have fields: "as_gateway (idle_admitted m) = demo_params" "jb_original_model idle_job = ''m''" "lib_print demo_libs = (\<lambda>_. [])"
    "de_end (demo_dispatch_env r) = demo_moment"
    by (simp_all add: idle_admitted_def demo_state_def idle_job_def demo_libs_def demo_dispatch_env_def)
  have "job_models (idle_admitted m) idle_job = [(''m'', 3)]"
    unfolding job_models_def Let_def fields chain counts by simp
  then show ?thesis unfolding run_job_def Let_def fields by (simp del: model_loop.simps)
qed

lemma idle_exhausted:
  "\<exists>st' resp. dispatch demo_libs (demo_dispatch_env r) OpenAIAdaptor OpenAIChat idle_request
     (demo_state\<lparr>as_manager := manager_new [] 5 False\<rparr>) = (st', Answer resp (\<lambda>st. st)) \<and> rs_status resp = 429"
proof -
  let ?st = "idle_admitted (manager_new [] 5 False)"
  have "pre_flight_skip_model ?st t ''m'' 0" for t
    by (simp add: pre_flight_skip_model_def idle_admitted_def manager_new_def hm_values_def)
  then show ?thesis
    by (simp add: idle_dispatch idle_chain log_all_exhausted_def all_channels_exhausted_response_def
        error_response_def json_response_def)
qed

abbreviation demo_manager :: manager where "demo_manager \<equiv> manager_new [example_channel 1] 5 False"

definition refused_env :: attempt_env where
  "refused_env = demo_env\<lparr>ae_upstream := (\<lambda>_. Answered (demo_reply 400))\<rparr>"

lemma demo_selects:
  "select_channel_for_attempt None demo_manager ''m'' WeightedRandom (routing_context_of (idle_admitted demo_manager)) None 0 0 0
     = Some (example_channel 1)"
proof -
  let ?ctx = "routing_context_of (idle_admitted demo_manager)"
  have "may_serve ?ctx 0 0 ''m'' None (example_channel 1)"
    by (simp add: may_serve_def example_channel_def routing_context_of_def idle_admitted_def demo_state_def cooldown_new_def)
  then have "set (routing_candidates demo_manager ?ctx 0 0 ''m'' None) = {example_channel 1}"
    by (auto simp: set_routing_candidates manager_new_def hm_values_def recover_if_expired_def example_channel_def)
  then show ?thesis
    using select_channel_scan[where m = demo_manager and model = "''m''" and st = WeightedRandom and ctx = ?ctx and ag = None
        and now = 0 and inst = 0 and draw = 0]
    by (auto simp: select_channel_for_attempt_def split: option.splits)
qed

lemma refused_send:
  assumes "ch_proxy_url (dc_channel ctx) = None"
  shows "\<exists>st'. send_and_handle L refused_env ctx body um key n st = (st', Respond (json_response 400 []) (\<lambda>st. st))"
  using assms
  by (auto simp: send_and_handle_def build_upstream_request_def send_with_timeout_def refused_env_def demo_env_def
      check_error_status_def demo_reply_def is_server_error_def is_success_def is_context_window_error_def
      from_utf8_lossy_def to_lowercase_def Let_def split: prod.splits)

lemma idle_attempt_refused:
  "\<exists>st'. try_channel_attempt demo_libs refused_env (job_context idle_job (example_channel 1) ''m'' 1) (idle_admitted demo_manager)
     = (st', Respond (json_response 400 []) (\<lambda>st. st))"
proof -
  let ?ctx = "job_context idle_job (example_channel 1) ''m'' 1"
  have ctx: "dc_channel ?ctx = example_channel 1" "dc_body ?ctx = idle_body" "dc_current_model ?ctx = ''m''"
    "dc_is_stream ?ctx = False" "ch_id (example_channel 1) = 1"
    by (simp_all add: job_context_def idle_job_def idle_request_def example_channel_def)
  have prep: "prepare_upstream_body idle_body (example_channel 1) ''m'' (as_payload_rules (idle_admitted demo_manager)) = (''m'', idle_body)"
    by (simp add: prepare_upstream_body_def idle_admitted_def demo_state_def example_channel_def map_model_def idle_body_def
        has_rules_def hm_contains_def json_as_str_def Let_def)
  define lim where "lim = fst (get_or_create_channel (as_rate_limiter (idle_admitted demo_manager)) 0 1)"
  have rl: "rl_check (mo_redis (ae_before refused_env)) (as_redis (idle_admitted demo_manager))
      (as_rate_limiter (idle_admitted demo_manager)) (mo_inst (ae_before refused_env)) 1 n = ([], lim, True, LimitOk)" for n
    by (simp add: lim_def rl_check_def rl_check_memory_def idle_admitted_def demo_state_def rl_new_def refused_env_def demo_env_def
        demo_moment_def get_or_create_channel_def new_channel_state_def bw_current_total_def bw_total_ms_def bw_new_def
        WINDOW_MS_def filter_replicate sum_list_replicate Let_def)
  have cred: "get_credential g (as_manager (idle_admitted demo_manager)) 1 =
      (demo_manager, Cred (Some ''k0''))" for g
    by (simp add: get_credential_def idle_admitted_def manager_new_def example_channel_def example_credential_def Let_def)
  have body: "transform_body demo_libs ?ctx idle_body = Some idle_body"
    by (simp add: transform_body_def job_context_def idle_job_def normalize_for_provider_def idle_body_def json_is_object_def
        extract_thinking_budget_def remove_thinking_fields_def json_remove_def json_update_def Let_def)
  have guards: "check_pre_flight_guards demo_libs t ?ctx b st = (st, Some (strip_unsupported default_capabilities b))"
    if "mr_models (as_registry st) = []" for t b st
    using that by (simp add: check_pre_flight_guards_def registry_get_def default_capabilities_def Let_def)
  have reg: "mr_models (as_registry (idle_admitted demo_manager)) = []" by (simp add: idle_admitted_def demo_state_def)
  have "ch_proxy_url (dc_channel ?ctx) = None" by (simp add: job_context_def example_channel_def)
  then show ?thesis
    using refused_send[of ?ctx demo_libs] by (simp add: try_channel_attempt_def ctx prep rl cred body guards reg Let_def)
qed

lemma exhausted_request_is_free_witness:
  "\<exists>st' resp vk'. dispatch demo_libs (demo_dispatch_env SendError) OpenAIAdaptor OpenAIChat idle_request
     (demo_state\<lparr>as_manager := manager_new [] 5 False\<rparr>) = (st', Answer resp (\<lambda>st. st)) \<and> rs_status resp = 429
     \<and> ks_get (as_keys st') 3 = Some vk' \<and> spent_today ''d'' vk' = 0"
proof -
  obtain st' resp where d: "dispatch demo_libs (demo_dispatch_env SendError) OpenAIAdaptor OpenAIChat idle_request
     (demo_state\<lparr>as_manager := manager_new [] 5 False\<rparr>) = (st', Answer resp (\<lambda>st. st))" "rs_status resp = 429"
    using idle_exhausted by blast
  note free = exhausted_request_is_free[OF d, of 3 example_key 100] 
  show ?thesis using free d demo_keeps
    by (auto simp: idle_key demo_dispatch_env_def demo_moment_def)
qed

lemma idle_refused:
  "\<exists>st'. dispatch demo_libs (demo_dispatch_env (Answered (demo_reply 400))) OpenAIAdaptor OpenAIChat idle_request
      (demo_state\<lparr>as_manager := demo_manager\<rparr>) = (st', Answer (json_response 400 []) (\<lambda>st. st))"
proof -
  let ?de = "demo_dispatch_env (Answered (demo_reply 400))" and ?st = "idle_admitted demo_manager"
  have env: "de_attempts ?de n = refused_env" "de_others ?de n st = st" for n st
    by (simp_all add: demo_dispatch_env_def refused_env_def)
  have go: "\<not> pre_flight_skip_model ?st (ae_before refused_env) ''m'' 0"
    by (simp add: pre_flight_skip_model_def idle_admitted_def demo_state_def manager_new_def hm_values_def registry_get_def
        default_capabilities_def example_channel_def is_available_def is_model_excluded_def is_in_cooldown_def cooldown_new_def)
  have fields: "jb_affinity_channel idle_job = None" "jb_account_group idle_job = None" "as_manager ?st = demo_manager"
    "as_strategy ?st = WeightedRandom" "mo_utc (ae_before refused_env) = 0" "mo_inst (ae_before refused_env) = 0"
    "ae_draw refused_env = 0" "ch_max_retries (example_channel 1) = None"
    by (simp_all add: idle_job_def idle_admitted_def demo_state_def refused_env_def demo_env_def demo_moment_def example_channel_def)
  have open_budget: "check_budget (as_provider_budgets ?st) d m p" for d m p
    by (simp add: idle_admitted_def demo_state_def pb_new_def check_budget_def)
  obtain st' where "attempt_once demo_libs refused_env idle_job ''m'' 1 ?st =
      (st', Some (Some (Answer (json_response 400 []) (\<lambda>st. st))))"
    using idle_attempt_refused by (auto simp: attempt_once_def fields demo_selects open_budget)
  then show ?thesis
    by (simp add: idle_dispatch idle_chain go env attempt_loop.simps fields Let_def)
qed

text \<open>When the upstream's error is relayed to the client, the reservation stays charged to the virtual key and
  nothing is left to do that would settle it; the same holds when the request panics or waits for ever.
  Hypotheses as for exhausted requests; the statuses 402, 403 and 429 are also answered by the gateway itself.\<close>

theorem unserved_request_stays_charged:
  assumes "dispatch L de a fmt req st = (st', res)"
    and "\<And>resp bg. res = Answer resp bg \<Longrightarrow> rs_status resp \<notin> {200, 402, 403, 429}"
    and "extract_virtual_key_id L (cl_headers req) = Some k"
    and "ks_get (as_keys st) k = Some vk" "vk_enabled vk" "vk_daily_budget_cents vk = Some limit"
    and "unat limit < 2 ^ 63"
    and "\<And>e. others_keep (\<lambda>st. ks_get (as_keys st) k = e) de"
  shows "\<exists>vk'. ks_get (as_keys st') k = Some vk'
    \<and> spent_today (mo_today (de_start de)) vk'
        = spent_today (mo_today (de_start de)) vk + unat (estimated_cost_cents (estimate_tokens (lib_print L) (cl_body req)))
    \<and> (\<forall>resp bg. res = Answer resp bg \<longrightarrow> bg = (\<lambda>st. st))"
  using dispatch_accounts[OF assms(1,3-8)] assms(2) by blast

lemma unserved_request_stays_charged_witness:
  "\<exists>st' vk'. dispatch demo_libs (demo_dispatch_env (Answered (demo_reply 400))) OpenAIAdaptor OpenAIChat idle_request demo_state
       = (st', Answer (json_response 400 []) (\<lambda>st. st))
     \<and> ks_get (as_keys st') 3 = Some vk' \<and> spent_today ''d'' vk' = 1"
proof -
  obtain st' where d: "dispatch demo_libs (demo_dispatch_env (Answered (demo_reply 400))) OpenAIAdaptor OpenAIChat idle_request
      (demo_state\<lparr>as_manager := demo_manager\<rparr>) = (st', Answer (json_response 400 []) (\<lambda>st. st))"
    using idle_refused by blast
  have "demo_state\<lparr>as_manager := demo_manager\<rparr> = demo_state" by (simp add: demo_state_def)
  with unserved_request_stays_charged[OF d, of 3 example_key 100] d demo_keeps show ?thesis
    by (auto simp: idle_key demo_dispatch_env_def demo_moment_def json_response_def
       idle_request_body idle_estimate)
qed

end
