(* ===== verification/Gateway_Invariant.thy ===== *)
theory Gateway_Invariant
  imports Request_Life
begin

text \<open>
  The state of the gateway stays well formed: channels are stored under their own id with consistent circuit
  data, the affinity map and the response cache keep their capacities and orders, and the index of the virtual
  keys agrees with the keys. Every step of an attempt keeps this, and so do the background tasks that settle
  an answer later (\<open>proxy/attempt.rs\<close>, \<open>response.rs\<close>, \<open>dispatch.rs\<close>). An attempt that panics can leave the circuit
  of one channel open without an end; everything else is kept then too.
\<close>

definition gateway_ok :: "app_state \<Rightarrow> bool" where
  "gateway_ok st \<longleftrightarrow> mgr_inv (as_manager st) \<and> affinity_ok (as_affinity st) \<and> cache_ok (as_cache st) \<and> ks_ok (as_keys st)"

text \<open>The same but for the end of the circuit of one channel.\<close>

definition gateway_ok_but :: "uuid \<Rightarrow> app_state \<Rightarrow> bool" where
  "gateway_ok_but i st \<longleftrightarrow> mgr_inv_but {i} (as_manager st) \<and> affinity_ok (as_affinity st) \<and> cache_ok (as_cache st) \<and> ks_ok (as_keys st)"

lemma gateway_ok_any: "gateway_ok st \<Longrightarrow> gateway_ok_but i st"
  using mgr_inv_but_mono[of "{}" "as_manager st" "{i}"] by (simp add: gateway_ok_def gateway_ok_but_def)

named_theorems wf \<open>operations that keep the gateway state well formed\<close>

lemma wf_fields [wf]:
  "gateway_ok (st\<lparr>as_logger := a\<rparr>) = gateway_ok st" "gateway_ok (st\<lparr>as_active := b\<rparr>) = gateway_ok st"
  "gateway_ok (st\<lparr>as_cooldown := c\<rparr>) = gateway_ok st" "gateway_ok (st\<lparr>as_in_flight := f\<rparr>) = gateway_ok st"
  "gateway_ok (st\<lparr>as_quota := q\<rparr>) = gateway_ok st" "gateway_ok (st\<lparr>as_latency := l\<rparr>) = gateway_ok st"
  "gateway_ok (st\<lparr>as_redis := r, as_rate_limiter := rl\<rparr>) = gateway_ok st"
  "gateway_ok (st\<lparr>as_provider_budgets := p\<rparr>) = gateway_ok st"
  by (simp_all add: gateway_ok_def)

lemma wf_basic [wf]:
  "gateway_ok (write_log L e st) = gateway_ok st" "gateway_ok (note_attempt ctx t b st) = gateway_ok st"
  "gateway_ok (acquire_active i st) = gateway_ok st" "gateway_ok (release_active i st) = gateway_ok st"
  "gateway_ok_but j (release_active i st) = gateway_ok_but j st"
  "gateway_ok (record_rate t i n st) = gateway_ok st" "gateway_ok (log_attempt_failure L ctx t r st) = gateway_ok st"
  by (simp_all add: wf gateway_ok_but_def write_log_def note_attempt_def acquire_active_def release_active_def record_rate_def
      log_attempt_failure_def split: prod.splits)

lemma wf_manager: "gateway_ok st \<Longrightarrow> mgr_step (as_manager st) m \<Longrightarrow> gateway_ok (st\<lparr>as_manager := m\<rparr>)"
  using mgr_step_inv by (simp add: gateway_ok_def)

lemma wf_keys:
  assumes "gateway_ok st"
  shows "gateway_ok (st\<lparr>as_keys := fst (reserve_spend (as_keys st) d m i e)\<rparr>)"
    "gateway_ok (st\<lparr>as_keys := reconcile_spend (as_keys st) i r a\<rparr>)"
    "gateway_ok (st\<lparr>as_keys := accumulate_spend (as_keys st) d m i c, as_redis := srv, as_key_limiter := kl\<rparr>)"
    "gateway_ok (st\<lparr>as_keys := reconcile_spend (as_keys st) i r a, as_redis := srv, as_key_limiter := kl\<rparr>)"
  using assms ks_ok_spend by (simp_all add: gateway_ok_def)

lemma wf_fail: "gateway_ok st \<Longrightarrow> gateway_ok (fail_and_retry L ctx t r st)"
  by (simp add: fail_and_retry_def open_circuit_def wf wf_manager mgr_step.fail)

lemma wf_steps:
  assumes "gateway_ok st"
  shows "gateway_ok (fst (check_pre_flight_guards L t ctx body st))"
    "gateway_ok (fst (build_upstream_request L env ctx body um key st))"
    "gateway_ok (fst (send_with_timeout L env ctx req n st))"
    "gateway_ok (fst (check_sse_bootstrap L t ctx n es st))"
  using assms
  by (auto simp: check_pre_flight_guards_def build_upstream_request_def send_with_timeout_def check_sse_bootstrap_def
      bootstrap_sse_stream_def Let_def wf wf_fail split: option.splits upstream_outcome.splits list.splits upstream_event.splits)

lemma wf_error_status:
  assumes "gateway_ok st" "check_error_status L t ctx reply st = (st', out)"
  shows "if out = Some Panicked then gateway_ok_but (ch_id (dc_channel ctx)) st' else gateway_ok st'"
proof -
  let ?i = "ch_id (dc_channel ctx)"
  let ?m = "manager_mark_model_rate_limited (as_manager st) (mo_utc t) ?i (dc_current_model ctx) (retry_after reply)"
  let ?m' = "mark_circuit_open_with_retry ?m (mo_utc t) ?i (retry_after reply)"
  have 1: "gateway_ok (st\<lparr>as_manager := ?m\<rparr>)" using assms wf_manager mgr_step.rate by blast
  show ?thesis
  proof (cases "ur_status reply = 429")
    case False
    then show ?thesis
      using assms by (auto simp: check_error_status_def Let_def wf wf_fail split: if_splits)
  next
    case True
    show ?thesis
    proof (cases "mark_open_panics ?m (mo_utc t) ?i (retry_after reply)")
      case False
      then have "gateway_ok (st\<lparr>as_manager := ?m'\<rparr>)" using wf_manager[OF 1] mgr_step.retry by fastforce
      with True False assms(2) show ?thesis by (auto simp: check_error_status_def Let_def wf)
    next
      case panics: True
      have "mgr_inv_but {?i} ?m" using gateway_ok_any[OF 1] by (simp add: gateway_ok_but_def)
      then have "mgr_inv_but {?i} ?m'" by (rule inv_but_retry) simp
      with True panics assms show ?thesis by (auto simp: check_error_status_def Let_def gateway_ok_but_def gateway_ok_def)
    qed
  qed
qed

lemma wf_success: "gateway_ok st \<Longrightarrow> gateway_ok (fst (record_success_side_effects t ctx reply st))"
  by (auto simp: record_success_side_effects_def Let_def wf split: option.splits)
    (simp_all add: gateway_ok_def note_attempt_def affinity_set_ok)

lemma wf_latency:
  "gateway_ok st \<Longrightarrow> gateway_ok (st\<lparr>as_manager := manager_record_latency (as_manager st) now i ms\<rparr>)"
  by (simp add: wf_manager mgr_step.latency)

lemma wf_telemetry: "gateway_ok st \<Longrightarrow> gateway_ok (record_post_response_telemetry t rec st)"
  using ks_ok_spend(2,3)
  by (auto simp: record_post_response_telemetry_def charge_key_def gateway_ok_def Let_def split: option.splits prod.splits)

lemma wf_cache_entry: "gateway_ok st \<Longrightarrow> gateway_ok (record_cache_entry now key mat body st)"
  by (simp add: record_cache_entry_def gateway_ok_def cache_insert_ok)

lemma wf_json_background: "gateway_ok st \<Longrightarrow> gateway_ok (json_background L ctx u c t st)"
  by (simp add: json_background_def Let_def wf_latency wf wf_telemetry)

lemma wf_stream_background: "gateway_ok st \<Longrightarrow> gateway_ok (stream_background L ctx price i buf t st)"
  by (auto simp: stream_background_def Let_def wf intro!: wf_telemetry wf_cache_entry split: option.splits)

lemma wf_json:
  assumes "handle_json_success L t t' ctx um ps reply st = Some (st', resp, bg)" "gateway_ok st"
  shows "gateway_ok st'" "gateway_ok s \<Longrightarrow> gateway_ok (bg s)"
  using assms by (auto simp: handle_json_success_def Let_def wf wf_cache_entry wf_json_background split: if_splits option.splits)

lemma wf_streaming:
  assumes "handle_streaming_success L t t' tm ctx um ps tr reply st = (st', resp, bg)" "gateway_ok st"
  shows "gateway_ok st'" "gateway_ok s \<Longrightarrow> gateway_ok (bg s)"
  using assms wf_latency[of "write_log L e st" for e]
  by (auto simp: handle_streaming_success_def Let_def wf wf_stream_background split: prod.splits)

section \<open>The attempt\<close>

text \<open>What an attempt leaves behind, by its outcome.\<close>

definition wf_outcome :: "app_state \<times> attempt_outcome \<Rightarrow> bool" where
  "wf_outcome r \<longleftrightarrow> (if snd r = Panicked then \<exists>i. gateway_ok_but i (fst r) else gateway_ok (fst r))
     \<and> (\<forall>resp bg s. snd r = Respond resp bg \<longrightarrow> gateway_ok s \<longrightarrow> gateway_ok (bg s))"

lemma wf_handle_success:
  assumes "gateway_ok st"
  shows "wf_outcome (handle_success L env ctx um n reply st)"
proof -
  let ?t = "ae_after env"
  obtain st1 ps where r: "record_success_side_effects ?t ctx reply st = (st1, ps)" by fastforce
  have 1: "gateway_ok st1" using wf_success[OF assms, of ?t ctx reply] r by simp
  obtain st2 go where b: "check_sse_bootstrap L ?t ctx n (ur_events reply) st1 = (st2, go)" by fastforce
  have 2: "gateway_ok st2" using wf_steps(4)[OF 1, of L ?t ctx n "ur_events reply"] b by simp
  show ?thesis
    using r b 1 2 wf_streaming[of L ?t "ae_background env" "ae_timing env" ctx um ps _ reply st2]
      wf_json[of L ?t "ae_background env" ctx um ps reply st1]
    by (auto simp: handle_success_def wf_outcome_def Let_def wf split: prod.splits option.splits)
qed

lemma wf_send_and_handle:
  assumes "gateway_ok st"
  shows "wf_outcome (send_and_handle L env ctx body um key n st)"
proof -
  obtain st1 rq where b: "build_upstream_request L env ctx body um key st = (st1, rq)" by fastforce
  have 1: "gateway_ok st1" using wf_steps(2)[OF assms, of L env ctx body um key] b by simp
  show ?thesis
  proof (cases rq)
    case (Some req)
    obtain st2 rp where s: "send_with_timeout L env ctx req n st1 = (st2, rp)" by fastforce
    have 2: "gateway_ok st2" using wf_steps(3)[OF 1, of L env ctx req n] s by simp
    show ?thesis
    proof (cases rp)
      case rp: (Some reply)
      obtain st3 oc where c: "check_error_status L (ae_after env) ctx reply st2 = (st3, oc)" by fastforce
      note 3 = wf_error_status[OF 2 c]
      have "oc = Some (Respond resp bg) \<Longrightarrow> bg = (\<lambda>st. st)" for resp bg
        using error_status_outcome[of L "ae_after env" ctx reply st2 st3 "Respond resp bg"] c by auto
      then show ?thesis
        using b s c Some rp 3 wf_handle_success[of st3 L env ctx um n reply]
        by (cases oc) (auto simp: send_and_handle_def wf_outcome_def wf split: if_splits)
    qed (use b s Some 2 in \<open>simp add: send_and_handle_def wf_outcome_def\<close>)
  qed (use b 1 in \<open>simp add: send_and_handle_def wf_outcome_def\<close>)
qed

lemma wf_attempt:
  assumes "gateway_ok st"
  shows "wf_outcome (try_channel_attempt L env ctx st)"
proof -
  let ?t = "ae_before env" and ?i = "ch_id (dc_channel ctx)"
  obtain um body where p: "prepare_upstream_body (dc_body ctx) (dc_channel ctx) (dc_current_model ctx) (as_payload_rules st) = (um, body)"
    by fastforce
  obtain srv lim ok why where c: "rl_check (mo_redis ?t) (as_redis st) (as_rate_limiter st) (mo_inst ?t) ?i
      (estimate_tokens (lib_print L) body) = (srv, lim, ok, why)" by (metis prod_cases4)
  let ?st1 = "st\<lparr>as_redis := srv, as_rate_limiter := lim\<rparr>"
  obtain m cred where g: "get_credential (lib_keyring L) (as_manager st) ?i = (m, cred)" by fastforce
  have 1: "gateway_ok ?st1" using assms by (simp add: wf)
  then have 2: "gateway_ok (?st1\<lparr>as_manager := m\<rparr>)"
    using wf_manager[OF 1, of m] mgr_step.cred[of "as_manager st" "lib_keyring L" ?i] g by simp
  have pf: "gateway_ok st3" if "check_pre_flight_guards L ?t ctx b (?st1\<lparr>as_manager := m\<rparr>) = (st3, r)" for b st3 r
    using wf_steps(1)[OF 2, of L ?t ctx b] that by simp
  show ?thesis
    using p c g 1 2 wf_send_and_handle pf
    by (auto simp: try_channel_attempt_def Let_def wf wf_fail split: option.splits prod.splits credential_result.splits)
      (auto simp: wf_outcome_def wf wf_fail intro: gateway_ok_any)
qed

section \<open>The request\<close>

text \<open>Invariants that the work left behind by an answer keeps too.\<close>

locale answer_invariant = attempt_invariant +
  assumes background_keeps:
    "try_channel_attempt L env ctx st = (st', Respond resp bg) \<Longrightarrow> I st \<Longrightarrow> I s \<Longrightarrow> I (bg s)"
begin

definition leaves :: "dispatch_result option \<Rightarrow> bool" where
  "leaves r \<longleftrightarrow> (\<forall>resp bg s. r = Some (Answer resp bg) \<longrightarrow> I s \<longrightarrow> I (bg s))"

lemma once_leaves: "attempt_once L env j model n st = (st', Some r) \<Longrightarrow> I st \<Longrightarrow> leaves r"
  by (auto simp: attempt_once_def leaves_def Let_def
      split: option.splits if_splits prod.splits attempt_outcome.splits dest: background_keeps)

lemma loop_leaves:
  assumes "others_keep I de"
  shows "attempt_loop L de j model mx tot n k st = (st', k', res) \<Longrightarrow> I st \<Longrightarrow> leaves res"
proof (induction "unat mx - unat n" arbitrary: n k st rule: less_induct)
  case less
  let ?env = "de_attempts de (unat k)" and ?st = "de_others de (unat k) st"
  obtain st1 r where once: "attempt_once L ?env j model (n + 1) ?st = (st1, r)" by fastforce
  have keep: "I ?st" using others_keepD(1)[OF assms less.prems(2)] .
  note one = once_keeps[OF once keep]
  show ?case
  proof (cases "n < mx \<and> k < tot \<and> \<not> jb_deadline j < mo_inst (ae_before ?env) \<and> r = None")
    case True
    then have "attempt_loop L de j model mx tot (n + 1) (k + 1) st1 = (st', k', res)"
      using less.prems(1) once by (simp add: attempt_loop.simps[of L de j model mx tot n])
    moreover have "unat mx - unat (n + 1) < unat mx - unat n"
      using True unat_Suc_less[of n mx] by (auto simp: word_less_nat_alt)
    moreover have "I st1" using one True by simp
    ultimately show ?thesis using less.hyps by blast
  next
    case False
    have none: "leaves None" by (simp add: leaves_def)
    show ?thesis
      using False less.prems(1) once keep none once_leaves[of L ?env j model "n + 1" ?st st1]
      by (cases r) (auto simp: attempt_loop.simps[of L de j model mx tot n] Let_def split: if_splits)
  qed
qed

lemma models_leave:
  assumes "others_keep I de"
  shows "model_loop L de j len tot ms k st = (st', k', res) \<Longrightarrow> I st \<Longrightarrow> leaves res"
proof (induction ms arbitrary: k st)
  case (Cons m ms)
  obtain model retries where m: "m = (model, retries)" by fastforce
  obtain st1 k1 r where loop: "attempt_loop L de j model retries tot 0 k st = (st1, k1, r)" by (metis prod_cases3)
  show ?case
    using Cons m loop loop_leaves[OF assms loop] loop_keeps[OF assms loop] by (auto split: if_splits option.splits)
qed (simp add: leaves_def)

end

interpretation gateway: answer_invariant gateway_ok "\<lambda>st. \<exists>i. gateway_ok_but i st"
proof unfold_locales
  fix L env ctx st st' out assume "try_channel_attempt L env ctx st = (st', out)" "gateway_ok st"
  then show "if out = Panicked then \<exists>i. gateway_ok_but i st' else gateway_ok st'"
    using wf_attempt[of st L env ctx] by (auto simp: wf_outcome_def split: if_splits)
next
  fix L env ctx st st' resp bg s
  assume "try_channel_attempt L env ctx st = (st', Respond resp bg)" "gateway_ok st" "gateway_ok s"
  then show "gateway_ok (bg s)" using wf_attempt[of st L env ctx] by (simp add: wf_outcome_def)
qed

lemma wf_refund: "gateway_ok st \<Longrightarrow> gateway_ok (refund j st)"
  by (simp add: refund_def wf_keys split: option.splits)

text \<open>The state after a request, by its result, and what the background task of an answer keeps.\<close>

definition wf_result :: "app_state \<times> dispatch_result \<Rightarrow> bool" where
  "wf_result r \<longleftrightarrow> (if snd r = Crash then \<exists>i. gateway_ok_but i (fst r) else gateway_ok (fst r))
     \<and> (\<forall>resp bg s. snd r = Answer resp bg \<longrightarrow> gateway_ok s \<longrightarrow> gateway_ok (bg s))"

lemma wf_run_job:
  assumes "run_job L de j st = (st', n, res)" "gateway_ok st" "others_keep gateway_ok de"
  shows "wf_result (st', res)"
proof -
  from run_job_split[OF assms(1)] obtain len tot ms s r where loop: "model_loop L de j len tot ms 0 st = (s, n, r)"
    and fin: "r = Some res \<and> st' = s \<or> r = None \<and> (\<exists>resp. log_all_exhausted L j (de_end de) n (refund j s) = (st', resp)
         \<and> res = Answer resp (\<lambda>st. st))" by metis
  have "gateway.after r s" "gateway.leaves r"
    using gateway.models_keep[OF assms(3) loop assms(2)] gateway.models_leave[OF assms(3) loop assms(2)] .
  then show ?thesis
    using fin by (auto simp: wf_result_def gateway.leaves_def gateway.after_def log_all_exhausted_def wf wf_refund)
qed

lemma wf_cache_step:
  assumes "check_request_cache de key mat str st = (st', r)" "gateway_ok st" "others_keep gateway_ok de"
  shows "gateway_ok st'"
  using assms others_keepD(2)[OF assms(3)]
  by (auto simp: check_request_cache_def Let_def wf split: option.splits prod.splits bool.splits)

lemma wf_pre_charge: "pre_charge L t v body st = (st', r) \<Longrightarrow> gateway_ok st \<Longrightarrow> gateway_ok st'"
proof (cases v)
  case (Some vk)
  assume pc: "pre_charge L t v body st = (st', r)" and ok: "gateway_ok st"
  let ?e = "estimated_cost_cents (estimate_tokens (lib_print L) body)"
  have "st' = st\<lparr>as_keys := fst (reserve_spend (as_keys st) (mo_today t) (mo_month t) vk ?e)\<rparr>"
    using pc Some by (auto simp: pre_charge_def split: prod.splits reserve_result.splits)
  then show ?thesis using wf_keys(1)[OF ok] by simp
qed (simp add: pre_charge_def)

lemma wf_dispatch:
  assumes "dispatch L de a fmt req st = (st', res)" "gateway_ok st" "others_keep gateway_ok de"
  shows "wf_result (st', res)"
proof -
  let ?st0 = "fst (extract_request_meta L st (mo_inst (de_start de)) (cl_body req) (cl_headers req) (default_model a))"
  have st0: "gateway_ok ?st0"
    using assms(2) affinity_get_ok
    by (auto simp: extract_request_meta_def Let_def gateway_ok_def split: prod.splits option.splits)
      (metis fst_conv)
  show ?thesis
    using assms(1)
  proof (cases rule: dispatch_split)
    case (run st1 c key mat str st2 j n)
    show ?thesis by (rule wf_run_job[OF run(3) wf_cache_step[OF run(2) wf_pre_charge[OF run(1) st0] assms(3)] assms(3)])
  qed (use st0 assms(3) in \<open>auto simp: wf_result_def dest: wf_pre_charge wf_cache_step\<close>)
qed

text \<open>C1: a request keeps the gateway state well formed, whatever the upstreams answer, when it ends with an answer
  or waits for ever; when it panics (a \<open>Retry-After\<close> header can make it, see \<open>huge_retry_after_opens_forever\<close>) there is
  at most one channel whose open circuit has lost its end, and everything else is well formed. The task that
  settles the accounts of an answer later keeps the state well formed as well, whatever state it finds. Hypothesis:
  the steps of other requests in between keep it.\<close>

theorem dispatch_keeps_gateway_ok:
  assumes "dispatch L de a fmt req st = (st', res)" "gateway_ok st" "others_keep gateway_ok de"
  shows "case res of
      Answer resp bg \<Rightarrow> gateway_ok st' \<and> (\<forall>s. gateway_ok s \<longrightarrow> gateway_ok (bg s))
    | Hang \<Rightarrow> gateway_ok st'
    | Crash \<Rightarrow> \<exists>i. gateway_ok_but i st'"
  using wf_dispatch[OF assms] by (cases res) (simp_all add: wf_result_def)

lemma demo_state_ok: "gateway_ok demo_state"
proof -
  have "\<forall>c \<in> set [example_channel 1]. ch_status c = Healthy" by (simp add: example_channel_def)
  then have "mgr_inv (as_manager demo_state)"
    using mgr_reachable_inv[OF mgr_reachable.start] by (simp add: demo_state_def)
  moreover have "affinity_ok (as_affinity demo_state)" "cache_ok (as_cache demo_state)" "ks_ok (as_keys demo_state)"
    by (simp_all add: demo_defs affinity_ok_def cache_ok_def ks_ok_def ks_get_def)
  ultimately show ?thesis by (simp add: gateway_ok_def)
qed

lemma dispatch_keeps_gateway_ok_witness:
  "\<exists>st' resp. dispatch demo_libs (demo_dispatch_env (Answered (demo_reply 400))) OpenAIAdaptor OpenAIChat idle_request demo_state
      = (st', Answer resp (\<lambda>st. st)) \<and> gateway_ok st'"
proof -
  have "demo_state\<lparr>as_manager := demo_manager\<rparr> = demo_state" by (simp add: demo_state_def)
  then obtain st' resp where d: "dispatch demo_libs (demo_dispatch_env (Answered (demo_reply 400))) OpenAIAdaptor OpenAIChat
      idle_request demo_state = (st', Answer resp (\<lambda>st. st))"
    using idle_refused by metis
  then show ?thesis using dispatch_keeps_gateway_ok[OF d demo_state_ok demo_keeps] by auto
qed

end
