(* ===== verification/Settlement.thy ===== *)
theory Settlement
  imports Request_Life
begin

text \<open>
  What an answer costs and what it leaves in the cache (\<open>proxy/response.rs\<close>, \<open>proxy/cache.rs\<close>,
  \<open>proxy/dispatch.rs\<close>): the settlement of a reservation by the background task of an answer, the streams that
  never settle, and the answers a cached entry gives.
\<close>

section \<open>Settling a reservation\<close>

lemma reconcile_key_raise:
  assumes "r \<le> actual" "unat actual < 2 ^ 63" "spent_today d vk + (unat actual - unat r) < 2 ^ 64"
    and "ds_date (sp_today (vk_spend vk)) = d"
  shows "spent_today d (reconcile_key r actual vk) = spent_today d vk + (unat actual - unat r)"
proof -
  have "unat (actual - r) = unat actual - unat r" using assms(1) by (rule unat_sub)
  moreover from this have "\<not> sint (actual - r) < 0" using assms(2) by (simp add: sint_u64_neg_iff)
  moreover have "unat (ds_cents (sp_today (vk_spend vk)) + (actual - r)) = spent_today d vk + (unat actual - unat r)"
    using assms(3,4) calculation(1) by (simp add: spent_today_def unat_word_ariths)
  ultimately show ?thesis using assms(4) by (simp add: reconcile_key_def Let_def spent_today_def)
qed

lemma reconcile_spend_exact:
  assumes "ks_get ks k = Some vk" "ds_date (sp_today (vk_spend vk)) = d"
    and "unat r \<le> spent_today d vk" "unat r < 2 ^ 63" "unat actual < 2 ^ 63" "spent_today d vk + unat actual < 2 ^ 64"
  shows "\<exists>vk'. ks_get (reconcile_spend ks k r actual) k = Some vk'
    \<and> spent_today d vk' + unat r = spent_today d vk + unat actual"
proof (cases "actual < r")
  case True
  then have "unat actual < unat r" by (simp add: word_less_nat_alt)
  then show ?thesis
    using reconcile_key_spent(1)[OF True assms(4,3,2)] assms(1,3) True
    by (auto simp: reconcile_spend_def vks.lookup_modify)
next
  case False
  then have le: "r \<le> actual" "unat r \<le> unat actual" by (simp_all add: not_less word_le_nat_alt)
  then have "spent_today d (reconcile_key r actual vk) = spent_today d vk + (unat actual - unat r)"
    using reconcile_key_raise[OF le(1) assms(5) _ assms(2)] assms(6) by simp
  with le(2) assms(1) show ?thesis by (auto simp: reconcile_spend_def vks.lookup_modify)
qed

lemma json_background_keys:
  "as_keys (json_background L ctx u c t st) = as_keys (record_post_response_telemetry t (telemetry_of ctx u c) st)"
  by (simp add: json_background_def write_log_def Let_def)

lemma telemetry_keys:
  assumes "dc_vk_id ctx = Some k" "0 < dc_reserved_cents ctx"
  shows "as_keys (record_post_response_telemetry t (telemetry_of ctx u c) st) =
    reconcile_spend (as_keys st) k (dc_reserved_cents ctx) (cost_cents c)"
  using assms by (simp add: record_post_response_telemetry_def charge_key_def telemetry_of_def Let_def split: prod.splits)

text \<open>The usage and the price a JSON answer is settled with.\<close>

definition answer_cents :: "libs \<Rightarrow> moment \<Rightarrow> dispatch_context \<Rightarrow> string \<Rightarrow> upstream_reply \<Rightarrow> app_state \<Rightarrow> u64" where
  "answer_cents L t ctx upstream_model reply st =
     cost_cents (json_cost L st ctx
       (extract_usage (lib_parse L) (opt_text (from_utf8 (json_answer L t ctx upstream_model (ur_body reply))))))"

text \<open>C6: an answered request costs exactly the price of its usage: when the background task of a JSON answer runs,
  the reservation is replaced by that price, whether it is lower or higher. Hypotheses: the reservation is still on the key's counter of the day, and the amounts stay below the
  range of the 64-bit counters.\<close>

theorem json_answer_settles:
  assumes "handle_json_success L t t_bg ctx upstream_model ps reply st = Some (st', resp, bg)" "rs_status resp = 200"
    and "dc_vk_id ctx = Some k" "0 < dc_reserved_cents ctx"
    and "ks_get (as_keys s) k = Some vk" "ds_date (sp_today (vk_spend vk)) = d"
    and "unat (dc_reserved_cents ctx) \<le> spent_today d vk" "unat (dc_reserved_cents ctx) < 2 ^ 63"
    and "unat (answer_cents L t ctx upstream_model reply st) < 2 ^ 63"
    and "spent_today d vk + unat (answer_cents L t ctx upstream_model reply st) < 2 ^ 64"
  shows "\<exists>vk'. ks_get (as_keys (bg s)) k = Some vk'
    \<and> spent_today d vk' + unat (dc_reserved_cents ctx)
        = spent_today d vk + unat (answer_cents L t ctx upstream_model reply st)"
proof -
  let ?u = "extract_usage (lib_parse L) (opt_text (from_utf8 (json_answer L t ctx upstream_model (ur_body reply))))"
  have "bg = json_background L ctx ?u (json_cost L st ctx ?u) t_bg"
    using assms(1,2) by (auto simp: handle_json_success_def error_response_def json_response_def Let_def split: if_splits option.splits)
  then have "as_keys (bg s) = reconcile_spend (as_keys s) k (dc_reserved_cents ctx) (answer_cents L t ctx upstream_model reply st)"
    using telemetry_keys[OF assms(3,4)] by (simp add: json_background_keys answer_cents_def)
  with reconcile_spend_exact[OF assms(5-10)] show ?thesis by simp
qed

definition idle_context :: dispatch_context where
  "idle_context = demo_context\<lparr>dc_body := idle_body, dc_reserved_cents := 1\<rparr>"

abbreviation idle_answers :: "string \<Rightarrow> (app_state \<times> http_response \<times> background) option" where
  "idle_answers mat \<equiv> handle_json_success demo_libs demo_moment demo_moment (idle_context\<lparr>dc_cache_key_material := mat\<rparr>) ''m'' []
     (demo_reply 200) demo_state"

lemma idle_answer_status: "idle_answers mat = Some (st', resp, bg) \<Longrightarrow> rs_status resp = 200"
  by (auto simp: handle_json_success_def response_blocked_def demo_libs_def Let_def split: option.splits)

lemma idle_answer_returns: "\<exists>st' resp bg. idle_answers mat = Some (st', resp, bg)"
proof -
  have "idle_answers mat \<noteq> None" unfolding json_success_hangs_iff by (simp add: demo_reply_def)
  then show ?thesis by (metis option.exhaust prod_cases3)
qed

lemma idle_answer_body:
  "json_answer demo_libs demo_moment (idle_context\<lparr>dc_cache_key_material := mat\<rparr>) ''m'' [] = []"
  by (simp add: json_answer_def translate_json_body_def apply_provider_response_transform_def idle_context_def demo_context_def
      needs_response_transform_def)

lemma idle_answer_cents:
  "answer_cents demo_libs demo_moment (idle_context\<lparr>dc_cache_key_material := mat\<rparr>) ''m'' (demo_reply 200) demo_state = 0"
proof -
  have "estimate_tokens (lib_print demo_libs) idle_body = 0"
    by (simp add: estimate_tokens_def idle_body_def count_input_tokens_def json_get_array_def
      json_as_array_def json_as_u64_def count_text_tokens_def Let_def)
  then show ?thesis
    by (simp add: answer_cents_def json_cost_def demo_reply_def demo_libs_def extract_usage_def no_usage_def token_cost_def
      compute_token_cost_def rates_from_channel_def idle_context_def demo_context_def example_channel_def opt_rate_def
      cost_cents_def f64_of_u64_def f64_of_nat_def f64_div_def f64_mul_def f64_add_def f64_rnd_def f64_as_u64_def or_else_def Let_def)
qed

lemma json_answer_settles_witness:
  "\<exists>st' resp bg vk'. idle_answers [] = Some (st', resp, bg)
     \<and> ks_get (as_keys (bg (idle_admitted demo_manager))) 3 = Some vk' \<and> spent_today ''d'' vk' = 0"
proof -
  obtain st' resp bg where h: "idle_answers [] = Some (st', resp, bg)" using idle_answer_returns by blast
  have key: "\<exists>vk. ks_get (as_keys (idle_admitted demo_manager)) 3 = Some vk \<and> ds_date (sp_today (vk_spend vk)) = ''d''
      \<and> spent_today ''d'' vk = 1"
    by (simp add: idle_admitted_def demo_defs reserve_spend_def reserve_key_def roll_over_def ks_get_def ks_modify_def
        hm_modify_def set_spend_def spent_today_def sat_add_def Let_def)
  have "dc_vk_id idle_context = Some 3" "dc_reserved_cents idle_context = 1"
    by (simp_all add: idle_context_def demo_context_def)
  with key json_answer_settles[OF h idle_answer_status[OF h], of 3 "idle_admitted demo_manager" _ "''d''"] h idle_answer_cents
  show ?thesis by auto
qed

text \<open>A stream whose buffered output reports no usage never settles: the task that runs when it has ended
  leaves all counters of the virtual keys and of the provider budgets as they are, so the reservation stays charged.\<close>

theorem silent_stream_never_settles:
  assumes "tu_input (extract_usage_from_stream (lib_parse L) (data_lines (from_utf8_lossy buffer))) = None"
    and "tu_output (extract_usage_from_stream (lib_parse L) (data_lines (from_utf8_lossy buffer))) = None"
  shows "as_keys (stream_background L ctx price log_id buffer t st) = as_keys st
    \<and> as_provider_budgets (stream_background L ctx price log_id buffer t st) = as_provider_budgets st"
  using assms by (simp add: stream_background_def release_active_def record_cache_entry_def Let_def)

lemma usage_scan_none: "tu_input acc = None \<Longrightarrow> tu_output acc = None \<Longrightarrow> usage_scan (\<lambda>_. None) acc cs = no_usage"
  by (induction cs) (simp_all add: extract_usage_def no_usage_def)

lemma silent_stream_never_settles_witness:
  "as_keys (stream_background demo_libs demo_context price 0 ''data: x'' demo_moment demo_state) = example_store"
  using silent_stream_never_settles[of demo_libs "''data: x''" demo_context price 0 demo_moment demo_state]
  by (simp add: demo_libs_def extract_usage_from_stream_def no_usage_def usage_scan_none demo_state_def)

section \<open>Answers from the cache\<close>

lemma material_ignores_stream:
  assumes "k = ''stream'' \<or> k = ''stream_options''"
  shows "canonical_key_material print model (JObj ((k, v) # m)) = canonical_key_material print model (JObj m)"
  using assms by (auto simp: canonical_key_material_def)

lemma cache_insert_get:
  assumes "cache_ok c" "ca_mode c = CacheOn" "0 < ca_max_entries c" "now' - now < ca_ttl c"
  shows "cache_get (cache_insert c now key mat body) now' key mat = Some body"
proof -
  let ?e = "\<lparr>ce_response_body = body, ce_cached_at = now, ce_key_material = mat\<rparr>"
  let ?ins = "hm_insert key ?e (ca_entries c)"
  let ?ord = "if hm_contains (ca_entries c) key then filter (\<lambda>k. k \<noteq> key) (ca_order c) else ca_order c"
  have "length ?ins \<le> Suc (ca_max_entries c)" using assms(1) by (simp add: cache_ok_def length_hm_insert)
  then have "hm_get (fst (evict_oldest (ca_max_entries c) ?ins (?ord @ [key]))) key = Some ?e"
    using evict_keeps_newest[OF insert_order_ok[OF assms(1), of key ?e]] assms(3) by simp
  then show ?thesis
    using assms by (auto simp: cache_insert_def cache_get_def can_write_def can_read_def Let_def split: prod.splits)
qed

text \<open>A cached JSON answer is served to a streaming request. The key of a request does not depend on its
  \<open>stream\<close> field, so after a JSON answer, within the lifetime of its cache entry, a request that differs only there
  gets the JSON text as the body of an event stream, with no \<open>data:\<close> framing. Hypotheses: the cache is on, has room
  and is well formed, and the answered request was keyed the way dispatch keys it.\<close>

theorem json_answer_served_as_stream:
  assumes "handle_json_success L t t_bg ctx upstream_model ps reply st = Some (st', resp, bg)" "rs_status resp = 200"
    and "compute_key (lib_hash L) (lib_print L) model (JObj m) = (dc_cache_key ctx, dc_cache_key_material ctx)"
    and "cache_ok (as_cache st)" "ca_mode (as_cache st) = CacheOn" "0 < ca_max_entries (as_cache st)"
    and "mo_inst (de_start de) - mo_inst t < ca_ttl (as_cache st)"
    and "compute_key (lib_hash L) (lib_print L) model (JObj ((''stream'', JBool True) # m)) = (key, material)"
  shows "check_request_cache de key material True st' =
    (st', Hit \<lparr>rs_status = 200, rs_headers = sse_headers,
       rs_body = Full (opt_text (from_utf8 (json_answer L t ctx upstream_model (ur_body reply))))\<rparr>)"
proof -
  have same: "key = dc_cache_key ctx" "material = dc_cache_key_material ctx"
    using assms(3,8) material_ignores_stream[of "''stream''" "lib_print L" model "JBool True" m]
    by (auto simp: compute_key_def Let_def)
  have "as_cache st' = cache_insert (as_cache st) (mo_inst t) (dc_cache_key ctx) (dc_cache_key_material ctx)
      (opt_text (from_utf8 (json_answer L t ctx upstream_model (ur_body reply))))"
    using assms(1,2) by (auto simp: handle_json_success_def error_response_def json_response_def record_cache_entry_def
        release_active_def Let_def split: if_splits option.splits)
  then show ?thesis
    using cache_insert_get[OF assms(4-7)]
    by (simp add: check_request_cache_def cached_response_def sse_stream_response_with_cached_def same)
qed

lemma json_answer_served_as_stream_witness:
  "\<exists>st' resp bg. idle_answers (canonical_key_material (\<lambda>_. []) ''m'' (JObj [])) = Some (st', resp, bg)
     \<and> check_request_cache (demo_dispatch_env SendError) 9 (canonical_key_material (\<lambda>_. []) ''m'' (JObj [(''stream'', JBool True)])) True st'
       = (st', Hit \<lparr>rs_status = 200, rs_headers = sse_headers, rs_body = Full []\<rparr>)"
proof -
  let ?mat = "canonical_key_material (\<lambda>_. []) ''m''"
  let ?ctx = "idle_context\<lparr>dc_cache_key_material := ?mat (JObj [])\<rparr>"
  obtain st' resp bg where h: "idle_answers (?mat (JObj [])) = Some (st', resp, bg)" using idle_answer_returns by blast
  have "cache_ok (as_cache demo_state)" "ca_mode (as_cache demo_state) = CacheOn" "ca_max_entries (as_cache demo_state) = 10"
    "ca_ttl (as_cache demo_state) = 60" by (simp_all add: demo_defs cache_ok_def)
  moreover have "compute_key (lib_hash demo_libs) (lib_print demo_libs) ''m'' b = (9, ?mat b)" for b
    by (simp add: compute_key_def demo_libs_def Let_def)
  moreover have "dc_cache_key ?ctx = 9" "dc_cache_key_material ?ctx = ?mat (JObj [])"
    "mo_inst (de_start (demo_dispatch_env SendError)) - mo_inst demo_moment = 0"
    by (simp_all add: idle_context_def demo_context_def demo_dispatch_env_def)
  ultimately have "check_request_cache (demo_dispatch_env SendError) 9 (?mat (JObj [(''stream'', JBool True)])) True st'
      = (st', Hit \<lparr>rs_status = 200, rs_headers = sse_headers,
          rs_body = Full (opt_text (from_utf8 (json_answer demo_libs demo_moment ?ctx ''m'' (ur_body (demo_reply 200)))))\<rparr>)"
    using json_answer_served_as_stream[OF h idle_answer_status[OF h], of "''m''" "[]" "demo_dispatch_env SendError"] by simp
  with h show ?thesis by (simp add: demo_reply_def idle_answer_body from_utf8_def opt_text_def)
qed

end
