(* ===== verification/Mcp_Manager.thy ===== *)
theory Mcp_Manager
  imports Keyed_Store Json
begin

text \<open>
  \<open>mcp/manager.rs\<close>: the MCP servers the gateway runs as subprocesses. A server is known by its configuration and
  runs when it has a client. The clients belong to the rmcp crate: a client is a value of the type \<open>'c\<close>, and
  \<open>mcp_host\<close> says what starting one, listing its tools and calling a tool answer. Between two lock sections of
  an operation other requests run; \<open>others\<close> says what they do.
\<close>

section \<open>State\<close>

record mcp_server_config =
  ms_id :: string
  ms_name :: string
  ms_command :: string
  ms_args :: "string list"
  ms_env :: "(string, string) hashmap"
  ms_cwd :: "string option"
  ms_enabled :: bool
  ms_expose_tools :: bool

datatype mcp_server_status = Stopped | Running nat | Error string

record mcp_tool_info =
  ti_server_id :: string
  ti_name :: string
  ti_description :: "string option"

record mcp_server_health =
  mh_name :: string
  mh_healthy :: bool
  mh_last_check :: utc
  mh_last_error :: "string option"
  mh_consecutive_failures :: u32

record 'c mcp_server_entry =
  me_config :: mcp_server_config
  me_client :: "'c option"
  me_last_error :: "string option"
  me_tool_count :: "nat option"

record 'c mcp_manager =
  mm_entries :: "(string, 'c mcp_server_entry) hashmap"
  mm_health_status :: "(string, mcp_server_health) hashmap"

text \<open>The parts of the rmcp crate's \<open>Tool\<close> and \<open>CallToolResult\<close> the gateway reads.\<close>

record mcp_tool =
  mt_name :: string
  mt_description :: "string option"
  mt_input_schema :: "(string \<times> json) list"

datatype mcp_content = TextContent string | ImageContent | AudioContent | ResourceContent | ResourceLink

record call_tool_result =
  tr_content :: "mcp_content list"
  tr_is_error :: "bool option"

record 'c mcp_host =
  host_spawn :: "mcp_server_config \<Rightarrow> string + 'c"
  host_list :: "'c \<Rightarrow> string + mcp_tool list"
  host_call :: "'c \<Rightarrow> string \<Rightarrow> (string \<times> json) list option \<Rightarrow> string + call_tool_result"

section \<open>Operations\<close>

definition mcp_new :: "'c mcp_manager" where
  "mcp_new = \<lparr>mm_entries = [], mm_health_status = []\<rparr>"

definition new_entry :: "mcp_server_config \<Rightarrow> 'c mcp_server_entry" where
  "new_entry c = \<lparr>me_config = c, me_client = None, me_last_error = None, me_tool_count = None\<rparr>"

definition mcp_lookup :: "'c mcp_manager \<Rightarrow> string \<Rightarrow> 'c mcp_server_entry option" where
  "mcp_lookup m i = hm_get (mm_entries m) i"

definition with_entry :: "'c mcp_manager \<Rightarrow> string \<Rightarrow> ('c mcp_server_entry \<Rightarrow> 'c mcp_server_entry) \<Rightarrow> 'c mcp_manager" where
  "with_entry m i f = m\<lparr>mm_entries := hm_modify (mm_entries m) i f\<rparr>"

definition load_configs :: "mcp_server_config list \<Rightarrow> 'c mcp_manager \<Rightarrow> 'c mcp_manager" where
  "load_configs configs m =
     m\<lparr>mm_entries := fold (\<lambda>c es. hm_insert (ms_id c) (new_entry c) es) configs [], mm_health_status := []\<rparr>"

text \<open>The check of \<open>start_server\<close> under the read lock, and what it stores when the process has been spawned.\<close>

definition start_check :: "'c mcp_manager \<Rightarrow> string \<Rightarrow> string + mcp_server_config" where
  "start_check m i =
     (case mcp_lookup m i of
        None \<Rightarrow> Inl (''Unknown MCP server: '' @ i)
      | Some e \<Rightarrow> if me_client e \<noteq> None then Inl (''MCP server '' @ i @ '' is already running'') else Inr (me_config e))"

definition start_store :: "'c mcp_host \<Rightarrow> string \<Rightarrow> string + 'c \<Rightarrow> 'c mcp_manager \<Rightarrow> 'c mcp_manager \<times> (string + unit)" where
  "start_store h i spawned m =
     (case spawned of
        Inr client \<Rightarrow>
          let tool_count = (case host_list h client of Inr ts \<Rightarrow> length ts | Inl _ \<Rightarrow> 0)
          in (with_entry m i (\<lambda>e. e\<lparr>me_client := Some client, me_last_error := None, me_tool_count := Some tool_count\<rparr>), Inr ())
      | Inl err \<Rightarrow> (with_entry m i (\<lambda>e. e\<lparr>me_last_error := Some err\<rparr>), Inl err))"

definition start_server ::
  "'c mcp_host \<Rightarrow> ('c mcp_manager \<Rightarrow> 'c mcp_manager) \<Rightarrow> string \<Rightarrow> 'c mcp_manager \<Rightarrow> 'c mcp_manager \<times> (string + unit)" where
  "start_server h others i m =
     (case start_check m i of
        Inl err \<Rightarrow> (m, Inl err)
      | Inr config \<Rightarrow> start_store h i (host_spawn h config) (others m))"

text \<open>\<open>stop_server\<close> also tells which client it cancelled.\<close>

definition stop_server ::
  "('c mcp_manager \<Rightarrow> 'c mcp_manager) \<Rightarrow> string \<Rightarrow> 'c mcp_manager \<Rightarrow> 'c mcp_manager \<times> 'c option \<times> (string + unit)" where
  "stop_server others i m =
     (case mcp_lookup m i of
        None \<Rightarrow> (m, None, Inl (''Unknown MCP server: '' @ i))
      | Some e \<Rightarrow>
          let m = with_entry m i (\<lambda>e. e\<lparr>me_client := None\<rparr>)
          in case me_client e of
               None \<Rightarrow> (m, None, Inr ())
             | Some client \<Rightarrow> (with_entry (others m) i (\<lambda>e. e\<lparr>me_tool_count := None\<rparr>), Some client, Inr ()))"

definition stop_all :: "'c mcp_manager \<Rightarrow> 'c mcp_manager \<times> (string \<times> 'c) list" where
  "stop_all m =
     (m\<lparr>mm_entries := map (\<lambda>(i, e). (i, e\<lparr>me_client := None\<rparr>)) (mm_entries m)\<rparr>,
      List.map_filter (\<lambda>(i, e). map_option (\<lambda>c. (i, c)) (me_client e)) (mm_entries m))"

definition stop_removed :: "string list \<Rightarrow> 'c mcp_manager \<Rightarrow> 'c mcp_manager \<times> 'c list" where
  "stop_removed ids m = fold (\<lambda>i (m, cs). case stop_server (\<lambda>m. m) i m of
     (m, Some c, _) \<Rightarrow> (m, cs @ [c]) | (m, None, _) \<Rightarrow> (m, cs)) ids (m, [])"

definition put_config :: "mcp_server_config \<Rightarrow> (string, 'c mcp_server_entry) hashmap \<Rightarrow> (string, 'c mcp_server_entry) hashmap" where
  "put_config c es = (if hm_contains es (ms_id c) then hm_modify es (ms_id c) (\<lambda>e. e\<lparr>me_config := c\<rparr>)
                      else hm_insert (ms_id c) (new_entry c) es)"

definition reload_configs :: "mcp_server_config list \<Rightarrow> 'c mcp_manager \<Rightarrow> 'c mcp_manager \<times> 'c list" where
  "reload_configs configs m =
     (let to_remove = filter (\<lambda>i. i \<notin> ms_id ` set configs) (map fst (mm_entries m));
          (m, cancelled) = stop_removed to_remove m;
          es = fold hm_remove to_remove (mm_entries m);
          health = fold hm_remove to_remove (mm_health_status m);
          es = fold put_config configs es
      in (m\<lparr>mm_entries := es, mm_health_status := health\<rparr>, cancelled))"

definition entry_status :: "'c mcp_server_entry \<Rightarrow> mcp_server_status" where
  "entry_status e =
     (if me_client e \<noteq> None then Running (case me_tool_count e of Some n \<Rightarrow> n | None \<Rightarrow> 0)
      else case me_last_error e of Some err \<Rightarrow> Error err | None \<Rightarrow> Stopped)"

definition list_status :: "'c mcp_manager \<Rightarrow> (string \<times> string \<times> mcp_server_status) list" where
  "list_status m = map (\<lambda>(i, e). (i, ms_name (me_config e), entry_status e)) (mm_entries m)"

text \<open>The client of a running server, as \<open>list_tools\<close> and \<open>call_tool\<close> look it up.\<close>

definition running_client :: "'c mcp_manager \<Rightarrow> string \<Rightarrow> string + 'c" where
  "running_client m i =
     (case mcp_lookup m i of
        None \<Rightarrow> Inl (''Unknown MCP server: '' @ i)
      | Some e \<Rightarrow> (case me_client e of None \<Rightarrow> Inl (''MCP server '' @ i @ '' is not running'') | Some c \<Rightarrow> Inr c))"

definition list_tools :: "'c mcp_host \<Rightarrow> string \<Rightarrow> 'c mcp_manager \<Rightarrow> 'c mcp_manager \<times> (string + mcp_tool list)" where
  "list_tools h i m =
     (case running_client m i of
        Inl err \<Rightarrow> (m, Inl err)
      | Inr c \<Rightarrow>
          (case host_list h c of
             Inl e \<Rightarrow> (m, Inl (''Failed to list tools from '' @ [CHR 0x27] @ i @ [CHR 0x27] @ '': '' @ e))
           | Inr tools \<Rightarrow> (with_entry m i (\<lambda>e. e\<lparr>me_tool_count := Some (length tools)\<rparr>), Inr tools)))"

definition tool_infos :: "string \<Rightarrow> mcp_tool list \<Rightarrow> mcp_tool_info list" where
  "tool_infos i tools = map (\<lambda>t. \<lparr>ti_server_id = i, ti_name = mt_name t, ti_description = mt_description t\<rparr>) tools"

definition list_all_tools :: "'c mcp_host \<Rightarrow> 'c mcp_manager \<Rightarrow> 'c mcp_manager \<times> mcp_tool_info list" where
  "list_all_tools h m =
     fold (\<lambda>i (m, all). case list_tools h i m of
         (m, Inr tools) \<Rightarrow> (m, all @ tool_infos i tools) | (m, Inl _) \<Rightarrow> (m, all))
       (map fst (filter (\<lambda>(i, e). me_client e \<noteq> None) (mm_entries m))) (m, [])"

definition call_tool ::
  "'c mcp_host \<Rightarrow> 'c mcp_manager \<Rightarrow> string \<Rightarrow> string \<Rightarrow> (string \<times> json) list option \<Rightarrow> string + call_tool_result" where
  "call_tool h m i name arguments =
     (case running_client m i of
        Inl err \<Rightarrow> Inl err
      | Inr c \<Rightarrow>
          (case host_call h c name arguments of
             Inl e \<Rightarrow> Inl (''Failed to call tool '' @ [CHR 0x27] @ name @ [CHR 0x27] @ '' on '' @ [CHR 0x27] @ i @ [CHR 0x27] @ '': '' @ e)
           | Inr r \<Rightarrow> Inr r))"

definition check_server_health :: "'c mcp_host \<Rightarrow> utc \<Rightarrow> string \<Rightarrow> 'c mcp_manager \<Rightarrow> 'c mcp_manager \<times> mcp_server_health" where
  "check_server_health h now i m =
     (let (m, result) = list_tools h i m;
          prev = (case hm_get (mm_health_status m) i of
                    Some p \<Rightarrow> if mh_healthy p then 0 else mh_consecutive_failures p | None \<Rightarrow> 0);
          health = (case result of
             Inr _ \<Rightarrow> \<lparr>mh_name = i, mh_healthy = True, mh_last_check = now, mh_last_error = None, mh_consecutive_failures = 0\<rparr>
           | Inl e \<Rightarrow> \<lparr>mh_name = i, mh_healthy = False, mh_last_check = now, mh_last_error = Some e,
                       mh_consecutive_failures = prev + 1\<rparr>)
      in (m\<lparr>mm_health_status := hm_insert i health (mm_health_status m)\<rparr>, health))"

definition check_all_health :: "(nat \<Rightarrow> 'c mcp_host \<times> utc) \<Rightarrow> 'c mcp_manager \<Rightarrow> 'c mcp_manager \<times> mcp_server_health list" where
  "check_all_health env m =
     fold (\<lambda>(n, i) (m, rs). case check_server_health (fst (env n)) (snd (env n)) i m of (m, r) \<Rightarrow> (m, rs @ [r]))
       (enumerate 0 (map fst (mm_entries m))) (m, [])"

definition get_health_status :: "'c mcp_manager \<Rightarrow> mcp_server_health list" where
  "get_health_status m = List.map_filter (\<lambda>(i, e). hm_get (mm_health_status m) i) (mm_entries m)"

definition get_config :: "'c mcp_manager \<Rightarrow> string \<Rightarrow> mcp_server_config option" where
  "get_config m i = map_option me_config (mcp_lookup m i)"

interpretation mcp: keyed_store mcp_lookup with_entry
  by unfold_locales (simp add: mcp_lookup_def with_entry_def hm_get_modify)


section \<open>The invariant\<close>

text \<open>Ids are unique, every entry stands under the id of its configuration, every health state under its name.\<close>

definition entry_ok :: "string \<Rightarrow> 'c mcp_server_entry \<Rightarrow> bool" where
  "entry_ok i e \<longleftrightarrow> ms_id (me_config e) = i"

definition mcp_ok :: "'c mcp_manager \<Rightarrow> bool" where
  "mcp_ok m \<longleftrightarrow> hm_ok (mm_entries m) \<and> hm_ok (mm_health_status m)
     \<and> (\<forall>i e. mcp_lookup m i = Some e \<longrightarrow> entry_ok i e)
     \<and> (\<forall>i h. hm_get (mm_health_status m) i = Some h \<longrightarrow> mh_name h = i)"

lemma mcp_ok_with_entry:
  assumes "mcp_ok m" "\<And>e. me_config (f e) = me_config e"
  shows "mcp_ok (with_entry m i f)"
proof -
  have "\<forall>j e. mcp_lookup (with_entry m i f) j = Some e \<longrightarrow> entry_ok j e"
    using assms by (auto simp: mcp.lookup_modify mcp_ok_def entry_ok_def split: if_splits)
  with assms(1) show ?thesis by (simp add: mcp_ok_def with_entry_def)
qed

lemma mcp_ok_start_store: "mcp_ok m \<Longrightarrow> mcp_ok (fst (start_store h i r m))"
  by (auto simp: start_store_def Let_def mcp_ok_with_entry split: sum.splits)

lemma mcp_ok_start:
  "mcp_ok m \<Longrightarrow> (\<And>m. mcp_ok m \<Longrightarrow> mcp_ok (others m)) \<Longrightarrow> mcp_ok (fst (start_server h others i m))"
  by (auto simp: start_server_def mcp_ok_start_store split: sum.splits)

lemma mcp_ok_stop:
  "mcp_ok m \<Longrightarrow> (\<And>m. mcp_ok m \<Longrightarrow> mcp_ok (others m)) \<Longrightarrow> mcp_ok (fst (stop_server others i m))"
  by (auto simp: stop_server_def Let_def mcp_ok_with_entry split: option.splits)

lemma mcp_ok_list: "mcp_ok m \<Longrightarrow> mcp_ok (fst (list_tools h i m))"
  by (auto simp: list_tools_def mcp_ok_with_entry split: sum.splits)

lemma mcp_ok_health: "mcp_ok m \<Longrightarrow> mcp_ok (fst (check_server_health h now i m))"
  using mcp_ok_list[of m h i]
  by (cases "list_tools h i m") (auto simp: check_server_health_def Let_def mcp_ok_def mcp_lookup_def split: sum.split)

lemma mcp_ok_stop_all: "mcp_ok m \<Longrightarrow> mcp_ok (fst (stop_all m))"
proof -
  assume m: "mcp_ok m"
  have "map_of (map (\<lambda>(i, e). (i, f e)) es) j = map_option f (map_of es j)" for f :: "'c mcp_server_entry \<Rightarrow> 'c mcp_server_entry" and es j
    by (induction es) auto
  with m show ?thesis
    by (auto simp: stop_all_def mcp_ok_def mcp_lookup_def entry_ok_def hm_ok_def comp_def case_prod_unfold)
qed

text \<open>The two loops over configurations.\<close>

lemma fold_new_get:
  "hm_get (fold (\<lambda>c es. hm_insert (ms_id c) (new_entry c) es) configs es) i =
    (case find (\<lambda>c. ms_id c = i) (rev configs) of Some c \<Rightarrow> Some (new_entry c) | None \<Rightarrow> hm_get es i)"
  by (induction configs rule: rev_induct) (auto split: option.splits)

lemma fold_put_config_get:
  "hm_get (fold put_config configs es) i =
    (case find (\<lambda>c. ms_id c = i) (rev configs) of
       Some c \<Rightarrow> Some (case hm_get es i of Some e \<Rightarrow> e\<lparr>me_config := c\<rparr> | None \<Rightarrow> new_entry c)
     | None \<Rightarrow> hm_get es i)"
proof (induction configs rule: rev_induct)
  case (snoc c cs)
  then show ?case
    by (auto simp: put_config_def hm_contains_def hm_get_modify new_entry_def split: option.splits)
qed simp

lemma fold_put_config_ok: "hm_ok es \<Longrightarrow> hm_ok (fold put_config configs es)"
  by (rule fold_keeps[where P = hm_ok]) (auto simp: put_config_def)

lemma fold_new_ok: "hm_ok es \<Longrightarrow> hm_ok (fold (\<lambda>c es. hm_insert (ms_id c) (new_entry c) es) configs es)"
  by (rule fold_keeps[where P = hm_ok]) auto

lemma findD: "find P xs = Some x \<Longrightarrow> x \<in> set xs \<and> P x"
  by (auto simp: find_Some_iff)

lemma new_entry_ok: "entry_ok i (new_entry c) \<longleftrightarrow> ms_id c = i"
  by (simp add: entry_ok_def new_entry_def)

lemma mcp_ok_load: "mcp_ok (load_configs configs m)"
  by (auto simp: load_configs_def mcp_ok_def mcp_lookup_def fold_new_get fold_new_ok new_entry_ok
      dest!: findD split: option.splits)


section \<open>The reload of the configurations\<close>

lemma with_entry_health [simp]: "mm_health_status (with_entry m i f) = mm_health_status m"
  by (simp add: with_entry_def)

lemma stop_server_frame:
  "mcp_lookup (fst (stop_server (\<lambda>m. m) i m)) j =
    (if j = i then map_option (\<lambda>e. (if me_client e = None then e else e\<lparr>me_tool_count := None\<rparr>)\<lparr>me_client := None\<rparr>) (mcp_lookup m i)
     else mcp_lookup m j)"
  "mm_health_status (fst (stop_server (\<lambda>m. m) i m)) = mm_health_status m"
  "fst (snd (stop_server (\<lambda>m. m) i m)) = Option.bind (mcp_lookup m i) me_client"
  by (auto simp: stop_server_def Let_def mcp.lookup_modify split: option.splits)

lemma stop_removed_fold:
  "fold (\<lambda>i (m, cs). case stop_server (\<lambda>m. m) i m of (m, Some c, _) \<Rightarrow> (m, cs @ [c]) | (m, None, _) \<Rightarrow> (m, cs)) ids (m, cs)
    = (let (m', cs') = stop_removed ids m in (m', cs @ cs'))"
proof (induction ids arbitrary: m cs)
  case (Cons i ids)
  obtain m1 c r where s: "stop_server (\<lambda>m. m) i m = (m1, c, r)" by (metis prod_cases3)
  have "stop_removed (i # ids) m = (let (m', cs') = stop_removed ids m1 in (m', (case c of Some x \<Rightarrow> [x] | None \<Rightarrow> []) @ cs'))"
    using Cons[of m1 "case c of Some x \<Rightarrow> [x] | None \<Rightarrow> []"] by (cases c) (simp_all add: stop_removed_def s)
  with Cons s show ?case by (cases c) (auto simp: Let_def split: prod.splits)
qed (simp add: stop_removed_def)

lemma stop_removed_Cons:
  "fst (stop_removed (i # ids) m) = fst (stop_removed ids (fst (stop_server (\<lambda>m. m) i m)))"
  "snd (stop_removed (i # ids) m) =
    (case Option.bind (mcp_lookup m i) me_client of Some x \<Rightarrow> [x] | None \<Rightarrow> []) @ snd (stop_removed ids (fst (stop_server (\<lambda>m. m) i m)))"
proof -
  obtain m1 c r where s: "stop_server (\<lambda>m. m) i m = (m1, c, r)" by (metis prod_cases3)
  have c: "Option.bind (mcp_lookup m i) me_client = c" using stop_server_frame(3)[of i m] s by simp
  have "stop_removed (i # ids) m = (let (m', cs) = stop_removed ids m1 in (m', (case c of Some x \<Rightarrow> [x] | None \<Rightarrow> []) @ cs))"
    using stop_removed_fold[of ids m1 "case c of Some x \<Rightarrow> [x] | None \<Rightarrow> []"]
    by (cases c) (simp_all add: stop_removed_def s)
  then show "fst (stop_removed (i # ids) m) = fst (stop_removed ids (fst (stop_server (\<lambda>m. m) i m)))"
    "snd (stop_removed (i # ids) m) = (case Option.bind (mcp_lookup m i) me_client of Some x \<Rightarrow> [x] | None \<Rightarrow> [])
      @ snd (stop_removed ids (fst (stop_server (\<lambda>m. m) i m)))"
    unfolding c by (simp_all add: s case_prod_unfold Let_def)
qed

lemma stop_removed_Nil [simp]: "stop_removed [] m = (m, [])"
  by (simp add: stop_removed_def)

lemma stop_removed_frame:
  "i \<notin> set ids \<Longrightarrow> mcp_lookup (fst (stop_removed ids m)) i = mcp_lookup m i"
  "mm_health_status (fst (stop_removed ids m)) = mm_health_status m"
  "mcp_ok m \<Longrightarrow> mcp_ok (fst (stop_removed ids m))"
proof (induction ids arbitrary: m)
  case (Cons j ids)
  { case 1 with Cons.IH(1) show ?case by (simp add: stop_removed_Cons stop_server_frame) }
  { case 2 from Cons.IH(2) show ?case by (simp add: stop_removed_Cons stop_server_frame) }
  { case 3 with Cons.IH(3) show ?case by (simp add: stop_removed_Cons mcp_ok_stop) }
qed simp_all

lemma map_filter_cong: "(\<And>x. x \<in> set xs \<Longrightarrow> f x = g x) \<Longrightarrow> List.map_filter f xs = List.map_filter g xs"
  by (induction xs) (auto simp: List.map_filter_simps split: option.split)

lemma map_filter_keys:
  assumes "distinct (map fst es)"
  shows "List.map_filter (\<lambda>i. Option.bind (map_of es i) f) (filter P (map fst es)) =
    List.map_filter (\<lambda>(i, e). if P i then f e else None) es"
proof -
  have "List.map_filter g (filter P (map fst xs)) = List.map_filter (\<lambda>x. if P (fst x) then g (fst x) else None) xs"
    for g and xs :: "('a \<times> 'b) list"
    by (induction xs) (auto simp: List.map_filter_simps split: option.split)
  also have "List.map_filter (\<lambda>x. if P (fst x) then Option.bind (map_of es (fst x)) f else None) es =
      List.map_filter (\<lambda>(i, e). if P i then f e else None) es"
    using assms by (intro map_filter_cong) auto
  finally show ?thesis .
qed

lemma stop_removed_cancels:
  "distinct ids \<Longrightarrow> snd (stop_removed ids m) = List.map_filter (\<lambda>i. Option.bind (mcp_lookup m i) me_client) ids"
proof (induction ids arbitrary: m)
  case (Cons j ids)
  let ?m = "fst (stop_server (\<lambda>m. m) j m)"
  have "mcp_lookup ?m i = mcp_lookup m i" if "i \<in> set ids" for i
    using Cons.prems that by (auto simp: stop_server_frame)
  then have "List.map_filter (\<lambda>i. Option.bind (mcp_lookup ?m i) me_client) ids
      = List.map_filter (\<lambda>i. Option.bind (mcp_lookup m i) me_client) ids"
    by (auto intro: map_filter_cong)
  with Cons show ?case
    by (simp add: stop_removed_Cons List.map_filter_simps split: option.split)
qed (simp add: List.map_filter_simps)

lemma reload_configs_get:
  "mcp_lookup (fst (reload_configs configs m)) i =
    (case find (\<lambda>c. ms_id c = i) (rev configs) of
       None \<Rightarrow> None
     | Some c \<Rightarrow> Some (case mcp_lookup m i of Some e \<Rightarrow> e\<lparr>me_config := c\<rparr> | None \<Rightarrow> new_entry c))"
proof -
  let ?ids = "filter (\<lambda>i. i \<notin> ms_id ` set configs) (map fst (mm_entries m))"
  let ?m = "fst (stop_removed ?ids m)"
  have "mcp_lookup (fst (reload_configs configs m)) i = hm_get (fold put_config configs (fold hm_remove ?ids (mm_entries ?m))) i"
    by (simp add: reload_configs_def mcp_lookup_def Let_def case_prod_unfold)
  also have "\<dots> = (case find (\<lambda>c. ms_id c = i) (rev configs) of
      Some c \<Rightarrow> Some (case mcp_lookup m i of Some e \<Rightarrow> e\<lparr>me_config := c\<rparr> | None \<Rightarrow> new_entry c)
    | None \<Rightarrow> None)"
  proof (cases "find (\<lambda>c. ms_id c = i) (rev configs)")
    case None
    then have "i \<notin> ms_id ` set configs" by (auto simp: find_None_iff)
    then have "i \<in> set ?ids \<or> mcp_lookup m i = None"
      by (auto simp: mcp_lookup_def map_of_eq_None_iff)
    then have "hm_get (fold hm_remove ?ids (mm_entries ?m)) i = None"
      using stop_removed_frame(1)[of i ?ids m] by (auto simp: fold_remove_get mcp_lookup_def)
    with None show ?thesis by (simp add: fold_put_config_get)
  next
    case (Some c)
    then have "i \<notin> set ?ids" by (auto dest!: findD)
    then have "hm_get (fold hm_remove ?ids (mm_entries ?m)) i = mcp_lookup m i"
      using stop_removed_frame(1)[of i ?ids m] by (auto simp: fold_remove_get mcp_lookup_def)
    with Some show ?thesis by (simp add: fold_put_config_get)
  qed
  finally show ?thesis by (simp add: option.case_eq_if)
qed


lemma mcp_ok_reload: "mcp_ok m \<Longrightarrow> mcp_ok (fst (reload_configs configs m))"
proof -
  assume m: "mcp_ok m"
  let ?ids = "filter (\<lambda>i. i \<notin> ms_id ` set configs) (map fst (mm_entries m))"
  have ok: "mcp_ok (fst (stop_removed ?ids m))" using m by (rule stop_removed_frame(3))
  have "entry_ok i e" if "mcp_lookup (fst (reload_configs configs m)) i = Some e" for i e
    using that by (auto simp: reload_configs_get entry_ok_def new_entry_def dest!: findD split: option.splits)
  then show ?thesis
    using ok unfolding mcp_ok_def
    by (simp add: reload_configs_def Let_def case_prod_unfold fold_put_config_ok fold_remove_ok fold_remove_get)
qed

section \<open>Reachable managers\<close>

text \<open>
  The steps are the lock sections: an operation with two of them, \<open>start_server\<close> or \<open>stop_server\<close>, is two
  steps, and the steps of other operations may come between.
\<close>

inductive mcp_step :: "'c mcp_manager \<Rightarrow> 'c mcp_manager \<Rightarrow> bool" where
  load: "mcp_step m (load_configs cs m)"
| reload: "mcp_step m (fst (reload_configs cs m))"
| started: "mcp_step m (fst (start_store h i spawned m))"
| take_client: "mcp_step m (with_entry m i (\<lambda>e. e\<lparr>me_client := None\<rparr>))"
| clear_count: "mcp_step m (with_entry m i (\<lambda>e. e\<lparr>me_tool_count := None\<rparr>))"
| stop_all: "mcp_step m (fst (stop_all m))"
| tools: "mcp_step m (fst (list_tools h i m))"
| health: "mcp_step m (fst (check_server_health h now i m))"

inductive mcp_reachable :: "'c mcp_manager \<Rightarrow> bool" where
  start: "mcp_reachable mcp_new"
| step: "mcp_reachable m \<Longrightarrow> mcp_step m m' \<Longrightarrow> mcp_reachable m'"

lemma mcp_step_ok: "mcp_step m m' \<Longrightarrow> mcp_ok m \<Longrightarrow> mcp_ok m'"
  by (induction rule: mcp_step.induct)
    (simp_all add: mcp_ok_load mcp_ok_reload mcp_ok_start_store mcp_ok_with_entry mcp_ok_stop_all mcp_ok_list mcp_ok_health)

lemma mcp_reachable_ok: "mcp_reachable m \<Longrightarrow> mcp_ok m"
proof (induction rule: mcp_reachable.induct)
  case start
  show ?case by (simp add: mcp_ok_def mcp_new_def mcp_lookup_def)
qed (rule mcp_step_ok)

section \<open>Probes\<close>

lemma failed_list: "snd (list_tools h i m) = Inl e \<Longrightarrow> fst (list_tools h i m) = m"
  by (auto simp: list_tools_def split: sum.splits)

lemma list_tools_only_entries: "list_tools h i (m\<lparr>mm_health_status := s\<rparr>) =
    (let (m', r) = list_tools h i m in (m'\<lparr>mm_health_status := s\<rparr>, r))"
  by (auto simp: list_tools_def running_client_def mcp_lookup_def with_entry_def split: sum.splits option.splits)

definition failures :: "'c mcp_manager \<Rightarrow> string \<Rightarrow> u32" where
  "failures m i = (case hm_get (mm_health_status m) i of
     Some p \<Rightarrow> if mh_healthy p then 0 else mh_consecutive_failures p | None \<Rightarrow> 0)"

definition probe_all :: "('c mcp_host \<times> utc) list \<Rightarrow> string \<Rightarrow> 'c mcp_manager \<Rightarrow> 'c mcp_manager" where
  "probe_all ps i m = fold (\<lambda>(h, now) m. fst (check_server_health h now i m)) ps m"

lemma failed_probe:
  assumes "snd (list_tools h i m) = Inl e"
  shows "failures (fst (check_server_health h now i m)) i = failures m i + 1"
    and "mm_entries (fst (check_server_health h now i m)) = mm_entries m"
proof -
  have l: "list_tools h i m = (m, Inl e)" using failed_list[OF assms] assms by (metis prod.collapse)
  show "failures (fst (check_server_health h now i m)) i = failures m i + 1"
    by (simp add: check_server_health_def l failures_def Let_def split: option.splits)
  show "mm_entries (fst (check_server_health h now i m)) = mm_entries m"
    by (simp add: check_server_health_def l Let_def)
qed

section \<open>Properties\<close>

text \<open>Whatever the operations and however their lock sections interleave, ids stay unique and every entry
  stands under the id of its configuration.\<close>

theorem mcp_entries_keep_ids:
  assumes "mcp_reachable m" "mcp_lookup m i = Some e"
  shows "ms_id (me_config e) = i \<and> hm_ok (mm_entries m)"
  using mcp_reachable_ok[OF assms(1)] assms(2) by (simp add: mcp_ok_def entry_ok_def)

definition demo_server :: "string \<Rightarrow> mcp_server_config" where
  "demo_server i = \<lparr>ms_id = i, ms_name = i, ms_command = ''npx'', ms_args = [], ms_env = [], ms_cwd = None,
     ms_enabled = True, ms_expose_tools = True\<rparr>"

definition demo_host :: "nat mcp_host" where
  "demo_host = \<lparr>host_spawn = (\<lambda>c. Inr (length (ms_id c))),
     host_list = (\<lambda>c. Inr [\<lparr>mt_name = ''read'', mt_description = None, mt_input_schema = []\<rparr>]),
     host_call = (\<lambda>c n a. Inr \<lparr>tr_content = [TextContent ''ok''], tr_is_error = None\<rparr>)\<rparr>"

definition demo_mcp :: "nat mcp_manager" where
  "demo_mcp = fst (start_server demo_host (\<lambda>m. m) ''fs'' (load_configs [demo_server ''fs'', demo_server ''web''] mcp_new))"

lemma demo_mcp_entries:
  "mm_entries demo_mcp = [(''fs'', (new_entry (demo_server ''fs''))\<lparr>me_client := Some 2, me_tool_count := Some 1\<rparr>),
     (''web'', new_entry (demo_server ''web''))]"
  "mm_health_status demo_mcp = []"
  by (simp_all add: demo_mcp_def load_configs_def mcp_new_def demo_server_def start_server_def start_check_def mcp_lookup_def
      start_store_def demo_host_def with_entry_def hm_modify_def new_entry_def)

lemma demo_mcp_reachable: "mcp_reachable demo_mcp"
proof -
  let ?m = "load_configs [demo_server ''fs'', demo_server ''web''] mcp_new :: nat mcp_manager"
  have "mcp_reachable ?m" by (rule mcp_reachable.step[OF mcp_reachable.start mcp_step.load])
  moreover have "demo_mcp = fst (start_store demo_host ''fs'' (Inr 2) ?m)"
    by (simp add: demo_mcp_def start_server_def start_check_def mcp_lookup_def load_configs_def demo_server_def
        new_entry_def demo_host_def numeral_2_eq_2)
  ultimately show ?thesis using mcp_reachable.step mcp_step.started by metis
qed

lemma mcp_entries_keep_ids_witness:
  "\<exists>e. mcp_lookup demo_mcp ''fs'' = Some e \<and> ms_id (me_config e) = ''fs''"
  using mcp_entries_keep_ids[OF demo_mcp_reachable, of "''fs''"]
  by (simp add: mcp_lookup_def demo_mcp_entries)

text \<open>A reload keeps the client, the last error and the tool count of every server that stays, takes the new
  configuration (the last one with its id), forgets the servers that are gone, and cancels exactly their clients.\<close>

theorem mcp_reload_keeps_running:
  assumes "mcp_reachable m"
  shows "mcp_lookup (fst (reload_configs configs m)) i =
      (case find (\<lambda>c. ms_id c = i) (rev configs) of
         None \<Rightarrow> None
       | Some c \<Rightarrow> Some (case mcp_lookup m i of Some e \<Rightarrow> e\<lparr>me_config := c\<rparr> | None \<Rightarrow> new_entry c))
    \<and> snd (reload_configs configs m) =
      List.map_filter (\<lambda>(i, e). if i \<notin> ms_id ` set configs then me_client e else None) (mm_entries m)"
proof -
  have "distinct (map fst (mm_entries m))" using mcp_reachable_ok[OF assms] by (simp add: mcp_ok_def hm_ok_def)
  then have "snd (reload_configs configs m) =
      List.map_filter (\<lambda>(i, e). if i \<notin> ms_id ` set configs then me_client e else None) (mm_entries m)"
    by (simp add: reload_configs_def Let_def case_prod_unfold stop_removed_cancels mcp_lookup_def
        map_filter_keys[unfolded case_prod_unfold])
  then show ?thesis by (simp add: reload_configs_get)
qed

lemma mcp_reload_keeps_running_witness:
  "map_option me_client (mcp_lookup (fst (reload_configs [demo_server ''fs''] demo_mcp)) ''fs'') = Some (Some 2)
    \<and> snd (reload_configs [demo_server ''web''] demo_mcp) = [2]"
  using mcp_reload_keeps_running[OF demo_mcp_reachable, of "[demo_server ''fs'']" "''fs''"]
    mcp_reload_keeps_running[OF demo_mcp_reachable, of "[demo_server ''web'']" "''fs''"]
  by (simp add: mcp_lookup_def demo_mcp_entries demo_server_def List.map_filter_simps new_entry_def)

text \<open>The failure count of the health monitor is exactly the number of failed probes since the last success.\<close>

theorem probes_count_failures:
  assumes "\<forall>(h, now) \<in> set ps. \<exists>e. snd (list_tools h i m) = Inl e"
  shows "failures (probe_all ps i m) i = failures m i + of_nat (length ps)"
  using assms
proof (induction ps arbitrary: m)
  case (Cons p ps)
  obtain h now where p: "p = (h, now)" by fastforce
  from Cons.prems p obtain e where e: "snd (list_tools h i m) = Inl e" by auto
  let ?m = "fst (check_server_health h now i m)"
  have "snd (list_tools h' i ?m) = snd (list_tools h' i m)" for h'
    using failed_probe(2)[OF e]
    by (auto simp: list_tools_def running_client_def mcp_lookup_def split: sum.splits option.splits)
  with Cons.prems p have "\<forall>(h, now) \<in> set ps. \<exists>e. snd (list_tools h i ?m) = Inl e" by auto
  from Cons.IH[OF this] failed_probe(1)[OF e] p show ?case by (simp add: probe_all_def)
qed (simp add: probe_all_def)

lemma probes_count_failures_witness:
  "failures (probe_all [(demo_host, 1), (demo_host, 2), (demo_host, 3)] ''web'' demo_mcp) ''web'' = 3"
  using probes_count_failures[of "[(demo_host, 1), (demo_host, 2), (demo_host, 3)]" "''web''" demo_mcp]
  by (simp add: list_tools_def running_client_def mcp_lookup_def demo_mcp_entries new_entry_def failures_def)

end
