(* ===== verification/Config_Reload.thy ===== *)
theory Config_Reload
  imports Channel_Manager Rate_Limiter Payload_Rules Mcp_Manager
begin

text \<open>
  \<open>config/watcher.rs\<close>: the reload of a changed configuration file. The running channels are converted back to
  configurations and compared with the file; only the differences are applied, so that an unchanged channel
  keeps its circuit breaker, latency and failure counts. Limits and payload rules are set for all channels of
  the file. \<open>parse_uuid\<close> and \<open>print_uuid\<close> are the uuid crate's; \<open>fresh\<close> draws the random ids of the three loops.
  The MCP servers of the file are handed to \<open>reload_configs\<close> of the MCP manager.
\<close>

record payload_rules_config =
  prc_rules :: payload_rules
  prc_model_rules :: "model_payload_rule list"

type_synonym file_channel = "payload_rules_config channel_config"

section \<open>Differences\<close>

text \<open>\<open>HashMap\<close> equality, and the collection of a list into a map (a later entry replaces an earlier one).\<close>

definition hm_eq :: "('k, 'v) hashmap \<Rightarrow> ('k, 'v) hashmap \<Rightarrow> bool" where
  "hm_eq a b \<longleftrightarrow> length a = length b \<and> list_all (\<lambda>(k, v). hm_get b k = Some v) a"

definition opt_hm_eq :: "('k, 'v) hashmap option \<Rightarrow> ('k, 'v) hashmap option \<Rightarrow> bool" where
  "opt_hm_eq a b = (case (a, b) of (Some x, Some y) \<Rightarrow> hm_eq x y | (None, None) \<Rightarrow> True | _ \<Rightarrow> False)"

definition config_map :: "'r channel_config list \<Rightarrow> (string, 'r channel_config) hashmap" where
  "config_map cs = fold (\<lambda>c m. hm_insert (cc_id c) c m) cs []"

record 'r channel_diff =
  df_added :: "'r channel_config list"
  df_removed :: "string list"
  df_updated :: "'r channel_config list"

definition channel_config_changed :: "'r channel_config \<Rightarrow> 'r channel_config \<Rightarrow> bool" where
  "channel_config_changed old new \<longleftrightarrow>
     cc_name old \<noteq> cc_name new \<or> cc_provider old \<noteq> cc_provider new \<or> cc_priority old \<noteq> cc_priority new
     \<or> cc_weight old \<noteq> cc_weight new \<or> cc_enabled old \<noteq> cc_enabled new \<or> cc_base_url old \<noteq> cc_base_url new
     \<or> \<not> hm_eq (cc_model_mapping old) (cc_model_mapping new) \<or> cc_api_keys old \<noteq> cc_api_keys new
     \<or> cc_excluded_models old \<noteq> cc_excluded_models new \<or> cc_rpm_limit old \<noteq> cc_rpm_limit new
     \<or> cc_tpm_limit old \<noteq> cc_tpm_limit new \<or> cc_proxy_url old \<noteq> cc_proxy_url new
     \<or> cc_credential_ref old \<noteq> cc_credential_ref new \<or> cc_api_key old \<noteq> cc_api_key new
     \<or> cc_max_concurrent old \<noteq> cc_max_concurrent new \<or> \<not> opt_hm_eq (cc_headers old) (cc_headers new)
     \<or> cc_max_retries old \<noteq> cc_max_retries new \<or> cc_models_endpoint old \<noteq> cc_models_endpoint new
     \<or> cc_models_refresh_interval_secs old \<noteq> cc_models_refresh_interval_secs new"

definition diff_channels :: "'r channel_config list \<Rightarrow> 'r channel_config list \<Rightarrow> 'r channel_diff" where
  "diff_channels old new =
     (let old_map = config_map old; new_map = config_map new
      in \<lparr>df_added = filter (\<lambda>c. hm_get old_map (cc_id c) = None) new,
          df_removed = map cc_id (filter (\<lambda>c. \<not> hm_contains new_map (cc_id c)) old),
          df_updated = filter (\<lambda>c. case hm_get old_map (cc_id c) of
             None \<Rightarrow> False | Some old_c \<Rightarrow> channel_config_changed old_c c) new\<rparr>)"

text \<open>The watcher's own \<open>channel_to_config\<close>: like the one of the manager, but without the quota.\<close>

definition runtime_config :: "(uuid \<Rightarrow> string) \<Rightarrow> channel \<Rightarrow> 'r channel_config" where
  "runtime_config print_uuid c = (channel_to_config print_uuid c)\<lparr>cc_quota := None\<rparr>"

section \<open>Applying a file\<close>

record 'c reload_state =
  ld_manager :: manager
  ld_mcp :: "'c mcp_manager"
  ld_limiter :: rate_limiter
  ld_rules :: rules_registry

definition add_channels ::
  "(string \<Rightarrow> uuid option) \<Rightarrow> (nat \<Rightarrow> uuid) \<Rightarrow> utc \<Rightarrow> 'r channel_config list \<Rightarrow> manager \<Rightarrow> manager" where
  "add_channels parse_uuid fresh now cs m =
     fold (\<lambda>(n, c) m. manager_create m (channel_from_config parse_uuid (fresh n) now c)) (enumerate 0 cs) m"

definition remove_channels ::
  "(string \<Rightarrow> uuid option) \<Rightarrow> string list \<Rightarrow> manager \<times> rules_registry \<Rightarrow> manager \<times> rules_registry" where
  "remove_channels parse_uuid ids s =
     fold (\<lambda>i (m, g). case parse_uuid i of Some u \<Rightarrow> (fst (manager_delete m u), rules_remove g u) | None \<Rightarrow> (m, g)) ids s"

definition update_channels ::
  "(string \<Rightarrow> uuid option) \<Rightarrow> (nat \<Rightarrow> uuid) \<Rightarrow> utc \<Rightarrow> 'r channel_config list \<Rightarrow> manager \<Rightarrow> manager" where
  "update_channels parse_uuid fresh now cs m =
     fold (\<lambda>(n, c) m. let ch = channel_from_config parse_uuid (fresh n) now c in fst (manager_update m (ch_id ch) ch))
       (enumerate 0 cs) m"

definition reload_limits ::
  "(string \<Rightarrow> uuid option) \<Rightarrow> instant \<Rightarrow> uuid \<Rightarrow> file_channel \<Rightarrow> rate_limiter \<times> rules_registry \<Rightarrow> rate_limiter \<times> rules_registry" where
  "reload_limits parse_uuid inst fresh c = (\<lambda>(lim, g).
     let i = (case parse_uuid (cc_id c) of Some u \<Rightarrow> u | None \<Rightarrow> fresh);
         lim = (case cc_rpm_limit c of Some n \<Rightarrow> set_channel_rpm_limit lim inst i n | None \<Rightarrow> lim);
         lim = (case cc_tpm_limit c of Some n \<Rightarrow> set_channel_tpm_limit lim inst i n | None \<Rightarrow> lim);
         g = (case cc_payload_rules c of
                None \<Rightarrow> g
              | Some r \<Rightarrow>
                  let g = rules_add g i (prc_rules r)
                  in if prc_model_rules r \<noteq> [] then set_model_rules g i (prc_model_rules r) else g)
     in (lim, g))"

definition apply_config_reload ::
  "(uuid \<Rightarrow> string) \<Rightarrow> (string \<Rightarrow> uuid option) \<Rightarrow> (nat \<Rightarrow> nat \<Rightarrow> uuid) \<Rightarrow> utc \<Rightarrow> instant \<Rightarrow> file_channel list
     \<Rightarrow> mcp_server_config list \<Rightarrow> 'c reload_state \<Rightarrow> 'c reload_state" where
  "apply_config_reload print_uuid parse_uuid fresh now inst new_channels mcp_servers st =
     (let old = map (runtime_config print_uuid) (manager_list (ld_manager st) now);
          diff = diff_channels old new_channels;
          m = add_channels parse_uuid (fresh 0) now (df_added diff) (ld_manager st);
          (m, g) = remove_channels parse_uuid (df_removed diff) (m, ld_rules st);
          m = update_channels parse_uuid (fresh 1) now (df_updated diff) m;
          mcp = fst (reload_configs mcp_servers (ld_mcp st));
          (lim, g) = fold (\<lambda>(n, c). reload_limits parse_uuid inst (fresh 2 n) c) (enumerate 0 new_channels)
                       (ld_limiter st, g)
      in \<lparr>ld_manager = m, ld_mcp = mcp, ld_limiter = lim, ld_rules = g\<rparr>)"

section \<open>Lookups\<close>

lemma config_map_get:
  assumes "distinct (map cc_id cs)"
  shows "hm_get (config_map cs) k = Some c \<longleftrightarrow> c \<in> set cs \<and> cc_id c = k"
proof -
  have "hm_get (fold (\<lambda>c m. hm_insert (cc_id c) c m) cs m) k = Some c \<longleftrightarrow>
      c \<in> set cs \<and> cc_id c = k \<or> k \<notin> cc_id ` set cs \<and> hm_get m k = Some c" for m
    using assms by (induction cs arbitrary: m) auto
  then show ?thesis by (simp add: config_map_def)
qed

lemma config_map_none:
  assumes "distinct (map cc_id cs)"
  shows "hm_get (config_map cs) k = None \<longleftrightarrow> k \<notin> cc_id ` set cs"
  using config_map_get[OF assms] by (metis (mono_tags, lifting) image_iff not_None_eq)

lemma hm_eq_refl [simp]: "hm_ok a \<Longrightarrow> hm_eq a a"
  by (auto simp: hm_eq_def hm_ok_def list_all_iff)

text \<open>What a loop over channels does to one entry.\<close>

lemma fold_create_get:
  assumes "distinct (map ch_id chs)"
  shows "manager_get (fold (\<lambda>ch m. manager_create m ch) chs m) i = Some ch \<longleftrightarrow>
    ch \<in> set chs \<and> ch_id ch = i \<or> i \<notin> ch_id ` set chs \<and> manager_get m i = Some ch"
  using assms by (induction chs arbitrary: m) (auto simp: manager_create_def manager_get_def)

lemma fold_update_get:
  assumes "distinct (map ch_id chs)" "\<forall>c \<in> set chs. manager_get m (ch_id c) \<noteq> None"
  shows "manager_get (fold (\<lambda>ch m. fst (manager_update m (ch_id ch) ch)) chs m) i = Some ch \<longleftrightarrow>
    ch \<in> set chs \<and> ch_id ch = i \<or> i \<notin> ch_id ` set chs \<and> manager_get m i = Some ch"
  using assms
proof (induction chs arbitrary: m)
  case (Cons c cs)
  let ?m = "fst (manager_update m (ch_id c) c)"
  have m: "manager_get ?m j = (if j = ch_id c then Some c else manager_get m j)" for j
    using Cons.prems(2) by (auto simp: manager_update_def manager_get_def hm_contains_def)
  then have "\<forall>d \<in> set cs. manager_get ?m (ch_id d) \<noteq> None" using Cons.prems(2) by auto
  with Cons.IH[of ?m] Cons.prems(1) m show ?case by (auto split: if_splits)
qed simp

lemma fold_delete_get:
  "manager_get (fst (remove_channels parse ids (m, g))) i = (if Some i \<in> parse ` set ids then None else manager_get m i)"
proof (induction ids arbitrary: m g)
  case (Cons a ids)
  then show ?case
    by (cases "parse a") (auto simp: remove_channels_def manager_delete_def manager_get_def image_iff)
qed (simp add: remove_channels_def)

text \<open>With parsable ids no random id is used.\<close>

lemma enumerate_not_fresh:
  assumes "\<forall>c \<in> set cs. parse (cc_id c) \<noteq> None"
  shows "map (\<lambda>(n, c). channel_from_config parse (fresh n) now c) (enumerate k cs) = map (channel_from_config parse 0 now) cs"
  using assms by (induction cs arbitrary: k) (auto simp: channel_from_config_def)

lemma loops_not_fresh:
  assumes "\<forall>c \<in> set cs. parse (cc_id c) \<noteq> None"
  shows "add_channels parse fresh now cs m = fold (\<lambda>ch m. manager_create m ch) (map (channel_from_config parse 0 now) cs) m"
    "update_channels parse fresh now cs m =
       fold (\<lambda>ch m. fst (manager_update m (ch_id ch) ch)) (map (channel_from_config parse 0 now) cs) m"
  unfolding enumerate_not_fresh[OF assms, of fresh now 0, symmetric] fold_map
  by (simp_all add: add_channels_def update_channels_def comp_def case_prod_unfold Let_def)


section \<open>The diff against the running channels\<close>

lemma runtime_config_recover [simp]:
  "runtime_config print_uuid (recover_if_expired c now) = runtime_config print_uuid c"
  by (auto simp: recover_if_expired_def runtime_config_def channel_to_config_def split: option.splits)

lemma runtime_config_id [simp]: "cc_id (runtime_config print_uuid c) = print_uuid (ch_id c)"
  by (simp add: runtime_config_def channel_to_config_def)

lemma running_configs:
  "map (runtime_config print_uuid) (manager_list m now) = map (runtime_config print_uuid) (hm_values (mgr_channels m))"
  by (simp add: manager_list_def)

lemma channel_ids_are_keys:
  assumes "hm_ok (mgr_channels m)" "mgr_inv m"
  shows "map ch_id (hm_values (mgr_channels m)) = map fst (mgr_channels m)"
proof -
  have "ch_id c = i" if "(i, c) \<in> set (mgr_channels m)" for i c
    using assms that by (simp add: hm_get_iff[symmetric] mgr_inv_def manager_get_def stored_ok_def)
  then show ?thesis by (auto simp: hm_values_def)
qed

lemma running_lookup:
  assumes "hm_ok (mgr_channels m)" "mgr_inv m" "inj print_uuid"
  shows "hm_get (config_map (map (runtime_config print_uuid) (hm_values (mgr_channels m)))) (print_uuid i) =
    map_option (runtime_config print_uuid) (manager_get m i)" (is "hm_get (config_map ?cs) _ = _")
proof -
  have ids: "map cc_id ?cs = map print_uuid (map fst (mgr_channels m))"
    by (simp add: channel_ids_are_keys[OF assms(1,2), symmetric])
  have d: "distinct (map cc_id ?cs)"
    unfolding ids using assms(1,3) by (simp add: distinct_map hm_ok_def comp_inj_on inj_on_subset)
  show ?thesis
  proof (cases "manager_get m i")
    case None
    then have "i \<notin> fst ` set (mgr_channels m)" by (simp add: manager_get_def map_of_eq_None_iff)
    then have "print_uuid i \<notin> set (map cc_id ?cs)"
      unfolding ids using assms(3) by (auto dest: injD)
    with None show ?thesis by (auto simp: config_map_none[OF d])
  next
    case (Some c)
    then have "ch_id c = i" using assms(2) by (simp add: mgr_inv_def stored_ok_def)
    moreover have "c \<in> set (hm_values (mgr_channels m))"
      using Some assms(1) by (auto simp: hm_values_get manager_get_def)
    ultimately show ?thesis using Some config_map_get[OF d] by simp
  qed
qed

text \<open>A loop over the channels of some configurations, with pairwise different ids, as a lookup.\<close>

lemma find_unique:
  assumes "distinct (map f cs)"
  shows "find (\<lambda>c. f c = k) cs = Some c \<longleftrightarrow> c \<in> set cs \<and> f c = k"
  using assms by (induction cs) auto

lemma find_filter_unique:
  assumes "distinct (map f cs)"
  shows "find (\<lambda>c. f c = k) (filter Q cs) =
    (case find (\<lambda>c. f c = k) cs of Some c \<Rightarrow> if Q c then Some c else None | None \<Rightarrow> None)"
proof (cases "find (\<lambda>c. f c = k) cs")
  case (Some c)
  then have c: "c \<in> set cs" "f c = k" using find_unique[OF assms] by auto
  have "x = c" if "x \<in> set cs" "f x = k" for x
    using assms c that by (auto simp: distinct_map inj_on_def)
  moreover have "find (\<lambda>c. f c = k) (filter Q cs) = Some c \<longleftrightarrow> Q c"
    using find_unique[OF distinct_map_filter[OF assms]] c by auto
  ultimately show ?thesis using Some by (auto simp: find_None_iff)
next
  case None
  then have "find (\<lambda>c. f c = k) (filter Q cs) = None" by (simp add: find_None_iff)
  with None show ?thesis by simp
qed

definition printed_ids :: "(uuid \<Rightarrow> string) \<Rightarrow> 'r channel_config list \<Rightarrow> bool" where
  "printed_ids print_uuid cs \<longleftrightarrow> distinct (map cc_id cs) \<and> list_all (\<lambda>c. cc_id c \<in> range print_uuid) cs"

lemma printed_ids_filter: "printed_ids print_uuid cs \<Longrightarrow> printed_ids print_uuid (filter Q cs)"
  by (auto simp: printed_ids_def list_all_iff distinct_map_filter)

lemma printed_ids_find: "printed_ids print_uuid cs \<Longrightarrow>
    find (\<lambda>c. cc_id c = k) (filter Q cs) =
      (case find (\<lambda>c. cc_id c = k) cs of Some c \<Rightarrow> if Q c then Some c else None | None \<Rightarrow> None)"
  by (simp add: printed_ids_def find_filter_unique)

lemma printed_channels:
  fixes now :: utc and parse :: "string \<Rightarrow> uuid option" and cs :: "'r channel_config list"
  assumes "\<forall>u. parse (print_uuid u) = Some u" "printed_ids print_uuid cs"
  defines "chs \<equiv> map (channel_from_config parse 0 now) cs"
  shows "\<forall>c \<in> set cs. parse (cc_id c) \<noteq> None" (is ?p)
    and "distinct (map ch_id chs)" (is ?d)
    and "ch \<in> set chs \<and> ch_id ch = i \<or> i \<notin> ch_id ` set chs \<and> old = Some ch \<longleftrightarrow>
      (case find (\<lambda>c. cc_id c = print_uuid i) cs of Some c \<Rightarrow> Some (channel_from_config parse 0 now c) | None \<Rightarrow> old) = Some ch"
      (is ?g)
proof -
  have r: "\<forall>c \<in> set cs. \<exists>u. cc_id c = print_uuid u" and d: "distinct (map cc_id cs)"
    using assms(2) by (auto simp: printed_ids_def list_all_iff)
  show ?p using r assms(1) by fastforce
  have id: "ch_id (channel_from_config parse 0 now c) = i \<longleftrightarrow> cc_id c = print_uuid i" if "c \<in> set cs" for c i
    using r that assms(1) by (fastforce simp: channel_from_config_def)
  have inj: "inj_on cc_id (set cs)" using d by (simp add: distinct_map)
  have e: "c = c'" if c: "c \<in> set cs" and c': "c' \<in> set cs"
    and same: "ch_id (channel_from_config parse 0 now c) = ch_id (channel_from_config parse 0 now c')" for c c'
  proof -
    from id[OF c, of "ch_id (channel_from_config parse 0 now c')"] id[OF c', of "ch_id (channel_from_config parse 0 now c')"] same
    have "cc_id c = cc_id c'" by simp
    with inj c c' show ?thesis by (simp add: inj_on_def)
  qed
  show ?d unfolding chs_def distinct_map
    using d e by (auto simp: distinct_map inj_on_def)
  show ?g
  proof (cases "find (\<lambda>c. cc_id c = print_uuid i) cs")
    case None
    then have "\<forall>c \<in> set cs. ch_id (channel_from_config parse 0 now c) \<noteq> i" using id by (simp add: find_None_iff)
    with None show ?thesis by (auto simp: chs_def)
  next
    case (Some c)
    then have c: "c \<in> set cs" "cc_id c = print_uuid i" using find_unique[OF d] by auto
    have i: "ch_id (channel_from_config parse 0 now c) = i" using id c by simp
    have "ch \<in> set chs \<and> ch_id ch = i \<longleftrightarrow> ch = channel_from_config parse 0 now c"
    proof
      assume "ch \<in> set chs \<and> ch_id ch = i"
      then obtain x where x: "x \<in> set cs" "ch = channel_from_config parse 0 now x" "ch_id ch = i" by (auto simp: chs_def)
      then have "x = c" using i by (intro e[OF x(1) c(1)]) simp
      with x(2) show "ch = channel_from_config parse 0 now c" by simp
    qed (use i c(1) in \<open>simp add: chs_def\<close>)
    moreover have "i \<in> ch_id ` set chs" using i c(1) by (force simp: chs_def)
    ultimately show ?thesis using Some by auto
  qed
qed

lemma option_eqI: "(\<And>v. x = Some v \<longleftrightarrow> y = Some v) \<Longrightarrow> x = y"
  by (cases x; cases y) auto

lemma add_channels_get:
  assumes "\<forall>u. parse (print_uuid u) = Some u" "printed_ids print_uuid cs"
  shows "manager_get (add_channels parse fresh now cs m) i =
    (case find (\<lambda>c. cc_id c = print_uuid i) cs of
       Some c \<Rightarrow> Some (channel_from_config parse 0 now c) | None \<Rightarrow> manager_get m i)"
  unfolding loops_not_fresh(1)[OF printed_channels(1)[OF assms]]
  by (rule option_eqI, unfold fold_create_get[OF printed_channels(2)[OF assms]], rule printed_channels(3)[OF assms])

lemma update_channels_get:
  assumes "\<forall>u. parse (print_uuid u) = Some u" "printed_ids print_uuid cs"
    and "\<And>c i. c \<in> set cs \<Longrightarrow> cc_id c = print_uuid i \<Longrightarrow> manager_get m i \<noteq> None"
  shows "manager_get (update_channels parse fresh now cs m) i =
    (case find (\<lambda>c. cc_id c = print_uuid i) cs of
       Some c \<Rightarrow> Some (channel_from_config parse 0 now c) | None \<Rightarrow> manager_get m i)"
proof -
  let ?chs = "map (channel_from_config parse 0 now) cs"
  have "\<exists>u. cc_id c = print_uuid u \<and> ch_id (channel_from_config parse 0 now c) = u" if "c \<in> set cs" for c
    using assms(1,2) that by (fastforce simp: printed_ids_def list_all_iff channel_from_config_def)
  then have "\<forall>ch \<in> set ?chs. manager_get m (ch_id ch) \<noteq> None" using assms(3) by fastforce
  note g = fold_update_get[OF printed_channels(2)[OF assms(1,2)] this]
  show ?thesis
    unfolding loops_not_fresh(2)[OF printed_channels(1)[OF assms(1,2)]]
    by (rule option_eqI, unfold g, rule printed_channels(3)[OF assms(1,2)])
qed

section \<open>The channels after a reload\<close>

lemma reload_get:
  assumes r: "\<forall>u. parse (print_uuid u) = Some u" and ids: "printed_ids print_uuid cs"
    and ok: "hm_ok (mgr_channels (ld_manager st))" "mgr_inv (ld_manager st)"
  shows "manager_get (ld_manager (apply_config_reload print_uuid parse fresh now inst cs servers st)) i =
    (case find (\<lambda>c. cc_id c = print_uuid i) cs of
       None \<Rightarrow> None
     | Some c \<Rightarrow> (case manager_get (ld_manager st) i of
         Some ch \<Rightarrow> Some (if channel_config_changed (runtime_config print_uuid ch) c
                        then channel_from_config parse 0 now c else ch)
       | None \<Rightarrow> Some (channel_from_config parse 0 now c)))" (is "_ = ?rhs")
proof -
  let ?m = "ld_manager st"
  let ?run = "hm_values (mgr_channels ?m)"
  let ?old = "config_map (map (runtime_config print_uuid) ?run :: file_channel list)"
  let ?A = "\<lambda>c. hm_get ?old (cc_id c) = None"
  let ?U = "\<lambda>c. case hm_get ?old (cc_id c) of None \<Rightarrow> False | Some o' \<Rightarrow> channel_config_changed o' c"
  let ?R = "map cc_id (filter (\<lambda>c. \<not> hm_contains (config_map cs) (cc_id c)) (map (runtime_config print_uuid) ?run :: file_channel list))"
  have inj: "inj print_uuid" using r by (metis injI option.inject)
  note old = running_lookup[OF ok inj]
  define m1 where "m1 = add_channels parse (fresh 0) now (filter ?A cs) ?m"
  define m2 where "m2 = fst (remove_channels parse ?R (m1, ld_rules st))"
  have new: "hm_contains (config_map cs) (print_uuid j) \<longleftrightarrow> find (\<lambda>c. cc_id c = print_uuid j) cs \<noteq> None" for j
    using ids by (auto simp: config_map_none printed_ids_def hm_contains_def find_None_iff intro: rev_image_eqI)
  have run: "c \<in> set ?run \<and> ch_id c = j \<longleftrightarrow> manager_get ?m j = Some c" for c j
    using ok by (auto simp: hm_values_get manager_get_def mgr_inv_def stored_ok_def)
  have "Some j \<in> parse ` set ?R \<longleftrightarrow> (\<exists>c \<in> set ?run. ch_id c = j \<and> \<not> hm_contains (config_map cs) (print_uuid j))" for j
    using r by (auto simp: image_iff)
  then have "Some j \<in> parse ` set ?R \<longleftrightarrow> manager_get ?m j \<noteq> None \<and> find (\<lambda>c. cc_id c = print_uuid j) cs = None" for j
    using run[of _ j] new[of j] by (metis not_Some_eq)
  then have m2: "manager_get m2 j = (if manager_get ?m j \<noteq> None \<and> find (\<lambda>c. cc_id c = print_uuid j) cs = None
      then None else manager_get m1 j)" for j
    by (simp add: m2_def fold_delete_get)
  have m1: "manager_get m1 j = (case find (\<lambda>c. cc_id c = print_uuid j) cs of
      Some c \<Rightarrow> (if manager_get ?m j = None then Some (channel_from_config parse 0 now c) else manager_get ?m j)
    | None \<Rightarrow> manager_get ?m j)" for j
    unfolding m1_def add_channels_get[OF r printed_ids_filter[OF ids]] printed_ids_find[OF ids]
    by (auto simp: old dest!: findD split: option.splits)
  have there: "manager_get m2 j \<noteq> None" if "c \<in> set (filter ?U cs)" "cc_id c = print_uuid j" for c j
    using that old[of j] by (auto simp: m2 m1 find_None_iff split: option.splits)
  have "manager_get (update_channels parse (fresh 1) now (filter ?U cs) m2) i =
      (case find (\<lambda>c. cc_id c = print_uuid i) (filter ?U cs) of
         Some c \<Rightarrow> Some (channel_from_config parse 0 now c) | None \<Rightarrow> manager_get m2 i)"
    using r printed_ids_filter[OF ids] there by (rule update_channels_get)
  then have "manager_get (update_channels parse (fresh 1) now (filter ?U cs) m2) i = ?rhs"
    unfolding printed_ids_find[OF ids]
    by (auto simp: old m2 m1 dest!: findD split: option.splits)
  moreover have "ld_manager (apply_config_reload print_uuid parse fresh now inst cs servers st) =
      update_channels parse (fresh 1) now (filter ?U cs) m2"
    by (simp add: apply_config_reload_def diff_channels_def running_configs Let_def m1_def m2_def case_prod_unfold)
  ultimately show ?thesis by simp
qed


text \<open>The state a reload starts from, and that it keeps it.\<close>

definition reload_ready :: "'c reload_state \<Rightarrow> bool" where
  "reload_ready st \<longleftrightarrow> hm_ok (mgr_channels (ld_manager st)) \<and> mgr_inv (ld_manager st)"

lemma reload_hm_ok:
  assumes "hm_ok (mgr_channels (ld_manager st))"
  shows "hm_ok (mgr_channels (ld_manager (apply_config_reload print_uuid parse fresh now inst cs servers st)))"
proof -
  have add: "hm_ok (mgr_channels (add_channels parse f now xs m))" if "hm_ok (mgr_channels m)" for f and xs :: "file_channel list" and m
    unfolding add_channels_def using that
    by (rule fold_keeps[where P = "\<lambda>m. hm_ok (mgr_channels m)"]) (auto simp: manager_create_def)
  have upd: "hm_ok (mgr_channels (update_channels parse f now xs m))" if "hm_ok (mgr_channels m)" for f and xs :: "file_channel list" and m
    unfolding update_channels_def using that
    by (rule fold_keeps[where P = "\<lambda>m. hm_ok (mgr_channels m)"]) (auto simp: manager_update_def Let_def)
  have del: "hm_ok (mgr_channels (fst (remove_channels parse xs (m, g))))" if "hm_ok (mgr_channels m)" for xs m g
    unfolding remove_channels_def
    by (rule fold_keeps[where P = "\<lambda>s. hm_ok (mgr_channels (fst s))"])
      (use that in \<open>auto simp: manager_delete_def split: option.splits prod.splits\<close>)
  show ?thesis
    by (simp add: apply_config_reload_def Let_def case_prod_unfold add upd del assms)
qed

lemma reload_keeps_ready:
  assumes r: "\<forall>u. parse (print_uuid u) = Some u" and ids: "printed_ids print_uuid cs" and ok: "reload_ready st"
  shows "reload_ready (apply_config_reload print_uuid parse fresh now inst cs servers st)"
proof -
  have "stored_ok i ch" if "manager_get (ld_manager (apply_config_reload print_uuid parse fresh now inst cs servers st)) i = Some ch" for i ch
  proof -
    have "stored_ok i (channel_from_config parse 0 now c)" if "cc_id c = print_uuid i" for c :: file_channel
      using r that by (simp add: channel_from_config_def stored_ok_def circuit_ok_def)
    moreover have "stored_ok i c" if "manager_get (ld_manager st) i = Some c" for c
      using ok that by (simp add: reload_ready_def mgr_inv_def)
    ultimately show ?thesis
      using that ok reload_get[OF r ids, of st fresh now inst servers i]
      by (auto simp: reload_ready_def dest!: findD split: option.splits if_splits)
  qed
  then show ?thesis using ok by (simp add: reload_ready_def mgr_inv_def reload_hm_ok)
qed

text \<open>A channel made from a normal configuration converts back to an equal one.\<close>

definition normal_config :: "'r channel_config \<Rightarrow> bool" where
  "normal_config c \<longleftrightarrow> to_lowercase (cc_provider c) = cc_provider c \<and> cc_headers c \<noteq> Some []
     \<and> hm_ok (cc_model_mapping c) \<and> (case cc_headers c of Some h \<Rightarrow> hm_ok h | None \<Rightarrow> True)"

lemma normal_config_unchanged:
  "normal_config c \<Longrightarrow> \<not> channel_config_changed (runtime_config print_uuid (channel_from_config parse u now c)) c"
  by (auto simp: normal_config_def channel_config_changed_def runtime_config_def channel_to_config_def
      channel_from_config_def provider_as_from_str opt_hm_eq_def split: option.splits)


section \<open>Demonstration\<close>

text \<open>Ids printed as that many letters, one running channel whose circuit is open, and a file that changes nothing.\<close>

definition demo_print :: "uuid \<Rightarrow> string" where
  "demo_print u = replicate (unat u) CHR ''a''"

definition demo_parse :: "string \<Rightarrow> uuid option" where
  "demo_parse s = Some (of_nat (length s))"

definition demo_running :: channel where
  "demo_running = (example_channel 3)\<lparr>ch_status := CircuitOpen, ch_circuit_open_until := Some 50, ch_consecutive_failures := 4\<rparr>"

definition demo_reload_state :: "nat reload_state" where
  "demo_reload_state = \<lparr>ld_manager = manager_new [demo_running] 5 False, ld_mcp = demo_mcp, ld_limiter = rl_new None False 0, ld_rules = []\<rparr>"

definition demo_file :: "file_channel list" where
  "demo_file = [channel_to_config demo_print (example_channel 3)]"

lemma demo_parse_print: "demo_parse (demo_print u) = Some u"
  by (simp add: demo_parse_def demo_print_def)


lemma demo_file_ids: "printed_ids demo_print demo_file"
  by (simp add: printed_ids_def demo_file_def channel_to_config_def)

lemma demo_reload_ready: "reload_ready demo_reload_state" "manager_get (ld_manager demo_reload_state) 3 = Some demo_running"
proof -
  have get: "manager_get (ld_manager demo_reload_state) i = (if i = 3 then Some demo_running else None)" for i
    by (simp add: demo_reload_state_def manager_new_def manager_get_def demo_running_def example_channel_def)
  then show "manager_get (ld_manager demo_reload_state) 3 = Some demo_running" by simp
  have "mgr_inv (ld_manager demo_reload_state)"
    unfolding mgr_inv_def get by (simp add: stored_ok_def circuit_ok_def demo_running_def example_channel_def)
  then show "reload_ready demo_reload_state"
    by (simp add: reload_ready_def demo_reload_state_def manager_new_def hm_ok_def demo_running_def example_channel_def)
qed

lemma demo_file_normal: "list_all normal_config demo_file"
  by (simp add: demo_file_def normal_config_def channel_to_config_def example_channel_def to_lowercase_def Let_def)


section \<open>Properties\<close>



text \<open>
  Reloading the same file again changes no channel, whatever the time and the random ids, if the providers of
  the file are written in lower case and no header table is empty.
\<close>

theorem reload_idempotent:
  fixes servers :: "mcp_server_config list" and fresh :: "nat \<Rightarrow> nat \<Rightarrow> uuid" and now :: utc and inst :: instant
  assumes r: "\<forall>u. parse (print_uuid u) = Some u" and ids: "printed_ids print_uuid cs" and ok: "reload_ready st"
    and "list_all normal_config cs"
  defines "st' \<equiv> apply_config_reload print_uuid parse fresh now inst cs servers st"
  shows "manager_get (ld_manager (apply_config_reload print_uuid parse fresh' now' inst' cs servers' st')) i = manager_get (ld_manager st') i"
proof -
  have ready: "hm_ok (mgr_channels (ld_manager st))" "mgr_inv (ld_manager st)"
      "hm_ok (mgr_channels (ld_manager st'))" "mgr_inv (ld_manager st')"
    using ok reload_keeps_ready[OF r ids ok] by (simp_all add: reload_ready_def st'_def)
  have "\<not> channel_config_changed (runtime_config print_uuid (channel_from_config parse 0 now c)) c" if "c \<in> set cs" for c
    using assms(4) that by (simp add: normal_config_unchanged list_all_iff)
  then show ?thesis
    unfolding reload_get[OF r ids ready(3,4)]
    using reload_get[OF r ids ready(1,2), of fresh now inst servers i, folded st'_def]
    by (auto dest!: findD split: option.splits if_splits)
qed

lemma reload_idempotent_witness:
  "manager_get (ld_manager (apply_config_reload demo_print demo_parse (\<lambda>_ _. 8) 30 1 demo_file [demo_server ''fs'']
      (apply_config_reload demo_print demo_parse (\<lambda>_ _. 9) 20 0 demo_file [demo_server ''fs''] demo_reload_state))) 3
   = manager_get (ld_manager (apply_config_reload demo_print demo_parse (\<lambda>_ _. 9) 20 0 demo_file [demo_server ''fs''] demo_reload_state)) 3"
  using reload_idempotent demo_parse_print demo_file_ids demo_reload_ready(1) demo_file_normal by blast

text \<open>
  A file whose prices, cooldown, account group, tags, quota or credential type alone changed is not noticed:
  the running channel keeps the old values.
\<close>

theorem reload_ignores_prices:
  "channel_config_changed old (new\<lparr>cc_cost_per_token := a, cc_input_cost_per_mtok := b, cc_output_cost_per_mtok := d,
     cc_cooldown_minutes := e, cc_account_group := g, cc_tags := ts, cc_quota := q, cc_credential_type := k\<rparr>)
   = channel_config_changed old new"
  by (simp add: channel_config_changed_def)

end
