(* ===== verification/Mcp_Tools.thy ===== *)
theory Mcp_Tools
  imports Mcp_Manager Thinking
begin

text \<open>
  The tools of the MCP servers in the requests of language models: the names that carry their server
  (\<open>mcp/aggregator.rs\<close>), the translation of schemas, calls and results (\<open>mcp/translator.rs\<close>) and the injection,
  detection and execution around a chat request (\<open>proxy/mcp_tools.rs\<close>). A slice out of range panics; such a
  function returns an option, \<open>None\<close> for the panic. \<open>parse\<close> is \<open>serde_json::from_str\<close>.
\<close>

section \<open>Aggregation\<close>

record aggregated_tool =
  at_namespaced_name :: string
  at_original_name :: string
  at_server_id :: string
  at_description :: "string option"
  at_input_schema :: json

definition namespace_prefix :: "string \<Rightarrow> string" where
  "namespace_prefix server_id = ''mcp__'' @ server_id @ ''__''"

definition namespaced_name :: "string \<Rightarrow> string \<Rightarrow> string" where
  "namespaced_name server_id original_name = namespace_prefix server_id @ original_name"

text \<open>\<open>rest.split("__").next()\<close>: what stands before the first separator, or everything.\<close>

fun first_segment :: "string \<Rightarrow> string" where
  "first_segment [] = []"
| "first_segment (c # cs) = (if starts_with (c # cs) ''__'' then [] else c # first_segment cs)"

definition parse_namespaced :: "string \<Rightarrow> (string \<times> string) option option" where
  "parse_namespaced name =
     (if \<not> starts_with name ''mcp__'' then Some None
      else let rest = drop 5 name; server_id = first_segment rest
           in if server_id = [] then Some None
              else if length rest < length server_id + 2 then None
              else let original = drop (length server_id + 2) rest
                   in if original = [] then Some None else Some (Some (server_id, original)))"

definition aggregated :: "string \<Rightarrow> mcp_tool \<Rightarrow> aggregated_tool" where
  "aggregated server_id t =
     \<lparr>at_namespaced_name = namespaced_name server_id (mt_name t), at_original_name = mt_name t, at_server_id = server_id,
      at_description = mt_description t, at_input_schema = JObj (mt_input_schema t)\<rparr>"

definition aggregate_server ::
  "'c mcp_host \<Rightarrow> string \<times> string \<times> mcp_server_status \<Rightarrow> 'c mcp_manager \<times> aggregated_tool list \<Rightarrow> 'c mcp_manager \<times> aggregated_tool list" where
  "aggregate_server h = (\<lambda>(server_id, _, status) (m, all).
     case status of
       Running _ \<Rightarrow>
         (case list_tools h server_id m of
            (m, Inr tools) \<Rightarrow> (m, all @ map (aggregated server_id) tools)
          | (m, Inl _) \<Rightarrow> (m, all))
     | _ \<Rightarrow> (m, all))"

definition aggregate_all_tools :: "'c mcp_host \<Rightarrow> 'c mcp_manager \<Rightarrow> 'c mcp_manager \<times> aggregated_tool list" where
  "aggregate_all_tools h m = fold (aggregate_server h) (list_status m) (m, [])"

section \<open>Translation\<close>

definition json_remove_keys :: "string list \<Rightarrow> json \<Rightarrow> json" where
  "json_remove_keys ks v = fold json_remove ks v"

definition sanitize_schema :: "json \<Rightarrow> json" where
  "sanitize_schema schema =
     (let result = json_remove_keys [''$schema'', ''$id'', ''title'']
            (if json_is_object schema then schema
             else JObj [(''type'', JStr ''object''), (''properties'', JObj [])])
      in case result of
           JObj m \<Rightarrow> if hm_contains m ''type'' then result else JObj (hm_insert ''type'' (JStr ''object'') m)
         | _ \<Rightarrow> result)"

definition description_text :: "aggregated_tool \<Rightarrow> string" where
  "description_text t = (case at_description t of Some d \<Rightarrow> d | None \<Rightarrow> [])"

definition to_openai_function :: "aggregated_tool \<Rightarrow> json" where
  "to_openai_function t = JObj [(''type'', JStr ''function''), (''function'',
     JObj [(''name'', JStr (at_namespaced_name t)), (''description'', JStr (description_text t)),
       (''parameters'', sanitize_schema (at_input_schema t))])]"

definition to_anthropic_tool :: "aggregated_tool \<Rightarrow> json" where
  "to_anthropic_tool t = JObj [(''name'', JStr (at_namespaced_name t)), (''description'', JStr (description_text t)),
     (''input_schema'', sanitize_schema (at_input_schema t))]"

definition parse_mcp_tool_call ::
  "(string \<Rightarrow> json option) \<Rightarrow> string \<Rightarrow> string \<Rightarrow> (string \<times> string \<times> (string \<times> json) list option) option option" where
  "parse_mcp_tool_call parse name arguments =
     map_option (map_option (\<lambda>(server_id, original_name).
       (server_id, original_name,
        if trim arguments = [] \<or> trim arguments = ''null'' then None
        else case parse arguments of Some (JObj m) \<Rightarrow> Some m | _ \<Rightarrow> None))) (parse_namespaced name)"

definition content_text :: "mcp_content \<Rightarrow> string" where
  "content_text c = (case c of TextContent t \<Rightarrow> t | ImageContent \<Rightarrow> ''[image content omitted]''
     | AudioContent \<Rightarrow> ''[audio content omitted]'' | ResourceContent \<Rightarrow> ''[resource content]'' | ResourceLink \<Rightarrow> ''[resource link]'')"

fun text_lines :: "string list \<Rightarrow> string" where
  "text_lines [] = []"
| "text_lines [s] = s"
| "text_lines (s # ss) = s @ [CHR 0x0A] @ text_lines ss"

definition flatten_tool_result :: "call_tool_result \<Rightarrow> string" where
  "flatten_tool_result r =
     (let parts = map content_text (tr_content r);
          body = (if parts = [] then ''[empty result]'' else text_lines parts)
      in if tr_is_error r = Some True then ''Error: '' @ body else body)"

section \<open>Around a chat request\<close>

record mcp_tool_call =
  tc_id :: string
  tc_server_id :: string
  tc_tool_name :: string
  tc_arguments :: "(string \<times> json) list option"

abbreviation json_array_at :: "json \<Rightarrow> string \<Rightarrow> json list option" where
  "json_array_at v k \<equiv> Option.bind (json_get v k) json_as_array"

definition inject_mcp_tools ::
  "'c mcp_host \<Rightarrow> json \<Rightarrow> 'c mcp_manager \<Rightarrow> 'c mcp_manager \<times> (json \<times> aggregated_tool list) option" where
  "inject_mcp_tools h body m =
     (let (m, mcp_tools) = aggregate_all_tools h m
      in if mcp_tools = [] then (m, Some (body, []))
         else let tools = (case json_array_at body ''tools'' of Some ts \<Rightarrow> ts | None \<Rightarrow> []) @ map to_openai_function mcp_tools
              in (m, map_option (\<lambda>b. (b, mcp_tools)) (json_set ''tools'' (JArr tools) body)))"

text \<open>One entry of \<open>tool_calls\<close>: \<open>Some None\<close> when it is skipped.\<close>

definition detect_call :: "(string \<Rightarrow> json option) \<Rightarrow> json \<Rightarrow> mcp_tool_call option option" where
  "detect_call parse call =
     (let i = (case json_get_str call ''id'' of Some s \<Rightarrow> s | None \<Rightarrow> [])
      in if i = [] then Some None
         else case json_get call ''function'' of
           None \<Rightarrow> Some None
         | Some f \<Rightarrow>
             (case json_get_str f ''name'' of
                None \<Rightarrow> Some None
              | Some name \<Rightarrow>
                  map_option (map_option (\<lambda>(server_id, tool_name, arguments).
                      \<lparr>tc_id = i, tc_server_id = server_id, tc_tool_name = tool_name, tc_arguments = arguments\<rparr>))
                    (parse_mcp_tool_call parse name (case json_get_str f ''arguments'' of Some a \<Rightarrow> a | None \<Rightarrow> []))))"

fun collect :: "('a \<Rightarrow> 'b option option) \<Rightarrow> 'a list \<Rightarrow> 'b list option" where
  "collect f [] = Some []"
| "collect f (x # xs) =
     (case f x of
        None \<Rightarrow> None
      | Some r \<Rightarrow> map_option (\<lambda>ys. case r of Some y \<Rightarrow> y # ys | None \<Rightarrow> ys) (collect f xs))"

definition choice_tool_calls :: "json \<Rightarrow> json list" where
  "choice_tool_calls body =
     (case json_array_at body ''choices'' of
        None \<Rightarrow> []
      | Some choices \<Rightarrow> concat (map (\<lambda>choice.
          case Option.bind (json_get choice ''message'') (\<lambda>m. json_array_at m ''tool_calls'') of
            None \<Rightarrow> [] | Some calls \<Rightarrow> calls) choices))"

definition detect_mcp_tool_calls :: "(string \<Rightarrow> json option) \<Rightarrow> json \<Rightarrow> mcp_tool_call list option" where
  "detect_mcp_tool_calls parse body = collect (detect_call parse) (choice_tool_calls body)"

definition tool_message :: "mcp_tool_call \<Rightarrow> string + call_tool_result \<Rightarrow> json" where
  "tool_message call outcome =
     JObj [(''role'', JStr ''tool''), (''tool_call_id'', JStr (tc_id call)),
       (''content'', JStr (case outcome of Inr r \<Rightarrow> flatten_tool_result r | Inl e \<Rightarrow> ''Error: MCP tool call failed: '' @ e))]"

definition execute_mcp_tool_calls :: "(nat \<Rightarrow> 'c mcp_host) \<Rightarrow> 'c mcp_manager \<Rightarrow> mcp_tool_call list \<Rightarrow> json list" where
  "execute_mcp_tool_calls hs m calls =
     map (\<lambda>(n, call). tool_message call (call_tool (hs n) m (tc_server_id call) (tc_tool_name call) (tc_arguments call)))
       (enumerate 0 calls)"

definition assistant_message :: "json \<Rightarrow> json" where
  "assistant_message response_body =
     (case Option.bind (json_array_at response_body ''choices'') (\<lambda>cs. case cs of [] \<Rightarrow> None | c # _ \<Rightarrow> json_get c ''message'') of
        Some m \<Rightarrow> m | None \<Rightarrow> JObj [(''role'', JStr ''assistant''), (''content'', JStr [])])"

definition build_followup_request :: "json \<Rightarrow> json \<Rightarrow> json list \<Rightarrow> json option" where
  "build_followup_request original_body response_body tool_results =
     (let messages = (case json_array_at original_body ''messages'' of Some ms \<Rightarrow> ms | None \<Rightarrow> [])
            @ [assistant_message response_body] @ tool_results
      in Option.bind (json_set ''messages'' (JArr messages) original_body) (json_set ''stream'' (JBool False)))"

section \<open>Names\<close>

lemma starts_with_sep: "starts_with (c # s) ''__'' \<longleftrightarrow> c = CHR ''_'' \<and> (case s of [] \<Rightarrow> False | d # _ \<Rightarrow> d = CHR ''_'')"
  by (auto simp: starts_with_def split: list.splits)

lemma first_segment_id:
  "first_segment (server_id @ ''__'' @ rest) = server_id \<longleftrightarrow> \<not> str_contains (server_id @ ''_'') ''__''"
proof (induction server_id)
  case (Cons c cs)
  then show ?case by (cases cs) (auto simp: starts_with_sep)
qed (simp_all add: starts_with_def)

lemma first_segment_all: "first_segment s = s \<longleftrightarrow> \<not> str_contains s ''__''"
  by (induction s) (auto simp: starts_with_def)

lemma first_segment_rest: "str_contains s ''__'' \<Longrightarrow> \<exists>rest. s = first_segment s @ ''__'' @ rest"
  by (induction s) (auto simp: starts_with_iff)

lemma namespaced_parsed:
  "parse_namespaced (namespaced_name server_id original_name) = Some (Some (server_id, original_name)) \<longleftrightarrow>
     server_id \<noteq> [] \<and> original_name \<noteq> [] \<and> \<not> str_contains (server_id @ ''_'') ''__''"
proof -
  have p: "starts_with (namespaced_name server_id original_name) ''mcp__''"
    "drop 5 (namespaced_name server_id original_name) = server_id @ ''__'' @ original_name"
    by (simp_all add: namespaced_name_def namespace_prefix_def starts_with_def)
  show ?thesis
    unfolding parse_namespaced_def Let_def p(2) using p(1) first_segment_id[of server_id original_name] by auto
qed

text \<open>A namespaced name is read back as its server and tool exactly when both are not empty and the server
  id, followed by an underscore, has no two underscores in a row.\<close>

theorem namespaced_name_roundtrip:
  "parse_namespaced (namespaced_name server_id original_name) = Some (Some (server_id, original_name)) \<longleftrightarrow>
     server_id \<noteq> [] \<and> original_name \<noteq> [] \<and> \<not> str_contains (server_id @ ''_'') ''__''"
  by (rule namespaced_parsed)

text \<open>A name that starts with the prefix and has no further separator makes the parser panic, and no other
  name does.\<close>

theorem parse_namespaced_panics:
  "parse_namespaced name = None \<longleftrightarrow> (\<exists>rest. name = ''mcp__'' @ rest \<and> rest \<noteq> [] \<and> \<not> str_contains rest ''__'')"
proof -
  have "length rest < length (first_segment rest) + 2 \<longleftrightarrow> \<not> str_contains rest ''__''" for rest
  proof (cases "str_contains rest ''__''")
    case True
    from first_segment_rest[OF this] have "length rest \<ge> length (first_segment rest) + 2"
      by (metis append_assoc le_add1 length_append length_Cons list.size(3) numeral_2_eq_2)
    with True show ?thesis by simp
  next
    case False
    then show ?thesis using first_segment_all[of rest] by simp
  qed
  then show ?thesis
    by (auto simp: parse_namespaced_def Let_def starts_with_iff dest: first_segment_all[THEN iffD2])
qed


section \<open>Routing of a call\<close>

lemma list_tools_client: "running_client (fst (list_tools h i m)) j = running_client m j"
proof -
  have "running_client (with_entry m i (\<lambda>e. e\<lparr>me_tool_count := n\<rparr>)) j = running_client m j" for n
    by (auto simp: running_client_def mcp.lookup_modify split: option.splits)
  then show ?thesis by (auto simp: list_tools_def split: sum.splits)
qed

definition offers :: "'c mcp_host \<Rightarrow> 'c mcp_manager \<Rightarrow> aggregated_tool \<Rightarrow> bool" where
  "offers h m t \<longleftrightarrow> (case running_client m (at_server_id t) of
     Inl _ \<Rightarrow> False
   | Inr c \<Rightarrow> (case host_list h c of Inl _ \<Rightarrow> False | Inr ts \<Rightarrow> t \<in> aggregated (at_server_id t) ` set ts))"

lemma list_tools_offers:
  "list_tools h i m = (m', Inr ts) \<Longrightarrow> x \<in> set ts \<Longrightarrow> offers h m (aggregated i x)"
  by (auto simp: list_tools_def offers_def aggregated_def split: sum.splits)

definition aggregation_ok :: "'c mcp_host \<Rightarrow> 'c mcp_manager \<Rightarrow> 'c mcp_manager \<times> aggregated_tool list \<Rightarrow> bool" where
  "aggregation_ok h m s \<longleftrightarrow> running_client (fst s) = running_client m \<and> (\<forall>t \<in> set (snd s). offers h m t)"

lemma aggregate_server_ok:
  assumes "aggregation_ok h m s"
  shows "aggregation_ok h m (aggregate_server h x s)"
proof -
  obtain i n status where x: "x = (i, n, status)" by (metis prod_cases3)
  obtain m1 all where s: "s = (m1, all)" by fastforce
  obtain m2 r where l: "list_tools h i m1 = (m2, r)" by fastforce
  have c: "running_client m1 = running_client m" using assms s by (simp add: aggregation_ok_def)
  then have c2: "running_client m2 = running_client m" using list_tools_client[of h i m1] l by auto
  have o: "offers h m t = offers h m1 t" for t using c by (simp add: offers_def)
  show ?thesis
    using assms c2 list_tools_offers[of h i m1 m2] l
    by (auto simp: aggregate_server_def aggregation_ok_def x s o split: sum.splits mcp_server_status.splits)
qed

lemma aggregate_offers: "aggregation_ok h m (aggregate_all_tools h m)"
  unfolding aggregate_all_tools_def
  by (rule fold_keeps[where P = "aggregation_ok h m"]) (simp_all add: aggregation_ok_def[of h m "(m, [])"] aggregate_server_ok)

lemma offers_aggregated:
  assumes "offers h m t"
  obtains c ts x where "running_client m (at_server_id t) = Inr c" "host_list h c = Inr ts" "x \<in> set ts"
    "at_original_name t = mt_name x" "at_namespaced_name t = namespaced_name (at_server_id t) (mt_name x)"
proof -
  from assms obtain c ts x where "running_client m (at_server_id t) = Inr c" "host_list h c = Inr ts" "x \<in> set ts"
      and t: "t = aggregated (at_server_id t) x"
    by (auto simp: offers_def split: sum.splits)
  moreover have "at_original_name t = mt_name x" "at_namespaced_name t = namespaced_name (at_server_id t) (mt_name x)"
    by (subst t, simp add: aggregated_def)+
  ultimately show ?thesis using that by blast
qed

lemma aggregated_routed:
  assumes "t \<in> set (snd (aggregate_all_tools h m))" and "at_original_name t \<noteq> []" "at_server_id t \<noteq> []"
    and "\<not> str_contains (at_server_id t @ ''_'') ''__''"
  obtains c ts where "running_client m (at_server_id t) = Inr c" "host_list h c = Inr ts" "at_original_name t \<in> mt_name ` set ts"
    "parse_namespaced (at_namespaced_name t) = Some (Some (at_server_id t, at_original_name t))"
proof -
  have "offers h m t" using assms(1) aggregate_offers[of h m] by (simp add: aggregation_ok_def)
  then obtain c ts x where c: "running_client m (at_server_id t) = Inr c" "host_list h c = Inr ts" "x \<in> set ts"
      and x: "at_original_name t = mt_name x" "at_namespaced_name t = namespaced_name (at_server_id t) (mt_name x)"
    by (rule offers_aggregated)
  have "parse_namespaced (at_namespaced_name t) = Some (Some (at_server_id t, at_original_name t))"
    unfolding x using namespaced_parsed assms(2-4) x(1) by simp
  with c x(1) that show ?thesis by auto
qed

text \<open>C23: a call of an injected tool, by the name it was injected under, is sent to the server that offers the tool,
  with the tool's own name and the arguments, if the server's id is not empty, has no two underscores in a row and
  does not end in one.\<close>

theorem injected_tool_is_called:
  assumes t: "t \<in> set (snd (aggregate_all_tools h m))" and "at_original_name t \<noteq> []" "at_server_id t \<noteq> []"
    and "\<not> str_contains (at_server_id t @ ''_'') ''__''" and i: "i \<noteq> []" and "parse args = Some (JObj a)"
    and "trim args \<noteq> []" "trim args \<noteq> ''null''"
  shows "\<exists>call c. detect_call parse (JObj [(''id'', JStr i), (''function'',
        JObj [(''name'', JStr (at_namespaced_name t)), (''arguments'', JStr args)])]) = Some (Some call)
      \<and> running_client m (at_server_id t) = Inr c
      \<and> (\<exists>ts. host_list h c = Inr ts \<and> at_original_name t \<in> mt_name ` set ts)
      \<and> execute_mcp_tool_calls hs m [call] = [tool_message call
          (case host_call (hs 0) c (at_original_name t) (Some a) of
             Inr r \<Rightarrow> Inr r
           | Inl e \<Rightarrow> Inl (''Failed to call tool '' @ [CHR 0x27] @ at_original_name t @ [CHR 0x27] @ '' on '' @ [CHR 0x27]
                         @ at_server_id t @ [CHR 0x27] @ '': '' @ e))]"
proof -
  obtain c ts where c: "running_client m (at_server_id t) = Inr c" "host_list h c = Inr ts" and n: "at_original_name t \<in> mt_name ` set ts"
      and "parse_namespaced (at_namespaced_name t) = Some (Some (at_server_id t, at_original_name t))"
    using aggregated_routed[OF assms(1-4)] by blast
  let ?call = "\<lparr>tc_id = i, tc_server_id = at_server_id t, tc_tool_name = at_original_name t, tc_arguments = Some a\<rparr>"
  note \<open>parse_namespaced (at_namespaced_name t) = _\<close>
  then have "detect_call parse (JObj [(''id'', JStr i), (''function'',
      JObj [(''name'', JStr (at_namespaced_name t)), (''arguments'', JStr args)])]) = Some (Some ?call)"
    using assms(5-) by (simp add: detect_call_def parse_mcp_tool_call_def json_as_str_def)
  moreover have "execute_mcp_tool_calls hs m [?call] = [tool_message ?call (call_tool (hs 0) m (at_server_id t) (at_original_name t) (Some a))]"
    by (simp add: execute_mcp_tool_calls_def)
  ultimately show ?thesis using c n by (intro exI[of _ ?call] exI[of _ c]) (simp add: call_tool_def split: sum.split)
qed


lemma demo_aggregate:
  "snd (aggregate_all_tools demo_host demo_mcp) = [aggregated ''fs'' \<lparr>mt_name = ''read'', mt_description = None, mt_input_schema = []\<rparr>]"
  by (simp add: aggregate_all_tools_def list_status_def entry_status_def aggregate_server_def list_tools_def running_client_def
      mcp_lookup_def demo_mcp_entries new_entry_def demo_server_def demo_host_def)

lemma injected_tool_is_called_witness:
  "\<exists>call. detect_call (\<lambda>_. Some (JObj [])) (JObj [(''id'', JStr ''1''), (''function'',
        JObj [(''name'', JStr ''mcp__fs__read''), (''arguments'', JStr ''{}'')])]) = Some (Some call)
      \<and> execute_mcp_tool_calls (\<lambda>_. demo_host) demo_mcp [call] =
          [tool_message call (Inr \<lparr>tr_content = [TextContent ''ok''], tr_is_error = None\<rparr>)]"
proof -
  let ?t = "aggregated ''fs'' \<lparr>mt_name = ''read'', mt_description = None, mt_input_schema = []\<rparr>"
  have f: "at_namespaced_name ?t = ''mcp__fs__read''" "at_original_name ?t = ''read''" "at_server_id ?t = ''fs''"
    by (simp_all add: aggregated_def namespaced_name_def namespace_prefix_def)
  have h: "host_call demo_host c n a = Inr \<lparr>tr_content = [TextContent ''ok''], tr_is_error = None\<rparr>" for c n a
    by (simp add: demo_host_def)
  have "\<not> str_contains ''fs_'' ''__''" "trim ''{}'' = ''{}''" by code_simp+
  then show ?thesis
    using injected_tool_is_called[of ?t demo_host demo_mcp "''1''" "\<lambda>_. Some (JObj [])" "''{}''" "[]" "\<lambda>_. demo_host"] f
    by (auto simp: demo_aggregate h)
qed

section \<open>The follow-up request\<close>

text \<open>The follow-up request has the messages of the first one, then the assistant's message, then one tool message
  per MCP call, in the order of the calls and with their ids; streaming is off and nothing else changed.\<close>

theorem followup_answers_calls:
  assumes "json_is_object body" and "results = execute_mcp_tool_calls hs m calls"
  shows "\<exists>b. build_followup_request body response results = Some b
    \<and> json_array_at b ''messages'' = Some ((case json_array_at body ''messages'' of Some ms \<Rightarrow> ms | None \<Rightarrow> [])
        @ assistant_message response # results)
    \<and> map (\<lambda>r. json_get_str r ''tool_call_id'') results = map (\<lambda>c. Some (tc_id c)) calls
    \<and> json_get b ''stream'' = Some (JBool False)
    \<and> (\<forall>k. k \<notin> {''messages'', ''stream''} \<longrightarrow> json_get b k = json_get body k)"
proof -
  let ?ms = "(case json_array_at body ''messages'' of Some ms \<Rightarrow> ms | None \<Rightarrow> []) @ [assistant_message response] @ results"
  obtain b1 where b1: "json_set ''messages'' (JArr ?ms) body = Some b1" "json_is_object b1"
    using json_set_object[OF assms(1)] by blast
  obtain b2 where b2: "json_set ''stream'' (JBool False) b1 = Some b2" using json_set_object[OF b1(2)] by blast
  have "map (\<lambda>r. json_get_str r ''tool_call_id'') (map (\<lambda>(n, c). tool_message c (f n c)) (enumerate k calls)) = map (\<lambda>c. Some (tc_id c)) calls"
    for f k
    by (induction calls arbitrary: k) (auto simp: tool_message_def json_as_str_def)
  then have "map (\<lambda>r. json_get_str r ''tool_call_id'') results = map (\<lambda>c. Some (tc_id c)) calls"
    unfolding assms(2) execute_mcp_tool_calls_def .
  moreover have "build_followup_request body response results = Some b2"
    using b1(1) b2 by (simp add: build_followup_request_def Let_def)
  moreover have "json_get b2 k = (if k = ''stream'' then Some (JBool False) else if k = ''messages'' then Some (JArr ?ms) else json_get body k)" for k
    unfolding json_get_set[OF b2] json_get_set[OF b1(1)] ..
  ultimately show ?thesis
    by (intro exI[of _ b2]) (simp add: json_as_array_def)
qed

lemma followup_answers_calls_witness:
  "\<exists>b. build_followup_request (JObj [(''model'', JStr ''m'')]) JNull [] = Some b \<and> json_get b ''model'' = Some (JStr ''m'')"
proof -
  let ?body = "JObj [(''model'', JStr ''m'')]"
  have "json_is_object ?body" "[] = execute_mcp_tool_calls (\<lambda>_. demo_host) demo_mcp []"
    by (simp_all add: json_is_object_def execute_mcp_tool_calls_def)
  from followup_answers_calls[OF this, of JNull] obtain b where b: "build_followup_request ?body JNull [] = Some b"
      "\<forall>k. k \<notin> {''messages'', ''stream''} \<longrightarrow> json_get b k = json_get ?body k"
    by blast
  from spec[OF b(2), of "''model''"] have "json_get b ''model'' = Some (JStr ''m'')" by simp
  with b(1) show ?thesis by blast
qed

lemma json_remove_keys_get:
  "json_get (json_remove_keys ks v) k = (if k \<in> set ks then None else json_get v k)"
  by (induction ks arbitrary: v) (auto simp: json_remove_keys_def json_get_remove)

lemma json_remove_keys_object: "json_is_object (json_remove_keys ks v) = json_is_object v"
  by (induction ks arbitrary: v) (auto simp: json_remove_keys_def)

text \<open>The schema sent to a provider is an object with a type and without the metadata keys; a schema that is an
  object keeps everything else.\<close>

theorem sanitized_schema:
  "json_is_object (sanitize_schema schema) \<and> json_get (sanitize_schema schema) ''type'' \<noteq> None
    \<and> (\<forall>k \<in> {''$schema'', ''$id'', ''title''}. json_get (sanitize_schema schema) k = None)
    \<and> (json_is_object schema \<longrightarrow> (\<forall>k. k \<notin> {''$schema'', ''$id'', ''title'', ''type''} \<longrightarrow>
         json_get (sanitize_schema schema) k = json_get schema k))"
proof -
  let ?s = "if json_is_object schema then schema else JObj [(''type'', JStr ''object''), (''properties'', JObj [])]"
  let ?r = "json_remove_keys [''$schema'', ''$id'', ''title''] ?s"
  have "json_is_object ?r" unfolding json_remove_keys_object by (simp add: json_is_object_def)
  then obtain m where m: "?r = JObj m" by (auto simp: json_is_object_def split: json.splits)
  have g: "hm_get m k = (if k \<in> {''$schema'', ''$id'', ''title''} then None else json_get ?s k)" for k
    using json_remove_keys_get[of "[''$schema'', ''$id'', ''title'']" ?s k] unfolding m by simp
  have "sanitize_schema schema = JObj (if hm_contains m ''type'' then m else hm_insert ''type'' (JStr ''object'') m)"
    unfolding sanitize_schema_def m Let_def by simp
  then have "json_is_object (sanitize_schema schema)"
    "json_get (sanitize_schema schema) k = (if k = ''type'' \<and> hm_get m k = None then Some (JStr ''object'') else hm_get m k)" for k
    by (auto simp: json_is_object_def hm_contains_def)
  then show ?thesis unfolding g by simp
qed

lemma sanitized_schema_witness: "json_get (sanitize_schema (JObj [(''x'', JNull)])) ''x'' = Some JNull"
proof -
  have "json_is_object (JObj [(''x'', JNull)])" by (simp add: json_is_object_def)
  with sanitized_schema[of "JObj [(''x'', JNull)]"]
  have "\<forall>k. k \<notin> {''$schema'', ''$id'', ''title'', ''type''} \<longrightarrow>
         json_get (sanitize_schema (JObj [(''x'', JNull)])) k = json_get (JObj [(''x'', JNull)]) k" by blast
  from spec[OF this, of "''x''"] show ?thesis by simp
qed

end
