(* ===== verification/Mcp_Gateway.thy ===== *)
theory Mcp_Gateway
  imports Mcp_Tools
begin

text \<open>
  \<open>mcp/gateway.rs\<close>: the gateway as an MCP server of its own. It lists the tools of all running servers under their
  namespaced names and routes a call by that name. A panic in the name parser is \<open>None\<close>.
\<close>

datatype gateway_error = InvalidParams string | InternalError string

definition gateway_tool :: "aggregated_tool \<Rightarrow> mcp_tool" where
  "gateway_tool t =
     \<lparr>mt_name = at_namespaced_name t, mt_description = at_description t,
      mt_input_schema = (case at_input_schema t of JObj m \<Rightarrow> m | _ \<Rightarrow> [])\<rparr>"

definition gateway_list_tools :: "'c mcp_host \<Rightarrow> 'c mcp_manager \<Rightarrow> 'c mcp_manager \<times> mcp_tool list" where
  "gateway_list_tools h m = (let (m, tools) = aggregate_all_tools h m in (m, map gateway_tool tools))"

definition gateway_call_tool ::
  "'c mcp_host \<Rightarrow> 'c mcp_manager \<Rightarrow> string \<Rightarrow> (string \<times> json) list option \<Rightarrow> (gateway_error + call_tool_result) option" where
  "gateway_call_tool h m name arguments =
     (case parse_namespaced name of
        None \<Rightarrow> None
      | Some None \<Rightarrow> Some (Inl (InvalidParams (''Tool name '' @ [CHR 0x27] @ name @ [CHR 0x27]
          @ '' is not a valid namespaced MCP tool name (expected mcp__serverId__toolName)'')))
      | Some (Some (server_id, original_name)) \<Rightarrow>
          Some (case call_tool h m server_id original_name arguments of
                  Inr r \<Rightarrow> Inr r
                | Inl e \<Rightarrow> Inl (InternalError (''Tool call failed: '' @ e))))"

text \<open>The tool with the given name and otherwise the default fields of the rmcp crate.\<close>

definition gateway_get_tool :: "string \<Rightarrow> mcp_tool option option" where
  "gateway_get_tool name =
     (case parse_namespaced name of
        None \<Rightarrow> None
      | Some None \<Rightarrow> Some None
      | Some (Some _) \<Rightarrow> Some (Some \<lparr>mt_name = name, mt_description = None, mt_input_schema = []\<rparr>))"

lemma listed_tool:
  assumes "x \<in> set (snd (gateway_list_tools h m))"
  obtains t where "t \<in> set (snd (aggregate_all_tools h m))" "x = gateway_tool t"
  using assms by (auto simp: gateway_list_tools_def case_prod_unfold Let_def)

text \<open>A tool the gateway lists can be called by its listed name: the call goes to the running client of a server that
  offers a tool with the rest of the name, provided no server id is empty, has two underscores in a row or ends in
  one, and no tool name is empty.\<close>

theorem listed_tool_is_callable:
  assumes "x \<in> set (snd (gateway_list_tools h m))"
    and "\<forall>t \<in> set (snd (aggregate_all_tools h m)). at_original_name t \<noteq> [] \<and> at_server_id t \<noteq> []
           \<and> \<not> str_contains (at_server_id t @ ''_'') ''__''"
    and "\<And>c n a. \<exists>r. host_call h c n a = Inr r"
  shows "\<exists>i n c ts r. running_client m i = Inr c \<and> host_list h c = Inr ts \<and> n \<in> mt_name ` set ts
    \<and> mt_name x = namespaced_name i n \<and> host_call h c n args = Inr r
    \<and> gateway_call_tool h m (mt_name x) args = Some (Inr r) \<and> gateway_get_tool (mt_name x) \<notin> {None, Some None}"
proof -
  obtain t where t: "t \<in> set (snd (aggregate_all_tools h m))" "x = gateway_tool t" using assms(1) by (rule listed_tool)
  have ok: "at_original_name t \<noteq> []" "at_server_id t \<noteq> []" "\<not> str_contains (at_server_id t @ ''_'') ''__''"
    using assms(2) t(1) by auto
  obtain c ts where c: "running_client m (at_server_id t) = Inr c" "host_list h c = Inr ts" "at_original_name t \<in> mt_name ` set ts"
      and p: "parse_namespaced (at_namespaced_name t) = Some (Some (at_server_id t, at_original_name t))"
    by (rule aggregated_routed[OF t(1) ok])
  obtain r where r: "host_call h c (at_original_name t) args = Inr r" using assms(3) by blast
  have "at_namespaced_name t = namespaced_name (at_server_id t) (at_original_name t)"
    by (rule offers_aggregated[of h m t]) (use t(1) aggregate_offers[of h m] in \<open>auto simp: aggregation_ok_def\<close>)
  then show ?thesis using c p r t(2)
    by (intro exI[of _ "at_server_id t"] exI[of _ "at_original_name t"] exI[of _ c] exI[of _ ts] exI[of _ r])
       (simp add: gateway_tool_def gateway_call_tool_def gateway_get_tool_def call_tool_def)
qed

lemma listed_tool_is_callable_witness:
  "\<exists>r. gateway_call_tool demo_host demo_mcp ''mcp__fs__read'' None = Some (Inr r)"
proof -
  have l: "snd (gateway_list_tools demo_host demo_mcp) = [\<lparr>mt_name = ''mcp__fs__read'', mt_description = None, mt_input_schema = []\<rparr>]"
    using demo_aggregate by (auto simp: gateway_list_tools_def case_prod_unfold Let_def gateway_tool_def aggregated_def
        namespaced_name_def namespace_prefix_def)
  have ok: "\<forall>t \<in> set (snd (aggregate_all_tools demo_host demo_mcp)). at_original_name t \<noteq> [] \<and> at_server_id t \<noteq> []
      \<and> \<not> str_contains (at_server_id t @ ''_'') ''__''"
    unfolding demo_aggregate by (auto simp: aggregated_def starts_with_def)
  have "\<exists>r. host_call demo_host c n a = Inr r" for c n a by (simp add: demo_host_def)
  from listed_tool_is_callable[OF _ ok this, of "\<lparr>mt_name = ''mcp__fs__read'', mt_description = None, mt_input_schema = []\<rparr>" None]
  show ?thesis unfolding l by auto
qed

end
