(* ===== verification/Chat_Handler.thy ===== *)
theory Chat_Handler
  imports Gateway_Invariant Mcp_Tools
begin

text \<open>
  \<open>proxy/openai.rs\<close>: the handler of \<open>/v1/chat/completions\<close>. With MCP servers running it offers their tools to the
  model, executes the calls the model answers with and asks again, a bounded number of times; then it asks once
  more without tools. Every turn is a whole \<open>dispatch\<close>. The environment gives, per turn, what the upstreams and
  the other requests do, what other requests did to the MCP servers meanwhile, and what the servers answer.

  The work an answer leaves behind runs when its body has been read to the end, which the handler does before the
  next turn. Besides the result, the model returns the bodies of all turns, first one first; this is not part of
  the code.
\<close>

record 'c chat_env =
  ce_inject :: "'c mcp_host"
  ce_dispatch :: "nat \<Rightarrow> dispatch_env"
  ce_mcp :: "nat \<Rightarrow> 'c mcp_manager \<Rightarrow> 'c mcp_manager"
  ce_hosts :: "nat \<Rightarrow> nat \<Rightarrow> 'c mcp_host"

definition validate_chat_request :: "libs \<Rightarrow> json \<Rightarrow> http_response option" where
  "validate_chat_request L body =
     (if json_get_str body ''model'' \<in> {None, Some []}
      then Some (error_response (lib_print L) 400 ''Missing required field: model'' ''invalid_request_error'' ''missing_model'')
      else if json_array_at body ''messages'' \<in> {None, Some []}
      then Some (error_response (lib_print L) 400 ''Missing required field: messages'' ''invalid_request_error'' ''missing_messages'')
      else None)"

definition max_response_body_bytes :: nat where
  "max_response_body_bytes = 10 * 1024 * 1024"

text \<open>\<open>axum::body::to_bytes\<close> with a limit.\<close>

fun stream_bytes :: "stream_item list \<Rightarrow> string option" where
  "stream_bytes [] = Some []"
| "stream_bytes (Data s # es) = map_option (\<lambda>r. s @ r) (stream_bytes es)"
| "stream_bytes (Broken # es) = None"

definition to_bytes :: "nat \<Rightarrow> response_body \<Rightarrow> string option" where
  "to_bytes limit b =
     Option.bind (case b of Full s \<Rightarrow> Some s | Streamed es \<Rightarrow> stream_bytes es) (\<lambda>s. if length s \<le> limit then Some s else None)"

definition extract_response_json :: "libs \<Rightarrow> http_response \<Rightarrow> http_response + nat \<times> json" where
  "extract_response_json L resp =
     (case to_bytes max_response_body_bytes (rs_body resp) of
        None \<Rightarrow> Inl (json_response 502 (lib_print L (JObj [(''error'', JObj
          [(''message'', JStr ''MCP loop: failed to buffer upstream response''), (''type'', JStr ''mcp_loop_error'')])])))
      | Some bytes \<Rightarrow>
          (case lib_parse L bytes of
             None \<Rightarrow> Inl (json_response (rs_status resp) (from_utf8_lossy bytes))
           | Some v \<Rightarrow> Inr (rs_status resp, v)))"

text \<open>The last turn, when the turns with tools are used up.\<close>

definition final_body :: "bool \<Rightarrow> json \<Rightarrow> json" where
  "final_body was_streaming body =
     (case body of
        JObj m \<Rightarrow>
          let m = hm_remove ''tool_choice'' (hm_remove ''tools'' m)
          in JObj (if was_streaming then hm_insert ''stream'' (JBool True) m else m)
      | _ \<Rightarrow> body)"

type_synonym 'c chat_state = "app_state \<times> 'c mcp_manager"

definition chat_turn :: "libs \<Rightarrow> dispatch_env \<Rightarrow> headers \<Rightarrow> json \<Rightarrow> app_state \<Rightarrow> app_state \<times> dispatch_result" where
  "chat_turn L de hs body st = dispatch L de OpenAIAdaptor OpenAIChat \<lparr>cl_headers = hs, cl_body = body\<rparr> st"

definition loop_answer :: "libs \<Rightarrow> bool \<Rightarrow> nat \<Rightarrow> json \<Rightarrow> http_response" where
  "loop_answer L was_streaming status v =
     (if was_streaming then sse_single_chunk_response status (lib_print L v) else json_response status (lib_print L v))"

fun chat_loop ::
  "libs \<Rightarrow> 'c chat_env \<Rightarrow> headers \<Rightarrow> bool \<Rightarrow> nat \<Rightarrow> nat \<Rightarrow> json \<Rightarrow> 'c chat_state
     \<Rightarrow> 'c chat_state \<times> json list \<times> dispatch_result" where
  "chat_loop L ce hs was_streaming n 0 body (st, m) =
     (case chat_turn L (ce_dispatch ce n) hs (final_body was_streaming body) st of
        (st, res) \<Rightarrow> ((st, m), [final_body was_streaming body], res))"
| "chat_loop L ce hs was_streaming n (Suc left) body (st, m) =
     (case chat_turn L (ce_dispatch ce n) hs body st of
        (st, Crash) \<Rightarrow> ((st, m), [body], Crash)
      | (st, Hang) \<Rightarrow> ((st, m), [body], Hang)
      | (st, Answer resp bg) \<Rightarrow>
          let st = bg st; m = ce_mcp ce n m
          in case extract_response_json L resp of
               Inl fallback \<Rightarrow> ((st, m), [body], Answer fallback (\<lambda>st. st))
             | Inr (status, v) \<Rightarrow>
                 (case detect_mcp_tool_calls (lib_parse L) v of
                    None \<Rightarrow> ((st, m), [body], Crash)
                  | Some calls \<Rightarrow>
                      if calls = [] then ((st, m), [body], Answer (loop_answer L was_streaming status v) (\<lambda>st. st))
                      else case build_followup_request body v (execute_mcp_tool_calls (ce_hosts ce n) m calls) of
                             None \<Rightarrow> ((st, m), [body], Crash)
                           | Some body' \<Rightarrow>
                               (case chat_loop L ce hs was_streaming (Suc n) left body' (st, m) of
                                  (s, bodies, res) \<Rightarrow> (s, body # bodies, res))))"

definition handle_chat_completions ::
  "libs \<Rightarrow> 'c chat_env \<Rightarrow> bool \<Rightarrow> u32 \<Rightarrow> client_request \<Rightarrow> 'c chat_state
     \<Rightarrow> 'c chat_state \<times> json list \<times> dispatch_result" where
  "handle_chat_completions L ce mcp_auto_inject mcp_max_iterations req s =
     (let (st, m) = s; body = cl_body req; hs = cl_headers req;
          plain = (\<lambda>st m. case chat_turn L (ce_dispatch ce 0) hs body st of (st, res) \<Rightarrow> ((st, m), [body], res))
      in case validate_chat_request L body of
           Some resp \<Rightarrow> ((st, m), [], Answer resp (\<lambda>st. st))
         | None \<Rightarrow>
             if \<not> mcp_auto_inject then plain st m
             else case inject_mcp_tools (ce_inject ce) body m of
                    (m, None) \<Rightarrow> ((st, m), [], Crash)
                  | (m, Some (current_body, injected)) \<Rightarrow>
                      if injected = [] then plain st m
                      else let was_streaming = (Option.bind (json_get current_body ''stream'') json_as_bool = Some True);
                               current_body = (case current_body of JObj o' \<Rightarrow> JObj (hm_insert ''stream'' (JBool False) o') | v \<Rightarrow> v)
                           in chat_loop L ce hs was_streaming 0 (unat (max mcp_max_iterations 1)) current_body (st, m))"


section \<open>The turns\<close>

text \<open>Which bodies a run of the loop may send.\<close>

definition turns_ok :: "bool \<Rightarrow> nat \<Rightarrow> json list \<Rightarrow> bool" where
  "turns_ok was_streaming left bodies \<longleftrightarrow>
     bodies \<noteq> [] \<and> length bodies \<le> Suc left
     \<and> (\<forall>b \<in> set (take left bodies). json_get b ''stream'' = Some (JBool False))
     \<and> (length bodies = Suc left \<longrightarrow>
          json_get (List.last bodies) ''tools'' = None \<and> json_get (List.last bodies) ''tool_choice'' = None
          \<and> json_get (List.last bodies) ''stream'' = Some (JBool was_streaming))"

definition silent_object :: "json \<Rightarrow> bool" where
  "silent_object b \<longleftrightarrow> json_is_object b \<and> json_get b ''stream'' = Some (JBool False)"

lemma final_body_get:
  assumes "silent_object b"
  shows "json_get (final_body w b) ''tools'' = None" "json_get (final_body w b) ''tool_choice'' = None"
    "json_get (final_body w b) ''stream'' = Some (JBool w)"
  using assms by (auto simp: silent_object_def final_body_def json_is_object_def Let_def split: json.splits)

lemma followup_silent: "json_is_object b \<Longrightarrow> build_followup_request b v rs = Some b' \<Longrightarrow> silent_object b'"
  by (auto simp: build_followup_request_def Let_def silent_object_def json_set_def json_is_object_def Option.bind_eq_Some_conv
      split: json.splits)

lemma chat_loop_cases:
  assumes "chat_loop L ce hs w n (Suc left) body (st, m) = (s', bodies, res)"
  obtains (down) st1 where "chat_turn L (ce_dispatch ce n) hs body st = (st1, res)" "fst s' = st1" "bodies = [body]"
      "res = Crash \<or> res = Hang"
  | (stop) st1 resp bg where "chat_turn L (ce_dispatch ce n) hs body st = (st1, Answer resp bg)" "fst s' = bg st1" "bodies = [body]"
      "res = Crash \<or> (\<exists>resp'. res = Answer resp' (\<lambda>st. st))"
  | (again) st1 resp bg v results body' bodies' where "chat_turn L (ce_dispatch ce n) hs body st = (st1, Answer resp bg)"
      "build_followup_request body v results = Some body'" "bodies = body # bodies'"
      "chat_loop L ce hs w (Suc n) left body' (bg st1, ce_mcp ce n m) = (s', bodies', res)"
proof -
  obtain st1 r where t: "chat_turn L (ce_dispatch ce n) hs body st = (st1, r)" by fastforce
  show ?thesis
  proof (cases r)
    case (Answer resp bg)
    note t = t[unfolded Answer]
    show ?thesis
    proof (cases "extract_response_json L resp")
      case (Inl fallback)
      then show ?thesis using assms t by (intro stop[OF t]) (auto simp: Let_def)
    next
      case (Inr p)
      obtain status v where p: "p = (status, v)" by fastforce
      show ?thesis
      proof (cases "detect_mcp_tool_calls (lib_parse L) v")
        case None
        then show ?thesis using assms t Inr p by (intro stop[OF t]) (auto simp: Let_def)
      next
        case (Some calls)
        let ?rs = "execute_mcp_tool_calls (ce_hosts ce n) (ce_mcp ce n m) calls"
        show ?thesis
        proof (cases "calls = [] \<or> build_followup_request body v ?rs = None")
          case True
          then show ?thesis using assms t Inr p Some by (intro stop[OF t]) (auto simp: Let_def split: if_splits)
        next
          case False
          then obtain body' where b: "build_followup_request body v ?rs = Some body'" by auto
          obtain s1 bs r1 where l: "chat_loop L ce hs w (Suc n) left body' (bg st1, ce_mcp ce n m) = (s1, bs, r1)"
            by (metis prod_cases3)
          show ?thesis using assms t Inr p Some False b l by (intro again[OF t b]) (auto simp: Let_def)
        qed
      qed
    qed
  qed (use assms t in \<open>auto intro: down\<close>)
qed

lemma turns_ok_again:
  assumes "silent_object b" "turns_ok w left bs"
  shows "turns_ok w (Suc left) (b # bs)"
  using assms by (auto simp: turns_ok_def silent_object_def)

lemma chat_loop_turns:
  "silent_object body \<Longrightarrow> chat_loop L ce hs w n left body (st, m) = (s', bodies, res) \<Longrightarrow> turns_ok w left bodies"
proof (induction left arbitrary: n body st m bodies)
  case 0
  then show ?case by (auto simp: turns_ok_def final_body_get split: prod.splits)
next
  case (Suc left)
  have one: "turns_ok w (Suc left) [body]" using Suc.prems(1) by (simp add: turns_ok_def silent_object_def)
  from Suc.prems(2) show ?case
  proof (cases rule: chat_loop_cases)
    case (again st1 resp bg v results body' bodies')
    have "silent_object body'" using Suc.prems(1) followup_silent[OF _ again(2)] unfolding silent_object_def by blast
    then have "turns_ok w left bodies'" using Suc.IH again(4) by blast
    then show ?thesis using turns_ok_again[OF Suc.prems(1)] again(3) by blast
  qed (use one in simp_all)
qed

lemma chat_loop_wf:
  assumes "\<forall>k. others_keep gateway_ok (ce_dispatch ce k)"
  shows "gateway_ok st \<Longrightarrow> chat_loop L ce hs w n left body (st, m) = (s', bodies, res) \<Longrightarrow>
    wf_result (fst s', res)"
proof (induction left arbitrary: n body st m bodies)
  case 0
  then show ?case
    using wf_dispatch[OF _ 0(1) assms[THEN spec, of n]] by (auto simp: chat_turn_def split: prod.splits)
next
  case (Suc left)
  note d = wf_dispatch[OF _ Suc.prems(1) assms[THEN spec, of n], folded chat_turn_def]
  from Suc.prems(2) show ?case
  proof (cases rule: chat_loop_cases)
    case (down st1)
    then show ?thesis using d[OF down(1)[unfolded chat_turn_def]] by auto
  next
    case (stop st1 resp bg)
    then have "gateway_ok (bg st1)" using d[OF stop(1)[unfolded chat_turn_def]] by (simp add: wf_result_def)
    then show ?thesis using stop by (auto simp: wf_result_def intro: gateway_ok_any)
  next
    case (again st1 resp bg v results body' bodies')
    then have "gateway_ok (bg st1)" using d[OF again(1)[unfolded chat_turn_def]] by (simp add: wf_result_def)
    with Suc.IH again(4) show ?thesis by blast
  qed
qed


text \<open>The handler with tools to offer is the loop on an object with streaming off.\<close>

lemma validated_object: "validate_chat_request L body = None \<Longrightarrow> json_is_object body"
  by (rule ccontr) (simp add: validate_chat_request_def json_get_not_object)

lemma handle_chat_loop:
  assumes "validate_chat_request L (cl_body req) = None" "snd (aggregate_all_tools (ce_inject ce) m) \<noteq> []"
  obtains body m' where "silent_object body"
    "handle_chat_completions L ce True iters req (st, m) =
       chat_loop L ce (cl_headers req) (Option.bind (json_get (cl_body req) ''stream'') json_as_bool = Some True) 0
         (unat (max iters 1)) body (st, m')"
proof -
  let ?body = "cl_body req"
  obtain m' tools where a: "aggregate_all_tools (ce_inject ce) m = (m', tools)" "tools \<noteq> []" using assms(2) by (metis prod.collapse)
  let ?ts = "JArr ((case json_array_at ?body ''tools'' of Some ts \<Rightarrow> ts | None \<Rightarrow> []) @ map to_openai_function tools)"
  obtain b where b: "json_set ''tools'' ?ts ?body = Some b" "json_is_object b"
    using json_set_object[OF validated_object[OF assms(1)]] by blast
  then obtain fs where fs: "b = JObj fs" by (auto simp: json_is_object_def split: json.splits)
  have stream: "json_get b ''stream'' = json_get ?body ''stream''" using json_get_set[OF b(1)] by simp
  have inj: "inject_mcp_tools (ce_inject ce) ?body m = (m', Some (b, tools))"
    using a b(1) by (simp add: inject_mcp_tools_def Let_def)
  have "silent_object (JObj (hm_insert ''stream'' (JBool False) fs))" by (simp add: silent_object_def json_is_object_def)
  moreover have "handle_chat_completions L ce True iters req (st, m) =
      chat_loop L ce (cl_headers req) (Option.bind (json_get ?body ''stream'') json_as_bool = Some True) 0
        (unat (max iters 1)) (JObj (hm_insert ''stream'' (JBool False) fs)) (st, m')"
    using assms(1) a(2) inj stream by (simp add: handle_chat_completions_def Let_def fs)
  ultimately show ?thesis by (rule that)
qed

section \<open>Properties\<close>

text \<open>C22: with tools to offer, a chat request causes at most \<open>max(iterations, 1) + 1\<close> dispatches. Those within the
  iterations do not stream, whatever the client asked for; the one after them, which takes place only when every
  iteration has been used up by tool calls, has neither tools nor a tool choice and streams exactly if the client
  asked for it. A conversation that ends earlier ends with a turn that has tools and does not stream; its answer
  is sent to a streaming client as one event (\<open>loop_answer\<close>).\<close>

theorem chat_turns_bounded:
  assumes "validate_chat_request L (cl_body req) = None" "snd (aggregate_all_tools (ce_inject ce) m) \<noteq> []"
  shows "case handle_chat_completions L ce True iters req (st, m) of (s', bodies, res) \<Rightarrow>
    turns_ok (Option.bind (json_get (cl_body req) ''stream'') json_as_bool = Some True) (unat (max iters 1)) bodies"
proof -
  obtain body m' where "silent_object body" "handle_chat_completions L ce True iters req (st, m) =
       chat_loop L ce (cl_headers req) (Option.bind (json_get (cl_body req) ''stream'') json_as_bool = Some True) 0
         (unat (max iters 1)) body (st, m')"
    using handle_chat_loop[OF assms] .
  then show ?thesis using chat_loop_turns[of body] by (auto split: prod.splits)
qed

definition demo_chat_env :: "nat chat_env" where
  "demo_chat_env = \<lparr>ce_inject = demo_host, ce_dispatch = (\<lambda>_. demo_dispatch_env (Answered (demo_reply 400))),
     ce_mcp = (\<lambda>_ m. m), ce_hosts = (\<lambda>_ _. demo_host)\<rparr>"

lemma demo_chat_valid: "validate_chat_request demo_libs (cl_body demo_request) = None"
  by (simp add: validate_chat_request_def demo_request_def demo_body_def json_as_str_def json_as_array_def)

lemma demo_chat_tools: "snd (aggregate_all_tools (ce_inject demo_chat_env) demo_mcp) \<noteq> []"
  by (simp add: demo_chat_env_def demo_aggregate)

lemma chat_turns_bounded_witness:
  "\<exists>s' bodies res. handle_chat_completions demo_libs demo_chat_env True 2 demo_request (demo_state, demo_mcp) = (s', bodies, res)
     \<and> bodies \<noteq> [] \<and> length bodies \<le> 3"
proof -
  obtain s' bodies res where r: "handle_chat_completions demo_libs demo_chat_env True 2 demo_request (demo_state, demo_mcp) = (s', bodies, res)"
    by (metis prod_cases3)
  have "unat (max 2 1 :: u32) = 2" by simp
  then show ?thesis
    using chat_turns_bounded[OF demo_chat_valid demo_chat_tools, of 2 demo_state] r by (simp add: turns_ok_def)
qed

text \<open>A chat request with all its turns and tool calls keeps the gateway state well formed unless it panics, and so does
  the work its answer leaves behind; a panic costs at most the end of one open circuit. Hypothesis: the steps of other
  requests in between keep it.\<close>

theorem chat_keeps_gateway_ok:
  assumes "\<forall>k. others_keep gateway_ok (ce_dispatch ce k)" "gateway_ok st"
    and "handle_chat_completions L ce inject iters req (st, m) = (s', bodies, res)"
  shows "wf_result (fst s', res)"
proof (cases "validate_chat_request L (cl_body req)")
  case None
  have plain: "wf_result (st1, r)"
    if "chat_turn L (ce_dispatch ce 0) (cl_headers req) (cl_body req) st = (st1, r)" for st1 r
    using wf_dispatch[OF that[unfolded chat_turn_def] assms(2) assms(1)[THEN spec]] .
  show ?thesis
  proof (cases "inject \<and> snd (aggregate_all_tools (ce_inject ce) m) \<noteq> []")
    case True
    then have tools: "snd (aggregate_all_tools (ce_inject ce) m) \<noteq> []" and i: inject by auto
    obtain body m' where "handle_chat_completions L ce True iters req (st, m) =
       chat_loop L ce (cl_headers req) (Option.bind (json_get (cl_body req) ''stream'') json_as_bool = Some True) 0
         (unat (max iters 1)) body (st, m')"
      using handle_chat_loop[OF None tools] .
    with assms(3) i show ?thesis by (intro chat_loop_wf[OF assms(1,2)]) simp
  next
    case False
    obtain m' tools where a: "aggregate_all_tools (ce_inject ce) m = (m', tools)" by fastforce
    obtain st1 r where t: "chat_turn L (ce_dispatch ce 0) (cl_headers req) (cl_body req) st = (st1, r)" by fastforce
    have "fst s' = st1 \<and> res = r"
    proof (cases inject)
      case True
      with False a have "tools = []" by simp
      then show ?thesis using assms(3) None True a t by (simp add: handle_chat_completions_def inject_mcp_tools_def) auto
    next
      case False
      then show ?thesis using assms(3) None t by (simp add: handle_chat_completions_def) auto
    qed
    with plain[OF t] show ?thesis by simp
  qed
next
  case (Some resp)
  then have "s' = (st, m)" "res = Answer resp (\<lambda>st. st)" using assms(3) by (simp_all add: handle_chat_completions_def)
  then show ?thesis using assms(2) by (simp add: wf_result_def)
qed

lemma chat_keeps_gateway_ok_witness:
  "wf_result (case handle_chat_completions demo_libs demo_chat_env True 2 demo_request (demo_state, demo_mcp) of
     (s', bodies, res) \<Rightarrow> (fst s', res))"
proof -
  obtain s' bodies res where r: "handle_chat_completions demo_libs demo_chat_env True 2 demo_request (demo_state, demo_mcp) = (s', bodies, res)"
    by (metis prod_cases3)
  have "\<forall>k. others_keep gateway_ok (ce_dispatch demo_chat_env k)" by (simp add: demo_chat_env_def demo_keeps)
  from chat_keeps_gateway_ok[OF this demo_state_ok r] show ?thesis by (simp add: r)
qed

end
