(* ===== verification/Model_Api.thy ===== *)
theory Model_Api
  imports Chat_Handler
begin

text \<open>
  \<open>proxy/openai.rs\<close>: the read-only endpoints, \<open>/v1/models\<close>, \<open>/v1/models/{id}\<close>, \<open>/v1/tools\<close> and the health check.
  \<open>version\<close> is the crate's version. The entries are given as JSON values; the handlers print them.
\<close>

definition thinking_format_str :: "thinking_format \<Rightarrow> string" where
  "thinking_format_str f = (case f of ThinkNone \<Rightarrow> ''none'' | ThinkBudget \<Rightarrow> ''budget'' | ThinkLevel \<Rightarrow> ''level'' | ThinkHybrid \<Rightarrow> ''hybrid'')"

definition capabilities_to_json :: "model_capabilities \<Rightarrow> json" where
  "capabilities_to_json caps = JObj
     [(''supports_vision'', JBool (supports_vision caps)), (''supports_tools'', JBool (supports_tools caps)),
      (''supports_thinking'', JBool (supports_thinking caps)),
      (''max_context_tokens'', case max_context_tokens caps of Some n \<Rightarrow> JInt (uint n) | None \<Rightarrow> JNull),
      (''thinking_format'', JStr (thinking_format_str (thinking_format_of caps)))]"

definition infer_owner :: "string \<Rightarrow> string" where
  "infer_owner model_id =
     (if starts_with model_id ''gpt-'' \<or> starts_with model_id ''o1'' \<or> starts_with model_id ''o3'' \<or> starts_with model_id ''o4''
      then ''openai''
      else if starts_with model_id ''claude-'' then ''anthropic''
      else if starts_with model_id ''gemini-'' then ''google''
      else if starts_with model_id ''deepseek'' then ''deepseek''
      else ''unknown'')"

definition model_entry :: "model_registry \<Rightarrow> string \<Rightarrow> int \<Rightarrow> string \<Rightarrow> json" where
  "model_entry reg model_id created owner = JObj
     [(''id'', JStr model_id), (''object'', JStr ''model''), (''created'', JInt created), (''owned_by'', JStr owner),
      (''capabilities'', capabilities_to_json (registry_get reg model_id))]"

text \<open>One candidate: pushed unless its name has been seen.\<close>

definition list_model :: "model_registry \<Rightarrow> string \<times> int \<times> string \<Rightarrow> string list \<times> json list \<Rightarrow> string list \<times> json list" where
  "list_model reg = (\<lambda>(name, created, owner) (seen, models).
     if name \<in> set seen then (seen, models) else (name # seen, models @ [model_entry reg name created owner]))"

definition channel_models :: "channel list \<Rightarrow> (string \<times> int \<times> string) list" where
  "channel_models chs = concat (map (\<lambda>ch. map (\<lambda>(alias, _). (alias, ch_created_at ch div 1000000000, provider_as_str (ch_provider ch)))
     (ch_model_mapping ch)) (filter ch_enabled chs))"

definition handle_list_models :: "manager \<Rightarrow> utc \<Rightarrow> model_registry \<Rightarrow> json" where
  "handle_list_models m now reg =
     (let candidates = channel_models (manager_list m now) @ map (\<lambda>i. (i, 0, infer_owner i)) (list_models reg)
      in JObj [(''object'', JStr ''list''), (''data'', JArr (snd (fold (list_model reg) candidates ([], []))))])"

definition handle_get_model :: "model_registry \<Rightarrow> string \<Rightarrow> json" where
  "handle_get_model reg model_id = model_entry reg model_id 0 (infer_owner model_id)"

definition tool_exposed :: "'c mcp_manager \<Rightarrow> aggregated_tool \<Rightarrow> bool" where
  "tool_exposed m t = (case get_config m (at_server_id t) of Some c \<Rightarrow> ms_expose_tools c | None \<Rightarrow> False)"

definition handle_list_tools :: "'c mcp_host \<Rightarrow> 'c mcp_manager \<Rightarrow> 'c mcp_manager \<times> json" where
  "handle_list_tools h m =
     (let (m, tools) = aggregate_all_tools h m
      in (m, JObj [(''object'', JStr ''list''), (''data'', JArr (map to_openai_function (filter (tool_exposed m) tools)))]))"

definition health_check :: "string \<Rightarrow> manager \<Rightarrow> utc \<Rightarrow> nat \<Rightarrow> json" where
  "health_check version m now uptime_secs =
     (let channels = manager_list m now;
          healthy = length (filter (\<lambda>c. ch_status c = Healthy \<and> ch_enabled c) channels)
      in JObj [(''status'', JStr (if 0 < healthy then ''ok'' else ''degraded'')), (''version'', JStr version),
           (''uptime_secs'', JInt (int uptime_secs)),
           (''channels'', JObj [(''total'', JInt (int (length channels))), (''healthy'', JInt (int healthy))])])"

section \<open>Properties\<close>

definition entry_id :: "json \<Rightarrow> string option" where
  "entry_id e = json_get_str e ''id''"

lemma entry_id_model [simp]: "entry_id (model_entry reg i c o') = Some i"
  by (simp add: entry_id_def model_entry_def json_as_str_def)

lemma list_model_fold:
  assumes "map entry_id models = map Some (rev seen)" "distinct seen" "fold (list_model reg) cs (seen, models) = (seen', models')"
  shows "map entry_id models' = map Some (rev seen') \<and> distinct seen' \<and> set seen' = set seen \<union> fst ` set cs"
  using assms
proof (induction cs arbitrary: seen models)
  case (Cons c cs)
  obtain n cr ow where c: "c = (n, cr, ow)" by (metis prod_cases3)
  show ?case
  proof (cases "n \<in> set seen")
    case True
    then show ?thesis using Cons.IH[OF Cons.prems(1,2)] Cons.prems(3) c by (auto simp: list_model_def)
  next
    case False
    then have "fold (list_model reg) cs (n # seen, models @ [model_entry reg n cr ow]) = (seen', models')"
      using Cons.prems(3) c by (simp add: list_model_def)
    from Cons.IH[OF _ _ this] Cons.prems(1,2) False c show ?thesis by auto
  qed
qed simp

lemma channel_models_names:
  "fst ` set (channel_models chs) = (\<Union>c \<in> {c \<in> set chs. ch_enabled c}. fst ` set (ch_model_mapping c))"
  by (simp add: channel_models_def image_UN image_image case_prod_unfold)

text \<open>\<open>/v1/models\<close> lists every alias of an enabled channel and every model of the registry, each exactly once.\<close>

theorem models_listed_once:
  "\<exists>es. json_get (handle_list_models m now reg) ''data'' = Some (JArr es) \<and> distinct (map entry_id es)
    \<and> set (map entry_id es) = Some ` ((\<Union>c \<in> {c \<in> set (manager_list m now). ch_enabled c}. fst ` set (ch_model_mapping c))
        \<union> set (list_models reg))"
proof -
  let ?cs = "channel_models (manager_list m now) @ map (\<lambda>i. (i, 0, infer_owner i)) (list_models reg)"
  obtain seen es where f: "fold (list_model reg) ?cs ([], []) = (seen, es)" by fastforce
  from list_model_fold[OF _ _ f] have l: "map entry_id es = map Some (rev seen)" "distinct seen" "set seen = fst ` set ?cs" by simp_all
  have "fst ` set ?cs = (\<Union>c \<in> {c \<in> set (manager_list m now). ch_enabled c}. fst ` set (ch_model_mapping c)) \<union> set (list_models reg)"
    by (simp add: channel_models_names image_Un image_image)
  moreover have "json_get (handle_list_models m now reg) ''data'' = Some (JArr es)" by (simp only: handle_list_models_def Let_def f snd_conv) simp
  moreover have "distinct (map entry_id es)" unfolding l(1) using l(2) by (simp add: distinct_map)
  moreover have "set (map entry_id es) = Some ` set seen" unfolding l(1) by auto
  ultimately show ?thesis using l(3) by auto
qed

section \<open>Private tools\<close>

text \<open>A running server whose tools must not be exposed.\<close>

definition private_mcp :: "nat mcp_manager" where
  "private_mcp = with_entry demo_mcp ''fs'' (\<lambda>e. e\<lparr>me_config := (me_config e)\<lparr>ms_expose_tools := False\<rparr>\<rparr>)"

text \<open>\<open>/v1/tools\<close> hides the tools of a server with \<open>expose_tools = false\<close>, but a chat request offers them to the
  model all the same, under a name the handler executes.\<close>

theorem private_tool_is_offered:
  "json_get (snd (handle_list_tools demo_host private_mcp)) ''data'' = Some (JArr [])
    \<and> (\<exists>m' b t. inject_mcp_tools demo_host demo_body private_mcp = (m', Some (b, [t]))
        \<and> json_array_at b ''tools'' = Some [to_openai_function t] \<and> at_namespaced_name t = ''mcp__fs__read'')"
proof -
  let ?t = "aggregated ''fs'' \<lparr>mt_name = ''read'', mt_description = None, mt_input_schema = []\<rparr>"
  have e: "mm_entries private_mcp = [(''fs'', (new_entry ((demo_server ''fs'')\<lparr>ms_expose_tools := False\<rparr>))\<lparr>me_client := Some 2, me_tool_count := Some 1\<rparr>),
     (''web'', new_entry (demo_server ''web''))]"
    by (simp add: private_mcp_def with_entry_def demo_mcp_entries hm_modify_def new_entry_def demo_server_def)
  obtain m' where a: "aggregate_all_tools demo_host private_mcp = (m', [?t])" "get_config m' ''fs'' = Some ((demo_server ''fs'')\<lparr>ms_expose_tools := False\<rparr>)"
    by (simp add: aggregate_all_tools_def list_status_def entry_status_def aggregate_server_def list_tools_def running_client_def
      mcp_lookup_def e new_entry_def demo_host_def with_entry_def hm_modify_def get_config_def)
  have t: "at_server_id ?t = ''fs''" "at_namespaced_name ?t = ''mcp__fs__read''"
    by (simp_all add: aggregated_def namespaced_name_def namespace_prefix_def)
  have "json_get (snd (handle_list_tools demo_host private_mcp)) ''data'' = Some (JArr [])"
    by (simp add: handle_list_tools_def a tool_exposed_def t)
  moreover have "inject_mcp_tools demo_host demo_body private_mcp =
      (m', Some (JObj (hm_insert ''tools'' (JArr [to_openai_function ?t]) [(''model'', JStr ''m''), (''messages'', JArr [text_message ''user'' ''hi''])]), [?t]))"
    by (simp add: inject_mcp_tools_def a demo_body_def json_set_def)
  ultimately show ?thesis using t(2) by (auto simp: json_as_array_def)
qed

end
