(* ===== verification/Responses_Api.thy ===== *)
theory Responses_Api
  imports Chat_Handler
begin

text \<open>
  \<open>proxy/responses.rs\<close>, \<open>proxy/anthropic.rs\<close> and \<open>proxy/gemini.rs\<close>: the other front doors of \<open>dispatch\<close>. The Responses
  API is translated to a chat request and back; a streaming client gets the finished answer as four events. The
  two random ids of an answer are arguments, \<open>simple\<close> prints them.
\<close>

definition handle_messages :: "libs \<Rightarrow> dispatch_env \<Rightarrow> client_request \<Rightarrow> app_state \<Rightarrow> app_state \<times> dispatch_result" where
  "handle_messages L de req st =
     (case validate_chat_request L (cl_body req) of
        Some resp \<Rightarrow> (st, Answer resp (\<lambda>st. st))
      | None \<Rightarrow> dispatch L de AnthropicAdaptor AnthropicMessages req st)"

definition handle_gemini :: "libs \<Rightarrow> dispatch_env \<Rightarrow> client_request \<Rightarrow> app_state \<Rightarrow> app_state \<times> dispatch_result" where
  "handle_gemini L de req st =
     (case validate_chat_request L (cl_body req) of
        Some resp \<Rightarrow> (st, Answer resp (\<lambda>st. st))
      | None \<Rightarrow> dispatch L de GeminiAdaptor OpenAIChat req st)"

section \<open>Request\<close>

definition invalid_request :: "libs \<Rightarrow> string \<Rightarrow> http_response" where
  "invalid_request L message = json_response 400 (lib_print L (JObj [(''error'',
     JObj [(''message'', JStr message), (''type'', JStr ''invalid_request_error'')])]))"

definition build_messages :: "libs \<Rightarrow> json \<Rightarrow> http_response + json list" where
  "build_messages L body =
     (case (case json_get body ''instructions'' of
              None \<Rightarrow> Inr []
            | Some v \<Rightarrow> (case json_as_str v of
                Some s \<Rightarrow> Inr [JObj [(''role'', JStr ''system''), (''content'', JStr s)]]
              | None \<Rightarrow> Inl (invalid_request L ''instructions must be a string''))) of
        Inl resp \<Rightarrow> Inl resp
      | Inr messages \<Rightarrow>
          (case json_get body ''input'' of
             Some (JStr s) \<Rightarrow> Inr (messages @ [JObj [(''role'', JStr ''user''), (''content'', JStr s)]])
           | Some (JArr arr) \<Rightarrow>
               if messages @ arr = [] then Inl (invalid_request L ''Missing required field: input'') else Inr (messages @ arr)
           | Some _ \<Rightarrow> Inl (invalid_request L ''input must be a string or an array'')
           | None \<Rightarrow> if messages = [] then Inl (invalid_request L ''Missing required field: input'') else Inr messages))"

text \<open>Copying a field of the request under a new name, if it is there.\<close>

definition copy_field :: "json \<Rightarrow> string \<Rightarrow> string \<Rightarrow> (string \<times> json) list \<Rightarrow> (string \<times> json) list" where
  "copy_field body old new chat = (case json_get body old of Some v \<Rightarrow> hm_insert new v chat | None \<Rightarrow> chat)"

definition translate_responses_request :: "libs \<Rightarrow> json \<Rightarrow> http_response + json" where
  "translate_responses_request L body =
     (case build_messages L body of
        Inl resp \<Rightarrow> Inl resp
      | Inr messages \<Rightarrow>
          let chat = copy_field body ''model'' ''model'' [];
              chat = hm_insert ''messages'' (JArr messages) chat;
              chat = copy_field body ''max_output_tokens'' ''max_tokens'' chat;
              chat = fold (\<lambda>k. copy_field body k k) [''temperature'', ''top_p'', ''tools'', ''tool_choice'', ''stream''] chat
          in Inr (JObj chat))"

section \<open>Response\<close>

definition json_index :: "json \<Rightarrow> nat \<Rightarrow> json option" where
  "json_index v n = (case v of JArr xs \<Rightarrow> if n < length xs then Some (xs ! n) else None | _ \<Rightarrow> None)"

definition function_call_item :: "json \<Rightarrow> json" where
  "function_call_item tc =
     (let i = str_or tc ''id'' []; f = get_or tc ''function'' (JObj [])
      in JObj [(''type'', JStr ''function_call''), (''id'', JStr i), (''call_id'', JStr i),
           (''name'', JStr (str_or f ''name'' [])), (''arguments'', JStr (str_or f ''arguments'' []))])"

definition build_output :: "string \<Rightarrow> json \<Rightarrow> string \<times> json list" where
  "build_output msg_id chat =
     (case Option.bind (json_get chat ''choices'') (\<lambda>c. json_index c 0) of
        None \<Rightarrow> (''completed'', [])
      | Some choice \<Rightarrow>
          let status = (if str_or choice ''finish_reason'' ''stop'' = ''length'' then ''incomplete'' else ''completed'');
              message = get_or choice ''message'' (JObj []);
              text = (case json_get_str message ''content'' of
                        Some s \<Rightarrow> if s \<noteq> [] then [JObj [(''type'', JStr ''output_text''), (''text'', JStr s)]] else []
                      | None \<Rightarrow> []);
              calls = (case json_array_at message ''tool_calls'' of Some tcs \<Rightarrow> map function_call_item tcs | None \<Rightarrow> [])
          in (status, [JObj [(''type'', JStr ''message''), (''id'', JStr (''msg_'' @ msg_id)), (''role'', JStr (str_or message ''role'' ''assistant'')),
                (''status'', JStr status), (''content'', JArr (text @ calls))]]))"

definition translate_usage :: "json \<Rightarrow> json" where
  "translate_usage chat =
     (let usage = get_or chat ''usage'' (JObj [])
      in JObj [(''input_tokens'', get_or usage ''prompt_tokens'' (JInt 0)), (''output_tokens'', get_or usage ''completion_tokens'' (JInt 0)),
           (''total_tokens'', get_or usage ''total_tokens'' (JInt 0))])"

definition translate_responses_response :: "(uuid \<Rightarrow> string) \<Rightarrow> uuid \<Rightarrow> uuid \<Rightarrow> json \<Rightarrow> json" where
  "translate_responses_response simple resp_id msg_id chat =
     (let (status, output) = build_output (simple msg_id) chat
      in JObj [(''id'', JStr (''resp_'' @ simple resp_id)), (''object'', JStr ''response''),
           (''created_at'', get_or chat ''created'' (JInt 0)), (''model'', get_or chat ''model'' (JStr ''unknown'')),
           (''status'', JStr status), (''output'', JArr output), (''usage'', translate_usage chat)])"

section \<open>Events\<close>

definition sse_event :: "string \<Rightarrow> string \<Rightarrow> string" where
  "sse_event event data = ''event: '' @ event @ newline @ ''data: '' @ data @ newline @ newline"

definition payload_text :: "json \<Rightarrow> string" where
  "payload_text payload =
     (case Option.bind (Option.bind (Option.bind (Option.bind (json_get payload ''output'') (\<lambda>o'. json_index o' 0))
         (\<lambda>m. json_get m ''content'')) (\<lambda>c. json_index c 0)) (\<lambda>item. json_get_str item ''text'') of
        Some s \<Rightarrow> s | None \<Rightarrow> [])"

definition sse_responses_stream :: "libs \<Rightarrow> json \<Rightarrow> http_response" where
  "sse_responses_stream L payload =
     (let text = payload_text payload;
          created = (case payload of JObj m \<Rightarrow> JObj (hm_insert ''status'' (JStr ''in_progress'') m) | _ \<Rightarrow> payload)
      in \<lparr>rs_status = 200, rs_headers = sse_headers, rs_body = Full
            (sse_event ''response.created'' (lib_print L created)
             @ sse_event ''response.output_text.delta'' (lib_print L (JObj [(''delta'', JStr text)]))
             @ sse_event ''response.output_text.done'' (lib_print L (JObj [(''text'', JStr text)]))
             @ sse_event ''response.completed'' (lib_print L payload))\<rparr>)"

section \<open>The handler\<close>

definition buffer_response_json :: "libs \<Rightarrow> http_response \<Rightarrow> http_response + nat \<times> json" where
  "buffer_response_json L resp =
     (case to_bytes max_response_body_bytes (rs_body resp) of
        None \<Rightarrow> Inl (json_response 502 (lib_print L (JObj [(''error'', JObj
          [(''message'', JStr ''responses: failed to buffer upstream response''), (''type'', JStr ''upstream_error'')])])))
      | Some bytes \<Rightarrow>
          (case lib_parse L bytes of
             None \<Rightarrow> Inl (json_response (rs_status resp) (from_utf8_lossy bytes))
           | Some v \<Rightarrow> Inr (rs_status resp, v)))"

definition responses_answer :: "libs \<Rightarrow> (uuid \<Rightarrow> string) \<Rightarrow> uuid \<Rightarrow> uuid \<Rightarrow> bool \<Rightarrow> http_response \<Rightarrow> http_response" where
  "responses_answer L simple resp_id msg_id was_streaming upstream =
     (case buffer_response_json L upstream of
        Inl fallback \<Rightarrow> fallback
      | Inr (status, chat) \<Rightarrow>
          if \<not> (200 \<le> status \<and> status < 300) then json_response status (lib_print L chat)
          else let payload = translate_responses_response simple resp_id msg_id chat
               in if was_streaming then sse_responses_stream L payload else json_response 200 (lib_print L payload))"

definition handle_responses ::
  "libs \<Rightarrow> (uuid \<Rightarrow> string) \<Rightarrow> uuid \<Rightarrow> uuid \<Rightarrow> dispatch_env \<Rightarrow> client_request \<Rightarrow> app_state \<Rightarrow> app_state \<times> dispatch_result" where
  "handle_responses L simple resp_id msg_id de req st =
     (let body = cl_body req; was_streaming = (Option.bind (json_get body ''stream'') json_as_bool = Some True)
      in case translate_responses_request L body of
           Inl resp \<Rightarrow> (st, Answer resp (\<lambda>st. st))
         | Inr chat \<Rightarrow>
             (case validate_chat_request L chat of
                Some resp \<Rightarrow> (st, Answer resp (\<lambda>st. st))
              | None \<Rightarrow>
                  let chat = (case chat of JObj m \<Rightarrow> JObj (hm_insert ''stream'' (JBool False) m) | _ \<Rightarrow> chat)
                  in case dispatch L de OpenAIAdaptor OpenAIResponses \<lparr>cl_headers = cl_headers req, cl_body = chat\<rparr> st of
                       (st, Answer upstream bg) \<Rightarrow> (st, Answer (responses_answer L simple resp_id msg_id was_streaming upstream) bg)
                     | (st, res) \<Rightarrow> (st, res)))"


section \<open>Properties\<close>

lemma copy_field_get:
  "hm_get (copy_field body old new chat) k =
    (if k = new \<and> json_get body old \<noteq> None then json_get body old else hm_get chat k)"
  by (simp add: copy_field_def split: option.splits)

text \<open>The chat request made from a Responses request has the built messages, the renamed token limit, the fields
  that are passed through, unchanged, and nothing else.\<close>

theorem responses_request_fields:
  assumes "translate_responses_request L body = Inr chat"
  shows "\<exists>messages. build_messages L body = Inr messages \<and> messages \<noteq> [] \<and> json_get chat k =
    (if k = ''messages'' then Some (JArr messages)
     else if k = ''max_tokens'' then json_get body ''max_output_tokens''
     else if k \<in> {''model'', ''temperature'', ''top_p'', ''tools'', ''tool_choice'', ''stream''} then json_get body k
     else None)"
proof -
  obtain messages where m: "build_messages L body = Inr messages"
    and c: "chat = JObj (fold (\<lambda>k. copy_field body k k) [''temperature'', ''top_p'', ''tools'', ''tool_choice'', ''stream'']
      (copy_field body ''max_output_tokens'' ''max_tokens'' (hm_insert ''messages'' (JArr messages) (copy_field body ''model'' ''model'' []))))"
    using assms by (auto simp: translate_responses_request_def Let_def split: sum.splits)
  have "messages \<noteq> []"
    using m by (auto simp: build_messages_def split: option.splits json.splits sum.splits if_splits)
  moreover have "json_get chat k =
    (if k = ''messages'' then Some (JArr messages)
     else if k = ''max_tokens'' then json_get body ''max_output_tokens''
     else if k \<in> {''model'', ''temperature'', ''top_p'', ''tools'', ''tool_choice'', ''stream''} then json_get body k
     else None)"
    unfolding c by (auto simp: copy_field_get)
  ultimately show ?thesis using m by blast
qed

definition demo_responses_body :: json where
  "demo_responses_body = JObj [(''model'', JStr ''m''), (''input'', JStr ''hi''), (''max_output_tokens'', JInt 7)]"

lemma responses_request_fields_witness:
  "\<exists>chat. translate_responses_request demo_libs demo_responses_body = Inr chat \<and> json_get chat ''max_tokens'' = Some (JInt 7)"
proof -
  obtain chat where c: "translate_responses_request demo_libs demo_responses_body = Inr chat"
    by (auto simp: translate_responses_request_def build_messages_def demo_responses_body_def json_as_str_def Let_def)
  from responses_request_fields[OF c, of "''max_tokens''"] show ?thesis using c by (auto simp: demo_responses_body_def)
qed

text \<open>The text and the token counts of the upstream answer reach the client: the text of the first choice is the
  text of the payload, from which the streamed events are made, and the usage is copied under the new names.\<close>

theorem responses_text_preserved:
  assumes "json_array_at chat ''choices'' = Some (choice # others)" "json_get choice ''message'' = Some message"
    and "json_get_str message ''content'' = Some text" "text \<noteq> []"
  shows "payload_text (translate_responses_response simple i j chat) = text
    \<and> (\<forall>u. json_get chat ''usage'' = Some u \<longrightarrow>
        json_get (translate_responses_response simple i j chat) ''usage'' = Some (JObj [(''input_tokens'', get_or u ''prompt_tokens'' (JInt 0)),
          (''output_tokens'', get_or u ''completion_tokens'' (JInt 0)), (''total_tokens'', get_or u ''total_tokens'' (JInt 0))]))"
proof -
  have cs: "json_get chat ''choices'' = Some (JArr (choice # others))"
    using assms(1) by (cases "json_get chat ''choices''") (auto simp: json_as_array_def split: json.splits)
  have g: "get_or choice ''message'' (JObj []) = message" using assms(2) by (simp add: get_or_def)
  have t: "json_get_str message ''content'' = Some text" by (fact assms(3))
  have "snd (build_output (simple j) chat) = [JObj [(''type'', JStr ''message''), (''id'', JStr (''msg_'' @ simple j)),
      (''role'', JStr (str_or message ''role'' ''assistant'')), (''status'', JStr (fst (build_output (simple j) chat))),
      (''content'', JArr (JObj [(''type'', JStr ''output_text''), (''text'', JStr text)] #
        (case json_array_at message ''tool_calls'' of Some tcs \<Rightarrow> map function_call_item tcs | None \<Rightarrow> [])))]]"
    using cs g assms(4) t by (simp add: build_output_def json_index_def Let_def)
  then show ?thesis
    by (simp add: payload_text_def translate_responses_response_def case_prod_unfold json_index_def json_as_str_def translate_usage_def get_or_def Let_def)
qed

definition demo_chat_answer :: json where
  "demo_chat_answer = JObj [(''choices'', JArr [JObj [(''message'', JObj [(''content'', JStr ''hello'')])]])]"

lemma responses_text_preserved_witness: "payload_text (translate_responses_response (\<lambda>_. ''x'') 1 2 demo_chat_answer) = ''hello''"
  using responses_text_preserved[of demo_chat_answer "JObj [(''message'', JObj [(''content'', JStr ''hello'')])]" "[]"
      "JObj [(''content'', JStr ''hello'')]" "''hello''" "\<lambda>_. ''x''" 1 2]
  by (simp add: demo_chat_answer_def json_as_array_def json_as_str_def)

text \<open>A Responses request keeps the gateway state well formed unless it panics, and so does the work its answer leaves
  behind; a panic costs at most the end of one open circuit.\<close>

theorem responses_keep_gateway_ok:
  assumes "handle_responses L simple i j de req st = (st', res)" "gateway_ok st" "others_keep gateway_ok de"
  shows "wf_result (st', res)"
proof -
  have d: "wf_result (st1, r)"
    if "dispatch L de OpenAIAdaptor OpenAIResponses \<lparr>cl_headers = cl_headers req, cl_body = chat\<rparr> st = (st1, r)" for chat st1 r
    using wf_dispatch[OF that assms(2,3)] .
  show ?thesis
    using assms(1,2) d[unfolded wf_result_def snd_conv fst_conv]
    by (auto simp: handle_responses_def wf_result_def Let_def split: if_splits sum.splits option.splits prod.splits dispatch_result.splits)
qed

lemma responses_keep_gateway_ok_witness:
  "wf_result (handle_responses demo_libs (\<lambda>_. ''x'') 1 2 (demo_dispatch_env (Answered (demo_reply 400)))
     \<lparr>cl_headers = [], cl_body = demo_responses_body\<rparr> demo_state)"
proof -
  obtain st' res where r: "handle_responses demo_libs (\<lambda>_. ''x'') 1 2 (demo_dispatch_env (Answered (demo_reply 400)))
     \<lparr>cl_headers = [], cl_body = demo_responses_body\<rparr> demo_state = (st', res)" by fastforce
  from responses_keep_gateway_ok[OF r demo_state_ok demo_keeps] r show ?thesis by simp
qed

end
