(* ===== verification/Side_Endpoints.thy ===== *)
theory Side_Endpoints
  imports Gateway_Invariant
begin

text \<open>
  \<open>proxy/embeddings.rs\<close> and \<open>proxy/images.rs\<close>: the endpoints that forward a request to one channel, without the
  retries, the cache and the admission checks of \<open>dispatch\<close>. \<open>se_upstream\<close> answers with a status and a text, or
  not at all; a text that cannot be read is empty.
\<close>

record side_env =
  se_start :: moment
  se_draw :: nat
  se_after :: moment
  se_log :: moment
  se_json_headers :: headers
  se_upstream :: "upstream_request \<Rightarrow> (nat \<times> string) option"

definition forwarded_headers :: "headers \<Rightarrow> headers" where
  "forwarded_headers hs = filter (\<lambda>(name, _). name \<notin> set SKIP_HEADERS) hs"

definition set_model :: "string \<Rightarrow> json \<Rightarrow> json" where
  "set_model model body = (case body of JObj m \<Rightarrow> JObj (hm_insert ''model'' (JStr model) m) | _ \<Rightarrow> body)"

section \<open>Embeddings\<close>

definition EMBEDDINGS_ESTIMATED_TOKENS :: u64 where
  "EMBEDDINGS_ESTIMATED_TOKENS = 1000"

definition validate_embedding_request :: "libs \<Rightarrow> json \<Rightarrow> http_response + string" where
  "validate_embedding_request L body =
     (case json_get_str body ''model'' of
        None \<Rightarrow> Inl (error_response (lib_print L) 400 ''Missing required field: model'' ''invalid_request_error'' ''missing_model'')
      | Some m \<Rightarrow>
          if m = [] then Inl (error_response (lib_print L) 400 ''Missing required field: model'' ''invalid_request_error'' ''missing_model'')
          else if json_get body ''input'' = None
          then Inl (error_response (lib_print L) 400 ''Missing required field: input'' ''invalid_request_error'' ''missing_input'')
          else Inr m)"

definition select_embedding_channel ::
  "libs \<Rightarrow> side_env \<Rightarrow> app_state \<Rightarrow> string \<Rightarrow> string option \<Rightarrow> http_response + channel" where
  "select_embedding_channel L env st model account_group =
     (case select_channel (as_manager st) model (as_strategy st) (routing_context_of st) account_group
             (mo_utc (se_start env)) (mo_inst (se_start env)) (se_draw env) of
        Some ch \<Rightarrow> Inr ch
      | None \<Rightarrow> Inl (error_response (lib_print L) 503 (''No available channel for model: '' @ model) ''server_error'' ''no_channel_available''))"

definition check_embedding_pre_dispatch ::
  "libs \<Rightarrow> moment \<Rightarrow> channel \<Rightarrow> app_state \<Rightarrow> app_state \<times> http_response option" where
  "check_embedding_pre_dispatch L t ch st =
     (let provider = provider_as_str (ch_provider ch)
      in if \<not> check_budget (as_provider_budgets st) (mo_today t) (mo_month t) provider
         then (st, Some (error_response (lib_print L) 402
                (''Provider '' @ [CHR 0x27] @ provider @ [CHR 0x27] @ '' budget exceeded'') ''budget_exceeded'' ''provider_budget_exceeded''))
         else let (srv, lim, allowed, _) = rl_check (mo_redis t) (as_redis st) (as_rate_limiter st) (mo_inst t) (ch_id ch)
                    EMBEDDINGS_ESTIMATED_TOKENS;
                  st = st\<lparr>as_redis := srv, as_rate_limiter := lim\<rparr>
              in if allowed then (st, None)
                 else (st, Some (error_response (lib_print L) 429 ''Rate limit exceeded for channel. Please retry after a brief wait.''
                       ''rate_limit_error'' ''rate_limit_exceeded'')))"

definition mark_open :: "moment \<Rightarrow> uuid \<Rightarrow> app_state \<Rightarrow> app_state" where
  "mark_open t i st = st\<lparr>as_manager := manager_mark_circuit_open (as_manager st) (mo_utc t) i\<rparr>"

datatype built = Panics | Refused http_response | Built upstream_request

definition build_embedding_request ::
  "libs \<Rightarrow> side_env \<Rightarrow> headers \<Rightarrow> channel \<Rightarrow> json \<Rightarrow> string \<Rightarrow> app_state \<Rightarrow> app_state \<times> built" where
  "build_embedding_request L env hs ch body resolved_model st =
     (let t = se_start env; (m, cred) = get_credential (lib_keyring L) (as_manager st) (ch_id ch); st = st\<lparr>as_manager := m\<rparr>
      in case cred of
           CredPanic \<Rightarrow> (st, Panics)
         | Cred None \<Rightarrow>
             (mark_open t (ch_id ch) (record_rate t (ch_id ch) EMBEDDINGS_ESTIMATED_TOKENS st),
              Refused (error_response (lib_print L) 503 ''No credential available for channel'' ''server_error'' ''no_credential''))
         | Cred (Some api_key) \<Rightarrow>
             let upstream_model = map_model ch resolved_model
             in (st, Built \<lparr>uq_url = trim_slashes (ch_base_url ch) @ ''/v1/embeddings'',
                   uq_headers = se_json_headers env @ forwarded_headers hs
                     @ (if cred_type (ch_credential ch) = WebSession then [(''cookie'', api_key)]
                        else [(''authorization'', ''Bearer '' @ api_key)])
                     @ [(''content-type'', ''application/json'')],
                   uq_body = (if upstream_model \<noteq> resolved_model then set_model upstream_model body else body)\<rparr>))"

definition embedding_log :: "moment \<Rightarrow> channel \<Rightarrow> string \<Rightarrow> nat \<Rightarrow> dispatch_log" where
  "embedding_log t ch model status =
     make_log t \<lparr>li_model = model, li_channel_id = ch_id ch, li_channel_name = ch_name ch, li_channel_priority = 1,
       li_retry_count = 1, li_reason = (if is_success status then None else Some (''embeddings_'' @ nat_digits status)),
       li_latency_ms = 0, li_success = is_success status, li_estimated_cost = None, li_usage = no_usage,
       li_request_id = None, li_virtual_key_id = None\<rparr>"

definition handle_embedding_response ::
  "libs \<Rightarrow> side_env \<Rightarrow> nat \<Rightarrow> string \<Rightarrow> channel \<Rightarrow> string \<Rightarrow> app_state \<Rightarrow> app_state \<times> dispatch_result" where
  "handle_embedding_response L env status body_text ch resolved_model st =
     (let t = se_after env; st = record_rate t (ch_id ch) EMBEDDINGS_ESTIMATED_TOKENS st;
          st = (if status = 429 \<or> 500 \<le> status \<and> status < 600 then mark_open t (ch_id ch) st else st)
      in (st, Answer (json_response status body_text) (write_log L (embedding_log (se_log env) ch resolved_model status))))"

text \<open>The handler between the acquisition of the active-request guard and its release.\<close>

definition serve_embedding ::
  "libs \<Rightarrow> side_env \<Rightarrow> client_request \<Rightarrow> channel \<Rightarrow> string \<Rightarrow> app_state \<Rightarrow> app_state \<times> dispatch_result" where
  "serve_embedding L env req ch resolved_model st =
     (case check_embedding_pre_dispatch L (se_start env) ch st of
        (st, Some resp) \<Rightarrow> (st, Answer resp (\<lambda>st. st))
      | (st, None) \<Rightarrow>
          (case build_embedding_request L env (cl_headers req) ch (cl_body req) resolved_model st of
             (st, Panics) \<Rightarrow> (st, Crash)
           | (st, Refused resp) \<Rightarrow> (st, Answer resp (\<lambda>st. st))
           | (st, Built rq) \<Rightarrow>
               (case se_upstream env rq of
                  None \<Rightarrow>
                    (mark_open (se_after env) (ch_id ch) (record_rate (se_after env) (ch_id ch) EMBEDDINGS_ESTIMATED_TOKENS st),
                     Answer (error_response (lib_print L) 502 ''Upstream connection error'' ''server_error'' ''upstream_connection_error'') (\<lambda>st. st))
                | Some (status, text) \<Rightarrow> handle_embedding_response L env status text ch resolved_model st)))"

definition handle_embeddings :: "libs \<Rightarrow> side_env \<Rightarrow> client_request \<Rightarrow> app_state \<Rightarrow> app_state \<times> dispatch_result" where
  "handle_embeddings L env req st =
     (case validate_embedding_request L (cl_body req) of
        Inl resp \<Rightarrow> (st, Answer resp (\<lambda>st. st))
      | Inr requested_model \<Rightarrow>
          let resolved_model = (case hm_get (pp_model_aliases (as_gateway st)) requested_model of Some m \<Rightarrow> m | None \<Rightarrow> requested_model)
          in case select_embedding_channel L env st resolved_model (request_header (cl_headers req) ''x-account-group'') of
               Inl resp \<Rightarrow> (st, Answer resp (\<lambda>st. st))
             | Inr ch \<Rightarrow>
                 (case serve_embedding L env req ch resolved_model (acquire_active (ch_id ch) st) of
                    (st, res) \<Rightarrow> (release_active (ch_id ch) st, res)))"

section \<open>Images\<close>

definition image_auth :: "provider \<Rightarrow> string \<Rightarrow> headers" where
  "image_auth p api_key = (''content-type'', ''application/json'') #
     (case p of
        Anthropic \<Rightarrow> [(''x-api-key'', api_key)]
      | Gemini \<Rightarrow> [(''x-goog-api-key'', api_key)]
      | _ \<Rightarrow> [(''authorization'', ''Bearer '' @ api_key)])"

text \<open>A value that is not text is forwarded as the empty one.\<close>

definition forward_headers :: "headers \<Rightarrow> headers" where
  "forward_headers hs =
     map (\<lambda>(name, v). (name, case request_header [(name, v)] name of Some s \<Rightarrow> s | None \<Rightarrow> [])) (forwarded_headers hs)"

definition serves_image_model :: "string \<Rightarrow> channel \<Rightarrow> bool" where
  "serves_image_model model ch \<longleftrightarrow>
     hm_contains (ch_model_mapping ch) model \<or> list_ex (\<lambda>(_, v). v = model) (ch_model_mapping ch)
     \<or> starts_with model (ch_name ch)"

definition has_image_mapping :: "channel \<Rightarrow> bool" where
  "has_image_mapping ch \<longleftrightarrow> list_ex (\<lambda>(k, _). str_contains k ''dall-e'' \<or> str_contains k ''image'' \<or> str_contains k ''imagen'')
     (ch_model_mapping ch)"

fun first_with_credential ::
  "(string \<Rightarrow> string \<Rightarrow> string option) \<Rightarrow> uuid list \<Rightarrow> manager \<Rightarrow> manager \<times> (channel \<times> string) option option" where
  "first_with_credential keyring [] m = (m, Some None)"
| "first_with_credential keyring (i # ids) m =
     (case get_credential keyring m i of
        (m, CredPanic) \<Rightarrow> (m, None)
      | (m, Cred (Some api_key)) \<Rightarrow>
          (case manager_get m i of Some ch \<Rightarrow> (m, Some (Some (ch, api_key))) | None \<Rightarrow> first_with_credential keyring ids m)
      | (m, Cred None) \<Rightarrow> first_with_credential keyring ids m)"

definition find_image_channel ::
  "(string \<Rightarrow> string \<Rightarrow> string option) \<Rightarrow> utc \<Rightarrow> string \<Rightarrow> manager \<Rightarrow> manager \<times> (channel \<times> string) option option" where
  "find_image_channel keyring now model m =
     (let usable = filter (\<lambda>ch. ch_enabled ch \<and> is_available ch now) (hm_values (mgr_channels m));
          candidates = map ch_id (filter (serves_image_model model) usable);
          fallback = map ch_id (filter has_image_mapping usable)
      in first_with_credential keyring (candidates @ fallback) m)"

definition handle_image_generation ::
  "libs \<Rightarrow> side_env \<Rightarrow> bool \<Rightarrow> client_request \<Rightarrow> app_state \<Rightarrow> app_state \<times> dispatch_result" where
  "handle_image_generation L env disabled req st =
     (let body = cl_body req; reply = (\<lambda>st resp. (st, Answer resp (\<lambda>st. st)))
      in if \<not> json_is_object body
         then reply st (error_response (lib_print L) 400 ''Request body must be a JSON object'' ''invalid_request_error'' ''invalid_body'')
         else if disabled
         then reply st (error_response (lib_print L) 404 ''Image generation is disabled'' ''invalid_request_error'' ''image_generation_disabled'')
         else let model = (case json_get_str body ''model'' of Some m \<Rightarrow> m | None \<Rightarrow> ''dall-e-3'')
              in case find_image_channel (lib_keyring L) (mo_utc (se_start env)) model (as_manager st) of
                   (m, None) \<Rightarrow> (st\<lparr>as_manager := m\<rparr>, Crash)
                 | (m, Some None) \<Rightarrow> reply (st\<lparr>as_manager := m\<rparr>) (error_response (lib_print L) 503
                     (''No available channel for image model '' @ [CHR 0x27] @ model @ [CHR 0x27]) ''server_error'' ''no_available_channel'')
                 | (m, Some (Some (ch, api_key))) \<Rightarrow>
                     let rq = \<lparr>uq_url = trim_slashes (ch_base_url ch) @ ''/v1/images/generations'',
                               uq_headers = se_json_headers env @ image_auth (ch_provider ch) api_key @ forward_headers (cl_headers req),
                               uq_body = set_model (map_model ch model) body\<rparr>
                     in case se_upstream env rq of
                          None \<Rightarrow> reply (st\<lparr>as_manager := m\<rparr>) (error_response (lib_print L) 502
                            ''Upstream image generation request failed'' ''server_error'' ''upstream_error'')
                        | Some (status, text) \<Rightarrow> reply (st\<lparr>as_manager := m\<rparr>) (json_response status text))"

definition handle_image_edits :: "libs \<Rightarrow> http_response" where
  "handle_image_edits L = error_response (lib_print L) 501
     ''Image edits require multipart/form-data which is not yet supported. Use /v1/images/generations instead.''
     ''invalid_request_error'' ''not_implemented''"


section \<open>What the endpoints do not look at\<close>

text \<open>The virtual keys and the content policy.\<close>

definition with_keys :: "key_store \<Rightarrow> guardrails_config \<Rightarrow> app_state \<Rightarrow> app_state" where
  "with_keys ks g st = st\<lparr>as_keys := ks, as_guardrails := g\<rparr>"

named_theorems blind \<open>operations that neither read nor change the keys and the policy\<close>

lemma blind_fields [blind]:
  "as_manager (with_keys ks g st) = as_manager st" "as_strategy (with_keys ks g st) = as_strategy st"
  "routing_context_of (with_keys ks g st) = routing_context_of st" "as_gateway (with_keys ks g st) = as_gateway st"
  "as_provider_budgets (with_keys ks g st) = as_provider_budgets st" "as_redis (with_keys ks g st) = as_redis st"
  "as_rate_limiter (with_keys ks g st) = as_rate_limiter st"
  "(with_keys ks g st)\<lparr>as_manager := m\<rparr> = with_keys ks g (st\<lparr>as_manager := m\<rparr>)"
  "(with_keys ks g st)\<lparr>as_redis := srv, as_rate_limiter := rl\<rparr> = with_keys ks g (st\<lparr>as_redis := srv, as_rate_limiter := rl\<rparr>)"
  by (simp_all add: with_keys_def routing_context_of_def)

lemma blind_basic [blind]:
  "acquire_active i (with_keys ks g st) = with_keys ks g (acquire_active i st)"
  "release_active i (with_keys ks g st) = with_keys ks g (release_active i st)"
  "record_rate t i n (with_keys ks g st) = with_keys ks g (record_rate t i n st)"
  "mark_open t i (with_keys ks g st) = with_keys ks g (mark_open t i st)"
  by (simp_all add: with_keys_def acquire_active_def release_active_def record_rate_def mark_open_def split: prod.splits)

lemma blind_steps [blind]:
  "select_embedding_channel L env (with_keys ks g st) model grp = select_embedding_channel L env st model grp"
  "check_embedding_pre_dispatch L t ch (with_keys ks g st) = map_prod (with_keys ks g) id (check_embedding_pre_dispatch L t ch st)"
  "build_embedding_request L env hs ch body model (with_keys ks g st) = map_prod (with_keys ks g) id (build_embedding_request L env hs ch body model st)"
  "handle_embedding_response L env status text ch model (with_keys ks g st) = map_prod (with_keys ks g) id (handle_embedding_response L env status text ch model st)"
  by (simp_all add: select_embedding_channel_def check_embedding_pre_dispatch_def build_embedding_request_def handle_embedding_response_def
      blind Let_def split: prod.splits credential_result.splits option.splits)

lemma blind_serve [blind]:
  "serve_embedding L env req ch model (with_keys ks g st) = map_prod (with_keys ks g) id (serve_embedding L env req ch model st)"
  by (auto simp: serve_embedding_def blind split: prod.splits option.splits built.splits)

text \<open>An embeddings request is answered the same whatever the virtual keys and the content policy are, and changes
  neither: a key's allowed models and budget do not apply to it, and it is not charged.\<close>

theorem embeddings_ignore_keys:
  "handle_embeddings L env req (with_keys ks g st) = map_prod (with_keys ks g) id (handle_embeddings L env req st)"
  by (auto simp: handle_embeddings_def blind Let_def split: prod.splits sum.splits)

text \<open>So is an image request; the only thing it changes is the rotation of the channel's keys. No failure opens a
  circuit, no usage is recorded.\<close>

lemma get_credential_channels: "mgr_channels (fst (get_credential keyring m i)) = mgr_channels m"
  by (simp add: get_credential_def Let_def split: option.splits)

lemma first_with_credential_channels: "mgr_channels (fst (first_with_credential keyring ids m)) = mgr_channels m"
proof (induction ids arbitrary: m)
  case (Cons i ids)
  obtain m1 c where g: "get_credential keyring m i = (m1, c)" by fastforce
  have "mgr_channels m1 = mgr_channels m" using get_credential_channels[of keyring m i] g by simp
  with Cons[of m1] g show ?case by (auto split: credential_result.splits option.splits)
qed simp

theorem images_leave_no_trace:
  "\<exists>m. mgr_channels m = mgr_channels (as_manager st)
     \<and> fst (handle_image_generation L env disabled req st) = st\<lparr>as_manager := m\<rparr>
     \<and> (\<forall>ks g. snd (handle_image_generation L env disabled req (with_keys ks g st)) = snd (handle_image_generation L env disabled req st))"
proof -
  let ?model = "case json_get_str (cl_body req) ''model'' of Some m \<Rightarrow> m | None \<Rightarrow> ''dall-e-3''"
  obtain m r where f: "find_image_channel (lib_keyring L) (mo_utc (se_start env)) ?model (as_manager st) = (m, r)" by fastforce
  have m: "mgr_channels m = mgr_channels (as_manager st)"
    using first_with_credential_channels[of "lib_keyring L" _ "as_manager st"] f
    by (auto simp: find_image_channel_def Let_def dest!: arg_cong[where f = fst])
  have snd: "snd (handle_image_generation L env disabled req (with_keys ks g st)) = snd (handle_image_generation L env disabled req st)" for ks g
    by (simp add: handle_image_generation_def blind Let_def split: prod.splits option.splits)
  show ?thesis
  proof (cases "json_is_object (cl_body req) \<and> \<not> disabled")
    case True
    then have "fst (handle_image_generation L env disabled req st) = st\<lparr>as_manager := m\<rparr>"
      using f by (auto simp: handle_image_generation_def Let_def split: option.splits prod.splits)
    with m snd show ?thesis by blast
  next
    case False
    then have "fst (handle_image_generation L env disabled req st) = st\<lparr>as_manager := as_manager st\<rparr>"
      by (auto simp: handle_image_generation_def Let_def)
    with snd show ?thesis by blast
  qed
qed


section \<open>What an embeddings request keeps\<close>

lemma wf_mark_open: "gateway_ok st \<Longrightarrow> gateway_ok (mark_open t i st)"
  by (simp add: mark_open_def wf_manager mgr_step.fail)

lemma wf_credential:
  "gateway_ok st \<Longrightarrow> gateway_ok (st\<lparr>as_manager := fst (get_credential keyring (as_manager st) i)\<rparr>)"
  by (simp add: wf_manager mgr_step.cred)

lemma wf_embedding_steps:
  assumes "gateway_ok st"
  shows "gateway_ok (fst (check_embedding_pre_dispatch L t ch st))"
    "gateway_ok (fst (build_embedding_request L env hs ch body model st))"
    "gateway_ok (fst (handle_embedding_response L env status text ch model st))"
  using assms wf_credential[OF assms, of "lib_keyring L" "ch_id ch"]
  by (auto simp: check_embedding_pre_dispatch_def build_embedding_request_def handle_embedding_response_def Let_def wf wf_mark_open
      split: prod.splits credential_result.splits option.splits)

lemma wf_serve:
  assumes "gateway_ok st"
  shows "gateway_ok (fst (serve_embedding L env req ch model st))"
proof -
  obtain st1 r where c: "check_embedding_pre_dispatch L (se_start env) ch st = (st1, r)" by fastforce
  obtain st2 b where b: "build_embedding_request L env (cl_headers req) ch (cl_body req) model st1 = (st2, b)" by fastforce
  have 1: "gateway_ok st1" using wf_embedding_steps(1)[OF assms, of L "se_start env" ch] c by simp
  have 2: "gateway_ok st2" using wf_embedding_steps(2)[OF 1, of L env "cl_headers req" ch "cl_body req" model] b by simp
  show ?thesis
    using c b 1 2 by (auto simp: serve_embedding_def wf wf_mark_open wf_embedding_steps(3) split: option.splits built.splits)
qed

named_theorems steady \<open>operations that leave the active requests alone\<close>

lemma steady_basic [steady]:
  "as_active (record_rate t i n st) = as_active st" "as_active (mark_open t i st) = as_active st"
  by (simp_all add: record_rate_def mark_open_def split: prod.splits)

lemma steady_steps [steady]:
  "as_active (fst (check_embedding_pre_dispatch L t ch st)) = as_active st"
  "as_active (fst (build_embedding_request L env hs ch body model st)) = as_active st"
  "as_active (fst (handle_embedding_response L env status text ch model st)) = as_active st"
  by (auto simp: check_embedding_pre_dispatch_def build_embedding_request_def handle_embedding_response_def Let_def steady
      split: prod.splits credential_result.splits option.splits)

lemma steady_serve: "as_active (fst (serve_embedding L env req ch model st)) = as_active st"
proof -
  obtain st1 r where c: "check_embedding_pre_dispatch L (se_start env) ch st = (st1, r)" by fastforce
  obtain st2 b where b: "build_embedding_request L env (cl_headers req) ch (cl_body req) model st1 = (st2, b)" by fastforce
  have "as_active st1 = as_active st" "as_active st2 = as_active st1"
    using steady_steps(1)[of L "se_start env" ch st] steady_steps(2)[of L env "cl_headers req" ch "cl_body req" model st1] c b
    by simp_all
  with c b show ?thesis by (auto simp: serve_embedding_def steady split: option.splits built.splits)
qed

text \<open>An embeddings request keeps the gateway state well formed and gives back its active-request slot on every
  path, early returns, errors and panics included.\<close>

theorem embeddings_keep_state:
  assumes "gateway_ok st" "\<forall>i. ar_get (as_active st) i \<noteq> u32_max"
  shows "gateway_ok (fst (handle_embeddings L env req st))
    \<and> (\<forall>i. ar_get (as_active (fst (handle_embeddings L env req st))) i = ar_get (as_active st) i)"
proof -
  have serve: "gateway_ok (release_active i s') \<and> (\<forall>j. ar_get (as_active (release_active i s')) j = ar_get (as_active st) j)"
    if "serve_embedding L env req ch model (acquire_active i st) = (s', res)" for ch model i s' res
  proof -
    have "gateway_ok (acquire_active i st)" using assms(1) by (simp add: wf)
    then have ok: "gateway_ok s'" using wf_serve[of "acquire_active i st" L env req ch model] that by simp
    have "as_active s' = ar_increment (as_active st) i"
      using steady_serve[of L env req ch model "acquire_active i st"] that by (simp add: acquire_active_def)
    moreover have "0 < ar_get (as_active st) i + 1"
      using assms(2)[THEN spec, of i] by (metis add_eq_0_iff2 word_gt_0 add.commute)
    ultimately show ?thesis using ok
      by (simp add: wf release_active_def ar_get_decrement ar_get_increment)
  qed
  show ?thesis
    using assms(1) serve by (auto simp: handle_embeddings_def Let_def split: sum.splits prod.splits)
qed


definition demo_side_env :: side_env where
  "demo_side_env = \<lparr>se_start = demo_moment, se_draw = 0, se_after = demo_moment, se_log = demo_moment, se_json_headers = [],
     se_upstream = (\<lambda>_. Some (429, ''slow down''))\<rparr>"

lemma embeddings_keep_state_witness:
  "gateway_ok (fst (handle_embeddings demo_libs demo_side_env demo_request demo_state))"
  using embeddings_keep_state[OF demo_state_ok, of demo_libs demo_side_env demo_request]
  by (simp add: demo_state_def ar_get_def ar_new_def)

end
