(* ===== verification/Health.thy ===== *)
theory Health
  imports Attempt
begin

text \<open>
  \<open>health/mod.rs\<close> and \<open>health/probe.rs\<close>: the periodic probes of the channels. A tick takes a snapshot of the channels,
  probes the enabled ones concurrently and, as each probe ends, opens the circuit of a healthy channel that did
  not answer or recovers an open one that did. Which network answers come, and when, is given per probe.
\<close>

section \<open>Probes\<close>

text \<open>Any HTTP answer counts for the connectivity probe.\<close>

definition probe_connectivity :: "(string \<Rightarrow> nat option) \<Rightarrow> channel \<Rightarrow> bool" where
  "probe_connectivity get ch \<longleftrightarrow> get (ch_base_url ch) \<noteq> None"

datatype probe_method = ProbeGet | ProbePost

definition probe_request :: "headers \<Rightarrow> channel \<Rightarrow> string option \<Rightarrow> probe_method \<times> string \<times> headers \<times> json option" where
  "probe_request json_headers ch api_key =
     (let base = trim_slashes (ch_base_url ch)
      in if ch_provider ch = Anthropic
         then (ProbePost, base @ ''/v1/messages'',
               [(''content-type'', ''application/json''), (''anthropic-version'', ''2023-06-01'')] @ json_headers
                 @ (case api_key of Some k \<Rightarrow> [(''x-api-key'', k)] | None \<Rightarrow> []),
               Some (JObj [(''model'', JStr ''claude-3-5-haiku-20241022''), (''max_tokens'', JInt 1),
                 (''messages'', JArr [JObj [(''role'', JStr ''user''), (''content'', JStr ''hi'')]])]))
         else if ch_provider ch = Gemini
         then (ProbeGet, base @ ''/v1/models?key='' @ (case api_key of Some k \<Rightarrow> k | None \<Rightarrow> []), [], None)
         else (ProbeGet, base @ ''/v1/models'',
               (case api_key of Some k \<Rightarrow> [(''authorization'', ''Bearer '' @ k)] | None \<Rightarrow> []), None))"

definition probe_channel ::
  "headers \<Rightarrow> (probe_method \<times> string \<times> headers \<times> json option \<Rightarrow> nat option) \<Rightarrow> channel \<Rightarrow> string option \<Rightarrow> bool" where
  "probe_channel json_headers send ch api_key \<longleftrightarrow>
     (case send (probe_request json_headers ch api_key) of
        Some code \<Rightarrow> 200 \<le> code \<and> code < 300 \<or> code = 429
      | None \<Rightarrow> False)"

section \<open>The thorough check\<close>

text \<open>\<open>None\<close>: the credential lookup panics. \<open>ch\<close> is the channel of the snapshot.\<close>

definition check_channel_health ::
  "(string \<Rightarrow> string \<Rightarrow> string option) \<Rightarrow> headers \<Rightarrow> (probe_method \<times> string \<times> headers \<times> json option \<Rightarrow> nat option)
     \<Rightarrow> utc \<Rightarrow> u64 \<Rightarrow> channel \<Rightarrow> manager \<Rightarrow> manager option" where
  "check_channel_health keyring json_headers send now latency ch m =
     (case get_credential keyring m (ch_id ch) of
        (m, CredPanic) \<Rightarrow> None
      | (m, Cred api_key) \<Rightarrow> Some
          (if probe_channel json_headers send ch api_key
           then let m = manager_record_latency m now (ch_id ch) latency
                in if ch_status ch = CircuitOpen then force_recover m now (ch_id ch) else m
           else if ch_status ch = Healthy then manager_mark_circuit_open m now (ch_id ch) else m))"

section \<open>The periodic probe\<close>

record probe_event =
  pe_channel :: channel
  pe_healthy :: bool
  pe_now :: utc

definition probe_step :: "probe_event \<Rightarrow> manager \<Rightarrow> manager" where
  "probe_step p m =
     (let ch = pe_channel p
      in if pe_healthy p
         then if ch_status ch = CircuitOpen then force_recover m (pe_now p) (ch_id ch) else m
         else if ch_status ch = Healthy then manager_mark_circuit_open m (pe_now p) (ch_id ch) else m)"

text \<open>The probes of a tick, in the order in which they end.\<close>

definition run_probes :: "probe_event list \<Rightarrow> manager \<Rightarrow> manager" where
  "run_probes ps m = fold probe_step ps m"

definition tick_events :: "manager \<Rightarrow> utc \<Rightarrow> (string \<Rightarrow> nat option) \<Rightarrow> (uuid \<Rightarrow> utc) \<Rightarrow> probe_event list" where
  "tick_events m now get ended =
     map (\<lambda>ch. \<lparr>pe_channel = ch, pe_healthy = probe_connectivity get ch, pe_now = ended (ch_id ch)\<rparr>)
       (filter ch_enabled (manager_list m now))"

section \<open>Probes of different channels do not interfere\<close>

text \<open>What one probe does to its channel depends on two settings of the manager only.\<close>

definition probe_change :: "bool \<Rightarrow> u64 \<Rightarrow> probe_event \<Rightarrow> channel \<Rightarrow> channel" where
  "probe_change cooling_off minutes p c =
     (if pe_healthy p
      then if ch_status (pe_channel p) = CircuitOpen
           then c\<lparr>ch_status := Healthy, ch_circuit_open_until := None, ch_consecutive_failures := 0, ch_updated_at := pe_now p\<rparr> else c
      else if ch_status (pe_channel p) = Healthy
      then let c = c\<lparr>ch_consecutive_failures := ch_consecutive_failures c + 1\<rparr>
           in if cooling_off then c
              else channel_mark_circuit_open c (pe_now p)
                (backoff_minutes (case ch_cooldown_minutes c of Some b \<Rightarrow> b | None \<Rightarrow> minutes) (ch_consecutive_failures c))
      else c)"

lemma probe_step_get:
  "manager_get (probe_step p m) i =
    (if i = ch_id (pe_channel p)
     then map_option (probe_change (mgr_disable_cooling m) (mgr_circuit_breaker_minutes m) p) (manager_get m i)
     else manager_get m i)"
  by (cases "manager_get m (ch_id (pe_channel p))")
    (auto simp: probe_step_def probe_change_def force_recover_def manager_mark_circuit_open_def mgr.lookup_modify Let_def)

lemma probe_step_settings:
  "mgr_disable_cooling (probe_step p m) = mgr_disable_cooling m"
  "mgr_circuit_breaker_minutes (probe_step p m) = mgr_circuit_breaker_minutes m"
  by (simp_all add: probe_step_def force_recover_def manager_mark_circuit_open_def with_channel_def Let_def)

lemma probe_step_step: "probe_step p m = m \<or> mgr_step m (probe_step p m)"
  by (simp add: probe_step_def Let_def mgr_step.force mgr_step.fail)

text \<open>The probes of a tick may end in any order: every channel ends up as if its own probe had been the only one,
  and the manager stays well formed.\<close>

theorem probes_are_independent:
  assumes "distinct (map (\<lambda>p. ch_id (pe_channel p)) ps)" "mgr_inv m"
  shows "manager_get (run_probes ps m) i =
      (case find (\<lambda>p. ch_id (pe_channel p) = i) ps of None \<Rightarrow> manager_get m i | Some p \<Rightarrow> manager_get (probe_step p m) i)
    \<and> mgr_inv (run_probes ps m)"
  using assms
proof (induction ps arbitrary: m)
  case (Cons p ps)
  have inv: "mgr_inv (probe_step p m)" using probe_step_step[of p m] mgr_step_inv Cons.prems(2) by metis
  from Cons have ih: "manager_get (run_probes ps (probe_step p m)) i =
      (case find (\<lambda>p. ch_id (pe_channel p) = i) ps of None \<Rightarrow> manager_get (probe_step p m) i
       | Some q \<Rightarrow> manager_get (probe_step q (probe_step p m)) i)" "mgr_inv (run_probes ps (probe_step p m))"
    using inv by simp_all
  have "manager_get (probe_step q (probe_step p m)) i = manager_get (probe_step q m) i" if "ch_id (pe_channel p) \<noteq> i" for q
    using that by (auto simp: probe_step_get probe_step_settings)
  moreover have "find (\<lambda>p. ch_id (pe_channel p) = i) ps = None" if "ch_id (pe_channel p) = i"
    using that Cons.prems(1) by (force simp: find_None_iff image_iff)
  ultimately show ?case
    using ih by (cases "ch_id (pe_channel p) = i") (auto simp: run_probes_def probe_step_get split: option.splits)
qed (simp add: run_probes_def)

definition demo_down :: "probe_event list" where
  "demo_down = [\<lparr>pe_channel = example_channel 2, pe_healthy = True, pe_now = 8\<rparr>, \<lparr>pe_channel = example_channel 1, pe_healthy = False, pe_now = 9\<rparr>]"

definition demo_pool :: manager where
  "demo_pool = manager_new [example_channel 1, example_channel 2] 5 False"

lemma demo_pool_inv: "mgr_inv demo_pool"
  unfolding demo_pool_def by (rule mgr_reachable_inv, rule mgr_reachable.start) (simp add: example_channel_def)

lemma probes_are_independent_witness:
  "map_option ch_status (manager_get (run_probes demo_down demo_pool) 1) = Some CircuitOpen \<and> mgr_inv (run_probes demo_down demo_pool)"
proof -
  have "distinct (map (\<lambda>p. ch_id (pe_channel p)) demo_down)" by (simp add: demo_down_def example_channel_def)
  note p = probes_are_independent[OF this demo_pool_inv, of 1]
  have "manager_get demo_pool 1 = Some (example_channel 1)"
    by (simp add: demo_pool_def manager_new_def manager_get_def example_channel_def)
  with p show ?thesis
    by (simp add: demo_down_def probe_step_get probe_change_def Let_def del: channel.select_convs)
      (simp add: example_channel_def demo_pool_def manager_new_def)
qed

section \<open>Expired circuits\<close>

text \<open>The snapshot shows a channel whose circuit has expired as half open, so a successful probe does not recover
  it: it stays open in the manager, although its host answers.\<close>

theorem expired_circuit_not_recovered:
  assumes "manager_get m i = Some c" "ch_status c = CircuitOpen" "ch_circuit_open_until c = Some u" "u \<le> now"
    and "hm_ok (mgr_channels m)" "mgr_inv m" "p \<in> set (tick_events m now get ended)" "ch_id (pe_channel p) = i"
  shows "manager_get (probe_step p m) i = Some c"
proof -
  obtain d where d: "d \<in> set (hm_values (mgr_channels m))" "pe_channel p = recover_if_expired d now"
    using assms(7) by (auto simp: tick_events_def manager_list_def)
  then obtain j where "manager_get m j = Some d" using assms(5) by (auto simp: hm_values_get manager_get_def)
  moreover from this have "ch_id d = j" using assms(6) by (simp add: mgr_inv_def stored_ok_def)
  moreover have "ch_id d = i" using assms(8) d(2) by simp
  ultimately have "d = c" using assms(1) by simp
  then have "ch_status (pe_channel p) = HalfOpen" using d(2) assms(2-4) by (simp add: recover_if_expired_def)
  then show ?thesis using assms(1) by (simp add: probe_step_def Let_def)
qed


definition demo_expired :: channel where
  "demo_expired = (example_channel 1)\<lparr>ch_status := CircuitOpen, ch_circuit_open_until := Some 5\<rparr>"

lemma expired_circuit_not_recovered_witness:
  "\<exists>p \<in> set (tick_events (manager_new [demo_expired] 5 False) 6 (\<lambda>_. Some 200) (\<lambda>_. 7)).
     pe_healthy p \<and> manager_get (probe_step p (manager_new [demo_expired] 5 False)) 1 = Some demo_expired"
proof -
  let ?m = "manager_new [demo_expired] 5 False"
  have f: "ch_id demo_expired = 1" "ch_status demo_expired = CircuitOpen" "ch_circuit_open_until demo_expired = Some 5"
      "ch_enabled demo_expired"
    by (simp_all add: demo_expired_def example_channel_def)
  have get: "manager_get ?m i = (if i = 1 then Some demo_expired else None)" for i
    by (simp add: manager_new_def manager_get_def f)
  have inv: "mgr_inv ?m" unfolding mgr_inv_def get by (simp add: stored_ok_def circuit_ok_def f)
  have ok: "hm_ok (mgr_channels ?m)" by (simp add: manager_new_def hm_ok_def)
  let ?p = "\<lparr>pe_channel = recover_if_expired demo_expired 6, pe_healthy = True, pe_now = 7\<rparr>"
  have p: "?p \<in> set (tick_events ?m 6 (\<lambda>_. Some 200) (\<lambda>_. 7))"
    by (simp add: tick_events_def manager_list_def manager_new_def hm_values_def probe_connectivity_def f)
  have "manager_get (probe_step ?p ?m) 1 = Some demo_expired"
    using expired_circuit_not_recovered[OF _ f(2,3) _ ok inv p, of 1] get f by simp
  with p show ?thesis by force
qed

end
