(* ===== verification/Sanitizer.thy ===== *)
theory Sanitizer
  imports Sse_Stream Utf8
begin

text \<open>
  \<open>middleware/sanitizer.rs\<close>: the redaction of secrets in request bodies and, optionally, in streamed answers. The regex
  crate is a parameter: a pattern is its source text, \<open>regex_lib\<close> says which sources compile, how many matches a
  text has and what replacing them gives. A body arrives as the list of what polling it returns.
\<close>

record regex_lib =
  rx_valid :: "string \<Rightarrow> bool"
  rx_count :: "string \<Rightarrow> string \<Rightarrow> nat"
  rx_replace :: "string \<Rightarrow> string \<Rightarrow> string \<Rightarrow> string"

record compiled_pattern =
  cp_regex :: string
  cp_replacement :: string
  cp_name :: string

record custom_pattern =
  cu_name :: string
  cu_pattern :: string
  cu_replacement :: string

record sanitizer_config =
  sz_enabled :: bool
  sz_redact_secrets :: bool
  sz_scan_response :: bool
  sz_custom_patterns :: "custom_pattern list"

definition BODY_SCAN_LIMIT :: nat where "BODY_SCAN_LIMIT = 10 * 1024 * 1024"
definition STREAM_OVERLAP :: nat where "STREAM_OVERLAP = 256"

section \<open>Patterns\<close>

text \<open>The quotes and the backslash of the sources.\<close>

abbreviation dq :: string where "dq \<equiv> [CHR 0x22]"
abbreviation sq :: string where "sq \<equiv> [CHR 0x27]"
abbreviation bs :: string where "bs \<equiv> [CHR 0x5C]"

definition key_kinds :: string where
  "key_kinds = ''(?:RSA |EC |DSA |OPENSSH |PGP |)PRIVATE KEY-----''"

definition builtin_patterns :: "compiled_pattern list" where
  "builtin_patterns = map (\<lambda>(r, t, n). \<lparr>cp_regex = r, cp_replacement = t, cp_name = n\<rparr>)
     [(''AKIA[0-9A-Z]{16}'', ''[REDACTED:AWS_KEY]'', ''aws_access_key''),
      (''(?i)aws_secret_access_key['' @ dq @ sq @ bs @ ''s:=]+([A-Za-z0-9/+=]{40})'', ''[REDACTED:AWS_SECRET]'', ''aws_secret_key''),
      (''sk_live_[0-9a-zA-Z]{24,}'', ''[REDACTED:STRIPE_KEY]'', ''stripe_live_key''),
      (''rk_live_[0-9a-zA-Z]{24,}'', ''[REDACTED:STRIPE_KEY]'', ''stripe_restricted_key''),
      (''-----BEGIN '' @ key_kinds @ ''['' @ bs @ ''s'' @ bs @ ''S]*?-----END '' @ key_kinds, ''[REDACTED:PRIVATE_KEY]'', ''private_key_block''),
      (''-----BEGIN '' @ key_kinds, ''[REDACTED:PRIVATE_KEY]'', ''private_key_header''),
      (''(?i)(postgresql|postgres|mysql|mongodb|redis)://[^:'' @ bs @ ''s]+:([^@'' @ bs @ ''s]+)@'',
       ''${1}://[REDACTED_USER]:[REDACTED_PASSWORD]@'', ''db_connection_string''),
      (''ghp_[A-Za-z0-9]{36}'', ''[REDACTED:GITHUB_TOKEN]'', ''github_pat''),
      (''xoxb-[0-9]{10,13}-[0-9]{10,13}-[A-Za-z0-9]{24}'', ''[REDACTED:SLACK_TOKEN]'', ''slack_bot_token''),
      (''(?i)(api[_-]?key|secret[_-]?key|access[_-]?token|private[_-]?key|password|passwd|pwd)['' @ dq @ sq @ bs @ ''s]*[:=]['' @ dq @ sq @ bs
         @ ''s]*[A-Za-z0-9+/=_-]{20,}'', ''[REDACTED:SECRET]'', ''generic_api_key'')]"

definition compile_patterns :: "regex_lib \<Rightarrow> sanitizer_config \<Rightarrow> compiled_pattern list" where
  "compile_patterns R config =
     builtin_patterns @ map (\<lambda>c. \<lparr>cp_regex = cu_pattern c, cp_replacement = cu_replacement c, cp_name = ''custom''\<rparr>)
       (filter (\<lambda>c. rx_valid R (cu_pattern c)) (sz_custom_patterns config))"

definition redact_one :: "regex_lib \<Rightarrow> compiled_pattern \<Rightarrow> string \<times> nat \<Rightarrow> string \<times> nat" where
  "redact_one R p = (\<lambda>(text, total).
     let count = rx_count R (cp_regex p) text
     in if 0 < count then (rx_replace R (cp_regex p) (cp_replacement p) text, total + count) else (text, total))"

definition scan_and_redact :: "regex_lib \<Rightarrow> string \<Rightarrow> compiled_pattern list \<Rightarrow> string \<times> nat" where
  "scan_and_redact R text ps = fold (redact_one R) ps (text, 0)"

section \<open>Streams\<close>

datatype poll_event = Chunk string | Failed | Pending

definition flush_chunk :: "regex_lib \<Rightarrow> compiled_pattern list \<Rightarrow> string \<Rightarrow> string" where
  "flush_chunk R ps to_flush = fst (scan_and_redact R (from_utf8_lossy to_flush) ps)"

text \<open>The items the wrapped stream yields, from a buffer and what the inner stream returns. After an error the body is
  not polled any more.\<close>

fun sanitize_run :: "regex_lib \<Rightarrow> compiled_pattern list \<Rightarrow> string \<Rightarrow> poll_event list \<Rightarrow> stream_item list" where
  "sanitize_run R ps buffer [] = (if buffer = [] then [] else [Data (flush_chunk R ps buffer)])"
| "sanitize_run R ps buffer (Chunk c # es) =
     (let buffer = buffer @ c
      in if STREAM_OVERLAP * 2 < length buffer
         then let flush_len = length buffer - STREAM_OVERLAP
              in Data (flush_chunk R ps (take flush_len buffer)) # sanitize_run R ps (drop flush_len buffer) es
         else sanitize_run R ps buffer es)"
| "sanitize_run R ps buffer (Failed # es) = [Broken]"
| "sanitize_run R ps buffer (Pending # es) =
     (if STREAM_OVERLAP < length buffer
      then let flush_len = length buffer - STREAM_OVERLAP
           in Data (flush_chunk R ps (take flush_len buffer)) # sanitize_run R ps (drop flush_len buffer) es
      else sanitize_run R ps buffer es)"

definition sanitize_sse_response :: "regex_lib \<Rightarrow> compiled_pattern list \<Rightarrow> http_response \<Rightarrow> poll_event list \<Rightarrow> http_response" where
  "sanitize_sse_response R ps resp polled =
     (case map_of (rs_headers resp) ''content-type'' of
        Some ct \<Rightarrow> if str_contains ct ''text/event-stream'' then resp\<lparr>rs_body := Streamed (sanitize_run R ps [] polled)\<rparr> else resp
      | None \<Rightarrow> resp)"

text \<open>The middleware: \<open>body\<close> is the buffered body, \<open>None\<close> if it could not be read within the limit; \<open>handler\<close> is the
  rest of the stack, which answers and says how its body will be polled.\<close>

definition sanitizer_middleware ::
  "regex_lib \<Rightarrow> sanitizer_config \<Rightarrow> string \<Rightarrow> string option \<Rightarrow> (string \<Rightarrow> http_response \<times> poll_event list) \<Rightarrow> http_response" where
  "sanitizer_middleware R config raw body handler =
     (if \<not> sz_enabled config \<or> \<not> sz_redact_secrets config then fst (handler raw)
      else let ps = compile_patterns R config
           in case body of
                None \<Rightarrow> fst (handler [])
              | Some bytes \<Rightarrow>
                  let (resp, polled) = handler (fst (scan_and_redact R (from_utf8_lossy bytes) ps))
                  in if sz_scan_response config then sanitize_sse_response R ps resp polled else resp)"

section \<open>What the stream scans\<close>

text \<open>The pieces of the inner stream that are scanned, one after the other.\<close>

fun scanned_pieces :: "string \<Rightarrow> poll_event list \<Rightarrow> string list" where
  "scanned_pieces buffer [] = (if buffer = [] then [] else [buffer])"
| "scanned_pieces buffer (Chunk c # es) =
     (if 512 < length (buffer @ c) then take (length (buffer @ c) - 256) (buffer @ c) # scanned_pieces (drop (length (buffer @ c) - 256) (buffer @ c)) es
      else scanned_pieces (buffer @ c) es)"
| "scanned_pieces buffer (Failed # es) = []"
| "scanned_pieces buffer (Pending # es) =
     (if 256 < length buffer then take (length buffer - 256) buffer # scanned_pieces (drop (length buffer - 256) buffer) es
      else scanned_pieces buffer es)"

fun received :: "poll_event list \<Rightarrow> string" where
  "received [] = []"
| "received (Chunk c # es) = c @ received es"
| "received (Failed # es) = []"
| "received (Pending # es) = received es"

lemma sanitize_run_pieces:
  "Failed \<notin> set es \<Longrightarrow> sanitize_run R ps b es = map (\<lambda>p. Data (flush_chunk R ps p)) (scanned_pieces b es)
    \<and> concat (scanned_pieces b es) = b @ received es"
proof (induction b es rule: scanned_pieces.induct)
  case (2 buffer c es)
  define b where "b = buffer @ c"
  have f: "Failed \<notin> set es" using 2(3) by simp
  show ?case
  proof (cases "512 < length b")
    case True
    let ?n = "length b - 256"
    have r: "sanitize_run R ps buffer (Chunk c # es) = Data (flush_chunk R ps (take ?n b)) # sanitize_run R ps (drop ?n b) es"
      unfolding sanitize_run.simps b_def[symmetric] Let_def STREAM_OVERLAP_def using True by simp
    have s: "scanned_pieces buffer (Chunk c # es) = take ?n b # scanned_pieces (drop ?n b) es"
      unfolding scanned_pieces.simps b_def[symmetric] using True by simp
    have ih: "sanitize_run R ps (drop ?n b) es = map (\<lambda>p. Data (flush_chunk R ps p)) (scanned_pieces (drop ?n b) es)"
        "concat (scanned_pieces (drop ?n b) es) = drop ?n b @ received es"
      using 2(1)[folded b_def, OF True f] by blast+
    have "take ?n b @ drop ?n b @ received es = buffer @ c @ received es"
      by (metis append_take_drop_id append_assoc b_def)
    then show ?thesis unfolding r s list.map concat.simps ih received.simps by blast
  next
    case False
    with 2(2)[folded b_def, OF False f] show ?thesis
      unfolding sanitize_run.simps scanned_pieces.simps b_def[symmetric] Let_def STREAM_OVERLAP_def by (simp add: b_def)
  qed
next
  case (4 buffer es)
  then show ?case by (auto simp: STREAM_OVERLAP_def Let_def)
qed auto

text \<open>Without an error nothing is lost or reordered: the stream cuts what it receives into consecutive pieces and
  yields each piece redacted on its own.\<close>

theorem sanitizer_scans_everything:
  assumes "Failed \<notin> set es"
  shows "\<exists>pieces. concat pieces = received es \<and> sanitize_run R ps [] es = map (\<lambda>p. Data (flush_chunk R ps p)) pieces"
  using sanitize_run_pieces[OF assms, of R ps "[]"] by auto

text \<open>The cut can go through a secret. If neither half alone changes under redaction, an answer of one chunk reaches
  the client unredacted, whatever redacting it as a whole would have removed.\<close>

theorem straddling_secret_leaks:
  assumes "512 < length c" "p = take (length c - 256) c" "q = drop (length c - 256) c"
    and "flush_chunk R ps p = p" "flush_chunk R ps q = q"
  shows "sanitize_run R ps [] [Chunk c] = [Data p, Data q] \<and> p @ q = c"
proof -
  have "q \<noteq> []" using assms(1,3) by simp
  then show ?thesis using assms by (simp add: STREAM_OVERLAP_def Let_def)
qed


section \<open>Text\<close>

definition ascii :: "string \<Rightarrow> bool" where
  "ascii s \<longleftrightarrow> list_all (\<lambda>c. (of_char c :: nat) < 128) s"

lemma chunks_ascii: "ascii s \<Longrightarrow> utf8_chunks (s @ t) = map (\<lambda>c. (True, [c])) s @ utf8_chunks t"
  by (induction s) (auto simp: ascii_def utf8_head_def Let_def)

lemma lossy_ascii: "ascii s \<Longrightarrow> from_utf8_lossy (s @ t) = s @ from_utf8_lossy t"
proof -
  assume "ascii s"
  then have "from_utf8_lossy (s @ t) = concat (map (\<lambda>c. [c]) s) @ from_utf8_lossy t"
    by (simp add: from_utf8_lossy_def chunks_ascii comp_def)
  then show ?thesis by (simp add: concat_map_singleton)
qed

lemma lossy_Nil [simp]: "from_utf8_lossy [] = []"
  by (simp add: from_utf8_lossy_def)

text \<open>A literal pattern and an answer that has it across the cut.\<close>

definition literal_lib :: regex_lib where
  "literal_lib = \<lparr>rx_valid = (\<lambda>_. True), rx_count = (\<lambda>r t. if str_contains t r then 1 else 0), rx_replace = (\<lambda>r s t. s)\<rparr>"

definition literal_pattern :: compiled_pattern where
  "literal_pattern = \<lparr>cp_regex = ''SECRET'', cp_replacement = ''[REDACTED]'', cp_name = ''custom''\<rparr>"

definition filler :: "nat \<Rightarrow> string" where
  "filler n = replicate n CHR ''a''"

lemma filler_ascii: "ascii (filler n)" "length (filler n) = n" "set (filler n) \<subseteq> {CHR ''a''}"
  by (auto simp: ascii_def filler_def list_all_iff)

lemma not_contains: "c \<in> set p \<Longrightarrow> c \<notin> set s \<Longrightarrow> \<not> str_contains s p"
  by (auto simp: str_contains_iff)

lemma straddling_secret_leaks_witness:
  "sanitize_run literal_lib [literal_pattern] [] [Chunk (filler 300 @ ''SECRET'' @ filler 253)] =
     [Data (filler 300 @ ''SEC''), Data (''RET'' @ filler 253)]
   \<and> flush_chunk literal_lib [literal_pattern] (filler 300 @ ''SECRET'' @ filler 253) = ''[REDACTED]''"
proof -
  let ?c = "filler 300 @ ''SECRET'' @ filler 253"
  have cut: "take (length ?c - 256) ?c = filler 300 @ ''SEC''" "drop (length ?c - 256) ?c = ''RET'' @ filler 253" "512 < length ?c"
    by (simp_all add: filler_ascii(2))
  have lossy: "from_utf8_lossy (filler 300 @ ''SEC'') = filler 300 @ ''SEC''" "from_utf8_lossy (''RET'' @ filler 253) = ''RET'' @ filler 253"
      "from_utf8_lossy ?c = ?c"
    using lossy_ascii[of "filler 300 @ ''SEC''" "[]"] lossy_ascii[of "''RET'' @ filler 253" "[]"] lossy_ascii[of ?c "[]"] filler_ascii(1)
    by (simp_all add: ascii_def)
  have "CHR ''T'' \<notin> set (filler 300 @ ''SEC'')" using filler_ascii(3)[of 300] by auto
  then have p: "\<not> str_contains (filler 300 @ ''SEC'') ''SECRET''" by (rule not_contains[rotated]) simp
  have "CHR ''S'' \<notin> set (''RET'' @ filler 253)" using filler_ascii(3)[of 253] by auto
  then have q: "\<not> str_contains (''RET'' @ filler 253) ''SECRET''" by (rule not_contains[rotated]) simp
  have keep: "flush_chunk literal_lib [literal_pattern] (filler 300 @ ''SEC'') = filler 300 @ ''SEC''"
      "flush_chunk literal_lib [literal_pattern] (''RET'' @ filler 253) = ''RET'' @ filler 253"
    unfolding flush_chunk_def lossy using p q
    by (simp_all add: scan_and_redact_def redact_one_def literal_lib_def literal_pattern_def del: str_contains.simps)
  have "str_contains ?c ''SECRET''" unfolding str_contains_iff by blast
  then have "flush_chunk literal_lib [literal_pattern] ?c = ''[REDACTED]''"
    unfolding flush_chunk_def lossy
    by (simp add: scan_and_redact_def redact_one_def literal_lib_def literal_pattern_def del: str_contains.simps)
  then show ?thesis using straddling_secret_leaks[OF cut(3) cut(1)[symmetric] cut(2)[symmetric] keep] by simp
qed

text \<open>Even without any pattern the stream is not transparent: a character that the cut divides is replaced by
  replacement characters, although the text is valid.\<close>

theorem sanitizer_breaks_characters:
  "sanitize_run R [] [] [Chunk (filler 300 @ [CHR 0xE4, CHR 0xBD, CHR 0xA0] @ filler 254)] =
     [Data (filler 300 @ REPLACEMENT), Data (REPLACEMENT @ REPLACEMENT @ filler 254)]
   \<and> utf8_valid (filler 300 @ [CHR 0xE4, CHR 0xBD, CHR 0xA0] @ filler 254)"
proof -
  let ?c = "filler 300 @ [CHR 0xE4, CHR 0xBD, CHR 0xA0] @ filler 254"
  have cut: "take (length ?c - 256) ?c = filler 300 @ [CHR 0xE4]" "drop (length ?c - 256) ?c = [CHR 0xBD, CHR 0xA0] @ filler 254"
    by (simp_all add: filler_ascii(2))
  have tail: "utf8_chunks (filler 254) = map (\<lambda>c. (True, [c])) (filler 254)"
    using chunks_ascii[OF filler_ascii(1), of 254 "[]"] by simp
  have "from_utf8_lossy (filler 300 @ [CHR 0xE4]) = filler 300 @ REPLACEMENT"
    unfolding lossy_ascii[OF filler_ascii(1)] by (simp add: from_utf8_lossy_def utf8_head_def Let_def)
  moreover have "from_utf8_lossy ([CHR 0xBD, CHR 0xA0] @ filler 254) = REPLACEMENT @ REPLACEMENT @ filler 254"
    by (simp add: from_utf8_lossy_def utf8_head_def Let_def tail comp_def concat_map_singleton)
  moreover have "utf8_valid ?c"
    unfolding utf8_valid_def chunks_ascii[OF filler_ascii(1)]
    by (simp add: utf8_head_def Let_def second_ok_def continuation_def tail list_all_iff) auto
  moreover have "sanitize_run R [] [] [Chunk ?c] = [Data (flush_chunk R [] (take (length ?c - 256) ?c)), Data (flush_chunk R [] (drop (length ?c - 256) ?c))]"
    by (simp add: STREAM_OVERLAP_def Let_def filler_ascii(2))
  ultimately show ?thesis unfolding cut by (simp add: flush_chunk_def scan_and_redact_def)
qed

end
