(* ===== verification/Notification.thy ===== *)
theory Notification
  imports Model_Registry Gateway_State
begin

text \<open>
  \<open>notification/\<close> and the notification endpoints of \<open>admin/features.rs\<close>: budget alerts that fire once per crossing,
  the check of webhook addresses, and what is sent where. Error texts are constructors. The resolver, the URL and address parsers, the signature,
  the serializer and the mail transport are parameters.
\<close>

section \<open>Events and configuration\<close>

datatype notification_event =
    BudgetThreshold string u8 string
  | BudgetExhausted string string
  | ChannelDisabled string string
  | ChannelRecovered string

record notification_config =
  nc_webhook_url :: "string option"
  nc_webhook_secret :: "string option"
  nc_bark_url :: "string option"
  nc_budget_threshold_pct :: u8
  nc_smtp_enabled :: bool
  nc_smtp_host :: "string option"
  nc_smtp_port :: "16 word option"
  nc_smtp_username :: "string option"
  nc_smtp_password :: "string option"
  nc_smtp_from :: "string option"
  nc_smtp_admin_email :: "string option"
  nc_smtp_use_tls :: bool

definition default_notification_config :: notification_config where
  "default_notification_config =
     \<lparr>nc_webhook_url = None, nc_webhook_secret = None, nc_bark_url = None, nc_budget_threshold_pct = 80,
      nc_smtp_enabled = False, nc_smtp_host = None, nc_smtp_port = None, nc_smtp_username = None, nc_smtp_password = None,
      nc_smtp_from = None, nc_smtp_admin_email = None, nc_smtp_use_tls = True\<rparr>"

text \<open>The set of keys already notified is kept as a list without duplicates.\<close>

record notification_service =
  ns_config :: notification_config
  ns_notified :: "string list"

definition notification_new :: "notification_config \<Rightarrow> notification_service" where
  "notification_new config = \<lparr>ns_config = config, ns_notified = []\<rparr>"

definition event_title :: "notification_event \<Rightarrow> string" where
  "event_title e = (case e of
     BudgetThreshold key pct _ \<Rightarrow> key @ '' budget at '' @ nat_digits (unat pct) @ ''%''
   | BudgetExhausted key _ \<Rightarrow> key @ '' budget exhausted''
   | ChannelDisabled ch _ \<Rightarrow> ''Channel '' @ ch @ '' disabled''
   | ChannelRecovered ch \<Rightarrow> ''Channel '' @ ch @ '' recovered'')"

definition event_json :: "notification_event \<Rightarrow> json" where
  "event_json e = JObj (case e of
     BudgetThreshold key pct period \<Rightarrow> [(''type'', JStr ''budget_threshold''), (''key_name'', JStr key),
       (''threshold_pct'', JInt (uint pct)), (''period'', JStr period)]
   | BudgetExhausted key period \<Rightarrow> [(''type'', JStr ''budget_exhausted''), (''key_name'', JStr key), (''period'', JStr period)]
   | ChannelDisabled ch reason \<Rightarrow> [(''type'', JStr ''channel_disabled''), (''channel_name'', JStr ch), (''reason'', JStr reason)]
   | ChannelRecovered ch \<Rightarrow> [(''type'', JStr ''channel_recovered''), (''channel_name'', JStr ch)])"

section \<open>Budget alerts\<close>

definition check_budget_threshold :: "string \<Rightarrow> u8 \<Rightarrow> notification_service \<Rightarrow> notification_service \<times> bool" where
  "check_budget_threshold key pct s =
     (if pct < nc_budget_threshold_pct (ns_config s)
      then (s\<lparr>ns_notified := filter (\<lambda>k. k \<noteq> key) (ns_notified s)\<rparr>, False)
      else (s\<lparr>ns_notified := List.insert key (ns_notified s)\<rparr>, key \<notin> set (ns_notified s)))"

definition update_config :: "notification_config \<Rightarrow> notification_service \<Rightarrow> notification_service" where
  "update_config config s = s\<lparr>ns_config := config\<rparr>"

section \<open>Addresses\<close>

definition is_v4_private :: "u8 \<Rightarrow> u8 \<Rightarrow> bool" where
  "is_v4_private a b \<longleftrightarrow> a = 10 \<or> a = 172 \<and> 16 \<le> b \<and> b \<le> 31 \<or> a = 192 \<and> b = 168"

definition v6_multicast :: "128 word \<Rightarrow> bool" where
  "v6_multicast w \<longleftrightarrow> drop_bit 120 w = 0xff"

datatype address_error = PrivateAddr | LinkLocalAddr | UnspecifiedAddr | BroadcastAddr | OtherLoopback | MulticastAddr

definition check_ip :: "ip_addr \<Rightarrow> address_error option" where
  "check_ip ip = (case ip of
     V4 a b c d \<Rightarrow>
       if is_v4_private a b then Some PrivateAddr
       else if a = 169 \<and> b = 254 then Some LinkLocalAddr
       else if (a, b, c, d) = (0, 0, 0, 0) then Some UnspecifiedAddr
       else if (a, b, c, d) = (255, 255, 255, 255) then Some BroadcastAddr
       else if a = 127 \<and> (a, b, c, d) \<noteq> (127, 0, 0, 1) then Some OtherLoopback
       else None
   | V6 w \<Rightarrow>
       if w = 1 \<and> w \<noteq> 1 then Some OtherLoopback
       else if w = 0 then Some UnspecifiedAddr
       else if v6_multicast w then Some MulticastAddr
       else None)"

definition check_smtp_ip :: "ip_addr \<Rightarrow> address_error option" where
  "check_smtp_ip ip = (case ip of
     V4 a b c d \<Rightarrow>
       if a = 169 \<and> b = 254 then Some LinkLocalAddr
       else if (a, b, c, d) = (0, 0, 0, 0) then Some UnspecifiedAddr
       else if (a, b, c, d) = (255, 255, 255, 255) then Some BroadcastAddr
       else if a = 127 \<and> (a, b, c, d) \<noteq> (127, 0, 0, 1) then Some OtherLoopback
       else None
   | V6 w \<Rightarrow>
       if w = 1 \<and> w \<noteq> 1 then Some OtherLoopback
       else if w = 0 then Some UnspecifiedAddr
       else if v6_multicast w then Some MulticastAddr
       else None)"

fun first_error :: "('a \<Rightarrow> 'e option) \<Rightarrow> 'a list \<Rightarrow> 'e option" where
  "first_error f [] = None"
| "first_error f (x # xs) = (case f x of Some e \<Rightarrow> Some e | None \<Rightarrow> first_error f xs)"

text \<open>The parsers and the resolver; a failed resolution is \<open>None\<close>.\<close>

record net_libs =
  nl_url :: "string \<Rightarrow> (parsed_url \<times> 16 word option) option"
  nl_ip :: "string \<Rightarrow> ip_addr option"
  nl_resolve :: "string \<Rightarrow> 16 word \<Rightarrow> ip_addr list option"

definition validate_smtp_host :: "net_libs \<Rightarrow> string \<Rightarrow> address_error option" where
  "validate_smtp_host N host =
     (case nl_ip N host of
        Some ip \<Rightarrow> check_smtp_ip ip
      | None \<Rightarrow> (case nl_resolve N host 0 of None \<Rightarrow> None | Some ips \<Rightarrow> first_error check_smtp_ip ips))"

datatype url_error = InvalidUrl | UnsupportedScheme | PlainHttp | BadAddress address_error | ResolutionFailed | NoAddresses

definition validate_notification_url :: "net_libs \<Rightarrow> string \<Rightarrow> url_error option" where
  "validate_notification_url N url =
     (case nl_url N url of
        None \<Rightarrow> Some InvalidUrl
      | Some (u, given_port) \<Rightarrow>
          let host = (case pu_host u of Some h \<Rightarrow> h | None \<Rightarrow> []);
              port = (case given_port of Some p \<Rightarrow> p | None \<Rightarrow> if pu_scheme u = ''https'' then 443 else 80)
          in if pu_scheme u \<noteq> ''https'' \<and> pu_scheme u \<noteq> ''http'' then Some UnsupportedScheme
             else if pu_scheme u = ''http'' \<and> host \<noteq> ''localhost'' \<and> host \<noteq> ''127.0.0.1'' then Some PlainHttp
             else case Option.bind (nl_ip N host) check_ip of
               Some e \<Rightarrow> Some (BadAddress e)
             | None \<Rightarrow>
                 (case nl_resolve N host port of
                    None \<Rightarrow> Some ResolutionFailed
                  | Some ips \<Rightarrow> if ips = [] then Some NoAddresses else map_option BadAddress (first_error check_ip ips)))"

section \<open>Sending\<close>

datatype notification_error = SmtpError string | SmtpAddress address_error | InvalidFrom string

record email_notifier =
  en_host :: string
  en_port :: "16 word"
  en_credentials :: "(string \<times> string) option"
  en_from :: string
  en_use_tls :: bool

record send_libs =
  sl_net :: net_libs
  sl_print :: "json \<Rightarrow> string"
  sl_event :: "notification_event \<Rightarrow> string"
  sl_pretty :: "notification_event \<Rightarrow> string"
  sl_hmac_hex :: "string \<Rightarrow> string \<Rightarrow> string"
  sl_encode :: "string \<Rightarrow> string"
  sl_mailbox :: "string \<Rightarrow> bool"
  sl_relay :: "bool \<Rightarrow> string \<Rightarrow> string option"

definition email_new ::
  "send_libs \<Rightarrow> string \<Rightarrow> 16 word \<Rightarrow> string \<Rightarrow> string \<Rightarrow> string \<Rightarrow> bool \<Rightarrow> notification_error + email_notifier" where
  "email_new S host port username password from_addr use_tls =
     (if \<not> sl_mailbox S from_addr then Inl (InvalidFrom from_addr)
      else case sl_relay S use_tls host of
        Some e \<Rightarrow> Inl (SmtpError e)
      | None \<Rightarrow> Inr \<lparr>en_host = host, en_port = port,
          en_credentials = (if username = [] then None else Some (username, password)), en_from = from_addr, en_use_tls = use_tls\<rparr>)"

definition nonempty :: "string option \<Rightarrow> string option" where
  "nonempty s = (case s of Some t \<Rightarrow> if t = [] then None else Some t | None \<Rightarrow> None)"

definition build_email_notifier :: "send_libs \<Rightarrow> notification_config \<Rightarrow> notification_error + email_notifier" where
  "build_email_notifier S config =
     (case nonempty (nc_smtp_host config) of
        None \<Rightarrow> Inl (SmtpError ''smtp_host not configured'')
      | Some host \<Rightarrow>
          (case validate_smtp_host (sl_net S) host of
             Some e \<Rightarrow> Inl (SmtpAddress e)
           | None \<Rightarrow>
               (case nonempty (nc_smtp_from config) of
                  None \<Rightarrow> Inl (SmtpError ''smtp_from not configured'')
                | Some from_addr \<Rightarrow> email_new S host (case nc_smtp_port config of Some p \<Rightarrow> p | None \<Rightarrow> 587)
                    (case nc_smtp_username config of Some u \<Rightarrow> u | None \<Rightarrow> [])
                    (case nc_smtp_password config of Some p \<Rightarrow> p | None \<Rightarrow> []) from_addr (nc_smtp_use_tls config))))"

datatype delivery =
    HttpPost string headers string
  | Email email_notifier string string string

definition send_webhook :: "send_libs \<Rightarrow> string \<Rightarrow> string option \<Rightarrow> json \<Rightarrow> delivery" where
  "send_webhook S url secret payload =
     (let body = sl_print S payload
      in HttpPost url ((''Content-Type'', ''application/json'') #
           (case secret of Some sec \<Rightarrow> [(''X-ModelSwitch-Signature'', ''sha256='' @ sl_hmac_hex S sec body)] | None \<Rightarrow> [])) body)"

definition send_bark :: "send_libs \<Rightarrow> string \<Rightarrow> string \<Rightarrow> string \<Rightarrow> delivery" where
  "send_bark S bark_url title body =
     HttpPost (trim_slashes bark_url @ ''/'' @ sl_encode S title) [(''Content-Type'', ''application/json; charset=utf-8'')]
       (sl_print S (JObj [(''body'', JStr body)]))"

definition notify :: "send_libs \<Rightarrow> notification_service \<Rightarrow> notification_event \<Rightarrow> delivery list" where
  "notify S s e =
     (let c = ns_config s
      in (case nc_webhook_url c of Some url \<Rightarrow> [send_webhook S url (nc_webhook_secret c) (event_json e)] | None \<Rightarrow> [])
         @ (case nc_bark_url c of Some url \<Rightarrow> [send_bark S url (event_title e) (sl_event S e)] | None \<Rightarrow> [])
         @ (if nc_smtp_enabled c then
              (case nc_smtp_admin_email c of
                 None \<Rightarrow> []
               | Some recipient \<Rightarrow>
                   (case build_email_notifier S c of
                      Inl _ \<Rightarrow> []
                    | Inr n \<Rightarrow> [Email n recipient (''[ModelSwitch] '' @ event_title e) (sl_pretty S e)]))
            else []))"

section \<open>The endpoints\<close>

definition without_secrets :: "notification_config \<Rightarrow> notification_config" where
  "without_secrets c = c\<lparr>nc_webhook_secret := None, nc_smtp_password := None\<rparr>"

definition get_notification_config :: "notification_service \<Rightarrow> notification_config" where
  "get_notification_config s = without_secrets (ns_config s)"

definition update_notification_config ::
  "net_libs \<Rightarrow> notification_config \<Rightarrow> notification_service \<Rightarrow> notification_service \<times> (url_error + notification_config)" where
  "update_notification_config N config s =
     (case Option.bind (nc_webhook_url config) (validate_notification_url N) of
        Some e \<Rightarrow> (s, Inl e)
      | None \<Rightarrow>
          (case Option.bind (nc_bark_url config) (validate_notification_url N) of
             Some e \<Rightarrow> (s, Inl e)
           | None \<Rightarrow>
               let config = (if nc_smtp_password config = None
                             then config\<lparr>nc_smtp_password := nc_smtp_password (ns_config s)\<rparr> else config)
               in (update_config config s, Inr (without_secrets config))))"

section \<open>Alerts fire on crossings\<close>

type_synonym threshold_check = "notification_config \<times> string \<times> u8"

abbreviation above :: "threshold_check \<Rightarrow> bool" where
  "above x \<equiv> nc_budget_threshold_pct (fst x) \<le> snd (snd x)"

definition last_check :: "threshold_check list \<Rightarrow> string \<Rightarrow> threshold_check option" where
  "last_check earlier key = find (\<lambda>y. fst (snd y) = key) (rev earlier)"

definition crossing :: "threshold_check list \<Rightarrow> threshold_check \<Rightarrow> bool" where
  "crossing earlier x \<longleftrightarrow> above x \<and> (case last_check earlier (fst (snd x)) of None \<Rightarrow> True | Some y \<Rightarrow> \<not> above y)"

fun run_checks :: "notification_service \<Rightarrow> threshold_check list \<Rightarrow> bool list" where
  "run_checks s [] = []"
| "run_checks s ((config, key, pct) # xs) =
     (case check_budget_threshold key pct (update_config config s) of (s', r) \<Rightarrow> r # run_checks s' xs)"

definition notified_ok :: "threshold_check list \<Rightarrow> notification_service \<Rightarrow> bool" where
  "notified_ok earlier s \<longleftrightarrow> (\<forall>k. k \<in> set (ns_notified s) \<longleftrightarrow> (\<exists>y. last_check earlier k = Some y \<and> above y))"

lemma last_check_snoc: "last_check (earlier @ [x]) k = (if fst (snd x) = k then Some x else last_check earlier k)"
  by (simp add: last_check_def)

lemma check_crossing:
  assumes "notified_ok earlier s" "check_budget_threshold key pct (update_config config s) = (s', r)"
  shows "r \<longleftrightarrow> crossing earlier (config, key, pct)" "notified_ok (earlier @ [(config, key, pct)]) s'"
  using assms
  by (auto simp: check_budget_threshold_def update_config_def notified_ok_def crossing_def last_check_snoc
      split: if_splits option.splits)

lemma run_checks_crossings:
  "notified_ok earlier s \<Longrightarrow> run_checks s xs = map (\<lambda>n. crossing (earlier @ take n xs) (xs ! n)) [0..<length xs]"
proof (induction xs arbitrary: s earlier)
  case (Cons x xs)
  obtain config key pct where x: "x = (config, key, pct)" by (metis prod_cases3)
  obtain s' r where c: "check_budget_threshold key pct (update_config config s) = (s', r)" by fastforce
  note d = check_crossing[OF Cons.prems c]
  have "[0..<length (x # xs)] = 0 # map Suc [0..<length xs]" by (simp add: upt_conv_Cons map_Suc_upt del: upt_Suc)
  then show ?case using Cons.IH[OF d(2)] d(1) by (simp add: x c del: upt_Suc)
qed simp

text \<open>A check alerts exactly when the usage has reached the threshold in force and the previous check of the same key,
  if there was one, was below the threshold in force then, whatever happens to other keys and to the
  configuration in between.\<close>

theorem alerts_on_crossings:
  "run_checks (notification_new config) xs = map (\<lambda>n. crossing (take n xs) (xs ! n)) [0..<length xs]"
  using run_checks_crossings[of "[]" "notification_new config" xs]
  by (simp add: notified_ok_def notification_new_def last_check_def)

section \<open>Addresses of webhooks\<close>

lemma first_error_None: "first_error f xs = None \<longleftrightarrow> (\<forall>x \<in> set xs. f x = None)"
  by (induction xs) (auto split: option.splits)

lemma check_ip_v4: "check_ip (V4 a b c d) = None \<longleftrightarrow> \<not> is_private_v4 a b c d \<or> (a, b, c, d) = (127, 0, 0, 1)"
  by (auto simp: check_ip_def is_private_v4_def is_v4_private_def)

lemma validated_addresses:
  assumes "validate_notification_url N url = None"
  obtains u p host port ips where "nl_url N url = Some (u, p)" "host = (case pu_host u of Some h \<Rightarrow> h | None \<Rightarrow> [])"
    "nl_resolve N host port = Some ips" "ips \<noteq> []" "\<forall>ip \<in> set ips. check_ip ip = None"
    "pu_scheme u = ''https'' \<or> pu_scheme u = ''http'' \<and> host \<in> {''localhost'', ''127.0.0.1''}"
proof -
  obtain u p where u: "nl_url N url = Some (u, p)"
    using assms by (cases "nl_url N url") (auto simp: validate_notification_url_def)
  define host where "host = (case pu_host u of Some h \<Rightarrow> h | None \<Rightarrow> [])"
  define port where "port = (case p of Some p \<Rightarrow> p | None \<Rightarrow> if pu_scheme u = ''https'' then 443 else 80)"
  note v = assms[unfolded validate_notification_url_def u option.case prod.case, folded host_def port_def, unfolded Let_def]
  obtain ips where "nl_resolve N host port = Some ips" "ips \<noteq> []" "\<forall>ip \<in> set ips. check_ip ip = None"
    using v by (auto simp: first_error_None split: if_splits option.splits)
  moreover have "pu_scheme u = ''https'' \<or> pu_scheme u = ''http'' \<and> host \<in> {''localhost'', ''127.0.0.1''}"
    using v by (auto split: if_splits)
  ultimately show ?thesis using that u host_def by blast
qed

text \<open>A webhook address is stored only if it is an https address, or a plain one of the local host, and no IPv4
  address its name resolves to at that moment is private, link-local, unspecified, broadcast or loopback other
  than 127.0.0.1.\<close>

theorem stored_webhook_is_checked:
  assumes "update_notification_config N config s = (s', Inr shown)" "nc_webhook_url config = Some url"
  shows "nc_webhook_url (ns_config s') = Some url
    \<and> (\<exists>u p host port ips. nl_url N url = Some (u, p) \<and> host = (case pu_host u of Some h \<Rightarrow> h | None \<Rightarrow> [])
      \<and> (pu_scheme u = ''https'' \<or> pu_scheme u = ''http'' \<and> host \<in> {''localhost'', ''127.0.0.1''})
      \<and> nl_resolve N host port = Some ips \<and> ips \<noteq> []
      \<and> (\<forall>a b c d. V4 a b c d \<in> set ips \<longrightarrow> \<not> is_private_ip (V4 a b c d) \<or> (a, b, c, d) = (127, 0, 0, 1)))"
proof -
  have "validate_notification_url N url = None" "nc_webhook_url (ns_config s') = Some url"
    using assms by (auto simp: update_notification_config_def update_config_def Let_def split: option.splits)
  from this(1) obtain u p host port ips where v: "nl_url N url = Some (u, p)" "host = (case pu_host u of Some h \<Rightarrow> h | None \<Rightarrow> [])"
      "nl_resolve N host port = Some ips" "ips \<noteq> []" "\<forall>ip \<in> set ips. check_ip ip = None"
      "pu_scheme u = ''https'' \<or> pu_scheme u = ''http'' \<and> host \<in> {''localhost'', ''127.0.0.1''}"
    by (rule validated_addresses) blast
  have "\<forall>a b c d. V4 a b c d \<in> set ips \<longrightarrow> \<not> is_private_ip (V4 a b c d) \<or> (a, b, c, d) = (127, 0, 0, 1)"
    using v(5) check_ip_v4 by auto
  with v \<open>nc_webhook_url (ns_config s') = Some url\<close> show ?thesis by blast
qed

definition demo_net :: "ip_addr \<Rightarrow> net_libs" where
  "demo_net ip = \<lparr>nl_url = (\<lambda>_. Some (\<lparr>pu_scheme = ''https'', pu_host = Some ''hooks''\<rparr>, None)), nl_ip = (\<lambda>_. None),
     nl_resolve = (\<lambda>_ _. Some [ip])\<rparr>"

abbreviation demo_hook :: notification_config where
  "demo_hook \<equiv> default_notification_config\<lparr>nc_webhook_url := Some ''https://hooks'', nc_webhook_secret := Some ''s''\<rparr>"

lemma demo_hook_accepted:
  assumes "check_ip ip = None"
  shows "\<exists>shown. update_notification_config (demo_net ip) demo_hook (notification_new c) =
    (update_config (demo_hook\<lparr>nc_smtp_password := nc_smtp_password c\<rparr>) (notification_new c), Inr shown)"
  using assms by (simp add: update_notification_config_def validate_notification_url_def demo_net_def
      default_notification_config_def notification_new_def Let_def)

lemma stored_webhook_is_checked_witness:
  "nc_webhook_url (ns_config (fst (update_notification_config (demo_net (V4 8 8 8 8)) demo_hook
     (notification_new default_notification_config)))) = Some ''https://hooks''"
proof -
  have "check_ip (V4 8 8 8 8) = None" by (simp add: check_ip_v4 is_private_v4_def)
  from demo_hook_accepted[OF this, of default_notification_config] obtain shown where
    u: "update_notification_config (demo_net (V4 8 8 8 8)) demo_hook (notification_new default_notification_config) =
      (update_config (demo_hook\<lparr>nc_smtp_password := nc_smtp_password default_notification_config\<rparr>)
        (notification_new default_notification_config), Inr shown)" by blast
  have "nc_webhook_url demo_hook = Some ''https://hooks''" by simp
  from stored_webhook_is_checked[OF u this] show ?thesis unfolding u fst_conv by (rule conjunct1)
qed

text \<open>The check lets private IPv6 addresses pass: a unique local one, a link-local one and the address of the metadata
  service written as an IPv4-mapped address are accepted, although the first two are private and the third is
  refused in its IPv4 form.\<close>

theorem private_v6_accepted:
  "(\<forall>w \<in> {0xfd000000000000000000000000000001, 0xfe800000000000000000000000000001, 0xffffa9fea9fe}.
     validate_notification_url (demo_net (V6 w)) ''https://hooks'' = None)
   \<and> is_private_ip (V6 0xfd000000000000000000000000000001) \<and> is_private_ip (V6 0xfe800000000000000000000000000001)
   \<and> check_ip (V4 169 254 169 254) = Some LinkLocalAddr"
proof -
  have "check_ip (V6 0xfd000000000000000000000000000001) = None" "check_ip (V6 0xfe800000000000000000000000000001) = None"
    "check_ip (V6 0xffffa9fea9fe) = None"
    by (simp_all add: check_ip_def v6_multicast_def)
  moreover have "validate_notification_url (demo_net ip) ''https://hooks'' = map_option BadAddress (check_ip ip)" for ip
    by (simp add: validate_notification_url_def demo_net_def split: option.split)
  ultimately show ?thesis by (simp add: v6_segment0_def check_ip_def is_v4_private_def)
qed

section \<open>Saving what was shown\<close>

text \<open>Saving the configuration as the endpoint shows it keeps the mail password but erases the webhook secret, so that
  the webhooks sent from then on carry no signature.\<close>

theorem saving_drops_webhook_secret:
  assumes "update_notification_config N (get_notification_config s) s = (s', Inr shown)"
  shows "nc_smtp_password (ns_config s') = nc_smtp_password (ns_config s) \<and> nc_webhook_secret (ns_config s') = None
    \<and> (\<forall>S e url. nc_webhook_url (ns_config s) = Some url \<longrightarrow>
        HttpPost url [(''Content-Type'', ''application/json'')] (sl_print S (event_json e)) \<in> set (notify S s' e))"
proof -
  have c: "ns_config s' = (ns_config s)\<lparr>nc_webhook_secret := None\<rparr>"
    using assms by (auto simp: update_notification_config_def get_notification_config_def without_secrets_def update_config_def
        Let_def split: option.splits)
  have "HttpPost url [(''Content-Type'', ''application/json'')] (sl_print S (event_json e)) \<in> set (notify S s' e)"
    if "nc_webhook_url (ns_config s) = Some url" for S e url
  proof -
    have "nc_webhook_url (ns_config s') = Some url" "nc_webhook_secret (ns_config s') = None" using that unfolding c by simp_all
    then show ?thesis unfolding notify_def Let_def set_append by (intro UnI1) (simp add: send_webhook_def)
  qed
  with c show ?thesis by simp
qed

lemma saving_drops_webhook_secret_witness:
  "nc_webhook_secret (ns_config (notification_new demo_hook)) = Some ''s''
   \<and> nc_webhook_secret (ns_config (fst (update_notification_config (demo_net (V4 8 8 8 8))
       (get_notification_config (notification_new demo_hook)) (notification_new demo_hook)))) = None"
proof -
  have ip: "check_ip (V4 8 8 8 8) = None" by (simp add: check_ip_v4 is_private_v4_def)
  let ?u = "update_notification_config (demo_net (V4 8 8 8 8)) (get_notification_config (notification_new demo_hook)) (notification_new demo_hook)"
  obtain s' shown where u: "?u = (s', Inr shown)"
    using ip by (simp add: update_notification_config_def get_notification_config_def without_secrets_def validate_notification_url_def
        demo_net_def default_notification_config_def notification_new_def Let_def)
  from saving_drops_webhook_secret[OF u] show ?thesis unfolding u by (simp add: notification_new_def)
qed

end
