(* ===== verification/Http_Pool.thy ===== *)
theory Http_Pool
  imports Prelude
begin

text \<open>
  \<open>http_pool.rs\<close>: a pool of HTTP clients, each with an 8-bit count of the requests in flight, and a cache of clients per
  proxy. A client is a value of the type \<open>'c\<close>; building one may fail. The scan of \<open>get\<close> and its increment are
  separate atomic operations, so between requests a guard of any client may be acquired.
\<close>

record 'c http_pool =
  hp_clients :: "('c \<times> u8) list"
  hp_proxied :: "(string, 'c) hashmap"

fun build_clients :: "(nat \<Rightarrow> 'e + 'c) \<Rightarrow> nat list \<Rightarrow> 'e + ('c \<times> u8) list" where
  "build_clients build [] = Inr []"
| "build_clients build (n # ns) =
     (case build n of
        Inl e \<Rightarrow> Inl e
      | Inr c \<Rightarrow> (case build_clients build ns of Inl e \<Rightarrow> Inl e | Inr cs \<Rightarrow> Inr ((c, 0) # cs)))"

definition pool_new :: "nat \<Rightarrow> (nat \<Rightarrow> 'e + 'c) \<Rightarrow> 'e + 'c http_pool" where
  "pool_new n build =
     (case build_clients build [0..<n] of Inl e \<Rightarrow> Inl e | Inr cs \<Rightarrow> Inr \<lparr>hp_clients = cs, hp_proxied = []\<rparr>)"

definition busier_scan :: "nat \<times> u8 \<Rightarrow> nat \<times> u8 \<Rightarrow> nat \<times> u8" where
  "busier_scan = (\<lambda>(i, count) (best_idx, best_count). if count < best_count then (i, count) else (best_idx, best_count))"

definition least_busy_index :: "'c http_pool \<Rightarrow> nat" where
  "least_busy_index p = fst (fold busier_scan (enumerate 0 (map snd (hp_clients p))) (0, - 1))"

definition acquire_client :: "nat \<Rightarrow> 'c http_pool \<Rightarrow> 'c http_pool" where
  "acquire_client i p = p\<lparr>hp_clients := (hp_clients p)[i := (fst (hp_clients p ! i), snd (hp_clients p ! i) + 1)]\<rparr>"

text \<open>Dropping the guard of a pooled client.\<close>

definition drop_client :: "nat \<Rightarrow> 'c http_pool \<Rightarrow> 'c http_pool" where
  "drop_client i p = p\<lparr>hp_clients := (hp_clients p)[i := (fst (hp_clients p ! i), snd (hp_clients p ! i) - 1)]\<rparr>"

text \<open>The guard names its client by the index; an empty pool panics.\<close>

definition pool_get :: "'c http_pool \<Rightarrow> ('c http_pool \<times> nat) option" where
  "pool_get p =
     (let idx = least_busy_index p in if idx < length (hp_clients p) then Some (acquire_client idx p, idx) else None)"

definition pool_first :: "'c http_pool \<Rightarrow> ('c http_pool \<times> nat) option" where
  "pool_first p = (if hp_clients p = [] then None else Some (acquire_client 0 p, 0))"

definition get_proxied :: "(string \<Rightarrow> 'e + 'c) \<Rightarrow> string \<Rightarrow> 'c http_pool \<Rightarrow> 'c http_pool \<times> ('e + 'c)" where
  "get_proxied build proxy_url p =
     (case hm_get (hp_proxied p) proxy_url of
        Some c \<Rightarrow> (p, Inr c)
      | None \<Rightarrow>
          (case build proxy_url of
             Inl e \<Rightarrow> (p, Inl e)
           | Inr c \<Rightarrow> (p\<lparr>hp_proxied := hm_insert proxy_url c (hp_proxied p)\<rparr>, Inr c)))"

text \<open>The guard of a proxied client has a counter of its own.\<close>

definition proxied_pooled_client ::
  "(string \<Rightarrow> 'e + 'c) \<Rightarrow> string \<Rightarrow> 'c http_pool \<Rightarrow> 'c http_pool \<times> ('e + 'c \<times> u8)" where
  "proxied_pooled_client build proxy_url p =
     (case get_proxied build proxy_url p of (p, Inl e) \<Rightarrow> (p, Inl e) | (p, Inr c) \<Rightarrow> (p, Inr (c, 1)))"

section \<open>Counts and guards\<close>

text \<open>A pool with the list of the live guards, by client.\<close>

inductive pool_step :: "'c http_pool \<times> nat list \<Rightarrow> 'c http_pool \<times> nat list \<Rightarrow> bool" where
  acquire: "i < length (hp_clients p) \<Longrightarrow> pool_step (p, gs) (acquire_client i p, i # gs)"
| release: "i \<in> set gs \<Longrightarrow> pool_step (p, gs) (drop_client i p, remove1 i gs)"
| proxied: "pool_step (p, gs) (fst (get_proxied (build :: string \<Rightarrow> string + 'c) url p), gs)"

inductive pool_reachable :: "'c http_pool \<times> nat list \<Rightarrow> bool" where
  start: "pool_new n (build :: nat \<Rightarrow> string + 'c) = Inr p \<Longrightarrow> pool_reachable (p, [])"
| step: "pool_reachable s \<Longrightarrow> pool_step s s' \<Longrightarrow> pool_reachable s'"

definition active :: "'c http_pool \<Rightarrow> nat \<Rightarrow> u8" where
  "active p i = snd (hp_clients p ! i)"

definition pool_ok :: "'c http_pool \<times> nat list \<Rightarrow> bool" where
  "pool_ok s \<longleftrightarrow> set (snd s) \<subseteq> {..<length (hp_clients (fst s))}
     \<and> (\<forall>i < length (hp_clients (fst s)). active (fst s) i = of_nat (count_list (snd s) i))"

lemma build_clients_zero: "build_clients build ns = Inr cs \<Longrightarrow> i < length cs \<Longrightarrow> snd (cs ! i) = 0"
  by (induction ns arbitrary: cs i) (auto simp: nth_Cons split: sum.splits nat.splits)

lemma pool_ok_new: "pool_new n build = Inr p \<Longrightarrow> pool_ok (p, [])"
  by (auto simp: pool_new_def pool_ok_def active_def build_clients_zero split: sum.splits)

lemma active_acquire: "i < length (hp_clients p) \<Longrightarrow> active (acquire_client i p) j = (if j = i then active p i + 1 else active p j)"
  by (simp add: active_def acquire_client_def)

lemma active_drop: "i < length (hp_clients p) \<Longrightarrow> active (drop_client i p) j = (if j = i then active p i - 1 else active p j)"
  by (simp add: active_def drop_client_def)

lemma length_clients [simp]:
  "length (hp_clients (acquire_client i p)) = length (hp_clients p)" "length (hp_clients (drop_client i p)) = length (hp_clients p)"
  by (simp_all add: acquire_client_def drop_client_def)

lemma count_remove1: "i \<in> set gs \<Longrightarrow> (of_nat (count_list gs i - Suc 0) :: u8) = of_nat (count_list gs i) - 1"
  using count_list_0_iff[of gs i] by (simp add: of_nat_diff Suc_le_eq)

lemma count_replicate: "count_list (replicate n x) y = (if x = y then n else 0)"
  by (induction n) auto

lemma pool_step_ok: "pool_step s s' \<Longrightarrow> pool_ok s \<Longrightarrow> pool_ok s'"
proof (induction rule: pool_step.induct)
  case (release i gs p)
  then have "i < length (hp_clients p)" by (auto simp: pool_ok_def)
  with release show ?case
    using set_remove1_subset[of i gs] by (auto simp: pool_ok_def active_drop count_remove1)
next
  case (proxied p gs build url)
  then show ?case by (auto simp: pool_ok_def active_def get_proxied_def split: option.splits sum.splits)
qed (auto simp: pool_ok_def active_acquire)

lemma pool_reachable_ok: "pool_reachable s \<Longrightarrow> pool_ok s"
  by (induction rule: pool_reachable.induct) (auto simp: pool_ok_new pool_step_ok)

lemma active_guards:
  "pool_reachable (p, gs) \<Longrightarrow> i < length (hp_clients p) \<Longrightarrow> active p i = of_nat (count_list gs i)"
  using pool_reachable_ok[of "(p, gs)"] by (simp add: pool_ok_def)

text \<open>However the requests interleave, the count of a client is the number of its live guards modulo 256.\<close>

theorem pool_counts_guards:
  assumes "pool_reachable (p, gs)" "i < length (hp_clients p)"
  shows "unat (snd (hp_clients p ! i)) = count_list gs i mod 256"
  using active_guards[OF assms] by (simp add: active_def unat_of_nat)

section \<open>The least busy client\<close>

lemma scan_least:
  "fold busier_scan (enumerate k cs) (b, m) = (b', m') \<Longrightarrow>
     m' \<le> m \<and> (\<forall>c \<in> set cs. m' \<le> c) \<and> (b' = b \<and> m' = m \<or> (\<exists>n < length cs. b' = k + n \<and> m' = cs ! n))"
proof (induction cs arbitrary: k b m)
  case (Cons c cs)
  obtain b1 m1 where s: "busier_scan (k, c) (b, m) = (b1, m1)" by fastforce
  have "fold busier_scan (enumerate (Suc k) cs) (b1, m1) = (b', m')" using Cons.prems s by simp
  note ih = Cons.IH[OF this]
  have one: "m1 \<le> m" "m1 \<le> c" "b1 = b \<and> m1 = m \<or> b1 = k \<and> m1 = c" using s by (auto simp: busier_scan_def split: if_splits)
  have "b' = b \<and> m' = m \<or> (\<exists>n < length (c # cs). b' = k + n \<and> m' = (c # cs) ! n)"
  proof (cases "b' = b1 \<and> m' = m1")
    case True
    then show ?thesis using one(3) by fastforce
  next
    case False
    then obtain n where "n < length cs" "b' = Suc k + n" "m' = cs ! n" using ih by blast
    then show ?thesis by (intro disjI2 exI[of _ "Suc n"]) simp
  qed
  then show ?case using ih one by (auto intro: order_trans)
qed simp

lemma least_busy:
  assumes "hp_clients p \<noteq> []"
  shows "least_busy_index p < length (hp_clients p)" "j < length (hp_clients p) \<Longrightarrow> active p (least_busy_index p) \<le> active p j"
proof -
  let ?cs = "map snd (hp_clients p)"
  obtain b m where f: "fold busier_scan (enumerate 0 ?cs) (0, - 1) = (b, m)" by fastforce
  note s = scan_least[OF f]
  have b: "least_busy_index p = b" using f by (simp add: least_busy_index_def)
  have top: "m = (- 1 :: u8) \<Longrightarrow> c \<in> set ?cs \<Longrightarrow> c = - 1" for c using s by (auto simp: word_order.extremum_unique)
  have "b < length (hp_clients p) \<and> active p b = m"
  proof (cases "b = 0 \<and> m = - 1")
    case True
    with assms top[of "?cs ! 0"] show ?thesis by (cases "hp_clients p") (auto simp: active_def)
  next
    case False
    then show ?thesis using s by (auto simp: active_def)
  qed
  then show "least_busy_index p < length (hp_clients p)"
    "j < length (hp_clients p) \<Longrightarrow> active p (least_busy_index p) \<le> active p j"
    using s b by (auto simp: active_def)
qed

text \<open>A request gets a client whose number of requests in flight is the least of all clients, as long as no client has
  more than 255 of them.\<close>

theorem pool_get_least_busy:
  assumes "pool_reachable (p, gs)" "hp_clients p \<noteq> []" "\<forall>j < length (hp_clients p). count_list gs j \<le> 255"
  shows "\<exists>p' i. pool_get p = Some (p', i) \<and> i < length (hp_clients p)
    \<and> (\<forall>j < length (hp_clients p). count_list gs i \<le> count_list gs j) \<and> pool_reachable (p', i # gs)"
proof -
  let ?i = "least_busy_index p"
  note l = least_busy[OF assms(2)]
  have "count_list gs ?i \<le> count_list gs j" if j: "j < length (hp_clients p)" for j
  proof -
    have "(of_nat (count_list gs ?i) :: u8) \<le> of_nat (count_list gs j)"
      using l(2)[OF j] active_guards[OF assms(1)] l(1) j by simp
    moreover have "count_list gs ?i \<le> 255" "count_list gs j \<le> 255" using assms(3) l(1) j by blast+
    ultimately show ?thesis by (simp add: word_le_nat_alt unat_of_nat)
  qed
  moreover have "pool_reachable (acquire_client ?i p, ?i # gs)" using pool_reachable.step[OF assms(1) pool_step.acquire[OF l(1)]] .
  ultimately show ?thesis using l(1) by (auto simp: pool_get_def Let_def)
qed

text \<open>When every client has 255 requests in flight, the next request wraps the count of the first client to zero, and
  all following requests go to that client, the busiest one, until the count has grown again.\<close>

theorem overload_collapses:
  assumes "pool_reachable (p, gs)" "hp_clients p \<noteq> []" "\<forall>j < length (hp_clients p). count_list gs j = 255"
  shows "\<exists>p'. pool_get p = Some (p', 0) \<and> snd (hp_clients p' ! 0) = 0 \<and> count_list (0 # gs) 0 = 256
    \<and> least_busy_index p' = 0"
proof -
  note l = least_busy[OF assms(2)]
  have a: "active p j = - 1" if "j < length (hp_clients p)" for j
    using active_guards[OF assms(1) that] assms(3) that by simp
  have "fold busier_scan (enumerate k cs) (b, - 1) = (b, - 1)" if "\<forall>c \<in> set cs. c = - 1" for k cs b
    using that by (induction cs arbitrary: k) (auto simp: busier_scan_def)
  moreover have "\<forall>c \<in> set (map snd (hp_clients p)). c = - 1" using a by (simp add: active_def list_all_iff[symmetric] list_all_length)
  ultimately have i: "least_busy_index p = 0" unfolding least_busy_index_def by (metis fst_conv)
  let ?p' = "acquire_client 0 p"
  have n: "0 < length (hp_clients p)" using assms(2) by simp
  have z: "active ?p' j = (if j = 0 then 0 else - 1)" if "j < length (hp_clients p)" for j
    using active_acquire[OF n] a[OF that] a[OF n] by simp
  note l' = least_busy[of ?p']
  have ne: "hp_clients ?p' \<noteq> []" using n length_clients(1)[of 0 p] by (metis length_greater_0_conv)
  have "active ?p' (least_busy_index ?p') \<le> 0" using l'(2)[OF ne, of 0] z[OF n] n by simp
  then have "active ?p' (least_busy_index ?p') = 0" by (simp add: word_le_0_iff)
  then have "least_busy_index ?p' = 0" using z[of "least_busy_index ?p'"] l'(1)[OF ne] by (auto split: if_splits)
  moreover have "count_list (0 # gs) 0 = 256" using assms(3) n by simp
  ultimately show ?thesis using i n z[OF n] by (simp add: pool_get_def Let_def active_def)
qed

section \<open>Reaching a given load\<close>

definition demo_http_pool :: "nat \<Rightarrow> nat http_pool" where
  "demo_http_pool n = \<lparr>hp_clients = map (\<lambda>i. (i, 0)) [0..<n], hp_proxied = []\<rparr>"

lemma demo_pool_new: "pool_new n (\<lambda>i. Inr i :: string + nat) = Inr (demo_http_pool n)"
proof -
  have "build_clients (\<lambda>i. Inr i :: string + nat) ns = Inr (map (\<lambda>i. (i, 0)) ns)" for ns by (induction ns) auto
  then show ?thesis by (simp add: pool_new_def demo_http_pool_def)
qed

lemma reach_load: "set gs \<subseteq> {..<n} \<Longrightarrow> \<exists>p. pool_reachable (p, gs) \<and> length (hp_clients (p :: nat http_pool)) = n"
proof (induction gs)
  case Nil
  then show ?case using pool_reachable.start[OF demo_pool_new, of n] by (intro exI[of _ "demo_http_pool n"]) (simp add: demo_http_pool_def)
next
  case (Cons i gs)
  then obtain p where "pool_reachable (p, gs)" "length (hp_clients (p :: nat http_pool)) = n" "i < n" by auto
  then show ?case using pool_reachable.step[OF _ pool_step.acquire] by (metis length_clients(1))
qed

lemma pool_counts_guards_witness:
  "\<exists>p :: nat http_pool. pool_reachable (p, replicate 300 0) \<and> unat (snd (hp_clients p ! 0)) = 44"
proof -
  obtain p :: "nat http_pool" where p: "pool_reachable (p, replicate 300 0)" "length (hp_clients p) = 1"
    using reach_load[of "replicate 300 0" 1] by auto
  with pool_counts_guards[OF p(1), of 0] show ?thesis by (auto simp: count_replicate)
qed

lemma pool_get_least_busy_witness:
  "\<exists>(p :: nat http_pool) p'. pool_reachable (p, [0, 0, 1]) \<and> pool_get p = Some (p', 1)"
proof -
  obtain p :: "nat http_pool" where p: "pool_reachable (p, [0, 0, 1])" "length (hp_clients p) = 2"
    using reach_load[of "[0, 0, 1]" 2] by auto
  have "hp_clients p \<noteq> []" "\<forall>j < length (hp_clients p). count_list [0, 0, 1] j \<le> 255" using p(2) by auto
  from pool_get_least_busy[OF p(1) this] obtain p' i where "pool_get p = Some (p', i)" "i < 2"
      "\<forall>j < 2. count_list [0, 0, 1] i \<le> count_list [0, 0, 1 :: nat] j"
    unfolding p(2) by blast
  moreover have "i = 1" using calculation(2) spec[OF calculation(3), of 1] by (auto simp: less_2_cases_iff)
  ultimately show ?thesis using p(1) by blast
qed

lemma overload_collapses_witness:
  "\<exists>(p :: nat http_pool) p'. pool_reachable (p, replicate 255 0 @ replicate 255 1) \<and> pool_get p = Some (p', 0)
     \<and> least_busy_index p' = 0"
proof -
  let ?gs = "replicate 255 0 @ replicate 255 1 :: nat list"
  obtain p :: "nat http_pool" where p: "pool_reachable (p, ?gs)" "length (hp_clients p) = 2"
    using reach_load[of ?gs 2] by auto
  have "hp_clients p \<noteq> []" "\<forall>j < length (hp_clients p). count_list ?gs j = 255"
    using p(2) by (auto simp: count_replicate less_2_cases_iff)
  from overload_collapses[OF p(1) this] show ?thesis using p(1) by blast
qed

end
