(* ===== verification/Audit_Log.thy ===== *)
theory Audit_Log
  imports Dispatch_Log Json "HOL-Library.Countable"
begin

text \<open>
  \<open>admin/audit.rs\<close>: the audit log of administrative actions. A bounded buffer whose entries carry the hash of their
  predecessor, an append-only file with rotated backups, and queries over both. The file system is the one of the
  dispatch log; digest, time format and the JSON codec are parameters. A write to the file either appends the whole
  line in one of its three attempts or nothing. \<open>record\<close> reads the chain tip, stores the new one and pushes the entry
  in three lock sections; they are three operations here.
\<close>

section \<open>Entries and the chain\<close>

record audit_entry =
  ae_timestamp :: utc
  ae_action :: string
  ae_actor :: string
  ae_target :: string
  ae_details :: json
  ae_prev_hash :: "string option"

record audit_log =
  al_entries :: "audit_entry list"
  al_max_entries :: nat
  al_persistent :: bool
  al_files :: log_files
  al_last_hash :: "string option"

record audit_libs =
  au_digest :: "string \<Rightarrow> string"
  au_rfc3339 :: "utc \<Rightarrow> string"
  au_print :: "json \<Rightarrow> string"
  au_line :: "audit_entry \<Rightarrow> string"
  au_read :: "string \<Rightarrow> audit_entry option"

definition DEFAULT_MAX_ENTRIES :: nat where "DEFAULT_MAX_ENTRIES = 1000"
definition AUDIT_LOG_MAX_SIZE :: nat where "AUDIT_LOG_MAX_SIZE = 10 * 1024 * 1024"
definition AUDIT_LOG_MAX_BACKUPS :: nat where "AUDIT_LOG_MAX_BACKUPS = 5"

definition audit_new :: "nat \<Rightarrow> audit_log" where
  "audit_new n = \<lparr>al_entries = [], al_max_entries = n, al_persistent = False, al_files = Map.empty, al_last_hash = None\<rparr>"

definition audit_with_persistence :: "nat \<Rightarrow> log_files \<Rightarrow> audit_log" where
  "audit_with_persistence n files =
     \<lparr>al_entries = [], al_max_entries = n, al_persistent = True, al_files = files, al_last_hash = None\<rparr>"

definition hashed_text :: "audit_libs \<Rightarrow> audit_entry \<Rightarrow> string" where
  "hashed_text A e =
     (au_rfc3339 A (ae_timestamp e) @ ''|'' @ ae_action e @ ''|'' @ ae_target e @ ''|'' @ au_print A (ae_details e)) @ ''|''
       @ (case ae_prev_hash e of Some h \<Rightarrow> h | None \<Rightarrow> [])"

definition compute_entry_hash :: "audit_libs \<Rightarrow> audit_entry \<Rightarrow> string" where
  "compute_entry_hash A e = au_digest A (hashed_text A e)"

fun verify_from :: "audit_libs \<Rightarrow> string \<Rightarrow> audit_entry list \<Rightarrow> bool" where
  "verify_from A h [] = True"
| "verify_from A h (e # es) = (if ae_prev_hash e \<noteq> Some h then False else verify_from A (compute_entry_hash A e) es)"

definition chain_valid :: "audit_libs \<Rightarrow> audit_entry list \<Rightarrow> bool" where
  "chain_valid A es = (case es of [] \<Rightarrow> True | e # es \<Rightarrow> verify_from A (compute_entry_hash A e) es)"

definition verify_chain :: "audit_libs \<Rightarrow> audit_log \<Rightarrow> bool" where
  "verify_chain A l = chain_valid A (al_entries l)"

section \<open>Files\<close>

fun audit_shift :: "nat \<Rightarrow> log_files \<Rightarrow> log_files" where
  "audit_shift 0 fs = fs"
| "audit_shift (Suc i) fs = audit_shift i (rename_file i (Suc i) fs)"

definition audit_rotate_if_needed :: "log_files \<Rightarrow> log_files" where
  "audit_rotate_if_needed fs =
     (case fs 0 of
        None \<Rightarrow> fs
      | Some lines \<Rightarrow> if file_size lines < AUDIT_LOG_MAX_SIZE then fs else audit_shift AUDIT_LOG_MAX_BACKUPS fs)"

definition audit_append_line :: "bool \<Rightarrow> log_files \<Rightarrow> string \<Rightarrow> log_files" where
  "audit_append_line written fs line =
     (let fs = audit_rotate_if_needed fs in if written then append_line fs line else fs)"

definition read_audit :: "audit_libs \<Rightarrow> string list \<Rightarrow> audit_entry list" where
  "read_audit A lines = List.map_filter (\<lambda>l. if trim l = [] then None else au_read A (trim l)) lines"

definition load_audit :: "audit_libs \<Rightarrow> audit_log \<Rightarrow> audit_log" where
  "load_audit A l =
     (if \<not> al_persistent l then l
      else case al_files l 0 of
        None \<Rightarrow> l
      | Some lines \<Rightarrow>
          let loaded = read_audit A lines;
              entries = take (al_max_entries l) (drop (length loaded - al_max_entries l) loaded)
          in l\<lparr>al_entries := entries,
               al_last_hash := (if entries = [] then None else Some (compute_entry_hash A (last entries)))\<rparr>)"

section \<open>Recording\<close>

definition audit_begin :: "utc \<Rightarrow> string \<Rightarrow> string \<Rightarrow> string \<Rightarrow> json \<Rightarrow> audit_log \<Rightarrow> audit_entry" where
  "audit_begin now action actor target details l =
     \<lparr>ae_timestamp = now, ae_action = action, ae_actor = actor, ae_target = target, ae_details = details,
      ae_prev_hash = al_last_hash l\<rparr>"

definition audit_tip :: "audit_libs \<Rightarrow> audit_entry \<Rightarrow> audit_log \<Rightarrow> audit_log" where
  "audit_tip A e l = l\<lparr>al_last_hash := Some (compute_entry_hash A e)\<rparr>"

definition audit_persist :: "audit_libs \<Rightarrow> bool \<Rightarrow> audit_entry \<Rightarrow> audit_log \<Rightarrow> audit_log" where
  "audit_persist A written e l =
     (if al_persistent l \<and> au_line A e \<noteq> [] then l\<lparr>al_files := audit_append_line written (al_files l) (au_line A e)\<rparr> else l)"

definition audit_push :: "audit_entry \<Rightarrow> audit_log \<Rightarrow> audit_log" where
  "audit_push e l =
     (let es = (if al_max_entries l \<le> length (al_entries l) then drop 1 (al_entries l) else al_entries l)
      in l\<lparr>al_entries := es @ [e]\<rparr>)"

definition audit_record ::
  "audit_libs \<Rightarrow> bool \<Rightarrow> utc \<Rightarrow> string \<Rightarrow> string \<Rightarrow> string \<Rightarrow> json \<Rightarrow> audit_log \<Rightarrow> audit_log" where
  "audit_record A written now action actor target details l =
     (let e = audit_begin now action actor target details l
      in audit_push e (audit_persist A written e (audit_tip A e l)))"

definition audit_clear :: "audit_log \<Rightarrow> audit_log" where
  "audit_clear l = l\<lparr>al_entries := [], al_last_hash := None\<rparr>"

section \<open>Queries\<close>

definition audit_list :: "audit_log \<Rightarrow> nat option \<Rightarrow> audit_entry list" where
  "audit_list l limit =
     (case limit of Some n \<Rightarrow> take n (rev (al_entries l)) | None \<Rightarrow> rev (al_entries l))"

definition audit_total :: "audit_log \<Rightarrow> nat" where
  "audit_total l = length (al_entries l)"

definition audit_history :: "audit_libs \<Rightarrow> log_files \<Rightarrow> audit_entry list" where
  "audit_history A fs =
     concat (map (\<lambda>i. case fs i of Some lines \<Rightarrow> read_audit A lines | None \<Rightarrow> []) (rev [0..<Suc AUDIT_LOG_MAX_BACKUPS]))"

definition query_from_file :: "audit_libs \<Rightarrow> log_files \<Rightarrow> u64 \<Rightarrow> u64 \<Rightarrow> audit_entry list" where
  "query_from_file A fs limit offset = take (unat limit) (drop (unat offset) (rev (audit_history A fs)))"

definition query_entries :: "audit_libs \<Rightarrow> audit_log \<Rightarrow> u64 \<Rightarrow> u64 \<Rightarrow> audit_entry list" where
  "query_entries A l limit offset =
     (let needs_file = (length (al_entries l) < unat (sat_add offset limit));
          from_memory = take (unat limit) (drop (unat offset) (rev (al_entries l)))
      in if \<not> needs_file then from_memory
         else if al_persistent l then query_from_file A (al_files l) limit offset
         else from_memory)"

definition get_audit_log :: "audit_libs \<Rightarrow> audit_log \<Rightarrow> u64 option \<Rightarrow> u64 option \<Rightarrow> audit_entry list" where
  "get_audit_log A l limit offset =
     query_entries A l (case limit of Some n \<Rightarrow> n | None \<Rightarrow> 100) (case offset of Some n \<Rightarrow> n | None \<Rightarrow> 0)"

section \<open>The chain is kept\<close>

lemma verify_from_snoc:
  "verify_from A h (es @ [e]) \<longleftrightarrow>
     verify_from A h es \<and> ae_prev_hash e = Some (if es = [] then h else compute_entry_hash A (last es))"
  by (induction es arbitrary: h) auto

lemma chain_valid_snoc:
  "chain_valid A (es @ [e]) \<longleftrightarrow> chain_valid A es \<and> (es \<noteq> [] \<longrightarrow> ae_prev_hash e = Some (compute_entry_hash A (last es)))"
  by (cases es) (auto simp: chain_valid_def verify_from_snoc)

lemma chain_valid_drop: "chain_valid A es \<Longrightarrow> chain_valid A (drop n es)"
proof (induction n arbitrary: es)
  case (Suc n)
  then show ?case by (cases es; cases "tl es") (auto simp: chain_valid_def split: if_splits)
qed simp

definition audit_ok :: "audit_libs \<Rightarrow> audit_log \<Rightarrow> bool" where
  "audit_ok A l \<longleftrightarrow> chain_valid A (al_entries l)
     \<and> (al_entries l \<noteq> [] \<longrightarrow> al_last_hash l = Some (compute_entry_hash A (last (al_entries l))))"

lemma audit_ok_record: "audit_ok A l \<Longrightarrow> audit_ok A (audit_record A written now action actor target details l)"
proof -
  assume ok: "audit_ok A l"
  let ?e = "audit_begin now action actor target details l"
  let ?es = "if al_max_entries l \<le> length (al_entries l) then drop 1 (al_entries l) else al_entries l"
  have r: "al_entries (audit_record A written now action actor target details l) = ?es @ [?e]"
    "al_last_hash (audit_record A written now action actor target details l) = Some (compute_entry_hash A ?e)"
    by (simp_all add: audit_record_def audit_push_def audit_persist_def audit_tip_def Let_def)
  have "?es \<noteq> [] \<Longrightarrow> al_entries l \<noteq> [] \<and> last ?es = last (al_entries l)" by (auto simp: last_drop)
  then have "?es \<noteq> [] \<longrightarrow> ae_prev_hash ?e = Some (compute_entry_hash A (last ?es))"
    using ok by (simp add: audit_ok_def audit_begin_def)
  moreover have "chain_valid A ?es" using ok by (simp add: audit_ok_def chain_valid_drop)
  ultimately show ?thesis unfolding audit_ok_def r by (simp add: chain_valid_snoc)
qed

lemma audit_ok_load:
  assumes "al_persistent l" "al_files l 0 = Some lines" "chain_valid A (read_audit A lines)"
  shows "audit_ok A (load_audit A l)"
proof -
  let ?loaded = "read_audit A lines"
  have "take (al_max_entries l) (drop (length ?loaded - al_max_entries l) ?loaded) = drop (length ?loaded - al_max_entries l) ?loaded"
    by simp
  then show ?thesis using assms by (simp add: load_audit_def Let_def audit_ok_def chain_valid_drop)
qed

datatype audit_event = Recorded bool utc string string string json | Cleared

fun audit_step :: "audit_libs \<Rightarrow> audit_event \<Rightarrow> audit_log \<Rightarrow> audit_log" where
  "audit_step A (Recorded written now action actor target details) l = audit_record A written now action actor target details l"
| "audit_step A Cleared l = audit_clear l"

lemma audit_ok_step: "audit_ok A l \<Longrightarrow> audit_ok A (audit_step A ev l)"
  by (cases ev) (simp_all add: audit_ok_record, simp add: audit_ok_def audit_clear_def chain_valid_def)

text \<open>Actions recorded one after the other, on a new log or after a restart that reads a file with a valid chain, leave
  a chain that verifies, whatever is evicted, cleared or lost by the file.\<close>

theorem audit_chain_verifies:
  assumes "l = audit_new n \<or> (\<exists>fs lines. fs 0 = Some lines \<and> chain_valid A (read_audit A lines)
      \<and> l = load_audit A (audit_with_persistence n fs))"
  shows "verify_chain A (fold (audit_step A) evs l)"
proof -
  have "audit_ok A l"
    using assms audit_ok_load[of "audit_with_persistence n fs" for fs]
    by (auto simp: audit_with_persistence_def) (simp add: audit_ok_def audit_new_def chain_valid_def)
  then have "audit_ok A (fold (audit_step A) evs l)" by (rule fold_keeps[where P = "audit_ok A"]) (rule audit_ok_step)
  then show ?thesis by (simp add: audit_ok_def verify_chain_def)
qed

section \<open>Tampering\<close>

lemma split_at_last:
  assumes "a @ c # p = b @ c # q" "c \<notin> set p" "c \<notin> set q"
  shows "p = q"
proof -
  have "takeWhile (\<lambda>x. x \<noteq> c) (rev p @ c # rev a) = rev p" "takeWhile (\<lambda>x. x \<noteq> c) (rev q @ c # rev b) = rev q"
    using assms(2,3) by (auto simp: takeWhile_append)
  moreover have "rev p @ c # rev a = rev q @ c # rev b" using arg_cong[OF assms(1), of rev] by simp
  ultimately show ?thesis by simp
qed

lemma hashed_text_prev:
  assumes "hashed_text A e = hashed_text A f" "ae_prev_hash e = Some h" "ae_prev_hash f = Some k"
    and "CHR ''|'' \<notin> set h" "CHR ''|'' \<notin> set k"
  shows "h = k"
proof -
  define t where "t x = au_rfc3339 A (ae_timestamp x) @ ''|'' @ ae_action x @ ''|'' @ ae_target x @ ''|'' @ au_print A (ae_details x)" for x :: audit_entry
  have "t e @ CHR ''|'' # h = t f @ CHR ''|'' # k" using assms(1-3) by (simp add: hashed_text_def t_def)
  then show ?thesis using assms(4,5) by (rule split_at_last)
qed

text \<open>C20: the chain is tamper-evident, if the digest has no collisions and prints without the separator: of two chains of
  the same length that verify and end in the same tip, all entries have the same hashed text.\<close>

theorem audit_tamper_evident:
  assumes "inj (au_digest A)" "\<And>s. CHR ''|'' \<notin> set (au_digest A s)"
    and "chain_valid A xs" "chain_valid A ys" "length xs = length ys" "xs \<noteq> []"
    and "compute_entry_hash A (last xs) = compute_entry_hash A (last ys)"
  shows "map (hashed_text A) xs = map (hashed_text A) ys"
  using assms(3-)
proof (induction xs arbitrary: ys rule: rev_induct)
  case (snoc x xs)
  obtain ys' y where ys: "ys = ys' @ [y]" using snoc.prems(3) by (cases ys rule: rev_cases) auto
  have xy: "hashed_text A x = hashed_text A y"
    using snoc.prems(5) injD[OF assms(1)] unfolding ys by (simp add: compute_entry_hash_def)
  show ?case
  proof (cases "xs = []")
    case True
    then show ?thesis using snoc.prems(3) xy ys by simp
  next
    case False
    then have ne: "ys' \<noteq> []" using snoc.prems(3) ys by auto
    have "ae_prev_hash x = Some (compute_entry_hash A (last xs))" "ae_prev_hash y = Some (compute_entry_hash A (last ys'))"
      using snoc.prems(1,2) False ne unfolding ys chain_valid_snoc by simp_all
    from hashed_text_prev[OF xy this] have "compute_entry_hash A (last xs) = compute_entry_hash A (last ys')"
      using assms(2) by (simp add: compute_entry_hash_def)
    then have "map (hashed_text A) xs = map (hashed_text A) ys'"
      using snoc.IH[of ys'] snoc.prems(1-3) False unfolding ys chain_valid_snoc by simp
    then show ?thesis using xy ys by simp
  qed
qed simp

section \<open>Examples\<close>

definition demo_audit_libs :: audit_libs where
  "demo_audit_libs = \<lparr>au_digest = (\<lambda>s. replicate (to_nat s) CHR ''0''), au_rfc3339 = (\<lambda>_. ''now''), au_print = (\<lambda>_. ''{}''),
     au_line = ae_target, au_read = (\<lambda>s. Some \<lparr>ae_timestamp = 0, ae_action = [], ae_actor = [], ae_target = s,
       ae_details = JNull, ae_prev_hash = None\<rparr>)\<rparr>"

lemma demo_digest: "inj (au_digest demo_audit_libs)" "CHR ''|'' \<notin> set (au_digest demo_audit_libs s)"
  by (auto simp: demo_audit_libs_def intro!: injI dest: arg_cong[of _ _ length])

abbreviation demo_events :: "audit_event list" where
  "demo_events \<equiv> [Recorded True 1 ''channel.create'' ''admin'' ''c1'' JNull, Recorded False 2 ''channel.delete'' ''admin'' ''c1'' JNull]"

lemma audit_chain_verifies_witness:
  "verify_chain demo_audit_libs (fold (audit_step demo_audit_libs) demo_events (audit_new 5))
   \<and> length (al_entries (fold (audit_step demo_audit_libs) demo_events (audit_new 5))) = 2"
proof -
  have "verify_chain demo_audit_libs (fold (audit_step demo_audit_libs) demo_events (audit_new 5))"
    by (rule audit_chain_verifies) (rule disjI1, rule HOL.refl)
  then show ?thesis
    by (simp add: audit_record_def audit_push_def audit_persist_def audit_tip_def audit_begin_def audit_new_def Let_def)
qed

lemma audit_tamper_evident_witness:
  "let e = audit_begin 1 ''a'' ''x'' ''t'' JNull (audit_new 5); e' = e\<lparr>ae_actor := ''y''\<rparr>;
       f = e\<lparr>ae_prev_hash := Some (compute_entry_hash demo_audit_libs e)\<rparr>
   in chain_valid demo_audit_libs [e, f] \<and> map (hashed_text demo_audit_libs) [e, f] = map (hashed_text demo_audit_libs) [e', f]"
proof -
  let ?e = "audit_begin 1 ''a'' ''x'' ''t'' JNull (audit_new 5)"
  let ?e' = "?e\<lparr>ae_actor := ''y''\<rparr>" and ?f = "?e\<lparr>ae_prev_hash := Some (compute_entry_hash demo_audit_libs ?e)\<rparr>"
  have h: "compute_entry_hash demo_audit_libs ?e' = compute_entry_hash demo_audit_libs ?e"
    by (simp add: compute_entry_hash_def hashed_text_def)
  have v: "chain_valid demo_audit_libs [?e, ?f]" "chain_valid demo_audit_libs [?e', ?f]"
    by (simp_all add: chain_valid_def h)
  have "map (hashed_text demo_audit_libs) [?e, ?f] = map (hashed_text demo_audit_libs) [?e', ?f]"
    by (rule audit_tamper_evident[OF demo_digest v]) simp_all
  with v(1) show ?thesis by (simp only: Let_def)
qed

section \<open>What the chain does not show\<close>

text \<open>The actor is not protected: the actors of a chain can be rewritten at will and it still verifies. Nor are the
  borders of action and target, which may hold the separator.\<close>

theorem audit_actor_unprotected:
  "chain_valid A (map (\<lambda>e. e\<lparr>ae_actor := rewrite e\<rparr>) es) = chain_valid A es
   \<and> compute_entry_hash A (e\<lparr>ae_action := a @ ''|'' @ b, ae_target := c\<rparr>) = compute_entry_hash A (e\<lparr>ae_action := a, ae_target := b @ ''|'' @ c\<rparr>)"
proof -
  have h: "compute_entry_hash A (e\<lparr>ae_actor := x\<rparr>) = compute_entry_hash A e" for e x
    by (simp add: compute_entry_hash_def hashed_text_def)
  have "verify_from A k (map (\<lambda>e. e\<lparr>ae_actor := rewrite e\<rparr>) es) = verify_from A k es" for k es
    by (induction es arbitrary: k) (simp_all add: h)
  then show ?thesis by (cases es) (simp_all add: chain_valid_def h, simp_all add: compute_entry_hash_def hashed_text_def)
qed

text \<open>Two actions recorded at the same time break the chain without any tampering: if both read the tip of a new log
  before either stores its own, the log does not verify, whatever the digest.\<close>

theorem concurrent_records_break_chain:
  "let l = audit_new (n + 2); e = audit_begin now action actor target details l;
       f = audit_begin now' action' actor' target' details' l;
       l = audit_persist A w' f (audit_tip A f (audit_persist A w e (audit_tip A e l)))
   in al_entries (audit_push f (audit_push e l)) = [e, f] \<and> \<not> verify_chain A (audit_push f (audit_push e l))"
  by (simp add: Let_def audit_push_def audit_persist_def audit_tip_def audit_begin_def audit_new_def verify_chain_def
      chain_valid_def)

section \<open>Queries reach the whole history\<close>

text \<open>A query pages through the whole history from the newest entry, whether it is answered from memory or from the
  files, as long as the files hold the history and the memory its latest part.\<close>

theorem audit_query_pages:
  assumes "al_persistent l" "al_entries l = drop k (audit_history A (al_files l))" "length (al_entries l) < 2 ^ 64 - 1"
  shows "query_entries A l limit offset = take (unat limit) (drop (unat offset) (rev (audit_history A (al_files l))))"
proof (cases "length (al_entries l) < unat (sat_add offset limit)")
  case True
  then show ?thesis using assms(1) by (simp add: query_entries_def query_from_file_def)
next
  case False
  let ?h = "audit_history A (al_files l)"
  have le: "unat offset + unat limit \<le> length (al_entries l)" using False assms(3) by (simp add: unat_sat_add)
  have "rev ?h = rev (al_entries l) @ rev (take k ?h)"
    unfolding assms(2) rev_append[symmetric] append_take_drop_id ..
  then have "take (unat limit) (drop (unat offset) (rev ?h)) = take (unat limit) (drop (unat offset) (rev (al_entries l)))"
    using le by simp
  then show ?thesis using False by (simp add: query_entries_def)
qed

lemma audit_query_pages_witness:
  "let l = load_audit demo_audit_libs (audit_with_persistence 1 [0 \<mapsto> [''new''], 1 \<mapsto> [''old'']])
   in map ae_target (query_entries demo_audit_libs l 5 0) = [''new'', ''old'']"
proof -
  let ?fs = "[0 \<mapsto> [''new''], 1 \<mapsto> [''old'']] :: log_files"
  let ?l = "load_audit demo_audit_libs (audit_with_persistence 1 ?fs)"
  have t: "trim ''new'' = ''new''" "trim ''old'' = ''old''" by code_simp+
  have five: "rev [0..<Suc AUDIT_LOG_MAX_BACKUPS] = [5, 4, 3, 2, 1, 0]" by (simp add: AUDIT_LOG_MAX_BACKUPS_def upt_conv_Cons)
  have h: "map ae_target (audit_history demo_audit_libs ?fs) = [''old'', ''new'']" "length (audit_history demo_audit_libs ?fs) = 2"
    "al_entries ?l = drop 1 (audit_history demo_audit_libs ?fs)" "al_persistent ?l" "al_files ?l = ?fs"
    unfolding audit_history_def five
    by (simp_all add: t read_audit_def map_filter_simps demo_audit_libs_def load_audit_def audit_with_persistence_def)
  have "query_entries demo_audit_libs ?l 5 0 = take (unat (5 :: u64)) (drop (unat (0 :: u64)) (rev (audit_history demo_audit_libs (al_files ?l))))"
    by (rule audit_query_pages[where k = 1]) (use h in \<open>simp_all only: length_drop\<close>, simp)
  then have "map ae_target (query_entries demo_audit_libs ?l 5 0) = rev (map ae_target (audit_history demo_audit_libs ?fs))"
    unfolding h(5) using h(2) by (simp add: rev_map)
  then show ?thesis unfolding h(1) Let_def by simp
qed

section \<open>Rotation\<close>

lemma rename_get: "rename_file a b fs k = (case fs a of None \<Rightarrow> fs k | Some ls \<Rightarrow> if k = a then None else if k = b then Some ls else fs k)"
  by (simp add: rename_file_def split: option.split)

lemma audit_shift_get:
  "audit_shift n fs k = (if k = 0 \<and> 0 < n then None else if k < n then fs (k - 1) else if k = n \<and> 0 < n then (case fs (n - 1) of None \<Rightarrow> fs n | Some ls \<Rightarrow> Some ls) else fs k)"
proof (induction n arbitrary: fs)
  case (Suc n)
  let ?fs = "rename_file n (Suc n) fs"
  have r: "?fs j = (if j = n then None else if j = Suc n then (case fs n of None \<Rightarrow> fs (Suc n) | Some ls \<Rightarrow> Some ls) else fs j)" for j
    by (cases "fs n") (auto simp: rename_get)
  consider "k < n" | "k = n" | "k = Suc n" | "Suc n < k" by linarith
  then show ?case unfolding audit_shift.simps Suc.IH r by cases (auto split: option.split)
qed simp

text \<open>A rotation of the audit file moves the file and every backup one place up; only the oldest of the five backups is
  given up, and only for its predecessor.\<close>

theorem audit_rotation_keeps_backups:
  assumes "fs 0 = Some lines" "AUDIT_LOG_MAX_SIZE \<le> file_size lines"
  shows "audit_rotate_if_needed fs k =
    (if k = 0 then None else if k < 5 then fs (k - 1) else if k = 5 then (if fs 4 = None then fs 5 else fs 4) else fs k)"
  using assms by (auto simp: audit_rotate_if_needed_def AUDIT_LOG_MAX_BACKUPS_def audit_shift_get split: option.splits)

lemma audit_rotation_keeps_backups_witness:
  "audit_rotate_if_needed [0 \<mapsto> [replicate AUDIT_LOG_MAX_SIZE CHR ''x''], 1 \<mapsto> [''a'']] 2 = Some [''a'']"
proof -
  have "AUDIT_LOG_MAX_SIZE \<le> file_size [replicate AUDIT_LOG_MAX_SIZE CHR ''x'']" by (simp add: file_size_def)
  from audit_rotation_keeps_backups[OF _ this, of "[0 \<mapsto> [replicate AUDIT_LOG_MAX_SIZE CHR ''x''], 1 \<mapsto> [''a'']]" 2]
  show ?thesis by simp
qed

end
