(* ===== verification/Identity.thy ===== *)
theory Identity
  imports Attempt Model_Registry
begin

text \<open>
  Enterprise sign-in (\<open>auth/mod.rs\<close>, \<open>auth/ldap.rs\<close>, \<open>auth/oidc.rs\<close>, \<open>config/auth.rs\<close>) and the login
  handlers of the admin API (\<open>admin/auth.rs\<close>), which turn a verified user into a virtual key. Arguments stand
  for what the directory server, the identity provider and the libraries for URLs, HMAC and JSON web tokens
  answer. The requests of one callback are numbered, since the provider may answer each of them differently.
\<close>

section \<open>Configuration and LDAP names\<close>

record ldap_config =
  lc_url :: string
  lc_bind_dn_template :: string
  lc_starttls :: bool
  lc_default_group :: string
  lc_timeout_secs :: u64

record oidc_config =
  oc_issuer :: string
  oc_client_id :: string
  oc_client_secret :: "string option"
  oc_redirect_uri :: string
  oc_scopes :: "string list"

datatype auth_source = Ldap | Oidc

record auth_user_info =
  au_id :: string
  au_username :: string
  au_email :: "string option"
  au_groups :: "string list"
  au_source :: auth_source

text \<open>\<open>escape_ldap_dn\<close>: the special characters are ASCII, so that working on bytes is working on characters.\<close>

definition dn_special :: "char list" where
  "dn_special = [CHR '','', CHR ''+'', CHR 0x22, CHR 0x5C, CHR ''<'', CHR ''>'', CHR '';'']"

definition escape_char :: "bool \<Rightarrow> bool \<Rightarrow> char \<Rightarrow> string" where
  "escape_char is_first is_last ch =
     (if ch \<in> set dn_special then [CHR 0x5C, ch]
      else if ch = CHR ''#'' \<and> is_first then [CHR 0x5C, CHR ''#'']
      else if ch = CHR '' '' \<and> (is_first \<or> is_last) then [CHR 0x5C, CHR '' '']
      else if ch = CHR 0x00 then [CHR 0x5C, CHR ''0'', CHR ''0'']
      else [ch])"

fun escape_from :: "bool \<Rightarrow> string \<Rightarrow> string" where
  "escape_from is_first [] = []"
| "escape_from is_first (ch # chars) = escape_char is_first (chars = []) ch @ escape_from False chars"

definition escape_ldap_dn :: "string \<Rightarrow> string" where
  "escape_ldap_dn = escape_from True"

text \<open>\<open>str::replace\<close>: the occurrences are found from the left and do not overlap; the pattern is not empty.\<close>

function str_replace :: "string \<Rightarrow> string \<Rightarrow> string \<Rightarrow> string" where
  "str_replace p r [] = []"
| "str_replace p r (c # cs) =
     (if p \<noteq> [] \<and> starts_with (c # cs) p then r @ str_replace p r (drop (length p) (c # cs)) else c # str_replace p r cs)"
  by pat_completeness auto
termination by (relation "measure (\<lambda>(p, r, s). length s)") auto

definition build_bind_dn :: "ldap_config \<Rightarrow> string \<Rightarrow> string" where
  "build_bind_dn cfg username = str_replace ''{username}'' (escape_ldap_dn username) (lc_bind_dn_template cfg)"

section \<open>LDAP sign-in\<close>

datatype ldap_auth_error = BindFailed u32 string | Connection string | InsecureConnection string

text \<open>The directory server: opening a connection (StartTLS, timeout and URL) and a simple bind on it.\<close>

record ldap_libs =
  ll_parse_url :: "string \<Rightarrow> parsed_url option"
  ll_connect :: "bool \<Rightarrow> u64 \<Rightarrow> string \<Rightarrow> string option"
  ll_simple_bind :: "string \<Rightarrow> string \<Rightarrow> string + u32 \<times> string"

definition is_localhost :: "parsed_url \<Rightarrow> bool" where
  "is_localhost u \<longleftrightarrow> pu_host u \<in> {Some ''localhost'', Some ''127.0.0.1'', Some ''::1''}"

definition validate_tls_requirement :: "ldap_libs \<Rightarrow> ldap_config \<Rightarrow> ldap_auth_error option" where
  "validate_tls_requirement L cfg =
     (case ll_parse_url L (lc_url cfg) of
        None \<Rightarrow> Some (InsecureConnection ''Invalid LDAP URL'')
      | Some parsed \<Rightarrow>
          let is_encrypted = (lc_starttls cfg \<or> pu_scheme parsed = ''ldaps'')
          in if \<not> is_encrypted \<and> \<not> is_localhost parsed
             then Some (InsecureConnection ''LDAP connection must use TLS (ldaps:// or starttls=true) for non-localhost hosts'')
             else None)"

definition ldap_authenticate :: "ldap_libs \<Rightarrow> ldap_config \<Rightarrow> string \<Rightarrow> string \<Rightarrow> ldap_auth_error + auth_user_info" where
  "ldap_authenticate L cfg username password =
     (case validate_tls_requirement L cfg of
        Some e \<Rightarrow> Inl e
      | None \<Rightarrow>
          let bind_dn = build_bind_dn cfg username
          in case ll_connect L (lc_starttls cfg) (lc_timeout_secs cfg) (lc_url cfg) of
               Some e \<Rightarrow> Inl (Connection e)
             | None \<Rightarrow>
                 (case ll_simple_bind L bind_dn password of
                    Inl e \<Rightarrow> Inl (Connection e)
                  | Inr (rc, txt) \<Rightarrow>
                      if rc = 0 then Inr \<lparr>au_id = bind_dn, au_username = username, au_email = None,
                                          au_groups = [lc_default_group cfg], au_source = Ldap\<rparr>
                      else Inl (BindFailed rc txt)))"

section \<open>The key of a signed-in user\<close>

text \<open>The tail shared by both login handlers: an old key of that name is deleted and a new one without limits is
  created. \<open>uuid_simple\<close> and \<open>i\<close> are the random values of the new key.\<close>

definition provision_key ::
  "(string \<Rightarrow> string) \<Rightarrow> utc \<Rightarrow> string \<Rightarrow> uuid \<Rightarrow> string \<Rightarrow> string \<Rightarrow> key_store \<Rightarrow> key_store \<times> virtual_key \<times> string" where
  "provision_key sha256 now uuid_simple i key_name grp store =
     (let store = (case find (\<lambda>k. vk_name k = key_name) (ks_list store) of
                     Some old_key \<Rightarrow> fst (ks_delete store (vk_id old_key))
                   | None \<Rightarrow> store)
      in ks_create sha256 store now uuid_simple i key_name None None None [] [] None None None (Some grp))"

record login_response =
  lr_key :: string
  lr_key_prefix :: string
  lr_username :: string
  lr_group :: string
  lr_email :: "string option"

definition first_group :: "auth_user_info \<Rightarrow> string" where
  "first_group u = (case au_groups u of g # _ \<Rightarrow> g | [] \<Rightarrow> [])"

definition login_status :: "ldap_auth_error \<Rightarrow> nat \<times> string" where
  "login_status e =
     (case e of BindFailed _ _ \<Rightarrow> (401, ''Invalid credentials'')
      | InsecureConnection _ \<Rightarrow> (503, ''Authentication service configuration error'')
      | Connection _ \<Rightarrow> (500, ''Authentication service temporarily unavailable''))"

definition ldap_login ::
  "ldap_libs \<Rightarrow> (string \<Rightarrow> string) \<Rightarrow> utc \<Rightarrow> string \<Rightarrow> uuid \<Rightarrow> ldap_config option \<Rightarrow> string \<Rightarrow> string \<Rightarrow> key_store
     \<Rightarrow> key_store \<times> (nat \<times> string + login_response)" where
  "ldap_login L sha256 now uuid_simple i config username password store =
     (case config of
        None \<Rightarrow> (store, Inl (503, ''LDAP authentication is not configured''))
      | Some cfg \<Rightarrow>
          if username = [] \<or> password = [] then (store, Inl (400, ''Username and password are required''))
          else case ldap_authenticate L cfg username password of
                 Inl e \<Rightarrow> (store, Inl (login_status e))
               | Inr u \<Rightarrow>
                   let (store, new_key, plaintext) =
                         provision_key sha256 now uuid_simple i (''ldap:'' @ au_username u) (first_group u) store
                   in (store, Inr \<lparr>lr_key = plaintext, lr_key_prefix = vk_key_prefix new_key, lr_username = au_username u,
                         lr_group = first_group u, lr_email = None\<rparr>))"

section \<open>OIDC sign-in\<close>

datatype oidc_error = Authorization string | TokenExchange string | UserInfo string | OidcConfigError string
  | InvalidIssuer string | DiscoveryError string

record discovery_document =
  dd_authorization_endpoint :: string
  dd_token_endpoint :: string
  dd_jwks_uri :: string
  dd_userinfo_endpoint :: "string option"

record token_set =
  tk_access_token :: string
  tk_id_token :: "string option"
  tk_token_type :: string
  tk_expires_in :: "u64 option"
  tk_refresh_token :: "string option"

record jwk =
  jwk_kid :: "string option"
  jwk_kty :: string
  jwk_n :: "string option"
  jwk_e :: "string option"

text \<open>The identity provider and the libraries: URLs, form requests (\<open>il_post\<close>) and numbered GET requests with an
  optional bearer token, the derived decoders of the answers, HMAC-SHA256 in hexadecimal, URL encoding and the
  token library (header, RSA key, verification of signature, audience, issuer and expiry).\<close>

record oidc_libs =
  il_parse_url :: "string \<Rightarrow> parsed_url option"
  il_get :: "nat \<Rightarrow> string \<Rightarrow> string option \<Rightarrow> http_reply"
  il_post :: "string \<Rightarrow> (string \<times> string) list \<Rightarrow> http_reply"
  il_discovery :: "json \<Rightarrow> discovery_document option"
  il_tokens :: "json \<Rightarrow> (string \<times> string option \<times> string option \<times> u64 option \<times> string option) option"
  il_jwks :: "json \<Rightarrow> jwk list option"
  il_hmac :: "string \<Rightarrow> string \<Rightarrow> string"
  il_urlencode :: "string \<Rightarrow> string"
  il_decode_header :: "string \<Rightarrow> (string option \<times> string) option"
  il_rsa_key :: "string \<Rightarrow> string \<Rightarrow> string option"
  il_decode :: "string \<Rightarrow> string \<Rightarrow> string \<Rightarrow> string \<Rightarrow> string \<Rightarrow> json option"

definition oidc_new :: "oidc_libs \<Rightarrow> oidc_config \<Rightarrow> oidc_error option" where
  "oidc_new L cfg =
     (case il_parse_url L (oc_issuer cfg) of
        None \<Rightarrow> Some (InvalidIssuer ''malformed issuer URL'')
      | Some parsed \<Rightarrow>
          if pu_scheme parsed \<noteq> ''https'' \<and> \<not> is_localhost parsed
          then Some (InvalidIssuer ''OIDC issuer must use https:// scheme (or http:// for localhost development)'')
          else None)"

definition timestamp_secs :: "utc \<Rightarrow> int" where "timestamp_secs now = now div 1000000000"

definition int_digits :: "int \<Rightarrow> string" where
  "int_digits n = (if n < 0 then CHR ''-'' # nat_digits (nat (- n)) else nat_digits (nat n))"

text \<open>\<open>str::parse\<close> to an \<open>i64\<close>.\<close>

definition parse_i64 :: "string \<Rightarrow> int option" where
  "parse_i64 s =
     (case s of
        c # ds \<Rightarrow>
          if c = CHR ''-'' then (if ds = [] then None else map_option (\<lambda>n. - int n) (parse_digits (2 ^ 63) 0 ds))
          else map_option int (parse_uint (2 ^ 63 - 1) s)
      | [] \<Rightarrow> None)"

text \<open>\<open>nonce\<close> is a random uuid in hexadecimal.\<close>

definition build_state_token :: "oidc_libs \<Rightarrow> utc \<Rightarrow> string \<Rightarrow> string \<Rightarrow> string" where
  "build_state_token L now nonce secret =
     (let expiry = int_digits (timestamp_secs now + 600);
          mac = il_hmac L secret (nonce @ ''.'' @ expiry)
      in nonce @ ''.'' @ expiry @ ''.'' @ mac)"

definition verify_state_token :: "oidc_libs \<Rightarrow> utc \<Rightarrow> string \<Rightarrow> string \<Rightarrow> oidc_error option" where
  "verify_state_token L now secret token =
     (case split_on (CHR ''.'') token of
        [nonce, expiry_str, provided_mac] \<Rightarrow>
          (case parse_i64 expiry_str of
             None \<Rightarrow> Some (Authorization ''malformed state expiry'')
           | Some expiry \<Rightarrow>
               if expiry < timestamp_secs now then Some (Authorization ''state token expired'')
               else if il_hmac L secret (nonce @ ''.'' @ expiry_str) = provided_mac then None
               else Some (Authorization ''state token HMAC mismatch''))
      | _ \<Rightarrow> Some (Authorization ''malformed state token''))"

definition authorization_url :: "oidc_libs \<Rightarrow> utc \<Rightarrow> string \<Rightarrow> oidc_config \<Rightarrow> string \<Rightarrow> string \<times> string" where
  "authorization_url L now nonce cfg state_secret =
     (let state = build_state_token L now nonce state_secret;
          scopes = (if oc_scopes cfg = [] then ''openid'' else join_with '' '' (oc_scopes cfg));
          params = [(''response_type'', ''code''), (''client_id'', oc_client_id cfg),
                    (''redirect_uri'', oc_redirect_uri cfg), (''scope'', scopes), (''state'', state)];
          query = join_with ''&'' (map (\<lambda>(k, v). k @ ''='' @ il_urlencode L v) params)
      in (trim_slashes (oc_issuer cfg) @ ''/authorize'' @ ''?'' @ query, state))"

definition validate_endpoint_host :: "oidc_libs \<Rightarrow> string \<Rightarrow> string \<Rightarrow> oidc_error option" where
  "validate_endpoint_host L url issuer_host =
     (case il_parse_url L url of
        None \<Rightarrow> Some (DiscoveryError ''discovery endpoint URL malformed'')
      | Some parsed \<Rightarrow>
          if pu_host parsed \<noteq> Some issuer_host then Some (DiscoveryError ''discovery endpoint host mismatch'') else None)"

text \<open>The answer to request \<open>n\<close> as a JSON value: a failed request, a status other than success and an unreadable
  body are errors.\<close>

definition fetched :: "(string \<Rightarrow> oidc_error) \<Rightarrow> http_reply \<Rightarrow> (json \<Rightarrow> 'a option) \<Rightarrow> oidc_error + 'a" where
  "fetched err reply decode =
     (case reply of
        NoReply \<Rightarrow> Inl (err ''request failed'')
      | HttpStatus status body \<Rightarrow>
          if \<not> is_success status then Inl (err ''unexpected HTTP status'')
          else case body of
                 None \<Rightarrow> Inl (err ''parse failed'')
               | Some j \<Rightarrow> (case decode j of None \<Rightarrow> Inl (err ''parse failed'') | Some x \<Rightarrow> Inr x))"

definition discover :: "oidc_libs \<Rightarrow> nat \<Rightarrow> oidc_config \<Rightarrow> oidc_error + discovery_document" where
  "discover L n cfg =
     (case fetched DiscoveryError (il_get L n (trim_slashes (oc_issuer cfg) @ ''/.well-known/openid-configuration'') None)
             (il_discovery L) of
        Inl e \<Rightarrow> Inl e
      | Inr doc \<Rightarrow>
          (case il_parse_url L (oc_issuer cfg) of
             None \<Rightarrow> Inl (OidcConfigError ''invalid issuer URL'')
           | Some issuer_url \<Rightarrow>
               let issuer_host = (case pu_host issuer_url of Some h \<Rightarrow> h | None \<Rightarrow> [])
               in case validate_endpoint_host L (dd_token_endpoint doc) issuer_host of
                    Some e \<Rightarrow> Inl e
                  | None \<Rightarrow>
                      (case dd_userinfo_endpoint doc of
                         None \<Rightarrow> Inr doc
                       | Some userinfo \<Rightarrow>
                           (case validate_endpoint_host L userinfo issuer_host of Some e \<Rightarrow> Inl e | None \<Rightarrow> Inr doc))))"

definition exchange_code :: "oidc_libs \<Rightarrow> oidc_config \<Rightarrow> string \<Rightarrow> oidc_error + token_set" where
  "exchange_code L cfg code =
     (case discover L 0 cfg of
        Inl e \<Rightarrow> Inl e
      | Inr discovery \<Rightarrow>
          let form = [(''grant_type'', ''authorization_code''), (''code'', code),
                      (''redirect_uri'', oc_redirect_uri cfg), (''client_id'', oc_client_id cfg)]
                     @ (case oc_client_secret cfg of Some secret \<Rightarrow> [(''client_secret'', secret)] | None \<Rightarrow> [])
          in case fetched TokenExchange (il_post L (dd_token_endpoint discovery) form) (il_tokens L) of
               Inl e \<Rightarrow> Inl e
             | Inr (access, id_token, token_type, expires, refresh) \<Rightarrow>
                 Inr \<lparr>tk_access_token = access, tk_id_token = id_token,
                      tk_token_type = (case token_type of Some t \<Rightarrow> t | None \<Rightarrow> ''Bearer''),
                      tk_expires_in = expires, tk_refresh_token = refresh\<rparr>)"

definition matching_key :: "string option \<Rightarrow> jwk list \<Rightarrow> jwk option" where
  "matching_key header_kid keys =
     find (\<lambda>k. case header_kid of Some kid \<Rightarrow> jwk_kid k = Some kid | None \<Rightarrow> jwk_kty k = ''RSA'') keys"

definition rsa_key :: "oidc_libs \<Rightarrow> jwk \<Rightarrow> oidc_error + string" where
  "rsa_key L key =
     (if jwk_kty key = ''RSA''
      then case jwk_n key of
             None \<Rightarrow> Inl (UserInfo ''JWKS RSA key missing modulus n'')
           | Some n \<Rightarrow>
               (case jwk_e key of
                  None \<Rightarrow> Inl (UserInfo ''JWKS RSA key missing exponent e'')
                | Some e \<Rightarrow> (case il_rsa_key L n e of None \<Rightarrow> Inl (UserInfo ''failed to build RSA key'') | Some k \<Rightarrow> Inr k))
      else Inl (UserInfo ''unsupported JWKS key type''))"

definition verify_id_token :: "oidc_libs \<Rightarrow> nat \<Rightarrow> oidc_config \<Rightarrow> string \<Rightarrow> oidc_error + json" where
  "verify_id_token L n cfg id_token =
     (case discover L n cfg of
        Inl e \<Rightarrow> Inl e
      | Inr discovery \<Rightarrow>
          (case il_decode_header L id_token of
             None \<Rightarrow> Inl (UserInfo ''failed to decode JWT header'')
           | Some (kid, alg) \<Rightarrow>
               (case fetched DiscoveryError (il_get L (n + 1) (dd_jwks_uri discovery) None) (il_jwks L) of
                  Inl e \<Rightarrow> Inl e
                | Inr keys \<Rightarrow>
                    (case matching_key kid keys of
                       None \<Rightarrow> Inl (UserInfo ''no matching JWKS key found for ID token'')
                     | Some key \<Rightarrow>
                         (case rsa_key L key of
                            Inl e \<Rightarrow> Inl e
                          | Inr k \<Rightarrow>
                              (case il_decode L id_token k alg (oc_client_id cfg) (oc_issuer cfg) of
                                 None \<Rightarrow> Inl (UserInfo ''ID token verification failed'')
                               | Some claims \<Rightarrow> Inr claims))))))"

definition claim :: "json \<Rightarrow> string \<Rightarrow> string option" where
  "claim claims k = Option.bind (json_get claims k) json_as_str"

definition claims_to_user_info :: "json \<Rightarrow> auth_user_info" where
  "claims_to_user_info claims =
     (let user_id = (case claim claims ''sub'' of Some s \<Rightarrow> s | None \<Rightarrow> []);
          username = (case claim claims ''preferred_username'' of Some s \<Rightarrow> s
                      | None \<Rightarrow> (case claim claims ''name'' of Some s \<Rightarrow> s
                                 | None \<Rightarrow> (case claim claims ''sub'' of Some s \<Rightarrow> s | None \<Rightarrow> user_id)))
      in \<lparr>au_id = user_id, au_username = username, au_email = claim claims ''email'', au_groups = [], au_source = Oidc\<rparr>)"

definition extract_user_info :: "oidc_libs \<Rightarrow> nat \<Rightarrow> oidc_config \<Rightarrow> token_set \<Rightarrow> oidc_error + auth_user_info" where
  "extract_user_info L n cfg tokens =
     (case tk_id_token tokens of
        Some id_token \<Rightarrow> map_sum id claims_to_user_info (verify_id_token L n cfg id_token)
      | None \<Rightarrow>
          (case discover L n cfg of
             Inl e \<Rightarrow> Inl e
           | Inr discovery \<Rightarrow>
               (case dd_userinfo_endpoint discovery of
                  None \<Rightarrow> Inl (UserInfo ''no ID token present and IdP discovery omitted userinfo_endpoint'')
                | Some url \<Rightarrow>
                    if url = [] then Inl (UserInfo ''no ID token present and IdP discovery omitted userinfo_endpoint'')
                    else map_sum id claims_to_user_info
                           (fetched UserInfo (il_get L (n + 1) url (Some (tk_access_token tokens))) Some))))"

definition oidc_login :: "oidc_libs \<Rightarrow> utc \<Rightarrow> string \<Rightarrow> oidc_config option \<Rightarrow> string \<Rightarrow> nat \<times> string + string" where
  "oidc_login L now nonce config state_secret =
     (case config of
        None \<Rightarrow> Inl (503, ''OIDC authentication is not configured'')
      | Some cfg \<Rightarrow>
          (case oidc_new L cfg of
             Some e \<Rightarrow> Inl (500, ''Authentication service configuration error'')
           | None \<Rightarrow> Inr (fst (authorization_url L now nonce cfg state_secret))))"

record callback_params =
  cb_code :: string
  cb_state :: string
  cb_error :: "string option"

definition oidc_callback ::
  "oidc_libs \<Rightarrow> (string \<Rightarrow> string) \<Rightarrow> utc \<Rightarrow> string \<Rightarrow> uuid \<Rightarrow> oidc_config option \<Rightarrow> string \<Rightarrow> callback_params \<Rightarrow> key_store
     \<Rightarrow> key_store \<times> (nat \<times> string + login_response)" where
  "oidc_callback L sha256 now uuid_simple i config state_secret params store =
     (case config of
        None \<Rightarrow> (store, Inl (503, ''OIDC authentication is not configured''))
      | Some cfg \<Rightarrow>
          if cb_error params \<noteq> None then (store, Inl (400, ''Authorization failed''))
          else if verify_state_token L now state_secret (cb_state params) \<noteq> None
          then (store, Inl (400, ''Invalid state parameter''))
          else if oidc_new L cfg \<noteq> None then (store, Inl (500, ''Authentication service configuration error''))
          else case exchange_code L cfg (cb_code params) of
                 Inl e \<Rightarrow> (store, Inl (502, ''Authentication service temporarily unavailable''))
               | Inr tokens \<Rightarrow>
                   (case extract_user_info L 1 cfg tokens of
                      Inl e \<Rightarrow> (store, Inl (502, ''Authentication service temporarily unavailable''))
                    | Inr u \<Rightarrow>
                        let (store, new_key, plaintext) =
                              provision_key sha256 now uuid_simple i (''oidc:'' @ au_username u) (first_group u) store
                        in (store, Inr \<lparr>lr_key = plaintext, lr_key_prefix = vk_key_prefix new_key,
                              lr_username = au_username u, lr_group = first_group u, lr_email = au_email u\<rparr>)))"


section \<open>Bind names are escaped\<close>

text \<open>RFC 4514, reading an attribute value: a backslash quotes a special character, a space, a hash sign or an equals
  sign, or stands before two hexadecimal digits; an unquoted special character, a leading hash sign and a leading or
  trailing space are not allowed.\<close>

definition hex_digit :: "char \<Rightarrow> nat option" where
  "hex_digit c = (let b = of_char c in
     if 48 \<le> b \<and> b \<le> 57 then Some (b - 48) else if 65 \<le> b \<and> b \<le> 70 then Some (b - 55)
     else if 97 \<le> b \<and> b \<le> 102 then Some (b - 87) else None)"

definition dn_quotable :: "char list" where
  "dn_quotable = dn_special @ [CHR '' '', CHR ''#'', CHR ''='']"

fun dn_unescape :: "bool \<Rightarrow> string \<Rightarrow> string option" where
  "dn_unescape is_first [] = Some []"
| "dn_unescape is_first (c # cs) =
     (if c = CHR 0x5C then
        (case cs of
           [] \<Rightarrow> None
         | d # ds \<Rightarrow>
             if d \<in> set dn_quotable then map_option (\<lambda>s. d # s) (dn_unescape False ds)
             else case ds of
                    [] \<Rightarrow> None
                  | e # es \<Rightarrow>
                      (case (hex_digit d, hex_digit e) of
                         (Some h, Some l) \<Rightarrow> map_option (\<lambda>s. char_of (16 * h + l) # s) (dn_unescape False es)
                       | _ \<Rightarrow> None))
      else if c \<in> set dn_special \<or> c = CHR 0x00 then None
      else if is_first \<and> (c = CHR ''#'' \<or> c = CHR '' '') then None
      else if cs = [] \<and> c = CHR '' '' then None
      else map_option (\<lambda>s. c # s) (dn_unescape False cs))"

lemma unescape_quoted:
  "d \<in> set dn_quotable \<Longrightarrow> dn_unescape b (CHR 0x5C # d # ds) = map_option (\<lambda>s. d # s) (dn_unescape False ds)"
  by simp

lemma unescape_zero: "dn_unescape b (CHR 0x5C # CHR ''0'' # CHR ''0'' # ds) = map_option (\<lambda>s. CHR 0x00 # s) (dn_unescape False ds)"
proof -
  have "hex_digit (CHR ''0'') = Some 0" "CHR ''0'' \<notin> set dn_quotable" "(char_of (0 :: nat) :: char) = CHR 0x00"
    by (simp_all add: hex_digit_def Let_def dn_quotable_def dn_special_def char_of_def)
  then show ?thesis by simp
qed

lemma unescape_plain:
  "c \<notin> set dn_special \<Longrightarrow> c \<noteq> CHR 0x00 \<Longrightarrow> \<not> (b \<and> c = CHR ''#'') \<Longrightarrow> \<not> ((b \<or> cs = []) \<and> c = CHR '' '')
   \<Longrightarrow> dn_unescape b (c # cs) = map_option (\<lambda>s. c # s) (dn_unescape False cs)"
  by (subst dn_unescape.simps) (auto simp: dn_special_def)

lemma unescape_escape_from: "dn_unescape b (escape_from b u) = Some u"
proof (induction u arbitrary: b)
  case (Cons c u)
  have empty: "escape_from False u = [] \<longleftrightarrow> u = []"
    by (cases u) (simp_all add: escape_char_def)
  have quotable: "c \<in> set dn_special \<or> c = CHR ''#'' \<or> c = CHR '' '' \<Longrightarrow> c \<in> set dn_quotable"
    by (auto simp: dn_quotable_def)
  let ?q = "c \<in> set dn_special \<or> b \<and> c = CHR ''#'' \<or> c = CHR '' '' \<and> (b \<or> u = [])"
  consider ?q | "\<not> ?q" "c = CHR 0x00" | "\<not> ?q" "c \<noteq> CHR 0x00" by blast
  then show ?case
  proof cases
    case 1
    then have "escape_char b (u = []) c = [CHR 0x5C, c]" by (auto simp: escape_char_def)
    moreover have "c \<in> set dn_quotable" using 1 quotable by blast
    ultimately show ?thesis using Cons.IH[of False] by (simp add: unescape_quoted del: dn_unescape.simps)
  next
    case 2
    then have "escape_char b (u = []) c = [CHR 0x5C, CHR ''0'', CHR ''0'']" by (auto simp: escape_char_def)
    then show ?thesis using Cons.IH[of False] 2 by (simp add: unescape_zero del: dn_unescape.simps)
  next
    case 3
    then have "escape_char b (u = []) c = [c]" by (auto simp: escape_char_def)
    moreover have "dn_unescape b (c # escape_from False u) = map_option (\<lambda>s. c # s) (dn_unescape False (escape_from False u))"
      using 3 by (intro unescape_plain) (auto simp: empty)
    ultimately show ?thesis using Cons.IH[of False] by (simp del: dn_unescape.simps)
  qed
qed simp

lemma replace_brace_free:
  assumes "CHR ''{'' \<notin> set s" shows "str_replace ''{username}'' r (s @ t) = s @ str_replace ''{username}'' r t"
  using assms by (induction s) (auto simp: starts_with_def)

text \<open>C26: a user name cannot reach out of its place in the bind name: what is put there reads back, by RFC 4514, as
  exactly the user name, without any unquoted separator; the rest of the template is kept.\<close>

theorem bind_name_not_injectable:
  assumes "lc_bind_dn_template cfg = pre @ ''{username}'' @ post" "CHR ''{'' \<notin> set pre" "CHR ''{'' \<notin> set post"
  shows "\<exists>v. build_bind_dn cfg username = pre @ v @ post \<and> dn_unescape True v = Some username"
proof -
  have "str_replace ''{username}'' r (''{username}'' @ post) = r @ str_replace ''{username}'' r post" for r
    by (simp add: starts_with_def)
  then show ?thesis
    using replace_brace_free[OF assms(2)] replace_brace_free[OF assms(3), of _ "[]"] unescape_escape_from[of True username]
    by (simp add: build_bind_dn_def assms(1) escape_ldap_dn_def del: str_replace.simps(2))
qed

definition demo_ldap :: ldap_config where
  "demo_ldap = \<lparr>lc_url = ''ldaps://dc01:636'', lc_bind_dn_template = ''cn={username},dc=corp'', lc_starttls = False,
     lc_default_group = ''ldap'', lc_timeout_secs = 10\<rparr>"

theorem bind_name_not_injectable_witness:
  "build_bind_dn demo_ldap ''x,ou=admins'' = ''cn='' @ [CHR ''x'', CHR 0x5C, CHR '','' ] @ ''ou=admins'' @ '',dc=corp''
   \<and> (\<exists>v. build_bind_dn demo_ldap ''x,ou=admins'' = ''cn='' @ v @ '',dc=corp'' \<and> dn_unescape True v = Some ''x,ou=admins'')"
  using bind_name_not_injectable[of demo_ldap "''cn=''" "'',dc=corp''" "''x,ou=admins''"]
  by (simp add: demo_ldap_def build_bind_dn_def escape_ldap_dn_def escape_char_def dn_special_def starts_with_def)

section \<open>State tokens\<close>

lemma split_on_free: "d \<notin> set s \<Longrightarrow> split_on d (s @ d # t) = s # split_on d t"
  by (induction s) auto

lemma split_on_single: "d \<notin> set s \<Longrightarrow> split_on d s = [s]"
  by (induction s) auto

lemma split_on_join: "split_on d s = [a, b, c] \<Longrightarrow> s = a @ d # b @ d # c \<and> d \<notin> set a \<and> d \<notin> set b \<and> d \<notin> set c"
proof -
  have ne: "split_on d s \<noteq> []" for s
    by (induction s) (auto split: list.splits)
  have one: "split_on d s = [a] \<Longrightarrow> s = a \<and> d \<notin> set a" for s a
    using ne by (induction s arbitrary: a) (auto split: if_splits list.splits)
  have "split_on d s = a # b # bs \<Longrightarrow> \<exists>t. s = a @ d # t \<and> d \<notin> set a \<and> split_on d t = b # bs" for s a b bs
    by (induction s arbitrary: a) (fastforce split: if_splits list.splits)+
  from this[of s a b "[c]"] this[of _ b c "[]"] one[of _ c]
  show "split_on d s = [a, b, c] \<Longrightarrow> ?thesis" by blast
qed

lemma nat_digits_value:
  "n \<le> maximum \<Longrightarrow> parse_digits maximum 0 (nat_digits n @ s) = parse_digits maximum n s"
  "nat_digits n \<noteq> [] \<and> set (nat_digits n) \<subseteq> {c. digit_value c \<noteq> None}"
proof (induction n arbitrary: s rule: nat_digits.induct)
  case (1 n)
  have digit: "k < 10 \<Longrightarrow> digit_value (char_of (48 + k)) = Some k" for k :: nat
    by (simp add: digit_value_def)
  {
    case 1
    show ?case
    proof (cases "n < 10")
      case True
      then show ?thesis using digit[of n] 1 by (simp add: nat_digits.simps[of n])
    next
      case False
      have "n div 10 \<le> maximum" using 1 by linarith
      then show ?thesis using False digit[of "n mod 10"] "1.IH"(1)[OF False] 1 by (simp add: nat_digits.simps[of n] Let_def)
    qed
  next
    case 2
    show ?case
    proof (cases "n < 10")
      case True
      then show ?thesis using digit[of n] by (simp add: nat_digits.simps[of n])
    next
      case False
      then show ?thesis using digit[of "n mod 10"] "1.IH"(2)[OF False] by (simp add: nat_digits.simps[of n])
    qed
  }
qed

lemma int_digits_parse:
  assumes "- (2 ^ 63) \<le> n" "n < 2 ^ 63"
  shows "parse_i64 (int_digits n) = Some n" "CHR ''.'' \<notin> set (int_digits n)"
proof -
  have read: "parse_digits m 0 (nat_digits k) = Some k" if "k \<le> m" for k m
    using nat_digits_value(1)[OF that, of "[]"] by simp
  have dots: "CHR ''.'' \<notin> set (nat_digits k)" "CHR ''-'' \<notin> set (nat_digits k)" "CHR ''+'' \<notin> set (nat_digits k)" for k
    using nat_digits_value(2)[of k] by (auto simp: digit_value_def)
  have head: "\<exists>c cs. nat_digits k = c # cs \<and> c \<noteq> CHR ''-'' \<and> c \<noteq> CHR ''+''" for k
    using nat_digits_value(2)[of k] dots(2,3)[of k] by (cases "nat_digits k") auto
  show "CHR ''.'' \<notin> set (int_digits n)" using dots(1) by (simp add: int_digits_def)
  show "parse_i64 (int_digits n) = Some n"
  proof (cases "n < 0")
    case True
    then show ?thesis using read[of "nat (- n)" "2 ^ 63"] nat_digits_value(2)[of "nat (- n)"] assms
      by (simp add: int_digits_def parse_i64_def)
  next
    case False
    obtain c cs where c: "nat_digits (nat n) = c # cs" "c \<noteq> CHR ''-''" "c \<noteq> CHR ''+''" using head by blast
    have "nat n \<le> 2 ^ 63 - 1" using False assms by simp
    from read[OF this] c show ?thesis using False by (simp add: int_digits_def parse_i64_def parse_uint_def Let_def)
  qed
qed

lemma verify_state_iff:
  "verify_state_token L now secret token = None
   \<longleftrightarrow> (\<exists>nonce expiry t. CHR ''.'' \<notin> set nonce \<and> CHR ''.'' \<notin> set expiry \<and> CHR ''.'' \<notin> set (il_hmac L secret (nonce @ ''.'' @ expiry))
        \<and> token = nonce @ ''.'' @ expiry @ ''.'' @ il_hmac L secret (nonce @ ''.'' @ expiry)
        \<and> parse_i64 expiry = Some t \<and> timestamp_secs now \<le> t)" (is "?l \<longleftrightarrow> ?r")
proof
  assume ?l
  then obtain a b c where split: "split_on (CHR ''.'') token = [a, b, c]"
    by (auto simp: verify_state_token_def split: list.splits)
  with \<open>?l\<close> split_on_join[OF split] show ?r
    by (fastforce simp: verify_state_token_def not_less split: option.splits if_splits)
next
  assume ?r
  then show ?l by (auto simp: verify_state_token_def split_on_free split_on_single)
qed

lemma after_last_dot:
  assumes "d \<notin> set x" "d \<notin> set y" "a @ d # x = b @ d # y" shows "x = y"
  using assms by (auto simp: append_eq_append_conv2 append_eq_Cons_conv Cons_eq_append_conv)

text \<open>C24: the state parameter of a callback is accepted only if the gateway made it with its secret and its ten minutes
  are not over: a token made at \<open>t\<close> is accepted up to and including second \<open>t + 600\<close>, and a token that passes is
  made of a nonce and an expiry with their own code, so that under a collision-free code it cannot carry the code
  of another token with a later expiry.\<close>

theorem state_token_exact:
  fixes t :: utc
  assumes "\<And>data. CHR ''.'' \<notin> set (il_hmac L secret data)" "CHR ''.'' \<notin> set nonce" "\<bar>timestamp_secs t\<bar> < 2 ^ 62"
    and "\<And>data. il_hmac L secret data = il_hmac L secret (nonce @ ''.'' @ int_digits (timestamp_secs t + 600))
         \<Longrightarrow> data = nonce @ ''.'' @ int_digits (timestamp_secs t + 600)"
  shows "(verify_state_token L now secret (build_state_token L t nonce secret) = None
           \<longleftrightarrow> timestamp_secs now \<le> timestamp_secs t + 600)
    \<and> (verify_state_token L now secret token = None
        \<and> token = p @ ''.'' @ il_hmac L secret (nonce @ ''.'' @ int_digits (timestamp_secs t + 600))
        \<longrightarrow> token = build_state_token L t nonce secret)"
proof -
  let ?e = "int_digits (timestamp_secs t + 600)"
  have e: "parse_i64 ?e = Some (timestamp_secs t + 600)" "CHR ''.'' \<notin> set ?e"
    using assms(3) by (intro int_digits_parse; simp)+
  have made: "build_state_token L t nonce secret = nonce @ ''.'' @ ?e @ ''.'' @ il_hmac L secret (nonce @ ''.'' @ ?e)"
    by (simp add: build_state_token_def Let_def)
  have "verify_state_token L now secret (build_state_token L t nonce secret) = None
      \<longleftrightarrow> timestamp_secs now \<le> timestamp_secs t + 600"
    unfolding made using assms(1,2) e by (simp add: verify_state_token_def split_on_free split_on_single)
  moreover have "token = build_state_token L t nonce secret"
    if ok: "verify_state_token L now secret token = None" and mac: "token = p @ ''.'' @ il_hmac L secret (nonce @ ''.'' @ ?e)"
  proof -
    obtain n x where "token = (n @ ''.'' @ x) @ ''.'' @ il_hmac L secret (n @ ''.'' @ x)"
      using ok unfolding verify_state_iff by fastforce
    moreover from this mac have "il_hmac L secret (n @ ''.'' @ x) = il_hmac L secret (nonce @ ''.'' @ ?e)"
      by (intro after_last_dot[OF assms(1) assms(1), of "n @ ''.'' @ x" _ p]) simp
    then have "n @ ''.'' @ x = nonce @ ''.'' @ ?e" by (rule assms(4))
    ultimately show ?thesis unfolding made by (metis append.assoc)
  qed
  ultimately show ?thesis by blast
qed

definition demo_oidc_libs :: oidc_libs where
  "demo_oidc_libs = \<lparr>il_parse_url = (\<lambda>u. Some \<lparr>pu_scheme = ''https'', pu_host = Some ''idp''\<rparr>), il_get = (\<lambda>n u b. NoReply),
     il_post = (\<lambda>u f. NoReply), il_discovery = (\<lambda>j. None), il_tokens = (\<lambda>j. None), il_jwks = (\<lambda>j. None),
     il_hmac = (\<lambda>k d. if d = ''ab.700'' then ''1'' else ''0''), il_urlencode = id,
     il_decode_header = (\<lambda>t. None), il_rsa_key = (\<lambda>n e. None), il_decode = (\<lambda>t k a c i. None)\<rparr>"

theorem state_token_exact_witness:
  "verify_state_token demo_oidc_libs (700 * 10 ^ 9) [] (build_state_token demo_oidc_libs (100 * 10 ^ 9) ''ab'' []) = None
   \<and> verify_state_token demo_oidc_libs (701 * 10 ^ 9) [] (build_state_token demo_oidc_libs (100 * 10 ^ 9) ''ab'' []) \<noteq> None"
proof -
  have "int_digits 700 = ''700''" by code_simp
  then have "verify_state_token demo_oidc_libs now [] (build_state_token demo_oidc_libs (100 * 10 ^ 9) ''ab'' []) = None
      \<longleftrightarrow> timestamp_secs now \<le> timestamp_secs (100 * 10 ^ 9) + 600" for now
    by (intro state_token_exact[THEN conjunct1]) (simp_all add: demo_oidc_libs_def timestamp_secs_def split: if_splits)
  then show ?thesis by (simp add: timestamp_secs_def)
qed

section \<open>What a login does to the keys\<close>

lemma provision_key_step:
  "provision_key h now s i n g store =
     ks_create h (case find (\<lambda>k. vk_name k = n) (ks_list store) of Some old \<Rightarrow> fst (ks_delete store (vk_id old)) | None \<Rightarrow> store)
       now s i n None None None [] [] None None None (Some g)"
  by (simp add: provision_key_def Let_def)

lemma ks_delete_get: "ks_get (fst (ks_delete ks i)) j = (if j = i then None else ks_get ks j)"
  by (auto simp: ks_delete_def ks_get_def split: option.splits)

lemma ks_create_fields:
  fixes h ks now s i n d m al dn ips rpm tpm ex g
  defines "vk \<equiv> fst (snd (ks_create h ks now s i n d m al dn ips rpm tpm ex g))"
  shows "vk_name vk = n" "vk_group vk = g" "vk_rpm_limit vk = rpm" "vk_tpm_limit vk = tpm" "vk_allowed_models vk = al"
    "vk_denied_models vk = dn" "vk_allowed_ips vk = ips"
  by (simp_all add: vk_def ks_create_def Let_def)

definition unlimited :: "virtual_key \<Rightarrow> bool" where
  "unlimited vk \<longleftrightarrow> vk_enabled vk \<and> vk_daily_budget_cents vk = None \<and> vk_monthly_budget_cents vk = None
     \<and> vk_rpm_limit vk = None \<and> vk_tpm_limit vk = None \<and> vk_allowed_models vk = None \<and> vk_denied_models vk = []
     \<and> vk_allowed_ips vk = [] \<and> vk_expires_at vk = None \<and> vk_spend vk = no_spend"

lemma provision_key_new:
  assumes "10 \<le> length s" "\<forall>c \<in> set s. (of_char c :: nat) < 128" "ks_get store i = None"
  obtains store' new plaintext where "provision_key h now s i n g store = (store', new, plaintext)"
    "\<And>t today month. validate h store' t today month plaintext = Some new" "vk_name new = n" "vk_group new = Some g" "unlimited new"
    "\<And>j. j \<noteq> i \<Longrightarrow> ks_get store' j = (if \<exists>old. find (\<lambda>k. vk_name k = n) (ks_list store) = Some old \<and> vk_id old = j then None
       else ks_get store j)"
proof -
  let ?st = "case find (\<lambda>k. vk_name k = n) (ks_list store) of Some old \<Rightarrow> fst (ks_delete store (vk_id old)) | None \<Rightarrow> store"
  let ?r = "ks_create h ?st now s i n None None None [] [] None None None (Some g)"
  note get = ks_create_get[of h ?st now s i n None None None "[]" "[]" None None None "Some g"]
  note fields = ks_create_fields[of h ?st now s i n None None None "[]" "[]" None None None "Some g"]
  have "validate h (fst ?r) t today month (snd (snd ?r)) = Some (fst (snd ?r))" for t today month
    using create_then_validate[of s t None None None h today month ?st now i n None "[]" "[]" None None "Some g"] assms(1,2)
    by (simp add: case_prod_beta)
  moreover have "unlimited (fst (snd ?r))" unfolding unlimited_def using get fields by simp
  moreover have "ks_get (fst ?r) j = (if \<exists>old. find (\<lambda>k. vk_name k = n) (ks_list store) = Some old \<and> vk_id old = j then None
       else ks_get store j)" if "j \<noteq> i" for j
    unfolding get(1) using that by (auto simp: ks_delete_get split: option.splits)
  ultimately show ?thesis
    using that[of "fst ?r" "fst (snd ?r)" "snd (snd ?r)"] fields(1,2) by (simp add: provision_key_step)
qed

text \<open>Signing in again gives the user a key that is valid at once and has no limits at all, whatever became of the old
  one: a key that an administrator disabled, limited or let expire, or whose budget is spent, is deleted and replaced,
  and its spend is forgotten. No other key is touched.\<close>

theorem login_lifts_limits:
  assumes "10 \<le> length s" "\<forall>c \<in> set s. (of_char c :: nat) < 128" "ks_get store i = None"
    and "ldap_authenticate L cfg username password = Inr u" "username \<noteq> []" "password \<noteq> []"
  shows "\<exists>store' r new. ldap_login L h now s i (Some cfg) username password store = (store', Inr r)
    \<and> validate h store' t today month (lr_key r) = Some new \<and> vk_name new = ''ldap:'' @ username \<and> unlimited new
    \<and> (\<forall>j. j \<noteq> i \<longrightarrow> ks_get store' j = (if \<exists>old. find (\<lambda>k. vk_name k = ''ldap:'' @ username) (ks_list store) = Some old \<and> vk_id old = j
         then None else ks_get store j))"
proof -
  have u: "au_username u = username"
    using assms(4) by (auto simp: ldap_authenticate_def Let_def split: option.splits sum.splits prod.splits if_splits)
  obtain store' new plaintext where p: "provision_key h now s i (''ldap:'' @ username) (first_group u) store = (store', new, plaintext)"
    "\<And>t today month. validate h store' t today month plaintext = Some new" "vk_name new = ''ldap:'' @ username" "unlimited new"
    "\<And>j. j \<noteq> i \<Longrightarrow> ks_get store' j = (if \<exists>old. find (\<lambda>k. vk_name k = ''ldap:'' @ username) (ks_list store) = Some old \<and> vk_id old = j
       then None else ks_get store j)"
    by (rule provision_key_new[OF assms(1-3), of h now "''ldap:'' @ username" "first_group u"]) (rule that; assumption)
  obtain r where r: "ldap_login L h now s i (Some cfg) username password store = (store', Inr r)" "lr_key r = plaintext"
    using assms(4-6) by (simp add: ldap_login_def u p(1) Let_def del: append.simps)
  show ?thesis
    by (intro exI[of _ store'] exI[of _ r] exI[of _ new] conjI allI impI r(1) p(3,4)) (simp only: r(2) p(2), rule p(5))
qed

definition demo_ldap_libs :: ldap_libs where
  "demo_ldap_libs = \<lparr>ll_parse_url = (\<lambda>u. Some \<lparr>pu_scheme = ''ldaps'', pu_host = Some ''dc01''\<rparr>), ll_connect = (\<lambda>s t u. None),
     ll_simple_bind = (\<lambda>dn pw. Inr (if pw = ''pw'' then 0 else 49, []))\<rparr>"

definition demo_disabled_key :: virtual_key where
  "demo_disabled_key = (fst (snd (ks_create id ks_new 0 ''0123456789'' 1 ''ldap:bob'' (Some 5) None None [] [] None None None None)))\<lparr>vk_enabled := False\<rparr>"

theorem login_lifts_limits_witness:
  "let store = \<lparr>ks_keys = [(1, demo_disabled_key)], ks_prefix_index = [(vk_key_prefix demo_disabled_key, 1)]\<rparr>
   in \<exists>store' r new. ldap_login demo_ldap_libs id 0 ''abcdefabcdef'' 2 (Some demo_ldap) ''bob'' ''pw'' store = (store', Inr r)
      \<and> validate id store' 7 [] [] (lr_key r) = Some new \<and> unlimited new \<and> ks_get store' 1 = None
      \<and> validate id store 7 [] [] ''ms-vk-0123456789'' = None"
proof -
  let ?store = "\<lparr>ks_keys = [(1, demo_disabled_key)], ks_prefix_index = [(vk_key_prefix demo_disabled_key, 1)]\<rparr>"
  have auth: "ldap_authenticate demo_ldap_libs demo_ldap ''bob'' ''pw''
      = Inr \<lparr>au_id = build_bind_dn demo_ldap ''bob'', au_username = ''bob'', au_email = None, au_groups = [''ldap''], au_source = Ldap\<rparr>"
    by (simp add: ldap_authenticate_def demo_ldap_libs_def demo_ldap_def validate_tls_requirement_def Let_def)
  have old: "vk_name demo_disabled_key = ''ldap:bob''" "vk_id demo_disabled_key = 1" "\<not> vk_enabled demo_disabled_key"
    by (simp_all add: demo_disabled_key_def ks_create_def Let_def)
  have "ks_get ?store 2 = None" "find (\<lambda>k. vk_name k = ''ldap:'' @ ''bob'') (ks_list ?store) = Some demo_disabled_key"
    by (simp_all add: ks_get_def ks_list_def hm_values_def old)
  moreover have "validate id ?store 7 [] [] ''ms-vk-0123456789'' = None"
    by (simp add: validate_def old split: option.splits)
  ultimately show ?thesis
    using login_lifts_limits[of "''abcdefabcdef''" ?store 2 demo_ldap_libs demo_ldap "''bob''" "''pw''" _ id 0 7 "[]" "[]", OF _ _ _ auth]
    by (fastforce simp: Let_def old)
qed

section \<open>Who gets a key from an OIDC callback\<close>

definition same_host :: "oidc_libs \<Rightarrow> oidc_config \<Rightarrow> string \<Rightarrow> bool" where
  "same_host L cfg url \<longleftrightarrow> (\<exists>u v. il_parse_url L url = Some u \<and> il_parse_url L (oc_issuer cfg) = Some v
     \<and> pu_host u = Some (case pu_host v of Some h \<Rightarrow> h | None \<Rightarrow> []))"

lemma discover_hosts:
  assumes "discover L n cfg = Inr doc"
  shows "same_host L cfg (dd_token_endpoint doc) \<and> (\<forall>url. dd_userinfo_endpoint doc = Some url \<longrightarrow> same_host L cfg url)"
  using assms by (auto simp: discover_def validate_endpoint_host_def same_host_def Let_def split: sum.splits option.splits if_splits)

lemma fetched_Inr: "fetched err reply decode = Inr x \<Longrightarrow> \<exists>status j. reply = HttpStatus status (Some j) \<and> is_success status \<and> decode j = Some x"
  by (auto simp: fetched_def split: http_reply.splits if_splits option.splits)

text \<open>
  Where the claims a key is issued for come from, read off the provider's answers. The provider \<open>announces\<close> a
  discovery document under the issuer's address. The code of the callback is \<open>redeemed\<close> for an access token and an identity
  token at its token endpoint, which is on the host of the issuer. An identity token is \<open>signed\<close> when the token library
  accepts it with an RSA key of the key set the provider announces, the one the token's header names if it names one, for
  this client and this issuer. Without an identity token the claims are what the user information endpoint on the host
  of the issuer answers to the access token.
\<close>

definition announces :: "oidc_libs \<Rightarrow> nat \<Rightarrow> oidc_config \<Rightarrow> discovery_document \<Rightarrow> bool" where
  "announces L n cfg doc \<longleftrightarrow>
     (\<exists>status j. il_get L n (trim_slashes (oc_issuer cfg) @ ''/.well-known/openid-configuration'') None = HttpStatus status (Some j)
        \<and> is_success status \<and> il_discovery L j = Some doc)"

definition redeemed :: "oidc_libs \<Rightarrow> oidc_config \<Rightarrow> string \<Rightarrow> string \<Rightarrow> string option \<Rightarrow> bool" where
  "redeemed L cfg code access id_token \<longleftrightarrow>
     (\<exists>doc form status j rest. announces L 0 cfg doc \<and> same_host L cfg (dd_token_endpoint doc)
        \<and> (''code'', code) \<in> set form \<and> (''client_id'', oc_client_id cfg) \<in> set form
        \<and> il_post L (dd_token_endpoint doc) form = HttpStatus status (Some j) \<and> is_success status
        \<and> il_tokens L j = Some (access, id_token, rest))"

definition signed_claims :: "oidc_libs \<Rightarrow> oidc_config \<Rightarrow> string \<Rightarrow> json \<Rightarrow> bool" where
  "signed_claims L cfg token claims \<longleftrightarrow>
     (\<exists>doc status j keys key n e k kid alg. announces L 1 cfg doc
        \<and> il_get L 2 (dd_jwks_uri doc) None = HttpStatus status (Some j) \<and> is_success status
        \<and> il_jwks L j = Some keys \<and> key \<in> set keys
        \<and> jwk_kty key = ''RSA'' \<and> jwk_n key = Some n \<and> jwk_e key = Some e \<and> il_rsa_key L n e = Some k
        \<and> il_decode_header L token = Some (kid, alg) \<and> kid \<in> {None, jwk_kid key}
        \<and> il_decode L token k alg (oc_client_id cfg) (oc_issuer cfg) = Some claims)"

definition user_info_claims :: "oidc_libs \<Rightarrow> oidc_config \<Rightarrow> string \<Rightarrow> json \<Rightarrow> bool" where
  "user_info_claims L cfg access claims \<longleftrightarrow>
     (\<exists>doc url status. announces L 1 cfg doc \<and> dd_userinfo_endpoint doc = Some url \<and> same_host L cfg url
        \<and> il_get L 2 url (Some access) = HttpStatus status (Some claims) \<and> is_success status)"

definition vouched :: "oidc_libs \<Rightarrow> oidc_config \<Rightarrow> string \<Rightarrow> json \<Rightarrow> bool" where
  "vouched L cfg code claims \<longleftrightarrow>
     (\<exists>access id_token. redeemed L cfg code access id_token
        \<and> (case id_token of Some token \<Rightarrow> signed_claims L cfg token claims | None \<Rightarrow> user_info_claims L cfg access claims))"

lemma discover_announced: "discover L n cfg = Inr doc \<Longrightarrow> announces L n cfg doc"
  unfolding discover_def announces_def
  by (auto simp: Let_def split: sum.splits option.splits dest!: fetched_Inr)

lemma exchange_code_redeemed:
  assumes "exchange_code L cfg code = Inr tokens"
  shows "redeemed L cfg code (tk_access_token tokens) (tk_id_token tokens)"
proof -
  obtain doc where doc: "discover L 0 cfg = Inr doc" using assms by (auto simp: exchange_code_def split: sum.splits)
  define form where "form = [(''grant_type'', ''authorization_code''), (''code'', code), (''redirect_uri'', oc_redirect_uri cfg),
     (''client_id'', oc_client_id cfg)] @ (case oc_client_secret cfg of Some secret \<Rightarrow> [(''client_secret'', secret)] | None \<Rightarrow> [])"
  obtain access id_token rest where f: "fetched TokenExchange (il_post L (dd_token_endpoint doc) form) (il_tokens L) = Inr (access, id_token, rest)"
    and t: "tk_access_token tokens = access" "tk_id_token tokens = id_token"
    using assms doc by (auto simp: exchange_code_def Let_def form_def split: sum.splits)
  from fetched_Inr[OF f] obtain status j where
    "il_post L (dd_token_endpoint doc) form = HttpStatus status (Some j)" "is_success status" "il_tokens L j = Some (access, id_token, rest)"
    by blast
  moreover have "(''code'', code) \<in> set form" "(''client_id'', oc_client_id cfg) \<in> set form" by (simp_all add: form_def)
  ultimately show ?thesis
    using discover_announced[OF doc] discover_hosts[OF doc] unfolding redeemed_def t by blast
qed

lemma verify_id_token_signed:
  assumes "verify_id_token L 1 cfg token = Inr claims"
  shows "signed_claims L cfg token claims"
proof -
  obtain doc kid alg keys key k where doc: "discover L 1 cfg = Inr doc" and h: "il_decode_header L token = Some (kid, alg)"
    and keys: "fetched DiscoveryError (il_get L 2 (dd_jwks_uri doc) None) (il_jwks L) = Inr keys"
    and key: "matching_key kid keys = Some key" "rsa_key L key = Inr k"
    and claims: "il_decode L token k alg (oc_client_id cfg) (oc_issuer cfg) = Some claims"
    using assms by (auto simp: verify_id_token_def numeral_2_eq_2 split: sum.splits option.splits prod.splits)
  have "key \<in> set keys" "kid \<in> {None, jwk_kid key}"
    using key(1) unfolding matching_key_def by (cases kid; auto simp: find_Some_iff)+
  moreover obtain n e where "jwk_kty key = ''RSA''" "jwk_n key = Some n" "jwk_e key = Some e" "il_rsa_key L n e = Some k"
    using key(2) by (auto simp: rsa_key_def split: if_splits option.splits)
  ultimately show ?thesis
    using discover_announced[OF doc] fetched_Inr[OF keys] h claims unfolding signed_claims_def by blast
qed

lemma map_sum_Inr: "map_sum f g x = Inr y \<longleftrightarrow> (\<exists>z. x = Inr z \<and> y = g z)"
  by (cases x) auto

lemma user_info_vouched:
  assumes "exchange_code L cfg code = Inr tokens" "extract_user_info L 1 cfg tokens = Inr u"
  shows "\<exists>claims. vouched L cfg code claims \<and> u = claims_to_user_info claims"
proof (cases "tk_id_token tokens")
  case (Some token)
  then obtain claims where "verify_id_token L 1 cfg token = Inr claims" "u = claims_to_user_info claims"
    using assms(2) by (auto simp: extract_user_info_def map_sum_Inr)
  then show ?thesis
    using verify_id_token_signed exchange_code_redeemed[OF assms(1)] Some unfolding vouched_def by fastforce
next
  case None
  then obtain doc url claims where doc: "discover L 1 cfg = Inr doc" "dd_userinfo_endpoint doc = Some url"
    "fetched UserInfo (il_get L 2 url (Some (tk_access_token tokens))) Some = Inr claims" "u = claims_to_user_info claims"
    using assms(2) by (auto simp: extract_user_info_def map_sum_Inr numeral_2_eq_2 split: sum.splits option.splits if_splits)
  moreover have "same_host L cfg url" using discover_hosts[OF doc(1)] doc(2) by blast
  ultimately have "user_info_claims L cfg (tk_access_token tokens) claims"
    using fetched_Inr[OF doc(3)] discover_announced[OF doc(1)] unfolding user_info_claims_def by auto
  then show ?thesis
    using exchange_code_redeemed[OF assms(1)] None doc(4) unfolding vouched_def by fastforce
qed

lemma callback_vouched:
  assumes "oidc_callback L h now s i config secret params store = (store', answer)"
  shows "(case answer of
      Inl e \<Rightarrow> store' = store
    | Inr r \<Rightarrow> \<exists>cfg claims. config = Some cfg \<and> cb_error params = None \<and> verify_state_token L now secret (cb_state params) = None
        \<and> vouched L cfg (cb_code params) claims \<and> lr_username r = au_username (claims_to_user_info claims)
        \<and> (\<exists>new. provision_key h now s i (''oidc:'' @ lr_username r) [] store = (store', new, lr_key r)))"
proof (cases "\<exists>cfg. config = Some cfg \<and> cb_error params = None \<and> verify_state_token L now secret (cb_state params) = None
    \<and> oidc_new L cfg = None")
  case False
  then show ?thesis using assms by (auto simp: oidc_callback_def split: option.splits if_splits)
next
  case True
  then obtain cfg where cfg: "config = Some cfg" "cb_error params = None" "verify_state_token L now secret (cb_state params) = None"
    "oidc_new L cfg = None" by blast
  note callback = assms[unfolded oidc_callback_def, simplified cfg option.simps]
  show ?thesis
  proof (cases "\<exists>tokens u. exchange_code L cfg (cb_code params) = Inr tokens \<and> extract_user_info L 1 cfg tokens = Inr u")
    case False
    then show ?thesis using callback by (auto split: sum.splits)
  next
    case True
    then obtain tokens u where u: "exchange_code L cfg (cb_code params) = Inr tokens" "extract_user_info L 1 cfg tokens = Inr u" by blast
    obtain claims where claims: "vouched L cfg (cb_code params) claims" "u = claims_to_user_info claims"
      using user_info_vouched[OF u] by blast
    obtain st new plaintext where p: "provision_key h now s i (''oidc:'' @ au_username u) (first_group u) store = (st, new, plaintext)"
      by (rule prod_cases3)
    have "first_group u = []" by (simp add: claims(2) claims_to_user_info_def Let_def first_group_def)
    with callback u p claims cfg show ?thesis by (auto simp: Let_def)
  qed
qed

text \<open>C25: a callback that issues a key carried a valid state token, and the key is named after claims the provider vouched
  for: the code of this callback was redeemed at the provider's token endpoint, and the claims are those of the identity
  token obtained for it, which verifies with a key of the provider's own key set for this client and issuer, or, when there
  is none, the answer of the provider's user information endpoint to the access token obtained for it. A callback that
  fails changes no key.\<close>

theorem oidc_key_needs_provider:
  "case oidc_callback L h now s i config secret params store of
     (store', Inl e) \<Rightarrow> store' = store
   | (store', Inr r) \<Rightarrow> \<exists>cfg claims. config = Some cfg \<and> cb_error params = None
       \<and> verify_state_token L now secret (cb_state params) = None \<and> vouched L cfg (cb_code params) claims
       \<and> lr_username r = au_username (claims_to_user_info claims)
       \<and> (\<exists>new. provision_key h now s i (''oidc:'' @ lr_username r) [] store = (store', new, lr_key r))"
  using callback_vouched[of L h now s i config secret params store] by (auto split: prod.splits sum.splits)

text \<open>A provider with one key, and a callback it completes.\<close>

definition demo_idp :: oidc_libs where
  "demo_idp = demo_oidc_libs\<lparr>
     il_get := (\<lambda>n u b. HttpStatus 200 (Some (JStr (if u = ''i/.well-known/openid-configuration'' then ''doc'' else ''keys'')))),
     il_post := (\<lambda>u f. HttpStatus 200 (Some JNull)),
     il_discovery := (\<lambda>j. Some \<lparr>dd_authorization_endpoint = [], dd_token_endpoint = ''t'', dd_jwks_uri = ''k'', dd_userinfo_endpoint = None\<rparr>),
     il_tokens := (\<lambda>j. Some (''access'', Some ''token'', None, None, None)),
     il_jwks := (\<lambda>j. Some [\<lparr>jwk_kid = Some ''1'', jwk_kty = ''RSA'', jwk_n = Some ''n'', jwk_e = Some ''e''\<rparr>]),
     il_decode_header := (\<lambda>t. Some (Some ''1'', ''RS256'')), il_rsa_key := (\<lambda>n e. Some (n @ e)),
     il_decode := (\<lambda>t k a c i. if t = ''token'' \<and> k = ''ne'' then Some (JObj [(''sub'', JStr ''ann'')]) else None)\<rparr>"

definition demo_oidc :: oidc_config where
  "demo_oidc = \<lparr>oc_issuer = ''i'', oc_client_id = ''c'', oc_client_secret = None, oc_redirect_uri = ''r'', oc_scopes = []\<rparr>"

definition demo_callback :: callback_params where
  "demo_callback = \<lparr>cb_code = ''code'', cb_state = ''ab.700.1'', cb_error = None\<rparr>"

lemma demo_callback_issues:
  "\<exists>store' r. oidc_callback demo_idp id 0 ''abcdefabcdef'' 2 (Some demo_oidc) [] demo_callback ks_new = (store', Inr r)
     \<and> lr_username r = ''ann''"
proof -
  have "split_on CHR ''.'' ''ab.700.1'' = [''ab'', ''700'', ''1'']" by code_simp
  moreover have "int_digits 700 = ''700''" by code_simp
  then have "parse_i64 ''700'' = Some 700" using int_digits_parse(1)[of 700] by simp
  ultimately have state: "split_on CHR ''.'' ''ab.700.1'' = [''ab'', ''700'', ''1'']" "parse_i64 ''700'' = Some 700" .
  have "verify_state_token demo_idp 0 [] ''ab.700.1'' = None"
    by (simp add: verify_state_token_def state demo_idp_def demo_oidc_libs_def timestamp_secs_def)
  moreover have "oidc_new demo_idp demo_oidc = None" by (simp add: oidc_new_def demo_idp_def demo_oidc_libs_def)
  moreover have trim: "trim_slashes ''i'' = ''i''" by code_simp
  have disc: "discover demo_idp n demo_oidc = Inr \<lparr>dd_authorization_endpoint = [], dd_token_endpoint = ''t'', dd_jwks_uri = ''k'', dd_userinfo_endpoint = None\<rparr>" for n
    by (simp add: discover_def demo_idp_def demo_oidc_libs_def demo_oidc_def trim fetched_def is_success_def validate_endpoint_host_def Let_def)
  have "exchange_code demo_idp demo_oidc ''code'' = Inr \<lparr>tk_access_token = ''access'', tk_id_token = Some ''token'',
      tk_token_type = ''Bearer'', tk_expires_in = None, tk_refresh_token = None\<rparr>"
    by (simp add: exchange_code_def disc) (simp add: demo_idp_def fetched_def is_success_def Let_def)
  moreover have "verify_id_token demo_idp 1 demo_oidc ''token'' = Inr (JObj [(''sub'', JStr ''ann'')])"
    by (simp add: verify_id_token_def disc)
      (simp add: demo_idp_def fetched_def is_success_def matching_key_def rsa_key_def)
  ultimately show ?thesis
    by (simp add: oidc_callback_def demo_callback_def extract_user_info_def claims_to_user_info_def claim_def json_as_str_def
        Let_def case_prod_unfold)
qed

lemma oidc_key_needs_provider_witness:
  "\<exists>store' r claims. oidc_callback demo_idp id 0 ''abcdefabcdef'' 2 (Some demo_oidc) [] demo_callback ks_new = (store', Inr r)
     \<and> lr_username r = ''ann'' \<and> vouched demo_idp demo_oidc ''code'' claims"
proof -
  obtain store' r where c: "oidc_callback demo_idp id 0 ''abcdefabcdef'' 2 (Some demo_oidc) [] demo_callback ks_new = (store', Inr r)"
    "lr_username r = ''ann''" using demo_callback_issues by blast
  then show ?thesis
    using oidc_key_needs_provider[where L = demo_idp and h = id and now = 0 and s = "''abcdefabcdef''" and i = 2
        and config = "Some demo_oidc" and secret = "[]" and params = demo_callback and store = ks_new]
    by (auto simp: demo_callback_def)
qed

text \<open>The host of the key set is never compared with that of the issuer: whatever address a discovery document gives for
  it, the document is accepted all the same.\<close>

theorem key_set_address_unchecked:
  "discover (L\<lparr>il_discovery := \<lambda>j. map_option (dd_jwks_uri_update f) (il_discovery L j)\<rparr>) n cfg
   = map_sum id (dd_jwks_uri_update f) (discover L n cfg)"
  by (auto simp: discover_def fetched_def validate_endpoint_host_def Let_def split: http_reply.splits option.splits)

end
