(* ===== verification/Admin_Keys.thy ===== *)
theory Admin_Keys
  imports Identity Middleware
begin

text \<open>
  The admin handlers for virtual keys (\<open>admin/virtual_keys.rs\<close> and its \<open>crud.rs\<close>, \<open>batch.rs\<close>, \<open>groups.rs\<close>), for
  provider budgets (\<open>admin/provider_budgets.rs\<close>), the self-service portal (\<open>admin/portal.rs\<close>) and the usage report
  (\<open>admin/reports.rs\<close>). Lower-casing of Unicode text, dates and the printing of ids are arguments; the file behind
  the key store is the list of keys last written to it.
\<close>

section \<open>Keys\<close>

record create_key_request =
  ck_name :: string
  ck_daily_budget_cents :: "u64 option"
  ck_monthly_budget_cents :: "u64 option"
  ck_allowed_models :: "string list option"
  ck_denied_models :: "string list"
  ck_allowed_ips :: "string list option"
  ck_rpm_limit :: "u32 option"
  ck_tpm_limit :: "u32 option"
  ck_expires_at :: "utc option"
  ck_group :: "string option"

record virtual_key_response =
  vr_id :: uuid
  vr_name :: string
  vr_key_prefix :: string
  vr_daily_budget_cents :: "u64 option"
  vr_monthly_budget_cents :: "u64 option"
  vr_enabled :: bool
  vr_created_at :: utc
  vr_spend :: virtual_key_spend
  vr_allowed_models :: "string list option"
  vr_denied_models :: "string list"
  vr_allowed_ips :: "string list"
  vr_rpm_limit :: "u32 option"
  vr_tpm_limit :: "u32 option"
  vr_expires_at :: "utc option"
  vr_group :: "string option"

definition key_response :: "virtual_key \<Rightarrow> virtual_key_response" where
  "key_response k =
     \<lparr>vr_id = vk_id k, vr_name = vk_name k, vr_key_prefix = vk_key_prefix k,
      vr_daily_budget_cents = vk_daily_budget_cents k, vr_monthly_budget_cents = vk_monthly_budget_cents k,
      vr_enabled = vk_enabled k, vr_created_at = vk_created_at k, vr_spend = vk_spend k,
      vr_allowed_models = vk_allowed_models k, vr_denied_models = vk_denied_models k, vr_allowed_ips = vk_allowed_ips k,
      vr_rpm_limit = vk_rpm_limit k, vr_tpm_limit = vk_tpm_limit k, vr_expires_at = vk_expires_at k, vr_group = vk_group k\<rparr>"

definition MAX_PAGE_LIMIT :: u32 where "MAX_PAGE_LIMIT = 200"
definition DEFAULT_PAGE_LIMIT :: u32 where "DEFAULT_PAGE_LIMIT = 50"

record list_keys_params =
  lp_page :: u32
  lp_limit :: u32
  lp_search :: "string option"
  lp_group :: "string option"

record list_keys_response =
  ls_data :: "virtual_key_response list"
  ls_total :: nat
  ls_page :: u32
  ls_limit :: u32

definition listed_keys :: "(string \<Rightarrow> string) \<Rightarrow> string option \<Rightarrow> string option \<Rightarrow> virtual_key list \<Rightarrow> virtual_key list" where
  "listed_keys lower search grp keys =
     (let keys = (case search of Some s \<Rightarrow> filter (\<lambda>k. starts_with (lower (vk_name k)) (lower s)) keys | None \<Rightarrow> keys)
      in case grp of Some g \<Rightarrow> filter (\<lambda>k. vk_group k = Some g) keys | None \<Rightarrow> keys)"

definition page_limit :: "u32 \<Rightarrow> u32" where
  "page_limit n = min (max n 1) MAX_PAGE_LIMIT"

definition list_virtual_keys :: "(string \<Rightarrow> string) \<Rightarrow> list_keys_params \<Rightarrow> key_store \<Rightarrow> list_keys_response" where
  "list_virtual_keys lower params store =
     (let page = max (lp_page params) 1;
          limit = page_limit (lp_limit params);
          keys = listed_keys lower (lp_search params) (lp_group params) (ks_list store);
          total = length keys;
          offset = min (unat (page - 1) * unat limit) total
      in \<lparr>ls_data = map key_response (take (unat limit) (drop offset keys)), ls_total = total, ls_page = page, ls_limit = limit\<rparr>)"

text \<open>The store with the content of its file; a write that fails (\<open>written\<close> false) is logged only.\<close>

record saved_keys =
  sk_store :: key_store
  sk_file :: "virtual_key list"

definition persist_virtual_keys :: "bool \<Rightarrow> saved_keys \<Rightarrow> saved_keys" where
  "persist_virtual_keys written st = (if written then st\<lparr>sk_file := ks_list (sk_store st)\<rparr> else st)"

definition budgets_inverted :: "u64 option \<Rightarrow> u64 option \<Rightarrow> bool" where
  "budgets_inverted daily monthly = (case (daily, monthly) of (Some d, Some m) \<Rightarrow> m < d | _ \<Rightarrow> False)"

definition create_virtual_key ::
  "(string \<Rightarrow> string) \<Rightarrow> utc \<Rightarrow> string \<Rightarrow> uuid \<Rightarrow> bool \<Rightarrow> create_key_request \<Rightarrow> saved_keys
     \<Rightarrow> saved_keys \<times> (nat \<times> string + virtual_key_response \<times> string)" where
  "create_virtual_key sha256 now uuid_simple i written req st =
     (if trim (ck_name req) = [] then (st, Inl (400, ''Name is required''))
      else if budgets_inverted (ck_daily_budget_cents req) (ck_monthly_budget_cents req)
      then (st, Inl (400, ''Monthly budget must be >= daily budget''))
      else let (store, vk, plaintext) =
                 ks_create sha256 (sk_store st) now uuid_simple i (ck_name req) (ck_daily_budget_cents req)
                   (ck_monthly_budget_cents req) (ck_allowed_models req) (ck_denied_models req)
                   (case ck_allowed_ips req of Some ips \<Rightarrow> ips | None \<Rightarrow> []) (ck_rpm_limit req) (ck_tpm_limit req)
                   (ck_expires_at req) (ck_group req)
           in (persist_virtual_keys written (st\<lparr>sk_store := store\<rparr>), Inr (key_response vk, plaintext)))"

text \<open>Reading an update from its JSON body: an absent field is the default \<open>None\<close>, and serde reads \<open>null\<close> as the outer
  \<open>None\<close> of an \<open>Option\<close>. \<open>bad\<close> requests are refused before the handler runs (422).\<close>

definition opt_field :: "(json \<Rightarrow> 'a option) \<Rightarrow> json \<Rightarrow> string \<Rightarrow> 'a option option" where
  "opt_field decode body k =
     (case json_get body k of None \<Rightarrow> Some None | Some JNull \<Rightarrow> Some None | Some v \<Rightarrow> map_option Some (decode v))"

definition nested_option :: "(json \<Rightarrow> 'a option) \<Rightarrow> json \<Rightarrow> 'a option option" where
  "nested_option decode v = (case v of JNull \<Rightarrow> Some None | _ \<Rightarrow> map_option Some (decode v))"

definition json_as_u32 :: "json \<Rightarrow> u32 option" where
  "json_as_u32 v = (case v of JInt n \<Rightarrow> if 0 \<le> n \<and> n < 2 ^ 32 then Some (of_int n) else None | _ \<Rightarrow> None)"

definition json_strings :: "json \<Rightarrow> string list option" where
  "json_strings v = Option.bind (json_as_array v) (\<lambda>xs. if \<forall>x \<in> set xs. json_as_str x \<noteq> None
     then Some (List.map_filter json_as_str xs) else None)"

definition read_update :: "(string \<Rightarrow> utc option) \<Rightarrow> json \<Rightarrow> key_update option" where
  "read_update parse_time body =
     Option.bind (opt_field json_as_str body ''name'') (\<lambda>name.
     Option.bind (opt_field (nested_option json_as_u64) body ''daily_budget_cents'') (\<lambda>daily.
     Option.bind (opt_field (nested_option json_as_u64) body ''monthly_budget_cents'') (\<lambda>monthly.
     Option.bind (opt_field json_as_bool body ''enabled'') (\<lambda>enabled.
     Option.bind (opt_field (nested_option json_strings) body ''allowed_models'') (\<lambda>allowed.
     Option.bind (opt_field json_strings body ''denied_models'') (\<lambda>denied.
     Option.bind (opt_field json_strings body ''allowed_ips'') (\<lambda>ips.
     Option.bind (opt_field (nested_option json_as_u32) body ''rpm_limit'') (\<lambda>rpm.
     Option.bind (opt_field (nested_option json_as_u32) body ''tpm_limit'') (\<lambda>tpm.
     Option.bind (opt_field (nested_option (\<lambda>v. Option.bind (json_as_str v) parse_time)) body ''expires_at'') (\<lambda>expires.
     Option.bind (opt_field (nested_option json_as_str) body ''group'') (\<lambda>grp.
     Some \<lparr>up_name = name, up_daily = daily, up_monthly = monthly, up_enabled = enabled, up_allowed = allowed,
           up_denied = denied, up_ips = ips, up_rpm = rpm, up_tpm = tpm, up_expires = expires, up_group = grp\<rparr>)))))))))))"

definition update_virtual_key :: "bool \<Rightarrow> uuid \<Rightarrow> key_update \<Rightarrow> saved_keys \<Rightarrow> saved_keys \<times> (nat \<times> string + virtual_key_response)" where
  "update_virtual_key written i req st =
     (case ks_update (sk_store st) i req of
        (store, None) \<Rightarrow> (st\<lparr>sk_store := store\<rparr>, Inl (404, ''Virtual key not found''))
      | (store, Some updated) \<Rightarrow> (persist_virtual_keys written (st\<lparr>sk_store := store\<rparr>), Inr (key_response updated)))"

definition delete_virtual_key :: "bool \<Rightarrow> uuid \<Rightarrow> saved_keys \<Rightarrow> saved_keys \<times> (nat \<times> string + unit)" where
  "delete_virtual_key written i st =
     (case ks_delete (sk_store st) i of
        (store, True) \<Rightarrow> (persist_virtual_keys written (st\<lparr>sk_store := store\<rparr>), Inr ())
      | (store, False) \<Rightarrow> (st\<lparr>sk_store := store\<rparr>, Inl (404, ''Virtual key not found'')))"

section \<open>Keys in bulk\<close>

record batch_key_request =
  bk_count :: u32
  bk_name_prefix :: string
  bk_daily_budget_cents :: "u64 option"
  bk_monthly_budget_cents :: "u64 option"
  bk_allowed_models :: "string list option"
  bk_allowed_ips :: "string list"
  bk_rpm_limit :: "u32 option"
  bk_tpm_limit :: "u32 option"
  bk_expires_at :: "utc option"
  bk_group :: "string option"

definition MAX_BATCH :: u32 where "MAX_BATCH = 500"

text \<open>\<open>format!("{:0width$}")\<close>.\<close>

definition zero_padded :: "nat \<Rightarrow> nat \<Rightarrow> string" where
  "zero_padded width n = replicate (width - length (nat_digits n)) (CHR ''0'') @ nat_digits n"

definition batch_name :: "batch_key_request \<Rightarrow> nat \<Rightarrow> string" where
  "batch_name req i = bk_name_prefix req @ ''-'' @ zero_padded (max (length (nat_digits (unat (bk_count req)))) 3) i"

text \<open>\<open>draw i\<close> are the random values of the \<open>i\<close>-th key, and \<open>clock i\<close> the time it is made.\<close>

definition batch_create_one ::
  "(string \<Rightarrow> string) \<Rightarrow> (nat \<Rightarrow> utc) \<Rightarrow> (nat \<Rightarrow> string \<times> uuid) \<Rightarrow> batch_key_request \<Rightarrow> nat
     \<Rightarrow> key_store \<times> (virtual_key_response \<times> string) list \<Rightarrow> key_store \<times> (virtual_key_response \<times> string) list" where
  "batch_create_one sha256 clock draw req i = (\<lambda>(store, created).
     let (store, vk, plaintext) =
           ks_create sha256 store (clock i) (fst (draw i)) (snd (draw i)) (batch_name req i) (bk_daily_budget_cents req)
             (bk_monthly_budget_cents req) (bk_allowed_models req) [] (bk_allowed_ips req) (bk_rpm_limit req)
             (bk_tpm_limit req) (bk_expires_at req) (bk_group req)
     in (store, created @ [(key_response vk, plaintext)]))"

definition batch_create_virtual_keys ::
  "(string \<Rightarrow> string) \<Rightarrow> (nat \<Rightarrow> utc) \<Rightarrow> (nat \<Rightarrow> string \<times> uuid) \<Rightarrow> bool \<Rightarrow> batch_key_request \<Rightarrow> saved_keys
     \<Rightarrow> saved_keys \<times> (nat \<times> string + (virtual_key_response \<times> string) list)" where
  "batch_create_virtual_keys sha256 clock draw written req st =
     (if trim (bk_name_prefix req) = [] then (st, Inl (400, ''name_prefix is required''))
      else if bk_count req = 0 then (st, Inl (400, ''count must be at least 1''))
      else if MAX_BATCH < bk_count req then (st, Inl (400, ''count must not exceed 500''))
      else if budgets_inverted (bk_daily_budget_cents req) (bk_monthly_budget_cents req)
      then (st, Inl (400, ''Monthly budget must be >= daily budget''))
      else let (store, created) = fold (batch_create_one sha256 clock draw req) [1..<unat (bk_count req) + 1] (sk_store st, [])
           in (persist_virtual_keys written (st\<lparr>sk_store := store\<rparr>), Inr created))"

section \<open>Groups\<close>

record group_summary =
  gs_group :: string
  gs_key_count :: nat
  gs_daily_spent_cents :: u64
  gs_monthly_spent_cents :: u64

definition group_of :: "virtual_key \<Rightarrow> string option" where
  "group_of k = (case vk_group k of Some g \<Rightarrow> if trim g = [] then None else Some g | None \<Rightarrow> None)"

definition key_spent_today :: "string \<Rightarrow> virtual_key \<Rightarrow> u64" where
  "key_spent_today today k = (if ds_date (sp_today (vk_spend k)) = today then ds_cents (sp_today (vk_spend k)) else 0)"

definition key_spent_this_month :: "string \<Rightarrow> virtual_key \<Rightarrow> u64" where
  "key_spent_this_month month k =
     (if ms_month (sp_this_month (vk_spend k)) = month then ms_cents (sp_this_month (vk_spend k)) else 0)"

definition add_to_group :: "string \<Rightarrow> string \<Rightarrow> virtual_key \<Rightarrow> group_summary \<Rightarrow> group_summary" where
  "add_to_group today month k e =
     e\<lparr>gs_key_count := gs_key_count e + 1, gs_daily_spent_cents := gs_daily_spent_cents e + key_spent_today today k,
       gs_monthly_spent_cents := gs_monthly_spent_cents e + key_spent_this_month month k\<rparr>"

definition group_buckets :: "string \<Rightarrow> string \<Rightarrow> virtual_key list \<Rightarrow> (string \<times> group_summary) list" where
  "group_buckets today month keys =
     foldl (\<lambda>m k. case group_of k of
         None \<Rightarrow> m
       | Some g \<Rightarrow> bt_upsert g \<lparr>gs_group = g, gs_key_count = 0, gs_daily_spent_cents = 0, gs_monthly_spent_cents = 0\<rparr>
                     (add_to_group today month k) m) [] keys"

definition list_virtual_key_groups :: "string \<Rightarrow> string \<Rightarrow> key_store \<Rightarrow> group_summary list" where
  "list_virtual_key_groups today month store = map snd (group_buckets today month (ks_list store))"

section \<open>Provider budgets\<close>

record provider_budget_response =
  pr_provider :: string
  pr_daily_budget_cents :: "u64 option"
  pr_monthly_budget_cents :: "u64 option"
  pr_spend :: virtual_key_spend

definition list_provider_budgets :: "provider_budget_store \<Rightarrow> provider_budget_response list" where
  "list_provider_budgets s =
     (let rows = map (\<lambda>(p, c). \<lparr>pr_provider = p, pr_daily_budget_cents = pb_daily_budget_cents c,
                    pr_monthly_budget_cents = pb_monthly_budget_cents c,
                    pr_spend = (case hm_get (pb_spend s) p of Some sp \<Rightarrow> sp | None \<Rightarrow> no_spend)\<rparr>) (pb_configs s);
          others = filter (\<lambda>(p, sp). \<not> list_ex (\<lambda>(q, _). q = p) (pb_configs s)) (pb_spend s)
      in sort_key pr_provider (rows @ map (\<lambda>(p, sp). \<lparr>pr_provider = p, pr_daily_budget_cents = None,
           pr_monthly_budget_cents = None, pr_spend = sp\<rparr>) others))"

definition set_provider_budget ::
  "string \<Rightarrow> u64 option \<Rightarrow> u64 option \<Rightarrow> provider_budget_store \<Rightarrow> provider_budget_store \<times> (nat \<times> string + provider_budget_response)" where
  "set_provider_budget p daily monthly s =
     (if trim p = [] then (s, Inl (400, ''Provider name is required''))
      else if budgets_inverted daily monthly then (s, Inl (400, ''Monthly budget must be >= daily budget''))
      else let s = set_budget s p \<lparr>pb_daily_budget_cents = daily, pb_monthly_budget_cents = monthly\<rparr>
           in (s, Inr \<lparr>pr_provider = p, pr_daily_budget_cents = daily, pr_monthly_budget_cents = monthly,
                 pr_spend = (case get_provider_spend s p of Some sp \<Rightarrow> sp | None \<Rightarrow> no_spend)\<rparr>))"

definition delete_provider_budget :: "string \<Rightarrow> provider_budget_store \<Rightarrow> provider_budget_store \<times> (nat \<times> string + unit)" where
  "delete_provider_budget p s =
     (case delete_budget s p of (s, True) \<Rightarrow> (s, Inr ()) | (s, False) \<Rightarrow> (s, Inl (404, ''Provider budget not found'')))"

section \<open>The portal\<close>

record portal_usage_response =
  pt_key_name :: string
  pt_key_prefix :: string
  pt_daily_budget_cents :: "u64 option"
  pt_monthly_budget_cents :: "u64 option"
  pt_daily_spent_cents :: u64
  pt_monthly_spent_cents :: u64
  pt_total_spent_cents :: u64
  pt_rpm_limit :: "u32 option"
  pt_tpm_limit :: "u32 option"
  pt_expires_at :: "utc option"
  pt_allowed_models :: "string list option"
  pt_is_active :: bool
  pt_is_expired :: bool

definition authenticate_portal :: "(string \<Rightarrow> string) \<Rightarrow> request \<Rightarrow> key_store \<Rightarrow> nat \<times> string + virtual_key" where
  "authenticate_portal sha256 r store =
     (case header_str r ''authorization'' of
        None \<Rightarrow> Inl (401, ''Missing Authorization header'')
      | Some h \<Rightarrow>
          if \<not> starts_with h ''Bearer '' then Inl (401, ''Invalid Authorization scheme'')
          else let token = drop 7 h
               in if trim token = [] then Inl (401, ''Empty bearer token'')
                  else case validate_any sha256 store (trim token) of
                         None \<Rightarrow> Inl (401, ''Invalid virtual key'')
                       | Some vk \<Rightarrow> Inr vk)"

definition portal_usage ::
  "(string \<Rightarrow> string) \<Rightarrow> utc \<Rightarrow> string \<Rightarrow> string \<Rightarrow> request \<Rightarrow> key_store \<Rightarrow> nat \<times> string + portal_usage_response" where
  "portal_usage sha256 now today month r store =
     map_sum id (\<lambda>vk. \<lparr>pt_key_name = vk_name vk, pt_key_prefix = vk_key_prefix vk,
        pt_daily_budget_cents = vk_daily_budget_cents vk, pt_monthly_budget_cents = vk_monthly_budget_cents vk,
        pt_daily_spent_cents = key_spent_today today vk, pt_monthly_spent_cents = key_spent_this_month month vk,
        pt_total_spent_cents = sp_total_cents (vk_spend vk), pt_rpm_limit = vk_rpm_limit vk, pt_tpm_limit = vk_tpm_limit vk,
        pt_expires_at = vk_expires_at vk, pt_allowed_models = vk_allowed_models vk, pt_is_active = vk_enabled vk,
        pt_is_expired = is_expired vk now\<rparr>) (authenticate_portal sha256 r store)"

definition portal_logs ::
  "(string \<Rightarrow> string) \<Rightarrow> (uuid \<Rightarrow> string) \<Rightarrow> request \<Rightarrow> u64 \<Rightarrow> key_store \<Rightarrow> dispatch_logger \<Rightarrow> nat \<times> string + dispatch_log list" where
  "portal_logs sha256 print_id r limit store lg =
     map_sum id (\<lambda>vk. list_by_key lg (print_id (vk_id vk)) 0 (min (max (unat limit) 1) 100)) (authenticate_portal sha256 r store)"

definition portal_test :: "(string \<Rightarrow> string) \<Rightarrow> request \<Rightarrow> key_store \<Rightarrow> nat \<times> string + string" where
  "portal_test sha256 r store = map_sum id (\<lambda>vk. ''Your key is valid'') (authenticate_portal sha256 r store)"

section \<open>The usage report\<close>

record daily_usage =
  du_date :: string
  du_total_requests :: nat
  du_total_cost_cents :: u64
  du_total_input_tokens :: u64
  du_total_output_tokens :: u64

record usage_summary =
  us_total_requests :: nat
  us_total_cost_cents :: u64
  us_total_input_tokens :: u64
  us_total_output_tokens :: u64

text \<open>Days are counted from 1970; \<open>f64::round\<close> rounds halves away from zero.\<close>

definition date_naive :: "utc \<Rightarrow> int" where "date_naive t = t div 86400000000000"

definition f64_round :: "f64 \<Rightarrow> f64" where
  "f64_round x = (if 0 \<le> x then of_int \<lfloor>x + 1 / 2\<rfloor> else - of_int \<lfloor>- x + 1 / 2\<rfloor>)"

definition parse_date :: "(string \<Rightarrow> int option) \<Rightarrow> string option \<Rightarrow> string \<Rightarrow> string + int option" where
  "parse_date parse_ymd s field =
     (case s of
        None \<Rightarrow> Inr None
      | Some raw \<Rightarrow>
          if trim raw = [] then Inr None
          else case parse_ymd (trim raw) of
                 Some d \<Rightarrow> Inr (Some d)
               | None \<Rightarrow> Inl (''invalid `'' @ field @ ''` date: expected YYYY-MM-DD, got '' @ [CHR 0x22] @ trim raw @ [CHR 0x22]))"

definition key_ids_for_group :: "(uuid \<Rightarrow> string) \<Rightarrow> string \<Rightarrow> key_store \<Rightarrow> string list" where
  "key_ids_for_group print_id grp store = map (\<lambda>k. print_id (vk_id k)) (filter (\<lambda>k. vk_group k = Some grp) (ks_list store))"

definition log_cost_cents :: "dispatch_log \<Rightarrow> u64" where
  "log_cost_cents l =
     (let cents = f64_mul (case dl_estimated_cost l of Some c \<Rightarrow> c | None \<Rightarrow> 0) 100
      in if 0 \<le> cents then f64_as_u64 (f64_round cents) else 0)"

definition in_range :: "int option \<Rightarrow> int option \<Rightarrow> dispatch_log \<Rightarrow> bool" where
  "in_range from until l =
     (\<not> (case from of Some f \<Rightarrow> date_naive (dl_timestamp l) < f | None \<Rightarrow> False)
      \<and> \<not> (case until of Some t \<Rightarrow> t < date_naive (dl_timestamp l) | None \<Rightarrow> False))"

definition add_to_day :: "dispatch_log \<Rightarrow> daily_usage \<Rightarrow> daily_usage" where
  "add_to_day l e =
     e\<lparr>du_total_requests := du_total_requests e + 1,
       du_total_cost_cents := sat_add (du_total_cost_cents e) (log_cost_cents l),
       du_total_input_tokens := du_total_input_tokens e + count_or_0 (dl_input_tokens l),
       du_total_output_tokens := du_total_output_tokens e + count_or_0 (dl_output_tokens l)\<rparr>"

definition add_to_summary :: "dispatch_log \<Rightarrow> usage_summary \<Rightarrow> usage_summary" where
  "add_to_summary l s =
     s\<lparr>us_total_requests := us_total_requests s + 1,
       us_total_cost_cents := sat_add (us_total_cost_cents s) (log_cost_cents l),
       us_total_input_tokens := us_total_input_tokens s + count_or_0 (dl_input_tokens l),
       us_total_output_tokens := us_total_output_tokens s + count_or_0 (dl_output_tokens l)\<rparr>"

definition aggregate_step ::
  "(int \<Rightarrow> string) \<Rightarrow> int option \<Rightarrow> int option \<Rightarrow> (int \<times> daily_usage) list \<times> usage_summary \<Rightarrow> dispatch_log
     \<Rightarrow> (int \<times> daily_usage) list \<times> usage_summary" where
  "aggregate_step print_date from until = (\<lambda>(buckets, summary) l.
     if in_range from until l
     then let day = date_naive (dl_timestamp l)
          in (bt_upsert day \<lparr>du_date = print_date day, du_total_requests = 0, du_total_cost_cents = 0,
                du_total_input_tokens = 0, du_total_output_tokens = 0\<rparr> (add_to_day l) buckets,
              add_to_summary l summary)
     else (buckets, summary))"

definition aggregate_daily ::
  "(int \<Rightarrow> string) \<Rightarrow> int option \<Rightarrow> int option \<Rightarrow> dispatch_log list \<Rightarrow> (int \<times> daily_usage) list \<times> usage_summary" where
  "aggregate_daily print_date from until logs =
     foldl (aggregate_step print_date from until)
       ([], \<lparr>us_total_requests = 0, us_total_cost_cents = 0, us_total_input_tokens = 0, us_total_output_tokens = 0\<rparr>) logs"

record report_params =
  rp_key_id :: "string option"
  rp_group :: "string option"
  rp_from :: "string option"
  rp_to :: "string option"

record report_libs =
  rl_parse_ymd :: "string \<Rightarrow> int option"
  rl_print_date :: "int \<Rightarrow> string"
  rl_print_id :: "uuid \<Rightarrow> string"

definition report_logs :: "report_libs \<Rightarrow> report_params \<Rightarrow> key_store \<Rightarrow> dispatch_logger \<Rightarrow> dispatch_log list" where
  "report_logs R params store lg =
     (let logs = (case rp_key_id params of
                    Some key_id \<Rightarrow> list_by_key lg key_id 0 (total_by_key lg key_id)
                  | None \<Rightarrow> logger_list lg 0 (logger_total lg))
      in case rp_group params of
           Some grp \<Rightarrow> filter (\<lambda>l. case dl_virtual_key_id l of
               Some i \<Rightarrow> i \<in> set (key_ids_for_group (rl_print_id R) grp store) | None \<Rightarrow> False) logs
         | None \<Rightarrow> logs)"

definition get_usage_report ::
  "report_libs \<Rightarrow> report_params \<Rightarrow> key_store \<Rightarrow> dispatch_logger \<Rightarrow> string + daily_usage list \<times> usage_summary" where
  "get_usage_report R params store lg =
     (case parse_date (rl_parse_ymd R) (rp_from params) ''from'' of
        Inl msg \<Rightarrow> Inl msg
      | Inr from \<Rightarrow>
          (case parse_date (rl_parse_ymd R) (rp_to params) ''to'' of
             Inl msg \<Rightarrow> Inl msg
           | Inr until \<Rightarrow>
               let (buckets, summary) = aggregate_daily (rl_print_date R) from until (report_logs R params store lg)
               in Inr (map snd buckets, summary)))"

definition csv_row :: "string \<Rightarrow> nat \<Rightarrow> u64 \<Rightarrow> u64 \<Rightarrow> u64 \<Rightarrow> string" where
  "csv_row label requests cost input output =
     join_with '','' [label, nat_digits requests, nat_digits (unat cost), nat_digits (unat input), nat_digits (unat output)]
       @ [CHR 0x0A]"

definition get_usage_report_csv :: "report_libs \<Rightarrow> report_params \<Rightarrow> key_store \<Rightarrow> dispatch_logger \<Rightarrow> string + string" where
  "get_usage_report_csv R params store lg =
     map_sum id (\<lambda>(daily, summary).
       ''date,total_requests,total_cost_cents,total_input_tokens,total_output_tokens'' @ [CHR 0x0A]
       @ concat (map (\<lambda>d. csv_row (du_date d) (du_total_requests d) (du_total_cost_cents d) (du_total_input_tokens d)
           (du_total_output_tokens d)) daily)
       @ csv_row ''#summary'' (us_total_requests summary) (us_total_cost_cents summary) (us_total_input_tokens summary)
           (us_total_output_tokens summary)) (get_usage_report R params store lg)"

section \<open>Paging\<close>

lemma take_drop_pages: "concat (map (\<lambda>p. take n (drop (p * n) xs)) [0..<k]) = take (k * n) xs"
proof (induction k)
  case (Suc k)
  have "take (Suc k * n) xs = take (k * n) xs @ take n (drop (k * n) xs)"
    using take_add[of "k * n" n xs] by (simp add: add.commute)
  with Suc show ?case by simp
qed simp

text \<open>The pages of the key list tile it: the first \<open>n\<close> pages, one after the other, are the first \<open>n\<close> times
  \<open>limit\<close> of the keys that match, each once and in the order of the store, so that \<open>total\<close> over \<open>limit\<close> pages
  show every key.\<close>

theorem key_pages_tile:
  assumes "n < 2 ^ 32"
  shows "concat (map (\<lambda>p. ls_data (list_virtual_keys lower (params\<lparr>lp_page := of_nat p\<rparr>) store)) [1..<n + 1]) =
    map key_response (take (n * unat (page_limit (lp_limit params))) (listed_keys lower (lp_search params) (lp_group params) (ks_list store)))"
proof -
  let ?l = "unat (page_limit (lp_limit params))"
  let ?ks = "listed_keys lower (lp_search params) (lp_group params) (ks_list store)"
  have page: "ls_data (list_virtual_keys lower (params\<lparr>lp_page := of_nat (Suc p)\<rparr>) store) = map key_response (take ?l (drop (p * ?l) ?ks))"
    if "p < n" for p
  proof -
    have "unat (of_nat (Suc p) :: u32) = Suc p" using that assms by (simp add: unat_of_nat take_bit_nat_eq_self del: of_nat_Suc)
    then have "max (of_nat (Suc p) :: u32) 1 = of_nat (Suc p)"
      by (intro max_absorb1) (simp add: word_le_nat_alt del: of_nat_Suc)
    moreover have "unat (of_nat (Suc p) - 1 :: u32) = p" using that assms by (simp add: unat_of_nat take_bit_nat_eq_self)
    ultimately show ?thesis by (auto simp: list_virtual_keys_def Let_def min_def simp del: of_nat_Suc)
  qed
  have "[1..<n + 1] = map Suc [0..<n]" by (simp add: map_Suc_upt)
  then have "concat (map (\<lambda>p. ls_data (list_virtual_keys lower (params\<lparr>lp_page := of_nat p\<rparr>) store)) [1..<n + 1]) =
      concat (map (\<lambda>p. map key_response (take ?l (drop (p * ?l) ?ks))) [0..<n])"
    by (auto simp: comp_def page simp del: of_nat_Suc upt_Suc intro!: arg_cong[of _ _ concat])
  also have "\<dots> = map key_response (concat (map (\<lambda>p. take ?l (drop (p * ?l) ?ks)) [0..<n]))"
    by (simp add: map_concat comp_def)
  finally show ?thesis by (simp only: take_drop_pages)
qed

section \<open>Buckets\<close>

lemma upsert_fold:
  fixes key :: "'x \<Rightarrow> 'k::linorder"
  shows "sorted_keys (foldl (\<lambda>m x. bt_upsert (key x) (d (key x)) (f x) m) [] xs)
    \<and> map_of (foldl (\<lambda>m x. bt_upsert (key x) (d (key x)) (f x) m) [] xs) k =
        (let es = filter (\<lambda>x. key x = k) xs in if es = [] then None else Some (fold f es (d k)))"
proof (induction xs rule: rev_induct)
  case (snoc x xs)
  then show ?case
    by (auto simp: bt_upsert_sorted bt_upsert_get Let_def)
qed (simp add: sorted_keys_def)

lemma group_fold:
  "fold (add_to_group today month) ks e =
     e\<lparr>gs_key_count := gs_key_count e + length ks, gs_daily_spent_cents := gs_daily_spent_cents e + sum_list (map (key_spent_today today) ks),
       gs_monthly_spent_cents := gs_monthly_spent_cents e + sum_list (map (key_spent_this_month month) ks)\<rparr>"
  by (induction ks arbitrary: e) (simp_all add: add_to_group_def ac_simps)

lemma group_buckets_fold:
  "group_buckets today month keys =
     foldl (\<lambda>m k. bt_upsert (the (group_of k)) \<lparr>gs_group = the (group_of k), gs_key_count = 0, gs_daily_spent_cents = 0, gs_monthly_spent_cents = 0\<rparr>
       (add_to_group today month k) m) [] (filter (\<lambda>k. group_of k \<noteq> None) keys)"
  unfolding group_buckets_def
  by (induction keys rule: rev_induct) (auto split: option.splits)

text \<open>The group summary has one row per group label in use, in the order of the labels, with the number of keys of that
  group and their spend of the day and the month (modulo the width of the counters).\<close>

theorem group_rows_exact:
  "sorted_keys (group_buckets today month (ks_list store))
   \<and> list_virtual_key_groups today month store = map snd (group_buckets today month (ks_list store))
   \<and> map_of (group_buckets today month (ks_list store)) g =
      (let ks = filter (\<lambda>k. group_of k = Some g) (ks_list store) in
       if ks = [] then None
       else Some \<lparr>gs_group = g, gs_key_count = length ks, gs_daily_spent_cents = sum_list (map (key_spent_today today) ks),
              gs_monthly_spent_cents = sum_list (map (key_spent_this_month month) ks)\<rparr>)"
proof -
  have same: "filter (\<lambda>k. the (group_of k) = g) (filter (\<lambda>k. group_of k \<noteq> None) ks) = filter (\<lambda>k. group_of k = Some g) ks" for ks
    by (induction ks) auto
  show ?thesis
    using upsert_fold[of "\<lambda>k. the (group_of k)" "\<lambda>g. \<lparr>gs_group = g, gs_key_count = 0, gs_daily_spent_cents = 0, gs_monthly_spent_cents = 0\<rparr>"
        "add_to_group today month" "filter (\<lambda>k. group_of k \<noteq> None) (ks_list store)" g]
    unfolding group_buckets_fold[symmetric] same by (simp add: list_virtual_key_groups_def group_fold Let_def)
qed

section \<open>The report adds up\<close>

lemma sat_sum: "unat (fold (\<lambda>l c. sat_add c (w l)) ls c) = min (2 ^ 64 - 1) (unat c + sum_list (map (\<lambda>l. unat (w l)) ls))"
  for c :: u64
proof (induction ls arbitrary: c)
  case Nil
  have "unat c < 2 ^ 64" using unsigned_less[of c] by simp
  then show ?case by simp
next
  case (Cons l ls)
  have "unat (sat_add c (w l)) = min (2 ^ 64 - 1) (unat c + unat (w l))" by (simp add: rust_arith)
  with Cons show ?case by simp
qed

lemma day_fold:
  "fold add_to_day ls e =
     e\<lparr>du_total_requests := du_total_requests e + length ls,
       du_total_cost_cents := fold (\<lambda>l c. sat_add c (log_cost_cents l)) ls (du_total_cost_cents e),
       du_total_input_tokens := du_total_input_tokens e + sum_list (map (count_or_0 \<circ> dl_input_tokens) ls),
       du_total_output_tokens := du_total_output_tokens e + sum_list (map (count_or_0 \<circ> dl_output_tokens) ls)\<rparr>"
  by (induction ls arbitrary: e) (simp_all add: add_to_day_def ac_simps)

lemma summary_fold:
  "fold add_to_summary ls e =
     e\<lparr>us_total_requests := us_total_requests e + length ls,
       us_total_cost_cents := fold (\<lambda>l c. sat_add c (log_cost_cents l)) ls (us_total_cost_cents e),
       us_total_input_tokens := us_total_input_tokens e + sum_list (map (count_or_0 \<circ> dl_input_tokens) ls),
       us_total_output_tokens := us_total_output_tokens e + sum_list (map (count_or_0 \<circ> dl_output_tokens) ls)\<rparr>"
  by (induction ls arbitrary: e) (simp_all add: add_to_summary_def ac_simps)

definition empty_day :: "(int \<Rightarrow> string) \<Rightarrow> int \<Rightarrow> daily_usage" where
  "empty_day print_date day = \<lparr>du_date = print_date day, du_total_requests = 0, du_total_cost_cents = 0,
     du_total_input_tokens = 0, du_total_output_tokens = 0\<rparr>"

lemma aggregate_fold:
  "aggregate_daily print_date from until logs =
     (foldl (\<lambda>m l. bt_upsert (date_naive (dl_timestamp l)) (empty_day print_date (date_naive (dl_timestamp l))) (add_to_day l) m) []
        (filter (in_range from until) logs),
      fold add_to_summary (filter (in_range from until) logs)
        \<lparr>us_total_requests = 0, us_total_cost_cents = 0, us_total_input_tokens = 0, us_total_output_tokens = 0\<rparr>)"
  unfolding aggregate_daily_def
  by (induction logs rule: rev_induct) (auto simp: aggregate_step_def empty_day_def Let_def)

definition totals_of :: "dispatch_log list \<Rightarrow> nat \<times> nat \<times> u64 \<times> u64" where
  "totals_of ls = (length ls, min (2 ^ 64 - 1) (sum_list (map (\<lambda>l. unat (log_cost_cents l)) ls)),
     sum_list (map (count_or_0 \<circ> dl_input_tokens) ls), sum_list (map (count_or_0 \<circ> dl_output_tokens) ls))"

text \<open>The usage report adds up: its rows are the days in order, each once, every row holds the requests, the cost
  (capped at the largest counter) and the tokens of the entries of its day within the range, and the summary those
  of all entries within the range.\<close>

theorem usage_report_adds_up:
  "let (m, s) = aggregate_daily print_date from until logs; ls = filter (in_range from until) logs in
     sorted_keys m
     \<and> map_option (\<lambda>d. (du_date d, du_total_requests d, unat (du_total_cost_cents d), du_total_input_tokens d, du_total_output_tokens d)) (map_of m day)
       = (let es = filter (\<lambda>l. date_naive (dl_timestamp l) = day) ls in if es = [] then None else Some (print_date day, totals_of es))
     \<and> (us_total_requests s, unat (us_total_cost_cents s), us_total_input_tokens s, us_total_output_tokens s) = totals_of ls"
  using upsert_fold[of "\<lambda>l. date_naive (dl_timestamp l)" "empty_day print_date" add_to_day "filter (in_range from until) logs" day]
  by (simp add: aggregate_fold Let_def day_fold summary_fold sat_sum empty_day_def totals_of_def)

section \<open>What an update can change\<close>

lemma opt_field_nested: "opt_field (nested_option decode) body k = Some x \<Longrightarrow> x \<noteq> Some None"
  by (auto simp: opt_field_def nested_option_def split: option.splits json.splits)

lemma set_if_keeps: "new \<noteq> Some None \<Longrightarrow> old \<noteq> None \<Longrightarrow> set_if new old \<noteq> None"
  by (cases new) auto

lemma read_update_fields:
  assumes "read_update parse_time body = Some u"
  shows "opt_field (nested_option json_as_u64) body ''daily_budget_cents'' = Some (up_daily u)"
    "opt_field (nested_option json_as_u64) body ''monthly_budget_cents'' = Some (up_monthly u)"
    "opt_field (nested_option json_as_u32) body ''rpm_limit'' = Some (up_rpm u)"
    "opt_field (nested_option json_as_u32) body ''tpm_limit'' = Some (up_tpm u)"
    "opt_field (nested_option json_strings) body ''allowed_models'' = Some (up_allowed u)"
    "opt_field (nested_option (\<lambda>v. Option.bind (json_as_str v) parse_time)) body ''expires_at'' = Some (up_expires u)"
    "opt_field (nested_option json_as_str) body ''group'' = Some (up_group u)"
proof -
  obtain name daily monthly enabled allowed denied ips rpm tpm expires grp where
    f: "opt_field (nested_option json_as_u64) body ''daily_budget_cents'' = Some daily"
    "opt_field (nested_option json_as_u64) body ''monthly_budget_cents'' = Some monthly"
    "opt_field (nested_option json_as_u32) body ''rpm_limit'' = Some rpm"
    "opt_field (nested_option json_as_u32) body ''tpm_limit'' = Some tpm"
    "opt_field (nested_option json_strings) body ''allowed_models'' = Some allowed"
    "opt_field (nested_option (\<lambda>v. Option.bind (json_as_str v) parse_time)) body ''expires_at'' = Some expires"
    "opt_field (nested_option json_as_str) body ''group'' = Some grp"
    and u: "Some \<lparr>up_name = name, up_daily = daily, up_monthly = monthly, up_enabled = enabled, up_allowed = allowed,
      up_denied = denied, up_ips = ips, up_rpm = rpm, up_tpm = tpm, up_expires = expires, up_group = grp\<rparr> = Some u"
    using assms unfolding read_update_def bind_eq_Some_conv by (elim exE conjE) (rule that)
  from u[unfolded option.inject, symmetric] show
    "opt_field (nested_option json_as_u64) body ''daily_budget_cents'' = Some (up_daily u)"
    "opt_field (nested_option json_as_u64) body ''monthly_budget_cents'' = Some (up_monthly u)"
    "opt_field (nested_option json_as_u32) body ''rpm_limit'' = Some (up_rpm u)"
    "opt_field (nested_option json_as_u32) body ''tpm_limit'' = Some (up_tpm u)"
    "opt_field (nested_option json_strings) body ''allowed_models'' = Some (up_allowed u)"
    "opt_field (nested_option (\<lambda>v. Option.bind (json_as_str v) parse_time)) body ''expires_at'' = Some (up_expires u)"
    "opt_field (nested_option json_as_str) body ''group'' = Some (up_group u)"
    by (simp_all only: f key_update.select_convs)
qed

text \<open>No request can lift a limit: serde reads \<open>null\<close> as "leave the field alone", so that a budget, a rate limit, a model
  list, an expiry or a group once set can be replaced but not removed.\<close>

theorem update_never_clears:
  assumes "read_update parse_time body = Some u" "update_virtual_key written i u st = (st', Inr r)" "ks_get (sk_store st) i = Some k"
  shows "(vk_daily_budget_cents k \<noteq> None \<longrightarrow> vr_daily_budget_cents r \<noteq> None)
    \<and> (vk_monthly_budget_cents k \<noteq> None \<longrightarrow> vr_monthly_budget_cents r \<noteq> None)
    \<and> (vk_rpm_limit k \<noteq> None \<longrightarrow> vr_rpm_limit r \<noteq> None) \<and> (vk_tpm_limit k \<noteq> None \<longrightarrow> vr_tpm_limit r \<noteq> None)
    \<and> (vk_allowed_models k \<noteq> None \<longrightarrow> vr_allowed_models r \<noteq> None) \<and> (vk_expires_at k \<noteq> None \<longrightarrow> vr_expires_at r \<noteq> None)
    \<and> (vk_group k \<noteq> None \<longrightarrow> vr_group r \<noteq> None)"
proof -
  have r: "r = key_response (apply_update u k)"
    using assms(2,3) by (auto simp: update_virtual_key_def ks_update_def Let_def ks_modify_def ks_get_def hm_simps split: option.splits)
  have "up_daily u \<noteq> Some None \<and> up_monthly u \<noteq> Some None \<and> up_rpm u \<noteq> Some None \<and> up_tpm u \<noteq> Some None
      \<and> up_allowed u \<noteq> Some None \<and> up_expires u \<noteq> Some None \<and> up_group u \<noteq> Some None"
    by (intro conjI; rule opt_field_nested; rule read_update_fields[OF assms(1)])
  then show ?thesis unfolding r key_response_def apply_update_def by (simp add: set_if_keeps del: not_None_eq)
qed

definition demo_saved :: saved_keys where
  "demo_saved = \<lparr>sk_store = \<lparr>ks_keys = [(1, (fst (snd (ks_create id ks_new 0 ''0123456789'' 1 ''team'' (Some 500) None None [] [] None None None None))))],
     ks_prefix_index = []\<rparr>, sk_file = []\<rparr>"

theorem update_never_clears_witness:
  "\<exists>u st' r. read_update (\<lambda>_. None) (JObj [(''daily_budget_cents'', JNull)]) = Some u
     \<and> update_virtual_key True 1 u demo_saved = (st', Inr r) \<and> vr_daily_budget_cents r \<noteq> None"
proof -
  let ?body = "JObj [(''daily_budget_cents'', JNull)]"
  obtain u where u: "read_update (\<lambda>_. None) ?body = Some u"
    by (simp add: read_update_def opt_field_def)
  obtain k where k: "ks_get (sk_store demo_saved) 1 = Some k" "vk_daily_budget_cents k = Some 500"
    by (simp add: demo_saved_def ks_get_def ks_create_def Let_def)
  obtain st' r where r: "update_virtual_key True 1 u demo_saved = (st', Inr r)"
    using k by (auto simp: update_virtual_key_def ks_update_def Let_def ks_modify_def ks_get_def hm_simps)
  show ?thesis using update_never_clears[OF u r k(1)] u r k(2) by blast
qed

section \<open>Bulk creation\<close>

lemma nat_digits_inj: "nat_digits m = nat_digits n \<Longrightarrow> m = n"
  using nat_digits_value(1)[of m "max m n" "[]"] nat_digits_value(1)[of n "max m n" "[]"] by simp

lemma zero_padded_inj: "zero_padded w m = zero_padded w n \<Longrightarrow> m = n"
proof -
  have "parse_digits M 0 (replicate j (CHR ''0'') @ s) = parse_digits M 0 s" for M j s
    by (induction j) (simp_all add: digit_value_def)
  then have read: "parse_digits (max m n) 0 (zero_padded w k) = Some k" if "k \<le> max m n" for k
    using nat_digits_value(1)[OF that, of "[]"] by (simp add: zero_padded_def)
  show "zero_padded w m = zero_padded w n \<Longrightarrow> m = n" by (metis max.cobounded1 max.cobounded2 option.inject read)
qed

lemma batch_fold:
  assumes "ks_ok store" "distinct is" "inj_on (\<lambda>i. snd (draw i)) (set is)" "inj_on (\<lambda>i. take 16 (''ms-vk-'' @ fst (draw i))) (set is)"
    and "\<And>i. i \<in> set is \<Longrightarrow> ks_get store (snd (draw i)) = None \<and> hm_get (ks_prefix_index store) (take 16 (''ms-vk-'' @ fst (draw i))) = None"
  shows "\<exists>store' new. fold (batch_create_one h clock draw req) is (store, created) = (store', created @ new) \<and> ks_ok store'
    \<and> map (\<lambda>(r, p). (vr_name r, p)) new = map (\<lambda>i. (batch_name req i, ''ms-vk-'' @ fst (draw i))) is
    \<and> (\<forall>j. ks_get store' j \<noteq> None \<longleftrightarrow> ks_get store j \<noteq> None \<or> j \<in> (\<lambda>i. snd (draw i)) ` set is)"
  using assms
proof (induction "is" arbitrary: store created)
  case (Cons i "is")
  let ?r = "ks_create h store (clock i) (fst (draw i)) (snd (draw i)) (batch_name req i) (bk_daily_budget_cents req)
             (bk_monthly_budget_cents req) (bk_allowed_models req) [] (bk_allowed_ips req) (bk_rpm_limit req)
             (bk_tpm_limit req) (bk_expires_at req) (bk_group req)"
  note get = ks_create_get[of h store "clock i" "fst (draw i)" "snd (draw i)" "batch_name req i" "bk_daily_budget_cents req"
      "bk_monthly_budget_cents req" "bk_allowed_models req" "[]" "bk_allowed_ips req" "bk_rpm_limit req"
      "bk_tpm_limit req" "bk_expires_at req" "bk_group req"]
  have "ks_ok (fst ?r)" using Cons.prems(1,5) by (intro ks_ok_create) auto
  moreover have "ks_get (fst ?r) (snd (draw k)) = None \<and> hm_get (ks_prefix_index (fst ?r)) (take 16 (''ms-vk-'' @ fst (draw k))) = None"
    if "k \<in> set is" for k
    unfolding get(1,2) using Cons.prems(2-5) that by (auto simp: inj_on_def)
  ultimately obtain store' new where ih:
    "fold (batch_create_one h clock draw req) is (fst ?r, created @ [(key_response (fst (snd ?r)), snd (snd ?r))]) =
       (store', (created @ [(key_response (fst (snd ?r)), snd (snd ?r))]) @ new)" "ks_ok store'"
    "map (\<lambda>(r, p). (vr_name r, p)) new = map (\<lambda>i. (batch_name req i, ''ms-vk-'' @ fst (draw i))) is"
    "\<And>j. ks_get store' j \<noteq> None \<longleftrightarrow> ks_get (fst ?r) j \<noteq> None \<or> j \<in> (\<lambda>i. snd (draw i)) ` set is"
    using Cons.IH[of "fst ?r" "created @ [(key_response (fst (snd ?r)), snd (snd ?r))]"] Cons.prems(2-4) by auto
  have "vr_name (key_response (fst (snd ?r))) = batch_name req i" by (simp add: key_response_def ks_create_def Let_def)
  moreover have "batch_create_one h clock draw req i (store, created) = (fst ?r, created @ [(key_response (fst (snd ?r)), snd (snd ?r))])"
    by (simp add: batch_create_one_def case_prod_beta Let_def)
  ultimately show ?case using ih get(1,6) by (intro exI[of _ store'] exI[of _ "(key_response (fst (snd ?r)), snd (snd ?r)) # new"]) auto
qed auto

text \<open>A bulk request makes exactly as many keys as asked for, named with the prefix and the numbers from 1 on, no two
  alike; all of them are in the store, which stays well formed, next to the keys that were there, and what was
  written to the file is that store.\<close>

theorem batch_makes_distinct_keys:
  assumes "ks_ok (sk_store st)" "inj_on (\<lambda>i. snd (draw i)) {1..unat (bk_count req)}"
    "inj_on (\<lambda>i. take 16 (''ms-vk-'' @ fst (draw i))) {1..unat (bk_count req)}"
    and "\<And>i. i \<in> {1..unat (bk_count req)} \<Longrightarrow> ks_get (sk_store st) (snd (draw i)) = None
         \<and> hm_get (ks_prefix_index (sk_store st)) (take 16 (''ms-vk-'' @ fst (draw i))) = None"
    and "batch_create_virtual_keys h clock draw True req st = (st', Inr created)"
  shows "length created = unat (bk_count req) \<and> distinct (map (vr_name \<circ> fst) created)
    \<and> map (vr_name \<circ> fst) created = map (batch_name req) [1..<unat (bk_count req) + 1]
    \<and> ks_ok (sk_store st') \<and> sk_file st' = ks_list (sk_store st')
    \<and> (\<forall>j. ks_get (sk_store st') j \<noteq> None
         \<longleftrightarrow> ks_get (sk_store st) j \<noteq> None \<or> j \<in> (\<lambda>i. snd (draw i)) ` {1..unat (bk_count req)})"
proof -
  define "is" where "is = [1..<unat (bk_count req) + 1]"
  have is_set: "set is = {1..unat (bk_count req)}" and is_distinct: "distinct is" and is_length: "length is = unat (bk_count req)"
    unfolding is_def set_upt distinct_upt length_upt by auto
  obtain store' new where f: "fold (batch_create_one h clock draw req) is (sk_store st, []) = (store', [] @ new)" "ks_ok store'"
    "map (\<lambda>(r, p). (vr_name r, p)) new = map (\<lambda>i. (batch_name req i, ''ms-vk-'' @ fst (draw i))) is"
    "\<forall>j. ks_get store' j \<noteq> None \<longleftrightarrow> ks_get (sk_store st) j \<noteq> None \<or> j \<in> (\<lambda>i. snd (draw i)) ` set is"
    using batch_fold[OF assms(1) is_distinct, unfolded is_set, OF assms(2-4), of h clock req "[]"] unfolding is_set by blast
  have made: "st' = persist_virtual_keys True (st\<lparr>sk_store := store'\<rparr>)" "created = new"
    using assms(5) f(1) unfolding batch_create_virtual_keys_def is_def by (simp_all split: if_splits del: upt_Suc)
  have "map (vr_name \<circ> fst) new = map fst (map (\<lambda>(r, p). (vr_name r, p)) new)" by auto
  then have names: "map (vr_name \<circ> fst) created = map (batch_name req) is" unfolding f(3) made(2) by simp
  have "inj (batch_name req)" by (auto simp: inj_def batch_name_def dest: zero_padded_inj)
  then have "distinct (map (batch_name req) is)" using is_distinct by (auto simp: distinct_map intro: inj_on_subset)
  moreover have "length created = unat (bk_count req)" using arg_cong[OF names, of length] is_length by simp
  ultimately show ?thesis using f(2) f(4)[unfolded is_set] made(1) names unfolding is_def
    by (simp add: persist_virtual_keys_def del: upt_Suc)
qed

section \<open>The portal\<close>

lemma authenticate_portal_Inr:
  "authenticate_portal h r store = Inr vk
   \<Longrightarrow> \<exists>token. header_str r ''authorization'' = Some (''Bearer '' @ token) \<and> validate_any h store (trim token) = Some vk"
  by (fastforce simp: authenticate_portal_def Let_def starts_with_iff split: option.splits if_splits)

text \<open>The portal shows a caller only what belongs to the key whose plaintext it presents, at most 100 entries of the log,
  and answers the same for a disabled, expired or exhausted key, which it calls valid.\<close>

theorem portal_shows_own_key:
  "case portal_logs h print_id r limit store lg of
     Inl e \<Rightarrow> fst e = 401
   | Inr ls \<Rightarrow> \<exists>token vk. header_str r ''authorization'' = Some (''Bearer '' @ token)
       \<and> vk_key_hash vk = h (trim token) \<and> (\<exists>i. ks_get store i = Some vk) \<and> length ls \<le> 100
       \<and> set ls \<subseteq> {l \<in> set (lg_logs lg). dl_virtual_key_id l = Some (print_id (vk_id vk))}
       \<and> portal_test h r store = Inr ''Your key is valid''"
proof (cases "authenticate_portal h r store")
  case (Inl e)
  then have "fst e = 401" by (auto simp: authenticate_portal_def Let_def split: option.splits if_splits)
  then show ?thesis by (simp add: portal_logs_def Inl)
next
  case (Inr vk)
  obtain token where token: "header_str r ''authorization'' = Some (''Bearer '' @ token)" "validate_any h store (trim token) = Some vk"
    using authenticate_portal_Inr[OF Inr] by blast
  then have "vk_key_hash vk = h (trim token)" "\<exists>i. ks_get store i = Some vk"
    by (auto simp: validate_any_def ks_get_def split: option.splits if_splits)
  with token show ?thesis
    by (auto simp: portal_logs_def portal_test_def Inr list_by_key_def dest!: in_set_takeD)
qed

section \<open>Provider budget list\<close>

lemma sorted_rows:
  assumes "rows = sort_key f (map row names)" "distinct names" "map f (map row names) = names" "set names = A"
  shows "sorted_wrt (<) (map f rows) \<and> set rows = row ` A"
proof -
  have "distinct (map f rows)" by (metis assms(1-3) mset_map mset_sort mset_eq_imp_distinct_iff)
  then show ?thesis using assms by (simp add: strict_sorted_iff)
qed

text \<open>The list of provider budgets has one row for every provider that has a budget or spend, in the order of the names,
  with its budget and spend.\<close>

theorem provider_rows_exact:
  assumes "hm_ok (pb_configs s)" "hm_ok (pb_spend s)"
  shows "sorted_wrt (<) (map pr_provider (list_provider_budgets s))
    \<and> set (list_provider_budgets s) = {\<lparr>pr_provider = p, pr_daily_budget_cents = Option.bind (get_budget s p) pb_daily_budget_cents,
         pr_monthly_budget_cents = Option.bind (get_budget s p) pb_monthly_budget_cents,
         pr_spend = (case get_provider_spend s p of Some sp \<Rightarrow> sp | None \<Rightarrow> no_spend)\<rparr> |p. get_budget s p \<noteq> None \<or> get_provider_spend s p \<noteq> None}"
proof -
  let ?row = "\<lambda>p. \<lparr>pr_provider = p, pr_daily_budget_cents = Option.bind (get_budget s p) pb_daily_budget_cents,
      pr_monthly_budget_cents = Option.bind (get_budget s p) pb_monthly_budget_cents,
      pr_spend = (case get_provider_spend s p of Some sp \<Rightarrow> sp | None \<Rightarrow> no_spend)\<rparr>"
  let ?others = "filter (\<lambda>(p, sp). \<not> list_ex (\<lambda>(q, _). q = p) (pb_configs s)) (pb_spend s)"
  let ?names = "map fst (pb_configs s) @ map fst ?others"
  have other: "p \<in> fst ` set ?others \<longleftrightarrow> get_budget s p = None \<and> get_provider_spend s p \<noteq> None" for p
    by (force simp: get_budget_def get_provider_spend_def list_ex_iff map_of_eq_None_iff)
  have "list_provider_budgets s = sort_key pr_provider (map ?row ?names)"
    unfolding list_provider_budgets_def Let_def map_append map_map
  proof (intro arg_cong[of _ _ "sort_key pr_provider"] arg_cong2[of _ _ _ _ "(@)"] map_cong[OF HOL.refl])
    fix x assume "x \<in> set (pb_configs s)"
    moreover obtain p c where "x = (p, c)" by fastforce
    ultimately show "(case x of (p, c) \<Rightarrow> \<lparr>pr_provider = p, pr_daily_budget_cents = pb_daily_budget_cents c,
          pr_monthly_budget_cents = pb_monthly_budget_cents c,
          pr_spend = (case hm_get (pb_spend s) p of Some sp \<Rightarrow> sp | None \<Rightarrow> no_spend)\<rparr>) = (?row \<circ> fst) x"
      using hm_get_iff[OF assms(1), of p c] by (simp add: get_budget_def get_provider_spend_def)
  next
    fix x assume "x \<in> set ?others"
    moreover obtain p sp where x: "x = (p, sp)" by fastforce
    ultimately have "get_budget s p = None" "get_provider_spend s p = Some sp"
      using other[of p] hm_get_iff[OF assms(2), of p sp] by (force simp: get_provider_spend_def)+
    then show "(case x of (p, sp) \<Rightarrow> \<lparr>pr_provider = p, pr_daily_budget_cents = None, pr_monthly_budget_cents = None, pr_spend = sp\<rparr>)
        = (?row \<circ> fst) x" by (simp add: x)
  qed
  then have "list_provider_budgets s = sort_key pr_provider (map ?row ?names)" .
  moreover have "distinct ?names"
    using assms other by (auto simp: hm_ok_def distinct_map_filter get_budget_def map_of_eq_None_iff)
  moreover have "map pr_provider (map ?row ?names) = ?names" by (simp add: comp_def)
  moreover have "set ?names = {p. get_budget s p \<noteq> None \<or> get_provider_spend s p \<noteq> None}"
    using other by (auto simp: get_budget_def map_of_eq_None_iff dom_map_of_conv_image_fst[symmetric])
  ultimately have "sorted_wrt (<) (map pr_provider (list_provider_budgets s))
      \<and> set (list_provider_budgets s) = ?row ` {p. get_budget s p \<noteq> None \<or> get_provider_spend s p \<noteq> None}"
    by (rule sorted_rows)
  then show ?thesis by (simp only: image_Collect simp_thms)
qed

end
