(* ===== verification/Credential_Store.thy ===== *)
theory Credential_Store
  imports Prelude
begin

text \<open>
  The credential store (\<open>credential/file_store.rs\<close>) and the encryption of its values at rest
  (\<open>credential/crypto.rs\<close>). SHA-256, HKDF, AES-256-GCM, base64 and the check for UTF-8 are arguments, and so is the
  random nonce of each encryption. The file is the table of texts that the TOML library reads from it or writes to
  it; \<open>None\<close> is a file that is missing or cannot be parsed.
\<close>

section \<open>Encryption\<close>

record crypto_libs =
  cy_sha256 :: "string \<Rightarrow> string"
  cy_hkdf :: "string \<Rightarrow> string \<Rightarrow> string \<Rightarrow> string"
  cy_aes_encrypt :: "string \<Rightarrow> string \<Rightarrow> string \<Rightarrow> string option"
  cy_aes_decrypt :: "string \<Rightarrow> string \<Rightarrow> string \<Rightarrow> string option"
  cy_b64_encode :: "string \<Rightarrow> string"
  cy_b64_decode :: "string \<Rightarrow> string option"
  cy_utf8 :: "string \<Rightarrow> bool"

definition PREFIX_V1 :: string where "PREFIX_V1 = ''enc:v1:''"
definition PREFIX_V2 :: string where "PREFIX_V2 = ''enc:v2:''"

record encryption_key =
  ek_v1 :: string
  ek_v2 :: string

definition derive_key_v1 :: "crypto_libs \<Rightarrow> string \<Rightarrow> string" where
  "derive_key_v1 C secret = cy_sha256 C (''modelswitch-credential-encryption-v1'' @ secret)"

definition derive_key_v2 :: "crypto_libs \<Rightarrow> string \<Rightarrow> string" where
  "derive_key_v2 C secret = cy_hkdf C ''modelswitch-credential-encryption-v2'' secret ''aes-256-gcm-key''"

definition key_derive :: "crypto_libs \<Rightarrow> string \<Rightarrow> encryption_key" where
  "key_derive C secret = \<lparr>ek_v1 = derive_key_v1 C secret, ek_v2 = derive_key_v2 C secret\<rparr>"

definition encrypt :: "crypto_libs \<Rightarrow> encryption_key \<Rightarrow> string \<Rightarrow> string \<Rightarrow> string option" where
  "encrypt C key nonce plaintext =
     map_option (\<lambda>ciphertext. PREFIX_V2 @ cy_b64_encode C (nonce @ ciphertext)) (cy_aes_encrypt C (ek_v2 key) nonce plaintext)"

datatype crypto_error = NotEncrypted | InvalidBase64 | TooShort | DecryptionFailed | InvalidUtf8

definition decrypt :: "crypto_libs \<Rightarrow> encryption_key \<Rightarrow> string \<Rightarrow> crypto_error + string" where
  "decrypt C key encoded =
     (if \<not> starts_with encoded PREFIX_V2 \<and> \<not> starts_with encoded PREFIX_V1 then Inl NotEncrypted
      else let (aes_key, payload) = (if starts_with encoded PREFIX_V2 then (ek_v2 key, drop (length PREFIX_V2) encoded)
                                     else (ek_v1 key, drop (length PREFIX_V1) encoded))
           in case cy_b64_decode C payload of
                None \<Rightarrow> Inl InvalidBase64
              | Some combined \<Rightarrow>
                  if length combined < 12 then Inl TooShort
                  else case cy_aes_decrypt C aes_key (take 12 combined) (drop 12 combined) of
                         None \<Rightarrow> Inl DecryptionFailed
                       | Some plaintext \<Rightarrow> if cy_utf8 C plaintext then Inr plaintext else Inl InvalidUtf8)"

definition is_encrypted :: "string \<Rightarrow> bool" where
  "is_encrypted v \<longleftrightarrow> starts_with v PREFIX_V1 \<or> starts_with v PREFIX_V2"

section \<open>The store\<close>

record file_store =
  fs_cache :: "(string, string) hashmap"
  fs_encryption_key :: "encryption_key option"
  fs_file :: "(string \<times> string) list option"

text \<open>One entry of the file on start-up: \<open>None\<close> if it is skipped.\<close>

definition load_value :: "crypto_libs \<Rightarrow> encryption_key option \<Rightarrow> string \<Rightarrow> string option" where
  "load_value C key s =
     (if is_encrypted s
      then case key of
             Some k \<Rightarrow> (case decrypt C k s of Inr v \<Rightarrow> Some v | Inl _ \<Rightarrow> None)
           | None \<Rightarrow> None
      else Some s)"

definition load_entry :: "crypto_libs \<Rightarrow> encryption_key option \<Rightarrow> string \<times> string \<Rightarrow> (string, string) hashmap \<Rightarrow> (string, string) hashmap" where
  "load_entry C key = (\<lambda>(k, s) cache. case load_value C key s of Some v \<Rightarrow> hm_insert k v cache | None \<Rightarrow> cache)"

definition store_build :: "crypto_libs \<Rightarrow> encryption_key option \<Rightarrow> (string \<times> string) list option \<Rightarrow> file_store" where
  "store_build C key file =
     \<lparr>fs_cache = (case file of Some table \<Rightarrow> fold (load_entry C key) table [] | None \<Rightarrow> []),
      fs_encryption_key = key, fs_file = file\<rparr>"

definition create_credential_store :: "crypto_libs \<Rightarrow> string option \<Rightarrow> (string \<times> string) list option \<Rightarrow> file_store" where
  "create_credential_store C admin_token file =
     (case admin_token of Some token \<Rightarrow> store_build C (Some (key_derive C token)) file | None \<Rightarrow> store_build C None file)"

definition store_key :: "string \<Rightarrow> string \<Rightarrow> string" where
  "store_key service username = service @ '':'' @ username"

text \<open>Writing the file: \<open>nonce k\<close> is drawn for the entry \<open>k\<close>, \<open>written\<close> says whether the file operations succeed.\<close>

definition stored_value :: "crypto_libs \<Rightarrow> encryption_key option \<Rightarrow> (string \<Rightarrow> string) \<Rightarrow> string \<times> string \<Rightarrow> (string \<times> string) option" where
  "stored_value C key nonce = (\<lambda>(k, v).
     case key of Some ek \<Rightarrow> map_option (\<lambda>s. (k, s)) (encrypt C ek (nonce k) v) | None \<Rightarrow> Some (k, v))"

definition fs_persist :: "crypto_libs \<Rightarrow> (string \<Rightarrow> string) \<Rightarrow> bool \<Rightarrow> file_store \<Rightarrow> file_store \<times> bool" where
  "fs_persist C nonce written st =
     (let rows = map (stored_value C (fs_encryption_key st) nonce) (fs_cache st)
      in if None \<in> set rows \<or> \<not> written then (st, False) else (st\<lparr>fs_file := Some (map the rows)\<rparr>, True))"

definition fs_get :: "file_store \<Rightarrow> string \<Rightarrow> string \<Rightarrow> string option" where
  "fs_get st service username = hm_get (fs_cache st) (store_key service username)"

definition fs_set ::
  "crypto_libs \<Rightarrow> (string \<Rightarrow> string) \<Rightarrow> bool \<Rightarrow> string \<Rightarrow> string \<Rightarrow> string \<Rightarrow> file_store \<Rightarrow> file_store \<times> bool" where
  "fs_set C nonce written service username password st =
     fs_persist C nonce written (st\<lparr>fs_cache := hm_insert (store_key service username) password (fs_cache st)\<rparr>)"

definition fs_delete ::
  "crypto_libs \<Rightarrow> (string \<Rightarrow> string) \<Rightarrow> bool \<Rightarrow> string \<Rightarrow> string \<Rightarrow> file_store \<Rightarrow> file_store \<times> bool" where
  "fs_delete C nonce written service username st =
     fs_persist C nonce written (st\<lparr>fs_cache := hm_remove (store_key service username) (fs_cache st)\<rparr>)"

section \<open>Round trip\<close>

text \<open>What the ciphers and codecs are documented to do, for texts that are valid UTF-8.\<close>

definition crypto_ok :: "crypto_libs \<Rightarrow> bool" where
  "crypto_ok C \<longleftrightarrow>
     (\<forall>s. cy_b64_decode C (cy_b64_encode C s) = Some s)
     \<and> (\<forall>k n p. length n = 12 \<longrightarrow> (\<exists>c. cy_aes_encrypt C k n p = Some c \<and> cy_aes_decrypt C k n c = Some p))"

lemma encrypt_decrypt:
  assumes "crypto_ok C" "length n = 12" "cy_utf8 C p"
  shows "\<exists>s. encrypt C ek n p = Some s \<and> is_encrypted s \<and> decrypt C ek s = Inr p"
proof -
  obtain c where "cy_aes_encrypt C (ek_v2 ek) n p = Some c" "cy_aes_decrypt C (ek_v2 ek) n c = Some p"
    using assms(1,2) unfolding crypto_ok_def by blast
  moreover have "cy_b64_decode C (cy_b64_encode C (n @ c)) = Some (n @ c)"
    using assms(1) by (simp add: crypto_ok_def)
  ultimately show ?thesis
    using assms(2,3) by (simp add: encrypt_def decrypt_def is_encrypted_def starts_with_def PREFIX_V1_def PREFIX_V2_def)
qed

definition readable :: "crypto_libs \<Rightarrow> encryption_key option \<Rightarrow> string \<Rightarrow> bool" where
  "readable C key v \<longleftrightarrow> cy_utf8 C v \<and> (key = None \<longrightarrow> \<not> is_encrypted v)"

lemma stored_loads:
  assumes "crypto_ok C" "length (nonce k) = 12" "readable C key v"
  shows "\<exists>s. stored_value C key nonce (k, v) = Some (k, s) \<and> load_value C key s = Some v"
  using encrypt_decrypt[OF assms(1,2)] assms(3)
  by (cases key) (fastforce simp: stored_value_def load_value_def readable_def)+

lemma persisted_rows:
  assumes "crypto_ok C" "\<And>k. length (nonce k) = 12" "\<forall>v \<in> snd ` set m. readable C key v"
  shows "None \<notin> set (map (stored_value C key nonce) m)
    \<and> fold (load_entry C key) (map (the \<circ> stored_value C key nonce) m) cache = fold (\<lambda>(k, v). hm_insert k v) m cache"
  using assms(3)
proof (induction m arbitrary: cache)
  case (Cons kv m)
  obtain k v where kv: "kv = (k, v)" by fastforce
  then obtain s where "stored_value C key nonce (k, v) = Some (k, s)" "load_value C key s = Some v"
    using stored_loads[of C nonce k key v] assms(1,2) Cons.prems by auto
  with Cons kv show ?case by (simp add: load_entry_def)
qed simp

lemma fold_insert_get: "hm_ok m \<Longrightarrow> hm_get (fold (\<lambda>(k, v). hm_insert k v) m cache) x =
    (case hm_get m x of Some v \<Rightarrow> Some v | None \<Rightarrow> hm_get cache x)"
proof (induction m arbitrary: cache)
  case (Cons kv m)
  obtain k v where kv: "kv = (k, v)" by fastforce
  then have "hm_get m k = None" using Cons.prems by (simp add: hm_ok_def map_of_eq_None_iff)
  with Cons kv show ?case by (simp add: hm_ok_def split: option.splits)
qed simp

lemma insert_values: "snd ` set (hm_insert k v m) \<subseteq> insert v (snd ` set m)"
  by (induction m) auto

lemma persist_reload:
  assumes "crypto_ok C" "\<And>k. length (nonce k) = 12" "hm_ok (fs_cache st)"
    "\<forall>v \<in> snd ` set (fs_cache st). readable C (fs_encryption_key st) v"
  shows "snd (fs_persist C nonce True st)
    \<and> fs_cache (fst (fs_persist C nonce True st)) = fs_cache st
    \<and> hm_get (fs_cache (store_build C (fs_encryption_key st) (fs_file (fst (fs_persist C nonce True st))))) x = hm_get (fs_cache st) x"
  using persisted_rows[OF assms(1,2,4), where cache = "[]"] fold_insert_get[OF assms(3), of "[]" x]
  by (auto simp: fs_persist_def Let_def store_build_def split: option.splits)

text \<open>C27: a credential that was set is found again after a restart with the same admin token, with every other credential
  of the store, encrypted or not; without a token, a value that looks encrypted is not covered.\<close>

theorem credential_survives_restart:
  assumes "crypto_ok C" "\<And>k. length (nonce k) = 12" "hm_ok (fs_cache st)"
    "\<forall>v \<in> snd ` set (fs_cache st). readable C (fs_encryption_key st) v" "readable C (fs_encryption_key st) password"
  shows "case fs_set C nonce True service username password st of
     (st', ok) \<Rightarrow> ok \<and> (let st2 = store_build C (fs_encryption_key st) (fs_file st') in
        fs_get st2 s u = (if store_key s u = store_key service username then Some password else fs_get st s u))"
proof -
  let ?st = "st\<lparr>fs_cache := hm_insert (store_key service username) password (fs_cache st)\<rparr>"
  have "snd ` set (fs_cache ?st) \<subseteq> insert password (snd ` set (fs_cache st))"
    using insert_values[of "store_key service username" password "fs_cache st"] by simp
  then have "\<forall>v \<in> snd ` set (fs_cache ?st). readable C (fs_encryption_key st) v" using assms(4,5) by blast
  then have "\<forall>v \<in> snd ` set (fs_cache ?st). readable C (fs_encryption_key ?st) v" by simp
  from persist_reload[of C nonce ?st "store_key s u", OF _ assms(2) _ this] assms(1,3) show ?thesis
    by (simp add: fs_set_def fs_get_def Let_def case_prod_beta)
qed

definition demo_crypto :: crypto_libs where
  "demo_crypto = \<lparr>cy_sha256 = id, cy_hkdf = (\<lambda>salt secret info. secret), cy_aes_encrypt = (\<lambda>k n p. Some (k @ ''|'' @ p)),
     cy_aes_decrypt = (\<lambda>k n c. if starts_with c (k @ ''|'') then Some (drop (Suc (length k)) c) else None), cy_b64_encode = id,
     cy_b64_decode = Some, cy_utf8 = (\<lambda>_. True)\<rparr>"

lemma demo_crypto_ok: "crypto_ok demo_crypto"
  by (simp add: crypto_ok_def demo_crypto_def starts_with_def)

lemma demo_utf8: "cy_utf8 demo_crypto v"
  by (simp add: demo_crypto_def)

theorem credential_survives_restart_witness:
  "let st = create_credential_store demo_crypto (Some ''token'') None; st' = fst (fs_set demo_crypto (\<lambda>_. replicate 12 (CHR ''n'')) True ''modelswitch'' ''a'' ''sk-1'' st)
   in fs_get (store_build demo_crypto (fs_encryption_key st) (fs_file st')) ''modelswitch'' ''a'' = Some ''sk-1''"
proof -
  let ?st = "create_credential_store demo_crypto (Some ''token'') None"
  have "fs_cache ?st = []" "fs_encryption_key ?st \<noteq> None" by (simp_all add: create_credential_store_def store_build_def)
  then show ?thesis
    using credential_survives_restart[OF demo_crypto_ok, of "\<lambda>_. replicate 12 (CHR ''n'')" ?st "''sk-1''" "''modelswitch''" "''a''"
        "''modelswitch''" "''a''"]
    by (auto simp: Let_def case_prod_beta readable_def demo_utf8)
qed

section \<open>A wrong token\<close>

lemma unreadable_skipped:
  "\<forall>(k, s) \<in> set table. load_value C key s = None \<Longrightarrow> fold (load_entry C key) table cache = cache"
  by (induction table arbitrary: cache) (auto simp: load_entry_def)

text \<open>Entries that cannot be decrypted, after a start with another admin token for instance, are skipped; the next
  credential that is stored then overwrites the file, and all of them are lost for good.\<close>

theorem wrong_token_erases_credentials:
  assumes "\<forall>(k, s) \<in> set table. load_value C key s = None"
    and "fs_set C nonce written service username password (store_build C key (Some table)) = (st', True)"
  shows "\<exists>s. fs_file st' = Some [(store_key service username, s)]"
  using assms(2) unreadable_skipped[OF assms(1), of "[]"]
  by (auto simp: fs_set_def fs_persist_def Let_def store_build_def stored_value_def split: if_splits option.splits)

theorem wrong_token_erases_credentials_witness:
  "let st = create_credential_store demo_crypto (Some ''new'') (Some [(''modelswitch:a'', ''enc:v2:'' @ replicate 12 (CHR ''n'') @ ''old|sk-1'')])
   in \<exists>s. fs_file (fst (fs_set demo_crypto (\<lambda>_. replicate 12 (CHR ''n'')) True ''modelswitch'' ''b'' ''sk-2'' st)) = Some [(''modelswitch:b'', s)]"
proof -
  let ?t = "[(''modelswitch:a'', ''enc:v2:'' @ replicate 12 (CHR ''n'') @ ''old|sk-1'')]"
  let ?key = "Some (key_derive demo_crypto ''new'')"
  let ?set = "fs_set demo_crypto (\<lambda>_. replicate 12 (CHR ''n'')) True ''modelswitch'' ''b'' ''sk-2'' (store_build demo_crypto ?key (Some ?t))"
  have bad: "\<forall>(k, s) \<in> set ?t. load_value demo_crypto ?key s = None"
    by (simp add: load_value_def is_encrypted_def decrypt_def starts_with_def PREFIX_V1_def PREFIX_V2_def demo_crypto_def
        key_derive_def derive_key_v2_def)
  have "snd ?set" using unreadable_skipped[OF bad, of "[]"]
    by (simp add: fs_set_def fs_persist_def Let_def store_build_def stored_value_def encrypt_def demo_crypto_def)
  then have "?set = (fst ?set, True)" by (simp add: prod_eq_iff)
  from wrong_token_erases_credentials[OF bad this] show ?thesis
    by (simp add: Let_def create_credential_store_def store_key_def)
qed

end
