(* ===== verification/Admin_Channels.thy ===== *)
theory Admin_Channels
  imports Audit_Log Credential_Store Notification Config_Reload Attempt
begin

text \<open>
  The admin handlers for channels (\<open>admin/channels/crud.rs\<close>, \<open>batch.rs\<close>, \<open>actions.rs\<close>): creating, updating and
  deleting a channel with its credential, its quota record, its cooldown and an entry of the audit log, the bulk
  operations and the payload rules. The URL parser, the resolver and the outcomes of file operations are arguments.
\<close>

section \<open>State\<close>

record channels_state =
  cs_manager :: manager
  cs_credentials :: file_store
  cs_quota :: quota_store
  cs_cooldown :: cooldown_tracker
  cs_rules :: rules_registry
  cs_audit :: audit_log
  cs_saved :: "channel list"

text \<open>Libraries and surroundings of one request; \<open>ce_written\<close> are the outcomes of the writes to the credential file,
  \<open>ce_now\<close> is the clock.\<close>

datatype url_host = Ipv4Host ip_addr | Ipv6Host ip_addr | Domain string

record channels_env =
  ce_audit :: audit_libs
  ce_audit_written :: bool
  ce_crypto :: crypto_libs
  ce_nonce :: "string \<Rightarrow> string"
  ce_written :: bool
  ce_print_uuid :: "uuid \<Rightarrow> string"
  ce_parse_url :: "string \<Rightarrow> (string \<times> url_host option \<times> 16 word option) option"
  ce_resolve :: "string \<Rightarrow> 16 word \<Rightarrow> ip_addr list option"
  ce_lower :: "string \<Rightarrow> string"
  ce_debug_provider :: "provider \<Rightarrow> string"
  ce_now :: utc

definition audited :: "channels_env \<Rightarrow> string \<Rightarrow> uuid \<Rightarrow> json \<Rightarrow> channels_state \<Rightarrow> channels_state" where
  "audited E action i details st =
     st\<lparr>cs_audit := audit_record (ce_audit E) (ce_audit_written E) (ce_now E) action ''admin-api'' (ce_print_uuid E i) details
          (cs_audit st)\<rparr>"

definition saved :: "channels_state \<Rightarrow> channels_state" where
  "saved st = st\<lparr>cs_saved := hm_values (mgr_channels (cs_manager st))\<rparr>"

section \<open>Checks\<close>

definition STORED_HEADER_DENYLIST :: "string list" where
  "STORED_HEADER_DENYLIST = [''host'', ''transfer-encoding'', ''content-length'', ''connection'', ''x-forwarded-for'',
     ''x-forwarded-host'', ''x-forwarded-proto'', ''authorization'', ''x-api-key'', ''cookie'', ''forwarded'']"

definition has_crlf :: "string \<Rightarrow> bool" where
  "has_crlf s \<longleftrightarrow> CHR 0x0A \<in> set s \<or> CHR 0x0D \<in> set s"

definition filter_dangerous_headers :: "(string \<Rightarrow> string) \<Rightarrow> (string, string) hashmap \<Rightarrow> (string, string) hashmap" where
  "filter_dangerous_headers lower headers =
     hm_retain (\<lambda>name v. \<not> has_crlf v)
       (hm_retain (\<lambda>name v. if lower name \<in> set STORED_HEADER_DENYLIST then False else \<not> has_crlf name) headers)"

type_synonym api_error = "nat \<times> string"

definition check_metadata_ip :: "string \<Rightarrow> ip_addr \<Rightarrow> api_error option" where
  "check_metadata_ip field ip =
     (case ip of
        V4 a b c d \<Rightarrow>
          if a = 169 \<and> b = 254 then Some (400, ''Link-local address blocked for '' @ field)
          else if (a, b, c, d) = (0, 0, 0, 0) then Some (400, ''Unspecified address blocked for '' @ field)
          else None
      | V6 w \<Rightarrow>
          if w = 1 \<and> w \<noteq> 1 then Some (400, ''Non-standard loopback blocked for '' @ field)
          else if w = 0xfd000ec2000000000000000000000254 then Some (400, ''Cloud metadata endpoint blocked for '' @ field)
          else None)"

definition validate_channel_url :: "channels_env \<Rightarrow> string \<Rightarrow> string \<Rightarrow> api_error option" where
  "validate_channel_url E url field =
     (case ce_parse_url E url of
        None \<Rightarrow> Some (400, ''Invalid URL for '' @ field @ '': '' @ url)
      | Some (scheme, host, known_port) \<Rightarrow>
          if scheme \<noteq> ''http'' \<and> scheme \<noteq> ''https''
          then Some (400, ''Unsupported scheme '' @ scheme @ '' for '' @ field @ ''. Only http/https allowed.'')
          else let port = (case known_port of Some p \<Rightarrow> p | None \<Rightarrow> 80)
               in case host of
                    Some (Ipv4Host ip) \<Rightarrow> check_metadata_ip field ip
                  | Some (Ipv6Host ip) \<Rightarrow> check_metadata_ip field ip
                  | Some (Domain domain) \<Rightarrow>
                      (case ce_resolve E domain port of
                         None \<Rightarrow> Some (400, ''DNS resolution failed for '' @ field @ '' host '' @ domain)
                       | Some ips \<Rightarrow> first_error (check_metadata_ip field) ips)
                  | None \<Rightarrow> Some (400, ''URL missing host for '' @ field @ '': '' @ url))"

definition validate_quota_config :: "channels_env \<Rightarrow> quota_config \<Rightarrow> api_error option" where
  "validate_quota_config E q =
     (case (case q_balance_url q of Some url \<Rightarrow> if url = [] then None else validate_channel_url E url ''quota.balance_url'' | None \<Rightarrow> None) of
        Some e \<Rightarrow> Some e
      | None \<Rightarrow>
          (case q_auth_prefix q of
             Some p \<Rightarrow> if has_crlf p then Some (400, ''CRLF characters not allowed in quota.auth_prefix'') else None
           | None \<Rightarrow> None))"

text \<open>The checks shared by create and update, in their order.\<close>

definition validate_addresses :: "channels_env \<Rightarrow> string option \<Rightarrow> string option \<Rightarrow> quota_config option \<Rightarrow> api_error option" where
  "validate_addresses E proxy_url models_endpoint quota =
     (case Option.bind proxy_url (\<lambda>u. validate_channel_url E u ''proxy_url'') of
        Some e \<Rightarrow> Some e
      | None \<Rightarrow>
          (case Option.bind models_endpoint (\<lambda>u. validate_channel_url E u ''models_endpoint'') of
             Some e \<Rightarrow> Some e
           | None \<Rightarrow> Option.bind quota (validate_quota_config E)))"

section \<open>Create, update and delete\<close>

text \<open>The fields both requests have; \<open>credential_type\<close> belongs to creation, \<open>enabled\<close> to an update.\<close>

record channel_request =
  rc_name :: string
  rc_provider :: string
  rc_priority :: u8
  rc_weight :: u32
  rc_cost_per_token :: "f64 option"
  rc_input_cost_per_mtok :: "f64 option"
  rc_output_cost_per_mtok :: "f64 option"
  rc_base_url :: string
  rc_model_mapping :: "(string, string) hashmap"
  rc_cooldown_minutes :: "u64 option"
  rc_rpm_limit :: "u64 option"
  rc_tpm_limit :: "u64 option"
  rc_account_group :: "string option"
  rc_max_concurrent :: "u32 option"
  rc_excluded_models :: "string list"
  rc_tags :: "string list"
  rc_models_endpoint :: "string option"
  rc_models_refresh_interval_secs :: "u64 option"
  rc_max_retries :: "u32 option"
  rc_proxy_url :: "string option"
  rc_headers :: "(string, string) hashmap"
  rc_api_keys :: "string list"
  rc_quota :: "quota_config option"

definition list_channels :: "utc \<Rightarrow> channels_state \<Rightarrow> channel list" where
  "list_channels now st = manager_list (cs_manager st) now"

definition new_channel :: "channels_env \<Rightarrow> uuid \<Rightarrow> string \<Rightarrow> credential_type \<Rightarrow> channel_request \<Rightarrow> channel" where
  "new_channel E i kref ctype req =
     \<lparr>ch_id = i, ch_name = rc_name req, ch_provider = provider_from_str (rc_provider req), ch_priority = rc_priority req,
      ch_weight = rc_weight req, ch_cost_per_token = rc_cost_per_token req,
      ch_input_cost_per_mtok = rc_input_cost_per_mtok req, ch_output_cost_per_mtok = rc_output_cost_per_mtok req,
      ch_credential = \<lparr>cred_type = ctype, key_ref = kref, cred_api_key = None, cred_expires_at = None\<rparr>,
      ch_enabled = True, ch_status = Healthy, ch_circuit_open_until = None, ch_base_url = rc_base_url req,
      ch_model_mapping = rc_model_mapping req, ch_created_at = ce_now E, ch_updated_at = ce_now E, ch_avg_latency_ms = 0,
      ch_consecutive_failures = 0, ch_cooldown_minutes = rc_cooldown_minutes req, ch_rpm_limit = rc_rpm_limit req,
      ch_tpm_limit = rc_tpm_limit req, ch_account_group = rc_account_group req, ch_max_concurrent = rc_max_concurrent req,
      ch_api_keys = rc_api_keys req, ch_excluded_models = rc_excluded_models req, ch_model_cooldowns = [],
      ch_proxy_url = rc_proxy_url req, ch_headers = filter_dangerous_headers (ce_lower E) (rc_headers req),
      ch_max_retries = rc_max_retries req, ch_models_endpoint = rc_models_endpoint req,
      ch_models_refresh_interval_secs = (case rc_models_refresh_interval_secs req of Some n \<Rightarrow> n | None \<Rightarrow> 300),
      ch_tags = rc_tags req, ch_quota = rc_quota req\<rparr>"

definition create_channel ::
  "channels_env \<Rightarrow> uuid \<Rightarrow> string \<Rightarrow> string \<Rightarrow> channel_request \<Rightarrow> channels_state \<Rightarrow> channels_state \<times> (api_error + channel)" where
  "create_channel E i credential_type credential_value req st =
     (let ctype = (if credential_type = ''web_session'' then WebSession else ApiKey);
          kref = rc_provider req @ ''_'' @ ce_print_uuid E i;
          (creds, stored) = fs_set (ce_crypto E) (ce_nonce E) (ce_written E) ''modelswitch'' kref credential_value (cs_credentials st);
          st = st\<lparr>cs_credentials := creds\<rparr>
      in if \<not> stored then (st, Inl (500, ''Failed to store credential''))
         else case validate_addresses E (rc_proxy_url req) (rc_models_endpoint req) (rc_quota req) of
                Some e \<Rightarrow> (st, Inl e)
              | None \<Rightarrow>
                  let c = new_channel E i kref ctype req;
                      st = saved (st\<lparr>cs_manager := manager_create (cs_manager st) c\<rparr>)
                  in (audited E ''channel.create'' i (JObj [(''name'', JStr (ch_name c)), (''provider'', JStr (ce_debug_provider E (ch_provider c)))]) st,
                      Inr c))"

definition updated_status :: "bool \<Rightarrow> channel \<Rightarrow> channel_status" where
  "updated_status enabled c =
     (if \<not> enabled \<and> ch_enabled c then Disabled else if enabled \<and> \<not> ch_enabled c then Healthy else ch_status c)"

definition updated_channel :: "channels_env \<Rightarrow> bool \<Rightarrow> channel_request \<Rightarrow> channel \<Rightarrow> channel" where
  "updated_channel E enabled req c =
     c\<lparr>ch_name := rc_name req, ch_provider := provider_from_str (rc_provider req), ch_priority := rc_priority req,
       ch_weight := rc_weight req, ch_cost_per_token := rc_cost_per_token req,
       ch_input_cost_per_mtok := rc_input_cost_per_mtok req, ch_output_cost_per_mtok := rc_output_cost_per_mtok req,
       ch_rpm_limit := rc_rpm_limit req, ch_tpm_limit := rc_tpm_limit req, ch_base_url := rc_base_url req,
       ch_status := updated_status enabled c, ch_enabled := enabled,
       ch_model_mapping := rc_model_mapping req, ch_cooldown_minutes := rc_cooldown_minutes req,
       ch_account_group := rc_account_group req, ch_max_concurrent := rc_max_concurrent req,
       ch_excluded_models := rc_excluded_models req, ch_api_keys := rc_api_keys req, ch_proxy_url := rc_proxy_url req,
       ch_headers := filter_dangerous_headers (ce_lower E) (rc_headers req), ch_max_retries := rc_max_retries req,
       ch_models_endpoint := rc_models_endpoint req,
       ch_models_refresh_interval_secs := (case rc_models_refresh_interval_secs req of Some n \<Rightarrow> n | None \<Rightarrow> 300),
       ch_tags := rc_tags req, ch_quota := rc_quota req, ch_updated_at := ce_now E\<rparr>"

text \<open>An update reads the channel at the start and writes it back at the end, with name resolution and file writes in
  between: \<open>update_read\<close> gives the channel to write, \<open>update_write\<close> stores it into what the state is by then.\<close>

definition update_read :: "channels_env \<Rightarrow> uuid \<Rightarrow> bool \<Rightarrow> channel_request \<Rightarrow> channels_state \<Rightarrow> api_error + channel" where
  "update_read E i enabled req st =
     (case manager_get (cs_manager st) i of
        None \<Rightarrow> Inl (404, ''Channel not found'')
      | Some existing \<Rightarrow>
          (case validate_addresses E (rc_proxy_url req) (rc_models_endpoint req) (rc_quota req) of
             Some e \<Rightarrow> Inl e
           | None \<Rightarrow> Inr (updated_channel E enabled req existing)))"

definition update_credential :: "channels_env \<Rightarrow> string option \<Rightarrow> channel \<Rightarrow> channels_state \<Rightarrow> channels_state \<times> bool" where
  "update_credential E credential_value c st =
     (case credential_value of
        Some new_key \<Rightarrow>
          if new_key = [] then (st, True)
          else let (creds, stored) = fs_set (ce_crypto E) (ce_nonce E) (ce_written E) ''modelswitch'' (key_ref (ch_credential c)) new_key
                     (cs_credentials st)
               in (st\<lparr>cs_credentials := creds\<rparr>, stored)
      | None \<Rightarrow> (st, True))"

definition update_write :: "channels_env \<Rightarrow> uuid \<Rightarrow> string option \<Rightarrow> channel \<Rightarrow> channels_state \<Rightarrow> channels_state \<times> (api_error + channel)" where
  "update_write E i credential_value c st =
     (let (st, stored) = update_credential E credential_value c st
      in if \<not> stored then (st, Inl (500, ''Failed to update credential''))
         else case manager_update (cs_manager st) i c of
                (m, None) \<Rightarrow> (st\<lparr>cs_manager := m\<rparr>, Inl (404, ''Channel not found''))
              | (m, Some channel) \<Rightarrow>
                  (audited E ''channel.update'' i
                     (JObj [(''name'', JStr (ch_name channel)), (''provider'', JStr (ce_debug_provider E (ch_provider channel))),
                            (''enabled'', JBool (ch_enabled channel)), (''api_keys_count'', JInt (int (length (ch_api_keys channel))))])
                     (saved (st\<lparr>cs_manager := m\<rparr>)), Inr channel))"

definition update_channel ::
  "channels_env \<Rightarrow> uuid \<Rightarrow> bool \<Rightarrow> string option \<Rightarrow> channel_request \<Rightarrow> channels_state \<Rightarrow> channels_state \<times> (api_error + channel)" where
  "update_channel E i enabled credential_value req st =
     (case update_read E i enabled req st of Inl e \<Rightarrow> (st, Inl e) | Inr c \<Rightarrow> update_write E i credential_value c st)"

text \<open>The part of a deletion that one request and a batch share; the answer says whether the channel existed.\<close>

definition forget_credential :: "channels_env \<Rightarrow> uuid \<Rightarrow> channels_state \<Rightarrow> channels_state" where
  "forget_credential E i st =
     (case manager_get (cs_manager st) i of
        Some c \<Rightarrow> st\<lparr>cs_credentials := fst (fs_delete (ce_crypto E) (ce_nonce E) (ce_written E) ''modelswitch''
                        (key_ref (ch_credential c)) (cs_credentials st))\<rparr>
      | None \<Rightarrow> st)"

definition remove_channel :: "channels_env \<Rightarrow> uuid \<Rightarrow> channels_state \<Rightarrow> channels_state \<times> bool" where
  "remove_channel E i st =
     (let st = forget_credential E i st
      in case manager_delete (cs_manager st) i of
           (m, True) \<Rightarrow> (st\<lparr>cs_manager := m, cs_quota := quota_delete (cs_quota st) i, cs_cooldown := cooldown_remove (cs_cooldown st) i\<rparr>, True)
         | (m, False) \<Rightarrow> (st\<lparr>cs_manager := m\<rparr>, False))"

definition channel_name :: "uuid \<Rightarrow> channels_state \<Rightarrow> string" where
  "channel_name i st = (case manager_get (cs_manager st) i of Some c \<Rightarrow> ch_name c | None \<Rightarrow> [])"

definition delete_channel :: "channels_env \<Rightarrow> uuid \<Rightarrow> channels_state \<Rightarrow> channels_state \<times> (api_error + unit)" where
  "delete_channel E i st =
     (let name = channel_name i st
      in case remove_channel E i st of
           (st, True) \<Rightarrow> (audited E ''channel.delete'' i (JObj [(''name'', JStr name)]) (saved st), Inr ())
         | (st, False) \<Rightarrow> (st, Inl (404, ''Channel not found'')))"

section \<open>Bulk operations\<close>

record batch_result =
  br_total :: nat
  br_success :: nat
  br_failed :: nat
  br_errors :: "(uuid \<times> string) list"

definition batch_result_new :: "nat \<Rightarrow> batch_result" where
  "batch_result_new n = \<lparr>br_total = n, br_success = 0, br_failed = 0, br_errors = []\<rparr>"

definition batch_failed :: "uuid \<Rightarrow> string \<Rightarrow> batch_result \<Rightarrow> batch_result" where
  "batch_failed i msg r = r\<lparr>br_failed := br_failed r + 1, br_errors := br_errors r @ [(i, msg)]\<rparr>"

definition batch_succeeded :: "batch_result \<Rightarrow> batch_result" where
  "batch_succeeded r = r\<lparr>br_success := br_success r + 1\<rparr>"

text \<open>The loop body of enable, disable and tags: \<open>change\<close> edits the channel, \<open>details\<close> are those of the audit entry.\<close>

definition batch_edit ::
  "channels_env \<Rightarrow> (channel \<Rightarrow> channel) \<Rightarrow> string \<Rightarrow> (channel \<Rightarrow> json) \<Rightarrow> uuid \<Rightarrow> channels_state \<times> batch_result \<Rightarrow> channels_state \<times> batch_result" where
  "batch_edit E change action details i = (\<lambda>(st, r).
     case manager_get (cs_manager st) i of
       None \<Rightarrow> (st, batch_failed i ''Channel not found'' r)
     | Some c \<Rightarrow>
         (case manager_update (cs_manager st) i (change c) of
            (m, Some _) \<Rightarrow> (audited E action i (details (change c)) (st\<lparr>cs_manager := m\<rparr>), batch_succeeded r)
          | (m, None) \<Rightarrow> (st\<lparr>cs_manager := m\<rparr>, batch_failed i ''Update failed'' r)))"

definition batch_run ::
  "(uuid \<Rightarrow> channels_state \<times> batch_result \<Rightarrow> channels_state \<times> batch_result) \<Rightarrow> uuid list \<Rightarrow> channels_state \<Rightarrow> channels_state \<times> batch_result" where
  "batch_run step ids st =
     (let (st, r) = fold step ids (st, batch_result_new (length ids)) in (if 0 < br_success r then saved st else st, r))"

definition enable_channel :: "utc \<Rightarrow> channel \<Rightarrow> channel" where
  "enable_channel now c =
     c\<lparr>ch_enabled := True, ch_status := (if ch_status c = Disabled then Healthy else ch_status c), ch_updated_at := now\<rparr>"

definition disable_channel :: "utc \<Rightarrow> channel \<Rightarrow> channel" where
  "disable_channel now c = c\<lparr>ch_enabled := False, ch_status := Disabled, ch_updated_at := now\<rparr>"

definition retag :: "utc \<Rightarrow> string list \<Rightarrow> string list \<Rightarrow> channel \<Rightarrow> channel" where
  "retag now add_tags remove_tags c =
     c\<lparr>ch_tags := foldl (\<lambda>ts t. if t \<in> set ts then ts else ts @ [t]) (filter (\<lambda>t. t \<notin> set remove_tags) (ch_tags c)) add_tags,
       ch_updated_at := now\<rparr>"

definition batch_enable_channels :: "channels_env \<Rightarrow> uuid list \<Rightarrow> channels_state \<Rightarrow> channels_state \<times> batch_result" where
  "batch_enable_channels E = batch_run (batch_edit E (enable_channel (ce_now E)) ''channel.batch_enable''
     (\<lambda>c. JObj [(''name'', JStr (ch_name c))]))"

definition batch_disable_channels :: "channels_env \<Rightarrow> uuid list \<Rightarrow> channels_state \<Rightarrow> channels_state \<times> batch_result" where
  "batch_disable_channels E = batch_run (batch_edit E (disable_channel (ce_now E)) ''channel.batch_disable''
     (\<lambda>c. JObj [(''name'', JStr (ch_name c))]))"

definition batch_update_tags :: "channels_env \<Rightarrow> string list \<Rightarrow> string list \<Rightarrow> uuid list \<Rightarrow> channels_state \<Rightarrow> channels_state \<times> batch_result" where
  "batch_update_tags E add_tags remove_tags = batch_run (batch_edit E (retag (ce_now E) add_tags remove_tags) ''channel.batch_update_tags''
     (\<lambda>c. JObj [(''name'', JStr (ch_name c)), (''tags'', JArr (map JStr (ch_tags c))), (''added'', JArr (map JStr add_tags)),
               (''removed'', JArr (map JStr remove_tags))]))"

definition batch_delete_one :: "channels_env \<Rightarrow> uuid \<Rightarrow> channels_state \<times> batch_result \<Rightarrow> channels_state \<times> batch_result" where
  "batch_delete_one E i = (\<lambda>(st, r).
     let name = channel_name i st
     in case remove_channel E i st of
          (st, True) \<Rightarrow> (audited E ''channel.batch_delete'' i (JObj [(''name'', JStr name)]) st, batch_succeeded r)
        | (st, False) \<Rightarrow> (st, batch_failed i ''Channel not found'' r))"

definition batch_delete_channels :: "channels_env \<Rightarrow> uuid list \<Rightarrow> channels_state \<Rightarrow> channels_state \<times> batch_result" where
  "batch_delete_channels E = batch_run (batch_delete_one E)"

section \<open>Payload rules\<close>

definition set_payload_rules :: "uuid \<Rightarrow> payload_rules_config \<Rightarrow> channels_state \<Rightarrow> channels_state \<times> (api_error + unit)" where
  "set_payload_rules i rules st =
     (case manager_get (cs_manager st) i of
        None \<Rightarrow> (st, Inl (404, ''Channel not found''))
      | Some _ \<Rightarrow>
          let g = rules_add (cs_rules st) i (prc_rules rules);
              g = (if prc_model_rules rules \<noteq> [] then set_model_rules g i (prc_model_rules rules) else g)
          in (st\<lparr>cs_rules := g\<rparr>, Inr ()))"

definition get_payload_rules :: "uuid \<Rightarrow> channels_state \<Rightarrow> api_error + payload_rules_config" where
  "get_payload_rules i st =
     (case manager_get (cs_manager st) i of
        None \<Rightarrow> Inl (404, ''Channel not found'')
      | Some _ \<Rightarrow>
          Inr (case rules_get_full (cs_rules st) i of
                 Some full \<Rightarrow> \<lparr>prc_rules = cr_channel full, prc_model_rules = cr_model_rules full\<rparr>
               | None \<Rightarrow> \<lparr>prc_rules = no_rules, prc_model_rules = []\<rparr>))"

section \<open>What stays true\<close>

definition channels_ok :: "audit_libs \<Rightarrow> channels_state \<Rightarrow> bool" where
  "channels_ok A st \<longleftrightarrow> mgr_inv (cs_manager st) \<and> audit_ok A (cs_audit st)"

inductive channels_step :: "audit_libs \<Rightarrow> channels_state \<Rightarrow> channels_state \<Rightarrow> bool" for A where
  create: "ce_audit E = A \<Longrightarrow> channels_step A st (fst (create_channel E i ty v req st))"
| update: "ce_audit E = A \<Longrightarrow> update_read E i en req st0 = Inr c \<Longrightarrow> channels_ok A st0 \<Longrightarrow> channels_step A st (fst (update_write E i v c st))"
| delete: "ce_audit E = A \<Longrightarrow> channels_step A st (fst (delete_channel E i st))"
| batch_enable: "ce_audit E = A \<Longrightarrow> channels_step A st (fst (batch_enable_channels E ids st))"
| batch_disable: "ce_audit E = A \<Longrightarrow> channels_step A st (fst (batch_disable_channels E ids st))"
| batch_tags: "ce_audit E = A \<Longrightarrow> channels_step A st (fst (batch_update_tags E add rem ids st))"
| batch_delete: "ce_audit E = A \<Longrightarrow> channels_step A st (fst (batch_delete_channels E ids st))"
| rules: "channels_step A st (fst (set_payload_rules i r st))"
| traffic: "mgr_step (cs_manager st) m \<Longrightarrow> channels_step A st (st\<lparr>cs_manager := m\<rparr>)"

lemma ok_frame:
  "channels_ok A st \<Longrightarrow> channels_ok A (saved st)" "channels_ok A st \<Longrightarrow> channels_ok A (st\<lparr>cs_credentials := c\<rparr>)"
  "channels_ok A st \<Longrightarrow> channels_ok A (st\<lparr>cs_rules := g\<rparr>)" "channels_ok A st \<Longrightarrow> channels_ok A (forget_credential E i st)"
  "channels_ok A st \<Longrightarrow> mgr_inv m \<Longrightarrow> channels_ok A (st\<lparr>cs_manager := m\<rparr>)"
  by (simp_all add: channels_ok_def saved_def forget_credential_def split: option.splits)

lemma ok_audited: "ce_audit E = A \<Longrightarrow> channels_ok A st \<Longrightarrow> channels_ok A (audited E action i d st)"
  by (auto simp: channels_ok_def audited_def audit_ok_record)

lemma ok_inv: "channels_ok A st \<Longrightarrow> mgr_inv (cs_manager st)"
  by (simp add: channels_ok_def)

lemma ok_create:
  assumes "ce_audit E = A" "channels_ok A st" shows "channels_ok A (fst (create_channel E i ty v req st))"
proof -
  have "stored_ok i (new_channel E i k t req)" for k t
    using healthy_stored_ok[of "new_channel E i k t req"] by (simp add: new_channel_def)
  then have "mgr_inv (manager_create (cs_manager st) (new_channel E i k t req))" for k t
    using mgr_inv_insert[OF ok_inv[OF assms(2)], of i] by (simp add: manager_create_def new_channel_def)
  with assms show ?thesis
    by (auto simp: create_channel_def Let_def case_prod_beta intro!: ok_audited ok_frame split: option.splits)
qed

lemma ok_update:
  assumes "ce_audit E = A" "channels_ok A st" "stored_ok i c" shows "channels_ok A (fst (update_write E i v c st))"
proof -
  have cred: "channels_ok A (fst (update_credential E v c st))"
    using assms(2) by (auto simp: update_credential_def case_prod_beta Let_def intro: ok_frame split: option.splits)
  then have "mgr_inv (fst (manager_update (cs_manager (fst (update_credential E v c st))) i c))"
    by (intro mgr_inv_update assms(3) ok_inv)
  with cred assms(1) show ?thesis
    by (auto simp: update_write_def case_prod_beta Let_def intro!: ok_audited ok_frame split: option.splits)
qed

lemma read_stored_ok:
  assumes "update_read E i en req st0 = Inr c" "channels_ok A st0" shows "stored_ok i c"
proof -
  obtain e where "manager_get (cs_manager st0) i = Some e" "c = updated_channel E en req e"
    using assms(1) by (auto simp: update_read_def split: option.splits)
  moreover have "stored_ok i e" using calculation(1) ok_inv[OF assms(2)] by (simp add: mgr_inv_def)
  ultimately show ?thesis
    by (auto simp: stored_ok_def circuit_ok_def updated_channel_def updated_status_def)
qed

lemma ok_remove: "channels_ok A st \<Longrightarrow> channels_ok A (fst (remove_channel E i st))"
  using ok_frame(4)[of A st E i] mgr_inv_delete[of "cs_manager (forget_credential E i st)" i]
  by (auto simp: remove_channel_def Let_def channels_ok_def split: prod.splits bool.splits)

lemma ok_edit:
  assumes "ce_audit E = A" "\<And>c. stored_ok i c \<Longrightarrow> stored_ok i (f c)" "channels_ok A (fst x)"
  shows "channels_ok A (fst (batch_edit E f action d i x))"
proof (cases "manager_get (cs_manager (fst x)) i")
  case None
  then show ?thesis using assms(3) by (simp add: batch_edit_def case_prod_beta)
next
  case (Some c)
  with assms(2,3) have "mgr_inv (fst (manager_update (cs_manager (fst x)) i (f c)))"
    by (intro mgr_inv_update ok_inv[of A]) (auto simp: channels_ok_def mgr_inv_def)
  with Some assms show ?thesis
    by (auto simp: batch_edit_def case_prod_beta intro!: ok_audited ok_frame split: option.splits)
qed

lemma ok_delete_one: "ce_audit E = A \<Longrightarrow> channels_ok A (fst x) \<Longrightarrow> channels_ok A (fst (batch_delete_one E i x))"
  using ok_remove[of A "fst x" E i]
  by (auto simp: batch_delete_one_def Let_def case_prod_beta intro!: ok_audited split: bool.splits)

lemma ok_batch:
  assumes "channels_ok A st" "\<And>i x. channels_ok A (fst x) \<Longrightarrow> channels_ok A (fst (step i x))"
  shows "channels_ok A (fst (batch_run step ids st))"
proof -
  have "channels_ok A (fst (fold step ids x))" if "channels_ok A (fst x)" for x
    using that by (induction ids arbitrary: x) (simp_all add: assms(2))
  with assms(1) show ?thesis by (auto simp: batch_run_def Let_def case_prod_beta intro!: ok_frame)
qed

lemma edits_stored_ok:
  "stored_ok i c \<Longrightarrow> stored_ok i (enable_channel now c)" "stored_ok i c \<Longrightarrow> stored_ok i (disable_channel now c)"
  "stored_ok i c \<Longrightarrow> stored_ok i (retag now add rem c)"
  by (simp_all add: stored_ok_def circuit_ok_def enable_channel_def disable_channel_def retag_def)

lemma channels_step_ok: "channels_step A st st' \<Longrightarrow> channels_ok A st \<Longrightarrow> channels_ok A st'"
proof (induction rule: channels_step.induct)
  case (create E st i ty v req)
  then show ?case by (simp add: ok_create)
next
  case (update E i en req st0 c st v)
  then show ?case by (simp add: ok_update read_stored_ok)
next
  case (delete E st i)
  then show ?case using ok_remove[of A st E i]
    by (auto simp: delete_channel_def Let_def intro!: ok_audited ok_frame split: prod.splits bool.splits)
next
  case (rules st i r)
  then show ?case by (auto simp: set_payload_rules_def Let_def intro!: ok_frame split: option.splits)
next
  case (traffic st m)
  then show ?case by (intro ok_frame mgr_step_inv[OF traffic(1)] ok_inv)
qed (auto simp: batch_enable_channels_def batch_disable_channels_def batch_update_tags_def batch_delete_channels_def
    intro!: ok_batch ok_edit ok_delete_one edits_stored_ok)

inductive channels_reachable :: "audit_libs \<Rightarrow> channels_state \<Rightarrow> bool" for A where
  start: "channels_ok A st \<Longrightarrow> channels_reachable A st"
| step: "channels_reachable A st \<Longrightarrow> channels_step A st st' \<Longrightarrow> channels_reachable A st'"

text \<open>Whatever the administrators do to the channels, one at a time or in bulk, while the traffic opens and closes
  circuits, and even if an update writes back a channel it read long before: the channel manager stays well formed and
  the audit log verifies.\<close>

theorem channel_admin_keeps_invariants:
  assumes "channels_reachable A st"
  shows "mgr_inv (cs_manager st) \<and> verify_chain A (cs_audit st)"
proof -
  have "channels_ok A st" using assms by induction (simp_all add: channels_step_ok)
  then show ?thesis by (simp add: channels_ok_def audit_ok_def verify_chain_def)
qed

definition demo_channels :: "audit_libs \<Rightarrow> channels_state" where
  "demo_channels A = \<lparr>cs_manager = manager_new [] 5 False, cs_credentials = create_credential_store demo_crypto None None, cs_quota = [],
     cs_cooldown = cooldown_new, cs_rules = [], cs_audit = audit_new 10, cs_saved = []\<rparr>"

lemma demo_channels_ok: "channels_ok A (demo_channels A)"
  by (simp add: channels_ok_def demo_channels_def mgr_inv_def manager_get_def manager_new_def audit_ok_def audit_new_def chain_valid_def)

theorem channel_admin_keeps_invariants_witness:
  "\<exists>st. channels_reachable demo_audit_libs st \<and> al_entries (cs_audit st) = [] \<and> mgr_inv (cs_manager st) \<and> verify_chain demo_audit_libs (cs_audit st)"
proof -
  have "channels_reachable demo_audit_libs (demo_channels demo_audit_libs)" by (rule channels_reachable.start[OF demo_channels_ok])
  from this channel_admin_keeps_invariants[OF this] show ?thesis
    by (auto simp: demo_channels_def audit_new_def)
qed

section \<open>Creating\<close>

definition clean_headers :: "(string \<Rightarrow> string) \<Rightarrow> (string, string) hashmap \<Rightarrow> bool" where
  "clean_headers lower hs \<longleftrightarrow> (\<forall>(n, v) \<in> set hs. lower n \<notin> set STORED_HEADER_DENYLIST \<and> \<not> has_crlf n \<and> \<not> has_crlf v)"

lemma filtered_clean: "clean_headers lower (filter_dangerous_headers lower hs)"
  by (auto simp: clean_headers_def filter_dangerous_headers_def hm_retain_def)

text \<open>C37: a request to create a channel either succeeds, and then the channel is in the store, with clean headers, with a
  proxy URL, a models endpoint and quota addresses that passed the checks (the base URL is stored as it came), its
  credential retrievable under its reference and an audit entry; or it fails and the
  channels and the audit log are as before. But when it is the addresses that fail, the credential of the channel that
  does not exist stays in the credential store.\<close>

theorem create_channel_exact:
  "case create_channel E i ty v req st of
     (st', Inr c) \<Rightarrow>
       manager_get (cs_manager st') i = Some c \<and> clean_headers (ce_lower E) (ch_headers c) \<and> ch_status c = Healthy
       \<and> validate_addresses E (ch_proxy_url c) (ch_models_endpoint c) (ch_quota c) = None
       \<and> fs_get (cs_credentials st') ''modelswitch'' (key_ref (ch_credential c)) = Some v
       \<and> (\<exists>d. cs_audit st' = audit_record (ce_audit E) (ce_audit_written E) (ce_now E) ''channel.create'' ''admin-api'' (ce_print_uuid E i) d (cs_audit st))
   | (st', Inl e) \<Rightarrow>
       cs_manager st' = cs_manager st \<and> cs_audit st' = cs_audit st
       \<and> (e = (500, ''Failed to store credential'')
          \<or> validate_addresses E (rc_proxy_url req) (rc_models_endpoint req) (rc_quota req) = Some e)
       \<and> fs_get (cs_credentials st') ''modelswitch'' (rc_provider req @ ''_'' @ ce_print_uuid E i) = Some v"
proof -
  define k where "k = rc_provider req @ ''_'' @ ce_print_uuid E i"
  obtain creds ok where s: "fs_set (ce_crypto E) (ce_nonce E) (ce_written E) ''modelswitch'' k v (cs_credentials st) = (creds, ok)"
    by fastforce
  then have "fs_cache creds = hm_insert (store_key ''modelswitch'' k) v (fs_cache (cs_credentials st))"
    by (auto simp: fs_set_def fs_persist_def Let_def split: if_splits)
  then have cred: "fs_get creds ''modelswitch'' k = Some v" by (simp add: fs_get_def)
  have c: "ch_id (new_channel E i k t req) = i" "ch_headers (new_channel E i k t req) = filter_dangerous_headers (ce_lower E) (rc_headers req)"
    "ch_status (new_channel E i k t req) = Healthy" "ch_proxy_url (new_channel E i k t req) = rc_proxy_url req"
    "ch_models_endpoint (new_channel E i k t req) = rc_models_endpoint req" "ch_quota (new_channel E i k t req) = rc_quota req"
    "key_ref (ch_credential (new_channel E i k t req)) = k" for t
    by (simp_all add: new_channel_def)
  show ?thesis
    unfolding create_channel_def k_def[symmetric] Let_def s prod.case
    using cred filtered_clean[of "ce_lower E" "rc_headers req"]
    by (cases ok; cases "validate_addresses E (rc_proxy_url req) (rc_models_endpoint req) (rc_quota req)")
      (auto simp: c manager_create_def manager_get_def saved_def audited_def)
qed

section \<open>Updating\<close>

lemma mark_open_failures: "ch_consecutive_failures (channel_mark_circuit_open c now d) = ch_consecutive_failures c"
  by (simp add: channel_mark_circuit_open_def Let_def split: option.splits)

text \<open>An update writes back the channel it read at its start. A circuit that opens while it resolves names or writes the
  credential is closed again by the write, and the failure is forgotten.\<close>

theorem update_undoes_circuit:
  assumes "update_read E i True req st = Inr c" "manager_get (cs_manager st) i = Some c0" "ch_enabled c0" "ch_status c0 = Healthy"
  shows "let st1 = st\<lparr>cs_manager := manager_mark_circuit_open (cs_manager st) now i\<rparr>; st2 = fst (update_write E i None c st1) in
     (\<exists>c1. manager_get (cs_manager st1) i = Some c1 \<and> ch_consecutive_failures c1 = ch_consecutive_failures c0 + 1
        \<and> (\<not> mgr_disable_cooling (cs_manager st) \<longrightarrow> ch_status c1 = CircuitOpen))
     \<and> manager_get (cs_manager st2) i = Some c \<and> ch_status c = Healthy \<and> ch_consecutive_failures c = ch_consecutive_failures c0"
proof -
  have c: "ch_status c = Healthy" "ch_consecutive_failures c = ch_consecutive_failures c0"
    using assms by (auto simp: update_read_def updated_channel_def updated_status_def split: option.splits)
  let ?m = "manager_mark_circuit_open (cs_manager st) now i"
  obtain c1 where c1: "manager_get ?m i = Some c1" "ch_consecutive_failures c1 = ch_consecutive_failures c0 + 1"
    "\<not> mgr_disable_cooling (cs_manager st) \<longrightarrow> ch_status c1 = CircuitOpen"
    using assms(2) by (auto simp: manager_mark_circuit_open_def with_channel_def manager_get_def hm_get_modify Let_def mark_open_failures)
  then have "manager_get (cs_manager (fst (update_write E i None c (st\<lparr>cs_manager := ?m\<rparr>)))) i = Some c"
    by (simp add: update_write_def update_credential_def Let_def manager_update_def manager_get_def hm_contains_def audited_def saved_def)
  with c c1 show ?thesis by (simp add: Let_def)
qed

section \<open>Bulk operations count\<close>

lemma audited_manager [simp]: "cs_manager (audited E action i d st) = cs_manager st"
  by (simp add: audited_def)

lemma edit_one:
  "batch_edit E f action d i (st, r) =
     (case manager_get (cs_manager st) i of
        None \<Rightarrow> (st, batch_failed i ''Channel not found'' r)
      | Some c \<Rightarrow> (audited E action i (d (f c)) (st\<lparr>cs_manager := fst (manager_update (cs_manager st) i (f c))\<rparr>), batch_succeeded r))"
  by (auto simp: batch_edit_def manager_update_def manager_get_def hm_contains_def split: option.splits)

lemma edit_get:
  "manager_get (cs_manager (fst (batch_edit E f action d i (st, r)))) j =
     (if j = i then map_option f (manager_get (cs_manager st) j) else manager_get (cs_manager st) j)"
  by (auto simp: edit_one manager_update_def manager_get_def hm_contains_def split: option.splits)

lemma edit_fold:
  fixes E f action d ids st r
  defines "x \<equiv> fold (batch_edit E f action d) ids (st, r)"
  shows "manager_get (cs_manager (fst x)) j = map_option (f ^^ count_list ids j) (manager_get (cs_manager st) j)
    \<and> br_total (snd x) = br_total r
    \<and> br_success (snd x) = br_success r + length (filter (\<lambda>i. manager_get (cs_manager st) i \<noteq> None) ids)
    \<and> br_errors (snd x) = br_errors r @ map (\<lambda>i. (i, ''Channel not found'')) (filter (\<lambda>i. manager_get (cs_manager st) i = None) ids)
    \<and> br_failed (snd x) = br_failed r + length (filter (\<lambda>i. manager_get (cs_manager st) i = None) ids)"
  unfolding x_def
proof (induction ids arbitrary: st r)
  case (Cons i ids)
  obtain st' r' where e: "batch_edit E f action d i (st, r) = (st', r')" by fastforce
  have get: "manager_get (cs_manager st') j = (if j = i then map_option f (manager_get (cs_manager st) j) else manager_get (cs_manager st) j)" for j
    using edit_get[of E f action d i st r j] e by simp
  have r': "r' = (case manager_get (cs_manager st) i of None \<Rightarrow> batch_failed i ''Channel not found'' r | Some c \<Rightarrow> batch_succeeded r)"
    using e by (auto simp: edit_one split: option.splits)
  have "filter (\<lambda>k. manager_get (cs_manager st') k \<noteq> None) ids = filter (\<lambda>k. manager_get (cs_manager st) k \<noteq> None) ids"
    "filter (\<lambda>k. manager_get (cs_manager st') k = None) ids = filter (\<lambda>k. manager_get (cs_manager st) k = None) ids"
    by (auto simp: get intro!: filter_cong)
  with Cons.IH[of st' r'] show ?case
    by (auto simp: e get r' batch_failed_def batch_succeeded_def option.map_comp funpow_swap1 comp_def split: option.splits)
qed (simp add: option.map_id0)

text \<open>A bulk edit counts what it did: every id is counted as done or failed, it fails exactly for the ids that are no
  channel, in their order, and each channel is changed once for each time it is named; no other channel changes.\<close>

theorem batch_counts_exact:
  "let (st', r) = batch_disable_channels E ids st; known = (\<lambda>i. manager_get (cs_manager st) i \<noteq> None) in
     br_total r = length ids \<and> br_success r + br_failed r = length ids \<and> br_success r = length (filter known ids)
     \<and> br_errors r = map (\<lambda>i. (i, ''Channel not found'')) (filter (\<lambda>i. \<not> known i) ids)
     \<and> manager_get (cs_manager st') j =
         (if j \<in> set ids then map_option (disable_channel (ce_now E)) (manager_get (cs_manager st) j) else manager_get (cs_manager st) j)"
proof -
  let ?f = "disable_channel (ce_now E)"
  let ?step = "batch_edit E ?f ''channel.batch_disable'' (\<lambda>c. JObj [(''name'', JStr (ch_name c))])"
  let ?x = "fold ?step ids (st, batch_result_new (length ids))"
  note x = edit_fold[where E = E and f = ?f and action = "''channel.batch_disable''" and d = "\<lambda>c. JObj [(''name'', JStr (ch_name c))]"
      and ids = ids and st = st and r = "batch_result_new (length ids)" and j = j]
  have idem: "?f (?f c) = ?f c" for c by (simp add: disable_channel_def)
  have "(?f ^^ Suc n) c = ?f c" for n c by (induction n) (simp_all add: idem)
  then have "(?f ^^ n) = (if n = 0 then id else ?f)" for n by (cases n) (auto simp: fun_eq_iff)
  then have "map_option (?f ^^ count_list ids j) y = (if j \<in> set ids then map_option ?f y else y)" for y
    by (simp add: count_list_0_iff option.map_id)
  moreover have "batch_disable_channels E ids st = (if 0 < br_success (snd ?x) then saved (fst ?x) else fst ?x, snd ?x)"
    by (simp add: batch_disable_channels_def batch_run_def Let_def case_prod_beta)
  ultimately show ?thesis
    using x sum_length_filter_compl[of "\<lambda>i. manager_get (cs_manager st) i = None" ids]
    by (simp add: batch_result_new_def saved_def)
qed

section \<open>Addresses and rules\<close>

text \<open>The metadata address of the cloud providers is blocked as an IPv4 address but not in its IPv4-mapped IPv6 form, which
  names the same host.\<close>

theorem mapped_metadata_accepted:
  "check_metadata_ip field (V4 169 254 169 254) \<noteq> None
   \<and> check_metadata_ip field (V6 (0xffff00000000 + 0xa9fea9fe)) = None"
  by (simp add: check_metadata_ip_def)

text \<open>Payload rules that were set are read back as they were set, but an empty list of rules per model does not replace
  the one in force, and deleting the channel leaves its rules behind for a channel that takes the same id.\<close>

theorem payload_rules_read_back:
  assumes "manager_get (cs_manager st) i = Some c"
  shows "get_payload_rules i (fst (set_payload_rules i r st)) = Inr \<lparr>prc_rules = prc_rules r,
      prc_model_rules = (if prc_model_rules r = [] then cr_model_rules (rules_of (cs_rules st) i) else prc_model_rules r)\<rparr>
    \<and> cs_rules (fst (delete_channel E i st)) = cs_rules st"
proof -
  have "cs_rules (fst (delete_channel E i st)) = cs_rules st"
    by (auto simp: delete_channel_def remove_channel_def forget_credential_def Let_def audited_def saved_def split: prod.splits bool.splits option.splits)
  then show ?thesis
    using assms by (simp add: get_payload_rules_def set_payload_rules_def Let_def rules_get_full_def rules_add_def set_model_rules_def rules_of_def)
qed

end
