(* ===== verification/Quota_Collectors.thy ===== *)
theory Quota_Collectors
  imports Quota Channel_Manager Responses_Api Admin_Keys
begin

text \<open>
  The quota poller (\<open>quota/poller.rs\<close>), the registry that chooses a collector for a channel
  (\<open>quota/registry.rs\<close>, \<open>quota/provider.rs\<close>) and the eleven collectors that read the billing endpoint of a
  provider (\<open>quota/collectors/\<close>). A collector returns the requests it made, each an address with the value of its
  \<open>Authorization\<close> header, beside its result, so that statements about where a credential goes can be made. What
  the HTTP client answers, \<open>serde_json::from_str\<close> and the calendar of chrono are arguments. Amounts are the finite
  doubles of \<open>Float64\<close>: a provider that prints \<open>NaN\<close> or \<open>inf\<close> is outside the model.
\<close>

section \<open>Numbers as text\<close>

definition is_digit_char :: "char \<Rightarrow> bool" where
  "is_digit_char c \<longleftrightarrow> digit_value c \<noteq> None"

definition digits_value :: "string \<Rightarrow> nat" where
  "digits_value ds = foldl (\<lambda>n c. case digit_value c of Some d \<Rightarrow> 10 * n + d | None \<Rightarrow> n) 0 ds"

definition split_sign :: "string \<Rightarrow> bool \<times> string" where
  "split_sign s =
     (case s of
        [] \<Rightarrow> (False, [])
      | c # cs \<Rightarrow> if c = CHR ''-'' then (True, cs) else if c = CHR ''+'' then (False, cs) else (False, s))"

definition parse_exponent :: "string \<Rightarrow> int option" where
  "parse_exponent s =
     (case s of
        [] \<Rightarrow> Some 0
      | c # cs \<Rightarrow>
          if c \<noteq> CHR ''e'' \<and> c \<noteq> CHR ''E'' then None
          else let (neg, ds) = split_sign cs
               in if ds = [] \<or> (\<exists>d \<in> set ds. \<not> is_digit_char d) then None
                  else Some (if neg then - int (digits_value ds) else int (digits_value ds)))"

text \<open>\<open>str::parse::<f64>\<close> on the decimal notation: the nearest double.\<close>

definition parse_f64 :: "string \<Rightarrow> f64 option" where
  "parse_f64 s =
     (let (neg, t) = split_sign s;
          whole = takeWhile is_digit_char t;
          rest = dropWhile is_digit_char t;
          (frac, suffix) = (case rest of
                              c # cs \<Rightarrow> if c = CHR ''.'' then (takeWhile is_digit_char cs, dropWhile is_digit_char cs) else ([], rest)
                            | [] \<Rightarrow> ([], []))
      in if whole = [] \<and> frac = [] then None
         else map_option
                (\<lambda>e. f64_rnd ((if neg then - 1 else 1) * of_nat (digits_value (whole @ frac)) * 10 powi (e - int (length frac))))
                (parse_exponent suffix))"

text \<open>\<open>{:.n}\<close>: the exact value to \<open>n\<close> decimals, ties to even.\<close>

definition fmt_fixed :: "nat \<Rightarrow> f64 \<Rightarrow> string" where
  "fmt_fixed n v =
     (let k = nat (round_even (\<bar>v\<bar> * 10 ^ n))
      in (if v < 0 then ''-'' else [])
         @ (if n = 0 then nat_digits k else nat_digits (k div 10 ^ n) @ ''.'' @ zero_padded n (k mod 10 ^ n)))"

definition json_as_f64 :: "json \<Rightarrow> f64 option" where
  "json_as_f64 v = (case v of JInt n \<Rightarrow> Some (f64_rnd (of_int n)) | JFloat x \<Rightarrow> Some x | _ \<Rightarrow> None)"

definition json_as_i64 :: "json \<Rightarrow> int option" where
  "json_as_i64 v = (case v of JInt n \<Rightarrow> if - (2 ^ 63) \<le> n \<and> n < 2 ^ 63 then Some n else None | _ \<Rightarrow> None)"

abbreviation json_get_f64 :: "json \<Rightarrow> string \<Rightarrow> f64 option" where
  "json_get_f64 v k \<equiv> Option.bind (json_get v k) json_as_f64"

text \<open>A number or the text of one.\<close>

definition f64_or_text :: "json \<Rightarrow> f64 option" where
  "f64_or_text v = or_else (json_as_f64 v) (Option.bind (json_as_str v) parse_f64)"

section \<open>Contexts, replies and errors\<close>

datatype quota_error = Unsupported string | AuthFailed string | Network string | ParseError string

fun quota_error_str :: "quota_error \<Rightarrow> string" where
  "quota_error_str (Unsupported s) = ''unsupported: '' @ s"
| "quota_error_str (AuthFailed s) = ''auth failed: '' @ s"
| "quota_error_str (Network s) = ''network: '' @ s"
| "quota_error_str (ParseError s) = ''parse: '' @ s"

record poll_context =
  pc_channel_id :: uuid
  pc_channel_name :: string
  pc_provider :: string
  pc_base_url :: string
  pc_credential :: string
  pc_quota_config :: "quota_config option"

text \<open>A reply of the HTTP client: its status, what \<open>json()\<close> and what \<open>text()\<close> return of its body.\<close>

record quota_reply =
  qr_status :: nat
  qr_json :: "string + json"
  qr_text :: "string + string"

record quota_libs =
  ql_parse_json :: "string \<Rightarrow> json option"
  ql_rfc3339 :: "int \<Rightarrow> string option"
  ql_year :: "utc \<Rightarrow> string"
  ql_month :: "utc \<Rightarrow> nat"
  ql_date :: "utc \<Rightarrow> string"

type_synonym quota_net = "string \<Rightarrow> string \<Rightarrow> string + quota_reply"
type_synonym quota_request = "string \<times> string"
type_synonym poll_result = "quota_request list \<times> (quota_error + quota_info)"

definition bearer :: "poll_context \<Rightarrow> string" where
  "bearer ctx = ''Bearer '' @ pc_credential ctx"

definition fresh_info :: "utc \<Rightarrow> poll_context \<Rightarrow> string \<Rightarrow> quota_info" where
  "fresh_info now ctx source = quota_info_new now (pc_channel_id ctx) (pc_channel_name ctx) (pc_provider ctx) source"

text \<open>The request all collectors but \<open>openai_compat\<close> open with: a transport error, a 401 and an unreadable
  body end the poll.\<close>

definition billing_reply :: "quota_net \<Rightarrow> string \<Rightarrow> string \<Rightarrow> string \<Rightarrow> quota_error + quota_reply" where
  "billing_reply net url auth refused =
     (case net url auth of
        Inl e \<Rightarrow> Inl (Network e)
      | Inr resp \<Rightarrow> if qr_status resp = 401 then Inl (AuthFailed refused) else Inr resp)"

definition billing_json :: "quota_net \<Rightarrow> string \<Rightarrow> string \<Rightarrow> string \<Rightarrow> (json \<Rightarrow> quota_error + quota_info) \<Rightarrow> poll_result" where
  "billing_json net url auth refused k =
     ([(url, auth)],
      case billing_reply net url auth refused of
        Inl e \<Rightarrow> Inl e
      | Inr resp \<Rightarrow> (case qr_json resp of Inl e \<Rightarrow> Inl (ParseError e) | Inr body \<Rightarrow> k body))"

definition opt_item :: "string \<Rightarrow> nat \<Rightarrow> f64 option \<Rightarrow> quota_item list" where
  "opt_item label n v = (case v of Some x \<Rightarrow> [\<lparr>qi_label = label, qi_value = fmt_fixed n x\<rparr>] | None \<Rightarrow> [])"

section \<open>The collectors\<close>

datatype collector = JsonPathCollector | OpenRouterCollector | DeepSeekCollector | SiliconFlowCollector
  | MoonshotCollector | StepFunCollector | NovitaCollector | ShengSuanYunCollector | ZhipuCollector
  | MiniMaxCollector | OpenAiCompatCollector

subsection \<open>DeepSeek\<close>

definition text_or :: "json \<Rightarrow> string \<Rightarrow> string \<Rightarrow> string" where
  "text_or v k d = (case json_get_str v k of Some s \<Rightarrow> s | None \<Rightarrow> d)"

definition deepseek_items :: "json \<Rightarrow> quota_item list" where
  "deepseek_items info =
     (let currency = text_or info ''currency'' ''?''
      in [\<lparr>qi_label = ''Balance ('' @ currency @ '')'', qi_value = text_or info ''total_balance'' ''0''\<rparr>,
          \<lparr>qi_label = ''Granted ('' @ currency @ '')'', qi_value = text_or info ''granted_balance'' ''0''\<rparr>,
          \<lparr>qi_label = ''Topped Up ('' @ currency @ '')'', qi_value = text_or info ''topped_up_balance'' ''0''\<rparr>])"

definition parse_balance_response :: "utc \<Rightarrow> poll_context \<Rightarrow> json \<Rightarrow> quota_error + quota_info" where
  "parse_balance_response now ctx body =
     (case Option.bind (json_get body ''balance_infos'') json_as_array of
        None \<Rightarrow> Inl (ParseError ''no balance_infos'')
      | Some infos \<Rightarrow>
          let balance = foldl f64_add 0 (List.map_filter (\<lambda>i. Option.bind (json_get_str i ''total_balance'') parse_f64) infos);
              status = (case Option.bind (json_get body ''is_available'') json_as_bool of
                          Some a \<Rightarrow> [\<lparr>qi_label = ''Account Status'', qi_value = (if a then ''Available'' else ''Unavailable'')\<rparr>]
                        | None \<Rightarrow> [])
          in Inr ((fresh_info now ctx ''http_api'')
                    \<lparr>qu_balance := Some balance, qu_items := status @ concat (map deepseek_items infos)\<rparr>))"

definition deepseek_poll :: "utc \<Rightarrow> quota_net \<Rightarrow> poll_context \<Rightarrow> poll_result" where
  "deepseek_poll now net ctx =
     billing_json net ''https://api.deepseek.com/user/balance'' (bearer ctx) ''invalid API key''
       (parse_balance_response now ctx)"

subsection \<open>JSON paths\<close>

fun walk_json :: "string \<Rightarrow> json \<Rightarrow> string list \<Rightarrow> quota_error + json" where
  "walk_json path current [] = Inr current"
| "walk_json path current (segment # rest) =
     (if segment = [] then walk_json path current rest
      else case parse_usize segment of
             Some idx \<Rightarrow>
               (case json_index current idx of
                  Some v \<Rightarrow> walk_json path v rest
                | None \<Rightarrow> Inl (ParseError (''path '' @ [CHR 0x27] @ path @ [CHR 0x27] @ '' not found at index '' @ nat_digits idx)))
           | None \<Rightarrow>
               (case json_get current segment of
                  Some v \<Rightarrow> walk_json path v rest
                | None \<Rightarrow> Inl (ParseError (''path '' @ [CHR 0x27] @ path @ [CHR 0x27] @ '' not found at key '' @ [CHR 0x27] @ segment @ [CHR 0x27]))))"

definition extract_json_path :: "json \<Rightarrow> string \<Rightarrow> quota_error + f64 option" where
  "extract_json_path v path0 =
     (let path = (if starts_with path0 ''$.'' then drop 2 path0 else path0)
      in case walk_json path v (split_on (CHR ''.'') path) of
           Inl e \<Rightarrow> Inl e
         | Inr current \<Rightarrow> Inr (f64_or_text current))"

definition trim_base :: "string \<Rightarrow> string" where
  "trim_base url = trim_end_matches url ''/''"

definition balance_address :: "poll_context \<Rightarrow> string \<Rightarrow> string" where
  "balance_address ctx balance_url =
     (if starts_with balance_url ''http://'' \<or> starts_with balance_url ''https://'' then balance_url
      else trim_base (pc_base_url ctx) @ (if starts_with balance_url ''/'' then [] else ''/'') @ balance_url)"

definition optional_path :: "json \<Rightarrow> string option \<Rightarrow> f64 option" where
  "optional_path body p =
     (case p of None \<Rightarrow> None | Some path \<Rightarrow> (case extract_json_path body path of Inr v \<Rightarrow> v | Inl _ \<Rightarrow> None))"

definition jsonpath_poll :: "utc \<Rightarrow> quota_net \<Rightarrow> poll_context \<Rightarrow> poll_result" where
  "jsonpath_poll now net ctx =
     (case pc_quota_config ctx of
        None \<Rightarrow> ([], Inl (Unsupported ''no quota config''))
      | Some cfg \<Rightarrow>
          (case q_balance_url cfg of
             None \<Rightarrow> ([], Inl (Unsupported ''no balance_url configured''))
           | Some balance_url \<Rightarrow>
               (case q_balance_path cfg of
                  None \<Rightarrow> ([], Inl (Unsupported ''no balance_path configured''))
                | Some balance_path \<Rightarrow>
                    let prefix = (case q_auth_prefix cfg of Some p \<Rightarrow> p | None \<Rightarrow> ''Bearer'')
                    in billing_json net (balance_address ctx balance_url) (prefix @ '' '' @ pc_credential ctx) ''invalid credentials''
                         (\<lambda>body. case extract_json_path body balance_path of
                                   Inl e \<Rightarrow> Inl e
                                 | Inr balance \<Rightarrow>
                                     Inr ((fresh_info now ctx ''jsonpath'')
                                       \<lparr>qu_balance := balance, qu_limit := optional_path body (q_limit_path cfg),
                                        qu_usage := optional_path body (q_usage_path cfg)\<rparr>)))))"

subsection \<open>MiniMax\<close>

definition minimax_info :: "utc \<Rightarrow> poll_context \<Rightarrow> json \<Rightarrow> quota_info" where
  "minimax_info now ctx body =
     (let remaining = json_get_f64 body ''remaining''; total = json_get_f64 body ''total'';
          used = json_get_f64 body ''used''; balance = json_get_f64 body ''balance''
      in (fresh_info now ctx ''http_api'')
           \<lparr>qu_balance := or_else balance remaining, qu_limit := total, qu_usage := used,
            qu_items := opt_item ''remaining'' 0 remaining @ opt_item ''used'' 0 used @ opt_item ''total'' 0 total\<rparr>)"

definition minimax_body :: "utc \<Rightarrow> poll_context \<Rightarrow> json \<Rightarrow> quota_error + quota_info" where
  "minimax_body now ctx body =
     (let base_resp = json_get body ''base_resp''
      in case Option.bind (Option.bind base_resp (\<lambda>r. json_get r ''status_code'')) json_as_i64 of
           Some code \<Rightarrow>
             if code \<noteq> 0 then
               Inl (ParseError (''API error '' @ int_digits code @ '': '' @
                 (case Option.bind base_resp (\<lambda>r. json_get_str r ''status_msg'') of Some m \<Rightarrow> m | None \<Rightarrow> ''unknown error'')))
             else Inr (minimax_info now ctx body)
         | None \<Rightarrow> Inr (minimax_info now ctx body))"

definition minimax_poll :: "utc \<Rightarrow> quota_net \<Rightarrow> poll_context \<Rightarrow> poll_result" where
  "minimax_poll now net ctx =
     billing_json net ''https://api.minimaxi.com/v1/api/openplatform/coding_plan/remains'' (bearer ctx) ''invalid API key''
       (minimax_body now ctx)"

subsection \<open>Moonshot\<close>

definition moonshot_body :: "utc \<Rightarrow> poll_context \<Rightarrow> json \<Rightarrow> quota_error + quota_info" where
  "moonshot_body now ctx body =
     (case json_get body ''data'' of
        None \<Rightarrow> Inl (ParseError ''no data field'')
      | Some data \<Rightarrow>
          Inr ((fresh_info now ctx ''http_api'')
            \<lparr>qu_balance := json_get_f64 data ''available_balance'',
             qu_items := opt_item ''voucher'' 2 (json_get_f64 data ''voucher_balance'')
                         @ opt_item ''cash'' 2 (json_get_f64 data ''cash_balance'')\<rparr>))"

definition moonshot_poll :: "utc \<Rightarrow> quota_net \<Rightarrow> poll_context \<Rightarrow> poll_result" where
  "moonshot_poll now net ctx =
     billing_json net ''https://api.moonshot.cn/v1/users/me/balance'' (bearer ctx) ''invalid API key'' (moonshot_body now ctx)"

subsection \<open>Novita\<close>

definition novita_balance :: "quota_libs \<Rightarrow> string \<Rightarrow> f64 option" where
  "novita_balance L raw =
     (case parse_f64 (trim raw) of
        Some v \<Rightarrow> Some (f64_div v 10000)
      | None \<Rightarrow>
          (case ql_parse_json L raw of
             Some body \<Rightarrow> map_option (\<lambda>v. f64_div v 10000) (or_else (json_as_f64 body) (json_get_f64 body ''balance''))
           | None \<Rightarrow> None))"

definition novita_poll :: "quota_libs \<Rightarrow> utc \<Rightarrow> quota_net \<Rightarrow> poll_context \<Rightarrow> poll_result" where
  "novita_poll L now net ctx =
     (let url = ''https://api.novita.ai/openapi/v1/user/balance''
      in ([(url, bearer ctx)],
          case billing_reply net url (bearer ctx) ''invalid API key'' of
            Inl e \<Rightarrow> Inl e
          | Inr resp \<Rightarrow>
              (case qr_text resp of
                 Inl e \<Rightarrow> Inl (ParseError e)
               | Inr raw \<Rightarrow> Inr ((fresh_info now ctx ''http_api'')\<lparr>qu_balance := novita_balance L raw\<rparr>))))"

subsection \<open>OpenAI-compatible stations\<close>

text \<open>The loop over the two spellings of an address: the first one that answers with success and a JSON
  body.\<close>

definition compat_body :: "quota_net \<Rightarrow> string \<Rightarrow> string \<Rightarrow> json option" where
  "compat_body net auth url =
     (case net url auth of
        Inl _ \<Rightarrow> None
      | Inr resp \<Rightarrow> if 200 \<le> qr_status resp \<and> qr_status resp < 300
                    then (case qr_json resp of Inr body \<Rightarrow> Some body | Inl _ \<Rightarrow> None) else None)"

fun compat_fetch :: "quota_net \<Rightarrow> string \<Rightarrow> string list \<Rightarrow> quota_request list \<times> json option" where
  "compat_fetch net auth [] = ([], None)"
| "compat_fetch net auth (url # urls) =
     (case compat_body net auth url of
        Some body \<Rightarrow> ([(url, auth)], Some body)
      | None \<Rightarrow> (let (reqs, body) = compat_fetch net auth urls in ((url, auth) # reqs, body)))"

definition month_start :: "quota_libs \<Rightarrow> utc \<Rightarrow> string" where
  "month_start L now = ql_year L now @ ''-'' @ zero_padded 2 (ql_month L now) @ ''-01''"

definition usage_query :: "quota_libs \<Rightarrow> utc \<Rightarrow> string" where
  "usage_query L now = ''?start_date='' @ month_start L now @ ''&end_date='' @ ql_date L now"

definition access_until :: "quota_libs \<Rightarrow> json \<Rightarrow> string option" where
  "access_until L body =
     map_option (\<lambda>t. case ql_rfc3339 L t of Some s \<Rightarrow> s | None \<Rightarrow> int_digits t)
       (Option.bind (json_get body ''access_until'') json_as_i64)"

definition total_usage_usd :: "json option \<Rightarrow> f64" where
  "total_usage_usd body =
     (case body of Some b \<Rightarrow> f64_div (opt_rate (json_get_f64 b ''total_usage'')) 100 | None \<Rightarrow> 0)"

definition openai_compat_poll :: "quota_libs \<Rightarrow> utc \<Rightarrow> quota_net \<Rightarrow> poll_context \<Rightarrow> poll_result" where
  "openai_compat_poll L now net ctx =
     (let base = trim_base (pc_base_url ctx);
          (reqs, subscription) = compat_fetch net (bearer ctx)
            [base @ ''/dashboard/billing/subscription'', base @ ''/v1/dashboard/billing/subscription'']
      in case Option.bind subscription (\<lambda>b. json_get_f64 b ''hard_limit_usd'') of
           None \<Rightarrow> (reqs, Inl (Unsupported ''no /dashboard/billing/subscription endpoint''))
         | Some hard_limit \<Rightarrow>
             let (reqs', usage_body) = compat_fetch net (bearer ctx)
                   [base @ ''/dashboard/billing/usage'' @ usage_query L now, base @ ''/v1/dashboard/billing/usage'' @ usage_query L now];
                 used = total_usage_usd usage_body
             in (reqs @ reqs',
                 Inr ((fresh_info now ctx ''http_api'')
                   \<lparr>qu_balance := Some (f64_sub hard_limit used), qu_limit := Some hard_limit, qu_usage := Some used,
                    qu_expires_at := Option.bind subscription (access_until L)\<rparr>)))"

subsection \<open>OpenRouter, ShengSuanYun, SiliconFlow and StepFun\<close>

definition openrouter_body :: "utc \<Rightarrow> poll_context \<Rightarrow> json \<Rightarrow> quota_error + quota_info" where
  "openrouter_body now ctx body =
     (case json_get body ''data'' of
        None \<Rightarrow> Inl (ParseError ''no data field'')
      | Some data \<Rightarrow>
          let used = json_get_f64 data ''usage'';
              limit = Option.bind (json_get_f64 data ''limit'') (\<lambda>v. if 0 < v then Some v else None)
          in Inr ((fresh_info now ctx ''http_api'')
               \<lparr>qu_balance := Option.bind limit (\<lambda>l. map_option (f64_sub l) used), qu_limit := limit, qu_usage := used,
                qu_items := opt_item ''daily'' 2 (json_get_f64 data ''usage_daily'')
                            @ opt_item ''weekly'' 2 (json_get_f64 data ''usage_weekly'')
                            @ opt_item ''monthly'' 2 (json_get_f64 data ''usage_monthly'')\<rparr>))"

definition openrouter_poll :: "utc \<Rightarrow> quota_net \<Rightarrow> poll_context \<Rightarrow> poll_result" where
  "openrouter_poll now net ctx =
     billing_json net ''https://openrouter.ai/api/v1/key'' (bearer ctx) ''invalid API key'' (openrouter_body now ctx)"

definition shengsuanyun_body :: "utc \<Rightarrow> poll_context \<Rightarrow> json \<Rightarrow> quota_error + quota_info" where
  "shengsuanyun_body now ctx body =
     (case json_get body ''data'' of
        None \<Rightarrow> Inl (ParseError ''no data field'')
      | Some data \<Rightarrow>
          let max_quota = opt_rate (json_get_f64 data ''max_quota'');
              consumed = opt_rate (json_get_f64 data ''consumed_amount'')
          in Inr ((fresh_info now ctx ''http_api'')
               \<lparr>qu_balance := Some (f64_div (f64_sub max_quota consumed) 500000),
                qu_limit := Some (f64_div max_quota 500000), qu_usage := Some (f64_div consumed 500000)\<rparr>))"

definition shengsuanyun_poll :: "utc \<Rightarrow> quota_net \<Rightarrow> poll_context \<Rightarrow> poll_result" where
  "shengsuanyun_poll now net ctx =
     billing_json net ''https://router.shengsuanyun.com/api/v1/key'' (bearer ctx) ''invalid API key'' (shengsuanyun_body now ctx)"

definition siliconflow_poll :: "utc \<Rightarrow> quota_net \<Rightarrow> poll_context \<Rightarrow> poll_result" where
  "siliconflow_poll now net ctx =
     billing_json net ''https://api.siliconflow.cn/v1/user/info'' (bearer ctx) ''invalid API key''
       (\<lambda>body. Inr ((fresh_info now ctx ''http_api'')
                 \<lparr>qu_balance := or_else (json_get_f64 body ''totalBalance'') (json_get_f64 body ''balance'')\<rparr>))"

definition stepfun_poll :: "utc \<Rightarrow> quota_net \<Rightarrow> poll_context \<Rightarrow> poll_result" where
  "stepfun_poll now net ctx =
     billing_json net ''https://api.stepfun.com/v1/accounts'' (bearer ctx) ''invalid API key''
       (\<lambda>body. let cash = opt_rate (json_get_f64 body ''total_cash_balance'');
                   voucher = opt_rate (json_get_f64 body ''total_voucher_balance'')
               in Inr ((fresh_info now ctx ''http_api'')
                    \<lparr>qu_balance := Some (f64_add cash voucher),
                     qu_items := (if 0 < cash then opt_item ''cash'' 2 (Some cash) else [])
                                 @ (if 0 < voucher then opt_item ''voucher'' 2 (Some voucher) else [])\<rparr>))"

subsection \<open>Zhipu\<close>

definition account_amount :: "json \<Rightarrow> string \<Rightarrow> f64" where
  "account_amount account k = opt_rate (Option.bind (json_get account k) f64_or_text)"

definition positive :: "f64 \<Rightarrow> f64 option" where
  "positive x = (if 0 < x then Some x else None)"

definition zhipu_item :: "json \<Rightarrow> quota_item list" where
  "zhipu_item account =
     (case json_get_str account ''name'' of
        Some name \<Rightarrow> [\<lparr>qi_label = name, qi_value = fmt_fixed 2 (account_amount account ''balance'') @ '' / ''
                                                 @ fmt_fixed 2 (account_amount account ''totalBalance'')\<rparr>]
      | None \<Rightarrow> [])"

definition zhipu_body :: "utc \<Rightarrow> poll_context \<Rightarrow> json \<Rightarrow> quota_error + quota_info" where
  "zhipu_body now ctx body =
     (case Option.bind (json_get body ''data'') json_as_array of
        None \<Rightarrow> Inl (ParseError ''no data array in response'')
      | Some accts \<Rightarrow>
          let total = (\<lambda>k. foldl (\<lambda>acc a. f64_add acc (account_amount a k)) 0 accts)
          in Inr ((fresh_info now ctx ''http_api'')
               \<lparr>qu_balance := positive (total ''balance''), qu_limit := positive (total ''totalBalance''),
                qu_usage := positive (total ''usedBalance''), qu_items := concat (map zhipu_item accts)\<rparr>))"

definition zhipu_poll :: "utc \<Rightarrow> quota_net \<Rightarrow> poll_context \<Rightarrow> poll_result" where
  "zhipu_poll now net ctx =
     billing_json net ''https://open.bigmodel.cn/api/paas/api/biz/tokenAccounts/list?filterEnabled=true'' (bearer ctx)
       ''invalid API key'' (zhipu_body now ctx)"

section \<open>The registry\<close>

fun collector_id :: "collector \<Rightarrow> string" where
  "collector_id JsonPathCollector = ''jsonpath''"
| "collector_id OpenRouterCollector = ''openrouter''"
| "collector_id DeepSeekCollector = ''deepseek''"
| "collector_id SiliconFlowCollector = ''siliconflow''"
| "collector_id MoonshotCollector = ''moonshot''"
| "collector_id StepFunCollector = ''stepfun''"
| "collector_id NovitaCollector = ''novita''"
| "collector_id ShengSuanYunCollector = ''shengsuanyun''"
| "collector_id ZhipuCollector = ''zhipu''"
| "collector_id MiniMaxCollector = ''minimax''"
| "collector_id OpenAiCompatCollector = ''openai_compat''"

fun collector_poll :: "quota_libs \<Rightarrow> utc \<Rightarrow> quota_net \<Rightarrow> collector \<Rightarrow> poll_context \<Rightarrow> poll_result" where
  "collector_poll L now net JsonPathCollector ctx = jsonpath_poll now net ctx"
| "collector_poll L now net OpenRouterCollector ctx = openrouter_poll now net ctx"
| "collector_poll L now net DeepSeekCollector ctx = deepseek_poll now net ctx"
| "collector_poll L now net SiliconFlowCollector ctx = siliconflow_poll now net ctx"
| "collector_poll L now net MoonshotCollector ctx = moonshot_poll now net ctx"
| "collector_poll L now net StepFunCollector ctx = stepfun_poll now net ctx"
| "collector_poll L now net NovitaCollector ctx = novita_poll L now net ctx"
| "collector_poll L now net ShengSuanYunCollector ctx = shengsuanyun_poll now net ctx"
| "collector_poll L now net ZhipuCollector ctx = zhipu_poll now net ctx"
| "collector_poll L now net MiniMaxCollector ctx = minimax_poll now net ctx"
| "collector_poll L now net OpenAiCompatCollector ctx = openai_compat_poll L now net ctx"

definition url_has :: "poll_context \<Rightarrow> string \<Rightarrow> bool" where
  "url_has ctx p \<longleftrightarrow> str_contains (to_lowercase (pc_base_url ctx)) p"

definition eq_ignore_case :: "string \<Rightarrow> string \<Rightarrow> bool" where
  "eq_ignore_case a b \<longleftrightarrow> to_lowercase a = to_lowercase b"

fun collector_supports :: "collector \<Rightarrow> poll_context \<Rightarrow> bool" where
  "collector_supports JsonPathCollector ctx \<longleftrightarrow>
     (case pc_quota_config ctx of Some cfg \<Rightarrow> q_balance_url cfg \<noteq> None \<and> q_balance_path cfg \<noteq> None | None \<Rightarrow> False)"
| "collector_supports OpenRouterCollector ctx \<longleftrightarrow> eq_ignore_case (pc_provider ctx) ''openrouter''"
| "collector_supports DeepSeekCollector ctx \<longleftrightarrow> eq_ignore_case (pc_provider ctx) ''deepseek''"
| "collector_supports SiliconFlowCollector ctx \<longleftrightarrow> eq_ignore_case (pc_provider ctx) ''siliconflow'' \<or> url_has ctx ''siliconflow''"
| "collector_supports MoonshotCollector ctx \<longleftrightarrow>
     to_lowercase (pc_provider ctx) \<in> {''moonshot'', ''kimi''} \<or> url_has ctx ''moonshot'' \<or> url_has ctx ''kimi''"
| "collector_supports StepFunCollector ctx \<longleftrightarrow> eq_ignore_case (pc_provider ctx) ''stepfun'' \<or> url_has ctx ''stepfun''"
| "collector_supports NovitaCollector ctx \<longleftrightarrow> eq_ignore_case (pc_provider ctx) ''novita'' \<or> url_has ctx ''novita''"
| "collector_supports ShengSuanYunCollector ctx \<longleftrightarrow>
     eq_ignore_case (pc_provider ctx) ''shengsuanyun'' \<or> url_has ctx ''shengsuanyun''"
| "collector_supports ZhipuCollector ctx \<longleftrightarrow>
     to_lowercase (pc_provider ctx) \<in> {''zhipu'', ''glm'', ''bigmodel''} \<or> url_has ctx ''bigmodel''"
| "collector_supports MiniMaxCollector ctx \<longleftrightarrow> to_lowercase (pc_provider ctx) = ''minimax'' \<or> url_has ctx ''minimax''"
| "collector_supports OpenAiCompatCollector ctx \<longleftrightarrow> True"

definition default_registry :: "collector list" where
  "default_registry = [JsonPathCollector, OpenRouterCollector, DeepSeekCollector, SiliconFlowCollector, MoonshotCollector,
     StepFunCollector, NovitaCollector, ShengSuanYunCollector, ZhipuCollector, MiniMaxCollector, OpenAiCompatCollector]"

definition find_by_id :: "collector list \<Rightarrow> string \<Rightarrow> collector option" where
  "find_by_id ps i = List.find (\<lambda>p. eq_ignore_case (collector_id p) i) ps"

definition match_by_url :: "collector list \<Rightarrow> string \<Rightarrow> collector option" where
  "match_by_url ps url =
     (let lower = to_lowercase url
      in if str_contains lower ''siliconflow'' then find_by_id ps ''siliconflow''
         else if str_contains lower ''moonshot'' \<or> str_contains lower ''kimi'' then find_by_id ps ''moonshot''
         else if str_contains lower ''stepfun'' then find_by_id ps ''stepfun''
         else if str_contains lower ''novita'' then find_by_id ps ''novita''
         else if str_contains lower ''shengsuanyun'' then find_by_id ps ''shengsuanyun''
         else if str_contains lower ''bigmodel'' then find_by_id ps ''zhipu''
         else if str_contains lower ''minimax'' then find_by_id ps ''minimax''
         else if str_contains lower ''deepseek'' then find_by_id ps ''deepseek''
         else None)"

text \<open>The steps of \<open>resolve\<close> after the explicit strategy.\<close>

definition resolve_auto :: "collector list \<Rightarrow> poll_context \<Rightarrow> collector option" where
  "resolve_auto ps ctx =
     (let automatic = or_else (find_by_id ps (pc_provider ctx))
                        (or_else (match_by_url ps (pc_base_url ctx)) (find_by_id ps ''openai_compat''))
      in case find_by_id ps ''jsonpath'' of
           Some p \<Rightarrow> if collector_supports p ctx then Some p else automatic
         | None \<Rightarrow> automatic)"

definition resolve :: "collector list \<Rightarrow> poll_context \<Rightarrow> collector option" where
  "resolve ps ctx =
     (case Option.bind (pc_quota_config ctx) q_strategy of
        None \<Rightarrow> resolve_auto ps ctx
      | Some strategy \<Rightarrow>
          if strategy = ''disabled'' then None
          else (case find_by_id ps strategy of Some p \<Rightarrow> Some p | None \<Rightarrow> resolve_auto ps ctx))"

definition registry_poll :: "collector list \<Rightarrow> quota_libs \<Rightarrow> utc \<Rightarrow> quota_net \<Rightarrow> poll_context \<Rightarrow> poll_result" where
  "registry_poll ps L now net ctx =
     (case resolve ps ctx of
        None \<Rightarrow> ([], Inl (Unsupported (''no quota provider for '' @ [CHR 0x27] @ pc_provider ctx @ [CHR 0x27])))
      | Some p \<Rightarrow> collector_poll L now net p ctx)"

section \<open>The poller\<close>

record poll_env =
  pe_libs :: quota_libs
  pe_registry :: "collector list"
  pe_configs :: "(string, quota_config) hashmap"
  pe_cred_get :: "string \<Rightarrow> string \<Rightarrow> string option"
  pe_print_uuid :: "uuid \<Rightarrow> string"

text \<open>The network and the clock of one channel's turn.\<close>

type_synonym poll_turn = "quota_net \<times> utc"

definition no_key_message :: string where
  "no_key_message = ''No API key configured '' @ [CHR 0xE2, CHR 0x80, CHR 0x94]
     @ '' add api_key in channel config or re-create the channel''"

definition poll_ctx :: "poll_env \<Rightarrow> channel \<Rightarrow> string \<Rightarrow> poll_context" where
  "poll_ctx E ch api_key =
     \<lparr>pc_channel_id = ch_id ch, pc_channel_name = ch_name ch, pc_provider = provider_as_str (ch_provider ch),
      pc_base_url = ch_base_url ch, pc_credential = api_key,
      pc_quota_config = hm_get (pe_configs E) (pe_print_uuid E (ch_id ch))\<rparr>"

definition error_info :: "utc \<Rightarrow> channel \<Rightarrow> string \<Rightarrow> quota_info" where
  "error_info now ch e =
     (quota_info_new now (ch_id ch) (ch_name ch) (provider_as_str (ch_provider ch)) ''http_api'')\<lparr>qu_error := Some e\<rparr>"

fun polled_info :: "utc \<Rightarrow> channel \<Rightarrow> quota_error + quota_info \<Rightarrow> quota_info" where
  "polled_info now ch (Inr info) = info\<lparr>qu_updated_at := now\<rparr>"
| "polled_info now ch (Inl (Unsupported reason)) = error_info now ch reason"
| "polled_info now ch (Inl e) = error_info now ch (quota_error_str e)"

text \<open>One channel: \<open>None\<close> is the panic of the credential lookup, which ends the poller's task.\<close>

definition poll_channel :: "poll_env \<Rightarrow> poll_turn \<Rightarrow> channel \<Rightarrow> manager \<times> quota_store \<Rightarrow> (manager \<times> quota_store) option" where
  "poll_channel E turn ch st =
     (let (net, now) = turn; (m, s) = st
      in if \<not> ch_enabled ch then Some st
         else case get_credential (pe_cred_get E) m (ch_id ch) of
                (m', CredPanic) \<Rightarrow> None
              | (m', Cred None) \<Rightarrow> Some (m', quota_update s (error_info now ch no_key_message))
              | (m', Cred (Some api_key)) \<Rightarrow>
                  Some (m', quota_update s (polled_info now ch
                    (snd (registry_poll (pe_registry E) (pe_libs E) now net (poll_ctx E ch api_key))))))"

fun poll_channels :: "poll_env \<Rightarrow> (nat \<Rightarrow> poll_turn) \<Rightarrow> channel list \<Rightarrow> manager \<times> quota_store \<Rightarrow> (manager \<times> quota_store) option" where
  "poll_channels E turns [] st = Some st"
| "poll_channels E turns (ch # chs) st =
     Option.bind (poll_channel E (turns (length chs)) ch st) (poll_channels E turns chs)"

definition poll_all_channels :: "poll_env \<Rightarrow> utc \<Rightarrow> (nat \<Rightarrow> poll_turn) \<Rightarrow> manager \<times> quota_store \<Rightarrow> (manager \<times> quota_store) option" where
  "poll_all_channels E now turns st = poll_channels E turns (manager_list (fst st) now) st"

text \<open>\<open>start_quota_poller\<close>: one pass at once and one for every tick of the interval.\<close>

fun quota_poller :: "poll_env \<Rightarrow> (utc \<times> (nat \<Rightarrow> poll_turn)) list \<Rightarrow> manager \<times> quota_store \<Rightarrow> (manager \<times> quota_store) option" where
  "quota_poller E [] st = Some st"
| "quota_poller E ((now, turns) # ticks) st = Option.bind (poll_all_channels E now turns st) (quota_poller E ticks)"

section \<open>What every collector promises\<close>

text \<open>The six counters of an entry that the requests served add to, and what is on record for a channel.\<close>

definition usage_counters ::
  "quota_info \<Rightarrow> u64 option \<times> u64 option \<times> u64 option \<times> u64 option \<times> u64 option \<times> f64 option" where
  "usage_counters q =
     (qu_total_input_tokens q, qu_total_output_tokens q, qu_total_cache_hit_tokens q, qu_total_cache_miss_tokens q,
      qu_total_requests_counted q, qu_total_estimated_cost q)"

definition counters_of ::
  "quota_store \<Rightarrow> uuid \<Rightarrow> u64 option \<times> u64 option \<times> u64 option \<times> u64 option \<times> u64 option \<times> f64 option" where
  "counters_of s i = (case hm_get s i of Some q \<Rightarrow> usage_counters q | None \<Rightarrow> (None, None, None, None, None, None))"

abbreviation no_counters :: "quota_info \<Rightarrow> bool" where
  "no_counters q \<equiv> usage_counters q = (None, None, None, None, None, None)"

text \<open>The contract between the poller and whatever answers for a channel: a result carries the identity of the
  channel and no usage counters of its own.\<close>

locale quota_source =
  fixes poll_source :: "poll_context \<Rightarrow> poll_result"
  assumes source_fresh: "snd (poll_source ctx) = Inr info \<Longrightarrow>
    qu_channel_id info = pc_channel_id ctx \<and> qu_channel_name info = pc_channel_name ctx \<and> no_counters info"
begin

lemma polled_info_fresh:
  assumes "info = polled_info now ch (snd (poll_source (poll_ctx E ch key)))"
  shows "qu_channel_id info = ch_id ch" "qu_channel_name info = ch_name ch" "no_counters info"
proof -
  have "qu_channel_id info = ch_id ch \<and> qu_channel_name info = ch_name ch \<and> no_counters info"
  proof (cases "snd (poll_source (poll_ctx E ch key))")
    case (Inl e)
    then show ?thesis using assms by (cases e) (simp_all add: error_info_def quota_info_new_def usage_counters_def)
  next
    case (Inr i)
    then show ?thesis using assms source_fresh[OF Inr] by (simp add: poll_ctx_def usage_counters_def)
  qed
  then show "qu_channel_id info = ch_id ch" "qu_channel_name info = ch_name ch" "no_counters info" by auto
qed

end

lemmas body_defs = parse_balance_response_def minimax_body_def minimax_info_def moonshot_body_def openrouter_body_def
  shengsuanyun_body_def zhipu_body_def

lemmas collector_defs = jsonpath_poll_def deepseek_poll_def minimax_poll_def moonshot_poll_def novita_poll_def
  openrouter_poll_def shengsuanyun_poll_def siliconflow_poll_def stepfun_poll_def zhipu_poll_def openai_compat_poll_def

definition info_fresh :: "poll_context \<Rightarrow> quota_info \<Rightarrow> bool" where
  "info_fresh ctx info \<longleftrightarrow> qu_channel_id info = pc_channel_id ctx \<and> qu_channel_name info = pc_channel_name ctx
     \<and> no_counters info"

lemma fresh_updates [simp]:
  "info_fresh ctx (fresh_info now ctx src)"
  "info_fresh ctx (q\<lparr>qu_balance := b\<rparr>) = info_fresh ctx q"
  "info_fresh ctx (q\<lparr>qu_limit := b\<rparr>) = info_fresh ctx q"
  "info_fresh ctx (q\<lparr>qu_usage := b\<rparr>) = info_fresh ctx q"
  "info_fresh ctx (q\<lparr>qu_items := its\<rparr>) = info_fresh ctx q"
  "info_fresh ctx (q\<lparr>qu_expires_at := x\<rparr>) = info_fresh ctx q"
  by (simp_all add: info_fresh_def fresh_info_def quota_info_new_def usage_counters_def)

lemma bodies_fresh:
  "parse_balance_response now ctx body = Inr info \<Longrightarrow> info_fresh ctx info"
  "minimax_body now ctx body = Inr info \<Longrightarrow> info_fresh ctx info"
  "moonshot_body now ctx body = Inr info \<Longrightarrow> info_fresh ctx info"
  "openrouter_body now ctx body = Inr info \<Longrightarrow> info_fresh ctx info"
  "shengsuanyun_body now ctx body = Inr info \<Longrightarrow> info_fresh ctx info"
  "zhipu_body now ctx body = Inr info \<Longrightarrow> info_fresh ctx info"
  by (auto simp: body_defs Let_def split: option.splits if_splits)

lemma billing_json_fresh:
  assumes "snd (billing_json net url auth msg k) = Inr info" "\<And>body info. k body = Inr info \<Longrightarrow> info_fresh ctx info"
  shows "info_fresh ctx info"
  using assms by (auto simp: billing_json_def split: sum.splits)

lemma jsonpath_fresh: "snd (jsonpath_poll now net ctx) = Inr info \<Longrightarrow> info_fresh ctx info"
  by (auto simp: jsonpath_poll_def Let_def split: option.splits sum.splits elim!: billing_json_fresh)

lemma novita_fresh: "snd (novita_poll L now net ctx) = Inr info \<Longrightarrow> info_fresh ctx info"
  by (auto simp: novita_poll_def Let_def split: sum.splits)

lemma compat_fresh: "snd (openai_compat_poll L now net ctx) = Inr info \<Longrightarrow> info_fresh ctx info"
  by (auto simp: openai_compat_poll_def Let_def split: option.splits prod.splits)

lemma collector_fresh:
  assumes "snd (collector_poll L now net p ctx) = Inr info"
  shows "info_fresh ctx info"
  using assms
  by (cases p)
    (auto simp: deepseek_poll_def minimax_poll_def moonshot_poll_def openrouter_poll_def shengsuanyun_poll_def
        siliconflow_poll_def stepfun_poll_def zhipu_poll_def Let_def
      intro: jsonpath_fresh novita_fresh compat_fresh
      elim!: billing_json_fresh bodies_fresh)

interpretation registry: quota_source "registry_poll ps L now net" for ps L now net
  by unfold_locales (auto simp: registry_poll_def info_fresh_def split: option.splits dest!: collector_fresh)

section \<open>Choosing a collector\<close>

lemma find_default [simp]:
  "find_by_id default_registry ''jsonpath'' = Some JsonPathCollector"
  "find_by_id default_registry ''openai_compat'' = Some OpenAiCompatCollector"
  "find_by_id default_registry ''siliconflow'' = Some SiliconFlowCollector"
  "find_by_id default_registry ''moonshot'' = Some MoonshotCollector"
  "find_by_id default_registry ''stepfun'' = Some StepFunCollector"
  "find_by_id default_registry ''novita'' = Some NovitaCollector"
  "find_by_id default_registry ''shengsuanyun'' = Some ShengSuanYunCollector"
  "find_by_id default_registry ''zhipu'' = Some ZhipuCollector"
  "find_by_id default_registry ''minimax'' = Some MiniMaxCollector"
  "find_by_id default_registry ''deepseek'' = Some DeepSeekCollector"
  by (simp_all add: find_by_id_def default_registry_def eq_ignore_case_def to_lowercase_def)

lemma find_by_id_matches: "find_by_id ps i = Some p \<Longrightarrow> eq_ignore_case (collector_id p) i"
  by (auto simp: find_by_id_def find_Some_iff)

text \<open>
  With the built-in collectors every channel is polled by one of them, whatever its provider is called: the
  registry comes up empty exactly when the channel's quota configuration says \<open>disabled\<close>.
\<close>

theorem resolve_total:
  "(resolve default_registry ctx = None) = (Option.bind (pc_quota_config ctx) q_strategy = Some ''disabled'')"
  by (auto simp: resolve_def resolve_auto_def or_else_def Let_def split: option.splits)

section \<open>Where a credential goes\<close>

text \<open>The fixed billing address of a collector and the words that select it in a base URL.\<close>

fun billing_address :: "collector \<Rightarrow> string option" where
  "billing_address OpenRouterCollector = Some ''https://openrouter.ai/api/v1/key''"
| "billing_address DeepSeekCollector = Some ''https://api.deepseek.com/user/balance''"
| "billing_address SiliconFlowCollector = Some ''https://api.siliconflow.cn/v1/user/info''"
| "billing_address MoonshotCollector = Some ''https://api.moonshot.cn/v1/users/me/balance''"
| "billing_address StepFunCollector = Some ''https://api.stepfun.com/v1/accounts''"
| "billing_address NovitaCollector = Some ''https://api.novita.ai/openapi/v1/user/balance''"
| "billing_address ShengSuanYunCollector = Some ''https://router.shengsuanyun.com/api/v1/key''"
| "billing_address ZhipuCollector = Some ''https://open.bigmodel.cn/api/paas/api/biz/tokenAccounts/list?filterEnabled=true''"
| "billing_address MiniMaxCollector = Some ''https://api.minimaxi.com/v1/api/openplatform/coding_plan/remains''"
| "billing_address JsonPathCollector = None"
| "billing_address OpenAiCompatCollector = None"

fun url_markers :: "collector \<Rightarrow> string list" where
  "url_markers SiliconFlowCollector = [''siliconflow'']"
| "url_markers MoonshotCollector = [''moonshot'', ''kimi'']"
| "url_markers StepFunCollector = [''stepfun'']"
| "url_markers NovitaCollector = [''novita'']"
| "url_markers ShengSuanYunCollector = [''shengsuanyun'']"
| "url_markers ZhipuCollector = [''bigmodel'']"
| "url_markers MiniMaxCollector = [''minimax'']"
| "url_markers DeepSeekCollector = [''deepseek'']"
| "url_markers _ = []"

text \<open>The channel names the collector: as its strategy, as its provider, or by a word of its base URL.\<close>

definition names_collector :: "poll_context \<Rightarrow> collector \<Rightarrow> bool" where
  "names_collector ctx p \<longleftrightarrow>
     (\<exists>s. Option.bind (pc_quota_config ctx) q_strategy = Some s \<and> eq_ignore_case (collector_id p) s)
     \<or> eq_ignore_case (collector_id p) (pc_provider ctx)
     \<or> (\<exists>w \<in> set (url_markers p). url_has ctx w)"

lemma match_by_url_marked: "match_by_url default_registry (pc_base_url ctx) = Some p \<Longrightarrow> \<exists>w \<in> set (url_markers p). url_has ctx w"
  unfolding match_by_url_def Let_def url_has_def[symmetric] by (auto split: if_splits)

lemma resolve_auto_named:
  assumes "resolve_auto default_registry ctx = Some p"
  shows "p = JsonPathCollector \<or> p = OpenAiCompatCollector \<or> names_collector ctx p"
proof -
  have "p = JsonPathCollector \<or> find_by_id default_registry (pc_provider ctx) = Some p
      \<or> match_by_url default_registry (pc_base_url ctx) = Some p \<or> p = OpenAiCompatCollector"
    using assms
    by (cases "collector_supports JsonPathCollector ctx"; cases "find_by_id default_registry (pc_provider ctx)";
        cases "match_by_url default_registry (pc_base_url ctx)")
      (simp_all add: resolve_auto_def or_else_def Let_def del: collector_supports.simps)
  then show ?thesis
    using find_by_id_matches match_by_url_marked names_collector_def by blast
qed

lemma resolve_named:
  assumes "resolve default_registry ctx = Some p"
  shows "p = JsonPathCollector \<or> p = OpenAiCompatCollector \<or> names_collector ctx p"
proof -
  consider "resolve_auto default_registry ctx = Some p"
    | s where "Option.bind (pc_quota_config ctx) q_strategy = Some s" "find_by_id default_registry s = Some p"
    using assms by (auto simp: resolve_def split: option.splits if_splits)
  then show ?thesis
  proof cases
    case 1 then show ?thesis by (rule resolve_auto_named)
  next
    case 2 then show ?thesis using find_by_id_matches names_collector_def by blast
  qed
qed

lemma compat_fetch_requests: "set (fst (compat_fetch net auth urls)) \<subseteq> (\<lambda>u. (u, auth)) ` set urls"
  by (induction urls) (auto split: option.splits prod.splits)

lemma starts_with_append [simp]: "starts_with (p @ s) p"
  by (simp add: starts_with_def)

lemma compat_requests:
  assumes "(url, auth) \<in> set (fst (openai_compat_poll L now net ctx))"
  shows "auth = bearer ctx \<and> starts_with url (trim_base (pc_base_url ctx))"
proof -
  let ?b = "trim_base (pc_base_url ctx)"
  have "(url, auth) \<in> set (fst (compat_fetch net (bearer ctx) [?b @ ''/dashboard/billing/subscription'', ?b @ ''/v1/dashboard/billing/subscription'']))
      \<or> (url, auth) \<in> set (fst (compat_fetch net (bearer ctx) [?b @ ''/dashboard/billing/usage'' @ usage_query L now, ?b @ ''/v1/dashboard/billing/usage'' @ usage_query L now]))"
    using assms unfolding openai_compat_poll_def Let_def
    by (auto simp: case_prod_unfold split: option.splits simp del: compat_fetch.simps)
  then show ?thesis
    using compat_fetch_requests[of net "bearer ctx"] by (fastforce simp del: compat_fetch.simps)
qed

definition auth_prefix :: "poll_context \<Rightarrow> string" where
  "auth_prefix ctx = (case Option.bind (pc_quota_config ctx) q_auth_prefix of Some p \<Rightarrow> p | None \<Rightarrow> ''Bearer'')"

definition configured_address :: "poll_context \<Rightarrow> string option" where
  "configured_address ctx = Option.bind (pc_quota_config ctx) q_balance_url"

lemma jsonpath_requests:
  assumes "(url, auth) \<in> set (fst (jsonpath_poll now net ctx))"
  shows "auth = auth_prefix ctx @ '' '' @ pc_credential ctx
    \<and> (starts_with url (trim_base (pc_base_url ctx)) \<or> configured_address ctx = Some url)"
  using assms
  by (auto simp: jsonpath_poll_def billing_json_def auth_prefix_def configured_address_def balance_address_def Let_def
      split: option.splits if_splits)

lemma fixed_requests:
  assumes "p \<noteq> JsonPathCollector" "p \<noteq> OpenAiCompatCollector"
  shows "map Some (map fst (fst (collector_poll L now net p ctx))) = [billing_address p]"
    and "map snd (fst (collector_poll L now net p ctx)) = [bearer ctx]"
  using assms
  by (cases p; simp add: deepseek_poll_def minimax_poll_def moonshot_poll_def openrouter_poll_def shengsuanyun_poll_def
      siliconflow_poll_def stepfun_poll_def zhipu_poll_def novita_poll_def billing_json_def Let_def)+

text \<open>C28: a channel's credential leaves the gateway only for addresses the channel accounts for: those below its base
  URL, the billing address its quota configuration gives in full, and the fixed billing address of a provider that
  the channel names as its strategy, as its provider or by a word of its base URL. It is always sent as the
  \<open>Authorization\<close> header, after \<open>Bearer\<close> or the configured prefix.
\<close>

theorem credential_recipients:
  "\<forall>(url, auth) \<in> set (fst (registry_poll default_registry L now net ctx)).
     (auth = bearer ctx \<or> auth = auth_prefix ctx @ '' '' @ pc_credential ctx)
     \<and> (starts_with url (trim_base (pc_base_url ctx)) \<or> configured_address ctx = Some url
        \<or> (\<exists>p. billing_address p = Some url \<and> names_collector ctx p))"
proof (intro ballI, clarify)
  fix url auth assume req: "(url, auth) \<in> set (fst (registry_poll default_registry L now net ctx))"
  then obtain p where p: "resolve default_registry ctx = Some p" and r: "(url, auth) \<in> set (fst (collector_poll L now net p ctx))"
    by (auto simp: registry_poll_def split: option.splits)
  show "(auth = bearer ctx \<or> auth = auth_prefix ctx @ '' '' @ pc_credential ctx)
     \<and> (starts_with url (trim_base (pc_base_url ctx)) \<or> configured_address ctx = Some url
        \<or> (\<exists>p. billing_address p = Some url \<and> names_collector ctx p))"
  proof (cases "p = JsonPathCollector \<or> p = OpenAiCompatCollector")
    case True
    then show ?thesis using r compat_requests[of url auth L now net ctx] jsonpath_requests[of url auth now net ctx] by auto
  next
    case False
    with resolve_named[OF p] have "names_collector ctx p" by blast
    moreover have "billing_address p = Some url \<and> auth = bearer ctx"
      using fixed_requests[of p L now net ctx] False r by (auto simp: map_eq_Cons_conv)
    ultimately show ?thesis by blast
  qed
qed

definition mirror_ctx :: "string \<Rightarrow> poll_context" where
  "mirror_ctx key = \<lparr>pc_channel_id = 7, pc_channel_name = ''mirror'', pc_provider = ''mirror'',
     pc_base_url = ''https://kimi.example.org/v1/'', pc_credential = key, pc_quota_config = None\<rparr>"

lemma mirror_resolves: "resolve default_registry (mirror_ctx key) = Some MoonshotCollector"
  by (simp add: resolve_def resolve_auto_def mirror_ctx_def match_by_url_def to_lowercase_def starts_with_def or_else_def
      find_by_id_def default_registry_def eq_ignore_case_def Let_def)

lemma mirror_requests:
  "fst (registry_poll default_registry L now net (mirror_ctx key)) = [(''https://api.moonshot.cn/v1/users/me/balance'', bearer (mirror_ctx key))]"
  by (simp add: registry_poll_def mirror_resolves moonshot_poll_def billing_json_def)

lemma credential_recipients_witness:
  "bearer (mirror_ctx ''k'') = ''Bearer k''
   \<and> (\<exists>p. billing_address p = Some ''https://api.moonshot.cn/v1/users/me/balance'' \<and> names_collector (mirror_ctx ''k'') p)"
proof -
  have "(''https://api.moonshot.cn/v1/users/me/balance'', ''Bearer k'')
      \<in> set (fst (registry_poll default_registry undefined 0 (\<lambda>_ _. Inl []) (mirror_ctx ''k'')))"
    by (simp add: mirror_requests) (simp add: bearer_def mirror_ctx_def)
  moreover have "\<not> starts_with ''https://api.moonshot.cn/v1/users/me/balance'' (trim_base (pc_base_url (mirror_ctx ''k'')))"
    by (simp add: mirror_ctx_def trim_base_def starts_with_def)
  moreover have "configured_address (mirror_ctx ''k'') = None" by (simp add: configured_address_def mirror_ctx_def)
  moreover note credential_recipients[of undefined 0 "\<lambda>_ _. Inl []" "mirror_ctx ''k''", THEN bspec,
    of "(''https://api.moonshot.cn/v1/users/me/balance'', ''Bearer k'')"]
  ultimately have "\<exists>p. billing_address p = Some ''https://api.moonshot.cn/v1/users/me/balance'' \<and> names_collector (mirror_ctx ''k'') p"
    by simp
  then show ?thesis by (simp add: bearer_def mirror_ctx_def)
qed

text \<open>
  A word of the base URL is enough. A channel of some other provider, served from a host of its own whose name
  merely contains \<open>kimi\<close>, has its credential sent to \<open>api.moonshot.cn\<close> on every poll.
\<close>

theorem lookalike_host_leaks_key:
  "fst (registry_poll default_registry L now net (mirror_ctx key))
     = [(''https://api.moonshot.cn/v1/users/me/balance'', ''Bearer '' @ key)]"
  by (simp add: mirror_requests) (simp add: bearer_def mirror_ctx_def)

section \<open>A pass of the poller\<close>

lemma recover_name [simp]: "ch_name (recover_if_expired c now) = ch_name c"
  by (auto simp: recover_if_expired_def split: option.splits)

lemma error_info_fresh:
  "qu_channel_id (error_info now ch e) = ch_id ch" "qu_channel_name (error_info now ch e) = ch_name ch"
  "no_counters (error_info now ch e)"
  by (simp_all add: error_info_def quota_info_new_def usage_counters_def)

lemma quota_update_get:
  "hm_get (quota_update s info) i =
     (if i = qu_channel_id info then Some (case hm_get s i of Some q \<Rightarrow> quota_merge q info | None \<Rightarrow> info) else hm_get s i)"
  by (simp add: quota_update_def)

lemma quota_merge_name [simp]: "qu_channel_name (quota_merge q info) = qu_channel_name info"
  by (simp add: quota_merge_def)

lemma quota_update_counters: "no_counters info \<Longrightarrow> counters_of (quota_update s info) i = counters_of s i"
  by (auto simp: counters_of_def quota_update_get quota_merge_def usage_counters_def split: option.splits)

lemma poll_channel_disabled: "\<not> ch_enabled ch \<Longrightarrow> poll_channel E turn ch st = Some st"
  by (simp add: poll_channel_def case_prod_unfold)

lemma poll_channel_enabled:
  assumes "poll_channel E turn ch (m, s) = Some (m', s')" "ch_enabled ch"
  obtains info where "mgr_channels m' = mgr_channels m" "s' = quota_update s info"
    "qu_channel_id info = ch_id ch" "qu_channel_name info = ch_name ch" "no_counters info"
proof -
  obtain net now where turn: "turn = (net, now)" by fastforce
  obtain m1 r where g: "get_credential (pe_cred_get E) m (ch_id ch) = (m1, r)" by fastforce
  have chans: "mgr_channels m1 = mgr_channels m"
    using arg_cong[OF g, of fst] by (auto simp: get_credential_def Let_def split: option.splits if_splits)
  show ?thesis
  proof (cases r)
    case CredPanic
    with assms g show ?thesis by (simp add: poll_channel_def turn)
  next
    case (Cred k)
    show ?thesis
    proof (cases k)
      case None
      with Cred assms g have "m' = m1" "s' = quota_update s (error_info now ch no_key_message)"
        by (simp_all add: poll_channel_def turn)
      with chans show ?thesis using that error_info_fresh by blast
    next
      case (Some key)
      let ?info = "polled_info now ch (snd (registry_poll (pe_registry E) (pe_libs E) now net (poll_ctx E ch key)))"
      from Some Cred assms g have "m' = m1" "s' = quota_update s ?info" by (simp_all add: poll_channel_def turn)
      with chans show ?thesis
        by (intro that[of ?info]) (simp_all only: registry.polled_info_fresh[OF HOL.refl])
    qed
  qed
qed

lemma find_absent: "k \<notin> f ` set xs \<Longrightarrow> List.find (\<lambda>c. f c = k) xs = None"
  by (auto simp: find_None_iff image_def)

definition pass_entry :: "channel option \<Rightarrow> quota_info option \<Rightarrow> quota_info option \<Rightarrow> bool" where
  "pass_entry ch before after \<longleftrightarrow>
     (case ch of
        Some c \<Rightarrow> if ch_enabled c then (\<exists>q. after = Some q \<and> qu_channel_name q = ch_name c) else after = before
      | None \<Rightarrow> after = before)"

lemma poll_channels_spec:
  assumes "poll_channels E turns chs (m, s) = Some (m', s')" "distinct (map ch_id chs)"
  shows "mgr_channels m' = mgr_channels m
    \<and> counters_of s' i = counters_of s i
    \<and> pass_entry (List.find (\<lambda>c. ch_id c = i) chs) (hm_get s i) (hm_get s' i)"
  using assms
proof (induction chs arbitrary: m s)
  case Nil
  then show ?case by (simp add: pass_entry_def)
next
  case (Cons ch chs)
  from Cons.prems obtain m1 s1 where one: "poll_channel E (turns (length chs)) ch (m, s) = Some (m1, s1)"
    and rest: "poll_channels E turns chs (m1, s1) = Some (m', s')" by (auto simp: bind_eq_Some_conv)
  note IH = Cons.IH[OF rest] and d = Cons.prems(2)
  show ?case
  proof (cases "ch_enabled ch")
    case False
    with one have "m1 = m" "s1 = s" by (simp_all add: poll_channel_disabled)
    moreover have "List.find (\<lambda>c. ch_id c = i) chs = None" if "ch_id ch = i"
      using d that by (simp add: find_absent)
    ultimately show ?thesis using IH d False by (auto simp: pass_entry_def)
  next
    case True
    obtain info where i: "mgr_channels m1 = mgr_channels m" "s1 = quota_update s info"
      "qu_channel_id info = ch_id ch" "qu_channel_name info = ch_name ch" "no_counters info"
      by (rule poll_channel_enabled[OF one True])
    have "counters_of s1 i = counters_of s i" using quota_update_counters[OF i(5)] i(2) by simp
    moreover have "List.find (\<lambda>c. ch_id c = i) chs = None" if "ch_id ch = i"
      using d that by (simp add: find_absent)
    ultimately show ?thesis
      using IH d True i by (auto simp: pass_entry_def quota_update_get split: option.splits)
  qed
qed

lemma find_stored:
  assumes "hm_ok (mgr_channels m)" "mgr_inv m"
  shows "distinct (map ch_id (manager_list m now))"
    and "map_option (\<lambda>c. (ch_name c, ch_enabled c)) (List.find (\<lambda>c. ch_id c = i) (manager_list m now))
       = map_option (\<lambda>c. (ch_name c, ch_enabled c)) (manager_get m i)"
proof -
  have ids: "map ch_id (manager_list m now) = map fst (mgr_channels m)"
    using assms by (auto simp: manager_list_def hm_values_def mgr_inv_def stored_ok_def manager_get_def hm_get_iff)
  then show d: "distinct (map ch_id (manager_list m now))" using assms(1) by (simp add: hm_ok_def)
  show "map_option (\<lambda>c. (ch_name c, ch_enabled c)) (List.find (\<lambda>c. ch_id c = i) (manager_list m now))
       = map_option (\<lambda>c. (ch_name c, ch_enabled c)) (manager_get m i)"
  proof (cases "manager_get m i")
    case None
    then have "i \<notin> set (map ch_id (manager_list m now))"
      using assms(1) unfolding ids by (auto simp: manager_get_def hm_get_iff[symmetric])
    with None show ?thesis by (auto simp: find_None_iff)
  next
    case (Some c)
    with assms have c: "ch_id c = i" "recover_if_expired c now \<in> set (manager_list m now)"
      by (force simp: mgr_inv_def stored_ok_def manager_list_def hm_values_def manager_get_def hm_get_iff)+
    moreover obtain x where x: "List.find (\<lambda>c. ch_id c = i) (manager_list m now) = Some x"
      using c by (cases "List.find (\<lambda>c. ch_id c = i) (manager_list m now)") (auto simp: find_None_iff)
    moreover from x have "x \<in> set (manager_list m now)" "ch_id x = i" by (auto simp: find_Some_iff)
    ultimately have "x = recover_if_expired c now"
      using d inj_onD[of ch_id "set (manager_list m now)" x "recover_if_expired c now"] by (simp add: distinct_map)
    with x Some show ?thesis by simp
  qed
qed

lemma pass_entry_cong:
  "map_option (\<lambda>c. (ch_name c, ch_enabled c)) a = map_option (\<lambda>c. (ch_name c, ch_enabled c)) b \<Longrightarrow> pass_entry a = pass_entry b"
  by (intro ext; cases a; cases b) (auto simp: pass_entry_def)

text \<open>C29: a finished pass of the quota poller leaves exactly the enabled channels with an entry under their name, a
  balance or the reason there is none, and touches no other entry; the channels themselves and all six usage counters
  of every channel (input, output, cache-hit and cache-miss tokens, requests and estimated cost) are as they were.
\<close>

theorem poll_pass_exact:
  assumes "hm_ok (mgr_channels m)" "mgr_inv m" "poll_all_channels E now turns (m, s) = Some (m', s')"
  shows "mgr_channels m' = mgr_channels m
    \<and> counters_of s' i = counters_of s i
    \<and> pass_entry (manager_get m i) (hm_get s i) (hm_get s' i)"
  using poll_channels_spec[of E turns "manager_list m now" m s m' s' i] assms(3) find_stored[OF assms(1,2)]
    pass_entry_cong[OF find_stored(2)[OF assms(1,2)], of i now]
  by (simp add: poll_all_channels_def)

section \<open>The poller keeps running\<close>

definition keys_in_range :: "manager \<Rightarrow> bool" where
  "keys_in_range m \<longleftrightarrow>
     (\<forall>i c n. manager_get m i = Some c \<and> hm_get (mgr_key_indices m) i = Some n \<longrightarrow> all_keys c = [] \<or> n < length (all_keys c))"

lemma get_credential_in_range:
  assumes "keys_in_range m" "get_credential g m i = (m', r)"
  shows "r \<noteq> CredPanic" "keys_in_range m'"
proof -
  have "r \<noteq> CredPanic \<and> keys_in_range m'"
  proof (cases "\<exists>c. manager_get m i = Some c \<and> ch_api_keys c \<noteq> [] \<and> all_keys c \<noteq> []")
    case True
    then obtain c where c: "manager_get m i = Some c" "ch_api_keys c \<noteq> []" "all_keys c \<noteq> []" by blast
    let ?n = "case hm_get (mgr_key_indices m) i of Some n \<Rightarrow> n | None \<Rightarrow> 0"
    have "?n < length (all_keys c)"
      using assms(1) c by (auto simp: keys_in_range_def split: option.splits)
    then have r: "r = Cred (Some (all_keys c ! ?n))"
      and m': "m' = m\<lparr>mgr_key_indices := hm_insert i ((?n + 1) mod length (all_keys c)) (mgr_key_indices m)\<rparr>"
      using assms(2) c by (simp_all add: get_credential_def manager_get_def Let_def)
    show ?thesis
      using assms(1) c by (auto simp: r m' keys_in_range_def manager_get_def hm_get_insert)
  next
    case False
    then have "m' = m \<and> r \<noteq> CredPanic"
      using assms(2) by (auto simp: get_credential_def manager_get_def Let_def split: option.splits if_splits)
    with assms(1) show ?thesis by simp
  qed
  then show "r \<noteq> CredPanic" "keys_in_range m'" by auto
qed

lemma poll_channel_completes:
  assumes "keys_in_range m"
  obtains m' s' where "poll_channel E turn ch (m, s) = Some (m', s')" "keys_in_range m'"
proof -
  obtain m1 r where g: "get_credential (pe_cred_get E) m (ch_id ch) = (m1, r)" by fastforce
  note ok = get_credential_in_range[OF assms g]
  have "\<exists>m' s'. poll_channel E turn ch (m, s) = Some (m', s') \<and> keys_in_range m'"
    using assms g ok by (cases turn; cases r) (auto simp: poll_channel_def split: option.splits)
  then show ?thesis using that by blast
qed

lemma poll_channels_complete:
  "keys_in_range m \<Longrightarrow> \<exists>m' s'. poll_channels E turns chs (m, s) = Some (m', s') \<and> keys_in_range m'"
proof (induction chs arbitrary: m s)
  case (Cons ch chs)
  obtain m1 s1 where "poll_channel E (turns (length chs)) ch (m, s) = Some (m1, s1)" "keys_in_range m1"
    by (rule poll_channel_completes[OF Cons.prems])
  with Cons.IH[of m1 s1] show ?case by auto
qed simp

text \<open>
  Whatever the billing endpoints answer, and for however many ticks, the poller's task goes on: no reply, no
  missing credential and no strategy ends it, as long as the rotation counter of every channel is below the number of
  its keys, which every pass maintains.
\<close>

theorem quota_poller_survives:
  "keys_in_range m \<Longrightarrow> \<exists>m' s'. quota_poller E ticks (m, s) = Some (m', s') \<and> keys_in_range m'"
proof (induction ticks arbitrary: m s)
  case (Cons tick ticks)
  obtain now turns where t: "tick = (now, turns)" by fastforce
  obtain m1 s1 where "poll_all_channels E now turns (m, s) = Some (m1, s1)" "keys_in_range m1"
    using poll_channels_complete[OF Cons.prems, of E turns "manager_list m now" s] by (auto simp: poll_all_channels_def)
  with Cons.IH[of m1 s1] t show ?case by auto
qed simp

definition demo_libs :: quota_libs where
  "demo_libs = \<lparr>ql_parse_json = (\<lambda>_. None), ql_rfc3339 = (\<lambda>_. None), ql_year = (\<lambda>_. ''2026''), ql_month = (\<lambda>_. 3),
     ql_date = (\<lambda>_. ''2026-03-09'')\<rparr>"

definition demo_poll_env :: poll_env where
  "demo_poll_env = \<lparr>pe_libs = demo_libs, pe_registry = default_registry, pe_configs = [], pe_cred_get = (\<lambda>_ _. Some ''k''),
     pe_print_uuid = (\<lambda>_. ''7'')\<rparr>"

definition demo_poll_manager :: manager where
  "demo_poll_manager = manager_new [example_channel 7] 5 False"

abbreviation down :: "nat \<Rightarrow> poll_turn" where
  "down \<equiv> \<lambda>_. (\<lambda>_ _. Inl ''down'', 5)"

lemma demo_poll_ready: "keys_in_range demo_poll_manager" "hm_ok (mgr_channels demo_poll_manager)" "mgr_inv demo_poll_manager"
  "manager_get demo_poll_manager 7 = Some (example_channel 7)" "ch_enabled (example_channel 7)"
proof -
  show "mgr_inv demo_poll_manager"
    unfolding demo_poll_manager_def by (rule mgr_reachable_inv, rule mgr_reachable.start) (simp add: example_channel_def)
qed (simp_all add: demo_poll_manager_def keys_in_range_def manager_new_def hm_ok_def manager_get_def example_channel_def)

lemma quota_poller_survives_witness:
  "\<exists>m' s'. quota_poller demo_poll_env [(0, down), (60, down)] (demo_poll_manager, []) = Some (m', s') \<and> keys_in_range m'"
  by (rule quota_poller_survives[OF demo_poll_ready(1)])

definition demo_counted_store :: quota_store where
  "demo_counted_store = accumulate_usage [] 0 7 \<lparr>tu_input = Some 3, tu_output = Some 4, tu_cache_hit = Some 1, tu_cache_miss = Some 2\<rparr>
     (Some 5)"

lemma poll_pass_exact_witness:
  "\<exists>m' s' q. poll_all_channels demo_poll_env 0 down (demo_poll_manager, demo_counted_store) = Some (m', s')
     \<and> hm_get s' 7 = Some q \<and> qu_channel_name q = ch_name (example_channel 7)
     \<and> counters_of s' 7 = counters_of demo_counted_store 7"
proof -
  obtain m' s' where p: "poll_all_channels demo_poll_env 0 down (demo_poll_manager, demo_counted_store) = Some (m', s')"
    using poll_channels_complete[OF demo_poll_ready(1), of demo_poll_env down "manager_list demo_poll_manager 0" demo_counted_store]
    by (auto simp: poll_all_channels_def)
  show ?thesis
    using poll_pass_exact[OF demo_poll_ready(2,3) p, of 7] p
    by (auto simp: demo_poll_ready pass_entry_def)
qed

section \<open>What a poll reports\<close>

text \<open>
  A station whose usage endpoint fails is reported as unused. When the subscription of an OpenAI-compatible
  station gives the hard limit and both spellings of the usage address fail, the poll succeeds without an error and
  shows the whole limit as the balance.
\<close>

theorem failed_usage_reports_full_balance:
  assumes "compat_body net (bearer ctx) (trim_base (pc_base_url ctx) @ ''/dashboard/billing/subscription'') = Some body"
    and "json_get_f64 body ''hard_limit_usd'' = Some limit" "is_f64 limit"
    and "compat_body net (bearer ctx) (trim_base (pc_base_url ctx) @ ''/dashboard/billing/usage'' @ usage_query L now) = None"
    and "compat_body net (bearer ctx) (trim_base (pc_base_url ctx) @ ''/v1/dashboard/billing/usage'' @ usage_query L now) = None"
  shows "\<exists>info. snd (openai_compat_poll L now net ctx) = Inr info
    \<and> qu_balance info = Some limit \<and> qu_usage info = Some 0 \<and> qu_error info = None"
  using assms
  by (simp add: openai_compat_poll_def total_usage_usd_def f64_sub_def is_f64_def Let_def fresh_info_def quota_info_new_def)

text \<open>
  The StepFun collector looks at nothing but a 401. An error page of the provider, any JSON body without the two
  balance fields under any other status, is reported as an account with a balance of zero and no error.
\<close>

theorem stepfun_error_reads_as_empty_account:
  assumes "net ''https://api.stepfun.com/v1/accounts'' (bearer ctx) = Inr resp" "qr_status resp \<noteq> 401"
    and "qr_json resp = Inr body" "json_get body ''total_cash_balance'' = None" "json_get body ''total_voucher_balance'' = None"
  shows "\<exists>info. snd (stepfun_poll now net ctx) = Inr info \<and> qu_balance info = Some 0 \<and> qu_error info = None"
  using assms
  by (simp add: stepfun_poll_def billing_json_def billing_reply_def opt_rate_def f64_add_def fresh_info_def quota_info_new_def)

text \<open>
  A failed poll forgets the balance. Whatever the store knew of the channel, an error of the collector replaces
  balance, limit and details by nothing; only the rate limits and the usage counters stay.
\<close>

theorem failed_poll_forgets_balance:
  assumes "ch_enabled ch" "get_credential (pe_cred_get E) m (ch_id ch) = (m', Cred (Some key))"
    and "snd (registry_poll (pe_registry E) (pe_libs E) now net (poll_ctx E ch key)) = Inl e"
    and "hm_get s (ch_id ch) = Some old"
  shows "\<exists>s' q. poll_channel E (net, now) ch (m, s) = Some (m', s') \<and> hm_get s' (ch_id ch) = Some q
    \<and> qu_balance q = None \<and> qu_limit q = None \<and> qu_items q = [] \<and> qu_error q \<noteq> None
    \<and> qu_total_input_tokens q = qu_total_input_tokens old \<and> qu_rl_remaining_req q = qu_rl_remaining_req old"
  using assms
  by (cases e) (simp_all add: poll_channel_def quota_update_get error_info_fresh(1) quota_merge_def error_info_def
      quota_info_new_def or_else_def)

definition demo_net :: quota_net where
  "demo_net url auth =
     (if url = ''https://s.example/dashboard/billing/subscription''
      then Inr \<lparr>qr_status = 200, qr_json = Inr (JObj [(''hard_limit_usd'', JInt 20)]), qr_text = Inl []\<rparr>
      else Inr \<lparr>qr_status = 503, qr_json = Inr (JObj []), qr_text = Inl []\<rparr>)"

definition demo_ctx :: poll_context where
  "demo_ctx = \<lparr>pc_channel_id = 7, pc_channel_name = ''s'', pc_provider = ''s'', pc_base_url = ''https://s.example/'',
     pc_credential = ''k'', pc_quota_config = None\<rparr>"

lemma demo_base: "trim_base (pc_base_url demo_ctx) = ''https://s.example''"
  by (simp add: demo_ctx_def trim_base_def)

lemma failed_usage_reports_full_balance_witness:
  "\<exists>info. snd (openai_compat_poll demo_libs 0 demo_net demo_ctx) = Inr info
    \<and> qu_balance info = Some 20 \<and> qu_usage info = Some 0 \<and> qu_error info = None"
proof (rule failed_usage_reports_full_balance)
  show "is_f64 20" using f64_rnd_of_int[of 20] by (simp add: is_f64_def)
  then show "json_get_f64 (JObj [(''hard_limit_usd'', JInt 20)]) ''hard_limit_usd'' = Some 20"
    by (simp add: json_as_f64_def is_f64_def)
qed (simp_all add: demo_base compat_body_def demo_net_def)

lemma stepfun_error_reads_as_empty_account_witness:
  "\<exists>info. snd (stepfun_poll 0 demo_net demo_ctx) = Inr info \<and> qu_balance info = Some 0 \<and> qu_error info = None"
  by (rule stepfun_error_reads_as_empty_account[where body = "JObj []"
        and resp = "\<lparr>qr_status = 503, qr_json = Inr (JObj []), qr_text = Inl []\<rparr>"]) (simp_all add: demo_net_def)

section \<open>Reading numbers and paths\<close>

lemma digits_value_snoc: "digit_value c = Some d \<Longrightarrow> digits_value (ds @ [c]) = 10 * digits_value ds + d"
  by (simp add: digits_value_def)

lemma digits_value_nat: "digits_value (nat_digits n) = n"
proof (induction n rule: nat_digits.induct)
  case (1 n)
  have digit: "k < 10 \<Longrightarrow> digit_value (char_of (48 + k)) = Some k" for k :: nat
    by (simp add: digit_value_def)
  show ?case
  proof (cases "n < 10")
    case True
    then show ?thesis using digits_value_snoc[OF digit[of n], of "[]"] by (simp add: nat_digits.simps[of n] digits_value_def)
  next
    case False
    then show ?thesis
      using 1 digits_value_snoc[OF digit[of "n mod 10"], of "nat_digits (n div 10)"] by (simp add: nat_digits.simps[of n])
  qed
qed

text \<open>
  A whole amount the provider prints as text is read back as the double nearest to it.
\<close>

theorem parse_f64_digits: "parse_f64 (nat_digits n) = Some (f64_of_nat n)"
proof -
  have d: "\<forall>c \<in> set (nat_digits n). is_digit_char c" and ne: "nat_digits n \<noteq> []"
    using nat_digits_value(2)[of n] by (auto simp: is_digit_char_def)
  obtain c cs where n: "nat_digits n = c # cs" using ne by (cases "nat_digits n") auto
  with d have "c \<noteq> CHR ''-''" "c \<noteq> CHR ''+''" by (auto simp: is_digit_char_def digit_value_def)
  then have sign: "split_sign (nat_digits n) = (False, nat_digits n)" by (simp add: split_sign_def n)
  have whole: "takeWhile is_digit_char (nat_digits n) = nat_digits n" "dropWhile is_digit_char (nat_digits n) = []"
    using d by (simp_all add: takeWhile_eq_all_conv dropWhile_eq_Nil_conv)
  show ?thesis
    by (simp add: parse_f64_def sign whole ne parse_exponent_def digits_value_nat f64_of_nat_def Let_def)
qed

fun nested :: "string list \<Rightarrow> json \<Rightarrow> json" where
  "nested [] v = v"
| "nested (k # ks) v = JObj [(k, nested ks v)]"

definition path_key :: "string \<Rightarrow> bool" where
  "path_key k \<longleftrightarrow> k \<noteq> [] \<and> CHR ''.'' \<notin> set k \<and> parse_usize k = None"

lemma split_join: "ks \<noteq> [] \<Longrightarrow> \<forall>k \<in> set ks. CHR ''.'' \<notin> set k \<Longrightarrow> split_on (CHR ''.'') (join_with ''.'' ks) = ks"
proof (induction ks)
  case (Cons k ks)
  then show ?case by (cases ks) (auto simp: split_on_free split_on_single)
qed simp

lemma walk_nested: "\<forall>k \<in> set ks. path_key k \<Longrightarrow> walk_json p (nested ks v) ks = Inr v"
  by (induction ks) (auto simp: path_key_def)

text \<open>
  A dotted path finds what it names: below keys that are not numbers, however deep, the value at the end of the
  path is read as a number or as the text of one, and an object without the key is an error and not a missing balance.
\<close>

theorem extract_finds_nested:
  assumes "ks \<noteq> []" "\<forall>k \<in> set ks. path_key k"
  shows "extract_json_path (nested ks v) (''$.'' @ join_with ''.'' ks) = Inr (f64_or_text v)
    \<and> (\<exists>e. extract_json_path (JObj []) (''$.'' @ join_with ''.'' ks) = Inl e)"
proof -
  have s: "split_on (CHR ''.'') (join_with ''.'' ks) = ks"
    using assms by (intro split_join) (auto simp: path_key_def)
  obtain k ks' where "ks = k # ks'" "path_key k" using assms by (cases ks) auto
  then have "\<exists>e. walk_json (join_with ''.'' ks) (JObj []) ks = Inl e" by (auto simp: path_key_def)
  then show ?thesis
    using walk_nested[OF assms(2)] by (auto simp: extract_json_path_def starts_with_def s)
qed

lemma extract_finds_nested_witness:
  "extract_json_path (nested [''data'', ''balance''] (JStr ''12'')) ''$.data.balance'' = Inr (f64_or_text (JStr ''12''))"
proof -
  have "\<forall>k \<in> set [''data'', ''balance'']. path_key k" by (simp add: path_key_def parse_usize_def parse_uint_def digit_value_def Let_def)
  from extract_finds_nested[OF _ this, of "JStr ''12''"] show ?thesis by simp
qed

text \<open>
  An object key made of digits cannot be reached: the segment is taken for an array index.
\<close>

theorem numeric_key_unreachable:
  "\<exists>e. extract_json_path (JObj [(''2026'', JInt 5)]) ''2026'' = Inl e"
  by (simp add: extract_json_path_def starts_with_def parse_usize_def parse_uint_def digit_value_def json_index_def Let_def)

end
