(* ===== verification/Migration.thy ===== *)
theory Migration
  imports Persisted_Store "HOL-Library.List_Lexorder" "HOL-Library.Char_ord"
begin

text \<open>
  \<open>migration.rs\<close>: the upgrade of the data files at start-up, before the stores load them. The disk holds the file
  and its \<open>.bak\<close> copy; a migration is the list of the disk states it goes through with its result. The JSON parser
  and printer are arguments, and \<open>migration_io\<close> says where the file operations fail and how much of an interrupted
  copy or write reaches the disk. The last section runs the migration of a key store together with
  \<open>PersistedStore::load\<close>.
\<close>

section \<open>Versions\<close>

definition CURRENT_SCHEMA_VERSION :: nat where "CURRENT_SCHEMA_VERSION = 1"

definition get_schema_version :: "json \<Rightarrow> nat" where
  "get_schema_version data = (case json_get_u64 data ''schema_version'' of Some v \<Rightarrow> unat (ucast v :: 32 word) | None \<Rightarrow> 0)"

definition set_schema_version :: "json \<Rightarrow> nat \<Rightarrow> json" where
  "set_schema_version data version =
     (case data of JObj obj \<Rightarrow> JObj (hm_insert ''schema_version'' (JInt (int version)) obj) | _ \<Rightarrow> data)"

section \<open>The migration from version 0\<close>

definition looks_like_uuid :: "string \<Rightarrow> bool" where
  "looks_like_uuid s \<longleftrightarrow> CHR ''-'' \<in> set s \<and> 32 \<le> length s"

definition REQUIRED_FIELDS :: "string list" where
  "REQUIRED_FIELDS = [''rpm_limit'', ''tpm_limit'', ''expires_at'', ''group'']"

definition add_null :: "string \<Rightarrow> (string \<times> json) list \<Rightarrow> (string \<times> json) list" where
  "add_null field obj = (if hm_contains obj field then obj else hm_insert field JNull obj)"

definition complete_entry :: "json \<Rightarrow> json" where
  "complete_entry v = (case v of JObj entry \<Rightarrow> JObj (fold add_null REQUIRED_FIELDS entry) | _ \<Rightarrow> v)"

definition migrate_v0_to_v1_store :: "(string \<times> json) list \<Rightarrow> (string \<times> json) list" where
  "migrate_v0_to_v1_store obj = map (\<lambda>(k, v). (k, if k = ''schema_version'' then v else complete_entry v)) obj"

definition migrate_v0_to_v1_entry :: "(string \<times> json) list \<Rightarrow> (string \<times> json) list" where
  "migrate_v0_to_v1_entry obj = add_null ''prev_hash'' obj"

text \<open>The keys of a \<open>serde_json\<close> map come in order.\<close>

definition is_store_file :: "(string \<times> json) list \<Rightarrow> bool" where
  "is_store_file obj \<longleftrightarrow>
     1 < length obj \<and> (\<forall>k \<in> set (take 2 (sort (filter (\<lambda>k. k \<noteq> ''schema_version'') (map fst obj)))). looks_like_uuid k)"

definition migrate_v0_to_v1 :: "json \<Rightarrow> json" where
  "migrate_v0_to_v1 data =
     (case data of
        JObj obj \<Rightarrow> JObj (if is_store_file obj then migrate_v0_to_v1_store obj else migrate_v0_to_v1_entry obj)
      | _ \<Rightarrow> data)"

function run_migrations :: "nat \<Rightarrow> json \<Rightarrow> json" where
  "run_migrations version data =
     (if version < CURRENT_SCHEMA_VERSION then
        (case version of 0 \<Rightarrow> run_migrations (version + 1) (migrate_v0_to_v1 data) | _ \<Rightarrow> data)
      else data)"
  by auto
termination by (relation "measure (\<lambda>(v, _). CURRENT_SCHEMA_VERSION - v)") auto

declare run_migrations.simps [simp del]

definition migrated :: "json \<Rightarrow> json" where
  "migrated data = set_schema_version (run_migrations (get_schema_version data) data) CURRENT_SCHEMA_VERSION"

section \<open>Files\<close>

record data_disk =
  dd_file :: "string option"
  dd_bak :: "string option"

record migration_libs =
  ml_parse :: "string \<Rightarrow> string + json"
  ml_pretty :: "json \<Rightarrow> string + string"
  ml_print :: "json \<Rightarrow> string option"

record migration_io =
  mi_read :: "string option"
  mi_copy :: "(string \<times> nat) option"
  mi_write :: "(string \<times> nat) option"

datatype migration_error = MigRead string string | MigParse string string | MigWrite string string | MigBackup string string

type_synonym migration_run = "data_disk list \<times> (migration_error + unit)"

text \<open>The copy to the backup, then the write over the file.\<close>

definition rewrite_file :: "migration_io \<Rightarrow> string \<Rightarrow> data_disk \<Rightarrow> string \<Rightarrow> string + string \<Rightarrow> migration_run" where
  "rewrite_file io path d text new =
     (case mi_copy io of
        Some (e, n) \<Rightarrow> ([d, d\<lparr>dd_bak := Some (take n text)\<rparr>], Inl (MigBackup (path @ ''.bak'') e))
      | None \<Rightarrow>
          let d1 = d\<lparr>dd_bak := Some text\<rparr>
          in case new of
               Inl e \<Rightarrow> ([d, d1], Inl (MigParse path e))
             | Inr s \<Rightarrow>
                 (case mi_write io of
                    Some (e, n) \<Rightarrow> ([d, d1, d1\<lparr>dd_file := Some (take n s)\<rparr>], Inl (MigWrite path e))
                  | None \<Rightarrow> ([d, d1, d1\<lparr>dd_file := Some s\<rparr>], Inr ())))"

definition migrate_json_file :: "migration_libs \<Rightarrow> migration_io \<Rightarrow> string \<Rightarrow> data_disk \<Rightarrow> string \<Rightarrow> migration_run" where
  "migrate_json_file L io path d text =
     (case mi_read io of
        Some e \<Rightarrow> ([d], Inl (MigRead path e))
      | None \<Rightarrow>
          (case ml_parse L text of
             Inl e \<Rightarrow> ([d], Inl (MigParse path e))
           | Inr data \<Rightarrow>
               if CURRENT_SCHEMA_VERSION \<le> get_schema_version data then ([d], Inr ())
               else rewrite_file io path d text (ml_pretty L (migrated data))))"

text \<open>\<open>str::lines\<close>: a line ends at a line feed, with a carriage return before it removed.\<close>

definition strip_cr :: "string \<Rightarrow> string" where
  "strip_cr s = (if s \<noteq> [] \<and> last s = CHR 0x0D then butlast s else s)"

definition str_lines :: "string \<Rightarrow> string list" where
  "str_lines s =
     (let ls = split_on (CHR 0x0A) s in map strip_cr (butlast ls) @ (if last ls = [] then [] else [last ls]))"

definition migrate_line :: "migration_libs \<Rightarrow> string \<Rightarrow> string \<times> bool" where
  "migrate_line L line =
     (let trimmed = trim line
      in if trimmed = [] then ([], False)
         else case ml_parse L trimmed of
                Inl _ \<Rightarrow> (line, False)
              | Inr entry \<Rightarrow>
                  let old = get_schema_version entry < CURRENT_SCHEMA_VERSION;
                      entry' = (if old then migrated entry else entry)
                  in (case ml_print L entry' of Some s \<Rightarrow> s | None \<Rightarrow> line, old))"

definition unlines :: "string list \<Rightarrow> string" where
  "unlines ls = (case ls of [] \<Rightarrow> [CHR 0x0A] | _ \<Rightarrow> concat (map (\<lambda>l. l @ [CHR 0x0A]) ls))"

definition migrate_ndjson_file :: "migration_libs \<Rightarrow> migration_io \<Rightarrow> string \<Rightarrow> data_disk \<Rightarrow> string \<Rightarrow> migration_run" where
  "migrate_ndjson_file L io path d text =
     (case mi_read io of
        Some e \<Rightarrow> ([d], Inl (MigRead path e))
      | None \<Rightarrow>
          let results = map (migrate_line L) (str_lines text)
          in if \<not> (\<exists>r \<in> set results. snd r) then ([d], Inr ())
             else rewrite_file io path d text (Inr (unlines (map fst results))))"

text \<open>\<open>Path::extension\<close>: what follows the last dot of the file name, unless the name starts with that dot.\<close>

definition path_extension :: "string \<Rightarrow> string option" where
  "path_extension path =
     (let name = rev (takeWhile (\<lambda>c. c \<noteq> CHR ''/'') (rev path));
          ext = rev (takeWhile (\<lambda>c. c \<noteq> CHR ''.'') (rev name))
      in if CHR ''.'' \<notin> set name \<or> length name = Suc (length ext) then None else Some ext)"

definition migrate_data_file :: "migration_libs \<Rightarrow> migration_io \<Rightarrow> string \<Rightarrow> data_disk \<Rightarrow> migration_run" where
  "migrate_data_file L io path d =
     (case dd_file d of
        None \<Rightarrow> ([d], Inr ())
      | Some text \<Rightarrow>
          if path_extension path = Some ''ndjson'' then migrate_ndjson_file L io path d text
          else migrate_json_file L io path d text)"

section \<open>Lemmas\<close>

lemma version_run [simp]: "run_migrations 0 data = migrate_v0_to_v1 data" "0 < v \<Longrightarrow> run_migrations v data = data"
  by (simp_all add: run_migrations.simps CURRENT_SCHEMA_VERSION_def)

lemma outdated_iff: "get_schema_version data < CURRENT_SCHEMA_VERSION \<longleftrightarrow> get_schema_version data = 0"
  by (simp add: CURRENT_SCHEMA_VERSION_def)

lemma add_null_get: "hm_get (add_null f obj) k = (if k = f \<and> hm_get obj f = None then Some JNull else hm_get obj k)"
  by (auto simp: add_null_def hm_contains_def hm_get_insert)

lemma fold_add_null_get:
  "hm_get (fold add_null fs obj) k = (if k \<in> set fs \<and> hm_get obj k = None then Some JNull else hm_get obj k)"
  by (induction fs arbitrary: obj) (auto simp: add_null_get)

lemma store_get:
  "hm_get (migrate_v0_to_v1_store obj) k =
     (if k = ''schema_version'' then hm_get obj k else map_option complete_entry (hm_get obj k))"
  by (induction obj) (auto simp: migrate_v0_to_v1_store_def)

lemma migrated_version: "json_is_object data \<Longrightarrow> get_schema_version (migrated data) = 1"
  by (cases data; cases "get_schema_version data")
    (simp_all add: migrated_def set_schema_version_def get_schema_version_def migrate_v0_to_v1_def json_is_object_def json_as_u64_def
       CURRENT_SCHEMA_VERSION_def)

text \<open>
  The migration of a key store is exact. A version 0 object whose first keys look like UUIDs keeps its keys; every
  entry keeps its fields and gains the four fields it lacks as null, nothing else, and the schema version becomes 1.
\<close>

theorem store_migration_exact:
  assumes "get_schema_version (JObj obj) = 0" "is_store_file obj"
  shows "\<exists>obj'. migrated (JObj obj) = JObj obj' \<and> hm_get obj' ''schema_version'' = Some (JInt 1)
    \<and> (\<forall>k. k \<noteq> ''schema_version'' \<longrightarrow>
         hm_get obj' k = map_option complete_entry (hm_get obj k))
    \<and> (\<forall>k entry. hm_get obj k = Some (JObj entry) \<longrightarrow>
         (\<exists>entry'. complete_entry (JObj entry) = JObj entry' \<and> (\<forall>f. hm_get entry' f =
            (if f \<in> set REQUIRED_FIELDS \<and> hm_get entry f = None then Some JNull else hm_get entry f))))"
  using assms
  by (simp add: migrated_def migrate_v0_to_v1_def set_schema_version_def CURRENT_SCHEMA_VERSION_def store_get
      complete_entry_def fold_add_null_get)

text \<open>
  Whatever fails on the way, the original data survive the migration: in every state of the disk a crash or an
  error can leave, the file or its backup holds the text it held before.
\<close>

theorem migration_keeps_original:
  "d' \<in> set (fst (migrate_data_file L io path d)) \<Longrightarrow> dd_file d' = dd_file d \<or> dd_bak d' = dd_file d"
  by (auto simp: migrate_data_file_def migrate_json_file_def migrate_ndjson_file_def rewrite_file_def Let_def
      split: option.splits sum.splits if_splits)

definition demo_mig_libs :: "json \<Rightarrow> json \<Rightarrow> migration_libs" where
  "demo_mig_libs old new = \<lparr>ml_parse = (\<lambda>s. if s = ''old'' then Inr old else if s = ''new'' then Inr new else Inl ''syntax''),
     ml_pretty = (\<lambda>v. if v = new then Inr ''new'' else Inl ''depth''), ml_print = (\<lambda>_. Some ''new'')\<rparr>"

definition io_fine :: migration_io where "io_fine = \<lparr>mi_read = None, mi_copy = None, mi_write = None\<rparr>"

abbreviation old_disk :: data_disk where "old_disk \<equiv> \<lparr>dd_file = Some ''old'', dd_bak = None\<rparr>"

definition demo_uuid :: string where "demo_uuid = ''550e8400-e29b-41d4-a716-446655440000''"
definition demo_uuid2 :: string where "demo_uuid2 = ''660e8400-e29b-41d4-a716-446655440001''"

lemma store_migration_exact_witness:
  "\<exists>obj'. migrated (JObj [(demo_uuid, JObj [(''name'', JStr ''a'')]), (demo_uuid2, JNull)]) = JObj obj'
     \<and> hm_get obj' ''schema_version'' = Some (JInt 1)
     \<and> hm_get obj' demo_uuid = Some (complete_entry (JObj [(''name'', JStr ''a'')]))"
proof -
  let ?obj = "[(demo_uuid, JObj [(''name'', JStr ''a'')]), (demo_uuid2, JNull)]"
  have "get_schema_version (JObj ?obj) = 0" "is_store_file ?obj"
    by (auto simp: get_schema_version_def is_store_file_def looks_like_uuid_def demo_uuid_def demo_uuid2_def dest!: in_set_takeD)
  from store_migration_exact[OF this] obtain obj' where "migrated (JObj ?obj) = JObj obj'" "hm_get obj' ''schema_version'' = Some (JInt 1)"
    and "\<forall>k. k \<noteq> ''schema_version'' \<longrightarrow> hm_get obj' k = map_option complete_entry (hm_get ?obj k)" by blast
  moreover have "demo_uuid \<noteq> ''schema_version''" by (simp add: demo_uuid_def)
  ultimately show ?thesis by simp
qed

lemma migration_keeps_original_witness:
  "dd_bak (last (fst (migrate_data_file (demo_mig_libs (JObj []) (migrated (JObj []))) io_fine ''k.json'' old_disk))) = Some ''old''
   \<or> dd_file (last (fst (migrate_data_file (demo_mig_libs (JObj []) (migrated (JObj []))) io_fine ''k.json'' old_disk))) = Some ''old''"
proof -
  let ?r = "fst (migrate_data_file (demo_mig_libs (JObj []) (migrated (JObj []))) io_fine ''k.json'' old_disk)"
  have "?r \<noteq> []"
    by (simp add: migrate_data_file_def migrate_json_file_def path_extension_def rewrite_file_def demo_mig_libs_def io_fine_def Let_def)
  then have "last ?r \<in> set ?r" by (rule last_in_set)
  from migration_keeps_original[OF this] show ?thesis by auto
qed

text \<open>
  The migration is idempotent. When the printer's output is read back, a second start finds the file current and
  leaves file and backup alone.
\<close>

theorem migration_idempotent:
  assumes "dd_file d = Some text" "path_extension path \<noteq> Some ''ndjson''"
    and "ml_parse L text = Inr data" "json_is_object data" "get_schema_version data = 0"
    and "ml_pretty L (migrated data) = Inr s" "ml_parse L s = Inr (migrated data)"
    and "mi_read io = None" "mi_copy io = None" "mi_write io = None"
  shows "last (fst (migrate_data_file L io path d)) = \<lparr>dd_file = Some s, dd_bak = Some text\<rparr>
    \<and> migrate_data_file L io path \<lparr>dd_file = Some s, dd_bak = Some text\<rparr> = ([\<lparr>dd_file = Some s, dd_bak = Some text\<rparr>], Inr ())"
  using assms migrated_version[OF assms(4)]
  by (cases d) (simp add: migrate_data_file_def migrate_json_file_def rewrite_file_def CURRENT_SCHEMA_VERSION_def Let_def)

lemma migration_idempotent_witness:
  "migrate_data_file (demo_mig_libs (JObj []) (migrated (JObj []))) io_fine ''k.json'' \<lparr>dd_file = Some ''new'', dd_bak = Some ''old''\<rparr>
     = ([\<lparr>dd_file = Some ''new'', dd_bak = Some ''old''\<rparr>], Inr ())"
  using migration_idempotent[of old_disk "''old''" "''k.json''" "demo_mig_libs (JObj []) (migrated (JObj []))" "JObj []" "''new''" io_fine]
  by (simp add: path_extension_def demo_mig_libs_def json_is_object_def get_schema_version_def io_fine_def)

section \<open>Audit lines\<close>

text \<open>
  An audit entry without a schema version is rewritten with it and with the hash of its predecessor, null when it
  had none; every other field stays. Blank and malformed lines stay as they are.
\<close>

theorem audit_line_migrated:
  "trim line \<noteq> [] \<Longrightarrow> ml_parse L (trim line) = Inr (JObj e) \<Longrightarrow> get_schema_version (JObj e) = 0 \<Longrightarrow> \<not> is_store_file e \<Longrightarrow>
     \<exists>e'. migrate_line L line = (case ml_print L (JObj e') of Some s \<Rightarrow> s | None \<Rightarrow> line, True)
       \<and> (\<forall>k. hm_get e' k = (if k = ''schema_version'' then Some (JInt 1)
            else if k = ''prev_hash'' \<and> hm_get e k = None then Some JNull else hm_get e k))"
  by (rule exI[of _ "hm_insert ''schema_version'' (JInt 1) (migrate_v0_to_v1_entry e)"])
    (simp add: migrate_line_def migrated_def migrate_v0_to_v1_def set_schema_version_def CURRENT_SCHEMA_VERSION_def
      migrate_v0_to_v1_entry_def add_null_get Let_def)

text \<open>
  The audit log itself writes no schema version, so one entry recorded since the last start is enough for the
  whole file to be rewritten and for the backup of an earlier migration to be replaced.
\<close>

theorem audit_file_rewritten_every_start:
  assumes "dd_file d = Some text" "path_extension path = Some ''ndjson''" "mi_read io = None" "mi_copy io = None"
    and "line \<in> set (str_lines text)" "trim line \<noteq> []" "ml_parse L (trim line) = Inr (JObj e)" "hm_get e ''schema_version'' = None"
  shows "dd_bak (last (fst (migrate_data_file L io path d))) = Some text \<and> length (fst (migrate_data_file L io path d)) = 3"
proof -
  have "snd (migrate_line L line)"
    using assms by (simp add: migrate_line_def get_schema_version_def CURRENT_SCHEMA_VERSION_def Let_def)
  then show ?thesis
    using assms by (auto simp: migrate_data_file_def migrate_ndjson_file_def rewrite_file_def Let_def split: option.splits)
qed

section \<open>A store of one key\<close>

text \<open>C39: a version 0 store with a single key does not survive the upgrade. It is taken for an audit entry and gets a
  top-level \<open>prev_hash\<close>; \<open>PersistedStore::load\<close>, whose keys are UUIDs, then rejects the file, moves it away and comes
  up empty and poisoned, so that no key is known and none is saved. The hypotheses say that what the printers write
  is read back and that the decoder of the store refuses an object with the key \<open>prev_hash\<close>.
\<close>

theorem single_key_store_poisoned:
  assumes "path_extension path \<noteq> Some ''ndjson''" "ml_parse L text = Inr (JObj [(i, entry)])" "i \<notin> {''schema_version'', ''prev_hash''}"
    and "ml_pretty L (migrated (JObj [(i, entry)])) = Inr s" "co_parse co s = Some (migrated (JObj [(i, entry)]))"
    and "co_parse co (co_print co (JObj [(i, entry), (''prev_hash'', JNull)])) = Some (JObj [(i, entry), (''prev_hash'', JNull)])"
    and "co_decode co (JObj [(i, entry), (''prev_hash'', JNull)]) = None"
    and "mi_read io = None" "mi_copy io = None" "mi_write io = None"
  shows "\<exists>s. last (fst (migrate_data_file L io path \<lparr>dd_file = Some text, dd_bak = None\<rparr>)) = \<lparr>dd_file = Some s, dd_bak = Some text\<rparr>
    \<and> ps_load co ReadOk True ps_new \<lparr>d_file = Some s, d_tmp = None, d_backups = []\<rparr>
      = (\<lparr>ps_data = [], ps_poisoned = True\<rparr>, \<lparr>d_file = None, d_tmp = None, d_backups = [s]\<rparr>)"
proof -
  have ne: "''prev_hash'' \<noteq> i" "''schema_version'' \<noteq> i" using assms(3) by auto
  have v: "get_schema_version (JObj [(i, entry)]) = 0" using assms(3) by (auto simp: get_schema_version_def)
  have m: "migrated (JObj [(i, entry)]) = JObj [(i, entry), (''prev_hash'', JNull), (''schema_version'', JInt 1)]"
    using assms(3) v ne
    by (simp add: migrated_def migrate_v0_to_v1_def set_schema_version_def is_store_file_def migrate_v0_to_v1_entry_def add_null_def
        hm_contains_def CURRENT_SCHEMA_VERSION_def)
  have "strip_schema_version co s = co_print co (JObj [(i, entry), (''prev_hash'', JNull)])"
    using assms(3,5) ne by (simp add: m strip_schema_version_def hm_contains_def)
  then have "ps_load co ReadOk True ps_new \<lparr>d_file = Some s, d_tmp = None, d_backups = []\<rparr>
      = (\<lparr>ps_data = [], ps_poisoned = True\<rparr>, \<lparr>d_file = None, d_tmp = None, d_backups = [s]\<rparr>)"
    using assms(6,7) by (simp add: ps_load_def ps_new_def)
  moreover have "last (fst (migrate_data_file L io path \<lparr>dd_file = Some text, dd_bak = None\<rparr>)) = \<lparr>dd_file = Some s, dd_bak = Some text\<rparr>"
    using assms v by (simp add: migrate_data_file_def migrate_json_file_def rewrite_file_def CURRENT_SCHEMA_VERSION_def Let_def)
  ultimately show ?thesis by blast
qed

definition demo_store_codec :: "json \<Rightarrow> (string, string) codec" where
  "demo_store_codec v = \<lparr>co_parse = (\<lambda>s. if s = ''new'' then Some v else Some (JObj [(demo_uuid, JObj []), (''prev_hash'', JNull)])),
     co_print = (\<lambda>_. ''stripped''), co_encode = (\<lambda>_. JObj []),
     co_decode = (\<lambda>j. case j of JObj o' \<Rightarrow> if \<forall>k \<in> set (map fst o'). looks_like_uuid k then Some [] else None | _ \<Rightarrow> None)\<rparr>"

lemma single_key_store_poisoned_witness:
  "\<exists>s. last (fst (migrate_data_file (demo_mig_libs (JObj [(demo_uuid, JObj [])]) (migrated (JObj [(demo_uuid, JObj [])]))) io_fine
        ''virtual_keys.json'' old_disk)) = \<lparr>dd_file = Some s, dd_bak = Some ''old''\<rparr>
    \<and> ps_load (demo_store_codec (migrated (JObj [(demo_uuid, JObj [])]))) ReadOk True ps_new \<lparr>d_file = Some s, d_tmp = None, d_backups = []\<rparr>
      = (\<lparr>ps_data = [], ps_poisoned = True\<rparr>, \<lparr>d_file = None, d_tmp = None, d_backups = [s]\<rparr>)"
  by (rule single_key_store_poisoned[where i = demo_uuid and entry = "JObj []" and s = "''new''"])
    (simp_all add: path_extension_def demo_mig_libs_def demo_store_codec_def io_fine_def demo_uuid_def looks_like_uuid_def)

end
