(* ===== verification/Admin_Mcp.thy ===== *)
theory Admin_Mcp
  imports Mcp_Tools
begin

text \<open>
  The admin handlers for MCP servers (\<open>admin/mcp.rs\<close>). The configuration file is the list of its MCP servers, or
  \<open>None\<close> when it cannot be loaded; a handler that changes it saves it, which may fail, and hands the new list to the
  MCP manager. An error of the manager becomes an HTTP status by the words of its message.
\<close>

section \<open>Handlers\<close>

record 'c mcp_admin =
  ma_file :: "mcp_server_config list option"
  ma_manager :: "'c mcp_manager"

record mcp_server_response =
  mr_config :: mcp_server_config
  mr_status :: mcp_server_status

record mcp_tool_response =
  mtr_name :: string
  mtr_description :: "string option"

definition mcp_error_to_response :: "string \<Rightarrow> nat \<times> string" where
  "mcp_error_to_response msg =
     (if str_contains msg ''Unknown'' then (404, msg)
      else if str_contains msg ''already running'' \<or> str_contains msg ''not running'' then (409, msg)
      else (500, msg))"

definition list_mcp_servers :: "'c mcp_manager \<Rightarrow> mcp_server_response list" where
  "list_mcp_servers m =
     List.map_filter (\<lambda>(i, _, status). map_option (\<lambda>c. \<lparr>mr_config = c, mr_status = status\<rparr>) (get_config m i)) (list_status m)"

definition mcp_save :: "bool \<Rightarrow> mcp_server_config list \<Rightarrow> 'c mcp_admin \<Rightarrow> 'c mcp_admin option" where
  "mcp_save save_ok servers st =
     (if save_ok then Some (st\<lparr>ma_file := Some servers, ma_manager := fst (reload_configs servers (ma_manager st))\<rparr>) else None)"

definition create_mcp_server ::
  "bool \<Rightarrow> mcp_server_config \<Rightarrow> 'c mcp_admin \<Rightarrow> 'c mcp_admin \<times> (nat \<times> string + mcp_server_response)" where
  "create_mcp_server save_ok req st =
     (if trim (ms_id req) = [] \<or> trim (ms_name req) = [] \<or> trim (ms_command req) = []
      then (st, Inl (400, ''id, name, and command are required''))
      else case ma_file st of
             None \<Rightarrow> (st, Inl (500, ''Failed to load config''))
           | Some servers \<Rightarrow>
               if \<exists>s \<in> set servers. ms_id s = ms_id req then (st, Inl (409, ''MCP server with this ID already exists''))
               else case mcp_save save_ok (servers @ [req]) st of
                      None \<Rightarrow> (st, Inl (500, ''Failed to save config''))
                    | Some st' \<Rightarrow> (st', Inr \<lparr>mr_config = req, mr_status = Stopped\<rparr>))"

definition merge_update :: "mcp_server_config \<Rightarrow> mcp_server_config \<Rightarrow> mcp_server_config" where
  "merge_update req s =
     s\<lparr>ms_name := ms_name req, ms_command := ms_command req, ms_args := ms_args req, ms_env := ms_env req,
       ms_cwd := ms_cwd req, ms_enabled := ms_enabled req, ms_expose_tools := ms_expose_tools req\<rparr>"

fun update_server :: "string \<Rightarrow> mcp_server_config \<Rightarrow> mcp_server_config list \<Rightarrow> (mcp_server_config list \<times> mcp_server_config) option" where
  "update_server i req [] = None"
| "update_server i req (s # ss) =
     (if ms_id s = i then Some (merge_update req s # ss, merge_update req s)
      else map_option (\<lambda>(ss', c). (s # ss', c)) (update_server i req ss))"

definition update_mcp_server ::
  "bool \<Rightarrow> string \<Rightarrow> mcp_server_config \<Rightarrow> 'c mcp_admin \<Rightarrow> 'c mcp_admin \<times> (nat \<times> string + mcp_server_response)" where
  "update_mcp_server save_ok i req st =
     (case ma_file st of
        None \<Rightarrow> (st, Inl (500, ''Failed to load config''))
      | Some servers \<Rightarrow>
          (case update_server i req servers of
             None \<Rightarrow> (st, Inl (404, ''MCP server not found''))
           | Some (servers', updated) \<Rightarrow>
               (case mcp_save save_ok servers' st of
                  None \<Rightarrow> (st, Inl (500, ''Failed to save config''))
                | Some st' \<Rightarrow>
                    (st', Inr \<lparr>mr_config = updated,
                       mr_status = (case List.find (\<lambda>(sid, _, _). sid = i) (list_status (ma_manager st')) of
                                      Some (_, _, s) \<Rightarrow> s | None \<Rightarrow> Stopped)\<rparr>))))"

definition delete_mcp_server :: "bool \<Rightarrow> string \<Rightarrow> 'c mcp_admin \<Rightarrow> 'c mcp_admin \<times> (nat \<times> string + unit)" where
  "delete_mcp_server save_ok i st =
     (case ma_file st of
        None \<Rightarrow> (st, Inl (500, ''Failed to load config''))
      | Some servers \<Rightarrow>
          let servers' = filter (\<lambda>s. ms_id s \<noteq> i) servers
          in if length servers' = length servers then (st, Inl (404, ''MCP server not found''))
             else case mcp_save save_ok servers' st of
                    None \<Rightarrow> (st, Inl (500, ''Failed to save config''))
                  | Some st' \<Rightarrow> (st', Inr ()))"

definition start_mcp_server ::
  "'c mcp_host \<Rightarrow> ('c mcp_manager \<Rightarrow> 'c mcp_manager) \<Rightarrow> string \<Rightarrow> 'c mcp_admin \<Rightarrow> 'c mcp_admin \<times> (nat \<times> string + unit)" where
  "start_mcp_server h others i st =
     (case start_server h others i (ma_manager st) of
        (m, r) \<Rightarrow> (st\<lparr>ma_manager := m\<rparr>, map_sum mcp_error_to_response id r))"

definition stop_mcp_server ::
  "('c mcp_manager \<Rightarrow> 'c mcp_manager) \<Rightarrow> string \<Rightarrow> 'c mcp_admin \<Rightarrow> 'c mcp_admin \<times> (nat \<times> string + unit)" where
  "stop_mcp_server others i st =
     (case stop_server others i (ma_manager st) of
        (m, _, r) \<Rightarrow> (st\<lparr>ma_manager := m\<rparr>, map_sum mcp_error_to_response id r))"

definition list_mcp_server_tools ::
  "'c mcp_host \<Rightarrow> string \<Rightarrow> 'c mcp_admin \<Rightarrow> 'c mcp_admin \<times> (nat \<times> string + mcp_tool_response list)" where
  "list_mcp_server_tools h i st =
     (case list_tools h i (ma_manager st) of
        (m, r) \<Rightarrow> (st\<lparr>ma_manager := m\<rparr>,
                   map_sum mcp_error_to_response (map (\<lambda>t. \<lparr>mtr_name = mt_name t, mtr_description = mt_description t\<rparr>)) r))"

definition list_all_mcp_tools :: "'c mcp_host \<Rightarrow> 'c mcp_admin \<Rightarrow> 'c mcp_admin \<times> aggregated_tool list" where
  "list_all_mcp_tools h st =
     (case aggregate_all_tools h (ma_manager st) of (m, ts) \<Rightarrow> (st\<lparr>ma_manager := m\<rparr>, ts))"

section \<open>File and manager agree\<close>

definition mcp_synced :: "'c mcp_admin \<Rightarrow> bool" where
  "mcp_synced st \<longleftrightarrow>
     (\<exists>servers. ma_file st = Some servers \<and> distinct (map ms_id servers)
        \<and> (\<forall>i. get_config (ma_manager st) i = List.find (\<lambda>c. ms_id c = i) servers))"

text \<open>The handlers, and the lock sections of the operations on running servers between them.\<close>

inductive mcp_admin_step :: "'c mcp_admin \<Rightarrow> 'c mcp_admin \<Rightarrow> bool" where
  create: "mcp_admin_step st (fst (create_mcp_server ok req st))"
| update: "mcp_admin_step st (fst (update_mcp_server ok i req st))"
| delete: "mcp_admin_step st (fst (delete_mcp_server ok i st))"
| started: "mcp_admin_step st (st\<lparr>ma_manager := fst (start_store h i spawned (ma_manager st))\<rparr>)"
| take_client: "mcp_admin_step st (st\<lparr>ma_manager := with_entry (ma_manager st) i (\<lambda>e. e\<lparr>me_client := None\<rparr>)\<rparr>)"
| clear_count: "mcp_admin_step st (st\<lparr>ma_manager := with_entry (ma_manager st) i (\<lambda>e. e\<lparr>me_tool_count := None\<rparr>)\<rparr>)"
| tools: "mcp_admin_step st (fst (list_mcp_server_tools h i st))"
| probe: "mcp_admin_step st (st\<lparr>ma_manager := fst (check_server_health h now i (ma_manager st))\<rparr>)"

inductive mcp_admin_reachable :: "'c mcp_admin \<Rightarrow> bool" where
  start: "distinct (map ms_id servers) \<Longrightarrow> mcp_admin_reachable \<lparr>ma_file = Some servers, ma_manager = load_configs servers mcp_new\<rparr>"
| step: "mcp_admin_reachable st \<Longrightarrow> mcp_admin_step st st' \<Longrightarrow> mcp_admin_reachable st'"

lemma with_entry_config: "(\<And>e. me_config (f e) = me_config e) \<Longrightarrow> get_config (with_entry m i f) j = get_config m j"
  by (cases "mcp_lookup m j") (auto simp: get_config_def mcp.lookup_modify)

lemma list_tools_config: "get_config (fst (list_tools h i m)) j = get_config m j"
  by (auto simp: list_tools_def with_entry_config split: sum.splits)

lemma health_config: "get_config (fst (check_server_health h now i m)) j = get_config m j"
proof -
  have "get_config (m\<lparr>mm_health_status := s\<rparr>) j = get_config m j" for m :: "'a mcp_manager" and s
    by (simp add: get_config_def mcp_lookup_def)
  then show ?thesis
    using list_tools_config[of h i m j]
    by (auto simp: check_server_health_def Let_def split: sum.splits prod.splits option.splits)
qed

lemma start_store_config: "get_config (fst (start_store h i sp m)) j = get_config m j"
  by (auto simp: start_store_def with_entry_config Let_def split: sum.splits)

lemma find_append: "List.find P (ys @ zs) = (case List.find P ys of Some y \<Rightarrow> Some y | None \<Rightarrow> List.find P zs)"
  by (induction ys) auto

lemma distinct_fresh: "distinct (map f xs) \<Longrightarrow> \<forall>y \<in> set xs. f y \<noteq> f x \<Longrightarrow> distinct (map f (xs @ [x]))"
  by (induction xs) auto

lemma find_rev: "distinct (map f xs) \<Longrightarrow> List.find (\<lambda>c. f c = i) (rev xs) = List.find (\<lambda>c. f c = i) xs"
proof (induction xs)
  case (Cons x xs)
  show ?case
  proof (cases "f x = i")
    case True
    with Cons.prems have "List.find (\<lambda>c. f c = i) xs = None" by (auto simp: find_None_iff image_def)
    with Cons True show ?thesis by (simp add: find_append)
  qed (use Cons in \<open>simp add: find_append split: option.splits\<close>)
qed simp

lemma reload_config_get: "distinct (map ms_id cs) \<Longrightarrow> get_config (fst (reload_configs cs m)) i = List.find (\<lambda>c. ms_id c = i) cs"
  by (auto simp: get_config_def reload_configs_get find_rev new_entry_def split: option.splits)

lemma save_synced: "mcp_save ok servers st = Some st' \<Longrightarrow> distinct (map ms_id servers) \<Longrightarrow> mcp_synced st'"
  by (auto simp: mcp_save_def mcp_synced_def reload_config_get split: if_splits)

lemma update_server_ids: "update_server i req ss = Some (ss', c) \<Longrightarrow> map ms_id ss' = map ms_id ss"
  by (induction ss arbitrary: ss') (auto simp: merge_update_def split: if_splits)

lemma mcp_admin_step_synced: "mcp_admin_step st st' \<Longrightarrow> mcp_synced st \<Longrightarrow> mcp_synced st'"
proof (induction rule: mcp_admin_step.induct)
  case (create st ok req)
  then show ?case
    by (auto simp: create_mcp_server_def mcp_synced_def[of st] intro: save_synced[OF _ distinct_fresh] split: option.splits)
next
  case (update st ok i req)
  then show ?case
    by (auto simp: update_mcp_server_def mcp_synced_def[of st] dest: update_server_ids intro!: save_synced split: option.splits)
next
  case (delete st ok i)
  then show ?case
    by (auto simp: delete_mcp_server_def mcp_synced_def[of st] Let_def distinct_map_filter intro!: save_synced split: option.splits)
qed (auto simp: mcp_synced_def list_mcp_server_tools_def case_prod_unfold start_store_config with_entry_config list_tools_config health_config)

text \<open>
  The file and the running gateway agree on the MCP servers. From a start on a file with distinct ids, after any
  handlers, with failed saves, starts, stops, tool lists and probes in between, the manager knows exactly the servers
  of the file, each with the configuration the file has, and the ids stay distinct.
\<close>

theorem mcp_admin_synced:
  assumes "mcp_admin_reachable st"
  shows "\<exists>servers. ma_file st = Some servers \<and> distinct (map ms_id servers)
    \<and> (\<forall>i. get_config (ma_manager st) i = List.find (\<lambda>c. ms_id c = i) servers)"
proof -
  have "mcp_synced st" using assms
  proof (induction rule: mcp_admin_reachable.induct)
    case (start servers)
    then show ?case
      by (auto simp: mcp_synced_def get_config_def mcp_lookup_def load_configs_def fold_new_get find_rev split: option.splits)
        (simp_all add: new_entry_def)
  qed (rule mcp_admin_step_synced)
  then show ?thesis by (simp add: mcp_synced_def)
qed

lemma mcp_admin_synced_witness:
  "\<exists>servers. ma_file (fst (create_mcp_server True (demo_server ''fs'') \<lparr>ma_file = Some [], ma_manager = load_configs [] (mcp_new :: nat mcp_manager)\<rparr>))
      = Some servers \<and> distinct (map ms_id servers)
    \<and> (\<forall>i. get_config (ma_manager (fst (create_mcp_server True (demo_server ''fs'')
          \<lparr>ma_file = Some [], ma_manager = load_configs [] (mcp_new :: nat mcp_manager)\<rparr>))) i = List.find (\<lambda>c. ms_id c = i) servers)"
  by (rule mcp_admin_synced, rule mcp_admin_reachable.step[OF mcp_admin_reachable.start mcp_admin_step.create]) simp

section \<open>Errors\<close>

text \<open>
  Starting a server answers 404 exactly for an id the manager does not know and 409 for a server that runs, as
  long as the id does not itself contain the words the classification looks for.
\<close>

theorem start_errors_exact:
  assumes "\<not> str_contains (''MCP server '' @ i @ '' is already running'') ''Unknown''"
  shows "(mcp_lookup (ma_manager st) i = None \<longrightarrow> snd (start_mcp_server h others i st) = Inl (404, ''Unknown MCP server: '' @ i))
    \<and> (\<forall>e. mcp_lookup (ma_manager st) i = Some e \<and> me_client e \<noteq> None \<longrightarrow>
         snd (start_mcp_server h others i st) = Inl (409, ''MCP server '' @ i @ '' is already running''))"
proof -
  have "str_contains (''Unknown MCP server: '' @ i) ''Unknown''" by (auto simp: str_contains_iff)
  moreover have "str_contains (''MCP server '' @ i @ '' is already running'') ''already running''"
    unfolding str_contains_iff by (rule exI[of _ "''MCP server '' @ i @ '' is ''"], rule exI[of _ "[]"]) simp
  ultimately show ?thesis
    using assms by (auto simp: start_mcp_server_def start_server_def start_check_def mcp_error_to_response_def
      simp del: append.simps str_contains.simps split: option.splits)
qed

text \<open>
  The status is chosen by searching the message, which contains the server's id: a server called
  \<open>UnknownTools\<close> that runs is reported as not found when it is started again.
\<close>

theorem error_status_by_words:
  assumes "mcp_lookup (ma_manager st) ''UnknownTools'' = Some e" "me_client e \<noteq> None"
  shows "fst (projl (snd (start_mcp_server h others ''UnknownTools'' st))) = 404"
  using assms by (simp add: start_mcp_server_def start_server_def start_check_def mcp_error_to_response_def starts_with_def)

text \<open>
  An update is not checked the way a creation is: the command of a known server may be replaced by the empty text.
\<close>

theorem update_accepts_blank_command:
  assumes "ma_file st = Some (s # ss)"
  shows "\<exists>r. snd (update_mcp_server True (ms_id s) (req\<lparr>ms_command := []\<rparr>) st) = Inr r \<and> ms_command (mr_config r) = []"
  using assms by (simp add: update_mcp_server_def mcp_save_def merge_update_def)

end
