(* ===== verification/Admin_System.thy ===== *)
theory Admin_System
  imports Admin_Channels Admin_Keys Cache Strategy Guardrails Sanitizer
begin

text \<open>
  The admin handlers for the system (\<open>admin/system.rs\<close>) and for the features (\<open>admin/features.rs\<close>): the reload of the
  channels from the configuration file on request, the switches for cache mode and routing strategy, the reset of a
  circuit, the redemption codes, and the views of logs, cache, cooldowns, models and authentication. The channels with
  their quota, cooldown and audit log are the state of \<open>Admin_Channels\<close>.
\<close>

section \<open>State\<close>

record system_state =
  sy_channels :: channels_state
  sy_limiter :: rate_limiter
  sy_cache :: request_cache
  sy_strategy :: routing_strategy_type
  sy_codes :: code_store
  sy_ratios :: "(string, f64) hashmap"
  sy_guardrails :: guardrails_config
  sy_sanitizer :: sanitizer_config

definition recorded :: "channels_env \<Rightarrow> string \<Rightarrow> string \<Rightarrow> json \<Rightarrow> system_state \<Rightarrow> system_state" where
  "recorded E action target details st =
     st\<lparr>sy_channels := (sy_channels st)\<lparr>cs_audit := audit_record (ce_audit E) (ce_audit_written E) (ce_now E) action ''admin-api''
          target details (cs_audit (sy_channels st))\<rparr>\<rparr>"

section \<open>The reload of the channels\<close>

definition apply_config :: "utc \<Rightarrow> 'r channel_config \<Rightarrow> channel \<Rightarrow> channel" where
  "apply_config now cc ch =
     ch\<lparr>ch_name := cc_name cc, ch_provider := provider_from_str (cc_provider cc), ch_priority := cc_priority cc,
        ch_weight := cc_weight cc, ch_cost_per_token := cc_cost_per_token cc,
        ch_input_cost_per_mtok := cc_input_cost_per_mtok cc, ch_output_cost_per_mtok := cc_output_cost_per_mtok cc,
        ch_base_url := cc_base_url cc, ch_model_mapping := cc_model_mapping cc, ch_enabled := cc_enabled cc,
        ch_cooldown_minutes := cc_cooldown_minutes cc, ch_rpm_limit := cc_rpm_limit cc, ch_tpm_limit := cc_tpm_limit cc,
        ch_updated_at := now\<rparr>"

definition reload_channel ::
  "(string \<Rightarrow> uuid option) \<Rightarrow> uuid \<Rightarrow> utc \<Rightarrow> 'r channel_config \<Rightarrow> manager \<times> u32 \<times> u32 \<Rightarrow> manager \<times> u32 \<times> u32" where
  "reload_channel parse_uuid fresh now cc = (\<lambda>(m, created, updated).
     case parse_uuid (cc_id cc) of
       None \<Rightarrow> (m, created, updated)
     | Some i \<Rightarrow>
         (case manager_get m i of
            Some existing \<Rightarrow> (fst (manager_update m i (apply_config now cc existing)), created, updated + 1)
          | None \<Rightarrow> (manager_create m (channel_from_config parse_uuid fresh now cc), created + 1, updated)))"

definition config_ids :: "(string \<Rightarrow> uuid option) \<Rightarrow> 'r channel_config list \<Rightarrow> uuid list" where
  "config_ids parse_uuid cs = List.map_filter (\<lambda>c. parse_uuid (cc_id c)) cs"

definition drop_channel :: "uuid list \<Rightarrow> channel \<Rightarrow> channels_state \<times> u32 \<Rightarrow> channels_state \<times> u32" where
  "drop_channel ids ch = (\<lambda>(st, removed).
     if ch_id ch \<in> set ids then (st, removed)
     else (st\<lparr>cs_manager := fst (manager_delete (cs_manager st) (ch_id ch)), cs_quota := quota_delete (cs_quota st) (ch_id ch),
              cs_cooldown := cooldown_remove (cs_cooldown st) (ch_id ch)\<rparr>, removed + 1))"

definition reload_limit :: "(string \<Rightarrow> uuid option) \<Rightarrow> instant \<Rightarrow> 'r channel_config \<Rightarrow> rate_limiter \<Rightarrow> rate_limiter" where
  "reload_limit parse_uuid inst cc lims =
     (case parse_uuid (cc_id cc) of
        None \<Rightarrow> lims
      | Some i \<Rightarrow>
          let lims = (case cc_rpm_limit cc of Some n \<Rightarrow> set_channel_rpm_limit lims inst i n | None \<Rightarrow> lims)
          in (case cc_tpm_limit cc of Some n \<Rightarrow> set_channel_tpm_limit lims inst i n | None \<Rightarrow> lims))"

record reload_report =
  rr_updated :: u32
  rr_created :: u32
  rr_removed :: u32

definition reload_config ::
  "channels_env \<Rightarrow> (string \<Rightarrow> uuid option) \<Rightarrow> uuid \<Rightarrow> instant \<Rightarrow> 'r channel_config list option \<Rightarrow> system_state
     \<Rightarrow> system_state \<times> (api_error + reload_report)" where
  "reload_config E parse_uuid fresh inst loaded st =
     (case loaded of
        None \<Rightarrow> (st, Inl (500, ''Failed to reload config''))
      | Some cs \<Rightarrow>
          let cst = sy_channels st;
              channels = manager_list (cs_manager cst) (ce_now E);
              (m, created, updated) = fold (reload_channel parse_uuid fresh (ce_now E)) cs (cs_manager cst, 0, 0);
              (cst, removed) = fold (drop_channel (config_ids parse_uuid cs)) channels (cst\<lparr>cs_manager := m\<rparr>, 0);
              lims = fold (reload_limit parse_uuid inst) cs (sy_limiter st)
          in (st\<lparr>sy_channels := cst, sy_limiter := lims\<rparr>,
              Inr \<lparr>rr_updated = updated, rr_created = created, rr_removed = removed\<rparr>))"

section \<open>Switches\<close>

fun cache_mode_debug :: "cache_mode \<Rightarrow> string" where
  "cache_mode_debug CacheOn = ''On''"
| "cache_mode_debug CacheOff = ''Off''"
| "cache_mode_debug CacheReadOnly = ''ReadOnly''"
| "cache_mode_debug CacheWriteOnly = ''WriteOnly''"

definition mode_of_request :: "string \<Rightarrow> cache_mode option" where
  "mode_of_request s =
     (let l = to_lowercase s
      in if l \<in> {''on'', ''enabled'', ''true''} then Some CacheOn
         else if l \<in> {''off'', ''disabled'', ''false''} then Some CacheOff
         else if l \<in> {''readonly'', ''read-only'', ''ro''} then Some CacheReadOnly
         else if l \<in> {''writeonly'', ''write-only'', ''wo''} then Some CacheWriteOnly
         else None)"

definition update_cache_mode :: "channels_env \<Rightarrow> string \<Rightarrow> system_state \<Rightarrow> system_state \<times> (api_error + string \<times> string)" where
  "update_cache_mode E mode st =
     (case mode_of_request mode of
        None \<Rightarrow> (st, Inl (400, ''Unknown cache mode '' @ [CHR 0x27] @ mode @ [CHR 0x27] @ ''. Valid options: on, off, readonly, writeonly''))
      | Some new \<Rightarrow>
          let old = ca_mode (sy_cache st);
              st = st\<lparr>sy_cache := (sy_cache st)\<lparr>ca_mode := new\<rparr>\<rparr>
          in (recorded E ''cache_mode.update'' ''cache''
                (JObj [(''old'', JStr (cache_mode_debug old)), (''new'', JStr (cache_mode_debug new))]) st,
              Inr (cache_mode_debug new, cache_mode_debug old)))"

definition flush_cache :: "system_state \<Rightarrow> system_state \<times> nat" where
  "flush_cache st = (let c = cache_flush (sy_cache st) in (st\<lparr>sy_cache := c\<rparr>, cache_len c))"

definition strategy_of_request :: "string \<Rightarrow> routing_strategy_type option" where
  "strategy_of_request s =
     (if s = ''weighted_random'' then Some WeightedRandom else if s = ''latency'' then Some Latency
      else if s = ''least_busy'' then Some LeastBusy else if s = ''usage'' then Some Usage
      else if s = ''lowest_cost'' then Some LowestCost else None)"

definition update_routing_strategy :: "channels_env \<Rightarrow> string \<Rightarrow> system_state \<Rightarrow> system_state \<times> (api_error + string)" where
  "update_routing_strategy E s st =
     (case strategy_of_request s of
        None \<Rightarrow> (st, Inl (400, ''Unknown routing strategy '' @ [CHR 0x27] @ s @ [CHR 0x27]
                   @ ''. Valid options: weighted_random, latency, least_busy, usage, lowest_cost''))
      | Some new \<Rightarrow>
          (recorded E ''routing_strategy.update'' ''gateway''
             (JObj [(''old'', JStr (strategy_name (sy_strategy st))), (''new'', JStr (strategy_name new))]) (st\<lparr>sy_strategy := new\<rparr>),
           Inr (strategy_name new)))"

definition reset_circuit :: "utc \<Rightarrow> uuid \<Rightarrow> system_state \<Rightarrow> system_state \<times> (api_error + channel)" where
  "reset_circuit now i st =
     (case manager_get (cs_manager (sy_channels st)) i of
        None \<Rightarrow> (st, Inl (404, ''Channel not found''))
      | Some ch \<Rightarrow>
          (st\<lparr>sy_channels := (sy_channels st)\<lparr>cs_manager := force_recover (cs_manager (sy_channels st)) now i\<rparr>\<rparr>, Inr ch))"

definition update_guardrails_config :: "guardrails_config \<Rightarrow> system_state \<Rightarrow> system_state \<times> guardrails_config" where
  "update_guardrails_config c st = (st\<lparr>sy_guardrails := c\<rparr>, c)"

definition update_sanitizer_config :: "channels_env \<Rightarrow> sanitizer_config \<Rightarrow> system_state \<Rightarrow> system_state \<times> sanitizer_config" where
  "update_sanitizer_config E c st =
     (recorded E ''sanitizer.update'' ''sanitizer''
        (JObj [(''enabled'', JBool (sz_enabled c)), (''redact_secrets'', JBool (sz_redact_secrets c)),
               (''scan_response'', JBool (sz_scan_response c)), (''custom_patterns_count'', JInt (int (length (sz_custom_patterns c))))])
        (st\<lparr>sy_sanitizer := c\<rparr>), c)"

definition update_completion_ratios :: "(string, f64) hashmap \<Rightarrow> system_state \<Rightarrow> system_state \<times> (string, f64) hashmap" where
  "update_completion_ratios r st = (st\<lparr>sy_ratios := r\<rparr>, r)"

section \<open>Redemption codes\<close>

definition create_redemption_code :: "channels_env \<Rightarrow> string \<Rightarrow> u64 \<Rightarrow> utc option \<Rightarrow> system_state \<Rightarrow> system_state \<times> redemption_code" where
  "create_redemption_code E fresh credits expires st =
     (let (codes, c) = code_generate (sy_codes st) fresh (ce_now E) credits expires
      in (recorded E ''redemption_code.create'' (rd_code c) (JObj [(''credits_cents'', JInt (uint (rd_credits_cents c)))])
            (st\<lparr>sy_codes := codes\<rparr>), c))"

fun redemption_error_str :: "redemption_error \<Rightarrow> string" where
  "redemption_error_str CodeNotFound = ''code not found''"
| "redemption_error_str AlreadyUsed = ''code already used''"
| "redemption_error_str CodeExpired = ''code expired''"

definition redeem_code :: "channels_env \<Rightarrow> string \<Rightarrow> system_state \<Rightarrow> system_state \<times> (api_error + u64)" where
  "redeem_code E code st =
     (case code_redeem (sy_codes st) (ce_now E) code ''admin-api'' of
        (codes, Inr credits) \<Rightarrow>
          (recorded E ''redemption_code.redeem'' code
             (JObj [(''credits_cents'', JInt (uint credits)), (''redeemed_by'', JStr ''admin-api'')]) (st\<lparr>sy_codes := codes\<rparr>), Inr credits)
      | (codes, Inl e) \<Rightarrow> (st\<lparr>sy_codes := codes\<rparr>, Inl (400, redemption_error_str e)))"

definition delete_redemption_code :: "channels_env \<Rightarrow> string \<Rightarrow> system_state \<Rightarrow> system_state \<times> (api_error + unit)" where
  "delete_redemption_code E code st =
     (case code_delete (sy_codes st) code of
        (codes, True) \<Rightarrow> (recorded E ''redemption_code.delete'' code (JObj []) (st\<lparr>sy_codes := codes\<rparr>), Inr ())
      | (codes, False) \<Rightarrow> (st\<lparr>sy_codes := codes\<rparr>, Inl (404, ''Redemption code not found'')))"

section \<open>Views\<close>

definition get_logs :: "dispatch_logger \<Rightarrow> nat \<Rightarrow> nat \<Rightarrow> string option \<Rightarrow> dispatch_log list \<times> nat" where
  "get_logs lg offset limit key_id =
     (case key_id of
        Some k \<Rightarrow> (list_by_key lg k offset limit, total_by_key lg k)
      | None \<Rightarrow> (logger_list lg offset limit, logger_total lg))"

text \<open>\<open>split_whitespace\<close>, and the value of a counter in the text format of Prometheus.\<close>

fun words_from :: "string \<Rightarrow> string \<Rightarrow> string list" where
  "words_from w [] = (if w = [] then [] else [w])"
| "words_from w (c # cs) = (if is_space c then (if w = [] then [] else [w]) @ words_from [] cs else words_from (w @ [c]) cs)"

definition counter_line :: "string \<Rightarrow> string \<Rightarrow> u64 option" where
  "counter_line name line =
     (if starts_with line name \<and> \<not> str_contains line ''_bucket'' \<and> \<not> str_contains line ''_sum'' \<and> \<not> str_contains line ''_count''
      then (case words_from [] line of
              [] \<Rightarrow> None
            | w # ws \<Rightarrow> map_option of_nat (parse_uint (2 ^ 64 - 1) (last (w # ws))))
      else None)"

definition parse_counter_value :: "string list \<Rightarrow> string \<Rightarrow> u64" where
  "parse_counter_value lines name = (case List.map_filter (counter_line name) lines of v # _ \<Rightarrow> v | [] \<Rightarrow> 0)"

record cache_stats_view =
  cv_entries :: nat
  cv_mode :: string
  cv_hits :: u64
  cv_misses :: u64
  cv_evictions :: u64
  cv_hit_rate :: u64
  cv_total :: u64

definition cache_stats :: "string list \<Rightarrow> request_cache \<Rightarrow> cache_stats_view" where
  "cache_stats metrics c =
     (let hits = parse_counter_value metrics ''modelswitch_cache_hits_total'';
          misses = parse_counter_value metrics ''modelswitch_cache_misses_total'';
          total = hits + misses
      in \<lparr>cv_entries = cache_len c, cv_mode = cache_mode_debug (ca_mode c), cv_hits = hits, cv_misses = misses,
          cv_evictions = parse_counter_value metrics ''modelswitch_cache_evictions_total'',
          cv_hit_rate = (if 0 < total then f64_as_u64 (f64_round (f64_mul (f64_div (f64_of_u64 hits) (f64_of_u64 total)) 100)) else 0),
          cv_total = total\<rparr>)"

definition format_uptime :: "u64 \<Rightarrow> string" where
  "format_uptime secs =
     (let s = unat secs; days = s div 86400; hours = s mod 86400 div 3600; minutes = s mod 3600 div 60; seconds = s mod 60
      in if 0 < days then nat_digits days @ ''d '' @ nat_digits hours @ ''h '' @ nat_digits minutes @ ''m''
         else if 0 < hours then nat_digits hours @ ''h '' @ nat_digits minutes @ ''m '' @ nat_digits seconds @ ''s''
         else if 0 < minutes then nat_digits minutes @ ''m '' @ nat_digits seconds @ ''s''
         else nat_digits seconds @ ''s'')"

record cooldown_view =
  cw_name :: string
  cw_in_cooldown :: bool
  cw_remaining_secs :: nat
  cw_circuit_open_until :: "utc option"
  cw_model_cooldowns :: "(string, utc) hashmap"

definition get_channel_cooldown :: "instant \<Rightarrow> uuid \<Rightarrow> channels_state \<Rightarrow> api_error + cooldown_view" where
  "get_channel_cooldown now i st =
     (case manager_get (cs_manager st) i of
        None \<Rightarrow> Inl (404, ''Channel not found'')
      | Some c \<Rightarrow> Inr \<lparr>cw_name = ch_name c, cw_in_cooldown = is_in_cooldown (cs_cooldown st) now i,
                       cw_remaining_secs = cooldown_remaining_secs (cs_cooldown st) now i,
                       cw_circuit_open_until = ch_circuit_open_until c, cw_model_cooldowns = ch_model_cooldowns c\<rparr>)"

record model_registry_item =
  mi_entry :: model_registry_entry
  mi_channel :: "(uuid \<times> string) option"

definition endpoint_to_channel :: "manager \<Rightarrow> (string, uuid \<times> string) hashmap" where
  "endpoint_to_channel m =
     fold (\<lambda>ch es. case ch_models_endpoint ch of Some ep \<Rightarrow> hm_insert ep (ch_id ch, ch_name ch) es | None \<Rightarrow> es)
       (hm_values (mgr_channels m)) []"

definition get_model_registry :: "model_registry \<Rightarrow> manager \<Rightarrow> model_registry_item list \<times> nat" where
  "get_model_registry reg m =
     (let items = map (\<lambda>e. \<lparr>mi_entry = e, mi_channel = Option.bind (caps_source (me_capabilities e)) (hm_get (endpoint_to_channel m))\<rparr>)
                    (Model_Registry.list_all reg)
      in (items, length items))"

text \<open>What the handler of \<open>/api/auth/status\<close> reads.\<close>

record auth_settings =
  as_admin_token :: "string option"
  as_admin_roles :: "(string \<times> role) list"
  as_ldap :: "ldap_config option"
  as_oidc :: "oidc_config option"

definition role_count :: "role \<Rightarrow> (string \<times> role) list \<Rightarrow> nat" where
  "role_count r rs = length (filter (\<lambda>(_, x). x = r) rs)"

definition auth_status :: "auth_settings \<Rightarrow> json" where
  "auth_status a =
     JObj [(''admin_token_set'', JBool (as_admin_token a \<noteq> None)),
       (''rbac'', JObj [(''enabled'', JBool (as_admin_roles a \<noteq> [])),
          (''super_admin_count'', JInt (int (role_count SuperAdmin (as_admin_roles a)))),
          (''key_manager_count'', JInt (int (role_count KeyManager (as_admin_roles a)))),
          (''auditor_count'', JInt (int (role_count Auditor (as_admin_roles a))))]),
       (''ldap'', case as_ldap a of
          None \<Rightarrow> JNull
        | Some c \<Rightarrow> JObj [(''url'', JStr (lc_url c)), (''starttls'', JBool (lc_starttls c)), (''default_group'', JStr (lc_default_group c))]),
       (''oidc'', case as_oidc a of
          None \<Rightarrow> JNull
        | Some c \<Rightarrow> JObj [(''issuer'', JStr (oc_issuer c)), (''client_id'', JStr (oc_client_id c)),
                          (''redirect_uri'', JStr (oc_redirect_uri c)), (''scopes'', JArr (map JStr (oc_scopes c)))])]"

section \<open>What a reload does\<close>

definition reloaded :: "(string \<Rightarrow> uuid option) \<Rightarrow> uuid \<Rightarrow> utc \<Rightarrow> 'r channel_config \<Rightarrow> channel option \<Rightarrow> channel" where
  "reloaded parse_uuid fresh now cc old =
     (case old of Some ch \<Rightarrow> apply_config now cc ch | None \<Rightarrow> channel_from_config parse_uuid fresh now cc)"

lemma reload_channel_get:
  "manager_get (fst (reload_channel parse fresh now cc s)) i =
     (if parse (cc_id cc) = Some i then Some (reloaded parse fresh now cc (manager_get (fst s) i)) else manager_get (fst s) i)"
  by (cases s)
    (auto simp: reload_channel_def reloaded_def manager_update_def manager_create_def manager_get_def hm_contains_def
       channel_from_config_def split: option.splits)

lemma config_ids_Cons:
  "config_ids parse (c # cs) = (case parse (cc_id c) of Some i \<Rightarrow> i # config_ids parse cs | None \<Rightarrow> config_ids parse cs)"
  by (simp add: config_ids_def map_filter_simps split: option.splits)

lemma find_config: "(List.find (\<lambda>c. parse (cc_id c) = Some i) cs = None) = (i \<notin> set (config_ids parse cs))"
  by (induction cs) (auto simp: config_ids_Cons config_ids_def map_filter_simps split: option.splits)

lemma fold_reload_get:
  assumes "distinct (config_ids parse cs)"
  shows "manager_get (fst (fold (reload_channel parse fresh now) cs s)) i =
    (case List.find (\<lambda>c. parse (cc_id c) = Some i) cs of
       Some cc \<Rightarrow> Some (reloaded parse fresh now cc (manager_get (fst s) i)) | None \<Rightarrow> manager_get (fst s) i)"
  using assms
proof (induction cs arbitrary: s)
  case (Cons c cs)
  have d: "distinct (config_ids parse cs)" "parse (cc_id c) = Some i \<Longrightarrow> i \<notin> set (config_ids parse cs)"
    using Cons.prems by (auto simp: config_ids_Cons split: option.splits)
  then have "parse (cc_id c) = Some i \<Longrightarrow> List.find (\<lambda>c. parse (cc_id c) = Some i) cs = None" by (simp add: find_config)
  with Cons.IH[OF d(1), of "reload_channel parse fresh now c s"] show ?case
    by (auto simp: reload_channel_get split: option.splits)
qed simp

lemma fold_drop_get:
  "manager_get (cs_manager (fst (fold (drop_channel ids) chs s))) i =
     (if i \<in> ch_id ` set chs \<and> i \<notin> set ids then None else manager_get (cs_manager (fst s)) i)"
  "hm_get (cs_quota (fst (fold (drop_channel ids) chs s))) i =
     (if i \<in> ch_id ` set chs \<and> i \<notin> set ids then None else hm_get (cs_quota (fst s)) i)"
  "cs_audit (fst (fold (drop_channel ids) chs s)) = cs_audit (fst s)"
  by (induction chs arbitrary: s)
    (auto simp: drop_channel_def manager_delete_def manager_get_def quota_delete_def split: prod.splits)

lemma listed_ids:
  assumes "hm_ok (mgr_channels m)" "mgr_inv m"
  shows "i \<in> ch_id ` set (manager_list m now) \<longleftrightarrow> manager_get m i \<noteq> None"
proof -
  have "c \<in> set (hm_values (mgr_channels m)) \<Longrightarrow> manager_get m (ch_id c) = Some c" for c
    using assms by (auto simp: hm_values_get mgr_inv_def stored_ok_def manager_get_def)
  moreover have "c \<in> set (hm_values (mgr_channels m)) \<and> ch_id c = i" if "manager_get m i = Some c" for c
    using assms that by (auto simp: hm_values_get mgr_inv_def stored_ok_def manager_get_def)
  moreover have "ch_id ` set (manager_list m now) = ch_id ` set (hm_values (mgr_channels m))"
    by (simp add: manager_list_def image_image)
  ultimately show ?thesis by (cases "manager_get m i") auto
qed

lemma reload_config_parts:
  assumes "reload_config E parse fresh inst (Some cs) st = (st', r)"
  shows "sy_channels st' = fst (fold (drop_channel (config_ids parse cs)) (manager_list (cs_manager (sy_channels st)) (ce_now E))
      ((sy_channels st)\<lparr>cs_manager := fst (fold (reload_channel parse fresh (ce_now E)) cs (cs_manager (sy_channels st), 0, 0))\<rparr>, 0))"
  using assms by (auto simp: reload_config_def Let_def split: prod.splits)


text \<open>
  A requested reload never changes the keys of a running channel. Whatever the file says, credential, rotation
  keys, excluded models, headers, proxy, retry and concurrency limits of a channel that runs stay as they are, although
  the answer names the channels as reloaded.
\<close>

theorem admin_reload_keeps_keys:
  assumes "hm_ok (mgr_channels (cs_manager (sy_channels st)))" "mgr_inv (cs_manager (sy_channels st))"
    and "distinct (config_ids parse cs)" "manager_get (cs_manager (sy_channels st)) i = Some ch"
    and "manager_get (cs_manager (sy_channels (fst (reload_config E parse fresh inst (Some cs) st)))) i = Some ch'"
  shows "ch_credential ch' = ch_credential ch \<and> ch_api_keys ch' = ch_api_keys ch \<and> ch_excluded_models ch' = ch_excluded_models ch
    \<and> ch_headers ch' = ch_headers ch \<and> ch_proxy_url ch' = ch_proxy_url ch \<and> ch_max_retries ch' = ch_max_retries ch
    \<and> ch_max_concurrent ch' = ch_max_concurrent ch \<and> ch_status ch' = ch_status ch"
proof -
  obtain st' r where r: "reload_config E parse fresh inst (Some cs) st = (st', r)" by fastforce
  have "manager_get (cs_manager (sy_channels st')) i =
      map_option (\<lambda>cc. reloaded parse fresh (ce_now E) cc (Some ch)) (List.find (\<lambda>c. parse (cc_id c) = Some i) cs)"
    using reload_config_parts[OF r] fold_reload_get[OF assms(3), of fresh "ce_now E" "(cs_manager (sy_channels st), 0, 0)" i]
      find_config[of parse i cs] assms(4)
    by (auto simp: fold_drop_get listed_ids[OF assms(1,2)] split: option.splits)
  with assms(5) show ?thesis by (auto simp: r reloaded_def apply_config_def)
qed

section \<open>Invariants\<close>

lemma reload_inv:
  "mgr_inv (fst s) \<Longrightarrow> mgr_inv (fst (reload_channel parse fresh now cc s))"
proof (cases s)
  case (fields m a b)
  assume inv: "mgr_inv (fst s)"
  have "stored_ok i (apply_config now cc c)" if "stored_ok i c" for i c
    using that by (simp add: stored_ok_def circuit_ok_def apply_config_def)
  moreover have "stored_ok (ch_id ch) ch" if "ch = channel_from_config parse fresh now cc" for ch
    using that by (intro healthy_stored_ok) (simp add: channel_from_config_def)
  ultimately show ?thesis
    using inv mgr_inv_insert
    by (auto simp: fields reload_channel_def manager_create_def mgr_inv_def[of m] intro!: mgr_inv_update mgr_inv_insert split: option.splits)
qed

lemma fold_reload_inv: "mgr_inv (fst s) \<Longrightarrow> mgr_inv (fst (fold (reload_channel parse fresh now) cs s))"
  by (induction cs arbitrary: s) (simp_all add: reload_inv)

lemma fold_drop_inv: "mgr_inv (cs_manager (fst s)) \<Longrightarrow> mgr_inv (cs_manager (fst (fold (drop_channel ids) chs s)))"
  by (induction chs arbitrary: s) (simp_all add: drop_channel_def case_prod_unfold mgr_inv_delete)

lemma recorded_ok: "ce_audit E = A \<Longrightarrow> channels_ok A (sy_channels st) \<Longrightarrow> channels_ok A (sy_channels (recorded E a t d st))"
  by (auto simp: recorded_def channels_ok_def audit_ok_record)

lemma reload_ok:
  assumes "channels_ok A (sy_channels st)"
  shows "channels_ok A (sy_channels (fst (reload_config E parse fresh inst loaded st)))"
proof (cases loaded)
  case (Some cs)
  obtain st' r where r: "reload_config E parse fresh inst (Some cs) st = (st', r)" by fastforce
  show ?thesis
    using reload_config_parts[OF r] assms by (simp add: Some r channels_ok_def fold_drop_get(3) fold_reload_inv fold_drop_inv)
qed (use assms in \<open>simp add: reload_config_def\<close>)

lemma force_recover_inv: "mgr_inv m \<Longrightarrow> mgr_inv (force_recover m now i)"
  by (rule mgr_step_inv[OF mgr_step.force])

inductive system_step :: "audit_libs \<Rightarrow> system_state \<Rightarrow> system_state \<Rightarrow> bool" for A where
  reload: "system_step A st (fst (reload_config E parse fresh inst (loaded :: payload_rules_config channel_config list option) st))"
| cache_mode: "ce_audit E = A \<Longrightarrow> system_step A st (fst (update_cache_mode E mode st))"
| flush: "system_step A st (fst (flush_cache st))"
| strategy: "ce_audit E = A \<Longrightarrow> system_step A st (fst (update_routing_strategy E s st))"
| reset: "system_step A st (fst (reset_circuit now i st))"
| guardrails: "system_step A st (fst (update_guardrails_config c st))"
| sanitizer: "ce_audit E = A \<Longrightarrow> system_step A st (fst (update_sanitizer_config E sc st))"
| ratios: "system_step A st (fst (update_completion_ratios rs st))"
| code_create: "ce_audit E = A \<Longrightarrow> system_step A st (fst (create_redemption_code E fresh' credits expires st))"
| code_redeem: "ce_audit E = A \<Longrightarrow> system_step A st (fst (redeem_code E code st))"
| code_delete: "ce_audit E = A \<Longrightarrow> system_step A st (fst (delete_redemption_code E code st))"
| channels: "channels_step A (sy_channels st) cst \<Longrightarrow> system_step A st (st\<lparr>sy_channels := cst\<rparr>)"

text \<open>C19: the handlers of the system compose with those of the channels and with the traffic: from a well-formed start,
  through any sequence of reloads, switches, circuit resets, redemptions, edits of channels and steps of requests on
  the channel manager, the manager stays well formed and the audit log verifies. The handlers run one after the other:
  two that overlap while they record can break the chain (\<open>concurrent_records_break_chain\<close>); and the steps of requests
  are those that return: one that panics on a huge \<open>Retry-After\<close> breaks the end of a circuit.
\<close>

theorem system_admin_keeps_invariants:
  assumes "(system_step A)\<^sup>*\<^sup>* st st'" "channels_ok A (sy_channels st)"
  shows "channels_ok A (sy_channels st')"
  using assms
proof (induction rule: rtranclp_induct)
  case (step y z)
  from step.hyps(2) step.IH[OF step.prems] show ?case
  proof (induction rule: system_step.induct)
    case (reset st now i)
    then show ?case by (auto simp: reset_circuit_def channels_ok_def force_recover_inv split: option.splits)
  next
    case (channels st cst)
    then show ?case by (simp add: channels_step_ok)
  qed (auto simp: reload_ok update_cache_mode_def flush_cache_def update_routing_strategy_def update_guardrails_config_def
      update_sanitizer_config_def update_completion_ratios_def create_redemption_code_def redeem_code_def delete_redemption_code_def Let_def
      intro!: recorded_ok split: option.splits prod.splits sum.splits bool.splits)
qed

definition demo_channel_config :: "payload_rules_config channel_config" where
  "demo_channel_config = channel_to_config (\<lambda>_. ''7'') (example_channel 7)"

definition demo_admin_env :: channels_env where
  "demo_admin_env = \<lparr>ce_audit = demo_audit_libs, ce_audit_written = True, ce_crypto = demo_crypto, ce_nonce = (\<lambda>_. []), ce_written = True,
     ce_print_uuid = (\<lambda>_. ''7''), ce_parse_url = (\<lambda>_. None), ce_resolve = (\<lambda>_ _. None), ce_lower = (\<lambda>s. s),
     ce_debug_provider = (\<lambda>_. []), ce_now = 0\<rparr>"

definition demo_system :: "audit_libs \<Rightarrow> system_state" where
  "demo_system A = \<lparr>sy_channels = demo_channels A, sy_limiter = rl_new None False 0, sy_cache = cache_new 60 10 CacheOn,
     sy_strategy = WeightedRandom, sy_codes = [], sy_ratios = [], sy_guardrails = \<lparr>gr_enabled = False, gr_blocked_patterns = [], gr_allowed_patterns = [], gr_max_request_chars = 0, gr_block_message = []\<rparr>, sy_sanitizer = \<lparr>sz_enabled = True, sz_redact_secrets = True, sz_scan_response = False, sz_custom_patterns = []\<rparr>\<rparr>"

lemma system_admin_keeps_invariants_witness:
  "channels_ok demo_audit_libs (sy_channels (fst (reload_config demo_admin_env (\<lambda>_. Some 7) 0 0 (Some [demo_channel_config])
     (fst (flush_cache (demo_system demo_audit_libs))))))"
proof (rule system_admin_keeps_invariants)
  show "(system_step demo_audit_libs)\<^sup>*\<^sup>* (demo_system demo_audit_libs)
      (fst (reload_config demo_admin_env (\<lambda>_. Some 7) 0 0 (Some [demo_channel_config]) (fst (flush_cache (demo_system demo_audit_libs)))))"
    by (rule rtranclp.rtrancl_into_rtrancl[OF r_into_rtranclp[where r = "system_step demo_audit_libs", OF system_step.flush] system_step.reload])
  show "channels_ok demo_audit_libs (sy_channels (demo_system demo_audit_libs))"
    by (simp add: demo_system_def demo_channels_ok)
qed


section \<open>Switches, codes and secrets\<close>

text \<open>
  The cache mode of a request is read as the one of the configuration file is, except that an unknown word is
  refused where the file falls back to \<open>on\<close>; a switch leaves every cached entry in place.
\<close>

theorem cache_mode_switch:
  "(case mode_of_request mode of
      Some m \<Rightarrow> parse_mode mode = m \<and> ca_mode (sy_cache (fst (update_cache_mode E mode st))) = m
    | None \<Rightarrow> parse_mode mode = CacheOn \<and> fst (update_cache_mode E mode st) = st)
   \<and> ca_entries (sy_cache (fst (update_cache_mode E mode st))) = ca_entries (sy_cache st)"
  by (simp add: update_cache_mode_def mode_of_request_def parse_mode_def recorded_def Let_def)

text \<open>
  The routing strategy is set by the name it is printed with, and a name that is not printed by any strategy
  changes nothing.
\<close>

theorem routing_strategy_switch:
  "sy_strategy (fst (update_routing_strategy E (strategy_name s) st)) = s
   \<and> snd (update_routing_strategy E (strategy_name s) st) = Inr (strategy_name s)
   \<and> (n \<in> range strategy_name \<or> fst (update_routing_strategy E n st) = st)"
proof -
  have "strategy_of_request (strategy_name s) = Some s" for s by (cases s) (simp_all add: strategy_of_request_def)
  moreover have "strategy_of_request n = Some s \<Longrightarrow> n = strategy_name s" for s
    by (auto simp: strategy_of_request_def split: if_splits)
  ultimately show ?thesis
    by (auto simp: update_routing_strategy_def recorded_def split: option.splits)
qed

text \<open>
  A redemption pays once and is on record: the first valid redemption of a code answers its credits and adds one
  entry to the audit log, a second one is refused and adds none.
\<close>

theorem redemption_recorded_once:
  assumes "hm_get (sy_codes st) code = Some c" "\<not> rd_used c" "rd_expires_at c = None"
  shows "snd (redeem_code E code st) = Inr (rd_credits_cents c)
    \<and> snd (redeem_code E' code (fst (redeem_code E code st))) = Inl (400, ''code already used'')
    \<and> sy_channels (fst (redeem_code E' code (fst (redeem_code E code st)))) = sy_channels (fst (redeem_code E code st))
    \<and> (\<exists>d. cs_audit (sy_channels (fst (redeem_code E code st))) = audit_record (ce_audit E) (ce_audit_written E) (ce_now E)
          ''redemption_code.redeem'' ''admin-api'' code d (cs_audit (sy_channels st)))"
  using assms by (auto simp: redeem_code_def code_redeem_def recorded_def)

definition without_auth_secrets :: "auth_settings \<Rightarrow> auth_settings" where
  "without_auth_secrets a =
     a\<lparr>as_admin_token := map_option (\<lambda>_. []) (as_admin_token a), as_admin_roles := map (\<lambda>(_, r). ([], r)) (as_admin_roles a),
       as_ldap := map_option (\<lambda>c. c\<lparr>lc_bind_dn_template := []\<rparr>) (as_ldap a),
       as_oidc := map_option (\<lambda>c. c\<lparr>oc_client_secret := None\<rparr>) (as_oidc a)\<rparr>"

lemma auth_status_public: "auth_status (without_auth_secrets a) = auth_status a"
proof -
  have "role_count r (map (\<lambda>(_, r). ([], r)) rs) = role_count r rs" for r rs
    by (induction rs) (auto simp: role_count_def)
  then show ?thesis
    by (simp add: auth_status_def without_auth_secrets_def split: option.splits)
qed

text \<open>
  The authentication status gives no secret away: two settings that differ only in the admin token, in the tokens
  of the roles, in the bind name template and in the client secret get the same answer.
\<close>

theorem auth_status_hides_secrets:
  "without_auth_secrets a = without_auth_secrets b \<Longrightarrow> auth_status a = auth_status b"
  by (metis auth_status_public)

end
