(* ===== verification/Spec2Isabelle.thy ===== *)
theory Spec2Isabelle
  imports Router Affinity Fallback Virtual_Key Provider_Budget Persisted_Store Cache Payload_Rules
    Middleware Model_Registry Guardrails Quota Translate Gateway_Invariant Settlement
    Config_Reload Mcp_Gateway Chat_Handler Model_Api Responses_Api Side_Endpoints Health Sanitizer
    Notification Http_Pool Audit_Log Identity Admin_Keys Credential_Store Admin_Channels
    Quota_Collectors Migration Admin_Mcp Admin_System
begin

text \<open>
  ModelSwitch: a verification development of the gateway.

  ModelSwitch is a desktop gateway for language model APIs (Rust, \<open>src/src-tauri/src\<close>). A request
  names a model; the gateway authenticates the caller (virtual keys), reserves budget, looks into a
  response cache, and otherwise selects a channel (one account at one provider), rewrites the
  payload and forwards it. Failures open circuits and cooldowns and move the request to another
  channel or to a fallback model. File names below are relative to \<open>src/src-tauri/src\<close>.

  \<^bold>\<open>Theories and the code they model.\<close>

  \<^item> \<open>Prelude\<close>, \<open>Float64\<close>, \<open>Json\<close>, \<open>Keyed_Store\<close>: the vocabulary. Machine words with Rust's
    saturating operations, hash maps as association lists, bounded windows, stable sorting, text
    splitting and number parsing; double-precision arithmetic as rounded rationals; JSON values; the
    interface \<open>keyed_store\<close> of a map whose entries are changed one at a time under a lock.
  \<^item> \<open>Glob\<close>: \<open>matches_glob\<close> of \<open>channel/mod.rs\<close>, proved equal to membership in the language of the
    pattern (\<open>matches_glob_correct\<close>). Strings are bytes, so \<open>?\<close> is one byte and not one character.
  \<^item> \<open>Channel\<close>: \<open>channel/mod.rs\<close> and the channel part of \<open>config/channel.rs\<close>. The record \<open>channel\<close>,
    its circuit breaker, per-model cooldowns, price computation and configuration. Availability
    agrees with recovery, a 429 cools one model for 1 to 30 minutes, costs are monotone. \<open>chrono_sum\<close> is the
    sum of a moment and a duration that panics outside chrono's calendar; opening a circuit sets the status
    first, so that a panic leaves an open circuit without an end.
  \<^item> \<open>Channel_Manager\<close>: \<open>channel/manager.rs\<close>. The record \<open>manager\<close>, every operation as a function
    on it, the step relation \<open>mgr_step\<close> and its reachable states \<open>mgr_reachable W\<close>, where \<open>W\<close> holds the channels
    on which a call has panicked on a huge \<open>Retry-After\<close>. On every other channel open circuits have an end and
    recover; on those the circuit may stay open for ever. The progressive backoff doubles up to its cap,
    keys rotate round robin, configuration survives persist and load; the stored status is never HalfOpen, so the promotion in
    \<open>record_latency\<close> is dead; shrinking a key list makes the next credential lookup panic.
  \<^item> \<open>Trackers\<close>: \<open>router/active_requests.rs\<close>, \<open>latency_tracker.rs\<close>, \<open>cooldown.rs\<close>. The active
    count is the number of live guards for every interleaving, the 95th percentile of ten samples
    is their maximum, the failure-rate threshold is exact in double precision.
  \<^item> \<open>Sliding_Window\<close>, \<open>Redis_Limit\<close>, \<open>Rate_Limiter\<close>: \<open>proxy/rate_limiter.rs\<close> and
    \<open>proxy/redis_rate_limit.rs\<close>. The ring of buckets and the Lua script are refined to the log of
    recorded events; the channel and key limiters compose Redis with the in-memory counters; an
    outage of Redis never opens the gate; the per-key request limit holds on every interval up to the
    requests that are between their check and their record at the same time (\<open>gate_run\<close>).
  \<^item> \<open>Strategy\<close>, \<open>Router\<close>: \<open>router/strategy.rs\<close>, \<open>weighted.rs\<close>, \<open>mod.rs\<close>. The interface
    \<open>routing_strategy\<close> (a strategy chooses one of its candidates, and always chooses when there
    is one) is interpreted on the five strategies;
    \<open>select_channel\<close> is proved against it: it returns a channel exactly when one passes the
    filters, and then one of the best priority.
  \<^item> \<open>Affinity\<close>, \<open>Fallback\<close>: \<open>router/affinity.rs\<close>, \<open>router/fallback.rs\<close>. Sessions stick to their
    channel and the map stays within its capacity; fallback chains hold exactly the applicable
    models, each once.
  \<^item> \<open>Virtual_Key\<close>, \<open>Provider_Budget\<close>: \<open>virtual_key/\<close> and \<open>provider_budget.rs\<close>. Validation is exact,
    a created key validates, CIDR matching is agreement on the leading bits; under any interleaving
    within a day the counter of a key is the open reservations plus the costs charged, and exceeds the
    daily limit by at most what was charged beyond the reservations; a refund across midnight goes to the
    wrong day.
  \<^item> \<open>Persisted_Store\<close>: \<open>persisted_store.rs\<close> on a disk with crashes. The file is always the old or
    the new one, and loading restores what was persisted; a read error does not poison the store.
  \<^item> \<open>Cache\<close>: \<open>proxy/cache.rs\<close>. No hit serves another request's response, capacity and order are
    invariants; the hand-over of coalesced requests can lose a wake-up.
  \<^item> \<open>Payload_Rules\<close>: \<open>proxy/payload_rules/\<close>. Writing a dotted path satisfies the laws of a lens.

  \<^item> \<open>Token_Usage\<close>, \<open>Thinking\<close>, \<open>Translate\<close>: \<open>proxy/token_counter.rs\<close>, \<open>usage.rs\<close>, the cost routine of
    \<open>response.rs\<close>, \<open>thinking.rs\<close> and \<open>translate/\<close>. Token counting is exact, the two cost routines agree in
    double precision, conversations survive the translation to Anthropic's format and back, completions keep
    their text, tool calls and token counts, a thinking budget survives the rewriting for a provider; the usage scan loses input tokens of
    long streams, the estimate wraps, a scalar \<open>generationConfig\<close> panics.
  \<^item> \<open>Model_Registry\<close>, \<open>Guardrails\<close>, \<open>Quota\<close>, \<open>Middleware\<close>: \<open>model_registry.rs\<close>, \<open>guardrails.rs\<close>,
    \<open>quota/mod.rs\<close>, \<open>middleware/\<close>. Capability lookup is the longest prefix; moderation is exact on the
    text it sees and sees no content blocks; counters of interleaved updates add up; a redemption code
    pays once; three wrong tokens lock a new address out of the admin filter, admin access needs a permitted
    role once authentication is configured, the key
    filter lets only authentic key ids through.
  \<^item> \<open>Dispatch_Log\<close>: \<open>log.rs\<close>. The log keeps the latest entries, rotation loses only the oldest backup, the
    usage history adds up.
  \<^item> \<open>Utf8\<close>, \<open>Adaptor\<close>, \<open>Sse_Stream\<close>: decoding of bytes, \<open>proxy/provider.rs\<close>, \<open>proxy/stream.rs\<close>. A model name
    stays one URL segment, upstream credentials come from the channel alone (those a base URL with user
    info adds included), the output buffer is complete up to its capacity.
  \<^item> \<open>Gateway_State\<close>, \<open>Response\<close>, \<open>Attempt\<close>, \<open>Dispatch\<close>: \<open>proxy/state.rs\<close>, \<open>request_meta.rs\<close>, \<open>response.rs\<close>,
    \<open>attempt.rs\<close>, \<open>dispatch.rs\<close>. The record \<open>app_state\<close> composes the states of the theories above; \<open>dispatch\<close>
    is the whole handler, with every early return, composed of the operations of the other theories the
    way the code composes them. An attempt gives back the active slot it took. A JSON answer that
    takes more than sixteen keepalives hangs (\<open>race_response_with_keepalive\<close> is \<open>None\<close>, the attempt \<open>Hung\<close>, the
    request \<open>Hang\<close>); a panic is the outcome \<open>Panicked\<close> of an attempt and \<open>Crash\<close> of a request.
  \<^item> \<open>Request_Life\<close>, \<open>Gateway_Invariant\<close>, \<open>Settlement\<close>: the properties of a whole request. The interface
    \<open>attempt_invariant\<close> (what one attempt keeps, the loops keep, under any interference that keeps it, with a
    weaker promise for the state a panic leaves) is interpreted on the
    accounts and, with its extension \<open>answer_invariant\<close>, on the well-formedness of the state. A request that finds all channels exhausted is free, the number of attempts is bounded and
    the keepalive is the only place where one can hang, a panic leaves at most one channel with a circuit
    without an end (\<open>gateway_ok_but\<close>), an
    answer is settled at exactly its price; relayed errors and silent streams stay charged, and a cached
    JSON answer is served as an event stream.
  \<^item> \<open>Chat_Handler\<close>, \<open>Model_Api\<close>, \<open>Responses_Api\<close>, \<open>Side_Endpoints\<close>: the route handlers of the proxy
    (\<open>proxy/openai.rs\<close>, \<open>anthropic.rs\<close>, \<open>gemini.rs\<close>, \<open>responses.rs\<close>, \<open>embeddings.rs\<close>, \<open>images.rs\<close>). The tool
    loop of a chat request dispatches a bounded number of times and keeps the gateway well formed; the model
    list holds each name once; the Responses API keeps text and token counts; embeddings and images bypass
    the keys' limits.
  \<^item> \<open>Mcp_Manager\<close>, \<open>Mcp_Tools\<close>, \<open>Mcp_Gateway\<close>: \<open>mcp/\<close> and \<open>proxy/mcp_tools.rs\<close>. The step relation of the
    server manager keeps its entries consistent; a reload keeps the servers whose configuration is unchanged;
    an injected tool called by its injected name reaches the server that offers it; the name parser panics on
    names without a second separator.
  \<^item> \<open>Config_Reload\<close>: \<open>config/watcher.rs\<close>. A reload leaves exactly the channels of the file, builds those that differ
    in a compared field anew, keeps the others as they run and is idempotent; changes of prices are not noticed.
  \<^item> \<open>Health\<close>, \<open>Sanitizer\<close>: \<open>health/\<close> and \<open>middleware/sanitizer.rs\<close>. The probes of a tick may end in any order;
    a stream is scanned in pieces that make up the whole of it, but a secret across a boundary gets through.
  \<^item> \<open>Identity\<close>: \<open>auth/\<close>, \<open>config/auth.rs\<close>, \<open>admin/auth.rs\<close>. LDAP and OIDC sign-in. A user name cannot reach out
    of its place in the bind name, a state token is accepted for ten minutes only, a key is issued only for
    claims the provider vouched for (of the token redeemed for this code and verified with a key of the
    provider's key set, or of its user information endpoint); signing in again lifts every limit of the user's key.
  \<^item> \<open>Credential_Store\<close>: \<open>credential/\<close>. Credentials survive a restart with the same token; a start with another
    token loses them at the next write.
  \<^item> \<open>Audit_Log\<close>: \<open>admin/audit.rs\<close>. The hash chain verifies after any sequence of records, a changed entry is
    detected, paging covers the history; concurrent records break the chain.
  \<^item> \<open>Admin_Keys\<close>, \<open>Admin_Channels\<close>: \<open>admin/virtual_keys/\<close>, \<open>provider_budgets.rs\<close>, \<open>portal.rs\<close>, \<open>reports.rs\<close> and
    \<open>admin/channels/\<close>. Pages tile the list, reports add up, bulk operations count exactly; the operations on
    channels compose the channel manager, the credential store and the audit log, whose invariants hold in
    every reachable state (\<open>channels_step\<close>), traffic included.
  \<^item> \<open>Notification\<close>, \<open>Http_Pool\<close>: \<open>notification/\<close> and \<open>http_pool.rs\<close>. The budget check, which only
    tests call, reports one alert per crossing of the threshold, stored webhook addresses are checked; the pool hands out the client with the fewest guards as
    long as none has 256, where the counter wraps.
  \<^item> \<open>Quota_Collectors\<close>: \<open>quota/poller.rs\<close>, \<open>registry.rs\<close>, \<open>provider.rs\<close> and \<open>quota/collectors/\<close>. A pass touches exactly
    the enabled channels and none of the six usage counters, the poller survives every answer, a credential goes only to
    addresses the channel names; the interface \<open>quota_source\<close> is what the poller needs of a collector.
  \<^item> \<open>Migration\<close>: \<open>migration.rs\<close>. The upgrade of data files keeps the original recoverable in every crash state and
    is idempotent; a key store with one key is not recognised and is lost to \<open>Persisted_Store\<close>.
  \<^item> \<open>Admin_Mcp\<close>, \<open>Admin_System\<close>: \<open>admin/mcp.rs\<close>, \<open>admin/system.rs\<close>, \<open>admin/features.rs\<close>. The configuration file and the MCP
    manager agree in every reachable state; a requested reload leaves exactly the channels of the file; the
    handlers of the system and of the channels together with the traffic keep the invariants (\<open>system_step\<close>)
    as long as handlers do not overlap and no step panics.

  \<^bold>\<open>Conventions.\<close> State is passed explicitly; a lock that covers an operation makes it one function
  on the state, and interleavings are lists of operations or step relations. Every clock is an
  argument of the operation that reads it (\<open>int\<close> for wall clocks, \<open>nat\<close> for monotonic ones, both in
  nanoseconds unless a theory says otherwise). A hash map is an association list with distinct keys
  (\<open>hm_ok\<close>) whose order is the arbitrary iteration order, so a statement for all such lists covers
  every order. Integers keep their width and wrap as in the release profile. A finite \<open>f64\<close> is a
  rational and every operation rounds to nearest even; infinities and NaN are outside the model. A
  random draw is an arbitrary number reduced to its range. Panics and errors are values. No fuel is
  used: every loop of the modelled code is bounded by its data and is a total function.

  Code outside the repository is a parameter: the Redis connection and server clock, the keyring,
  SHA-256, blake3, the printing and parsing of UUIDs, the JSON printer and parser, the random
  generator. Properties that rely on such a parameter state it as a hypothesis.

  Concurrency: the code interleaves requests at awaits. A request is one function of the state and of
  what the others do to the state between its attempts and while it waits (\<open>de_others\<close>, \<open>de_wait\<close>), so
  a statement for all of these covers every interleaving at that grain; work spawned in the background
  is a function applied to any later state.

  \<^bold>\<open>Not modelled.\<close> The HTTP server with its start-up and wiring, TLS, metrics and tracing, the desktop shell
  with its scraping of provider pages, the parsing of the configuration file and the debouncing of its changes,
  the endpoint probes and model lists of the desktop shell, and the admin views of static configuration and
  statistics, which pass the modelled state on: they are input and output around it. Of the modelled files,
  Prometheus counters and log messages are left out, and of \<open>admin/channels/actions.rs\<close> the ping and the status view.
\<close>

end
